(* ===== verification/Acm_Prelude.thy ===== *)
theory Acm_Prelude
  imports Main "HOL-Library.Word" "HOL-Library.Monad_Syntax" "HOL-Library.Signed_Division"
begin

text \<open>
  Shared vocabulary of the development: the machine integer types, pointers, error codes of
  \<^verbatim>\<open>libacmconfig_def.h\<close> and \<^verbatim>\<open>errno.h\<close>, the two loop combinators the C functions use
  (a loop that stops at the first non-zero return code, with and without a state), and the
  generic lemmas about lists and \<open>option\<close> that the component theories share.

  Conventions. A heap address is a natural number and a pointer an optional address, \<open>None\<close>
  being NULL. A function that dereferences a pointer returns an \<open>option\<close>; \<open>None\<close> is undefined
  behaviour (a NULL or dangling pointer was read, an array was overrun, a signed counter
  overflowed). Return codes are integers with the sign the C code gives them.
\<close>

section \<open>Machine integers, pointers\<close>

unbundle bit_operations_syntax

type_synonym u8 = "8 word"
type_synonym u16 = "16 word"
type_synonym u32 = "32 word"
type_synonym u64 = "64 word"

type_synonym addr = nat
type_synonym ptr = "nat option"

definition INT_MAX :: int where
  "INT_MAX = 2147483647"

text \<open>C division of signed integers truncates towards zero.\<close>

definition c_div :: "int \<Rightarrow> int \<Rightarrow> int" where
  "c_div a b = a sdiv b"

lemma c_div_nonneg: "0 \<le> a \<Longrightarrow> 0 < b \<Longrightarrow> c_div a b = a div b"
  by (simp add: c_div_def signed_divide_int_def sgn_if)

section \<open>Error codes\<close>

definition EPERM :: int where [simp]: "EPERM = 1"
definition EIO :: int where [simp]: "EIO = 5"
definition ENOMEM :: int where [simp]: "ENOMEM = 12"
definition EFAULT :: int where [simp]: "EFAULT = 14"
definition ENODEV :: int where [simp]: "ENODEV = 19"
definition EINVAL :: int where [simp]: "EINVAL = 22"

definition EACMEGRESSFRAMESIZE :: int where [simp]: "EACMEGRESSFRAMESIZE = 140"
definition EACMOPMISSING :: int where [simp]: "EACMOPMISSING = 141"
definition EACMCONSTBUFFER :: int where [simp]: "EACMCONSTBUFFER = 142"
definition EACMREDUNDANDSTREAMS :: int where [simp]: "EACMREDUNDANDSTREAMS = 143"
definition EACMSCHEDULEEVENTS :: int where [simp]: "EACMSCHEDULEEVENTS = 144"
definition EACMLOOKUPENTRIES :: int where [simp]: "EACMLOOKUPENTRIES = 145"
definition EACMINGRESSOPERATIONS :: int where [simp]: "EACMINGRESSOPERATIONS = 146"
definition EACMEGRESSOPERATIONS :: int where [simp]: "EACMEGRESSOPERATIONS = 147"
definition EACMINCOMPATIBLEPERIOD :: int where [simp]: "EACMINCOMPATIBLEPERIOD = 148"
definition EACMSYSFSNODATA :: int where [simp]: "EACMSYSFSNODATA = 149"
definition EACMMODCYCLE :: int where [simp]: "EACMMODCYCLE = 150"
definition EACMSCHEDTIME :: int where [simp]: "EACMSCHEDTIME = 151"
definition EACMINTERNAL :: int where [simp]: "EACMINTERNAL = 153"
definition EACMDIFFCONFIG :: int where [simp]: "EACMDIFFCONFIG = 154"
definition EACMSTREAMCONFIG :: int where [simp]: "EACMSTREAMCONFIG = 155"
definition EACMNUMMESSBUFF :: int where [simp]: "EACMNUMMESSBUFF = 156"
definition EACMNOFREESCHEDTAB :: int where [simp]: "EACMNOFREESCHEDTAB = 157"
definition EACMFWDOFFSET :: int where [simp]: "EACMFWDOFFSET = 158"
definition EACMPAYLOAD :: int where [simp]: "EACMPAYLOAD = 159"
definition EACMBUFFNAME :: int where [simp]: "EACMBUFFNAME = 160"
definition EACMCONFIG :: int where [simp]: "EACMCONFIG = 161"
definition EACMCONFIGVAL :: int where [simp]: "EACMCONFIGVAL = 162"
definition EACMREDSAMEMOD :: int where [simp]: "EACMREDSAMEMOD = 163"
definition EACMNUMINSERT :: int where [simp]: "EACMNUMINSERT = 164"

section \<open>Loops that stop at the first error\<close>

text \<open>
  \<open>foreach_check f xs\<close> is the read-only loop \<open>ret = 0; FOREACH (x, xs) { ret = f (x); if (ret != 0)
  break; }\<close>; \<open>foreach_st\<close> threads a state through it.
\<close>

fun foreach_check :: "('a \<Rightarrow> int option) \<Rightarrow> 'a list \<Rightarrow> int option" where
  "foreach_check f [] = Some 0"
| "foreach_check f (x # xs) = do {
     ret \<leftarrow> f x;
     if ret \<noteq> 0 then Some ret else foreach_check f xs }"

fun foreach_st :: "('a \<Rightarrow> 's \<Rightarrow> (int \<times> 's) option) \<Rightarrow> 'a list \<Rightarrow> 's \<Rightarrow> (int \<times> 's) option" where
  "foreach_st f [] s = Some (0, s)"
| "foreach_st f (x # xs) s = do {
     (ret, s') \<leftarrow> f x s;
     if ret \<noteq> 0 then Some (ret, s') else foreach_st f xs s' }"

text \<open>A loop over pointers that cannot fail but may dereference: the state is threaded through.\<close>

fun foreach_upd :: "('a \<Rightarrow> 's \<Rightarrow> 's option) \<Rightarrow> 'a list \<Rightarrow> 's \<Rightarrow> 's option" where
  "foreach_upd f [] s = Some s"
| "foreach_upd f (x # xs) s = do { s' \<leftarrow> f x s; foreach_upd f xs s' }"

lemma foreach_check_zero_iff:
  "foreach_check f xs = Some 0 \<longleftrightarrow> (\<forall>x\<in>set xs. f x = Some 0)"
  by (induction xs) (auto simp: bind_eq_Some_conv)

lemma foreach_check_nonzero:
  assumes "foreach_check f xs = Some r" "r \<noteq> 0"
  shows "\<exists>ys x zs. xs = ys @ x # zs \<and> (\<forall>y\<in>set ys. f y = Some 0) \<and> f x = Some r"
  using assms
proof (induction xs)
  case Nil
  then show ?case by simp
next
  case (Cons a xs)
  show ?case
  proof (cases "f a = Some 0")
    case True
    with Cons obtain ys x zs where "xs = ys @ x # zs" "\<forall>y\<in>set ys. f y = Some 0" "f x = Some r"
      by auto
    with True have "a # xs = (a # ys) @ x # zs \<and> (\<forall>y\<in>set (a # ys). f y = Some 0) \<and> f x = Some r"
      by simp
    then show ?thesis by blast
  next
    case False
    with Cons.prems have "f a = Some r" by (auto simp: bind_eq_Some_conv split: if_splits)
    then have "a # xs = [] @ a # xs \<and> (\<forall>y\<in>set []. f y = Some 0) \<and> f a = Some r"
      by simp
    then show ?thesis by blast
  qed
qed

lemma foreach_check_defined:
  "(\<And>x. x \<in> set xs \<Longrightarrow> f x \<noteq> None) \<Longrightarrow> foreach_check f xs \<noteq> None"
  by (induction xs) fastforce+

lemma foreach_upd_append:
  "foreach_upd f (xs @ ys) s = Option.bind (foreach_upd f xs s) (foreach_upd f ys)"
  by (induction xs arbitrary: s) (auto split: Option.bind_split)

lemma foreach_upd_invariant:
  assumes step: "\<And>x s s'. x \<in> set xs \<Longrightarrow> I s \<Longrightarrow> f x s = Some s' \<Longrightarrow> I s'"
    and "I s" and "foreach_upd f xs s = Some s'"
  shows "I s'"
  using assms
proof (induction xs arbitrary: s)
  case Nil
  then show ?case by simp
next
  case (Cons x xs)
  from Cons.prems(3) obtain s1 where s1: "f x s = Some s1" "foreach_upd f xs s1 = Some s'"
    by (auto simp: bind_eq_Some_conv)
  have "I s1" using Cons.prems(1) [OF _ Cons.prems(2) s1(1)] by simp
  then show ?case
    by (rule Cons.IH [rotated]) (use Cons.prems(1) s1(2) in auto)
qed

lemma foreach_st_invariant:
  assumes step: "\<And>x s r s'. x \<in> set xs \<Longrightarrow> I s \<Longrightarrow> f x s = Some (r, s') \<Longrightarrow> I s'"
    and "I s" and "foreach_st f xs s = Some (r, s')"
  shows "I s'"
  using assms
proof (induction xs arbitrary: s)
  case Nil
  then show ?case by simp
next
  case (Cons x xs)
  from Cons.prems(3) obtain r1 s1 where s1: "f x s = Some (r1, s1)"
    and rest: "(if r1 \<noteq> 0 then Some (r1, s1) else foreach_st f xs s1) = Some (r, s')"
    by (auto simp: bind_eq_Some_conv split: prod.splits)
  have "I s1" using Cons.prems(1) [OF _ Cons.prems(2) s1] by simp
  show ?case
  proof (cases "r1 = 0")
    case True
    with rest have "foreach_st f xs s1 = Some (r, s')" by simp
    then show ?thesis
      by (rule Cons.IH [rotated 2]) (use Cons.prems(1) \<open>I s1\<close> in auto)
  next
    case False
    with rest \<open>I s1\<close> show ?thesis by simp
  qed
qed

section \<open>Lists of optional values\<close>

lemma those_eq_Some_iff:
  "those xs = Some ys \<longleftrightarrow> xs = map Some ys"
proof (induction xs arbitrary: ys)
  case Nil
  then show ?case by auto
next
  case (Cons x xs)
  then show ?case by (cases x; cases ys) auto
qed

lemma those_map_Some: "those (map Some xs) = Some xs"
  by (induction xs) auto

lemma those_map_Some_comp: "(\<And>x. x \<in> set xs \<Longrightarrow> f x = Some (g x)) \<Longrightarrow> those (map f xs) = Some (map g xs)"
  by (induction xs) auto

lemma those_map_in:
  "those (map f xs) = Some ys \<Longrightarrow> x \<in> set xs \<Longrightarrow> \<exists>y\<in>set ys. f x = Some y"
  by (induction xs arbitrary: ys) (auto split: option.splits)

lemma those_map_out:
  "those (map f xs) = Some ys \<Longrightarrow> y \<in> set ys \<Longrightarrow> \<exists>x\<in>set xs. f x = Some y"
  by (induction xs arbitrary: ys) (auto split: option.splits)

lemma those_length: "those xs = Some ys \<Longrightarrow> length ys = length xs"
  by (simp add: those_eq_Some_iff)

lemma those_not_None_iff: "those xs \<noteq> None \<longleftrightarrow> (\<forall>x\<in>set xs. x \<noteq> None)"
  by (induction xs) (auto split: option.splits)

section \<open>Prefixes\<close>

text \<open>\<open>take (length xs) ys = xs\<close> says that \<open>ys\<close> extends \<open>xs\<close>.\<close>

lemma take_prefix_length:
  assumes "take (length xs) ys = xs"
  shows "length xs \<le> length ys"
proof -
  have "length (take (length xs) ys) = length xs" by (simp only: assms)
  then show ?thesis by simp
qed

lemma take_prefix_nth:
  assumes "take (length xs) ys = xs" "k < length xs"
  shows "ys ! k = xs ! k"
proof -
  have "take (length xs) ys ! k = xs ! k" by (simp only: assms(1))
  then show ?thesis using assms(2) by simp
qed

lemma take_prefix_trans:
  assumes "take (length xs) ys = xs" "take (length ys) zs = ys"
  shows "take (length xs) zs = xs"
proof -
  have "take (length xs) zs = take (length xs) (take (length ys) zs)"
    using take_prefix_length [OF assms(1)] by (simp add: min_absorb1)
  then show ?thesis by (simp only: assms)
qed

section \<open>Sums\<close>

lemma sum_list_member_le_nat: "x \<in> set xs \<Longrightarrow> f x \<le> (\<Sum>x\<leftarrow>xs. f x :: nat)"
  by (induction xs) auto

lemma sum_list_take_le: "(\<Sum>x\<leftarrow>take n xs. f x :: nat) \<le> (\<Sum>x\<leftarrow>xs. f x)"
proof -
  have "(\<Sum>x\<leftarrow>xs. f x) = (\<Sum>x\<leftarrow>take n xs. f x) + (\<Sum>x\<leftarrow>drop n xs. f x)"
    by (subst append_take_drop_id [of n xs, symmetric]) (simp only: map_append sum_list_append)
  then show ?thesis by simp
qed

end
