(* ===== verification/Acm_Types.thy ===== *)
theory Acm_Types
  imports Acm_Prelude
begin

text \<open>
  The data of libacmconfig: the constants of \<^verbatim>\<open>libacmconfig_def.h\<close>, \<^verbatim>\<open>hwconfig_def.h\<close> and
  \<^verbatim>\<open>sysfs.h\<close>, the enumerations and structures of the headers (one datatype or record each), and
  the state the library works on.

  The state is an explicit heap: one finite map from addresses to records for each structure
  that other structures point to (streams, modules, configurations, schedule entries, message
  buffers). The list links of \<^verbatim>\<open>list.h\<close> are represented by their contents: a list head is a
  list of addresses in list order, and the back link \<open>ACMLIST_REF\<close> is the field naming the owner
  (the C code recovers the enclosing structure from the list head by \<^verbatim>\<open>offsetof\<close>). Operations
  and schedule-table commands are never pointed to from outside the list that owns them, so
  these lists hold the records themselves. The hardware is the log of the writes that reached it.
\<close>

section \<open>Constants\<close>

definition ACM_MAX_NAME_SIZE :: nat where [simp]: "ACM_MAX_NAME_SIZE = 55"
definition ACM_MODULES_COUNT :: nat where [simp]: "ACM_MODULES_COUNT = 2"
definition ACM_MAX_FILTER_SIZE :: nat where [simp]: "ACM_MAX_FILTER_SIZE = 112"
definition ACM_MAX_LOOKUP_SIZE :: nat where [simp]: "ACM_MAX_LOOKUP_SIZE = 16"
definition ACM_MAX_FRAME_SIZE :: int where [simp]: "ACM_MAX_FRAME_SIZE = 1528"
definition ACM_MIN_FRAME_SIZE :: int where [simp]: "ACM_MIN_FRAME_SIZE = 64"
definition MAX_PAYLOAD_HEADER_SIZE :: u32 where [simp]: "MAX_PAYLOAD_HEADER_SIZE = 1518"
definition ACM_MAX_INSERT_OPERATIONS :: int where [simp]: "ACM_MAX_INSERT_OPERATIONS = 8"
definition ACM_MAX_EGRESS_OPERATIONS :: int where [simp]: "ACM_MAX_EGRESS_OPERATIONS = 256"
definition ACM_MAX_INGRESS_OPERATIONS :: int where [simp]: "ACM_MAX_INGRESS_OPERATIONS = 256"
definition ACM_MAX_SCHEDULE_EVENTS :: nat where [simp]: "ACM_MAX_SCHEDULE_EVENTS = 1024"
definition ACM_MAX_CONST_BUFFER_SIZE :: int where [simp]: "ACM_MAX_CONST_BUFFER_SIZE = 4096"
definition ACM_MAX_REDUNDANT_STREAMS :: int where [simp]: "ACM_MAX_REDUNDANT_STREAMS = 32"
definition ACM_MAX_LOOKUP_ITEMS :: int where [simp]: "ACM_MAX_LOOKUP_ITEMS = 16"
definition MAX_TRUNC_BYTES :: u32 where [simp]: "MAX_TRUNC_BYTES = 19"
definition ACM_VLAN_ID_MIN :: int where [simp]: "ACM_VLAN_ID_MIN = 3"
definition ACM_VLAN_ID_MAX :: int where [simp]: "ACM_VLAN_ID_MAX = 4095"
definition ACM_VLAN_PRIO_MIN :: int where [simp]: "ACM_VLAN_PRIO_MIN = 0"
definition ACM_VLAN_PRIO_MAX :: int where [simp]: "ACM_VLAN_PRIO_MAX = 7"
definition RX_REDUNDANCY_SET :: int where [simp]: "RX_REDUNDANCY_SET = 1"

definition SYSFS_PATH_LENGTH :: nat where [simp]: "SYSFS_PATH_LENGTH = 90"
definition SIZE_TIMESTAMP :: u16 where [simp]: "SIZE_TIMESTAMP = 4"
definition ANZ_MIN_TICKS :: u32 where [simp]: "ANZ_MIN_TICKS = 8"
definition PRAEFIX_LENGTH :: nat where [simp]: "PRAEFIX_LENGTH = 10"
definition UINT16_T_MAX :: u32 where [simp]: "UINT16_T_MAX = 0xFFFF"
definition UINT32_T_MAX :: int where [simp]: "UINT32_T_MAX = 0xFFFFFFFF"
definition NOP_DELTA_CYCLE :: u32 where [simp]: "NOP_DELTA_CYCLE = 60000"
definition DEFAULT_REC_TIMEOUT_MS :: u32 where [simp]: "DEFAULT_REC_TIMEOUT_MS = 1000"

definition NUM_AUTOGEN_OPS :: nat where [simp]: "NUM_AUTOGEN_OPS = 3"
definition LOOKUP_START_IDX :: nat where [simp]: "LOOKUP_START_IDX = 0"
definition REDUNDANCY_START_IDX :: nat where [simp]: "REDUNDANCY_START_IDX = 1"
definition SCATTER_NOP_IDX :: nat where [simp]: "SCATTER_NOP_IDX = 0"
definition SCATTER_START_IDX :: nat where [simp]: "SCATTER_START_IDX = 1"
definition GATHER_NOP_IDX :: nat where [simp]: "GATHER_NOP_IDX = 0"
definition GATHER_FORWARD_IDX :: nat where [simp]: "GATHER_FORWARD_IDX = 1"
definition GATHER_START_IDX :: nat where [simp]: "GATHER_START_IDX = 2"
definition NUM_PREFETCH_LOCK_COMMANDS :: nat where [simp]: "NUM_PREFETCH_LOCK_COMMANDS = 4"

definition OFFSET_DEST_MAC_IN_FRAME :: u16 where [simp]: "OFFSET_DEST_MAC_IN_FRAME = 0"
definition OFFSET_SOURCE_MAC_IN_FRAME :: u16 where [simp]: "OFFSET_SOURCE_MAC_IN_FRAME = 6"
definition OFFSET_VLAN_TAG_IN_FRAME :: u16 where [simp]: "OFFSET_VLAN_TAG_IN_FRAME = 12"
definition ETHER_ADDR_LEN :: nat where [simp]: "ETHER_ADDR_LEN = 6"

text \<open>The bytes of the placeholder MAC address \<^verbatim>\<open>"sw0p23"\<close>.\<close>

definition LOCAL_SMAC_CONST :: "u8 list" where
  "LOCAL_SMAC_CONST = [0x73, 0x77, 0x30, 0x70, 0x32, 0x33]"

section \<open>Enumerations\<close>

text \<open>
  A C enumeration parameter can hold any integer. Where the code tests for a value outside the
  enumeration, the datatype has a constructor for it (the code's own \<open>MAX\<close> value, or
  \<open>..._OTHER\<close>); module ids are natural numbers, as the code compares them with a bound.
\<close>

datatype acm_operation_code = INSERT | INSERT_CONSTANT | PAD | FORWARD | READ | FORWARD_ALL | OPERATION_MAX

datatype stream_type = INGRESS_TRIGGERED_STREAM | TIME_TRIGGERED_STREAM | EVENT_STREAM
  | RECOVERY_STREAM | REDUNDANT_STREAM_TX | REDUNDANT_STREAM_RX | MAX_STREAM_TYPE

datatype acm_linkspeed = SPEED_100MBps | SPEED_1GBps | SPEED_OTHER

datatype acm_connection_mode = CONN_MODE_SERIAL | CONN_MODE_PARALLEL | CONN_MODE_OTHER

datatype acmdrv_buff_desc_type = ACMDRV_BUFF_DESC_BUFF_TYPE_RX | ACMDRV_BUFF_DESC_BUFF_TYPE_TX

datatype buff_table_type = BUFF_DESC | BUFF_ALIAS

datatype acm_capability_item = CAP_MIN_SCHEDULE_TICK | CAP_MAX_MESSAGE_BUFFER_SIZE
  | CAP_CONFIG_READBACK | CAP_DEBUG | CAP_MAX_ANZ_MESSAGE_BUFFER | CAP_MESSAGE_BUFFER_BLOCK_SIZE
  | CAP_REDUNDANCY_RX | CAP_INDIV_RECOVERY | CAP_OTHER

definition MODULE_0 :: nat where [simp]: "MODULE_0 = 0"
definition MODULE_1 :: nat where [simp]: "MODULE_1 = 1"

section \<open>Structures\<close>

record operation =
  opcode :: acm_operation_code
  op_offset :: u16
  op_length :: u16
  buffer_name :: "string option"
  op_data :: "u8 list"
  data_size :: u16
  ownership_set :: bool
  msg_buf :: ptr
  const_buff_offset :: u16

record lookup =
  lk_header :: "u8 list"
  header_mask :: "u8 list"
  filter_mask :: "u8 list"
  filter_pattern :: "u8 list"
  filter_size :: nat

record schedule_entry =
  time_start_ns :: u32
  time_end_ns :: u32
  send_time_ns :: u32
  period_ns :: u32
  schedule_list :: ptr

record fsc_command =
  fsc_cmd :: u32
  abs_cycle :: u32
  schedule_reference :: ptr

record acm_stream =
  stype :: stream_type
  stream_lookup :: "lookup option"
  operations :: "operation list"
  windows :: "addr list"
  reference :: ptr
  reference_parent :: ptr
  reference_redundant :: ptr
  indiv_recov_timeout_ms :: u32
  stream_list :: ptr
  gather_dma_index :: u16
  scatter_dma_index :: u16
  redundand_index :: u8
  lookup_index :: u8

record hw_dependent_delay =
  chip_in :: u32
  chip_eg :: u32
  phy_in :: u32
  phy_eg :: u32
  ser_bypass :: u32
  ser_switch :: u32

record timespec =
  tv_sec :: int
  tv_nsec :: int

record acm_module =
  mod_streams :: "addr list"
  conn_mode :: acm_connection_mode
  mod_speed :: acm_linkspeed
  module_id :: nat
  cycle_ns :: u32
  start_time :: timespec
  config_reference :: ptr
  fsc_list :: "fsc_command list"
  delays_100MBps :: hw_dependent_delay
  delays_1GBps :: hw_dependent_delay
  streams_locked :: bool

record sysfs_buffer =
  msg_buff_index :: u8
  msg_buff_offset :: u16
  buf_reset :: bool
  stream_direction :: acmdrv_buff_desc_type
  buff_size :: u16
  buf_timestamp :: bool
  buf_valid :: bool
  msg_buff_name :: string

record acm_config =
  bypass :: "nat \<Rightarrow> ptr"
  config_applied :: bool
  msg_buffs :: "addr list"

text \<open>
  The delays of a module are an array with one entry for each link speed: reading it at any
  other index overruns it.
\<close>

definition module_delays :: "acm_module \<Rightarrow> acm_linkspeed \<Rightarrow> hw_dependent_delay option" where
  "module_delays m sp = (case sp of
     SPEED_100MBps \<Rightarrow> Some (delays_100MBps m)
   | SPEED_1GBps \<Rightarrow> Some (delays_1GBps m)
   | SPEED_OTHER \<Rightarrow> None)"

definition schedule_delays_100MBps :: hw_dependent_delay where
  "schedule_delays_100MBps = \<lparr>chip_in = 50, chip_eg = 120, phy_in = 404, phy_eg = 444,
     ser_bypass = 2844, ser_switch = 3900\<rparr>"

definition schedule_delays_1GBps :: hw_dependent_delay where
  "schedule_delays_1GBps = \<lparr>chip_in = 50, chip_eg = 120, phy_in = 298, phy_eg = 199,
     ser_bypass = 439, ser_switch = 940\<rparr>"

section \<open>Environment and hardware\<close>

text \<open>
  What one \<^verbatim>\<open>pwrite\<close> to a sysfs attribute carries: the path, the byte offset, the size in bytes
  and the structure written.
\<close>

datatype hw_data =
    D_u32 u32
  | D_row u32 u16
  | D_cycle_time u32
  | D_start_time int int
  | D_emergency u16
  | D_bytes "u8 list"
  | D_u32s "u32 list"
  | D_alias u8 string
  | D_text string

record hw_write =
  w_path :: string
  w_offset :: nat
  w_size :: nat
  w_data :: hw_data

text \<open>
  The operating system is a parameter of the model: whether the n-th allocation succeeds, what
  \<^verbatim>\<open>open\<close>, \<^verbatim>\<open>pwrite\<close> and \<^verbatim>\<open>pread\<close> return (the last two may depend on what was written before), the
  text of the status attributes, the configuration file and the bytes its buffer holds before
  the first read, and the MAC address of an interface.
\<close>

record acm_env =
  env_alloc :: "nat \<Rightarrow> bool"
  env_open :: "string \<Rightarrow> int"
  env_pwrite :: "hw_write list \<Rightarrow> hw_write \<Rightarrow> int"
  env_pread :: "hw_write list \<Rightarrow> string \<Rightarrow> nat \<Rightarrow> nat \<Rightarrow> int + u8 list"
  env_text :: "string \<Rightarrow> string option"
  env_cfg_file :: "int + string"
  env_cfg_stack :: string
  env_mac :: "string \<Rightarrow> int + u8 list"

record acm_state =
  st_env :: acm_env
  st_next :: addr
  st_streams :: "addr \<Rightarrow> acm_stream option"
  st_modules :: "addr \<Rightarrow> acm_module option"
  st_configs :: "addr \<Rightarrow> acm_config option"
  st_scheds :: "addr \<Rightarrow> schedule_entry option"
  st_bufs :: "addr \<Rightarrow> sysfs_buffer option"
  st_hw :: "hw_write list"

section \<open>Access to the heap\<close>

text \<open>
  \<open>acm_zalloc\<close> yields a fresh address or NULL; every call uses one number of the allocation
  oracle. The \<open>mod\<close> functions write one field of one object through its pointer.
\<close>

definition acm_zalloc :: "acm_state \<Rightarrow> ptr \<times> acm_state" where
  "acm_zalloc s = (if env_alloc (st_env s) (st_next s) then Some (st_next s) else None,
     s\<lparr>st_next := Suc (st_next s)\<rparr>)"

definition mod_stream :: "addr \<Rightarrow> (acm_stream \<Rightarrow> acm_stream) \<Rightarrow> acm_state \<Rightarrow> acm_state option" where
  "mod_stream p f s = (case st_streams s p of
     None \<Rightarrow> None
   | Some x \<Rightarrow> Some (s\<lparr>st_streams := (st_streams s)(p \<mapsto> f x)\<rparr>))"

definition mod_module :: "addr \<Rightarrow> (acm_module \<Rightarrow> acm_module) \<Rightarrow> acm_state \<Rightarrow> acm_state option" where
  "mod_module p f s = (case st_modules s p of
     None \<Rightarrow> None
   | Some x \<Rightarrow> Some (s\<lparr>st_modules := (st_modules s)(p \<mapsto> f x)\<rparr>))"

definition mod_config :: "addr \<Rightarrow> (acm_config \<Rightarrow> acm_config) \<Rightarrow> acm_state \<Rightarrow> acm_state option" where
  "mod_config p f s = (case st_configs s p of
     None \<Rightarrow> None
   | Some x \<Rightarrow> Some (s\<lparr>st_configs := (st_configs s)(p \<mapsto> f x)\<rparr>))"

definition mod_sched :: "addr \<Rightarrow> (schedule_entry \<Rightarrow> schedule_entry) \<Rightarrow> acm_state \<Rightarrow> acm_state option" where
  "mod_sched p f s = (case st_scheds s p of
     None \<Rightarrow> None
   | Some x \<Rightarrow> Some (s\<lparr>st_scheds := (st_scheds s)(p \<mapsto> f x)\<rparr>))"

definition mod_buf :: "addr \<Rightarrow> (sysfs_buffer \<Rightarrow> sysfs_buffer) \<Rightarrow> acm_state \<Rightarrow> acm_state option" where
  "mod_buf p f s = (case st_bufs s p of
     None \<Rightarrow> None
   | Some x \<Rightarrow> Some (s\<lparr>st_bufs := (st_bufs s)(p \<mapsto> f x)\<rparr>))"

lemmas heap_defs = mod_stream_def mod_module_def mod_config_def mod_sched_def mod_buf_def

text \<open>The streams of a module and the schedule entries of a stream, in list order.\<close>

definition module_streams :: "acm_state \<Rightarrow> addr list \<Rightarrow> acm_stream list option" where
  "module_streams s ps = those (map (st_streams s) ps)"

definition stream_windows :: "acm_state \<Rightarrow> acm_stream \<Rightarrow> schedule_entry list option" where
  "stream_windows s st = those (map (st_scheds s) (windows st))"

definition config_buffers :: "acm_state \<Rightarrow> acm_config \<Rightarrow> sysfs_buffer list option" where
  "config_buffers s c = those (map (st_bufs s) (msg_buffs c))"

lemma mod_stream_Some_iff:
  "mod_stream p f s = Some s' \<longleftrightarrow>
     (\<exists>x. st_streams s p = Some x \<and> s' = s\<lparr>st_streams := (st_streams s)(p \<mapsto> f x)\<rparr>)"
  by (auto simp: mod_stream_def split: option.splits)

lemma mod_module_Some_iff:
  "mod_module p f s = Some s' \<longleftrightarrow>
     (\<exists>x. st_modules s p = Some x \<and> s' = s\<lparr>st_modules := (st_modules s)(p \<mapsto> f x)\<rparr>)"
  by (auto simp: mod_module_def split: option.splits)

lemma mod_config_Some_iff:
  "mod_config p f s = Some s' \<longleftrightarrow>
     (\<exists>x. st_configs s p = Some x \<and> s' = s\<lparr>st_configs := (st_configs s)(p \<mapsto> f x)\<rparr>)"
  by (auto simp: mod_config_def split: option.splits)

lemma mod_buf_Some_iff:
  "mod_buf p f s = Some s' \<longleftrightarrow>
     (\<exists>x. st_bufs s p = Some x \<and> s' = s\<lparr>st_bufs := (st_bufs s)(p \<mapsto> f x)\<rparr>)"
  by (auto simp: mod_buf_def split: option.splits)

lemma mod_sched_Some_iff:
  "mod_sched p f s = Some s' \<longleftrightarrow>
     (\<exists>x. st_scheds s p = Some x \<and> s' = s\<lparr>st_scheds := (st_scheds s)(p \<mapsto> f x)\<rparr>)"
  by (auto simp: mod_sched_def split: option.splits)

lemmas heap_Some_iff = mod_stream_Some_iff mod_module_Some_iff mod_config_Some_iff
  mod_buf_Some_iff mod_sched_Some_iff

end
