(* ===== verification/Acm_Configfile.thy ===== *)
theory Acm_Configfile
  imports Acm_Types
begin

text \<open>
  The functions of the C library the sources call on strings, the configuration file
  \<^verbatim>\<open>/etc/default/config_acm\<close> and the values read from it (\<^verbatim>\<open>sysfs_get_configfile_item\<close> and the
  functions of \<^verbatim>\<open>sysfs.c\<close> and \<^verbatim>\<open>module.c\<close> that use it). A C string is the list of its characters
  without the terminating NUL; \<^verbatim>\<open>unsigned long\<close> has 64 bits.
\<close>

section \<open>Strings and numbers\<close>

definition is_c_space :: "char \<Rightarrow> bool" where
  "is_c_space c = (of_char c = (32::nat) \<or> (9 \<le> (of_char c :: nat) \<and> (of_char c :: nat) \<le> 13))"

text \<open>The value of a character as a digit of bases up to 36.\<close>

definition c_digit :: "char \<Rightarrow> nat option" where
  "c_digit c = (let n = of_char c in
     if 48 \<le> n \<and> n \<le> 57 then Some (n - 48)
     else if 65 \<le> n \<and> n \<le> 90 then Some (n - 55)
     else if 97 \<le> n \<and> n \<le> 122 then Some (n - 87)
     else None)"

definition is_digit_of :: "nat \<Rightarrow> char \<Rightarrow> bool" where
  "is_digit_of b c = (case c_digit c of None \<Rightarrow> False | Some d \<Rightarrow> d < b)"

definition digits_value :: "nat \<Rightarrow> string \<Rightarrow> int" where
  "digits_value b ds = foldl (\<lambda>n c. n * int b + (case c_digit c of None \<Rightarrow> 0 | Some d \<Rightarrow> int d)) 0 ds"

text \<open>
  \<^verbatim>\<open>strtoul\<close> with base 10 and with base 0: white space, an optional sign, the prefix that selects
  the base, the longest digit sequence. The result is the value, whether anything was converted
  and whether it was out of range (\<^verbatim>\<open>ERANGE\<close>, with the maximum as value).
\<close>

definition c_strtoul_digits :: "nat \<Rightarrow> bool \<Rightarrow> string \<Rightarrow> u64 \<times> bool \<times> bool" where
  "c_strtoul_digits b neg s =
     (let ds = takeWhile (is_digit_of b) s; n = digits_value b ds in
      if ds = [] then (0, False, False)
      else if 2 ^ 64 \<le> n then (- 1, True, True)
      else (if neg then - word_of_int n else word_of_int n, True, False))"

definition c_sign :: "string \<Rightarrow> bool \<times> string" where
  "c_sign s = (case s of
     [] \<Rightarrow> (False, [])
   | c # cs \<Rightarrow> if c = CHR ''-'' then (True, cs) else if c = CHR ''+'' then (False, cs) else (False, s))"

definition c_strtoul10 :: "string \<Rightarrow> u64" where
  "c_strtoul10 s = (let (neg, ds) = c_sign (dropWhile is_c_space s) in
     fst (c_strtoul_digits 10 neg ds))"

definition c_strtoull0 :: "string \<Rightarrow> u64 \<times> bool \<times> bool" where
  "c_strtoull0 s = (let (neg, ds) = c_sign (dropWhile is_c_space s) in
     case ds of
       c # x # d # _ \<Rightarrow>
         if c = CHR ''0'' \<and> (x = CHR ''x'' \<or> x = CHR ''X'') \<and> is_digit_of 16 d
         then c_strtoul_digits 16 neg (drop 2 ds)
         else c_strtoul_digits (if c = CHR ''0'' then 8 else 10) neg ds
     | c # _ \<Rightarrow> c_strtoul_digits (if c = CHR ''0'' then 8 else 10) neg ds
     | [] \<Rightarrow> (0, False, False))"

text \<open>
  \<^verbatim>\<open>strcspn\<close> on a buffer that need not hold a NUL: the number of characters before the first one
  of \<open>rej\<close> (or a NUL), and \<open>None\<close> when the search leaves the buffer.
\<close>

definition c_strcspn :: "string \<Rightarrow> char list \<Rightarrow> nat option" where
  "c_strcspn buf rej = (let n = length (takeWhile (\<lambda>c. c \<noteq> CHR 0x00 \<and> c \<notin> set rej) buf) in
     if n < length buf then Some n else None)"

text \<open>
  The first \<^verbatim>\<open>strtok\<close> on a buffer: skip the delimiters, then the token up to the next delimiter or
  NUL. A buffer that ends before the NUL, and the NULL result for a string of delimiters (which
  the caller passes to \<^verbatim>\<open>strcspn\<close>), are undefined behaviour.
\<close>

definition c_strtok :: "string \<Rightarrow> char list \<Rightarrow> string option" where
  "c_strtok buf del = (let t = dropWhile (\<lambda>c. c \<in> set del) buf in
     case t of
       [] \<Rightarrow> None
     | c # _ \<Rightarrow> if c = CHR 0x00 then None
         else map_option (\<lambda>n. take n t) (c_strcspn t del))"

lemma c_strcspn_less: "c_strcspn buf rej = Some n \<Longrightarrow> n < length buf"
  by (auto simp: c_strcspn_def Let_def split: if_splits)

section \<open>The configuration file\<close>

definition KEY_PRAEFIX :: string where "KEY_PRAEFIX = ''PRAEFIX_MSG_BUFFER_FILENAME''"
definition KEY_RECOVERY_TIMEOUT_MS :: string where
  "KEY_RECOVERY_TIMEOUT_MS = ''RECOVERY_TIMEOUT_MS''"
definition DEFAULT_PRAEFIX :: string where "DEFAULT_PRAEFIX = ''acm_''"

definition blank_tab :: "char list" where
  "blank_tab = [CHR 0x20, CHR 0x09]"

definition config_value_end :: "char list" where
  "config_value_end = [CHR 0x20, CHR 0x0A, CHR 0x2C, CHR 0x09]"

text \<open>
  The value in a buffer that starts with the keyword: the text after the first blank, without
  further blanks, up to the first separator. The value must fit the space the caller provides.
\<close>

definition configfile_value :: "string \<Rightarrow> nat \<Rightarrow> (int + string) option" where
  "configfile_value buf value_length = do {
     key_end \<leftarrow> c_strcspn buf blank_tab;
     tok \<leftarrow> c_strtok (drop (key_end + 1) buf) blank_tab;
     let end_pos = length (takeWhile (\<lambda>c. c \<notin> set config_value_end) tok) in
     Some (if value_length \<le> end_pos then Inl (- EACMCONFIGVAL) else Inr (take end_pos tok)) }"

text \<open>
  The search through the file: \<open>off\<close> is the read position. A read of 100 bytes that reaches the end
  of the file leaves the tail of the buffer as it was. The search for the end of the line may
  leave the buffer (a line of 100 characters or more).
\<close>

function configfile_loop :: "string \<Rightarrow> nat \<Rightarrow> string \<Rightarrow> nat \<Rightarrow> string \<Rightarrow> (int + string) option" where
  "configfile_loop item value_length file off buf =
     (if length file \<le> off then Some (Inl (- EACMCONFIG))
      else let chunk = take 100 (drop off file); buf' = chunk @ drop (length chunk) buf in
        if take (length item) buf' = item then configfile_value buf' value_length
        else case c_strcspn buf' [CHR 0x0A] of
            None \<Rightarrow> None
          | Some end_pos \<Rightarrow> configfile_loop item value_length file (off + (end_pos + 1)) buf')"
  by pat_completeness auto
termination by (relation "measure (\<lambda>(item, v, file, off, buf). length file - off)") auto

declare configfile_loop.simps [simp del]

definition sysfs_get_configfile_item :: "acm_env \<Rightarrow> string \<Rightarrow> nat \<Rightarrow> (int + string) option" where
  "sysfs_get_configfile_item env config_item value_length = (case env_cfg_file env of
     Inl errno \<Rightarrow> Some (Inl (- errno))
   | Inr file \<Rightarrow> configfile_loop config_item value_length file 0 (env_cfg_stack env))"

section \<open>Values read from the configuration file\<close>

definition check_buff_name_against_sys_devices :: "acm_env \<Rightarrow> string \<Rightarrow> int option" where
  "check_buff_name_against_sys_devices env bname = do {
     r \<leftarrow> sysfs_get_configfile_item env KEY_PRAEFIX PRAEFIX_LENGTH;
     let praefix = (case r of Inl ret \<Rightarrow> DEFAULT_PRAEFIX | Inr v \<Rightarrow> v) in
     Some (if take (length praefix) bname = praefix then 0 else - EPERM) }"

definition sysfs_get_recovery_timeout :: "acm_env \<Rightarrow> u32 option" where
  "sysfs_get_recovery_timeout env = do {
     r \<leftarrow> sysfs_get_configfile_item env KEY_RECOVERY_TIMEOUT_MS 12;
     Some (case r of
        Inl ret \<Rightarrow> DEFAULT_REC_TIMEOUT_MS
      | Inr v \<Rightarrow> let help = c_strtoul10 v in
          if UINT32_T_MAX < uint help then DEFAULT_REC_TIMEOUT_MS else ucast help) }"

text \<open>
  A delay: \<open>Inl\<close> is the negative return code, with which the caller takes the default value.
\<close>

definition module_get_delay_value :: "acm_env \<Rightarrow> string \<Rightarrow> (int + u32) option" where
  "module_get_delay_value env config_item = do {
     r \<leftarrow> sysfs_get_configfile_item env config_item 12;
     Some (case r of
        Inl ret \<Rightarrow> Inl ret
      | Inr v \<Rightarrow> let help = c_strtoul10 v in
          if UINT32_T_MAX < uint help then Inl (- EINVAL) else Inr (ucast help)) }"

definition delay_or_default :: "acm_env \<Rightarrow> string \<Rightarrow> u32 \<Rightarrow> u32 option" where
  "delay_or_default env config_item dflt = do {
     r \<leftarrow> module_get_delay_value env config_item;
     Some (case r of Inl ret \<Rightarrow> dflt | Inr v \<Rightarrow> v) }"

definition read_delays :: "acm_env \<Rightarrow> string \<Rightarrow> hw_dependent_delay \<Rightarrow> hw_dependent_delay option" where
  "read_delays env speed_text d = do {
     ci \<leftarrow> delay_or_default env (''HW_DELAY_'' @ speed_text @ ''_CHIP_IN_NS'') (chip_in d);
     ce \<leftarrow> delay_or_default env (''HW_DELAY_'' @ speed_text @ ''_CHIP_EG_NS'') (chip_eg d);
     pin \<leftarrow> delay_or_default env (''HW_DELAY_'' @ speed_text @ ''_PHY_IN_NS'') (phy_in d);
     peg \<leftarrow> delay_or_default env (''HW_DELAY_'' @ speed_text @ ''_PHY_EG_NS'') (phy_eg d);
     sb \<leftarrow> delay_or_default env (''HW_DELAY_'' @ speed_text @ ''_SER_BYPASS_NS'') (ser_bypass d);
     ss \<leftarrow> delay_or_default env (''HW_DELAY_'' @ speed_text @ ''_SER_SWITCH_NS'') (ser_switch d);
     Some \<lparr>chip_in = ci, chip_eg = ce, phy_in = pin, phy_eg = peg, ser_bypass = sb, ser_switch = ss\<rparr> }"

definition module_init_delays :: "acm_env \<Rightarrow> acm_module \<Rightarrow> acm_module option" where
  "module_init_delays env m = do {
     d100 \<leftarrow> read_delays env ''100MBps'' schedule_delays_100MBps;
     d1000 \<leftarrow> read_delays env ''1GBps'' schedule_delays_1GBps;
     Some (m\<lparr>delays_100MBps := d100, delays_1GBps := d1000\<rparr>) }"

section \<open>Lemmas\<close>

text \<open>Without a configuration file every value is its default.\<close>

lemma no_file_item:
  "env_cfg_file env = Inl e \<Longrightarrow> sysfs_get_configfile_item env k n = Some (Inl (- e))"
  by (simp add: sysfs_get_configfile_item_def)

lemma no_file_buff_name:
  "env_cfg_file env = Inl e \<Longrightarrow>
   check_buff_name_against_sys_devices env n = Some (if take 4 n = ''acm_'' then 0 else - EPERM)"
  by (simp add: check_buff_name_against_sys_devices_def no_file_item DEFAULT_PRAEFIX_def
      eval_nat_numeral)

lemma no_file_delays:
  "env_cfg_file env = Inl e \<Longrightarrow>
   module_init_delays env m = Some (m\<lparr>delays_100MBps := schedule_delays_100MBps,
     delays_1GBps := schedule_delays_1GBps\<rparr>)"
  by (simp add: module_init_delays_def read_delays_def delay_or_default_def module_get_delay_value_def
      no_file_item)

lemma check_buff_name_range:
  "check_buff_name_against_sys_devices env n = Some r \<Longrightarrow> r = 0 \<or> r = - EPERM"
  by (auto simp: check_buff_name_against_sys_devices_def Let_def bind_eq_Some_conv split: if_splits)

text \<open>
  A line that is shorter than the buffer and does not start with the keyword is skipped: the
  search goes on at the next line.
\<close>

lemma configfile_loop_skip:
  assumes line: "drop off file = l @ CHR 0x0A # rest" "length l < 100"
    and chars: "CHR 0x0A \<notin> set l" "CHR 0x00 \<notin> set l"
    and other: "\<And>buf'. take (length item) (take 100 (drop off file) @ buf') \<noteq> item"
  shows "\<exists>buf'. configfile_loop item n file off buf =
      configfile_loop item n file (off + length l + 1) buf' \<and>
      length buf' = max (length buf) (min 100 (length (drop off file)))"
proof -
  let ?chunk = "take 100 (drop off file)"
  let ?buf = "?chunk @ drop (length ?chunk) buf"
  have "off < length file"
    using line(1) by (metis drop_eq_Nil2 append_is_Nil_conv list.distinct(2) linorder_not_le)
  obtain k where k: "100 = Suc k" "length l \<le> k" using line(2) by (metis Suc_leI less_Suc_eq_le
        numeral_eq_Suc)
  have chunk: "?chunk = l @ CHR 0x0A # take (99 - length l) rest"
    using line by (simp add: take_Cons')
  have tw: "takeWhile (\<lambda>c. c \<noteq> CHR 0x00 \<and> c \<notin> set [CHR 0x0A]) (l @ CHR 0x0A # t) = l" for t
    using chars by (induction l) auto
  have "c_strcspn ?buf [CHR 0x0A] = Some (length l)"
    unfolding c_strcspn_def chunk append.assoc append_Cons tw Let_def by simp
  then have "configfile_loop item n file off buf = configfile_loop item n file (off + length l + 1) ?buf"
    using \<open>off < length file\<close> other
    by (subst configfile_loop.simps) (simp add: Let_def add.assoc)
  moreover have "length ?buf = max (length buf) (min 100 (length (drop off file)))"
    by (auto simp: max_def min_def)
  ultimately show ?thesis by blast
qed

end
