(* ===== verification/Acm_Operation.thy ===== *)
theory Acm_Operation
  imports Acm_Configfile
begin

text \<open>
  Frame operations (\<^verbatim>\<open>operation.c\<close>): the constructors with their guards, the bulk operations on an
  operation list, and the replacement of the placeholder source MAC address. Adding an operation
  to a list validates the stream and stands in \<^verbatim>\<open>Acm_Stream\<close>. The invariant \<open>op_wf\<close> is what the
  constructors establish and every later step keeps.
\<close>

section \<open>Allocation followed by a NULL test\<close>

text \<open>\<open>zalloc_then f\<close> is \<open>p = acm_zalloc (...); if (!p) return NULL; f p\<close>.\<close>

definition zalloc_then :: "(addr \<Rightarrow> acm_state \<Rightarrow> 'a option \<times> acm_state) \<Rightarrow> acm_state \<Rightarrow> 'a option \<times> acm_state" where
  "zalloc_then f s = (case acm_zalloc s of (None, s') \<Rightarrow> (None, s') | (Some p, s') \<Rightarrow> f p s')"

section \<open>Constructors\<close>

text \<open>The admissible lengths of each operation (the table has no row for the other codes).\<close>

fun op_boundary :: "acm_operation_code \<Rightarrow> nat \<times> nat" where
  "op_boundary INSERT = (3, 1500)"
| "op_boundary INSERT_CONSTANT = (1, 1500)"
| "op_boundary PAD = (1, 1500)"
| "op_boundary FORWARD = (2, 1508)"
| "op_boundary READ = (4, 1528)"
| "op_boundary _ = (0, 0)"

definition zero_operation :: operation where
  "zero_operation = \<lparr>opcode = INSERT, op_offset = 0, op_length = 0, buffer_name = None, op_data = [],
     data_size = 0, ownership_set = False, msg_buf = None, const_buff_offset = 0\<rparr>"

definition operation_create_insert ::
  "u16 \<Rightarrow> string option \<Rightarrow> acm_state \<Rightarrow> (operation option \<times> acm_state) option" where
  "operation_create_insert len bname s = (case bname of
     None \<Rightarrow> Some (None, s)
   | Some n \<Rightarrow>
       if ACM_MAX_NAME_SIZE < length n \<or> length n = 0 then Some (None, s)
       else do {
         ret \<leftarrow> check_buff_name_against_sys_devices (st_env s) n;
         if ret \<noteq> 0 then Some (None, s)
         else if unat len < fst (op_boundary INSERT) then Some (None, s)
         else if snd (op_boundary INSERT) < unat len then Some (None, s)
         else Some (zalloc_then (\<lambda>_. zalloc_then (\<lambda>_ s'.
           (Some (zero_operation\<lparr>opcode := INSERT, op_length := len, buffer_name := Some n\<rparr>), s'))) s) })"

text \<open>\<open>data\<close> holds the bytes readable at the pointer: \<^verbatim>\<open>memcpy\<close> must find \<open>dsize\<close> of them.\<close>

definition operation_create_insertconstant ::
  "u8 list \<Rightarrow> u16 \<Rightarrow> acm_state \<Rightarrow> (operation option \<times> acm_state) option" where
  "operation_create_insertconstant data dsize s =
     (if unat dsize < fst (op_boundary INSERT_CONSTANT) then Some (None, s)
      else if snd (op_boundary INSERT_CONSTANT) < unat dsize then Some (None, s)
      else case zalloc_then (\<lambda>_. zalloc_then (\<lambda>_ s'. (Some (), s'))) s of
          (None, s') \<Rightarrow> Some (None, s')
        | (Some _, s') \<Rightarrow>
            if length data < unat dsize then None
            else Some (Some (zero_operation\<lparr>opcode := INSERT_CONSTANT, op_length := dsize,
              op_data := take (unat dsize) data, data_size := dsize\<rparr>), s'))"

definition operation_create_pad :: "u16 \<Rightarrow> u8 \<Rightarrow> acm_state \<Rightarrow> operation option \<times> acm_state" where
  "operation_create_pad len pad_value s =
     (if unat len < fst (op_boundary PAD) then (None, s)
      else if snd (op_boundary PAD) < unat len then (None, s)
      else zalloc_then (\<lambda>_. zalloc_then (\<lambda>_ s'.
        (Some (zero_operation\<lparr>opcode := PAD, op_length := len, op_data := [pad_value], data_size := 1\<rparr>),
         s'))) s)"

definition operation_create_forward :: "u16 \<Rightarrow> u16 \<Rightarrow> acm_state \<Rightarrow> operation option \<times> acm_state" where
  "operation_create_forward off len s =
     (if unat len < fst (op_boundary FORWARD) then (None, s)
      else if snd (op_boundary FORWARD) < unat len then (None, s)
      else if ACM_MAX_FRAME_SIZE < uint off + uint len then (None, s)
      else zalloc_then (\<lambda>_ s'.
        (Some (zero_operation\<lparr>opcode := FORWARD, op_offset := off, op_length := len\<rparr>), s')) s)"

definition operation_create_read ::
  "u16 \<Rightarrow> u16 \<Rightarrow> string option \<Rightarrow> acm_state \<Rightarrow> (operation option \<times> acm_state) option" where
  "operation_create_read off len bname s = (case bname of
     None \<Rightarrow> Some (None, s)
   | Some n \<Rightarrow>
       if ACM_MAX_NAME_SIZE < length n \<or> length n = 0 then Some (None, s)
       else do {
         ret \<leftarrow> check_buff_name_against_sys_devices (st_env s) n;
         if ret \<noteq> 0 then Some (None, s)
         else if unat len < fst (op_boundary READ) then Some (None, s)
         else if snd (op_boundary READ) < unat len then Some (None, s)
         else if ACM_MAX_FRAME_SIZE < uint off + uint len then Some (None, s)
         else Some (zalloc_then (\<lambda>_. zalloc_then (\<lambda>_ s'.
           (Some (zero_operation\<lparr>opcode := READ, op_length := len, op_offset := off,
              buffer_name := Some n\<rparr>), s'))) s) })"

definition operation_create_forwardall :: "acm_state \<Rightarrow> operation option \<times> acm_state" where
  "operation_create_forwardall s =
     zalloc_then (\<lambda>_ s'. (Some (zero_operation\<lparr>opcode := FORWARD_ALL\<rparr>), s')) s"

section \<open>Operation lists\<close>

fun operation_list_flush :: "operation list \<Rightarrow> operation list" where
  "operation_list_flush [] = []"
| "operation_list_flush (op # ops) = operation_list_flush ops"

text \<open>
  The operations after the automatically generated ones are removed one at a time: the element
  after the third one, as long as the list has more than three.
\<close>

function flush_user_loop :: "operation list \<Rightarrow> operation list" where
  "flush_user_loop ops = (if length ops \<le> NUM_AUTOGEN_OPS then ops
     else flush_user_loop (take NUM_AUTOGEN_OPS ops @ drop (NUM_AUTOGEN_OPS + 1) ops))"
  by pat_completeness auto
termination by (relation "measure length") auto

declare flush_user_loop.simps [simp del]

definition operation_list_flush_user :: "operation list \<Rightarrow> operation list" where
  "operation_list_flush_user ops = (if length ops \<le> NUM_AUTOGEN_OPS then ops else flush_user_loop ops)"

text \<open>\<open>ACMLIST_REMOVE\<close> of the operation at a position of its list.\<close>

definition operation_list_remove_operation :: "operation list \<Rightarrow> nat \<Rightarrow> operation list" where
  "operation_list_remove_operation ops i = take i ops @ drop (Suc i) ops"

section \<open>Source MAC address\<close>

definition PORT_MODULE_0 :: string where "PORT_MODULE_0 = ''sw0p2''"
definition PORT_MODULE_1 :: string where "PORT_MODULE_1 = ''sw0p3''"

definition get_mac_address :: "acm_env \<Rightarrow> string \<Rightarrow> int + u8 list" where
  "get_mac_address env ifname = (case env_mac env ifname of
     Inl errno \<Rightarrow> Inl (- errno) | Inr mac \<Rightarrow> Inr (take ETHER_ADDR_LEN mac))"

text \<open>
  \<open>memcmp (LOCAL_SMAC_CONST, data, 6) == 0\<close>. The comparison is decided at the first difference;
  constant data that is a proper prefix of the placeholder is read past its end.
\<close>

definition smac_placeholder :: "u8 list \<Rightarrow> bool option" where
  "smac_placeholder data =
     (if ETHER_ADDR_LEN \<le> length data then Some (take ETHER_ADDR_LEN data = LOCAL_SMAC_CONST)
      else if take (length data) LOCAL_SMAC_CONST = data then None
      else Some False)"

definition update_smac_op :: "u8 list \<Rightarrow> operation \<Rightarrow> operation option" where
  "update_smac_op mac op =
     (if opcode op = INSERT_CONSTANT then do {
        eq \<leftarrow> smac_placeholder (op_data op);
        Some (if eq then op\<lparr>op_data := mac @ drop ETHER_ADDR_LEN (op_data op)\<rparr> else op) }
      else Some op)"

definition module_mac :: "acm_env \<Rightarrow> nat \<Rightarrow> int + u8 list" where
  "module_mac env mid =
     (if mid = MODULE_0 then get_mac_address env PORT_MODULE_0
      else if mid = MODULE_1 then get_mac_address env PORT_MODULE_1
      else Inl (- EACMINTERNAL))"

definition operation_list_update_smac ::
  "acm_env \<Rightarrow> operation list \<Rightarrow> nat \<Rightarrow> (int \<times> operation list) option" where
  "operation_list_update_smac env ops mid = (case module_mac env mid of
     Inl ret \<Rightarrow> Some (ret, ops)
   | Inr mac \<Rightarrow> do { ops' \<leftarrow> those (map (update_smac_op mac) ops); Some (0, ops') })"

section \<open>What the constructors establish\<close>

definition name_ok :: "operation \<Rightarrow> bool" where
  "name_ok op = (case buffer_name op of
     None \<Rightarrow> False | Some n \<Rightarrow> n \<noteq> [] \<and> length n \<le> ACM_MAX_NAME_SIZE)"

definition length_ok :: "operation \<Rightarrow> bool" where
  "length_ok op = (fst (op_boundary (opcode op)) \<le> unat (op_length op) \<and>
     unat (op_length op) \<le> snd (op_boundary (opcode op)))"

definition in_frame :: "operation \<Rightarrow> bool" where
  "in_frame op = (unat (op_offset op) + unat (op_length op) \<le> 1528)"

definition op_wf :: "operation \<Rightarrow> bool" where
  "op_wf op = (length_ok op \<and> in_frame op \<and> unat (data_size op) = length (op_data op) \<and>
     (case opcode op of
        INSERT \<Rightarrow> name_ok op \<and> op_data op = []
      | INSERT_CONSTANT \<Rightarrow> length (op_data op) = unat (op_length op)
      | PAD \<Rightarrow> length (op_data op) = 1
      | FORWARD \<Rightarrow> op_data op = []
      | READ \<Rightarrow> name_ok op \<and> op_data op = []
      | FORWARD_ALL \<Rightarrow> op_length op = 0
      | OPERATION_MAX \<Rightarrow> False))"

lemmas op_wf_defs = op_wf_def length_ok_def in_frame_def name_ok_def zero_operation_def

lemma zalloc_then_Some_iff:
  "zalloc_then f s = (Some x, s') \<longleftrightarrow>
     env_alloc (st_env s) (st_next s) \<and> f (st_next s) (s\<lparr>st_next := Suc (st_next s)\<rparr>) = (Some x, s')"
  by (auto simp: zalloc_then_def acm_zalloc_def)

lemma frame_guard:
  "1528 < uint (a :: u16) + uint (b :: u16) \<longleftrightarrow> 1528 < unat a + unat b"
  using uint_ge_0 [of a] uint_ge_0 [of b] unfolding unat_eq_nat_uint by arith

lemma insert_wf:
  "operation_create_insert len n s = Some (Some op, s') \<Longrightarrow> op_wf op \<and> opcode op = INSERT"
  by (auto simp: operation_create_insert_def zalloc_then_Some_iff bind_eq_Some_conv op_wf_defs
      frame_guard split: option.splits if_splits)

lemma insertconstant_wf:
  "operation_create_insertconstant d n s = Some (Some op, s') \<Longrightarrow>
   op_wf op \<and> opcode op = INSERT_CONSTANT \<and> op_data op = take (unat n) d"
  by (auto simp: operation_create_insertconstant_def op_wf_defs frame_guard
      split: option.splits if_splits prod.splits)

lemma pad_wf:
  "operation_create_pad len v s = (Some op, s') \<Longrightarrow> op_wf op \<and> opcode op = PAD \<and> op_data op = [v]"
  by (auto simp: operation_create_pad_def zalloc_then_Some_iff op_wf_defs frame_guard split: if_splits)

lemma forward_wf:
  "operation_create_forward off len s = (Some op, s') \<Longrightarrow> op_wf op \<and> opcode op = FORWARD"
  by (auto simp: operation_create_forward_def zalloc_then_Some_iff op_wf_defs frame_guard
      split: if_splits)

lemma read_wf:
  "operation_create_read off len n s = Some (Some op, s') \<Longrightarrow> op_wf op \<and> opcode op = READ"
  by (auto simp: operation_create_read_def zalloc_then_Some_iff bind_eq_Some_conv op_wf_defs frame_guard
      split: option.splits if_splits)

lemma forwardall_wf:
  "operation_create_forwardall s = (Some op, s') \<Longrightarrow> op_wf op \<and> opcode op = FORWARD_ALL"
  by (auto simp: operation_create_forwardall_def zalloc_then_Some_iff op_wf_defs)

lemma op_wf_length: "op_wf op \<Longrightarrow> unat (op_length op) \<le> 1528"
  by (cases "opcode op") (auto simp: op_wf_def length_ok_def)

section \<open>The list operations\<close>

lemma operation_list_flush_empty: "operation_list_flush ops = []"
  by (induction ops) auto

lemma flush_user_loop_take: "flush_user_loop ops = take NUM_AUTOGEN_OPS ops"
proof (induction ops rule: flush_user_loop.induct)
  case (1 ops)
  then show ?case by (subst flush_user_loop.simps) (auto simp: min_def)
qed

lemma flush_user_take: "operation_list_flush_user ops = take NUM_AUTOGEN_OPS ops"
  by (simp add: operation_list_flush_user_def flush_user_loop_take)

lemma remove_appended: "operation_list_remove_operation (ops @ [op]) (length ops) = ops"
  by (simp add: operation_list_remove_operation_def)

section \<open>The source MAC address\<close>

lemma update_smac_op_other: "opcode op \<noteq> INSERT_CONSTANT \<Longrightarrow> update_smac_op mac op = Some op"
  by (simp add: update_smac_op_def)

lemma update_smac_op_keeps:
  assumes "update_smac_op mac op = Some op'" "length mac = 6"
  shows "op' = op\<lparr>op_data := op_data op'\<rparr> \<and> length (op_data op') = length (op_data op)"
  using assms
  by (auto simp: update_smac_op_def smac_placeholder_def bind_eq_Some_conv split: if_splits)

lemma update_smac_op_wf:
  assumes "update_smac_op mac op = Some op'" "length mac = 6" "op_wf op"
  shows "op_wf op'"
proof (cases "opcode op = INSERT_CONSTANT")
  case True
  obtain d where d: "op' = op\<lparr>op_data := d\<rparr>" "length d = length (op_data op)"
    using update_smac_op_keeps [OF assms(1,2)] by (metis operation.update_convs(5) operation.surjective)
  show ?thesis using assms(3) True unfolding d(1)
    by (simp add: op_wf_def length_ok_def in_frame_def d(2))
next
  case False
  with assms show ?thesis by (simp add: update_smac_op_other)
qed

text \<open>
  Once the placeholder is replaced, a further update (with any address) leaves the operation as it
  is, unless the address is the placeholder itself.
\<close>

lemma update_smac_op_idem:
  assumes "update_smac_op mac op = Some op'" "length mac = 6" "mac \<noteq> LOCAL_SMAC_CONST"
  shows "update_smac_op mac2 op' = Some op'"
  using assms
  by (auto simp: update_smac_op_def smac_placeholder_def bind_eq_Some_conv split: if_splits)

lemma module_mac_cases:
  "module_mac env mid = (if mid = 0 then get_mac_address env ''sw0p2''
     else if mid = 1 then get_mac_address env ''sw0p3'' else Inl (- 153))"
  by (simp add: module_mac_def PORT_MODULE_0_def PORT_MODULE_1_def)

end
