(* ===== verification/Acm_Stream_Index.thy ===== *)
theory Acm_Stream_Index
  imports Acm_Operation
begin

text \<open>
  The position of a stream's commands in the hardware tables (the counting functions and
  \<^verbatim>\<open>calculate_*_indizes\<close> of \<^verbatim>\<open>stream.c\<close>). The three loops that hand out table rows have one shape:
  a running index of fixed width, which each stream takes and advances by the rows it needs.
  The locale \<open>table_layout\<close> states the contract of one step of such a loop and proves what the
  loop then guarantees: rows of different streams do not overlap, no row lies beyond the sum of
  the needs, and the index does not wrap when that sum fits. It is interpreted on the lookup,
  the gather DMA and the scatter DMA loop.
\<close>

section \<open>Counting operations\<close>

fun count_operations :: "(operation \<Rightarrow> bool) \<Rightarrow> operation list \<Rightarrow> nat" where
  "count_operations P [] = 0"
| "count_operations P (op # ops) = (if P op then count_operations P ops + 1 else count_operations P ops)"

fun stream_has_operation_x :: "operation list \<Rightarrow> acm_operation_code \<Rightarrow> bool" where
  "stream_has_operation_x [] code = False"
| "stream_has_operation_x (op # ops) code = (if opcode op = code then True else stream_has_operation_x ops code)"

definition stream_num_operations_x :: "acm_stream \<Rightarrow> acm_operation_code \<Rightarrow> nat" where
  "stream_num_operations_x st code = count_operations (\<lambda>op. opcode op = code) (operations st)"

definition is_gather_op :: "operation \<Rightarrow> bool" where
  "is_gather_op op = (opcode op = INSERT \<or> opcode op = INSERT_CONSTANT \<or> opcode op = PAD \<or>
     opcode op = FORWARD \<or> opcode op = FORWARD_ALL)"

definition stream_num_gather_ops :: "acm_stream \<Rightarrow> nat" where
  "stream_num_gather_ops st = (let n = count_operations is_gather_op (operations st) in
     if stype st = REDUNDANT_STREAM_TX then n + 1 else n)"

definition stream_num_scatter_ops :: "acm_stream \<Rightarrow> nat" where
  "stream_num_scatter_ops st = count_operations (\<lambda>op. opcode op = READ) (operations st)"

definition stream_num_prefetch_ops :: "acm_stream \<Rightarrow> nat" where
  "stream_num_prefetch_ops st = (let n = stream_num_operations_x st INSERT in
     if 0 < n then n + NUM_PREFETCH_LOCK_COMMANDS else n + 1)"

section \<open>The loops over the streams of a module\<close>

text \<open>The loop body gets the stream and the running index, and yields both updated.\<close>

fun index_loop :: "(acm_stream \<Rightarrow> 'w::len word \<Rightarrow> acm_stream \<times> 'w word) \<Rightarrow> addr list \<Rightarrow> 'w word \<Rightarrow>
    acm_state \<Rightarrow> acm_state option" where
  "index_loop step [] i s = Some s"
| "index_loop step (p # ps) i s = do {
     st \<leftarrow> st_streams s p;
     let (st', i') = step st i in do {
       s' \<leftarrow> mod_stream p (\<lambda>_. st') s;
       index_loop step ps i' s' } }"

definition lookup_step :: "acm_stream \<Rightarrow> u8 \<Rightarrow> acm_stream \<times> u8" where
  "lookup_step st i = (if stype st = INGRESS_TRIGGERED_STREAM \<or> stype st = REDUNDANT_STREAM_RX
     then (st\<lparr>lookup_index := i\<rparr>, i + 1) else (st\<lparr>lookup_index := 0\<rparr>, i))"

definition calculate_lookup_indizes :: "addr list \<Rightarrow> acm_state \<Rightarrow> acm_state option" where
  "calculate_lookup_indizes ps s = index_loop lookup_step ps (word_of_nat LOOKUP_START_IDX) s"

definition gather_step :: "acm_stream \<Rightarrow> u16 \<Rightarrow> acm_stream \<times> u16" where
  "gather_step st i = (let num_ops = word_of_nat (stream_num_gather_ops st) :: u16;
       num_prefetch_commands = word_of_nat (stream_num_prefetch_ops st) :: u16 in
     if num_ops = 0 then (st\<lparr>gather_dma_index := word_of_nat GATHER_NOP_IDX\<rparr>, i)
     else if num_ops = 1 \<and> stream_has_operation_x (operations st) FORWARD_ALL
     then (st\<lparr>gather_dma_index := word_of_nat GATHER_FORWARD_IDX\<rparr>, i)
     else (st\<lparr>gather_dma_index := i\<rparr>,
       if num_prefetch_commands \<le> num_ops then i + num_ops else i + num_prefetch_commands))"

definition calculate_gather_indizes :: "addr list \<Rightarrow> acm_state \<Rightarrow> acm_state option" where
  "calculate_gather_indizes ps s = index_loop gather_step ps (word_of_nat GATHER_START_IDX) s"

definition scatter_step :: "acm_stream \<Rightarrow> u16 \<Rightarrow> acm_stream \<times> u16" where
  "scatter_step st i = (if stype st = INGRESS_TRIGGERED_STREAM \<or> stype st = REDUNDANT_STREAM_RX
     then (let num_ops = word_of_nat (stream_num_scatter_ops st) :: u16 in
       if num_ops = 0 then (st\<lparr>scatter_dma_index := word_of_nat SCATTER_NOP_IDX\<rparr>, i)
       else (st\<lparr>scatter_dma_index := i\<rparr>, i + num_ops))
     else (st\<lparr>scatter_dma_index := word_of_nat SCATTER_NOP_IDX\<rparr>, i))"

definition calculate_scatter_indizes :: "addr list \<Rightarrow> acm_state \<Rightarrow> acm_state option" where
  "calculate_scatter_indizes ps s = index_loop scatter_step ps (word_of_nat SCATTER_START_IDX) s"

text \<open>The redundancy index is also written to the partner, which is in another list.\<close>

definition is_redundant :: "acm_stream \<Rightarrow> bool" where
  "is_redundant st = (stype st = REDUNDANT_STREAM_TX \<or> stype st = REDUNDANT_STREAM_RX)"

fun redundancy_loop :: "addr list \<Rightarrow> u8 \<Rightarrow> acm_state \<Rightarrow> acm_state option" where
  "redundancy_loop [] i s = Some s"
| "redundancy_loop (p # ps) i s = do {
     st \<leftarrow> st_streams s p;
     if is_redundant st then do {
       s1 \<leftarrow> mod_stream p (\<lambda>x. x\<lparr>redundand_index := i\<rparr>) s;
       q \<leftarrow> reference_redundant st;
       s2 \<leftarrow> mod_stream q (\<lambda>x. x\<lparr>redundand_index := i\<rparr>) s1;
       redundancy_loop ps (i + 1) s2 }
     else do {
       s1 \<leftarrow> mod_stream p (\<lambda>x. x\<lparr>redundand_index := 0\<rparr>) s;
       redundancy_loop ps i s1 } }"

definition calculate_redundancy_indizes :: "addr list \<Rightarrow> acm_state \<Rightarrow> acm_state option" where
  "calculate_redundancy_indizes ps s = redundancy_loop ps (word_of_nat REDUNDANCY_START_IDX) s"

definition calculate_indizes_for_HW_tables ::
  "addr list \<Rightarrow> addr \<Rightarrow> acm_state \<Rightarrow> (int \<times> acm_state) option" where
  "calculate_indizes_for_HW_tables ps p s = do {
     st \<leftarrow> st_streams s p;
     case stype st of
       INGRESS_TRIGGERED_STREAM \<Rightarrow> do {
         s1 \<leftarrow> calculate_lookup_indizes ps s;
         s2 \<leftarrow> calculate_scatter_indizes ps s1;
         s3 \<leftarrow> calculate_gather_indizes ps s2;
         Some (0, s3) }
     | REDUNDANT_STREAM_RX \<Rightarrow> do {
         s1 \<leftarrow> calculate_lookup_indizes ps s;
         s2 \<leftarrow> calculate_redundancy_indizes ps s1;
         s3 \<leftarrow> calculate_scatter_indizes ps s2;
         Some (0, s3) }
     | TIME_TRIGGERED_STREAM \<Rightarrow> do {
         s1 \<leftarrow> calculate_redundancy_indizes ps s;
         s2 \<leftarrow> calculate_gather_indizes ps s1;
         Some (0, s2) }
     | REDUNDANT_STREAM_TX \<Rightarrow> do {
         s1 \<leftarrow> calculate_redundancy_indizes ps s;
         s2 \<leftarrow> calculate_gather_indizes ps s1;
         Some (0, s2) }
     | EVENT_STREAM \<Rightarrow> do { s1 \<leftarrow> calculate_gather_indizes ps s; Some (0, s1) }
     | RECOVERY_STREAM \<Rightarrow> do { s1 \<leftarrow> calculate_gather_indizes ps s; Some (0, s1) }
     | MAX_STREAM_TYPE \<Rightarrow> Some (- EACMINTERNAL, s) }"

fun stream_in_list :: "addr list \<Rightarrow> addr \<Rightarrow> bool" where
  "stream_in_list [] p = False"
| "stream_in_list (q # qs) p = (if q = p then True else stream_in_list qs p)"

section \<open>Counting lemmas\<close>

lemma count_operations_filter: "count_operations P ops = length (filter P ops)"
  by (induction ops) auto

lemma count_operations_append: "count_operations P (xs @ ys) = count_operations P xs + count_operations P ys"
  by (simp add: count_operations_filter)

lemma count_operations_le: "count_operations P ops \<le> length ops"
  by (simp add: count_operations_filter)

lemma count_operations_mono:
  "(\<And>op. op \<in> set ops \<Longrightarrow> P op \<Longrightarrow> Q op) \<Longrightarrow> count_operations P ops \<le> count_operations Q ops"
  by (induction ops) (auto simp: le_SucI)

lemma count_operations_zero_iff: "count_operations P ops = 0 \<longleftrightarrow> (\<forall>op\<in>set ops. \<not> P op)"
  by (simp add: count_operations_filter filter_empty_conv)

lemma stream_has_operation_x_iff:
  "stream_has_operation_x ops code \<longleftrightarrow> (\<exists>op\<in>set ops. opcode op = code)"
  by (induction ops) auto

lemma has_operation_count:
  "stream_has_operation_x (operations st) code \<longleftrightarrow> 0 < stream_num_operations_x st code"
  unfolding stream_num_operations_x_def stream_has_operation_x_iff
  using count_operations_zero_iff [of "\<lambda>op. opcode op = code" "operations st"] by auto

lemma inserts_le_gather: "stream_num_operations_x st INSERT \<le> stream_num_gather_ops st"
proof -
  have "stream_num_operations_x st INSERT \<le> count_operations is_gather_op (operations st)"
    unfolding stream_num_operations_x_def by (rule count_operations_mono) (simp add: is_gather_op_def)
  then show ?thesis by (simp add: stream_num_gather_ops_def Let_def)
qed

text \<open>The prefetcher needs at most the four commands of the lock more than the gather table.\<close>

lemma prefetch_le_gather: "stream_num_prefetch_ops st \<le> stream_num_gather_ops st + 4"
  using inserts_le_gather [of st] by (simp add: stream_num_prefetch_ops_def Let_def)

lemma stream_in_list_iff: "stream_in_list ps p \<longleftrightarrow> p \<in> set ps"
  by (induction ps) auto

section \<open>The loop as a function on the list of streams\<close>

fun index_scan :: "(acm_stream \<Rightarrow> 'w::len word \<Rightarrow> acm_stream \<times> 'w word) \<Rightarrow> 'w word \<Rightarrow>
    acm_stream list \<Rightarrow> acm_stream list" where
  "index_scan step i [] = []"
| "index_scan step i (st # sts) = fst (step st i) # index_scan step (snd (step st i)) sts"

lemma index_scan_length [simp]: "length (index_scan step i sts) = length sts"
  by (induction sts arbitrary: i) auto

lemma module_streams_update_other:
  "p \<notin> set ps \<Longrightarrow> module_streams (s\<lparr>st_streams := (st_streams s)(p \<mapsto> x)\<rparr>) ps = module_streams s ps"
  unfolding module_streams_def by (induction ps) auto

lemma module_streams_cong:
  "(\<And>p. p \<in> set ps \<Longrightarrow> st_streams s p = st_streams s' p) \<Longrightarrow> module_streams s ps = module_streams s' ps"
  by (simp add: module_streams_def cong: map_cong)

lemma module_streams_Cons:
  "module_streams s (p # ps) = Some sts \<longleftrightarrow>
     (\<exists>st sts'. st_streams s p = Some st \<and> module_streams s ps = Some sts' \<and> sts = st # sts')"
  by (auto simp: module_streams_def split: option.splits)

lemma index_loop_scan:
  assumes "distinct ps" "module_streams s ps = Some sts"
  shows "\<exists>h. index_loop step ps i s = Some (s\<lparr>st_streams := h\<rparr>) \<and>
     module_streams (s\<lparr>st_streams := h\<rparr>) ps = Some (index_scan step i sts) \<and>
     (\<forall>q. q \<notin> set ps \<longrightarrow> h q = st_streams s q)"
  using assms
proof (induction ps arbitrary: i s sts)
  case Nil
  then show ?case by (intro exI [of _ "st_streams s"]) (simp add: module_streams_def)
next
  case (Cons p ps)
  then obtain st sts' where st: "st_streams s p = Some st" "module_streams s ps = Some sts'"
    "sts = st # sts'" by (auto simp: module_streams_Cons)
  define x where "x = fst (step st i)"
  define s1 where "s1 = s\<lparr>st_streams := (st_streams s)(p \<mapsto> x)\<rparr>"
  have "module_streams s1 ps = Some sts'"
    using Cons.prems(1) st(2) by (simp add: s1_def module_streams_update_other)
  then obtain h where h: "index_loop step ps (snd (step st i)) s1 = Some (s1\<lparr>st_streams := h\<rparr>)"
      "module_streams (s1\<lparr>st_streams := h\<rparr>) ps = Some (index_scan step (snd (step st i)) sts')"
      "\<forall>q. q \<notin> set ps \<longrightarrow> h q = st_streams s1 q"
    using Cons.IH [of s1 sts' "snd (step st i)"] Cons.prems(1) by auto
  have hp: "h p = Some x" using h(3) Cons.prems(1) by (simp add: s1_def)
  have s1h: "s1\<lparr>st_streams := h\<rparr> = s\<lparr>st_streams := h\<rparr>" by (simp add: s1_def)
  have "index_loop step (p # ps) i s = Some (s\<lparr>st_streams := h\<rparr>)"
    using st(1) h(1) by (simp add: mod_stream_def case_prod_beta s1h x_def [symmetric] s1_def [symmetric])
  moreover have "module_streams (s\<lparr>st_streams := h\<rparr>) (p # ps) = Some (index_scan step i sts)"
    using h(2) hp st(3) by (simp add: module_streams_Cons s1h x_def)
  moreover have "\<forall>q. q \<notin> set (p # ps) \<longrightarrow> h q = st_streams s q"
    using h(3) by (simp add: s1_def)
  ultimately show ?case by blast
qed

section \<open>Table layout\<close>

locale table_layout =
  fixes step :: "acm_stream \<Rightarrow> 'w::len word \<Rightarrow> acm_stream \<times> 'w word"
    and width :: "acm_stream \<Rightarrow> nat"
    and index :: "acm_stream \<Rightarrow> 'w word"
  assumes step_index: "0 < width st \<Longrightarrow> index (fst (step st i)) = i"
    and step_next: "snd (step st i) = i + word_of_nat (width st)"
    and step_width: "width (fst (step st i)) = width st"
    and step_again: "step (fst (step st i)) i = step st i"
begin

definition total :: "acm_stream list \<Rightarrow> nat" where
  "total sts = (\<Sum>st\<leftarrow>sts. width st)"

lemma total_simps: "total [] = 0" "total (st # sts) = width st + total sts"
  by (simp_all add: total_def)

lemma scan_width: "map width (index_scan step i sts) = map width sts"
  by (induction sts arbitrary: i) (simp_all add: step_width)

lemma scan_again: "index_scan step i (index_scan step i sts) = index_scan step i sts"
  by (induction sts arbitrary: i) (simp_all add: step_again)

lemma scan_index:
  "k < length sts \<Longrightarrow> 0 < width (sts ! k) \<Longrightarrow>
   index (index_scan step i sts ! k) = i + word_of_nat (total (take k sts))"
proof (induction sts arbitrary: i k)
  case Nil
  then show ?case by simp
next
  case (Cons st sts)
  then show ?case
    by (cases k) (simp_all add: step_index step_next total_simps add.assoc)
qed

lemma total_take_le: "total (take k sts) \<le> total sts"
  unfolding total_def by (rule sum_list_take_le)

lemma total_take_Suc: "k < length sts \<Longrightarrow> total (take (Suc k) sts) = total (take k sts) + width (sts ! k)"
  by (simp add: total_def take_Suc_conv_app_nth)

lemma total_take_mono: "j \<le> k \<Longrightarrow> total (take j sts) \<le> total (take k sts)"
  using total_take_le [of j "take k sts"] by (simp add: min_def split: if_splits)

lemma scan_index_nat:
  assumes "k < length sts" "0 < width (sts ! k)" "unat i + total sts < 2 ^ LENGTH('w)"
  shows "unat (index (index_scan step i sts ! k)) = unat i + total (take k sts)"
  using assms total_take_le [of k sts]
  by (simp add: scan_index unat_word_ariths unat_of_nat)

lemma layout_end:
  assumes "k < length sts" "0 < width (sts ! k)" "unat i + total sts < 2 ^ LENGTH('w)"
  shows "unat i \<le> unat (index (index_scan step i sts ! k))"
    and "unat (index (index_scan step i sts ! k)) + width (sts ! k) \<le> unat i + total sts"
proof -
  show "unat i \<le> unat (index (index_scan step i sts ! k))"
    using scan_index_nat [OF assms] by simp
  show "unat (index (index_scan step i sts ! k)) + width (sts ! k) \<le> unat i + total sts"
    using scan_index_nat [OF assms] total_take_Suc [OF assms(1)] total_take_le [of "Suc k" sts] by simp
qed

lemma layout_order:
  assumes "j < k" "k < length sts" "0 < width (sts ! j)" "0 < width (sts ! k)"
    and "unat i + total sts < 2 ^ LENGTH('w)"
  shows "unat (index (index_scan step i sts ! j)) + width (sts ! j)
    \<le> unat (index (index_scan step i sts ! k))"
proof -
  have j: "j < length sts" using assms(1,2) by simp
  show ?thesis
    using scan_index_nat [OF j assms(3,5)] scan_index_nat [OF assms(2,4,5)]
      total_take_Suc [OF j] total_take_mono [of "Suc j" k sts] assms(1) by simp
qed

end

text \<open>The rows a stream needs in each table.\<close>

definition lookup_width :: "acm_stream \<Rightarrow> nat" where
  "lookup_width st = (if stype st = INGRESS_TRIGGERED_STREAM \<or> stype st = REDUNDANT_STREAM_RX then 1 else 0)"

definition gather_width :: "acm_stream \<Rightarrow> nat" where
  "gather_width st = (let n = unat (word_of_nat (stream_num_gather_ops st) :: u16);
       m = unat (word_of_nat (stream_num_prefetch_ops st) :: u16) in
     if n = 0 \<or> (n = 1 \<and> stream_has_operation_x (operations st) FORWARD_ALL) then 0 else max n m)"

definition scatter_width :: "acm_stream \<Rightarrow> nat" where
  "scatter_width st = (if stype st = INGRESS_TRIGGERED_STREAM \<or> stype st = REDUNDANT_STREAM_RX
     then unat (word_of_nat (stream_num_scatter_ops st) :: u16) else 0)"

lemmas count_defs = stream_num_gather_ops_def stream_num_prefetch_ops_def stream_num_scatter_ops_def
  stream_num_operations_x_def

interpretation lookup: table_layout lookup_step lookup_width lookup_index
  by unfold_locales (auto simp: lookup_step_def lookup_width_def)

lemma unat_eq_0_word: "unat (w :: u16) = 0 \<longleftrightarrow> w = 0"
  by (rule unat_eq_0)

lemma unat_eq_1_word: "unat (w :: u16) = Suc 0 \<longleftrightarrow> w = 1"
  by (metis One_nat_def unat_1 word_unat_eq_iff)

interpretation gather: table_layout gather_step gather_width gather_dma_index
proof unfold_locales
  fix st :: acm_stream and i :: u16
  let ?st = "fst (gather_step st i)"
  have ops: "operations ?st = operations st" "stype ?st = stype st"
    by (auto simp: gather_step_def Let_def)
  have n: "stream_num_gather_ops ?st = stream_num_gather_ops st"
      "stream_num_prefetch_ops ?st = stream_num_prefetch_ops st"
    by (simp_all add: count_defs ops)
  show "gather_width ?st = gather_width st" by (simp add: gather_width_def n ops)
  show "0 < gather_width st \<Longrightarrow> gather_dma_index ?st = i"
    by (auto simp: gather_step_def gather_width_def Let_def unat_eq_0_word unat_eq_1_word
        simp del: unat_eq_0 split: if_splits)
  show "snd (gather_step st i) = i + word_of_nat (gather_width st)"
    by (auto simp: gather_step_def gather_width_def Let_def max_def word_le_nat_alt unat_eq_0_word
        unat_eq_1_word simp del: unat_eq_0)
  show "gather_step ?st i = gather_step st i"
    unfolding gather_step_def [of ?st] n ops by (simp add: gather_step_def Let_def)
qed

interpretation scatter: table_layout scatter_step scatter_width scatter_dma_index
proof unfold_locales
  fix st :: acm_stream and i :: u16
  let ?st = "fst (scatter_step st i)"
  have ops: "operations ?st = operations st" "stype ?st = stype st"
    by (auto simp: scatter_step_def Let_def)
  have n: "stream_num_scatter_ops ?st = stream_num_scatter_ops st" by (simp add: count_defs ops)
  show "scatter_width ?st = scatter_width st" by (simp add: scatter_width_def n ops)
  show "0 < scatter_width st \<Longrightarrow> scatter_dma_index ?st = i"
    by (auto simp: scatter_step_def scatter_width_def Let_def split: if_splits)
  show "snd (scatter_step st i) = i + word_of_nat (scatter_width st)"
    by (auto simp: scatter_step_def scatter_width_def Let_def)
  show "scatter_step ?st i = scatter_step st i"
    unfolding scatter_step_def [of ?st] n ops by (simp add: scatter_step_def Let_def)
qed

section \<open>Regions of rows\<close>

text \<open>Regions of rows, given by first row and number of rows: inside the bounds, one after the other.\<close>

definition rows_disjoint :: "nat \<Rightarrow> nat \<Rightarrow> (nat \<times> nat) list \<Rightarrow> bool" where
  "rows_disjoint lo hi rs = ((\<forall>k < length rs. 0 < snd (rs ! k) \<longrightarrow> lo \<le> fst (rs ! k) \<and> fst (rs ! k) + snd (rs ! k) \<le> hi) \<and>
     (\<forall>j < length rs. \<forall>k < length rs. j < k \<and> 0 < snd (rs ! j) \<and> 0 < snd (rs ! k) \<longrightarrow>
        fst (rs ! j) + snd (rs ! j) \<le> fst (rs ! k)))"

lemma rows_disjoint_mono: "rows_disjoint lo hi rs \<Longrightarrow> hi \<le> hi' \<Longrightarrow> rows_disjoint lo hi' rs"
  by (fastforce simp: rows_disjoint_def)

context table_layout
begin

definition rows :: "acm_stream list \<Rightarrow> (nat \<times> nat) list" where
  "rows sts = map (\<lambda>st. (unat (index st), width st)) sts"

lemma scan_rows:
  assumes "unat i + total sts < 2 ^ LENGTH('w)"
  shows "rows_disjoint (unat i) (unat i + total sts) (rows (index_scan step i sts))"
proof -
  have w: "width (index_scan step i sts ! k) = width (sts ! k)" if "k < length sts" for k
    using arg_cong [OF scan_width [of i sts], of "\<lambda>xs. xs ! k"] that by simp
  show ?thesis
    using layout_end [OF _ _ assms] layout_order [OF _ _ _ _ assms]
    by (simp add: rows_disjoint_def rows_def w)
qed

lemma loop_rows:
  assumes "distinct ps" "module_streams s ps = Some sts" "index_loop step ps i s = Some s'"
    and "unat i + total sts < 2 ^ LENGTH('w)"
  shows "module_streams s' ps = Some (index_scan step i sts)"
    and "rows_disjoint (unat i) (unat i + total sts) (rows (index_scan step i sts))"
  using index_loop_scan [OF assms(1,2), of step i] assms(3) scan_rows [OF assms(4)] by auto

end

end
