(* ===== verification/Acm_Sysfs_Io.thy ===== *)
theory Acm_Sysfs_Io
  imports Acm_Configfile
begin

text \<open>
  Access to the attributes of the device driver (the basic functions of \<^verbatim>\<open>sysfs.c\<close> and the status
  values of \<^verbatim>\<open>status.c\<close>). Every complete write is appended to the log \<open>st_hw\<close>; what \<^verbatim>\<open>open\<close> and
  \<^verbatim>\<open>pwrite\<close> return is decided by the environment (zero or the number of bytes for success, a
  negated \<^verbatim>\<open>errno\<close> otherwise).
\<close>

section \<open>Paths\<close>

definition ACMDEV_BASE :: string where "ACMDEV_BASE = ''/sys/devices/acm/''"
definition CONFIG_GROUP :: string where "CONFIG_GROUP = ''config_bin''"
definition STATUS_GROUP :: string where "STATUS_GROUP = ''status''"
definition CONTROL_GROUP :: string where "CONTROL_GROUP = ''control_bin''"

text \<open>The path, or an error when the buffer of \<open>len\<close> bytes does not hold it with its NUL.\<close>

definition sysfs_construct_path_name :: "nat \<Rightarrow> string \<Rightarrow> string \<Rightarrow> int + string" where
  "sysfs_construct_path_name len grp file =
     (let path_name = ACMDEV_BASE @ grp @ ''/'' @ file in
      if len \<le> length path_name then Inl (- ENOMEM) else Inr path_name)"

section \<open>Writing\<close>

definition write_file_sysfs :: "string \<Rightarrow> hw_data \<Rightarrow> nat \<Rightarrow> nat \<Rightarrow> acm_state \<Rightarrow> int \<times> acm_state" where
  "write_file_sysfs path_name data buffer_length off s =
     (if env_open (st_env s) path_name < 0 then (env_open (st_env s) path_name, s)
      else let w = \<lparr>w_path = path_name, w_offset = off, w_size = buffer_length, w_data = data\<rparr>;
               ret = env_pwrite (st_env s) (st_hw s) w in
        if ret < 0 then (ret, s)
        else if ret \<noteq> int buffer_length then (- EIO, s)
        else (0, s\<lparr>st_hw := st_hw s @ [w]\<rparr>))"

definition write_buffer_config_sysfs_item ::
  "string \<Rightarrow> hw_data \<Rightarrow> nat \<Rightarrow> nat \<Rightarrow> acm_state \<Rightarrow> int \<times> acm_state" where
  "write_buffer_config_sysfs_item file_name data buffer_length off s =
     (case sysfs_construct_path_name SYSFS_PATH_LENGTH CONFIG_GROUP file_name of
        Inl ret \<Rightarrow> (ret, s)
      | Inr path_name \<Rightarrow> write_file_sysfs path_name data buffer_length off s)"

section \<open>Reading\<close>

text \<open>The bytes read, which may be fewer than asked for (that is only logged).\<close>

definition read_buffer_sysfs_item :: "string \<Rightarrow> nat \<Rightarrow> nat \<Rightarrow> acm_state \<Rightarrow> int + u8 list" where
  "read_buffer_sysfs_item path_name buffer_length off s =
     (if env_open (st_env s) path_name < 0 then Inl (env_open (st_env s) path_name)
      else env_pread (st_env s) (st_hw s) path_name buffer_length off)"

definition read_uint64_sysfs_item :: "string \<Rightarrow> acm_state \<Rightarrow> int" where
  "read_uint64_sysfs_item path_name s = (case env_text (st_env s) path_name of
     None \<Rightarrow> - ENODEV
   | Some buffer \<Rightarrow>
       if buffer = [] then - EACMSYSFSNODATA
       else case c_strtoull0 buffer of (v, converted, erange) \<Rightarrow>
         if erange then - 34
         else if v = 0 \<and> \<not> converted then - EINVAL
         else sint v)"

definition get_int32_status_value :: "string \<Rightarrow> acm_state \<Rightarrow> int" where
  "get_int32_status_value filename s =
     (case sysfs_construct_path_name SYSFS_PATH_LENGTH STATUS_GROUP filename of
        Inl ret \<Rightarrow> ret
      | Inr path_name \<Rightarrow> sint (word_of_int (read_uint64_sysfs_item path_name s) :: 32 word))"

definition status_read_time_freq :: "acm_state \<Rightarrow> int" where
  "status_read_time_freq s =
     (case sysfs_construct_path_name SYSFS_PATH_LENGTH STATUS_GROUP ''time_freq'' of
        Inl ret \<Rightarrow> ret
      | Inr path_name \<Rightarrow> read_uint64_sysfs_item path_name s)"

text \<open>
  The quotient is computed in \<^verbatim>\<open>double\<close> and truncated; for every frequency in range the truncated
  result is the integer quotient (a quotient that is not an integer differs from the next one by
  more than the rounding error).
\<close>

definition calc_tick_duration :: "acm_state \<Rightarrow> int" where
  "calc_tick_duration s = (let time_freq = status_read_time_freq s in
     if time_freq \<le> 0 then sint (word_of_int time_freq :: 32 word) else 1000000000 div time_freq)"

definition ACM_SYSFS_MSGBUF_SIZE :: string where "ACM_SYSFS_MSGBUF_SIZE = ''msgbuf_memsize''"
definition ACM_SYSFS_MSGBUF_COUNT :: string where "ACM_SYSFS_MSGBUF_COUNT = ''msgbuf_count''"
definition ACM_SYSFS_MSGBUF_DATAWIDTH :: string where "ACM_SYSFS_MSGBUF_DATAWIDTH = ''msgbuf_datawidth''"
definition ACM_SYSFS_RX_REDUNDANCY :: string where "ACM_SYSFS_RX_REDUNDANCY = ''rx_redundancy''"

definition status_read_capability_item :: "acm_capability_item \<Rightarrow> acm_state \<Rightarrow> int" where
  "status_read_capability_item cid s = (case cid of
     CAP_MIN_SCHEDULE_TICK \<Rightarrow> calc_tick_duration s
   | CAP_MAX_MESSAGE_BUFFER_SIZE \<Rightarrow> get_int32_status_value ACM_SYSFS_MSGBUF_SIZE s
   | CAP_CONFIG_READBACK \<Rightarrow> get_int32_status_value ''cfg_read_back'' s
   | CAP_DEBUG \<Rightarrow> get_int32_status_value ''debug_enable'' s
   | CAP_MAX_ANZ_MESSAGE_BUFFER \<Rightarrow> get_int32_status_value ACM_SYSFS_MSGBUF_COUNT s
   | CAP_MESSAGE_BUFFER_BLOCK_SIZE \<Rightarrow> get_int32_status_value ACM_SYSFS_MSGBUF_DATAWIDTH s
   | CAP_REDUNDANCY_RX \<Rightarrow> get_int32_status_value ACM_SYSFS_RX_REDUNDANCY s
   | CAP_INDIV_RECOVERY \<Rightarrow> get_int32_status_value ''individual_recovery'' s
   | CAP_OTHER \<Rightarrow> - EINVAL)"

section \<open>Lemmas\<close>

text \<open>
  A status value depends on the environment only: no operation of the library changes it.
\<close>

lemma read_uint64_env: "st_env s = st_env s' \<Longrightarrow> read_uint64_sysfs_item p s = read_uint64_sysfs_item p s'"
  by (simp add: read_uint64_sysfs_item_def)

lemma int32_status_env: "st_env s = st_env s' \<Longrightarrow> get_int32_status_value f s = get_int32_status_value f s'"
  using read_uint64_env [of s s'] by (simp add: get_int32_status_value_def split: sum.split)

lemma tick_duration_env: "st_env s = st_env s' \<Longrightarrow> calc_tick_duration s = calc_tick_duration s'"
  using read_uint64_env [of s s']
  by (simp add: calc_tick_duration_def status_read_time_freq_def Let_def split: sum.split)

lemma int32_status_range:
  "get_int32_status_value f s < 2 ^ 31" "- (2 ^ 31) \<le> get_int32_status_value f s"
proof -
  have "get_int32_status_value f s = - 12 \<or> (\<exists>w :: 32 word. get_int32_status_value f s = sint w)"
    by (auto simp: get_int32_status_value_def sysfs_construct_path_name_def split: sum.split)
  moreover have "sint (w :: 32 word) < 2 ^ 31 \<and> - (2 ^ 31) \<le> sint w" for w
    using sint_lt [of w] sint_ge [of w] by simp
  ultimately show "get_int32_status_value f s < 2 ^ 31" "- (2 ^ 31) \<le> get_int32_status_value f s"
    by fastforce+
qed

lemma write_file_frame:
  "write_file_sysfs p d n off s = (r, s') \<Longrightarrow> s' = s\<lparr>st_hw := st_hw s'\<rparr>"
  by (auto simp: write_file_sysfs_def Let_def split: if_splits)

lemma write_item_frame:
  "write_buffer_config_sysfs_item f d n off s = (r, s') \<Longrightarrow> s' = s\<lparr>st_hw := st_hw s'\<rparr>"
  by (auto simp: write_buffer_config_sysfs_item_def dest: write_file_frame split: sum.splits)

text \<open>A successful write appends exactly one entry to the log, a failed one none.\<close>

lemma write_item_log:
  assumes "write_buffer_config_sysfs_item f d n off s = (r, s')"
  shows "r = 0 \<Longrightarrow> st_hw s' = st_hw s @ [\<lparr>w_path = ACMDEV_BASE @ CONFIG_GROUP @ ''/'' @ f,
      w_offset = off, w_size = n, w_data = d\<rparr>]"
    and "r \<noteq> 0 \<Longrightarrow> s' = s \<and> r < 0"
  using assms
  by (auto simp: write_buffer_config_sysfs_item_def write_file_sysfs_def sysfs_construct_path_name_def
      Let_def split: if_splits)

section \<open>The log\<close>

text \<open>The state after some writes that the hardware took.\<close>

definition logged :: "acm_state \<Rightarrow> hw_write list \<Rightarrow> acm_state" where
  "logged s ws = s\<lparr>st_hw := st_hw s @ ws\<rparr>"

lemma logged_simps [simp]: "logged s [] = s" "logged (logged s ws) vs = logged s (ws @ vs)"
    "st_streams (logged s ws) = st_streams s" "st_scheds (logged s ws) = st_scheds s"
    "st_modules (logged s ws) = st_modules s" "st_env (logged s ws) = st_env s"
    "st_hw (logged s ws) = st_hw s @ ws"
  by (simp_all add: logged_def)

lemma logged_others: "st_bufs (logged s ws) = st_bufs s" "st_configs (logged s ws) = st_configs s"
    "st_next (logged s ws) = st_next s"
  by (simp_all add: logged_def)

definition config_write :: "string \<Rightarrow> hw_data \<Rightarrow> nat \<Rightarrow> nat \<Rightarrow> hw_write" where
  "config_write f d n off = \<lparr>w_path = ACMDEV_BASE @ CONFIG_GROUP @ ''/'' @ f, w_offset = off, w_size = n, w_data = d\<rparr>"

lemma write_item_cases:
  assumes "write_buffer_config_sysfs_item f d n off s = (r, s')"
  shows "r = 0 \<and> s' = logged s [config_write f d n off] \<or> r < 0 \<and> s' = s"
proof (cases "r = 0")
  case True
  then have "st_hw s' = st_hw s @ [config_write f d n off]"
    using write_item_log(1) [OF assms] by (simp add: config_write_def)
  moreover obtain h where "s' = s\<lparr>st_hw := h\<rparr>" using write_item_frame [OF assms] by blast
  ultimately show ?thesis using True by (simp add: logged_def)
next
  case False
  then show ?thesis using write_item_log(2) [OF assms] by blast
qed

text \<open>
  A function that performs planned writes in order until one fails: what reached the hardware is a
  part of the plan from its start, the whole plan if the function reports success.
\<close>

definition follows_plan :: "hw_write list \<Rightarrow> acm_state \<Rightarrow> int \<times> acm_state \<Rightarrow> bool" where
  "follows_plan ws s res = (\<exists>n. snd res = logged s (take n ws) \<and> (fst res = 0 \<longrightarrow> length ws \<le> n))"

lemma follows_nothing [simp]: "follows_plan ws s (0, s) \<longleftrightarrow> ws = []" "r \<noteq> 0 \<Longrightarrow> follows_plan ws s (r, s)"
proof -
  show "r \<noteq> 0 \<Longrightarrow> follows_plan ws s (r, s)"
    unfolding follows_plan_def by (intro exI [of _ 0]) simp
  have "ws = []" if "s = logged s (take n ws)" "length ws \<le> n" for n
    using arg_cong [OF that(1), of st_hw] that(2) by simp
  then show "follows_plan ws s (0, s) \<longleftrightarrow> ws = []"
    unfolding follows_plan_def by auto
qed

lemma follows_success: "follows_plan ws s (0, s') \<longleftrightarrow> s' = logged s ws"
  by (auto simp: follows_plan_def intro!: exI [of _ "length ws"])

lemma follows_failure: "follows_plan ws s (r, s') \<Longrightarrow> follows_plan (ws @ vs) s (r, s') \<or> r = 0"
proof -
  assume "follows_plan ws s (r, s')"
  then obtain n where n: "s' = logged s (take n ws)" "r = 0 \<longrightarrow> length ws \<le> n" by (auto simp: follows_plan_def)
  have "take (min n (length ws)) (ws @ vs) = take n ws" by (simp add: min_def)
  then have "s' = logged s (take (min n (length ws)) (ws @ vs))" using n(1) by simp
  then show ?thesis by (auto simp: follows_plan_def intro!: exI [of _ "min n (length ws)"])
qed

lemma follows_then:
  assumes "follows_plan ws s (0, s1)" "follows_plan vs s1 res"
  shows "follows_plan (ws @ vs) s res"
proof -
  have s1: "s1 = logged s ws" using assms(1) by (simp add: follows_success)
  obtain n where n: "snd res = logged s1 (take n vs)" "fst res = 0 \<longrightarrow> length vs \<le> n"
    using assms(2) by (auto simp: follows_plan_def)
  then show ?thesis
    unfolding follows_plan_def by (intro exI [of _ "length ws + n"]) (simp add: s1)
qed

lemma follows_item: "follows_plan [config_write f d n off] s (write_buffer_config_sysfs_item f d n off s)"
proof (cases "write_buffer_config_sysfs_item f d n off s")
  case (Pair r s')
  with write_item_cases [OF this] show ?thesis by (auto simp: follows_success)
qed

lemma follows_member:
  "follows_plan ws s (r, s') \<Longrightarrow> \<exists>us. s' = logged s us \<and> set us \<subseteq> set ws \<and> (r = 0 \<longrightarrow> us = ws)"
  unfolding follows_plan_def by (auto intro!: set_take_subset)

text \<open>The hardware that takes every write.\<close>

definition hw_accepts :: "acm_state \<Rightarrow> bool" where
  "hw_accepts s = ((\<forall>p. 0 \<le> env_open (st_env s) p) \<and> (\<forall>log w. env_pwrite (st_env s) log w = int (w_size w)))"

text \<open>The contents of the hardware after some writes: for every place the last data written.\<close>

definition hw_mem :: "hw_write list \<Rightarrow> string \<times> nat \<Rightarrow> hw_data option" where
  "hw_mem log = map_of (rev (map (\<lambda>w. ((w_path w, w_offset w), w_data w)) log))"

lemma hw_mem_simps [simp]:
  "hw_mem [] = Map.empty" "hw_mem (xs @ ys) = hw_mem xs ++ hw_mem ys"
  by (simp_all add: hw_mem_def)

lemma hw_mem_other: "(\<And>w. w \<in> set log \<Longrightarrow> (w_path w, w_offset w) \<noteq> a) \<Longrightarrow> hw_mem log a = None"
  unfolding hw_mem_def map_of_eq_None_iff by force

lemma hw_mem_distinct:
  assumes "distinct (map (\<lambda>w. (w_path w, w_offset w)) log)" "w \<in> set log"
  shows "hw_mem log (w_path w, w_offset w) = Some (w_data w)"
proof -
  have "distinct (map fst (rev (map (\<lambda>w. ((w_path w, w_offset w), w_data w)) log)))"
    using assms(1) by (simp add: rev_map [symmetric] comp_def)
  then show ?thesis using assms(2) unfolding hw_mem_def by (intro map_of_is_SomeI) auto
qed

end
