(* ===== verification/Acm_Driver_Api.thy ===== *)
theory Acm_Driver_Api
  imports Acm_Types
begin

text \<open>
  The driver interface (the inline functions of \<^verbatim>\<open>acmdrv.h\<close>): how the fields of a hardware table
  entry are packed into a word and read back. \<open>WVAL\<close> and \<open>RVAL\<close> write and read the bits \<open>l\<close> to \<open>h\<close>
  of a 32 bit word; every create function is a disjunction of fields. With the lemmas on single
  fields, bundled as \<open>field_simps\<close>, the simplifier computes what any read function returns on any
  created entry. The bit arrays of the interface are in \<^verbatim>\<open>Acm_Bitarray\<close>.
\<close>

section \<open>Fields of a word\<close>

definition GENMASK :: "nat \<Rightarrow> nat \<Rightarrow> u32" where
  "GENMASK h l = push_bit l (mask (h + 1 - l))"

definition WVAL :: "nat \<Rightarrow> nat \<Rightarrow> u32 \<Rightarrow> u32" where
  "WVAL h l v = push_bit l v AND GENMASK h l"

definition RVAL :: "nat \<Rightarrow> nat \<Rightarrow> u32 \<Rightarrow> u32" where
  "RVAL h l v = drop_bit l (v AND GENMASK h l)"

lemma bit_GENMASK: "bit (GENMASK h l) n \<longleftrightarrow> l \<le> n \<and> n \<le> h \<and> n < 32"
  by (auto simp: GENMASK_def bit_push_bit_iff bit_mask_iff)

lemma bit_WVAL: "bit (WVAL h l v) n \<longleftrightarrow> l \<le> n \<and> n \<le> h \<and> n < 32 \<and> bit v (n - l)"
  by (auto simp: WVAL_def bit_and_iff bit_push_bit_iff bit_GENMASK)

lemma bit_RVAL: "bit (RVAL h l v) n \<longleftrightarrow> n + l \<le> h \<and> n + l < 32 \<and> bit v (n + l)"
  by (auto simp: RVAL_def bit_drop_bit_eq bit_and_iff bit_GENMASK add.commute)

lemma RVAL_OR: "RVAL h l (a OR b) = RVAL h l a OR RVAL h l b"
  by (rule bit_word_eqI) (auto simp: bit_RVAL bit_or_iff)

lemma RVAL_WVAL_same: "l \<le> h \<Longrightarrow> h < 32 \<Longrightarrow> RVAL h l (WVAL h l v) = take_bit (h + 1 - l) v"
  by (rule bit_word_eqI) (auto simp: bit_RVAL bit_WVAL bit_take_bit_iff)

lemma RVAL_WVAL_other: "h' < l \<or> h < l' \<Longrightarrow> RVAL h l (WVAL h' l' v) = 0"
  by (rule bit_word_eqI) (auto simp: bit_RVAL bit_WVAL)

lemmas field_simps = RVAL_OR RVAL_WVAL_same RVAL_WVAL_other

text \<open>A field that is wide enough keeps the value.\<close>

lemma take_bit_small: "unat (v :: u32) < 2 ^ n \<Longrightarrow> take_bit n v = v"
  by (simp add: word_unat_eq_iff unsigned_take_bit_eq take_bit_nat_eq_self)

definition bool32 :: "bool \<Rightarrow> u32" where
  "bool32 b = (if b then 1 else 0)"

lemma bool32_take_bit [simp]: "0 < n \<Longrightarrow> take_bit n (bool32 b) = bool32 b"
  by (cases n) (auto simp: bool32_def)

lemma bool32_mod [simp]: "bool32 b mod 2 = bool32 b"
  by (simp add: bool32_def)

lemma bool32_eq_0 [simp]: "bool32 b \<noteq> 0 \<longleftrightarrow> b" "bool32 b = 0 \<longleftrightarrow> \<not> b"
  by (simp_all add: bool32_def)

section \<open>Message buffers\<close>

definition buff_type_value :: "acmdrv_buff_desc_type \<Rightarrow> u32" where
  "buff_type_value t = (case t of ACMDRV_BUFF_DESC_BUFF_TYPE_RX \<Rightarrow> 0 | ACMDRV_BUFF_DESC_BUFF_TYPE_TX \<Rightarrow> 1)"

definition acmdrv_buff_desc_create ::
  "u16 \<Rightarrow> bool \<Rightarrow> acmdrv_buff_desc_type \<Rightarrow> u16 \<Rightarrow> bool \<Rightarrow> bool \<Rightarrow> u32" where
  "acmdrv_buff_desc_create off rst btype buffer_size timestamp valid =
     WVAL 15 0 (ucast off) OR WVAL 19 19 (bool32 rst) OR WVAL 20 20 (buff_type_value btype) OR
     WVAL 29 21 (ucast buffer_size - 1) OR WVAL 30 30 (bool32 timestamp) OR WVAL 31 31 (bool32 valid)"

definition acmdrv_buff_desc_offset_read :: "u32 \<Rightarrow> u16" where
  "acmdrv_buff_desc_offset_read desc = ucast (RVAL 15 0 desc)"

definition acmdrv_buff_desc_reset_read :: "u32 \<Rightarrow> bool" where
  "acmdrv_buff_desc_reset_read desc = (RVAL 19 19 desc \<noteq> 0)"

definition acmdrv_buff_desc_type_read :: "u32 \<Rightarrow> acmdrv_buff_desc_type" where
  "acmdrv_buff_desc_type_read desc = (if RVAL 20 20 desc = 0 then ACMDRV_BUFF_DESC_BUFF_TYPE_RX
     else ACMDRV_BUFF_DESC_BUFF_TYPE_TX)"

definition acmdrv_buff_desc_sub_buffer_size_read :: "u32 \<Rightarrow> u16" where
  "acmdrv_buff_desc_sub_buffer_size_read desc = ucast (RVAL 29 21 desc + 1)"

definition acmdrv_buff_desc_timestamp_read :: "u32 \<Rightarrow> bool" where
  "acmdrv_buff_desc_timestamp_read desc = (RVAL 30 30 desc \<noteq> 0)"

definition acmdrv_buff_desc_valid_read :: "u32 \<Rightarrow> bool" where
  "acmdrv_buff_desc_valid_read desc = (RVAL 31 31 desc \<noteq> 0)"

text \<open>The alias has room for 55 bytes with the NUL; \<^verbatim>\<open>snprintf\<close> reports a longer name.\<close>

definition acmdrv_buff_alias_init :: "u8 \<Rightarrow> string \<Rightarrow> int \<times> hw_data" where
  "acmdrv_buff_alias_init idx name =
     (if 55 \<le> length name then - EINVAL else 0, D_alias idx (take 54 name))"

section \<open>Stream trigger, DMA commands\<close>

definition acmdrv_bypass_stream_trigger_create :: "bool \<Rightarrow> bool \<Rightarrow> u8 \<Rightarrow> u8 \<Rightarrow> u8 \<Rightarrow> u32" where
  "acmdrv_bypass_stream_trigger_create valid force_drop gdma_chain_ptr sdma_chain_ptr red_grp_id =
     WVAL 0 0 (bool32 valid) OR WVAL 3 3 (bool32 force_drop) OR WVAL 15 8 (ucast gdma_chain_ptr) OR
     WVAL 24 17 (ucast sdma_chain_ptr) OR WVAL 30 26 (ucast red_grp_id)"

definition acmdrv_bypass_dma_cmd_s_invalid_create :: u32 where
  "acmdrv_bypass_dma_cmd_s_invalid_create = WVAL 2 1 0"

definition acmdrv_bypass_dma_cmd_s_move_create :: "bool \<Rightarrow> bool \<Rightarrow> u16 \<Rightarrow> u16 \<Rightarrow> u8 \<Rightarrow> u32" where
  "acmdrv_bypass_dma_cmd_s_move_create is_last irq frm_buff_offs len rx_msgbuf_id =
     WVAL 0 0 (bool32 is_last) OR WVAL 2 1 1 OR WVAL 3 3 (bool32 irq) OR WVAL 14 4 (ucast frm_buff_offs) OR
     WVAL 25 15 (scast len) OR WVAL 30 26 (ucast rx_msgbuf_id)"

definition acmdrv_bypass_dma_cmd_s_move_with_timestamp_create ::
  "bool \<Rightarrow> bool \<Rightarrow> u16 \<Rightarrow> u16 \<Rightarrow> u8 \<Rightarrow> u32" where
  "acmdrv_bypass_dma_cmd_s_move_with_timestamp_create is_last irq frm_buff_offs len rx_msgbuf_id =
     WVAL 0 0 (bool32 is_last) OR WVAL 2 1 2 OR WVAL 3 3 (bool32 irq) OR WVAL 14 4 (ucast frm_buff_offs) OR
     WVAL 25 15 (ucast len) OR WVAL 30 26 (ucast rx_msgbuf_id)"

definition acmdrv_bypass_dma_cmd_p_invalid_create :: u32 where
  "acmdrv_bypass_dma_cmd_p_invalid_create = WVAL 2 1 0"

definition acmdrv_bypass_dma_cmd_p_nop_create :: u32 where
  "acmdrv_bypass_dma_cmd_p_nop_create = WVAL 2 1 1"

definition acmdrv_bypass_dma_cmd_p_mov_msg_buff_create :: "bool \<Rightarrow> bool \<Rightarrow> u16 \<Rightarrow> u8 \<Rightarrow> u32" where
  "acmdrv_bypass_dma_cmd_p_mov_msg_buff_create is_last irq len msg_buf_id =
     WVAL 0 0 (bool32 is_last) OR WVAL 2 1 2 OR WVAL 4 4 (bool32 irq) OR WVAL 15 5 (ucast len) OR
     WVAL 20 16 (ucast msg_buf_id)"

definition acmdrv_bypass_dma_cmd_p_lock_msg_buff_create :: "u8 \<Rightarrow> bool \<Rightarrow> u16 \<Rightarrow> u32" where
  "acmdrv_bypass_dma_cmd_p_lock_msg_buff_create mb_group dual_lock lock_vector =
     WVAL 2 1 3 OR WVAL 9 8 (ucast mb_group) OR WVAL 12 12 (bool32 dual_lock) OR
     WVAL 31 16 (ucast lock_vector)"

definition acmdrv_bypass_dma_cmd_g_invalid_create :: u32 where
  "acmdrv_bypass_dma_cmd_g_invalid_create = WVAL 3 1 0"

definition acmdrv_bypass_dma_cmd_g_forward_create :: u32 where
  "acmdrv_bypass_dma_cmd_g_forward_create = WVAL 3 1 1"

definition acmdrv_bypass_dma_cmd_g_move_pref_create :: "bool \<Rightarrow> u32" where
  "acmdrv_bypass_dma_cmd_g_move_pref_create is_last = WVAL 0 0 (bool32 is_last) OR WVAL 3 1 2"

definition acmdrv_bypass_dma_cmd_g_insert_delay_create :: "u16 \<Rightarrow> u32" where
  "acmdrv_bypass_dma_cmd_g_insert_delay_create delay = WVAL 3 1 3 OR WVAL 15 5 (ucast delay)"

definition acmdrv_bypass_dma_cmd_g_move_cnst_buff_create :: "bool \<Rightarrow> u16 \<Rightarrow> u16 \<Rightarrow> u32" where
  "acmdrv_bypass_dma_cmd_g_move_cnst_buff_create is_last len const_offset =
     WVAL 0 0 (bool32 is_last) OR WVAL 3 1 4 OR WVAL 15 5 (ucast len) OR WVAL 27 16 (ucast const_offset)"

definition acmdrv_bypass_dma_cmd_g_move_fr_buff_create :: "bool \<Rightarrow> u16 \<Rightarrow> u16 \<Rightarrow> u32" where
  "acmdrv_bypass_dma_cmd_g_move_fr_buff_create is_last len fr_buff_offset =
     WVAL 0 0 (bool32 is_last) OR WVAL 3 1 5 OR WVAL 15 5 (ucast len) OR WVAL 27 16 (ucast fr_buff_offset)"

definition acmdrv_bypass_dma_cmd_g_const_byte_create :: "bool \<Rightarrow> u16 \<Rightarrow> u8 \<Rightarrow> u32" where
  "acmdrv_bypass_dma_cmd_g_const_byte_create is_last len const_byte_data =
     WVAL 0 0 (bool32 is_last) OR WVAL 3 1 6 OR WVAL 15 5 (ucast len) OR WVAL 23 16 (ucast const_byte_data)"

definition acmdrv_bypass_dma_cmd_g_r_tag_create :: u32 where
  "acmdrv_bypass_dma_cmd_g_r_tag_create = WVAL 3 1 7"

section \<open>Redundancy control table\<close>

definition acmdrv_redun_ctrltab_entry_create :: "u32 \<Rightarrow> u32 \<Rightarrow> bool \<Rightarrow> u8 \<Rightarrow> u32" where
  "acmdrv_redun_ctrltab_entry_create source update drop_no_rtag int_seq_idx =
     WVAL 2 0 source OR WVAL 9 8 update OR WVAL 14 14 (bool32 drop_no_rtag) OR
     WVAL 20 16 (ucast int_seq_idx)"

definition acmdrv_redun_ctrltab_entry_source_read :: "u32 \<Rightarrow> u32" where
  "acmdrv_redun_ctrltab_entry_source_read ctrl = RVAL 2 0 ctrl"

definition acmdrv_redun_ctrltab_entry_update_read :: "u32 \<Rightarrow> u32" where
  "acmdrv_redun_ctrltab_entry_update_read ctrl = RVAL 9 8 ctrl"

definition acmdrv_redun_ctrltab_entry_drop_no_rtag_read :: "u32 \<Rightarrow> bool" where
  "acmdrv_redun_ctrltab_entry_drop_no_rtag_read ctrl = (RVAL 14 14 ctrl \<noteq> 0)"

definition acmdrv_redun_ctrltab_entry_int_seq_idx_read :: "u32 \<Rightarrow> u8" where
  "acmdrv_redun_ctrltab_entry_int_seq_idx_read ctrl = ucast (RVAL 20 16 ctrl)"

definition ACMDRV_REDUN_CTLTAB_SRC_RXSEQNUM :: u32 where [simp]: "ACMDRV_REDUN_CTLTAB_SRC_RXSEQNUM = 0"
definition ACMDRV_REDUN_CTLTAB_SRC_INTSEQNUM :: u32 where [simp]: "ACMDRV_REDUN_CTLTAB_SRC_INTSEQNUM = 2"
definition ACMDRV_REDUN_CTLTAB_UPD_NOP :: u32 where [simp]: "ACMDRV_REDUN_CTLTAB_UPD_NOP = 0"
definition ACMDRV_REDUN_CTLTAB_UPD_MAXNUM :: u32 where [simp]: "ACMDRV_REDUN_CTLTAB_UPD_MAXNUM = 1"
definition ACMDRV_REDUN_CTLTAB_UPD_FIN_BOTH :: u32 where [simp]: "ACMDRV_REDUN_CTLTAB_UPD_FIN_BOTH = 3"

section \<open>Redundancy status and sequence numbers\<close>

datatype acmdrv_redun_status_old_status =
    ACMDRV_REDUN_OSTAT_NO_FRM
  | ACMDRV_REDUN_OSTAT_FRM_RCVD
  | ACMDRV_REDUN_OSTAT_FRM_RCVD_SKIP
  | ACMDRV_REDUN_OSTAT_FRM_RCVD_ERR

text \<open>The values 0 to 3; the fields have two bits, so no other value comes out of a status word.\<close>

definition redun_old_status :: "u32 \<Rightarrow> acmdrv_redun_status_old_status" where
  "redun_old_status v =
     (if v = 0 then ACMDRV_REDUN_OSTAT_NO_FRM else if v = 1 then ACMDRV_REDUN_OSTAT_FRM_RCVD
      else if v = 2 then ACMDRV_REDUN_OSTAT_FRM_RCVD_SKIP else ACMDRV_REDUN_OSTAT_FRM_RCVD_ERR)"

definition acmdrv_redun_status_int_seq_num_read :: "u32 \<Rightarrow> u16" where
  "acmdrv_redun_status_int_seq_num_read st = ucast (RVAL 15 0 st)"

definition acmdrv_redun_status_rr_read :: "u32 \<Rightarrow> bool" where
  "acmdrv_redun_status_rr_read st = (RVAL 16 16 st \<noteq> 0)"

definition acmdrv_redun_status_rt_read :: "u32 \<Rightarrow> bool" where
  "acmdrv_redun_status_rt_read st = (RVAL 17 17 st \<noteq> 0)"

definition acmdrv_redun_status_pr_read :: "u32 \<Rightarrow> bool" where
  "acmdrv_redun_status_pr_read st = (RVAL 18 18 st \<noteq> 0)"

definition acmdrv_redun_status_old_status_0_read :: "u32 \<Rightarrow> acmdrv_redun_status_old_status" where
  "acmdrv_redun_status_old_status_0_read st = redun_old_status (RVAL 21 20 st)"

definition acmdrv_redun_status_old_status_1_read :: "u32 \<Rightarrow> acmdrv_redun_status_old_status" where
  "acmdrv_redun_status_old_status_1_read st = redun_old_status (RVAL 25 24 st)"

definition acmdrv_redun_intseqnum_create :: "u16 \<Rightarrow> u32" where
  "acmdrv_redun_intseqnum_create seqnum = WVAL 15 0 (ucast seqnum)"

text \<open>The speed select has the values 0, 1 and 2; the word has 16 bits.\<close>

definition acmdrv_scheduler_down_counter_create :: "u32 \<Rightarrow> u16 \<Rightarrow> u16" where
  "acmdrv_scheduler_down_counter_create speed start = ucast (WVAL 1 0 speed OR WVAL 14 4 (ucast start))"

section \<open>Scheduler tables\<close>

definition TRIG_MODE_NO_TRIG :: u32 where [simp]: "TRIG_MODE_NO_TRIG = 0"
definition TRIG_MODE_STAND_ALONE :: u32 where [simp]: "TRIG_MODE_STAND_ALONE = 1"
definition TRIG_MODE_FIRST_STAGE :: u32 where [simp]: "TRIG_MODE_FIRST_STAGE = 2"

definition acmdrv_sched_tbl_cmd_create ::
  "u16 \<Rightarrow> u8 \<Rightarrow> u8 \<Rightarrow> u32 \<Rightarrow> bool \<Rightarrow> bool \<Rightarrow> bool \<Rightarrow> bool \<Rightarrow> u32" where
  "acmdrv_sched_tbl_cmd_create dma_index rule_id redund_group_id dma_trigger win_close win_open disable enable =
     WVAL 8 0 (ucast dma_index) OR WVAL 18 14 (ucast rule_id) OR WVAL 23 19 (ucast redund_group_id) OR
     WVAL 26 25 dma_trigger OR WVAL 27 27 (bool32 win_close) OR WVAL 28 28 (bool32 win_open) OR
     WVAL 29 29 (bool32 disable) OR WVAL 30 30 (bool32 enable)"

text \<open>The status word has 16 bits.\<close>

definition acmdrv_sched_tbl_status_create :: "bool \<Rightarrow> bool \<Rightarrow> bool \<Rightarrow> u16" where
  "acmdrv_sched_tbl_status_create can_be_used last_cyc_num_en update =
     ucast (WVAL 0 0 (bool32 can_be_used) OR WVAL 8 8 (bool32 last_cyc_num_en) OR WVAL 15 15 (bool32 update))"

definition acmdrv_sched_tbl_status_can_be_used_read :: "u16 \<Rightarrow> bool" where
  "acmdrv_sched_tbl_status_can_be_used_read st = (RVAL 0 0 (ucast st) \<noteq> 0)"

definition acmdrv_sched_tbl_status_in_use_read :: "u16 \<Rightarrow> bool" where
  "acmdrv_sched_tbl_status_in_use_read st = (RVAL 1 1 (ucast st) \<noteq> 0)"

definition acmdrv_sched_tbl_status_last_cyc_num_en_read :: "u16 \<Rightarrow> bool" where
  "acmdrv_sched_tbl_status_last_cyc_num_en_read st = (RVAL 8 8 (ucast st) \<noteq> 0)"

definition acmdrv_sched_tbl_status_last_cyc_reached_read :: "u16 \<Rightarrow> bool" where
  "acmdrv_sched_tbl_status_last_cyc_reached_read st = (RVAL 9 9 (ucast st) \<noteq> 0)"

section \<open>Control block\<close>

definition acmdrv_sched_emerg_disable_create :: "bool \<Rightarrow> u16" where
  "acmdrv_sched_emerg_disable_create eme_dis_mux = ucast (WVAL 0 0 (bool32 eme_dis_mux))"

definition acmdrv_sched_emerg_disable_eme_dis_mux_read :: "u16 \<Rightarrow> bool" where
  "acmdrv_sched_emerg_disable_eme_dis_mux_read eme = (RVAL 0 0 (ucast eme) \<noteq> 0)"

definition acmdrv_sched_emerg_disable_eme_dis_mux_state_read :: "u16 \<Rightarrow> bool" where
  "acmdrv_sched_emerg_disable_eme_dis_mux_state_read eme = (RVAL 1 1 (ucast eme) \<noteq> 0)"

definition acmdrv_bypass_ctrl_enable_create :: "bool \<Rightarrow> u32" where
  "acmdrv_bypass_ctrl_enable_create enable = WVAL 0 0 (bool32 enable)"

definition acmdrv_bypass_ctrl_enable_read :: "u32 \<Rightarrow> bool" where
  "acmdrv_bypass_ctrl_enable_read ifval = (RVAL 0 0 ifval \<noteq> 0)"

definition acmdrv_bypass_lookup_enable_create :: "u16 \<Rightarrow> u32" where
  "acmdrv_bypass_lookup_enable_create m = WVAL 15 0 (ucast m)"

definition acmdrv_bypass_lookup_enable_read :: "u32 \<Rightarrow> u16" where
  "acmdrv_bypass_lookup_enable_read ifval = ucast (RVAL 15 0 ifval)"

definition acmdrv_bypass_layer7_enable_create :: "u16 \<Rightarrow> u32" where
  "acmdrv_bypass_layer7_enable_create m = WVAL 15 0 (ucast m)"

definition acmdrv_bypass_layer7_enable_read :: "u32 \<Rightarrow> u16" where
  "acmdrv_bypass_layer7_enable_read ifval = ucast (RVAL 15 0 ifval)"

definition acmdrv_bypass_ingress_policing_enable_create :: "u16 \<Rightarrow> u32" where
  "acmdrv_bypass_ingress_policing_enable_create m = WVAL 15 0 (ucast m)"

definition acmdrv_bypass_ingress_policing_enable_read :: "u32 \<Rightarrow> u16" where
  "acmdrv_bypass_ingress_policing_enable_read ifval = ucast (RVAL 15 0 ifval)"

text \<open>\<open>ACMDRV_BYPASS_CONN_MODE_SERIES\<close> is 0, \<open>ACMDRV_BYPASS_CONN_MODE_PARALLEL\<close> is 1.\<close>

definition acmdrv_bypass_conn_mode_create :: "u32 \<Rightarrow> u32" where
  "acmdrv_bypass_conn_mode_create mode = WVAL 0 0 mode"

definition acmdrv_bypass_conn_mode_read :: "u32 \<Rightarrow> u32" where
  "acmdrv_bypass_conn_mode_read ifval = RVAL 0 0 ifval"

definition acmdrv_bypass_output_disable_create :: "bool \<Rightarrow> u32" where
  "acmdrv_bypass_output_disable_create disable = WVAL 0 0 (bool32 disable)"

definition acmdrv_bypass_output_disable_read :: "u32 \<Rightarrow> bool" where
  "acmdrv_bypass_output_disable_read ifval = (RVAL 0 0 ifval \<noteq> 0)"

definition acmdrv_bypass_layer7_length_create :: "u8 \<Rightarrow> u32" where
  "acmdrv_bypass_layer7_length_create len = WVAL 6 0 (ucast len)"

definition acmdrv_bypass_layer7_length_read :: "u32 \<Rightarrow> u8" where
  "acmdrv_bypass_layer7_length_read ifval = ucast (RVAL 6 0 ifval)"

definition acmdrv_bypass_speed_create :: "u32 \<Rightarrow> u32" where
  "acmdrv_bypass_speed_create sp = WVAL 0 0 sp"

definition acmdrv_bypass_speed_read :: "u32 \<Rightarrow> u32" where
  "acmdrv_bypass_speed_read ifval = RVAL 0 0 ifval"

definition acmdrv_bypass_gather_delay_create :: "u16 \<Rightarrow> u32" where
  "acmdrv_bypass_gather_delay_create delay = WVAL 10 0 (ucast delay)"

definition acmdrv_bypass_gather_delay_read :: "u32 \<Rightarrow> u16" where
  "acmdrv_bypass_gather_delay_read ifval = ucast (RVAL 10 0 ifval)"

definition acmdrv_bypass_ingress_policing_control_create :: "u16 \<Rightarrow> u32" where
  "acmdrv_bypass_ingress_policing_control_create m = WVAL 15 0 (ucast m)"

definition acmdrv_bypass_ingress_policing_control_read :: "u32 \<Rightarrow> u16" where
  "acmdrv_bypass_ingress_policing_control_read ifval = ucast (RVAL 15 0 ifval)"

section \<open>Reading back what was created\<close>

lemma ucast_take_bit_u16 [simp]: "ucast (take_bit 16 (ucast (x :: u16) :: u32)) = x"
  by (rule bit_word_eqI) (auto simp: bit_ucast_iff bit_take_bit_iff)

lemma mask_roundtrips:
  "acmdrv_bypass_lookup_enable_read (acmdrv_bypass_lookup_enable_create m) = m"
  "acmdrv_bypass_layer7_enable_read (acmdrv_bypass_layer7_enable_create m) = m"
  "acmdrv_bypass_ingress_policing_enable_read (acmdrv_bypass_ingress_policing_enable_create m) = m"
  "acmdrv_bypass_ingress_policing_control_read (acmdrv_bypass_ingress_policing_control_create m) = m"
  by (simp_all add: acmdrv_bypass_lookup_enable_read_def acmdrv_bypass_lookup_enable_create_def
      acmdrv_bypass_layer7_enable_read_def acmdrv_bypass_layer7_enable_create_def
      acmdrv_bypass_ingress_policing_enable_read_def acmdrv_bypass_ingress_policing_enable_create_def
      acmdrv_bypass_ingress_policing_control_read_def acmdrv_bypass_ingress_policing_control_create_def
      field_simps)

text \<open>What the scheduler command holds, field by field.\<close>

lemma sched_cmd_fields:
  "RVAL 8 0 (acmdrv_sched_tbl_cmd_create d r g t wc wo dis en) = take_bit 9 (ucast d)"
  "RVAL 18 14 (acmdrv_sched_tbl_cmd_create d r g t wc wo dis en) = take_bit 5 (ucast r)"
  "RVAL 23 19 (acmdrv_sched_tbl_cmd_create d r g t wc wo dis en) = take_bit 5 (ucast g)"
  "RVAL 26 25 (acmdrv_sched_tbl_cmd_create d r g t wc wo dis en) = take_bit 2 t"
  "RVAL 27 27 (acmdrv_sched_tbl_cmd_create d r g t wc wo dis en) = bool32 wc"
  "RVAL 28 28 (acmdrv_sched_tbl_cmd_create d r g t wc wo dis en) = bool32 wo"
  "RVAL 29 29 (acmdrv_sched_tbl_cmd_create d r g t wc wo dis en) = bool32 dis"
  "RVAL 30 30 (acmdrv_sched_tbl_cmd_create d r g t wc wo dis en) = bool32 en"
  by (simp_all add: acmdrv_sched_tbl_cmd_create_def field_simps)

text \<open>The flags come back, the gather delay and the start of a down counter modulo \<open>2 ^ 11\<close>.\<close>

lemma RVAL_u16: "h < 16 \<Longrightarrow> RVAL h l (ucast (ucast w :: u16)) = RVAL h l w"
  by (rule bit_word_eqI) (auto simp: bit_RVAL bit_ucast_iff)

lemma flag_roundtrips:
  "acmdrv_bypass_ctrl_enable_read (acmdrv_bypass_ctrl_enable_create b) = b"
  "acmdrv_bypass_output_disable_read (acmdrv_bypass_output_disable_create b) = b"
  "acmdrv_sched_emerg_disable_eme_dis_mux_read (acmdrv_sched_emerg_disable_create b) = b"
  "acmdrv_sched_tbl_status_can_be_used_read (acmdrv_sched_tbl_status_create b c u) = b"
  "acmdrv_sched_tbl_status_last_cyc_num_en_read (acmdrv_sched_tbl_status_create b c u) = c"
  by (simp_all add: acmdrv_bypass_ctrl_enable_read_def acmdrv_bypass_ctrl_enable_create_def
      acmdrv_bypass_output_disable_read_def acmdrv_bypass_output_disable_create_def
      acmdrv_sched_emerg_disable_eme_dis_mux_read_def acmdrv_sched_emerg_disable_create_def
      acmdrv_sched_tbl_status_can_be_used_read_def acmdrv_sched_tbl_status_last_cyc_num_en_read_def
      acmdrv_sched_tbl_status_create_def RVAL_u16 field_simps)

lemma status_create_reads_only:
  "\<not> acmdrv_sched_tbl_status_in_use_read (acmdrv_sched_tbl_status_create b c u)"
  "\<not> acmdrv_sched_tbl_status_last_cyc_reached_read (acmdrv_sched_tbl_status_create b c u)"
  "\<not> acmdrv_sched_emerg_disable_eme_dis_mux_state_read (acmdrv_sched_emerg_disable_create b)"
  by (simp_all add: acmdrv_sched_tbl_status_in_use_read_def acmdrv_sched_tbl_status_last_cyc_reached_read_def
      acmdrv_sched_emerg_disable_eme_dis_mux_state_read_def acmdrv_sched_emerg_disable_create_def
      acmdrv_sched_tbl_status_create_def RVAL_u16 field_simps)

lemma gather_delay_truncated:
  "acmdrv_bypass_gather_delay_read (acmdrv_bypass_gather_delay_create d) = take_bit 11 d"
  by (rule bit_word_eqI)
     (auto simp: acmdrv_bypass_gather_delay_read_def acmdrv_bypass_gather_delay_create_def
        RVAL_WVAL_same bit_ucast_iff bit_take_bit_iff)

lemma down_counter_fields:
  "RVAL 1 0 (ucast (acmdrv_scheduler_down_counter_create sp st)) = take_bit 2 sp"
  "RVAL 14 4 (ucast (acmdrv_scheduler_down_counter_create sp st)) = take_bit 11 (ucast st)"
  by (simp_all add: acmdrv_scheduler_down_counter_create_def RVAL_u16 field_simps numeral_2_eq_2)

end
