(* ===== verification/Acm_Bitarray.thy ===== *)
theory Acm_Bitarray
  imports Acm_Types
begin

text \<open>
  The bit arrays of the driver interface (\<^verbatim>\<open>acmdrv_bitarray_*\<close> and \<^verbatim>\<open>acmdrv_bitmask_*\<close> of
  \<^verbatim>\<open>acmdrv.h\<close>): arrays of 32 bit elements, given with their size in bytes. An array is the list
  of its elements. The meaning of an array is the predicate \<open>abit a\<close> on bit numbers, and the
  lemmas give each operation as an operation on bits, across the element boundaries.
\<close>

section \<open>Operations\<close>

type_synonym bitarray = "u32 list"

definition elno :: "nat \<Rightarrow> nat" where
  "elno sz = (sz + 3) div 4"

definition acmdrv_bitarray_idx :: "nat \<Rightarrow> nat" where
  "acmdrv_bitarray_idx bno = bno div 32"

definition acmdrv_bitarray_mask :: "nat \<Rightarrow> u32" where
  "acmdrv_bitarray_mask bno = push_bit (bno mod 32) 1"

definition acmdrv_bitarray_zero :: "nat \<Rightarrow> bitarray" where
  "acmdrv_bitarray_zero sz = replicate (elno sz) 0"

definition acmdrv_bitarray_set :: "nat \<Rightarrow> nat \<Rightarrow> bitarray \<Rightarrow> bitarray" where
  "acmdrv_bitarray_set bno sz a = (if bno div 8 < sz
     then a[acmdrv_bitarray_idx bno := a ! acmdrv_bitarray_idx bno OR acmdrv_bitarray_mask bno] else a)"

definition acmdrv_bitarray_clr :: "nat \<Rightarrow> nat \<Rightarrow> bitarray \<Rightarrow> bitarray" where
  "acmdrv_bitarray_clr bno sz a = (if bno div 8 < sz
     then a[acmdrv_bitarray_idx bno := a ! acmdrv_bitarray_idx bno AND NOT (acmdrv_bitarray_mask bno)] else a)"

definition acmdrv_bitarray_isset :: "nat \<Rightarrow> nat \<Rightarrow> bitarray \<Rightarrow> bool" where
  "acmdrv_bitarray_isset bno sz a = (if bno div 8 < sz
     then a ! acmdrv_bitarray_idx bno AND acmdrv_bitarray_mask bno \<noteq> 0 else False)"

definition acmdrv_bitarray_elem_popcount :: "u32 \<Rightarrow> nat" where
  "acmdrv_bitarray_elem_popcount w = length (filter (bit w) [0..<32])"

definition acmdrv_bitarray_elem_ffs :: "u32 \<Rightarrow> nat" where
  "acmdrv_bitarray_elem_ffs w = (case find (bit w) [0..<32] of None \<Rightarrow> 0 | Some i \<Rightarrow> i + 1)"

definition acmdrv_bitarray_count :: "nat \<Rightarrow> bitarray \<Rightarrow> nat" where
  "acmdrv_bitarray_count sz a = sum_list (map (\<lambda>i. acmdrv_bitarray_elem_popcount (a ! i)) [0..<elno sz])"

text \<open>\<^verbatim>\<open>memcmp\<close> and \<^verbatim>\<open>memcpy\<close> see the bytes of the elements, low byte first.\<close>

definition array_byte :: "bitarray \<Rightarrow> nat \<Rightarrow> u8" where
  "array_byte a k = ucast (drop_bit (8 * (k mod 4)) (a ! (k div 4)))"

definition acmdrv_bitarray_equal :: "nat \<Rightarrow> bitarray \<Rightarrow> bitarray \<Rightarrow> bool" where
  "acmdrv_bitarray_equal sz a b = (map (array_byte a) [0..<sz] = map (array_byte b) [0..<sz])"

definition acmdrv_bitarray_and :: "nat \<Rightarrow> bitarray \<Rightarrow> bitarray \<Rightarrow> bitarray" where
  "acmdrv_bitarray_and sz a b = map (\<lambda>i. a ! i AND b ! i) [0..<elno sz]"

definition acmdrv_bitarray_or :: "nat \<Rightarrow> bitarray \<Rightarrow> bitarray \<Rightarrow> bitarray" where
  "acmdrv_bitarray_or sz a b = map (\<lambda>i. a ! i OR b ! i) [0..<elno sz]"

definition acmdrv_bitarray_xor :: "nat \<Rightarrow> bitarray \<Rightarrow> bitarray \<Rightarrow> bitarray" where
  "acmdrv_bitarray_xor sz a b = map (\<lambda>i. a ! i XOR b ! i) [0..<elno sz]"

definition acmdrv_bitarray_not :: "nat \<Rightarrow> bitarray \<Rightarrow> bitarray" where
  "acmdrv_bitarray_not sz a = map (\<lambda>i. NOT (a ! i)) [0..<elno sz]"

text \<open>The loop of \<^verbatim>\<open>ffs\<close>: the number of bits before the first set bit.\<close>

fun ffs_loop :: "u32 list \<Rightarrow> nat \<Rightarrow> nat" where
  "ffs_loop [] cnt = cnt"
| "ffs_loop (w # ws) cnt = (let elem_cnt = acmdrv_bitarray_elem_ffs w in
     if elem_cnt = 0 then ffs_loop ws (cnt + 32) else cnt + (elem_cnt - 1))"

definition acmdrv_bitarray_ffs :: "nat \<Rightarrow> bitarray \<Rightarrow> nat" where
  "acmdrv_bitarray_ffs sz a = (let cnt = ffs_loop (take (elno sz) a) 0 in
     if elno sz * 32 \<le> cnt then 0 else cnt + 1)"

text \<open>
  The shifts work in place; going up for a right shift and down for a left shift, no element is
  read after it was overwritten, so the result is a function of the original elements.
\<close>

definition acmdrv_bitarray_shr :: "nat \<Rightarrow> nat \<Rightarrow> bitarray \<Rightarrow> bitarray" where
  "acmdrv_bitarray_shr sz shift a = (let mshift = shift mod 32; delta = shift div 32 in
     map (\<lambda>i. if elno sz \<le> i + delta then 0
       else let v = drop_bit mshift (a ! (i + delta)) in
         if 0 < mshift \<and> i + delta + 1 < elno sz then v OR push_bit (32 - mshift) (a ! (i + delta + 1))
         else v) [0..<elno sz])"

definition acmdrv_bitarray_shl :: "nat \<Rightarrow> nat \<Rightarrow> bitarray \<Rightarrow> bitarray" where
  "acmdrv_bitarray_shl sz shift a = (let mshift = shift mod 32; delta = shift div 32 in
     map (\<lambda>i. if i < delta then 0
       else let v = push_bit mshift (a ! (i - delta)) in
         if 0 < mshift \<and> delta < i then v OR drop_bit (32 - mshift) (a ! (i - delta - 1))
         else v) [0..<elno sz])"

text \<open>The shift count is an unsigned 32 bit number: an empty mask gives \<open>2 ^ 32 - 1\<close>.\<close>

definition mask_shift :: "nat \<Rightarrow> bitarray \<Rightarrow> nat" where
  "mask_shift sz m = (acmdrv_bitarray_ffs sz m + (2 ^ 32 - 1)) mod 2 ^ 32"

definition acmdrv_bitmask_field_get :: "nat \<Rightarrow> bitarray \<Rightarrow> bitarray \<Rightarrow> u32" where
  "acmdrv_bitmask_field_get sz m a = acmdrv_bitarray_shr sz (mask_shift sz m) (acmdrv_bitarray_and sz m a) ! 0"

definition acmdrv_bitmask_field_set :: "nat \<Rightarrow> bitarray \<Rightarrow> bitarray \<Rightarrow> u32 \<Rightarrow> bitarray" where
  "acmdrv_bitmask_field_set sz m a v =
     acmdrv_bitarray_or sz (acmdrv_bitarray_and sz a (acmdrv_bitarray_not sz m))
       (acmdrv_bitarray_shl sz (mask_shift sz m) ((acmdrv_bitarray_zero sz)[0 := v]))"

definition acmdrv_bitmask_assign :: "nat \<Rightarrow> bitarray \<Rightarrow> bitarray \<Rightarrow> bitarray" where
  "acmdrv_bitmask_assign sz lh rh = map (\<lambda>i. let n = 8 * (sz - 4 * i) in
     take_bit n (rh ! i) OR push_bit n (drop_bit n (lh ! i))) [0..<length lh]"

definition acmdrv_bitmask_genmask :: "nat \<Rightarrow> nat \<Rightarrow> nat \<Rightarrow> bitarray" where
  "acmdrv_bitmask_genmask sz hi lo = (if hi < lo then acmdrv_bitarray_zero sz
     else let ones = acmdrv_bitarray_not sz (acmdrv_bitarray_zero sz) in
       acmdrv_bitarray_and sz (acmdrv_bitarray_shl sz lo ones)
         (acmdrv_bitarray_shr sz (sz * 8 - 1 - hi) ones))"

section \<open>Arrays as sets of bits\<close>

definition abit :: "bitarray \<Rightarrow> nat \<Rightarrow> bool" where
  "abit a n = (n div 32 < length a \<and> bit (a ! (n div 32)) (n mod 32))"

lemma map_upt_bit: "abit (map f [0..<k]) n \<longleftrightarrow> n div 32 < k \<and> bit (f (n div 32)) (n mod 32)"
  by (auto simp: abit_def)

lemma lengths [simp]:
  "length (acmdrv_bitarray_zero sz) = elno sz" "length (acmdrv_bitarray_and sz a b) = elno sz"
  "length (acmdrv_bitarray_or sz a b) = elno sz" "length (acmdrv_bitarray_xor sz a b) = elno sz"
  "length (acmdrv_bitarray_not sz a) = elno sz" "length (acmdrv_bitarray_shr sz k a) = elno sz"
  "length (acmdrv_bitarray_shl sz k a) = elno sz" "length (acmdrv_bitarray_set i sz a) = length a"
  "length (acmdrv_bitarray_clr i sz a) = length a" "length (acmdrv_bitmask_genmask sz hi lo) = elno sz"
  by (simp_all add: acmdrv_bitarray_zero_def acmdrv_bitarray_and_def acmdrv_bitarray_or_def
      acmdrv_bitarray_xor_def acmdrv_bitarray_not_def acmdrv_bitarray_shr_def acmdrv_bitarray_shl_def
      acmdrv_bitarray_set_def acmdrv_bitarray_clr_def acmdrv_bitmask_genmask_def Let_def)

lemma abit_zero [simp]: "abit (acmdrv_bitarray_zero sz) n = False"
  by (auto simp: abit_def acmdrv_bitarray_zero_def)

lemma abit_and: "length a = elno sz \<Longrightarrow> length b = elno sz \<Longrightarrow>
    abit (acmdrv_bitarray_and sz a b) n \<longleftrightarrow> abit a n \<and> abit b n"
  by (auto simp: acmdrv_bitarray_and_def map_upt_bit bit_and_iff) (auto simp: abit_def)

lemma abit_or: "length a = elno sz \<Longrightarrow> length b = elno sz \<Longrightarrow>
    abit (acmdrv_bitarray_or sz a b) n \<longleftrightarrow> abit a n \<or> abit b n"
  by (auto simp: acmdrv_bitarray_or_def map_upt_bit bit_or_iff) (auto simp: abit_def)

lemma abit_not: "length a = elno sz \<Longrightarrow> abit (acmdrv_bitarray_not sz a) n \<longleftrightarrow> n div 32 < elno sz \<and> \<not> abit a n"
  by (auto simp: acmdrv_bitarray_not_def map_upt_bit bit_not_iff abit_def possible_bit_def)

lemma bit_elem_beyond: "32 \<le> i \<Longrightarrow> bit (w :: u32) i = False"
  by (simp add: bit_word.rep_eq)

lemma bit_elem_less: "bit (w :: u32) i \<Longrightarrow> i < 32"
  using bit_elem_beyond by (meson linorder_not_le)

lemma bit_elem_mask: "bit (acmdrv_bitarray_mask i) k \<longleftrightarrow> k = i mod 32"
  by (auto simp: acmdrv_bitarray_mask_def bit_exp_iff possible_bit_def)

lemma same_bit: "n div 32 = i div 32 \<Longrightarrow> n mod 32 = i mod 32 \<Longrightarrow> n = (i :: nat)"
  by (metis div_mult_mod_eq)

text \<open>A bit number below the size in bits is set, any other is ignored.\<close>

lemma abit_set:
  assumes "length a = elno sz"
  shows "abit (acmdrv_bitarray_set i sz a) n \<longleftrightarrow> abit a n \<or> (n = i \<and> i div 8 < sz)"
proof (cases "i div 8 < sz")
  case True
  then have len: "i div 32 < length a" using assms by (simp add: elno_def)
  show ?thesis using True len same_bit [of n i]
    by (auto simp: acmdrv_bitarray_set_def abit_def acmdrv_bitarray_idx_def nth_list_update bit_or_iff
        bit_elem_mask)
qed (simp add: acmdrv_bitarray_set_def)

lemma abit_clr:
  assumes "length a = elno sz"
  shows "abit (acmdrv_bitarray_clr i sz a) n \<longleftrightarrow> abit a n \<and> \<not> (n = i \<and> i div 8 < sz)"
proof (cases "i div 8 < sz")
  case True
  then have len: "i div 32 < length a" using assms by (simp add: elno_def)
  show ?thesis using True len same_bit [of n i]
    by (auto simp: acmdrv_bitarray_clr_def abit_def acmdrv_bitarray_idx_def nth_list_update bit_and_iff
        bit_not_iff bit_elem_mask possible_bit_def)
qed (simp add: acmdrv_bitarray_clr_def)

lemma isset_abit:
  assumes "length a = elno sz" "i div 8 < sz"
  shows "acmdrv_bitarray_isset i sz a \<longleftrightarrow> abit a i"
proof -
  have len: "i div 32 < length a" using assms by (simp add: elno_def)
  have "w AND acmdrv_bitarray_mask i \<noteq> 0 \<longleftrightarrow> bit w (i mod 32)" for w :: u32
    using bit_eq_iff [of "w AND acmdrv_bitarray_mask i" 0]
    by (auto simp: bit_and_iff bit_elem_mask)
  then show ?thesis using assms(2) len by (simp add: acmdrv_bitarray_isset_def abit_def acmdrv_bitarray_idx_def)
qed

text \<open>The shifts move bits across elements.\<close>

lemma div_mod_add:
  fixes n k :: nat
  shows "(n + k) div 32 = n div 32 + k div 32 + (if n mod 32 + k mod 32 < 32 then 0 else 1)"
    and "(n + k) mod 32 = (if n mod 32 + k mod 32 < 32 then n mod 32 + k mod 32 else n mod 32 + k mod 32 - 32)"
proof -
  have lt: "n mod 32 < 32" "k mod 32 < 32" by simp_all
  then have d: "(n mod 32 + k mod 32) div 32 = (if n mod 32 + k mod 32 < 32 then 0 else 1)"
    and m: "(n mod 32 + k mod 32) mod 32 =
      (if n mod 32 + k mod 32 < 32 then n mod 32 + k mod 32 else n mod 32 + k mod 32 - 32)"
    by (simp_all add: not_less le_div_geq le_mod_geq)
  show "(n + k) div 32 = n div 32 + k div 32 + (if n mod 32 + k mod 32 < 32 then 0 else 1)"
    by (simp only: div_add1_eq [of n k 32] d)
  show "(n + k) mod 32 = (if n mod 32 + k mod 32 < 32 then n mod 32 + k mod 32 else n mod 32 + k mod 32 - 32)"
    by (simp only: mod_add_eq [of n 32 k, symmetric] m)
qed

lemma abit_shr:
  assumes "length a = elno sz"
  shows "abit (acmdrv_bitarray_shr sz k a) n \<longleftrightarrow> n div 32 < elno sz \<and> abit a (n + k)"
proof -
  have lt: "n mod 32 < 32" "k mod 32 < 32" by simp_all
  show ?thesis
    unfolding acmdrv_bitarray_shr_def Let_def map_upt_bit abit_def [of a] div_mod_add assms
    using lt by (auto simp: bit_or_iff bit_drop_bit_eq bit_push_bit_iff add.commute not_less bit_elem_beyond)
qed

lemma carry_cases:
  fixes a am kd km nd nm :: nat
  assumes "nd = a + kd + (if am + km < 32 then 0 else 1)"
    and "nm = (if am + km < 32 then am + km else am + km - 32)" and "am < 32" "km < 32"
  shows "a = nd - kd - (if km \<le> nm then 0 else 1)"
    and "am = (if km \<le> nm then nm - km else nm + 32 - km)"
  using assms by (cases "am + km < 32"; simp)+

lemma div_mod_diff:
  fixes n k :: nat
  assumes "k \<le> n"
  shows "(n - k) div 32 = n div 32 - k div 32 - (if k mod 32 \<le> n mod 32 then 0 else 1)"
    and "(n - k) mod 32 = (if k mod 32 \<le> n mod 32 then n mod 32 - k mod 32 else n mod 32 + 32 - k mod 32)"
proof -
  have lt: "(n - k) mod 32 < 32" "k mod 32 < 32" by simp_all
  have n: "n = (n - k) + k" using assms by simp
  have d: "n div 32 = (n - k) div 32 + k div 32 + (if (n - k) mod 32 + k mod 32 < 32 then 0 else 1)"
    and m: "n mod 32 = (if (n - k) mod 32 + k mod 32 < 32 then (n - k) mod 32 + k mod 32
      else (n - k) mod 32 + k mod 32 - 32)"
    using div_mod_add [of "n - k" k] n by simp_all
  show "(n - k) div 32 = n div 32 - k div 32 - (if k mod 32 \<le> n mod 32 then 0 else 1)"
    by (rule carry_cases [OF d m lt])
  show "(n - k) mod 32 = (if k mod 32 \<le> n mod 32 then n mod 32 - k mod 32 else n mod 32 + 32 - k mod 32)"
    by (rule carry_cases [OF d m lt])
qed

lemma shl_elem:
  fixes a :: bitarray
  assumes "kd \<le> nd" "nm < 32" "km < 32" "kd = nd \<longrightarrow> km \<le> nm"
  shows "bit (if nd < kd then 0 else let v = push_bit km (a ! (nd - kd)) in
       if 0 < km \<and> kd < nd then v OR drop_bit (32 - km) (a ! (nd - kd - 1)) else v) nm \<longleftrightarrow>
     bit (a ! (nd - kd - (if km \<le> nm then 0 else 1))) (if km \<le> nm then nm - km else nm + 32 - km)"
proof (cases "km \<le> nm")
  case True
  then show ?thesis using assms
    by (auto simp: Let_def bit_or_iff bit_drop_bit_eq bit_push_bit_iff bit_elem_beyond)
next
  case False
  then have "kd < nd" "0 < km" using assms by auto
  with False show ?thesis using assms
    by (auto simp: Let_def bit_or_iff bit_drop_bit_eq bit_push_bit_iff add.commute)
qed

lemma shl_elem_low:
  fixes a :: bitarray
  assumes "nd \<le> kd" "nd = kd \<longrightarrow> nm < km"
  shows "\<not> bit (if nd < kd then 0 else let v = push_bit km (a ! (nd - kd)) in
       if 0 < km \<and> kd < nd then v OR drop_bit (32 - km) (a ! (nd - kd - 1)) else v) nm"
  using assms by (auto simp: Let_def bit_push_bit_iff)

lemma abit_shl:
  assumes "length a = elno sz"
  shows "abit (acmdrv_bitarray_shl sz k a) n \<longleftrightarrow> n div 32 < elno sz \<and> k \<le> n \<and> abit a (n - k)"
proof (cases "k \<le> n")
  case True
  have lt: "n mod 32 < 32" "k mod 32 < 32" by simp_all
  have kn: "k div 32 \<le> n div 32" using True by (rule div_le_mono)
  have eq: "k div 32 = n div 32 \<longrightarrow> k mod 32 \<le> n mod 32"
    using True div_mult_mod_eq [of k 32] div_mult_mod_eq [of n 32] by linarith
  show ?thesis
    unfolding acmdrv_bitarray_shl_def Let_def [of "k mod 32"] Let_def [of "k div 32"] map_upt_bit
      abit_def [of a] div_mod_diff [OF True] assms shl_elem [OF kn lt eq]
    using True by auto
next
  case False
  have "n div 32 \<le> k div 32" using False by (intro div_le_mono) simp
  moreover have "n div 32 = k div 32 \<longrightarrow> n mod 32 < k mod 32"
    using False div_mult_mod_eq [of k 32] div_mult_mod_eq [of n 32] by linarith
  ultimately show ?thesis
    unfolding acmdrv_bitarray_shl_def Let_def [of "k mod 32"] Let_def [of "k div 32"] map_upt_bit
    using False shl_elem_low [of "n div 32" "k div 32" "n mod 32" "k mod 32" a] by blast
qed

lemma abit_genmask:
  assumes "sz mod 4 = 0" "lo \<le> hi" "hi < sz * 8"
  shows "abit (acmdrv_bitmask_genmask sz hi lo) n \<longleftrightarrow> lo \<le> n \<and> n \<le> hi"
proof -
  have e: "elno sz * 32 = sz * 8" using assms(1) by (auto simp: elno_def elim: mod_eqE)
  have in_range: "i div 32 < elno sz \<longleftrightarrow> i < sz * 8" for i
  proof -
    have "i div 32 < elno sz \<longleftrightarrow> i < elno sz * 32" by (simp add: div_less_iff_less_mult)
    then show ?thesis by (simp only: e)
  qed
  let ?ones = "acmdrv_bitarray_not sz (acmdrv_bitarray_zero sz)"
  have ones: "abit ?ones i \<longleftrightarrow> i < sz * 8" for i by (simp add: abit_not in_range)
  show ?thesis
    using assms(2,3) unfolding acmdrv_bitmask_genmask_def Let_def
    by (auto simp: abit_and abit_shl abit_shr ones in_range)
qed

section \<open>First bit, number of bits, fields\<close>

lemma abit_Cons: "abit (w # ws) n \<longleftrightarrow> (if n < 32 then bit w n else abit ws (n - 32))"
proof (cases "n < 32")
  case True
  then show ?thesis by (simp add: abit_def)
next
  case False
  then have "n div 32 = Suc ((n - 32) div 32)" "n mod 32 = (n - 32) mod 32"
    by (simp_all add: le_div_geq le_mod_geq)
  with False show ?thesis by (simp add: abit_def)
qed

lemma elem_ffs_first:
  assumes "bit w n" "n < 32" "\<forall>m<n. \<not> bit w m"
  shows "acmdrv_bitarray_elem_ffs w = n + 1"
proof -
  have "[0..<32] = [0..<n] @ n # [Suc n..<32]"
    using assms(2) by (metis less_imp_le_nat upt_add_eq_append upt_conv_Cons zero_le le_add_diff_inverse
        add_0)
  moreover have "find (bit w) ([0..<n] @ n # xs) = Some n" for xs
    using assms(1,3) by (auto simp: find_Some_iff nth_append intro!: exI [of _ n])
  ultimately show ?thesis by (simp add: acmdrv_bitarray_elem_ffs_def)
qed

lemma elem_ffs_none: "\<forall>m<32. \<not> bit w m \<Longrightarrow> acmdrv_bitarray_elem_ffs w = 0"
  by (auto simp: acmdrv_bitarray_elem_ffs_def find_None_iff split: option.split dest: find_Some_iff [THEN iffD1])

lemma ffs_loop_first:
  "abit ws n \<Longrightarrow> \<forall>m<n. \<not> abit ws m \<Longrightarrow> ffs_loop ws c = c + n"
proof (induction ws arbitrary: n c)
  case Nil
  then show ?case by (simp add: abit_def)
next
  case (Cons w ws)
  show ?case
  proof (cases "n < 32")
    case True
    then have "\<forall>m<n. \<not> bit w m" using Cons.prems(2) by (simp add: abit_Cons)
    with True Cons.prems(1) show ?thesis
      using elem_ffs_first [of w n] by (simp add: abit_Cons)
  next
    case False
    have "\<not> bit w m" if "m < 32" for m
      using spec [OF Cons.prems(2), of m] that False by (simp add: abit_Cons)
    then have e: "acmdrv_bitarray_elem_ffs w = 0" by (intro elem_ffs_none) simp
    have "\<not> abit ws m" if "m < n - 32" for m
      using spec [OF Cons.prems(2), of "m + 32"] that by (simp add: abit_Cons)
    then have "ffs_loop ws (c + 32) = c + 32 + (n - 32)"
      using Cons.prems(1) False by (intro Cons.IH) (simp_all add: abit_Cons)
    with e False show ?thesis by simp
  qed
qed

lemma abit_bound: "abit a n \<Longrightarrow> n < length a * 32"
  by (auto simp: abit_def div_less_iff_less_mult)

lemma ffs_first:
  assumes "length a = elno sz" "abit a n" "\<forall>m<n. \<not> abit a m"
  shows "acmdrv_bitarray_ffs sz a = n + 1"
  using ffs_loop_first [OF assms(2,3), of 0] abit_bound [OF assms(2)] assms(1)
  by (simp add: acmdrv_bitarray_ffs_def)

lemma popcount_zero_iff: "acmdrv_bitarray_elem_popcount w = 0 \<longleftrightarrow> (\<forall>n<32. \<not> bit w n)"
  by (auto simp: acmdrv_bitarray_elem_popcount_def filter_empty_conv)

lemma count_zero_iff:
  assumes "length a = elno sz"
  shows "acmdrv_bitarray_count sz a = 0 \<longleftrightarrow> (\<forall>n. \<not> abit a n)"
proof -
  have "acmdrv_bitarray_count sz a = 0 \<longleftrightarrow> (\<forall>i<elno sz. \<forall>n<32. \<not> bit (a ! i) n)"
    by (auto simp: acmdrv_bitarray_count_def popcount_zero_iff)
  also have "\<dots> \<longleftrightarrow> (\<forall>n. \<not> abit a n)"
  proof
    assume "\<forall>i<elno sz. \<forall>n<32. \<not> bit (a ! i) n"
    then show "\<forall>n. \<not> abit a n" using assms by (simp add: abit_def)
  next
    assume no: "\<forall>n. \<not> abit a n"
    show "\<forall>i<elno sz. \<forall>n<32. \<not> bit (a ! i) n"
    proof (intro allI impI)
      fix i n :: nat
      assume "i < elno sz" "n < 32"
      with spec [OF no, of "i * 32 + n"] assms show "\<not> bit (a ! i) n" by (simp add: abit_def)
    qed
  qed
  finally show ?thesis .
qed

lemma mask_shift_genmask:
  assumes "sz mod 4 = 0" "lo \<le> hi" "hi < sz * 8" "sz * 8 \<le> 2 ^ 32"
  shows "mask_shift sz (acmdrv_bitmask_genmask sz hi lo) = lo"
proof -
  have "acmdrv_bitarray_ffs sz (acmdrv_bitmask_genmask sz hi lo) = lo + 1"
    using assms by (intro ffs_first) (auto simp: abit_genmask)
  then have "mask_shift sz (acmdrv_bitmask_genmask sz hi lo) = (lo + 2 ^ 32) mod 2 ^ 32"
    by (simp add: mask_shift_def)
  also have "\<dots> = lo" using assms by simp
  finally show ?thesis .
qed

text \<open>Reading a field yields its bits, from bit 0 on; everything else of the array is masked out.\<close>

lemma field_get_bits:
  assumes "sz mod 4 = 0" "lo \<le> hi" "hi < sz * 8" "sz * 8 \<le> 2 ^ 32" "length a = elno sz"
  shows "bit (acmdrv_bitmask_field_get sz (acmdrv_bitmask_genmask sz hi lo) a) j \<longleftrightarrow>
    j < 32 \<and> lo + j \<le> hi \<and> abit a (lo + j)"
proof -
  let ?m = "acmdrv_bitmask_genmask sz hi lo"
  let ?r = "acmdrv_bitarray_shr sz lo (acmdrv_bitarray_and sz ?m a)"
  have e: "0 < elno sz" using assms(3) by (simp add: elno_def)
  have "bit (?r ! 0) j \<longleftrightarrow> j < 32 \<and> abit ?r j"
    using e by (cases "j < 32") (auto simp: abit_def dest: bit_elem_less)
  also have "\<dots> \<longleftrightarrow> j < 32 \<and> lo + j \<le> hi \<and> abit a (lo + j)"
    using e assms by (auto simp: abit_shr abit_and abit_genmask add.commute)
  finally show ?thesis
    using mask_shift_genmask [OF assms(1-4)] by (simp add: acmdrv_bitmask_field_get_def)
qed

text \<open>
  Writing a field replaces its bits; the value is not masked, so that bits beyond the width of
  the field reach the bits above it.
\<close>

lemma abit_single: "abit ((acmdrv_bitarray_zero sz)[0 := v]) n \<longleftrightarrow> 0 < elno sz \<and> n < 32 \<and> bit v n"
proof (cases "elno sz")
  case (Suc k)
  have "\<not> abit (replicate k 0) m" for m by (auto simp: abit_def)
  with Suc show ?thesis by (auto simp: acmdrv_bitarray_zero_def abit_Cons dest: bit_elem_less)
qed (simp add: acmdrv_bitarray_zero_def abit_def)

lemma field_set_bits:
  assumes "sz mod 4 = 0" "lo \<le> hi" "hi < sz * 8" "sz * 8 \<le> 2 ^ 32" "length a = elno sz"
  shows "abit (acmdrv_bitmask_field_set sz (acmdrv_bitmask_genmask sz hi lo) a v) n \<longleftrightarrow>
    n div 32 < elno sz \<and> (abit a n \<and> \<not> (lo \<le> n \<and> n \<le> hi) \<or> lo \<le> n \<and> bit v (n - lo))"
proof -
  have e: "0 < elno sz" using assms(3) by (simp add: elno_def)
  have "abit a n \<Longrightarrow> n div 32 < elno sz" using assms(5) by (auto simp: abit_def)
  then show ?thesis
    using e assms mask_shift_genmask [OF assms(1-4)]
    unfolding acmdrv_bitmask_field_set_def
    by (auto simp: abit_or abit_and abit_not abit_shl abit_genmask abit_single dest: bit_elem_less)
qed

lemma field_set_length [simp]: "length (acmdrv_bitmask_field_set sz m a v) = elno sz"
  by (simp add: acmdrv_bitmask_field_set_def)

text \<open>A value that fits the field is read back.\<close>

lemma field_roundtrip:
  assumes "sz mod 4 = 0" "lo \<le> hi" "hi < sz * 8" "sz * 8 \<le> 2 ^ 32" "length a = elno sz"
    and "\<forall>j. bit v j \<longrightarrow> lo + j \<le> hi"
  shows "acmdrv_bitmask_field_get sz (acmdrv_bitmask_genmask sz hi lo)
    (acmdrv_bitmask_field_set sz (acmdrv_bitmask_genmask sz hi lo) a v) = v"
proof (rule bit_word_eqI)
  fix j assume "j < LENGTH(32)"
  then have j: "j < 32" by simp
  have e: "elno sz * 32 = sz * 8" using assms(1) by (auto simp: elno_def elim: mod_eqE)
  have "(lo + j) div 32 < elno sz" if "lo + j \<le> hi"
  proof -
    have "lo + j < elno sz * 32" using that assms(3) by (simp only: e)
    then show ?thesis by (simp add: div_less_iff_less_mult)
  qed
  then show "bit (acmdrv_bitmask_field_get sz (acmdrv_bitmask_genmask sz hi lo)
      (acmdrv_bitmask_field_set sz (acmdrv_bitmask_genmask sz hi lo) a v)) j = bit v j"
    using assms j by (auto simp: field_get_bits field_set_bits)
qed

section \<open>Comparison and assignment\<close>

lemma assign_length [simp]: "length (acmdrv_bitmask_assign sz lh rh) = length lh"
  by (simp add: acmdrv_bitmask_assign_def)

lemma bit_array_byte: "bit (array_byte a k) j \<longleftrightarrow> j < 8 \<and> bit (a ! (k div 4)) (8 * (k mod 4) + j)"
  by (auto simp: array_byte_def bit_ucast_iff bit_drop_bit_eq)

lemma byte_of_bit: "(n :: nat) div 8 div 4 = n div 32" "8 * (n div 8 mod 4) + n mod 8 = n mod 32"
  using div_mult2_eq [of n 8 4] mod_mult2_eq [of n 8 4] by simp_all

lemma bitarray_equal_iff:
  assumes "sz \<le> 4 * length a" "sz \<le> 4 * length b"
  shows "acmdrv_bitarray_equal sz a b \<longleftrightarrow> (\<forall>n < 8 * sz. abit a n = abit b n)"
proof
  assume eq: "acmdrv_bitarray_equal sz a b"
  show "\<forall>n < 8 * sz. abit a n = abit b n"
  proof (intro allI impI)
    fix n assume n: "n < 8 * sz"
    then have "array_byte a (n div 8) = array_byte b (n div 8)"
      using eq by (simp add: acmdrv_bitarray_equal_def less_mult_imp_div_less mult.commute)
    then have "bit (array_byte a (n div 8)) (n mod 8) = bit (array_byte b (n div 8)) (n mod 8)"
      by simp
    then show "abit a n = abit b n"
      using n assms by (simp add: bit_array_byte byte_of_bit abit_def) (auto simp: less_mult_imp_div_less)
  qed
next
  assume bits: "\<forall>n < 8 * sz. abit a n = abit b n"
  have "array_byte a k = array_byte b k" if k: "k < sz" for k
  proof (rule bit_word_eqI)
    fix j assume "j < LENGTH(8)"
    then have j: "j < 8" by simp
    have "8 * k + j < 8 * sz" "(8 * k + j) div 32 = k div 4" "(8 * k + j) mod 32 = 8 * (k mod 4) + j"
      using k j byte_of_bit [of "8 * k + j"] by simp_all
    then show "bit (array_byte a k) j = bit (array_byte b k) j"
      using bits [rule_format, of "8 * k + j"] k assms by (auto simp: bit_array_byte abit_def j)
  qed
  then show "acmdrv_bitarray_equal sz a b"
    by (simp add: acmdrv_bitarray_equal_def)
qed

lemma abit_assign:
  "n < 32 * length lh \<Longrightarrow> sz \<le> 4 * length rh \<Longrightarrow>
     abit (acmdrv_bitmask_assign sz lh rh) n = (if n < 8 * sz then abit rh n else abit lh n)"
proof -
  assume n: "n < 32 * length lh" and sz: "sz \<le> 4 * length rh"
  define q r where "q = n div 32" and "r = n mod 32"
  then have "n = 32 * q + r" "r < 32"
    by simp_all
  then have "r < 8 * (sz - 4 * q) \<longleftrightarrow> n < 8 * sz" "n < 8 * sz \<Longrightarrow> q < length rh"
    using sz by linarith+
  then have "n mod 32 < 8 * (sz - 4 * (n div 32)) \<longleftrightarrow> n < 8 * sz" "n < 8 * sz \<Longrightarrow> n div 32 < length rh"
    by (simp_all add: q_def r_def)
  then show ?thesis
    using n by (auto simp: abit_def acmdrv_bitmask_assign_def Let_def bit_or_iff bit_take_bit_iff
        bit_push_bit_iff bit_drop_bit_eq possible_bit_def)
qed

lemma assign_equal:
  "length lh = elno sz \<Longrightarrow> length rh = elno sz \<Longrightarrow> acmdrv_bitarray_equal sz (acmdrv_bitmask_assign sz lh rh) rh"
  by (subst bitarray_equal_iff) (auto simp: elno_def abit_assign)

end
