(* ===== verification/Acm_Hw.thy ===== *)
theory Acm_Hw
  imports Acm_Stream_Index Acm_Sysfs_Io Acm_Driver_Api Acm_Bitarray
begin

text \<open>
  The tables and registers written when a configuration is applied (second half of \<^verbatim>\<open>sysfs.c\<close>).
  Every table has its own attribute; the place of an entry is its byte offset, which starts with
  the part of the module. A table function returns the error code of the write that failed, if the
  code does; the log \<open>st_hw\<close> holds what was written.
\<close>

section \<open>Chains of writes\<close>

text \<open>\<open>ret = f (...); if (ret != 0) return ret;\<close> and the variant with \<open>ret < 0\<close>.\<close>

definition if_zero :: "int \<times> acm_state \<Rightarrow> (acm_state \<Rightarrow> (int \<times> acm_state) option) \<Rightarrow> (int \<times> acm_state) option" where
  "if_zero res k = (case res of (ret, s) \<Rightarrow> if ret \<noteq> 0 then Some (ret, s) else k s)"

definition unless_neg :: "int \<times> acm_state \<Rightarrow> (acm_state \<Rightarrow> (int \<times> acm_state) option) \<Rightarrow> (int \<times> acm_state) option" where
  "unless_neg res k = (case res of (ret, s) \<Rightarrow> if ret < 0 then Some (ret, s) else k s)"

section \<open>Single registers\<close>

definition sysfs_write_configuration_id :: "u32 \<Rightarrow> acm_state \<Rightarrow> int \<times> acm_state" where
  "sysfs_write_configuration_id identifier s =
     write_buffer_config_sysfs_item ''configuration_id'' (D_u32 identifier) 4 0 s"

text \<open>The identifier is preset with zero; a short read leaves its upper bytes.\<close>

fun u32_le :: "u8 list \<Rightarrow> u32" where
  "u32_le [] = 0"
| "u32_le (b # bs) = ucast b OR push_bit 8 (u32_le bs)"

definition sysfs_read_configuration_id :: "acm_state \<Rightarrow> int" where
  "sysfs_read_configuration_id s =
     (case sysfs_construct_path_name SYSFS_PATH_LENGTH CONFIG_GROUP ''configuration_id'' of
        Inl ret \<Rightarrow> ret
      | Inr path_name \<Rightarrow>
          (case read_buffer_sysfs_item path_name 4 0 s of
             Inl ret \<Rightarrow> ret
           | Inr bs \<Rightarrow> sint (u32_le (take 4 bs))))"

definition sysfs_write_emergency_disable :: "acm_module \<Rightarrow> u16 \<Rightarrow> acm_state \<Rightarrow> int \<times> acm_state" where
  "sysfs_write_emergency_disable m value s =
     write_buffer_config_sysfs_item ''emergency_disable'' (D_emergency value) 2 (module_id m * 2) s"

definition sysfs_write_connection_mode_to_HW :: "acm_module \<Rightarrow> acm_state \<Rightarrow> int \<times> acm_state" where
  "sysfs_write_connection_mode_to_HW m s = (case conn_mode m of
     CONN_MODE_SERIAL \<Rightarrow> write_buffer_config_sysfs_item ''cntl_connection_mode''
       (D_u32 (acmdrv_bypass_conn_mode_create 0)) 4 (module_id m * 4) s
   | CONN_MODE_PARALLEL \<Rightarrow> write_buffer_config_sysfs_item ''cntl_connection_mode''
       (D_u32 (acmdrv_bypass_conn_mode_create 1)) 4 (module_id m * 4) s
   | CONN_MODE_OTHER \<Rightarrow> (- EINVAL, s))"

definition ACMDRV_CONFIG_START_STATE :: u32 where [simp]: "ACMDRV_CONFIG_START_STATE = 2"
definition ACMDRV_CONFIG_END_STATE :: u32 where [simp]: "ACMDRV_CONFIG_END_STATE = 3"

definition sysfs_write_config_status_to_HW :: "u32 \<Rightarrow> acm_state \<Rightarrow> int \<times> acm_state" where
  "sysfs_write_config_status_to_HW status s =
     write_buffer_config_sysfs_item ''config_state'' (D_u32 status) 4 0 s"

definition sysfs_write_module_enable :: "acm_module \<Rightarrow> bool \<Rightarrow> acm_state \<Rightarrow> int \<times> acm_state" where
  "sysfs_write_module_enable m enable s =
     write_buffer_config_sysfs_item ''cntl_ngn_enable'' (D_u32 (acmdrv_bypass_ctrl_enable_create enable))
       4 (module_id m * 4) s"

definition ACMDRV_BYPASS_SPEED_SELECT_100 :: u32 where [simp]: "ACMDRV_BYPASS_SPEED_SELECT_100 = 0"
definition ACMDRV_BYPASS_SPEED_SELECT_1000 :: u32 where [simp]: "ACMDRV_BYPASS_SPEED_SELECT_1000 = 1"

definition sysfs_write_cntl_speed :: "acm_module \<Rightarrow> acm_state \<Rightarrow> int \<times> acm_state" where
  "sysfs_write_cntl_speed m s = (case mod_speed m of
     SPEED_100MBps \<Rightarrow> write_buffer_config_sysfs_item ''cntl_speed''
       (D_u32 (acmdrv_bypass_speed_create ACMDRV_BYPASS_SPEED_SELECT_100)) 4 (module_id m * 4) s
   | SPEED_1GBps \<Rightarrow> write_buffer_config_sysfs_item ''cntl_speed''
       (D_u32 (acmdrv_bypass_speed_create ACMDRV_BYPASS_SPEED_SELECT_1000)) 4 (module_id m * 4) s
   | SPEED_OTHER \<Rightarrow> (- EACMINTERNAL, s))"

definition ACMDRV_CLEAR_ALL_PATTERN :: u32 where [simp]: "ACMDRV_CLEAR_ALL_PATTERN = 0x13F72288"

definition write_clear_all_fpga :: "acm_state \<Rightarrow> int \<times> acm_state" where
  "write_clear_all_fpga s =
     write_buffer_config_sysfs_item ''clear_all_fpga'' (D_u32 ACMDRV_CLEAR_ALL_PATTERN) 4 0 s"

section \<open>Constant buffer\<close>

text \<open>\<^verbatim>\<open>memcpy\<close> into the array, which must have room, and the offset given to the operation.\<close>

fun const_buffer_ops :: "operation list \<Rightarrow> nat \<Rightarrow> u8 list \<Rightarrow> (operation list \<times> nat \<times> u8 list) option" where
  "const_buffer_ops [] off data = Some ([], off, data)"
| "const_buffer_ops (op # ops) off data =
     (if opcode op = INSERT_CONSTANT then
        (if length (op_data op) < unat (data_size op) \<or> length data < off + unat (data_size op) then None
         else do {
           (ops', off', data') \<leftarrow> const_buffer_ops ops (off + unat (data_size op))
             (take off data @ take (unat (data_size op)) (op_data op) @ drop (off + unat (data_size op)) data);
           Some (op\<lparr>const_buff_offset := word_of_nat off\<rparr> # ops', off', data') })
      else do { (ops', off', data') \<leftarrow> const_buffer_ops ops off data; Some (op # ops', off', data') })"

fun const_buffer_streams :: "addr list \<Rightarrow> nat \<Rightarrow> u8 list \<Rightarrow> acm_state \<Rightarrow> (u8 list \<times> acm_state) option" where
  "const_buffer_streams [] off data s = Some (data, s)"
| "const_buffer_streams (p # ps) off data s = do {
     st \<leftarrow> st_streams s p;
     (ops, off', data') \<leftarrow> const_buffer_ops (operations st) off data;
     s' \<leftarrow> mod_stream p (\<lambda>st. st\<lparr>operations := ops\<rparr>) s;
     const_buffer_streams ps off' data' s' }"

definition sysfs_write_data_constant_buffer :: "acm_module \<Rightarrow> acm_state \<Rightarrow> (int \<times> acm_state) option" where
  "sysfs_write_data_constant_buffer m s = do {
     (data, s') \<leftarrow> const_buffer_streams (mod_streams m) 0 (replicate 4096 0) s;
     Some (write_buffer_config_sysfs_item ''const_buffer'' (D_bytes data) 4096 (module_id m * 4096) s') }"

section \<open>Lookup tables\<close>

record lookup_ctl =
  lc_ingress_control :: u16
  lc_lookup_enable :: u16
  lc_layer7_enable :: u16
  lc_layer7_len :: u8

definition lookup_item :: "string \<Rightarrow> nat \<Rightarrow> nat \<Rightarrow> u8 \<Rightarrow> hw_data \<Rightarrow> acm_state \<Rightarrow> int \<times> acm_state" where
  "lookup_item file sz mid idx data s =
     write_buffer_config_sysfs_item file data sz (mid * sz * 16 + unat idx * sz) s"

text \<open>The pattern and mask are copied into a zeroed array (the 16 bytes of padding are not set).\<close>

definition layer7_data :: "u8 list \<Rightarrow> nat \<Rightarrow> hw_data" where
  "layer7_data bytes n = D_bytes (take n bytes @ replicate (112 - n) 0)"

definition MAX_LOOKUP_TRIGGER_ITEMS :: nat where [simp]: "MAX_LOOKUP_TRIGGER_ITEMS = 17"

definition trigger_item :: "nat \<Rightarrow> nat \<Rightarrow> u32 \<Rightarrow> acm_state \<Rightarrow> int \<times> acm_state" where
  "trigger_item mid idx trigger s =
     write_buffer_config_sysfs_item ''stream_trigger'' (D_u32 trigger) 4
       (mid * 4 * MAX_LOOKUP_TRIGGER_ITEMS + idx * 4) s"

definition lookup_ctl_update :: "acm_stream \<Rightarrow> nat \<Rightarrow> bool \<Rightarrow> lookup_ctl \<Rightarrow> lookup_ctl" where
  "lookup_ctl_update st fsize ingress c = (let b = push_bit (unat (lookup_index st)) 1 :: u16 in
     \<lparr>lc_ingress_control = (if ingress then lc_ingress_control c OR b else lc_ingress_control c),
      lc_lookup_enable = lc_lookup_enable c OR b,
      lc_layer7_enable = (if 0 < fsize then lc_layer7_enable c OR b else lc_layer7_enable c),
      lc_layer7_len = (if unat (lc_layer7_len c) < fsize then word_of_nat fsize else lc_layer7_len c)\<rparr>)"

text \<open>
  The entries of one stream. The shift \<open>1 << lookup_index\<close> must be defined. The result has the
  return code.
\<close>

definition write_lookup_stream :: "nat \<Rightarrow> acm_stream \<Rightarrow> acm_state \<Rightarrow> (int \<times> acm_state) option" where
  "write_lookup_stream mid st s = do {
     lk \<leftarrow> stream_lookup st;
     if_zero (lookup_item ''layer7_mask'' 128 mid (lookup_index st) (layer7_data (filter_mask lk) (filter_size lk)) s) (\<lambda>s.
     if_zero (lookup_item ''layer7_pattern'' 128 mid (lookup_index st) (layer7_data (filter_pattern lk) (filter_size lk)) s) (\<lambda>s.
     if_zero (lookup_item ''lookup_mask'' 16 mid (lookup_index st) (D_bytes (header_mask lk)) s) (\<lambda>s.
     if_zero (lookup_item ''lookup_pattern'' 16 mid (lookup_index st) (D_bytes (lk_header lk)) s) (\<lambda>s. do {
     g \<leftarrow> (case reference st of
       None \<Rightarrow> Some (gather_dma_index st)
     | Some ep \<Rightarrow> do { ev \<leftarrow> st_streams s ep; Some (gather_dma_index ev) });
     Some (trigger_item mid (unat (lookup_index st)) (acmdrv_bypass_stream_trigger_create True False
       (ucast g) (ucast (scatter_dma_index st)) (redundand_index st)) s) })))) }"

definition ingress_controlled :: "acm_stream \<Rightarrow> acm_state \<Rightarrow> bool option" where
  "ingress_controlled st s =
     (if stream_has_operation_x (operations st) READ then Some True
      else case reference st of
          None \<Rightarrow> Some False
        | Some ep \<Rightarrow> do { ev \<leftarrow> st_streams s ep; Some (stream_has_operation_x (operations ev) INSERT) })"

fun write_lookup_streams :: "nat \<Rightarrow> addr list \<Rightarrow> lookup_ctl \<Rightarrow> acm_state \<Rightarrow>
    (int \<times> lookup_ctl \<times> acm_state) option" where
  "write_lookup_streams mid [] c s = Some (0, c, s)"
| "write_lookup_streams mid (p # ps) c s = do {
     st \<leftarrow> st_streams s p;
     if stype st = INGRESS_TRIGGERED_STREAM \<or> stype st = REDUNDANT_STREAM_RX then do {
       (ret, s') \<leftarrow> write_lookup_stream mid st s;
       if ret \<noteq> 0 then Some (ret, c, s')
       else if 31 \<le> unat (lookup_index st) then None
       else do {
         lk \<leftarrow> stream_lookup st;
         ingress \<leftarrow> ingress_controlled st s';
         write_lookup_streams mid ps (lookup_ctl_update st (filter_size lk) ingress c) s' } }
     else write_lookup_streams mid ps c s }"

definition sysfs_write_lookup_control_block :: "nat \<Rightarrow> u16 \<Rightarrow> u16 \<Rightarrow> u16 \<Rightarrow> u8 \<Rightarrow> acm_state \<Rightarrow>
    (int \<times> acm_state) option" where
  "sysfs_write_lookup_control_block mid ingress_control lookup_enable layer7_enable layer7_len s =
     if_zero (write_buffer_config_sysfs_item ''cntl_ingress_policing_control''
       (D_u32 (acmdrv_bypass_ingress_policing_control_create ingress_control)) 4 (mid * 4) s) (\<lambda>s.
     if_zero (write_buffer_config_sysfs_item ''cntl_ingress_policing_enable''
       (D_u32 (acmdrv_bypass_ingress_policing_enable_create lookup_enable)) 4 (mid * 4) s) (\<lambda>s.
     if_zero (write_buffer_config_sysfs_item ''cntl_layer7_enable''
       (D_u32 (acmdrv_bypass_layer7_enable_create layer7_enable)) 4 (mid * 4) s) (\<lambda>s.
     if_zero (write_buffer_config_sysfs_item ''cntl_layer7_length''
       (D_u32 (acmdrv_bypass_layer7_length_create layer7_len)) 4 (mid * 4) s) (\<lambda>s.
     if_zero (write_buffer_config_sysfs_item ''cntl_lookup_enable''
       (D_u32 (acmdrv_bypass_lookup_enable_create lookup_enable)) 4 (mid * 4) s) (\<lambda>s. Some (0, s))))))"

text \<open>The rule for frames that match no lookup entry.\<close>

definition default_trigger :: "acm_connection_mode \<Rightarrow> u32" where
  "default_trigger mode = (if mode = CONN_MODE_SERIAL
     then acmdrv_bypass_stream_trigger_create True False (word_of_nat GATHER_FORWARD_IDX) (word_of_nat SCATTER_NOP_IDX) 0
     else acmdrv_bypass_stream_trigger_create True True (word_of_nat GATHER_NOP_IDX) (word_of_nat SCATTER_NOP_IDX) 0)"

text \<open>The early return in the loop leaves the list of streams locked.\<close>

definition sysfs_write_lookup_tables :: "addr \<Rightarrow> acm_state \<Rightarrow> (int \<times> acm_state) option" where
  "sysfs_write_lookup_tables mp s = do {
     m \<leftarrow> st_modules s mp;
     (ret, c, s1) \<leftarrow> write_lookup_streams (module_id m) (mod_streams m)
       \<lparr>lc_ingress_control = 0, lc_lookup_enable = 0, lc_layer7_enable = 0, lc_layer7_len = 0\<rparr> s;
     if ret \<noteq> 0 then do {
       s2 \<leftarrow> mod_module mp (\<lambda>m. m\<lparr>streams_locked := True\<rparr>) s1;
       Some (ret, s2) }
     else do {
       res \<leftarrow> sysfs_write_lookup_control_block (module_id m) (lc_ingress_control c) (lc_lookup_enable c)
         (lc_layer7_enable c) (lc_layer7_len c) s1;
       if_zero res (\<lambda>s2.
       if_zero (trigger_item (module_id m) 16 (default_trigger (conn_mode m)) s2) (\<lambda>s3. Some (0, s3))) } }"


section \<open>Scatter table\<close>

definition dma_item :: "string \<Rightarrow> nat \<Rightarrow> nat \<Rightarrow> u32 \<Rightarrow> acm_state \<Rightarrow> int \<times> acm_state" where
  "dma_item file mid idx cmd s =
     write_buffer_config_sysfs_item file (D_u32 cmd) 4 (mid * 4 * 256 + idx * 4) s"

definition buffer_index_of :: "operation \<Rightarrow> acm_state \<Rightarrow> u8 option" where
  "buffer_index_of op s = do { b \<leftarrow> msg_buf op; buf \<leftarrow> st_bufs s b; Some (msg_buff_index buf) }"

text \<open>
  The operations of one stream: the command is the last one if no READ follows. A failing write
  leaves the inner loop only: \<open>ret\<close> is carried on to the next stream.
\<close>

fun write_scatter_ops :: "nat \<Rightarrow> operation list \<Rightarrow> nat \<Rightarrow> int \<Rightarrow> acm_state \<Rightarrow> (int \<times> acm_state) option" where
  "write_scatter_ops mid [] i ret s = Some (ret, s)"
| "write_scatter_ops mid (op # ops) i ret s =
     (if opcode op = READ then do {
        b \<leftarrow> buffer_index_of op s;
        let (ret, s') = dma_item ''scatter_dma'' mid i
              (acmdrv_bypass_dma_cmd_s_move_with_timestamp_create (\<not> stream_has_operation_x ops READ) False
                 (op_offset op) (op_length op) b) s in
        if ret \<noteq> 0 then Some (ret, s') else write_scatter_ops mid ops (i + 1) ret s' }
      else write_scatter_ops mid ops i ret s)"

fun write_scatter_streams :: "nat \<Rightarrow> addr list \<Rightarrow> int \<Rightarrow> acm_state \<Rightarrow> (int \<times> acm_state) option" where
  "write_scatter_streams mid [] ret s = Some (ret, s)"
| "write_scatter_streams mid (p # ps) ret s = do {
     st \<leftarrow> st_streams s p;
     if stype st = INGRESS_TRIGGERED_STREAM \<or> stype st = REDUNDANT_STREAM_RX then do {
       (ret, s') \<leftarrow> write_scatter_ops mid (operations st) (unat (scatter_dma_index st)) ret s;
       write_scatter_streams mid ps ret s' }
     else write_scatter_streams mid ps ret s }"

definition SCATTER_NOP_CMD :: u32 where
  "SCATTER_NOP_CMD = acmdrv_bypass_dma_cmd_s_move_with_timestamp_create True False 0 0 0"

definition sysfs_write_scatter_dma :: "acm_module \<Rightarrow> acm_state \<Rightarrow> (int \<times> acm_state) option" where
  "sysfs_write_scatter_dma m s =
     if_zero (dma_item ''scatter_dma'' (module_id m) 0 SCATTER_NOP_CMD s) (\<lambda>s.
       write_scatter_streams (module_id m) (mod_streams m) 0 s)"

section \<open>Gather and prefetch tables\<close>

fun write_gather_ingress :: "nat \<Rightarrow> nat \<Rightarrow> operation list \<Rightarrow> acm_state \<Rightarrow> int \<times> acm_state" where
  "write_gather_ingress gather_index mid [] s = (0, s)"
| "write_gather_ingress gather_index mid (op # ops) s =
     (if opcode op = FORWARD_ALL
      then dma_item ''gather_dma'' mid gather_index acmdrv_bypass_dma_cmd_g_forward_create s
      else write_gather_ingress gather_index mid ops s)"

text \<open>The message buffers of the INSERT operations, as the bit array of the driver (8 bytes).\<close>

fun lock_vector_of :: "operation list \<Rightarrow> bitarray \<Rightarrow> acm_state \<Rightarrow> bitarray option" where
  "lock_vector_of [] v s = Some v"
| "lock_vector_of (op # ops) v s =
     (if opcode op = INSERT then do {
        b \<leftarrow> buffer_index_of op s;
        lock_vector_of ops (acmdrv_bitarray_set (unat b) 8 v) s }
      else lock_vector_of ops v s)"

definition lock_group :: "bitarray \<Rightarrow> nat \<Rightarrow> u16" where
  "lock_group v i = ucast (acmdrv_bitmask_field_get 8 (acmdrv_bitmask_genmask 8 ((i + 1) * 16 - 1) (i * 16)) v)"

text \<open>The loop over the four groups of 16 buffers; groups without a buffer have no command.\<close>

fun write_lock_commands :: "nat \<Rightarrow> bool \<Rightarrow> bitarray \<Rightarrow> nat list \<Rightarrow> nat \<Rightarrow> acm_state \<Rightarrow> int \<times> nat \<times> acm_state" where
  "write_lock_commands mid dual v [] pidx s = (0, pidx, s)"
| "write_lock_commands mid dual v (i # is) pidx s =
     (if lock_group v i = 0 then write_lock_commands mid dual v is pidx s
      else let (ret, s') = dma_item ''prefetch_dma'' mid pidx
             (acmdrv_bypass_dma_cmd_p_lock_msg_buff_create (word_of_nat i) dual (lock_group v i)) s in
        if ret \<noteq> 0 then (ret, pidx, s') else write_lock_commands mid dual v is (pidx + 1) s')"

definition write_prefetch_head :: "nat \<Rightarrow> bool \<Rightarrow> bitarray \<Rightarrow> nat \<Rightarrow> acm_state \<Rightarrow> int \<times> nat \<times> acm_state" where
  "write_prefetch_head mid dual v pidx s =
     (if acmdrv_bitarray_count 8 v \<noteq> 0 then write_lock_commands mid dual v [0, 1, 2, 3] pidx s
      else let (ret, s') = dma_item ''prefetch_dma'' mid pidx acmdrv_bypass_dma_cmd_p_nop_create s in
        (ret, pidx, s'))"

text \<open>The gather command of an operation; the other operation codes are an internal error.\<close>

definition gather_command :: "operation \<Rightarrow> bool \<Rightarrow> (int + u32) option" where
  "gather_command op last_item = (case opcode op of
     INSERT_CONSTANT \<Rightarrow> Some (Inr (acmdrv_bypass_dma_cmd_g_move_cnst_buff_create last_item (op_length op) (const_buff_offset op)))
   | PAD \<Rightarrow> (case op_data op of
       [] \<Rightarrow> None
     | b # _ \<Rightarrow> Some (Inr (acmdrv_bypass_dma_cmd_g_const_byte_create last_item (op_length op) b)))
   | FORWARD \<Rightarrow> Some (Inr (acmdrv_bypass_dma_cmd_g_move_fr_buff_create last_item (op_length op) (op_offset op)))
   | INSERT \<Rightarrow> Some (Inr (acmdrv_bypass_dma_cmd_g_move_pref_create last_item))
   | _ \<Rightarrow> Some (Inl (- EACMINTERNAL)))"

text \<open>
  The prefetch command of an INSERT operation, written before its gather command; it is the last
  one if no INSERT follows. The other operations write none.
\<close>

definition write_prefetch_command :: "nat \<Rightarrow> operation \<Rightarrow> operation list \<Rightarrow> nat \<Rightarrow> acm_state \<Rightarrow>
    (int \<times> nat \<times> acm_state) option" where
  "write_prefetch_command mid op ops pidx s =
     (if opcode op = INSERT then do {
        b \<leftarrow> buffer_index_of op s;
        let (ret, s') = dma_item ''prefetch_dma'' mid pidx
              (acmdrv_bypass_dma_cmd_p_mov_msg_buff_create (\<not> stream_has_operation_x ops INSERT) False
                 (op_length op) b) s in
        Some (ret, pidx + 1, s') }
      else Some (0, pidx, s))"

text \<open>The loop over the operations; \<open>k\<close> is \<open>gather_index - start_index\<close>.\<close>

fun write_gather_ops :: "nat \<Rightarrow> bool \<Rightarrow> nat \<Rightarrow> operation list \<Rightarrow> nat \<Rightarrow> nat \<Rightarrow> acm_state \<Rightarrow>
    (int \<times> acm_state) option" where
  "write_gather_ops mid tx start [] k pidx s = Some (0, s)"
| "write_gather_ops mid tx start (op # ops) k pidx s =
     (let last_item = (ops = [] \<and> \<not> (tx \<and> k = NUM_AUTOGEN_OPS - 1)) in do {
        cmd \<leftarrow> gather_command op last_item;
        case cmd of
          Inl ret \<Rightarrow> Some (ret, s)
        | Inr gcmd \<Rightarrow> do {
            (ret, pidx', s1) \<leftarrow> write_prefetch_command mid op ops pidx s;
            if ret \<noteq> 0 then Some (ret, s1)
            else if_zero (dma_item ''gather_dma'' mid (start + k) gcmd s1) (\<lambda>s2.
              if tx \<and> k + 1 = NUM_AUTOGEN_OPS then
                if_zero (dma_item ''gather_dma'' mid (start + (k + 1)) acmdrv_bypass_dma_cmd_g_r_tag_create s2) (\<lambda>s3.
                  write_gather_ops mid tx start ops (k + 2) pidx' s3)
              else write_gather_ops mid tx start ops (k + 1) pidx' s2) } })"

definition write_gather_egress :: "nat \<Rightarrow> nat \<Rightarrow> acm_stream \<Rightarrow> acm_state \<Rightarrow> (int \<times> acm_state) option" where
  "write_gather_egress start_index mid st s = do {
     v \<leftarrow> lock_vector_of (operations st) (acmdrv_bitarray_zero 8) s;
     let tx = (stype st = REDUNDANT_STREAM_TX);
         (ret, pidx, s1) = write_prefetch_head mid tx v start_index s in
     if ret \<noteq> 0 then Some (ret, s1)
     else write_gather_ops mid tx start_index (operations st) 0 pidx s1 }"

definition write_gather_stream :: "nat \<Rightarrow> addr \<Rightarrow> acm_state \<Rightarrow> (int \<times> acm_state) option" where
  "write_gather_stream mid p s = do {
     st \<leftarrow> st_streams s p;
     if stype st = INGRESS_TRIGGERED_STREAM
     then Some (write_gather_ingress (unat (gather_dma_index st)) mid (operations st) s)
     else if stype st \<noteq> REDUNDANT_STREAM_RX
     then write_gather_egress (unat (gather_dma_index st)) mid st s
     else Some (0, s) }"

definition GATHER_NOP_CMD :: u32 where
  "GATHER_NOP_CMD = acmdrv_bypass_dma_cmd_g_move_fr_buff_create True 0 0"

definition sysfs_write_prefetcher_gather_dma :: "acm_module \<Rightarrow> acm_state \<Rightarrow> (int \<times> acm_state) option" where
  "sysfs_write_prefetcher_gather_dma m s =
     if_zero (dma_item ''gather_dma'' (module_id m) 0 GATHER_NOP_CMD s) (\<lambda>s.
     if_zero (dma_item ''prefetch_dma'' (module_id m) 0 acmdrv_bypass_dma_cmd_p_nop_create s) (\<lambda>s.
     if_zero (dma_item ''gather_dma'' (module_id m) 1 acmdrv_bypass_dma_cmd_g_forward_create s) (\<lambda>s.
     if_zero (dma_item ''prefetch_dma'' (module_id m) 1 acmdrv_bypass_dma_cmd_p_nop_create s) (\<lambda>s.
       foreach_st (write_gather_stream (module_id m)) (mod_streams m) s))))"

section \<open>Redundancy\<close>

definition redund_item :: "nat \<Rightarrow> nat \<Rightarrow> u32 \<Rightarrow> acm_state \<Rightarrow> int \<times> acm_state" where
  "redund_item mid idx ctrl s =
     write_buffer_config_sysfs_item ''redund_cnt_tab'' (D_u32 ctrl) 4 (mid * 4 * 32 + idx * 4) s"

definition redund_entry :: "acm_stream \<Rightarrow> u32" where
  "redund_entry st = (if stype st = REDUNDANT_STREAM_TX
     then acmdrv_redun_ctrltab_entry_create ACMDRV_REDUN_CTLTAB_SRC_INTSEQNUM ACMDRV_REDUN_CTLTAB_UPD_FIN_BOTH
       False (redundand_index st)
     else acmdrv_redun_ctrltab_entry_create ACMDRV_REDUN_CTLTAB_SRC_RXSEQNUM ACMDRV_REDUN_CTLTAB_UPD_MAXNUM
       True (redundand_index st))"

definition write_redund_stream :: "nat \<Rightarrow> addr \<Rightarrow> acm_state \<Rightarrow> (int \<times> acm_state) option" where
  "write_redund_stream mid p s = do {
     st \<leftarrow> st_streams s p;
     if is_redundant st then Some (redund_item mid (unat (redundand_index st)) (redund_entry st) s)
     else Some (0, s) }"

definition REDUND_NOP :: u32 where
  "REDUND_NOP = acmdrv_redun_ctrltab_entry_create ACMDRV_REDUN_CTLTAB_SRC_INTSEQNUM ACMDRV_REDUN_CTLTAB_UPD_NOP
     False 0"

definition sysfs_write_redund_ctrl_table :: "acm_module \<Rightarrow> acm_state \<Rightarrow> (int \<times> acm_state) option" where
  "sysfs_write_redund_ctrl_table m s =
     if_zero (redund_item (module_id m) 0 REDUND_NOP s) (\<lambda>s.
       foreach_st (write_redund_stream (module_id m)) (mod_streams m) s)"

text \<open>The timeouts are collected in an array; an index behind its end is undefined.\<close>

fun fill_timeouts :: "(acm_stream \<Rightarrow> bool) \<Rightarrow> (acm_stream \<Rightarrow> nat) \<Rightarrow> (acm_stream \<Rightarrow> u32) \<Rightarrow> acm_stream list \<Rightarrow>
    u32 list \<Rightarrow> u32 list option" where
  "fill_timeouts P idx val [] arr = Some arr"
| "fill_timeouts P idx val (st # sts) arr =
     (if P st then
        (if idx st < length arr then fill_timeouts P idx val sts (arr[idx st := val st]) else None)
      else fill_timeouts P idx val sts arr)"

definition sysfs_write_base_recovery :: "acm_config \<Rightarrow> acm_state \<Rightarrow> (int \<times> acm_state) option" where
  "sysfs_write_base_recovery cfg s = (case (bypass cfg 0, bypass cfg 1) of
     (Some mp, Some _) \<Rightarrow> do {
       timeout \<leftarrow> sysfs_get_recovery_timeout (st_env s);
       m \<leftarrow> st_modules s mp;
       sts \<leftarrow> module_streams s (mod_streams m);
       arr \<leftarrow> fill_timeouts is_redundant (\<lambda>st. unat (redundand_index st)) (\<lambda>_. timeout) sts (replicate 32 0);
       Some (write_buffer_config_sysfs_item ''base_recovery'' (D_u32s arr) 128 0 s) }
   | _ \<Rightarrow> Some (0, s))"

definition sysfs_write_individual_recovery :: "acm_module \<Rightarrow> acm_state \<Rightarrow> (int \<times> acm_state) option" where
  "sysfs_write_individual_recovery m s = do {
     sts \<leftarrow> module_streams s (mod_streams m);
     arr \<leftarrow> fill_timeouts (\<lambda>st. stype st = REDUNDANT_STREAM_RX \<or> stype st = INGRESS_TRIGGERED_STREAM)
       (\<lambda>st. unat (lookup_index st)) indiv_recov_timeout_ms sts (replicate 16 0);
     Some (write_buffer_config_sysfs_item ''individual_recovery'' (D_u32s arr) 64 (module_id m * 64) s) }"

section \<open>Message buffers\<close>

definition msg_buff_path :: "buff_table_type \<Rightarrow> int + string" where
  "msg_buff_path t = sysfs_construct_path_name SYSFS_PATH_LENGTH CONFIG_GROUP
     (if t = BUFF_DESC then ''msg_buff_desc'' else ''msg_buff_alias'')"

definition msg_buff_write :: "buff_table_type \<Rightarrow> string \<Rightarrow> sysfs_buffer \<Rightarrow> int + hw_write" where
  "msg_buff_write t path b =
     (if t = BUFF_DESC then Inr \<lparr>w_path = path, w_offset = unat (msg_buff_index b) * 4, w_size = 4,
        w_data = D_u32 (acmdrv_buff_desc_create (msg_buff_offset b) (buf_reset b) (stream_direction b)
          (buff_size b) (buf_timestamp b) (buf_valid b))\<rparr>
      else case acmdrv_buff_alias_init (msg_buff_index b) (msg_buff_name b) of (ret, alias) \<Rightarrow>
        if ret < 0 then Inl ret
        else Inr \<lparr>w_path = path, w_offset = unat (msg_buff_index b) * 64, w_size = 64, w_data = alias\<rparr>)"

text \<open>The number of bytes written is not compared with the size: only a negative result counts.\<close>

fun write_msg_buffs :: "buff_table_type \<Rightarrow> string \<Rightarrow> sysfs_buffer list \<Rightarrow> acm_state \<Rightarrow> int \<times> acm_state" where
  "write_msg_buffs t path [] s = (0, s)"
| "write_msg_buffs t path (b # bs) s = (case msg_buff_write t path b of
     Inl ret \<Rightarrow> (ret, s)
   | Inr w \<Rightarrow> let ret = env_pwrite (st_env s) (st_hw s) w in
       if ret < 0 then (ret, s) else write_msg_buffs t path bs (s\<lparr>st_hw := st_hw s @ [w]\<rparr>))"

definition sysfs_write_msg_buff_to_HW :: "acm_config \<Rightarrow> buff_table_type \<Rightarrow> acm_state \<Rightarrow> (int \<times> acm_state) option" where
  "sysfs_write_msg_buff_to_HW cfg t s = (case msg_buff_path t of
     Inl ret \<Rightarrow> Some (ret, s)
   | Inr path \<Rightarrow>
       if env_open (st_env s) path < 0 then Some (env_open (st_env s) path, s)
       else do { bs \<leftarrow> config_buffers s cfg; Some (write_msg_buffs t path bs s) })"

text \<open>The mask \<open>GENMASK_ULL (n - 1, 0)\<close> is defined for at most 64 buffers.\<close>

definition sysfs_write_buffer_control_mask :: "u64 \<Rightarrow> string \<Rightarrow> acm_state \<Rightarrow> (int \<times> acm_state) option" where
  "sysfs_write_buffer_control_mask vector filename s =
     (let n = get_int32_status_value ACM_SYSFS_MSGBUF_COUNT s in
      if n \<le> 0 then Some (- EACMNUMMESSBUFF, s)
      else if 64 < n then None
      else if mask (nat n) < vector then Some (- EACMNUMMESSBUFF, s)
      else case sysfs_construct_path_name SYSFS_PATH_LENGTH CONTROL_GROUP filename of
          Inl ret \<Rightarrow> Some (ret, s)
        | Inr path_name \<Rightarrow> Some (write_file_sysfs path_name
            (D_u32s (fold (\<lambda>i a. if bit vector i then acmdrv_bitarray_set i 8 a else a) [0..<nat n]
              (acmdrv_bitarray_zero 8))) 8 0 s))"

end
