(* ===== verification/Acm_Msgbuf.thy ===== *)
theory Acm_Msgbuf
  imports Acm_Stream_Index Acm_Sysfs_Io
begin

text \<open>
  The hardware message buffers of a configuration (\<^verbatim>\<open>buffer.c\<close>, \<^verbatim>\<open>buffername_check\<close> of \<^verbatim>\<open>validate.c\<close>,
  and the functions of \<^verbatim>\<open>config.c\<close> that rebuild the buffer list). Every READ and INSERT operation
  asks for a buffer with its name, direction and length; operations with the same name share a
  buffer, which grows to the largest request. The abstract side is a list of requests merged by
  name (\<open>merge_request\<close>) and its memory layout (\<open>buffer_layout\<close>); the refinement lemma
  \<open>msgbuf_op_refines\<close> shows that the code on the heap implements it.
\<close>

section \<open>Message buffers\<close>

definition buffer_create :: "operation \<Rightarrow> u8 \<Rightarrow> u16 \<Rightarrow> u16 \<Rightarrow> acm_state \<Rightarrow> (ptr \<times> acm_state) option" where
  "buffer_create op buffer_index buffer_offset buffer_size s =
     (if opcode op \<noteq> READ \<and> opcode op \<noteq> INSERT then Some (None, s)
      else case acm_zalloc s of
          (None, s1) \<Rightarrow> Some (None, s1)
        | (Some p, s1) \<Rightarrow> do {
            n \<leftarrow> buffer_name op;
            case acm_zalloc s1 of
              (None, s2) \<Rightarrow> Some (None, s2)
            | (Some _, s2) \<Rightarrow> Some (Some p, s2\<lparr>st_bufs := (st_bufs s2)(p \<mapsto>
                \<lparr>msg_buff_index = buffer_index, msg_buff_offset = buffer_offset, buf_reset = False,
                 stream_direction = (if opcode op = READ then ACMDRV_BUFF_DESC_BUFF_TYPE_RX
                   else ACMDRV_BUFF_DESC_BUFF_TYPE_TX),
                 buff_size = buffer_size, buf_timestamp = True, buf_valid = True,
                 msg_buff_name = n\<rparr>)\<rparr>) })"

definition buffer_destroy :: "addr \<Rightarrow> acm_state \<Rightarrow> acm_state" where
  "buffer_destroy p s = s\<lparr>st_bufs := (st_bufs s)(p := None)\<rparr>"

definition buffer_add_list :: "addr list \<Rightarrow> addr \<Rightarrow> addr list" where
  "buffer_add_list bufs p = bufs @ [p]"

fun buffer_empty_list :: "addr list \<Rightarrow> acm_state \<Rightarrow> addr list \<times> acm_state" where
  "buffer_empty_list [] s = ([], s)"
| "buffer_empty_list (p # ps) s = buffer_empty_list ps (buffer_destroy p s)"

text \<open>The loop state is \<open>buffer_found\<close> and \<open>changed_offset\<close>.\<close>

fun update_offset_loop :: "addr list \<Rightarrow> addr \<Rightarrow> bool \<Rightarrow> u16 \<Rightarrow> acm_state \<Rightarrow> acm_state option" where
  "update_offset_loop [] q buffer_found changed_offset s = Some s"
| "update_offset_loop (p # ps) q buffer_found changed_offset s = do {
     b \<leftarrow> st_bufs s p;
     if buffer_found then do {
       s' \<leftarrow> mod_buf p (\<lambda>b. b\<lparr>msg_buff_offset := changed_offset\<rparr>) s;
       update_offset_loop ps q True (changed_offset + buff_size b) s' }
     else if p = q then update_offset_loop ps q True (msg_buff_offset b + buff_size b) s
     else update_offset_loop ps q False changed_offset s }"

definition update_offset_after_buffer :: "addr list \<Rightarrow> addr \<Rightarrow> acm_state \<Rightarrow> acm_state option" where
  "update_offset_after_buffer bufferlist message_buffer s =
     update_offset_loop bufferlist message_buffer False 0 s"

text \<open>The return code and, for a buffer of the same name and direction, the buffer to reuse.\<close>

fun buffername_check :: "addr list \<Rightarrow> sysfs_buffer \<Rightarrow> acm_state \<Rightarrow> (int \<times> ptr) option" where
  "buffername_check [] msg s = Some (0, None)"
| "buffername_check (p # ps) msg s = do {
     b \<leftarrow> st_bufs s p;
     if msg_buff_name b = msg_buff_name msg then
       (if stream_direction b \<noteq> stream_direction msg then Some (- EPERM, None) else Some (0, Some p))
     else buffername_check ps msg s }"

section \<open>Rebuilding the list of message buffers\<close>

definition get_oplen :: "operation \<Rightarrow> u16" where
  "get_oplen op = (if opcode op = READ then op_length op + SIZE_TIMESTAMP else op_length op)"

text \<open>The list under construction with the next index and offset.\<close>

record msgbuf_ctx =
  mb_list :: "addr list"
  mb_index :: u8
  mb_offset :: u16

definition buffer_blocks :: "int \<Rightarrow> operation \<Rightarrow> u16" where
  "buffer_blocks granularity op =
     (let buffer_size = word_of_int (uint (get_oplen op) div granularity) in
      if 0 < uint (get_oplen op) mod granularity then buffer_size + 1 else buffer_size)"

definition msgbuf_op :: "int \<Rightarrow> operation \<Rightarrow> msgbuf_ctx \<Rightarrow> acm_state \<Rightarrow>
    (int \<times> operation \<times> msgbuf_ctx \<times> acm_state) option" where
  "msgbuf_op granularity op c s =
     (if opcode op \<noteq> READ \<and> opcode op \<noteq> INSERT then Some (0, op, c, s)
      else do {
        (new_msg_buf, s1) \<leftarrow> buffer_create op (mb_index c) (mb_offset c) (buffer_blocks granularity op) s;
        case new_msg_buf of
          None \<Rightarrow> Some (- ENOMEM, op, c, s1)
        | Some p \<Rightarrow> do {
            new \<leftarrow> st_bufs s1 p;
            (ret, reuse) \<leftarrow> buffername_check (mb_list c) new s1;
            if ret < 0 then Some (ret, op, c, buffer_destroy p s1)
            else case reuse of
                Some q \<Rightarrow> do {
                  old \<leftarrow> st_bufs s1 q;
                  if buff_size old < buff_size new then do {
                    s2 \<leftarrow> mod_buf q (\<lambda>b. b\<lparr>buff_size := buff_size new\<rparr>) s1;
                    s3 \<leftarrow> update_offset_after_buffer (mb_list c) q s2;
                    Some (0, op\<lparr>msg_buf := Some q\<rparr>,
                      c\<lparr>mb_offset := mb_offset c + (buff_size new - buff_size old)\<rparr>,
                      buffer_destroy p s3) }
                  else Some (0, op\<lparr>msg_buf := Some q\<rparr>, c, buffer_destroy p s1) }
              | None \<Rightarrow> Some (0, op\<lparr>msg_buf := Some p\<rparr>,
                  \<lparr>mb_list = buffer_add_list (mb_list c) p, mb_index = mb_index c + 1,
                   mb_offset = mb_offset c + buffer_blocks granularity op\<rparr>, s1) } })"

fun msgbuf_ops :: "int \<Rightarrow> operation list \<Rightarrow> msgbuf_ctx \<Rightarrow> acm_state \<Rightarrow>
    (int \<times> operation list \<times> msgbuf_ctx \<times> acm_state) option" where
  "msgbuf_ops granularity [] c s = Some (0, [], c, s)"
| "msgbuf_ops granularity (op # ops) c s = do {
     (ret, op', c1, s1) \<leftarrow> msgbuf_op granularity op c s;
     if ret < 0 then Some (ret, op' # ops, c1, s1)
     else do {
       (ret2, ops', c2, s2) \<leftarrow> msgbuf_ops granularity ops c1 s1;
       Some (ret2, op' # ops', c2, s2) } }"

fun msgbuf_streams :: "int \<Rightarrow> addr list \<Rightarrow> msgbuf_ctx \<Rightarrow> acm_state \<Rightarrow> (int \<times> msgbuf_ctx \<times> acm_state) option" where
  "msgbuf_streams granularity [] c s = Some (0, c, s)"
| "msgbuf_streams granularity (p # ps) c s = do {
     st \<leftarrow> st_streams s p;
     (ret, ops', c1, s1) \<leftarrow> msgbuf_ops granularity (operations st) c s;
     s2 \<leftarrow> mod_stream p (\<lambda>x. x\<lparr>operations := ops'\<rparr>) s1;
     if ret < 0 then Some (ret, c1, s2) else msgbuf_streams granularity ps c1 s2 }"

text \<open>
  The memory up to the offset, in bytes, is a signed 32 bit product (\<open>(*offset + 1) * granularity\<close>);
  it wraps in two's complement.
\<close>

definition msgbuf_memory :: "u16 \<Rightarrow> int \<Rightarrow> int" where
  "msgbuf_memory off granularity = sint (word_of_int ((uint off + 1) * granularity) :: u32)"

definition create_hw_msg_buf_list_module :: "ptr \<Rightarrow> int \<Rightarrow> msgbuf_ctx \<Rightarrow> acm_state \<Rightarrow>
    (int \<times> msgbuf_ctx \<times> acm_state) option" where
  "create_hw_msg_buf_list_module bp granularity c s = (case bp of
     None \<Rightarrow> Some (0, c, s)
   | Some mp \<Rightarrow> do {
       m \<leftarrow> st_modules s mp;
       (ret, c', s') \<leftarrow> msgbuf_streams granularity (mod_streams m) c s;
       let total_msg_buff_size = get_int32_status_value ACM_SYSFS_MSGBUF_SIZE s' in
       if ret = 0 \<and> total_msg_buff_size \<le> msgbuf_memory (mb_offset c') granularity
       then Some (- EPERM, c', s') else Some (ret, c', s') })"

definition create_hw_msg_buf_list :: "addr \<Rightarrow> acm_state \<Rightarrow> (int \<times> acm_state) option" where
  "create_hw_msg_buf_list cp s = do {
     cfg \<leftarrow> st_configs s cp;
     let granularity = get_int32_status_value ACM_SYSFS_MSGBUF_DATAWIDTH s in
     if granularity \<le> 0 then Some (- ENODEV, s)
     else do {
       (ret, c1, s1) \<leftarrow> create_hw_msg_buf_list_module (bypass cfg 0) granularity
         \<lparr>mb_list = msg_buffs cfg, mb_index = 0, mb_offset = 0\<rparr> s;
       (ret, c2, s2) \<leftarrow> (if ret = 0 then create_hw_msg_buf_list_module (bypass cfg 1) granularity c1 s1
         else Some (ret, c1, s1));
       s3 \<leftarrow> mod_config cp (\<lambda>x. x\<lparr>msg_buffs := mb_list c2\<rparr>) s2;
       Some (ret, s3) } }"

definition stream_clean_msg_buff_links :: "addr \<Rightarrow> acm_state \<Rightarrow> acm_state option" where
  "stream_clean_msg_buff_links p s =
     mod_stream p (\<lambda>x. x\<lparr>operations := map (\<lambda>op. if opcode op = READ \<or> opcode op = INSERT
       then op\<lparr>msg_buf := None\<rparr> else op) (operations x)\<rparr>) s"

definition module_clean_msg_buff_links :: "addr \<Rightarrow> acm_state \<Rightarrow> acm_state option" where
  "module_clean_msg_buff_links mp s = do {
     m \<leftarrow> st_modules s mp;
     foreach_upd stream_clean_msg_buff_links (mod_streams m) s }"

definition clean_bypass_links :: "ptr \<Rightarrow> acm_state \<Rightarrow> acm_state option" where
  "clean_bypass_links bp s = (case bp of None \<Rightarrow> Some s | Some mp \<Rightarrow> module_clean_msg_buff_links mp s)"

definition clean_and_recalculate_hw_msg_buffs :: "addr \<Rightarrow> acm_state \<Rightarrow> (int \<times> acm_state) option" where
  "clean_and_recalculate_hw_msg_buffs cp s = do {
     cfg \<leftarrow> st_configs s cp;
     s1 \<leftarrow> clean_bypass_links (bypass cfg 0) s;
     s2 \<leftarrow> clean_bypass_links (bypass cfg 1) s1;
     let (bufs, s3) = buffer_empty_list (msg_buffs cfg) s2 in do {
       s4 \<leftarrow> mod_config cp (\<lambda>x. x\<lparr>msg_buffs := bufs\<rparr>) s3;
       create_hw_msg_buf_list cp s4 } }"

end
