(* ===== verification/Acm_Validate.thy ===== *)
theory Acm_Validate
  imports Acm_Msgbuf
begin

text \<open>
  Validation (\<^verbatim>\<open>validate.c\<close>, \<^verbatim>\<open>calc_nop_schedules_for_long_cycles\<close> of \<^verbatim>\<open>module.c\<close>). The C functions
  call each other in both directions: final validation goes top down (configuration, modules,
  streams), non-final validation bottom up (stream, module, configuration). The flag
  \<open>final_validate\<close> decides the direction before any recursive call, so each function is the
  composition of its own checks (\<open>..._checks\<close>) with the functions of the direction. Only the
  configuration level changes the state: it rebuilds the message buffers.
\<close>

section \<open>Checks on one stream\<close>

definition is_egress_payload :: "operation \<Rightarrow> bool" where
  "is_egress_payload op = (opcode op = INSERT \<or> opcode op = INSERT_CONSTANT \<or> opcode op = PAD \<or>
     opcode op = FORWARD)"

fun calc_stream_egress_framesize :: "operation list \<Rightarrow> int" where
  "calc_stream_egress_framesize [] = 0"
| "calc_stream_egress_framesize (op # ops) =
     (if is_egress_payload op then uint (op_length op) + calc_stream_egress_framesize ops
      else calc_stream_egress_framesize ops)"

fun stream_sum_const_buffer :: "operation list \<Rightarrow> int" where
  "stream_sum_const_buffer [] = 0"
| "stream_sum_const_buffer (op # ops) =
     (if opcode op = INSERT_CONSTANT then uint (op_length op) + stream_sum_const_buffer ops
      else stream_sum_const_buffer ops)"

text \<open>The loop of \<^verbatim>\<open>check_stream_payload\<close>: an error code or the final egress position.\<close>

fun payload_loop :: "operation list \<Rightarrow> u32 \<Rightarrow> u32 \<Rightarrow> int + u32" where
  "payload_loop [] egress_pos ingress_pos = Inr egress_pos"
| "payload_loop (op # ops) egress_pos ingress_pos =
     (if opcode op = INSERT \<or> opcode op = INSERT_CONSTANT \<or> opcode op = PAD
      then payload_loop ops (egress_pos + ucast (op_length op)) (ingress_pos + ucast (op_length op))
      else if opcode op = FORWARD
      then (if ingress_pos + MAX_TRUNC_BYTES < ucast (op_offset op) then Inl (- EACMFWDOFFSET)
        else let pos = (if ingress_pos < ucast (op_offset op) then ucast (op_offset op) else ingress_pos) in
          payload_loop ops (egress_pos + ucast (op_length op)) (pos + ucast (op_length op)))
      else payload_loop ops egress_pos ingress_pos)"

definition check_stream_payload :: "operation list \<Rightarrow> int" where
  "check_stream_payload ops = (case payload_loop ops 0 0 of
     Inl ret \<Rightarrow> ret
   | Inr egress_pos \<Rightarrow> if MAX_PAYLOAD_HEADER_SIZE < egress_pos then - EACMPAYLOAD else 0)"

definition check_window :: "u32 \<Rightarrow> schedule_entry \<Rightarrow> int option" where
  "check_window module_cycle_ns w = Some
     (if period_ns w = 0 then - EINVAL
      else if module_cycle_ns mod period_ns w \<noteq> 0 then - EACMINCOMPATIBLEPERIOD else 0)"

text \<open>
  The additional checks for redundant streams overwrite \<open>ret\<close> when they fail, in this order.
\<close>

definition check_redundant_windows :: "u32 \<Rightarrow> schedule_entry list \<Rightarrow> schedule_entry list \<Rightarrow> int \<Rightarrow> int" where
  "check_redundant_windows module_cycle_ns ws rs ret =
     (let ret = (if 1 < length ws then - EINVAL else ret) in
      if length ws \<noteq> length rs then - EINVAL
      else case (ws, rs) of
          ([w], r # _) \<Rightarrow>
            (if period_ns w \<noteq> period_ns r then - EACMINCOMPATIBLEPERIOD
             else if module_cycle_ns \<noteq> period_ns w then - EACMINCOMPATIBLEPERIOD
             else ret)
        | _ \<Rightarrow> ret)"

definition stream_check_periods :: "acm_state \<Rightarrow> acm_stream \<Rightarrow> u32 \<Rightarrow> bool \<Rightarrow> int option" where
  "stream_check_periods s st module_cycle_ns final_validate = do {
     ws \<leftarrow> stream_windows s st;
     ret \<leftarrow> foreach_check (check_window module_cycle_ns) ws;
     if final_validate \<and> is_redundant st then do {
       q \<leftarrow> reference_redundant st;
       red \<leftarrow> st_streams s q;
       rs \<leftarrow> stream_windows s red;
       Some (check_redundant_windows module_cycle_ns ws rs ret) }
     else Some ret }"

text \<open>The module a stream is in, if any, through the back link of the list.\<close>

definition stream_home :: "acm_state \<Rightarrow> acm_stream \<Rightarrow> (addr \<times> acm_module) option option" where
  "stream_home s st = (case stream_list st of
     None \<Rightarrow> Some None
   | Some mp \<Rightarrow> do { m \<leftarrow> st_modules s mp; Some (Some (mp, m)) })"

definition redundant_home :: "acm_state \<Rightarrow> acm_stream \<Rightarrow> (addr \<times> acm_module) option option" where
  "redundant_home s st = (case reference_redundant st of
     None \<Rightarrow> Some None
   | Some q \<Rightarrow> do { r \<leftarrow> st_streams s q; stream_home s r })"

definition home_config :: "(addr \<times> acm_module) option \<Rightarrow> ptr" where
  "home_config home = Option.bind home (\<lambda>(mp, m). config_reference m)"

definition check_redundant :: "bool \<Rightarrow> (addr \<times> acm_module) option \<Rightarrow> (addr \<times> acm_module) option \<Rightarrow> int" where
  "check_redundant final_validate home ref_home =
     (if home_config home \<noteq> None \<and> home_config ref_home \<noteq> None \<and> home_config home \<noteq> home_config ref_home
      then - EACMDIFFCONFIG
      else if final_validate \<and> (home_config home = None \<or> home_config ref_home = None)
      then - EACMSTREAMCONFIG
      else if home \<noteq> None \<and> ref_home \<noteq> None \<and> map_option fst home = map_option fst ref_home
      then - EACMREDSAMEMOD
      else 0)"

definition has_egress_frame :: "acm_stream \<Rightarrow> bool" where
  "has_egress_frame st = (stype st = TIME_TRIGGERED_STREAM \<or> stype st = EVENT_STREAM \<or>
     stype st = RECOVERY_STREAM \<or> stype st = REDUNDANT_STREAM_TX)"

definition validate_stream_checks :: "bool \<Rightarrow> acm_state \<Rightarrow> addr \<Rightarrow> int option" where
  "validate_stream_checks final_validate s p = do {
     st \<leftarrow> st_streams s p;
     if final_validate \<and> has_egress_frame st \<and> calc_stream_egress_framesize (operations st) < ACM_MIN_FRAME_SIZE
     then Some (- EACMEGRESSFRAMESIZE)
     else do {
       home \<leftarrow> stream_home s st;
       ret \<leftarrow> (if is_redundant st
         then do { ref_home \<leftarrow> redundant_home s st; Some (check_redundant final_validate home ref_home) }
         else Some 0);
       if ret \<noteq> 0 then Some ret
       else let ret = check_stream_payload (operations st) in
         if ret \<noteq> 0 then Some ret
         else if ACM_MAX_INSERT_OPERATIONS < int (stream_num_operations_x st INSERT)
         then Some (- EACMNUMINSERT) else Some 0 } }"

section \<open>Checks on one module\<close>

text \<open>The loop state is \<open>previous_time\<close>, a signed integer.\<close>

fun nop_loop :: "fsc_command list \<Rightarrow> int \<Rightarrow> u32 \<Rightarrow> u32" where
  "nop_loop [] previous_time num_nops = num_nops"
| "nop_loop (c # cs) previous_time num_nops =
     (let delta_time = sint (abs_cycle c - word_of_int previous_time :: u32) in
      nop_loop cs (sint (abs_cycle c))
        (if int (unat UINT16_T_MAX) < delta_time
         then num_nops + word_of_int (c_div delta_time (uint NOP_DELTA_CYCLE)) else num_nops))"

definition calc_nop_schedules_for_long_cycles :: "fsc_command list \<Rightarrow> u32" where
  "calc_nop_schedules_for_long_cycles fscs = nop_loop fscs 0 0"

fun gaps_loop :: "fsc_command list \<Rightarrow> bool \<Rightarrow> u32 \<Rightarrow> int" where
  "gaps_loop [] first last_time = 0"
| "gaps_loop (c # cs) first last_time =
     (let diff = abs_cycle c - last_time in
      if diff < ANZ_MIN_TICKS \<and> \<not> (diff = 0 \<and> first) then - EACMSCHEDTIME
      else gaps_loop cs False (abs_cycle c))"

definition check_module_scheduling_gaps :: "acm_module \<Rightarrow> int" where
  "check_module_scheduling_gaps m = gaps_loop (fsc_list m) True 0"

definition too_many_events :: "fsc_command list \<Rightarrow> bool" where
  "too_many_events fscs = (let add_items = unat (calc_nop_schedules_for_long_cycles fscs) in
     (ACM_MAX_SCHEDULE_EVENTS < length fscs + add_items \<and> abs_cycle (hd fscs) = 0) \<or>
     (ACM_MAX_SCHEDULE_EVENTS - 1 < length fscs + add_items \<and> abs_cycle (hd fscs) \<noteq> 0))"

fun sum_const_buffers :: "acm_stream list \<Rightarrow> int" where
  "sum_const_buffers [] = 0"
| "sum_const_buffers (st # sts) = stream_sum_const_buffer (operations st) + sum_const_buffers sts"

fun count_streams :: "(acm_stream \<Rightarrow> bool) \<Rightarrow> acm_stream list \<Rightarrow> int" where
  "count_streams P [] = 0"
| "count_streams P (st # sts) = (if P st then 1 + count_streams P sts else count_streams P sts)"

fun sum_egress_ops :: "acm_stream list \<Rightarrow> int" where
  "sum_egress_ops [] = 0"
| "sum_egress_ops (st # sts) =
     (let prefetch_ops = int (stream_num_prefetch_ops st); gather_ops = int (stream_num_gather_ops st) in
      if prefetch_ops \<le> gather_ops then gather_ops + sum_egress_ops sts else prefetch_ops + sum_egress_ops sts)"

fun sum_ingress_ops :: "acm_stream list \<Rightarrow> int" where
  "sum_ingress_ops [] = 0"
| "sum_ingress_ops (st # sts) = int (stream_num_scatter_ops st) + sum_ingress_ops sts"

definition is_lookup_stream :: "acm_stream \<Rightarrow> bool" where
  "is_lookup_stream st = (stype st = INGRESS_TRIGGERED_STREAM \<or> stype st = REDUNDANT_STREAM_RX)"

definition validate_module_checks :: "bool \<Rightarrow> acm_state \<Rightarrow> acm_module \<Rightarrow> int option" where
  "validate_module_checks final_validate s m = do {
     sts \<leftarrow> module_streams s (mod_streams m);
     if ACM_MAX_CONST_BUFFER_SIZE < sum_const_buffers sts then Some (- EACMCONSTBUFFER)
     else if ACM_MAX_REDUNDANT_STREAMS < int REDUNDANCY_START_IDX + count_streams is_redundant sts
     then Some (- EACMREDUNDANDSTREAMS)
     else if too_many_events (fsc_list m) then Some (- EACMSCHEDULEEVENTS)
     else if cycle_ns m = 0 then Some (- EACMMODCYCLE)
     else do {
       ret \<leftarrow> foreach_check (\<lambda>st. stream_check_periods s st (cycle_ns m) final_validate) sts;
       if ret \<noteq> 0 then Some ret
       else let ret = check_module_scheduling_gaps m in
         if ret \<noteq> 0 then Some ret
         else if ACM_MAX_EGRESS_OPERATIONS < int GATHER_START_IDX + sum_egress_ops sts
         then Some (- EACMEGRESSOPERATIONS)
         else if ACM_MAX_INGRESS_OPERATIONS < int SCATTER_START_IDX + sum_ingress_ops sts
         then Some (- EACMINGRESSOPERATIONS)
         else if ACM_MAX_LOOKUP_ITEMS < int LOOKUP_START_IDX + count_streams is_lookup_stream sts
         then Some (- EACMLOOKUPENTRIES)
         else Some 0 } }"

text \<open>An operation exists for every stream, or an event stream follows.\<close>

fun op_exists_loop :: "acm_stream list \<Rightarrow> bool" where
  "op_exists_loop [] = True"
| "op_exists_loop (st # sts) =
     (if operations st = [] \<and> \<not> (stype st = INGRESS_TRIGGERED_STREAM \<and> reference st \<noteq> None)
      then False else op_exists_loop sts)"

definition check_module_op_exists :: "acm_state \<Rightarrow> ptr \<Rightarrow> bool option" where
  "check_module_op_exists s bp = (case bp of
     None \<Rightarrow> Some True
   | Some mp \<Rightarrow> do {
       m \<leftarrow> st_modules s mp;
       sts \<leftarrow> module_streams s (mod_streams m);
       Some (op_exists_loop sts) })"

section \<open>Final validation, top down\<close>

definition validate_stream_list_final :: "acm_state \<Rightarrow> addr list \<Rightarrow> int option" where
  "validate_stream_list_final s ps = foreach_check (validate_stream_checks True s) ps"

definition validate_module_final :: "acm_state \<Rightarrow> addr \<Rightarrow> int option" where
  "validate_module_final s mp = do {
     m \<leftarrow> st_modules s mp;
     ret \<leftarrow> validate_stream_list_final s (mod_streams m);
     if ret \<noteq> 0 then Some ret else validate_module_checks True s m }"

definition validate_bypass_final :: "acm_state \<Rightarrow> ptr \<Rightarrow> int option" where
  "validate_bypass_final s bp = (case bp of None \<Rightarrow> Some 0 | Some mp \<Rightarrow> validate_module_final s mp)"

definition validate_config_final_checks :: "acm_state \<Rightarrow> acm_config \<Rightarrow> int option" where
  "validate_config_final_checks s cfg = do {
     ret \<leftarrow> foreach_check (\<lambda>i. validate_bypass_final s (bypass cfg i)) [0, 1];
     if ret \<noteq> 0 then Some ret
     else foreach_check (\<lambda>i. do {
         operation_exists \<leftarrow> check_module_op_exists s (bypass cfg i);
         Some (if operation_exists then 0 else - EACMOPMISSING) }) [0, 1] }"

text \<open>
  The number of buffers is compared as an unsigned number, so that a negative status value (an
  error code) is larger than every number.
\<close>

definition too_many_buffers :: "nat \<Rightarrow> int \<Rightarrow> bool" where
  "too_many_buffers n limit = (0 \<le> limit \<and> limit < int n)"

definition validate_config :: "bool \<Rightarrow> addr \<Rightarrow> acm_state \<Rightarrow> (int \<times> acm_state) option" where
  "validate_config final_validate cp s = do {
     cfg \<leftarrow> st_configs s cp;
     ret \<leftarrow> (if final_validate then validate_config_final_checks s cfg else Some 0);
     if ret \<noteq> 0 then Some (ret, s)
     else do {
       (ret, s') \<leftarrow> clean_and_recalculate_hw_msg_buffs cp s;
       if ret \<noteq> 0 then Some (ret, s')
       else do {
         cfg' \<leftarrow> st_configs s' cp;
         if too_many_buffers (length (msg_buffs cfg')) (get_int32_status_value ACM_SYSFS_MSGBUF_COUNT s')
         then Some (- EACMNUMMESSBUFF, s') else Some (0, s') } } }"

section \<open>Non-final validation, bottom up\<close>

definition validate_module :: "bool \<Rightarrow> addr \<Rightarrow> acm_state \<Rightarrow> (int \<times> acm_state) option" where
  "validate_module final_validate mp s =
     (if final_validate then do { ret \<leftarrow> validate_module_final s mp; Some (ret, s) }
      else do {
        m \<leftarrow> st_modules s mp;
        ret \<leftarrow> validate_module_checks False s m;
        if ret \<noteq> 0 then Some (ret, s)
        else case config_reference m of
            None \<Rightarrow> Some (0, s)
          | Some cp \<Rightarrow> validate_config False cp s })"

definition validate_stream_list :: "bool \<Rightarrow> addr \<Rightarrow> acm_state \<Rightarrow> (int \<times> acm_state) option" where
  "validate_stream_list final_validate mp s =
     (if final_validate then do {
        m \<leftarrow> st_modules s mp;
        ret \<leftarrow> validate_stream_list_final s (mod_streams m);
        Some (ret, s) }
      else validate_module False mp s)"

definition validate_stream :: "bool \<Rightarrow> addr \<Rightarrow> acm_state \<Rightarrow> (int \<times> acm_state) option" where
  "validate_stream final_validate p s = do {
     ret \<leftarrow> validate_stream_checks final_validate s p;
     if ret \<noteq> 0 then Some (ret, s)
     else do {
       st \<leftarrow> st_streams s p;
       case stream_list st of
         None \<Rightarrow> Some (0, s)
       | Some mp \<Rightarrow> if final_validate then Some (0, s) else validate_stream_list False mp s } }"

end
