(* ===== verification/Acm_Fsc.thy ===== *)
theory Acm_Fsc
  imports Acm_Stream_Index Acm_Sysfs_Io Acm_Driver_Api
begin

text \<open>
  The schedule table of a module: the commands created from the schedule entries (\<^verbatim>\<open>sysfs.c\<close>:
  \<^verbatim>\<open>create_event_sysfs_items\<close>, \<^verbatim>\<open>create_window_sysfs_items\<close>, \<^verbatim>\<open>add_fsc_to_module_sorted\<close>), their removal
  (\<^verbatim>\<open>module.c\<close>) and the writing of the table to the hardware (\<^verbatim>\<open>write_fsc_schedules_to_HW\<close>,
  \<^verbatim>\<open>write_module_schedules_to_HW\<close>, \<^verbatim>\<open>sysfs_read_schedule_status\<close>). Times in the list are absolute
  ticks; the hardware gets the distance to the next row in 16 bits, so that long distances are
  split by NOP rows.
\<close>

section \<open>The sorted command list\<close>

fun insert_before_later :: "fsc_command \<Rightarrow> fsc_command list \<Rightarrow> fsc_command list" where
  "insert_before_later c [] = []"
| "insert_before_later c (x # xs) =
     (if abs_cycle c < abs_cycle x then c # x # xs else x # insert_before_later c xs)"

definition add_fsc_to_module_sorted :: "fsc_command list \<Rightarrow> fsc_command \<Rightarrow> fsc_command list" where
  "add_fsc_to_module_sorted fscs c =
     (if fscs = [] then [c]
      else if abs_cycle (last fscs) \<le> abs_cycle c then fscs @ [c]
      else insert_before_later c fscs)"

text \<open>
  The loop removes and frees a command of the schedule entry. The macro of the loop then reads the
  link of the freed command for the next step, which is undefined: there is no result as soon as
  the list holds a command of the entry.
\<close>

fun remove_fsc_loop :: "addr \<Rightarrow> fsc_command list \<Rightarrow> fsc_command list option" where
  "remove_fsc_loop sp [] = Some []"
| "remove_fsc_loop sp (c # cs) =
     (if schedule_reference c = Some sp then None
      else do { cs' \<leftarrow> remove_fsc_loop sp cs; Some (c # cs') })"

definition remove_schedule_sysfs_items_schedule :: "addr \<Rightarrow> addr \<Rightarrow> acm_state \<Rightarrow> acm_state option" where
  "remove_schedule_sysfs_items_schedule sp mp s = do {
     m \<leftarrow> st_modules s mp;
     fscs \<leftarrow> remove_fsc_loop sp (fsc_list m);
     mod_module mp (\<lambda>m. m\<lparr>fsc_list := fscs\<rparr>) s }"

definition remove_schedule_sysfs_items_stream :: "addr \<Rightarrow> addr \<Rightarrow> acm_state \<Rightarrow> acm_state option" where
  "remove_schedule_sysfs_items_stream p mp s = do {
     st \<leftarrow> st_streams s p;
     foreach_upd (\<lambda>sp. remove_schedule_sysfs_items_schedule sp mp) (windows st) s }"

fun fsc_command_empty_list :: "fsc_command list \<Rightarrow> fsc_command list" where
  "fsc_command_empty_list [] = []"
| "fsc_command_empty_list (c # cs) = fsc_command_empty_list cs"

section \<open>Commands from schedule entries\<close>

definition div_round_closest :: "int \<Rightarrow> int \<Rightarrow> int" where
  "div_round_closest x d =
     (if (0 < x) = (0 < d) then c_div (x + c_div d 2) d else c_div (x - c_div d 2) d)"

definition div_round_up :: "int \<Rightarrow> int \<Rightarrow> int" where
  "div_round_up x d = c_div (x + d - 1) d"

text \<open>The number of items, a 32 bit quotient stored as a signed integer.\<close>

definition schedule_items :: "u32 \<Rightarrow> u32 \<Rightarrow> int" where
  "schedule_items cycle period = sint (cycle div period)"

text \<open>
  The loop over the events: an event that would have to be sent before the cycle starts is
  replaced by one at the end of the cycle (the bound is increased, which must not overflow).
\<close>

function event_loop :: "schedule_entry \<Rightarrow> addr \<Rightarrow> hw_dependent_delay \<Rightarrow> int \<Rightarrow> u32 \<Rightarrow> int \<Rightarrow> int \<Rightarrow>
    fsc_command list \<Rightarrow> acm_state \<Rightarrow> (int \<times> fsc_command list \<times> acm_state) option" where
  "event_loop w sp d tick cmd i num_items fscs s =
     (if num_items \<le> i then Some (0, fscs, s)
      else let t = send_time_ns w + word_of_int i * period_ns w;
               help = uint t - uint (chip_eg d + phy_eg d) in
        if help < 0 then
          (if INT_MAX \<le> num_items then None
           else event_loop w sp d tick cmd (i + 1) (num_items + 1) fscs s)
        else if tick = 0 then None
        else case acm_zalloc s of
            (None, s') \<Rightarrow> Some (- ENOMEM, fscs, s')
          | (Some _, s') \<Rightarrow>
              let help = uint (t - chip_eg d - phy_eg d) in
              event_loop w sp d tick cmd (i + 1) num_items
                (add_fsc_to_module_sorted fscs \<lparr>fsc_cmd = cmd,
                   abs_cycle = word_of_int (div_round_closest help tick), schedule_reference = Some sp\<rparr>) s')"
  by pat_completeness auto
termination
  by (relation "measures [\<lambda>(w, sp, d, tick, cmd, i, n, fscs, s). nat (INT_MAX - n),
      \<lambda>(w, sp, d, tick, cmd, i, n, fscs, s). nat (n - i)]") auto

declare event_loop.simps [simp del]

definition create_event_sysfs_items :: "addr \<Rightarrow> addr \<Rightarrow> int \<Rightarrow> u16 \<Rightarrow> u8 \<Rightarrow> acm_state \<Rightarrow>
    (int \<times> acm_state) option" where
  "create_event_sysfs_items sp mp tick_duration gather_index redund_index s = do {
     w \<leftarrow> st_scheds s sp;
     m \<leftarrow> st_modules s mp;
     d \<leftarrow> module_delays m (mod_speed m);
     if period_ns w = 0 then None
     else do {
       (ret, fscs, s') \<leftarrow> event_loop w sp d tick_duration
         (acmdrv_sched_tbl_cmd_create gather_index 0 redund_index TRIG_MODE_STAND_ALONE False False False False)
         0 (schedule_items (cycle_ns m) (period_ns w)) (fsc_list m) s;
       s'' \<leftarrow> mod_module mp (\<lambda>m. m\<lparr>fsc_list := fscs\<rparr>) s';
       Some (ret, s'') } }"

text \<open>A time beyond the end of the cycle is moved into the next cycle.\<close>

definition wrap_cycle :: "u32 \<Rightarrow> u32 \<Rightarrow> u32 \<Rightarrow> u32" where
  "wrap_cycle cycle tick a = (if cycle div tick \<le> a then a - cycle div tick else a)"

definition window_start :: "acm_module \<Rightarrow> hw_dependent_delay \<Rightarrow> u32 \<Rightarrow> schedule_entry \<Rightarrow> int \<Rightarrow> u32 option" where
  "window_start m d tick w i = (case conn_mode m of
     CONN_MODE_PARALLEL \<Rightarrow> Some ((time_start_ns w + word_of_int i * period_ns w + chip_in d + phy_in d) div tick)
   | CONN_MODE_SERIAL \<Rightarrow> Some ((time_start_ns w + word_of_int i * period_ns w + chip_in d + phy_in d +
       ser_switch d) div tick)
   | CONN_MODE_OTHER \<Rightarrow> None)"

definition window_end :: "hw_dependent_delay \<Rightarrow> int \<Rightarrow> schedule_entry \<Rightarrow> int \<Rightarrow> u32" where
  "window_end d tick w i = word_of_int (div_round_up
     (uint (time_end_ns w + word_of_int i * period_ns w + chip_in d + phy_in d)) tick)"

function window_loop :: "acm_module \<Rightarrow> schedule_entry \<Rightarrow> addr \<Rightarrow> hw_dependent_delay \<Rightarrow> int \<Rightarrow> u32 \<Rightarrow> u32 \<Rightarrow>
    int \<Rightarrow> int \<Rightarrow> fsc_command list \<Rightarrow> acm_state \<Rightarrow> int \<times> fsc_command list \<times> acm_state" where
  "window_loop m w sp d tick open_cmd close_cmd i num_items fscs s =
     (if num_items \<le> i then (0, fscs, s)
      else case acm_zalloc s of
          (None, s1) \<Rightarrow> (- ENOMEM, fscs, s1)
        | (Some _, s1) \<Rightarrow>
            (case window_start m d (word_of_int tick) w i of
               None \<Rightarrow> (- EACMINTERNAL, fscs, s1)
             | Some a \<Rightarrow>
                 let fscs1 = add_fsc_to_module_sorted fscs \<lparr>fsc_cmd = open_cmd,
                       abs_cycle = wrap_cycle (cycle_ns m) (word_of_int tick) a, schedule_reference = Some sp\<rparr> in
                 case acm_zalloc s1 of
                   (None, s2) \<Rightarrow> (- ENOMEM, fscs1, s2)
                 | (Some _, s2) \<Rightarrow>
                     window_loop m w sp d tick open_cmd close_cmd (i + 1) num_items
                       (add_fsc_to_module_sorted fscs1 \<lparr>fsc_cmd = close_cmd,
                          abs_cycle = wrap_cycle (cycle_ns m) (word_of_int tick) (window_end d tick w i),
                          schedule_reference = Some sp\<rparr>) s2))"
  by pat_completeness auto
termination
  by (relation "measure (\<lambda>(m, w, sp, d, tick, oc, cc, i, n, fscs, s). nat (n - i))") auto

declare window_loop.simps [simp del]

definition create_window_sysfs_items :: "addr \<Rightarrow> addr \<Rightarrow> int \<Rightarrow> u16 \<Rightarrow> u8 \<Rightarrow> bool \<Rightarrow> acm_state \<Rightarrow>
    (int \<times> acm_state) option" where
  "create_window_sysfs_items sp mp tick_duration gather_index lk_index recovery s = do {
     w \<leftarrow> st_scheds s sp;
     m \<leftarrow> st_modules s mp;
     d \<leftarrow> module_delays m (mod_speed m);
     if period_ns w = 0 \<or> tick_duration = 0 then None
     else let
       open_cmd = acmdrv_sched_tbl_cmd_create 0 lk_index 0 TRIG_MODE_NO_TRIG False True False False;
       close_cmd = (if recovery
         then acmdrv_sched_tbl_cmd_create gather_index lk_index 0 TRIG_MODE_FIRST_STAGE True False False False
         else acmdrv_sched_tbl_cmd_create 0 lk_index 0 TRIG_MODE_NO_TRIG True False False False);
       (ret, fscs, s') = window_loop m w sp d tick_duration open_cmd close_cmd
         0 (schedule_items (cycle_ns m) (period_ns w)) (fsc_list m) s in do {
       s'' \<leftarrow> mod_module mp (\<lambda>m. m\<lparr>fsc_list := fscs\<rparr>) s';
       Some (ret, s'') } }"

section \<open>Writing the schedule table\<close>

definition ACMDRV_SCHED_TBL_COUNT :: nat where [simp]: "ACMDRV_SCHED_TBL_COUNT = 2"
definition ACMDRV_SCHED_TBL_ROW_COUNT :: nat where [simp]: "ACMDRV_SCHED_TBL_ROW_COUNT = 1024"

definition NOP_CMD :: u32 where
  "NOP_CMD = acmdrv_sched_tbl_cmd_create 0 0 0 TRIG_MODE_NO_TRIG False False False False"

text \<open>The place of a row: module, table of the module, row.\<close>

definition row_offset :: "nat \<Rightarrow> nat \<Rightarrow> nat \<Rightarrow> nat" where
  "row_offset module_index table_index item_index =
     (ACMDRV_SCHED_TBL_ROW_COUNT * module_index * ACMDRV_SCHED_TBL_COUNT +
      ACMDRV_SCHED_TBL_ROW_COUNT * table_index + item_index) * 8"

definition SCHED_TAB_PATH :: string where
  "SCHED_TAB_PATH = ACMDEV_BASE @ CONFIG_GROUP @ ''/'' @ ''sched_tab_row''"

text \<open>
  \<^verbatim>\<open>pwrite\<close> to an open file: only a negative result is an error; the number of bytes is returned
  unchecked.
\<close>

definition pwrite_item :: "hw_write \<Rightarrow> acm_state \<Rightarrow> int \<times> acm_state" where
  "pwrite_item w s = (let ret = env_pwrite (st_env s) (st_hw s) w in
     if ret < 0 then (ret, s) else (ret, s\<lparr>st_hw := st_hw s @ [w]\<rparr>))"

definition row_write :: "nat \<Rightarrow> nat \<Rightarrow> nat \<Rightarrow> u32 \<times> u16 \<Rightarrow> hw_write" where
  "row_write module_index table_index i row = \<lparr>w_path = SCHED_TAB_PATH,
     w_offset = row_offset module_index table_index i, w_size = 8, w_data = D_row (fst row) (snd row)\<rparr>"

definition write_fsc_nop_command :: "nat \<Rightarrow> nat \<Rightarrow> nat \<Rightarrow> u32 \<Rightarrow> acm_state \<Rightarrow> int \<times> acm_state" where
  "write_fsc_nop_command module_index table_index i delta_cycle s =
     pwrite_item (row_write module_index table_index i (NOP_CMD, ucast delta_cycle)) s"

text \<open>
  The NOP rows in front of the first command, and the ones after a command whose distance to the
  next one is too long. The result has the next row number.
\<close>

function write_first_nops :: "nat \<Rightarrow> nat \<Rightarrow> u32 \<Rightarrow> nat \<Rightarrow> acm_state \<Rightarrow> int \<times> nat \<times> acm_state" where
  "write_first_nops module_index table_index delta_cycle i s =
     (if UINT16_T_MAX < delta_cycle
      then let (ret, s') = write_fsc_nop_command module_index table_index i NOP_DELTA_CYCLE s in
        if ret < 0 then (ret, i, s')
        else write_first_nops module_index table_index (delta_cycle - NOP_DELTA_CYCLE) (i + 1) s'
      else let (ret, s') = write_fsc_nop_command module_index table_index i delta_cycle s in (ret, i + 1, s'))"
  by pat_completeness auto
termination
  by (relation "measure (\<lambda>(mi, ti, d, i, s). unat d)") (auto simp: word_less_nat_alt unat_sub word_le_nat_alt)

function write_more_nops :: "nat \<Rightarrow> nat \<Rightarrow> u32 \<Rightarrow> nat \<Rightarrow> int \<Rightarrow> acm_state \<Rightarrow> int \<times> nat \<times> acm_state" where
  "write_more_nops module_index table_index delta_cycle i ret s =
     (if 0 < delta_cycle
      then let long = UINT16_T_MAX < delta_cycle;
               (ret, s') = write_fsc_nop_command module_index table_index i
                 (if long then NOP_DELTA_CYCLE else delta_cycle) s in
        if ret < 0 then (ret, i, s')
        else write_more_nops module_index table_index (if long then delta_cycle - NOP_DELTA_CYCLE else 0) (i + 1) ret s'
      else (ret, i, s))"
  by pat_completeness auto
termination
  by (relation "measure (\<lambda>(mi, ti, d, i, r, s). unat d)")
    (auto simp: word_less_nat_alt unat_sub word_le_nat_alt unat_gt_0)

declare write_first_nops.simps [simp del] write_more_nops.simps [simp del]

text \<open>
  The indices of the stream may have changed since the command was created: they are put into the
  command again before it is written.
\<close>

definition indexed_fsc_cmd :: "acm_state \<Rightarrow> acm_stream \<Rightarrow> u32 \<Rightarrow> (int + u32) option" where
  "indexed_fsc_cmd s st cmd =
     (let win_close = RVAL 27 27 cmd \<noteq> 0; win_open = RVAL 28 28 cmd \<noteq> 0;
          ngn_disable = RVAL 29 29 cmd \<noteq> 0; ngn_enable = RVAL 30 30 cmd \<noteq> 0;
          trigger = RVAL 26 25 cmd in
      if trigger = TRIG_MODE_NO_TRIG then
        Some (Inr (acmdrv_sched_tbl_cmd_create 0 (lookup_index st) 0 trigger
          win_close win_open ngn_disable ngn_enable))
      else if trigger = TRIG_MODE_STAND_ALONE then
        Some (Inr (acmdrv_sched_tbl_cmd_create (gather_dma_index st) 0
          (if stype st = REDUNDANT_STREAM_TX then redundand_index st else 0) trigger
          win_close win_open ngn_disable ngn_enable))
      else if trigger = TRIG_MODE_FIRST_STAGE then
        (case reference st of
           None \<Rightarrow> Some (Inl (- EACMINTERNAL))
         | Some ep \<Rightarrow> do {
             ev \<leftarrow> st_streams s ep;
             case reference ev of
               None \<Rightarrow> Some (Inl (- EACMINTERNAL))
             | Some rp \<Rightarrow> do {
                 rec_st \<leftarrow> st_streams s rp;
                 Some (Inr (acmdrv_sched_tbl_cmd_create (gather_dma_index rec_st)
                   (lookup_index st) 0 trigger win_close win_open ngn_disable ngn_enable)) } })
      else Some (Inl (- EACMINTERNAL)))"

definition update_fsc_indexes :: "acm_state \<Rightarrow> fsc_command \<Rightarrow> (int \<times> fsc_command) option" where
  "update_fsc_indexes s c = (case schedule_reference c of
     None \<Rightarrow> Some (- EACMINTERNAL, c)
   | Some sp \<Rightarrow> do {
       w \<leftarrow> st_scheds s sp;
       case schedule_list w of
         None \<Rightarrow> Some (- EACMINTERNAL, c)
       | Some p \<Rightarrow> do {
           st \<leftarrow> st_streams s p;
           res \<leftarrow> indexed_fsc_cmd s st (fsc_cmd c);
           Some (case res of Inl ret \<Rightarrow> (ret, c) | Inr cmd \<Rightarrow> (0, c\<lparr>fsc_cmd := cmd\<rparr>)) } })"

text \<open>The loop from the second command on; the command before it is written with the distance.\<close>

fun fsc_write_loop :: "nat \<Rightarrow> nat \<Rightarrow> fsc_command \<Rightarrow> fsc_command list \<Rightarrow> nat \<Rightarrow> acm_state \<Rightarrow>
    (int \<times> fsc_command list \<times> acm_state) option" where
  "fsc_write_loop mi ti previous [] i s = do {
     (ret, previous') \<leftarrow> update_fsc_indexes s previous;
     if ret < 0 then Some (ret, [previous'], s)
     else let (ret, s') = pwrite_item (row_write mi ti i (fsc_cmd previous', ucast ANZ_MIN_TICKS)) s in
       Some (ret, [previous'], s') }"
| "fsc_write_loop mi ti previous (c # cs) i s = do {
     let delta_cycle = abs_cycle c - abs_cycle previous;
         first_delta = (if UINT16_T_MAX < delta_cycle then NOP_DELTA_CYCLE else delta_cycle) in do {
     (ret, previous') \<leftarrow> update_fsc_indexes s previous;
     if ret < 0 then Some (ret, previous' # c # cs, s)
     else let (ret, s1) = pwrite_item (row_write mi ti i (fsc_cmd previous', ucast first_delta)) s in
       if ret < 0 then Some (ret, previous' # c # cs, s1)
       else let (ret, i', s2) = write_more_nops mi ti (delta_cycle - first_delta) (i + 1) ret s1 in
         if ret < 0 then Some (ret, previous' # c # cs, s2)
         else do {
           (ret, fscs, s3) \<leftarrow> fsc_write_loop mi ti c cs i' s2;
           Some (ret, previous' # fscs, s3) } } }"

definition fsc_write_list :: "nat \<Rightarrow> nat \<Rightarrow> fsc_command list \<Rightarrow> acm_state \<Rightarrow>
    (int \<times> fsc_command list \<times> acm_state) option" where
  "fsc_write_list mi ti fscs s = (case fscs of
     [] \<Rightarrow> Some (0, [], s)
   | c # cs \<Rightarrow>
       let (ret, i, s1) = (if abs_cycle c \<noteq> 0 then write_first_nops mi ti (abs_cycle c) 0 s else (0, 0, s)) in
       if ret < 0 then Some (ret, fscs, s1) else fsc_write_loop mi ti c cs i s1)"

definition write_fsc_schedules_to_HW :: "addr \<Rightarrow> nat \<Rightarrow> acm_state \<Rightarrow> (int \<times> acm_state) option" where
  "write_fsc_schedules_to_HW mp table_index s = do {
     m \<leftarrow> st_modules s mp;
     if env_open (st_env s) SCHED_TAB_PATH < 0 then Some (env_open (st_env s) SCHED_TAB_PATH, s)
     else do {
       (ret, fscs, s') \<leftarrow> fsc_write_list (module_id m) table_index (fsc_list m) s;
       s'' \<leftarrow> mod_module mp (\<lambda>m. m\<lparr>fsc_list := fscs\<rparr>) s';
       Some (ret, s'') } }"

section \<open>Cycle time, start time, free table\<close>

definition config_path :: "string \<Rightarrow> string" where
  "config_path f = ACMDEV_BASE @ CONFIG_GROUP @ ''/'' @ f"

definition write_module_schedules_to_HW :: "acm_module \<Rightarrow> nat \<Rightarrow> acm_state \<Rightarrow> int \<times> acm_state" where
  "write_module_schedules_to_HW m table_index s =
     (let k = module_id m * ACMDRV_SCHED_TBL_COUNT + table_index;
          p1 = config_path ''sched_cycle_time''; p2 = config_path ''sched_start_table'' in
      if env_open (st_env s) p1 < 0 then (env_open (st_env s) p1, s)
      else let (ret, s1) = pwrite_item \<lparr>w_path = p1, w_offset = k * 8, w_size = 8,
                 w_data = D_cycle_time (cycle_ns m)\<rparr> s in
        if ret < 0 then (ret, s1)
        else if env_open (st_env s1) p2 < 0 then (env_open (st_env s1) p2, s1)
        else pwrite_item \<lparr>w_path = p2, w_offset = k * 12, w_size = 12,
               w_data = D_start_time (tv_sec (start_time m)) (tv_nsec (start_time m))\<rparr> s1)"

definition u16_le :: "u8 list \<Rightarrow> u16" where
  "u16_le bs = (case bs of lo # hi # _ \<Rightarrow> ucast lo OR push_bit 8 (ucast hi) | _ \<Rightarrow> 0)"

text \<open>The first table that is neither in use nor waiting; a short read leaves the status undefined.\<close>

definition table_free :: "u16 \<Rightarrow> bool" where
  "table_free st = (\<not> acmdrv_sched_tbl_status_can_be_used_read st \<and> \<not> acmdrv_sched_tbl_status_in_use_read st)"

definition sysfs_read_schedule_status :: "acm_module \<Rightarrow> acm_state \<Rightarrow> (int + nat) option" where
  "sysfs_read_schedule_status m s =
     (let p = config_path ''table_status'' in
      if env_open (st_env s) p < 0 then Some (Inl (env_open (st_env s) p))
      else case env_pread (st_env s) (st_hw s) p 4 (4 * module_id m) of
          Inl e \<Rightarrow> Some (Inl e)
        | Inr bs \<Rightarrow>
            if length bs < 4 then None
            else if table_free (u16_le bs) then Some (Inr 0)
            else if table_free (u16_le (drop 2 bs)) then Some (Inr 1)
            else Some (Inl (- EACMNOFREESCHEDTAB)))"

end
