(* ===== verification/Acm_Entries.thy ===== *)
theory Acm_Entries
  imports Acm_Types
begin

text \<open>
  Lookup entries (\<^verbatim>\<open>lookup.c\<close>) and schedule entries with their list (\<^verbatim>\<open>schedule.c\<close>). A lookup entry
  is owned by one stream and held by value; schedule entries are objects of the heap, because the
  commands of the schedule table point to them.
\<close>

section \<open>Lookup entries\<close>

text \<open>
  The header arguments are arrays of 16 bytes. The bytes behind the filter pointers are \<open>None\<close> for
  NULL; \<^verbatim>\<open>memcpy\<close> must find \<open>fsize\<close> of them. The rest of the arrays is zero.
\<close>

definition filter_bytes :: "nat \<Rightarrow> u8 list option \<Rightarrow> u8 list option" where
  "filter_bytes fsize data = (case data of
     None \<Rightarrow> if fsize = 0 then Some (replicate ACM_MAX_FILTER_SIZE 0) else None
   | Some bs \<Rightarrow> if length bs < fsize then None
       else Some (take fsize bs @ replicate (ACM_MAX_FILTER_SIZE - fsize) 0))"

definition lookup_create :: "u8 list \<Rightarrow> u8 list \<Rightarrow> u8 list option \<Rightarrow> u8 list option \<Rightarrow> nat \<Rightarrow> acm_state \<Rightarrow>
    (lookup option \<times> acm_state) option" where
  "lookup_create header hmask pattern fmask fsize s =
     (if ACM_MAX_FILTER_SIZE < fsize then Some (None, s)
      else if 0 < fsize \<and> (fmask = None \<or> pattern = None) then Some (None, s)
      else case acm_zalloc s of
          (None, s') \<Rightarrow> Some (None, s')
        | (Some _, s') \<Rightarrow>
            if length header < ACM_MAX_LOOKUP_SIZE \<or> length hmask < ACM_MAX_LOOKUP_SIZE then None
            else do {
              fm \<leftarrow> filter_bytes fsize fmask;
              fp \<leftarrow> filter_bytes fsize pattern;
              Some (Some \<lparr>lk_header = take ACM_MAX_LOOKUP_SIZE header,
                header_mask = take ACM_MAX_LOOKUP_SIZE hmask, filter_mask = fm, filter_pattern = fp,
                filter_size = fsize\<rparr>, s') })"

text \<open>What every lookup entry satisfies.\<close>

definition lookup_wf :: "lookup \<Rightarrow> bool" where
  "lookup_wf lk = (length (lk_header lk) = 16 \<and> length (header_mask lk) = 16 \<and>
     length (filter_mask lk) = 112 \<and> length (filter_pattern lk) = 112 \<and> filter_size lk \<le> 112)"

lemma filter_bytes_length: "filter_bytes n d = Some bs \<Longrightarrow> n \<le> 112 \<Longrightarrow> length bs = 112"
  by (auto simp: filter_bytes_def split: option.splits if_splits)

lemma lookup_create_wf:
  assumes "lookup_create h m p fm n s = Some (Some lk, s')"
  shows "lookup_wf lk \<and> filter_size lk = n \<and> s' = s\<lparr>st_next := Suc (st_next s)\<rparr>"
  using assms filter_bytes_length [of n fm] filter_bytes_length [of n p]
  by (auto simp: lookup_create_def lookup_wf_def acm_zalloc_def bind_eq_Some_conv split: if_splits)

section \<open>Schedule entries\<close>

definition schedule_create :: "u32 \<Rightarrow> u32 \<Rightarrow> u32 \<Rightarrow> u32 \<Rightarrow> acm_state \<Rightarrow> ptr \<times> acm_state" where
  "schedule_create t_start t_end t_send period s =
     (if period = 0 then (None, s)
      else case acm_zalloc s of
          (None, s') \<Rightarrow> (None, s')
        | (Some sp, s') \<Rightarrow> (Some sp, s'\<lparr>st_scheds := (st_scheds s')(sp \<mapsto>
            \<lparr>time_start_ns = t_start, time_end_ns = t_end, send_time_ns = t_send, period_ns = period,
             schedule_list = None\<rparr>)\<rparr>))"

definition schedule_destroy :: "addr \<Rightarrow> acm_state \<Rightarrow> acm_state" where
  "schedule_destroy sp s = s\<lparr>st_scheds := (st_scheds s)(sp := None)\<rparr>"

text \<open>The list of a stream is named by the stream.\<close>

definition schedule_list_add_schedule :: "ptr \<Rightarrow> ptr \<Rightarrow> acm_state \<Rightarrow> (int \<times> acm_state) option" where
  "schedule_list_add_schedule lst sched s = (case (lst, sched) of
     (Some p, Some sp) \<Rightarrow> do {
       s1 \<leftarrow> mod_stream p (\<lambda>st. st\<lparr>windows := windows st @ [sp]\<rparr>) s;
       s2 \<leftarrow> mod_sched sp (\<lambda>w. w\<lparr>schedule_list := Some p\<rparr>) s1;
       Some (0, s2) }
   | _ \<Rightarrow> Some (- EINVAL, s))"

definition schedule_list_remove_schedule :: "addr \<Rightarrow> addr \<Rightarrow> acm_state \<Rightarrow> acm_state option" where
  "schedule_list_remove_schedule p sp s = do {
     s1 \<leftarrow> mod_stream p (\<lambda>st. st\<lparr>windows := remove1 sp (windows st)\<rparr>) s;
     s2 \<leftarrow> mod_sched sp (\<lambda>w. w\<lparr>schedule_list := None\<rparr>) s1;
     Some (schedule_destroy sp s2) }"

fun flush_schedules :: "addr list \<Rightarrow> acm_state \<Rightarrow> acm_state option" where
  "flush_schedules [] s = Some s"
| "flush_schedules (sp # sps) s = do {
     s1 \<leftarrow> mod_sched sp (\<lambda>w. w\<lparr>schedule_list := None\<rparr>) s;
     flush_schedules sps (schedule_destroy sp s1) }"

definition schedule_list_flush :: "addr \<Rightarrow> acm_state \<Rightarrow> acm_state option" where
  "schedule_list_flush p s = do {
     st \<leftarrow> st_streams s p;
     s1 \<leftarrow> flush_schedules (windows st) s;
     mod_stream p (\<lambda>st. st\<lparr>windows := []\<rparr>) s1 }"

text \<open>A new entry is at a fresh address, in no list, and has a period.\<close>

lemma schedule_create_cases:
  "schedule_create a b c d s = (None, s') \<and> s' = s\<lparr>st_next := st_next s'\<rparr> \<or>
   d \<noteq> 0 \<and> schedule_create a b c d s = (Some (st_next s), s\<lparr>st_next := Suc (st_next s),
     st_scheds := (st_scheds s)(st_next s \<mapsto> \<lparr>time_start_ns = a, time_end_ns = b, send_time_ns = c,
       period_ns = d, schedule_list = None\<rparr>)\<rparr>)"
  if "schedule_create a b c d s = (r, s')" for s'
  using that by (auto simp: schedule_create_def acm_zalloc_def split: if_splits)

text \<open>Adding an entry and removing it again leaves the list as it was.\<close>

lemma add_remove_schedule:
  assumes "schedule_create a b c d s = (Some sp, s1)" "st_streams s p = Some st" "sp \<notin> set (windows st)"
    "st_scheds s sp = None"
  shows "\<exists>s2. schedule_list_add_schedule (Some p) (Some sp) s1 = Some (0, s2) \<and>
    schedule_list_remove_schedule p sp s2 = Some (s\<lparr>st_next := Suc (st_next s), st_streams := (st_streams s)(p \<mapsto> st)\<rparr>)"
proof -
  have r: "remove1 sp (windows st @ [sp]) = windows st" using assms(3) by (simp add: remove1_append)
  have "(st_scheds s)(sp := None) = st_scheds s" using assms(4) by auto
  with assms r show ?thesis
    by (auto simp: schedule_create_def schedule_list_add_schedule_def schedule_list_remove_schedule_def
        schedule_destroy_def acm_zalloc_def heap_defs fun_upd_def [symmetric] split: if_splits)
qed

end
