(* ===== verification/Acm_Stream.thy ===== *)
theory Acm_Stream
  imports Acm_Validate Acm_Fsc Acm_Entries
begin

text \<open>
  Streams (\<^verbatim>\<open>stream.c\<close>) and the operation that adds a frame operation to a stream
  (\<^verbatim>\<open>operation_list_add_operation\<close>). The operations that change a configuration follow one pattern:
  check, change, validate the surroundings, undo the change when the validation fails. Streams
  name their module by the back link of the list (\<open>stream_list\<close>).
\<close>

section \<open>Life cycle\<close>

definition stream_config_applied :: "ptr \<Rightarrow> acm_state \<Rightarrow> bool option" where
  "stream_config_applied sp s = (case sp of
     None \<Rightarrow> Some False
   | Some p \<Rightarrow> do {
       st \<leftarrow> st_streams s p;
       case stream_list st of
         None \<Rightarrow> Some False
       | Some mp \<Rightarrow> do {
           m \<leftarrow> st_modules s mp;
           case config_reference m of
             None \<Rightarrow> Some False
           | Some cp \<Rightarrow> do { cfg \<leftarrow> st_configs s cp; Some (config_applied cfg) } } })"

definition zero_stream :: "stream_type \<Rightarrow> acm_stream" where
  "zero_stream t = \<lparr>stype = t, stream_lookup = None, operations = [], windows = [], reference = None,
     reference_parent = None, reference_redundant = None, indiv_recov_timeout_ms = 0, stream_list = None,
     gather_dma_index = 0, scatter_dma_index = 0, redundand_index = 0, lookup_index = 0\<rparr>"

definition stream_create :: "stream_type \<Rightarrow> acm_state \<Rightarrow> ptr \<times> acm_state" where
  "stream_create t s =
     (if t = MAX_STREAM_TYPE then (None, s)
      else case acm_zalloc s of
          (None, s') \<Rightarrow> (None, s')
        | (Some p, s') \<Rightarrow> (Some p, s'\<lparr>st_streams := (st_streams s')(p \<mapsto> zero_stream t)\<rparr>))"

definition stream_destroy :: "ptr \<Rightarrow> acm_state \<Rightarrow> acm_state option" where
  "stream_destroy sp s = (case sp of
     None \<Rightarrow> Some s
   | Some p \<Rightarrow> do {
       s1 \<leftarrow> mod_stream p (\<lambda>st. st\<lparr>operations := operation_list_flush (operations st)\<rparr>) s;
       s2 \<leftarrow> schedule_list_flush p s1;
       Some (s2\<lparr>st_streams := (st_streams s2)(p := None)\<rparr>) })"

text \<open>A stream with a child deletes the child first; the recursion follows the chain of children.\<close>

partial_function (option) stream_delete :: "ptr \<Rightarrow> acm_state \<Rightarrow> acm_state option" where
  "stream_delete sp s = (case sp of
     None \<Rightarrow> Some s
   | Some p \<Rightarrow> do {
       st \<leftarrow> st_streams s p;
       if stream_list st \<noteq> None then Some s
       else if (stype st = EVENT_STREAM \<or> stype st = RECOVERY_STREAM) \<and> reference_parent st \<noteq> None then Some s
       else do {
         s1 \<leftarrow> (case reference st of
            None \<Rightarrow> Some s
          | Some c \<Rightarrow> do {
              s' \<leftarrow> mod_stream c (\<lambda>x. x\<lparr>reference_parent := None\<rparr>) s;
              stream_delete (Some c) s' });
         st1 \<leftarrow> st_streams s1 p;
         s2 \<leftarrow> (case reference_redundant st1 of
            None \<Rightarrow> Some s1
          | Some q \<Rightarrow> mod_stream q (\<lambda>x. x\<lparr>stype := TIME_TRIGGERED_STREAM, reference_redundant := None\<rparr>) s1);
         stream_destroy (Some p) s2 } })"

fun stream_empty_list :: "addr list \<Rightarrow> acm_state \<Rightarrow> acm_state option" where
  "stream_empty_list [] s = Some s"
| "stream_empty_list (p # ps) s = do {
     s1 \<leftarrow> mod_stream p (\<lambda>st. st\<lparr>stream_list := None\<rparr>) s;
     s2 \<leftarrow> stream_destroy (Some p) s1;
     stream_empty_list ps s2 }"

section \<open>Adding operations\<close>

definition append_operation :: "addr \<Rightarrow> operation \<Rightarrow> acm_state \<Rightarrow> acm_state option" where
  "append_operation p op s =
     mod_stream p (\<lambda>st. st\<lparr>operations := operations st @ [op\<lparr>ownership_set := True\<rparr>]\<rparr>) s"

definition remove_operation_at :: "addr \<Rightarrow> nat \<Rightarrow> acm_state \<Rightarrow> acm_state option" where
  "remove_operation_at p i s =
     mod_stream p (\<lambda>st. st\<lparr>operations := operation_list_remove_operation (operations st) i\<rparr>) s"

definition operation_list_add_operation :: "addr \<Rightarrow> operation option \<Rightarrow> acm_state \<Rightarrow> (int \<times> acm_state) option" where
  "operation_list_add_operation p opp s = (case opp of
     None \<Rightarrow> Some (- EINVAL, s)
   | Some op \<Rightarrow>
       if ownership_set op then Some (- EPERM, s)
       else do {
         st \<leftarrow> st_streams s p;
         s1 \<leftarrow> append_operation p op s;
         (ret, s2) \<leftarrow> validate_stream False p s1;
         if ret \<noteq> 0 then do {
           s3 \<leftarrow> remove_operation_at p (length (operations st)) s2;
           Some (ret, s3) }
         else Some (0, s2) })"

text \<open>The operations a stream type admits; the result is the error code or zero.\<close>

definition operation_admissible :: "acm_stream \<Rightarrow> operation \<Rightarrow> int" where
  "operation_admissible st op = (case stype st of
     REDUNDANT_STREAM_TX \<Rightarrow> if opcode op = FORWARD \<or> opcode op = READ \<or> opcode op = FORWARD_ALL then - EINVAL else 0
   | TIME_TRIGGERED_STREAM \<Rightarrow> if opcode op = FORWARD \<or> opcode op = READ \<or> opcode op = FORWARD_ALL then - EINVAL else 0
   | RECOVERY_STREAM \<Rightarrow> if opcode op = FORWARD \<or> opcode op = READ \<or> opcode op = FORWARD_ALL then - EINVAL else 0
   | EVENT_STREAM \<Rightarrow> if opcode op = READ \<or> opcode op = FORWARD_ALL then - EINVAL else 0
   | INGRESS_TRIGGERED_STREAM \<Rightarrow>
       if opcode op \<noteq> FORWARD_ALL \<and> opcode op \<noteq> READ then - EINVAL
       else if opcode op = FORWARD_ALL \<and> reference st \<noteq> None then - EPERM
       else if opcode op = FORWARD_ALL \<and> stream_has_operation_x (operations st) (opcode op) then - EPERM
       else 0
   | REDUNDANT_STREAM_RX \<Rightarrow> if opcode op \<noteq> READ then - EINVAL else 0
   | MAX_STREAM_TYPE \<Rightarrow> - EINVAL)"

definition stream_add_operation :: "ptr \<Rightarrow> operation option \<Rightarrow> acm_state \<Rightarrow> (int \<times> acm_state) option" where
  "stream_add_operation sp opp s = (case (sp, opp) of
     (Some p, Some op) \<Rightarrow> do {
       st \<leftarrow> st_streams s p;
       if operation_admissible st op \<noteq> 0 then Some (operation_admissible st op, s)
       else operation_list_add_operation p (Some op) s }
   | _ \<Rightarrow> Some (- EINVAL, s))"

section \<open>Membership in a module\<close>

definition stream_remove_list :: "ptr \<Rightarrow> addr \<Rightarrow> acm_state \<Rightarrow> acm_state option" where
  "stream_remove_list lst p s = (case lst of
     None \<Rightarrow> Some s
   | Some mp \<Rightarrow> do {
       m \<leftarrow> st_modules s mp;
       if stream_in_list (mod_streams m) p then do {
         s1 \<leftarrow> mod_module mp (\<lambda>m. m\<lparr>mod_streams := remove1 p (mod_streams m)\<rparr>) s;
         mod_stream p (\<lambda>st. st\<lparr>stream_list := None\<rparr>) s1 }
       else Some s })"

definition stream_update_smac :: "addr \<Rightarrow> nat \<Rightarrow> acm_state \<Rightarrow> (int \<times> acm_state) option" where
  "stream_update_smac p mid s = do {
     st \<leftarrow> st_streams s p;
     (ret, ops) \<leftarrow> operation_list_update_smac (st_env s) (operations st) mid;
     s' \<leftarrow> mod_stream p (\<lambda>st. st\<lparr>operations := ops\<rparr>) s;
     Some (ret, s') }"

definition calculate_indizes_of_list :: "addr \<Rightarrow> addr \<Rightarrow> acm_state \<Rightarrow> (int \<times> acm_state) option" where
  "calculate_indizes_of_list mp p s = do {
     m \<leftarrow> st_modules s mp;
     calculate_indizes_for_HW_tables (mod_streams m) p s }"

text \<open>On an error the stream is taken out of the list again and the error returned.\<close>

definition or_remove :: "addr \<Rightarrow> addr \<Rightarrow> int \<times> acm_state \<Rightarrow> (acm_state \<Rightarrow> (int \<times> acm_state) option) \<Rightarrow>
    (int \<times> acm_state) option" where
  "or_remove mp p res k = (case res of (ret, s) \<Rightarrow>
     if ret \<noteq> 0 then do { s' \<leftarrow> stream_remove_list (Some mp) p s; Some (ret, s') } else k s)"

definition stream_add_list :: "ptr \<Rightarrow> ptr \<Rightarrow> acm_state \<Rightarrow> (int \<times> acm_state) option" where
  "stream_add_list lst sp s = (case (lst, sp) of
     (Some mp, Some p) \<Rightarrow> do {
       st \<leftarrow> st_streams s p;
       if stream_list st \<noteq> None then Some (- EPERM, s)
       else do {
         m \<leftarrow> st_modules s mp;
         s1 \<leftarrow> mod_module mp (\<lambda>m. m\<lparr>mod_streams := mod_streams m @ [p]\<rparr>) s;
         s2 \<leftarrow> mod_stream p (\<lambda>st. st\<lparr>stream_list := Some mp\<rparr>) s1;
         res \<leftarrow> stream_update_smac p (module_id m) s2;
         or_remove mp p res (\<lambda>s3. do {
           res \<leftarrow> validate_stream_list False mp s3;
           or_remove mp p res (\<lambda>s4. do {
             res \<leftarrow> calculate_indizes_of_list mp p s4;
             or_remove mp p res (\<lambda>s5. Some (0, s5)) }) }) } }
   | _ \<Rightarrow> Some (- EINVAL, s))"


section \<open>References between streams\<close>

text \<open>The checks before anything is changed: an error code or zero.\<close>

definition reference_checks :: "addr \<Rightarrow> addr \<Rightarrow> acm_state \<Rightarrow> int option" where
  "reference_checks p q s = do {
     st \<leftarrow> st_streams s p;
     rf \<leftarrow> st_streams s q;
     if reference st \<noteq> None \<or> reference_parent rf \<noteq> None \<or> reference_redundant st \<noteq> None \<or>
        reference_redundant rf \<noteq> None then Some (- EINVAL)
     else do {
       applied \<leftarrow> stream_config_applied (Some p) s;
       if applied then Some (- EPERM)
       else if stype st = INGRESS_TRIGGERED_STREAM \<and> stype rf = EVENT_STREAM \<and>
          stream_has_operation_x (operations st) FORWARD_ALL then Some (- EINVAL)
       else if stype st = INGRESS_TRIGGERED_STREAM \<and> stype rf = INGRESS_TRIGGERED_STREAM \<and>
          (stream_has_operation_x (operations st) FORWARD_ALL \<or> stream_has_operation_x (operations rf) FORWARD_ALL)
       then Some (- EINVAL)
       else if stype st = INGRESS_TRIGGERED_STREAM \<and> stype rf = INGRESS_TRIGGERED_STREAM \<and>
          get_int32_status_value ACM_SYSFS_RX_REDUNDANCY s \<noteq> RX_REDUNDANCY_SET
       then Some (- EINVAL)
       else Some 0 } }"

definition link_child :: "addr \<Rightarrow> addr \<Rightarrow> acm_state \<Rightarrow> acm_state option" where
  "link_child p q s = do {
     s1 \<leftarrow> mod_stream p (\<lambda>st. st\<lparr>reference := Some q\<rparr>) s;
     mod_stream q (\<lambda>st. st\<lparr>reference_parent := Some p\<rparr>) s1 }"

definition unlink_child :: "addr \<Rightarrow> addr \<Rightarrow> acm_state \<Rightarrow> acm_state option" where
  "unlink_child p q s = do {
     s1 \<leftarrow> mod_stream p (\<lambda>st. st\<lparr>reference := None\<rparr>) s;
     mod_stream q (\<lambda>st. st\<lparr>reference_parent := None\<rparr>) s1 }"

text \<open>Both streams get a type and a redundant partner, or lose it.\<close>

definition set_redundant :: "addr \<Rightarrow> addr \<Rightarrow> stream_type \<Rightarrow> bool \<Rightarrow> acm_state \<Rightarrow> acm_state option" where
  "set_redundant p q t linked s = do {
     s1 \<leftarrow> mod_stream p (\<lambda>st. st\<lparr>stype := t\<rparr>) s;
     s2 \<leftarrow> mod_stream q (\<lambda>st. st\<lparr>stype := t\<rparr>) s1;
     s3 \<leftarrow> mod_stream p (\<lambda>st. st\<lparr>reference_redundant := (if linked then Some q else None)\<rparr>) s2;
     mod_stream q (\<lambda>st. st\<lparr>reference_redundant := (if linked then Some p else None)\<rparr>) s3 }"

definition set_reference_links :: "addr \<Rightarrow> addr \<Rightarrow> ptr \<Rightarrow> acm_state \<Rightarrow> (int \<times> acm_state) option" where
  "set_reference_links p q streamlist s = do {
     st \<leftarrow> st_streams s p;
     rf \<leftarrow> st_streams s q;
     if (stype st = EVENT_STREAM \<and> stype rf = RECOVERY_STREAM) \<or>
        (stype st = INGRESS_TRIGGERED_STREAM \<and> stype rf = EVENT_STREAM)
     then do {
       s1 \<leftarrow> link_child p q s;
       case streamlist of
         None \<Rightarrow> Some (0, s1)
       | Some mp \<Rightarrow> do {
           (ret, s2) \<leftarrow> stream_add_list (Some mp) (Some q) s1;
           if ret \<noteq> 0 then do { s3 \<leftarrow> unlink_child p q s2; Some (ret, s3) } else Some (0, s2) } }
     else if stype st = TIME_TRIGGERED_STREAM \<and> stype rf = TIME_TRIGGERED_STREAM
     then do { s1 \<leftarrow> set_redundant p q REDUNDANT_STREAM_TX True s; Some (0, s1) }
     else if stype st = INGRESS_TRIGGERED_STREAM \<and> stype rf = INGRESS_TRIGGERED_STREAM
     then do { s1 \<leftarrow> set_redundant p q REDUNDANT_STREAM_RX True s; Some (0, s1) }
     else Some (- EINVAL, s) }"

text \<open>What a failing validation undoes.\<close>

definition undo_reference :: "addr \<Rightarrow> addr \<Rightarrow> ptr \<Rightarrow> acm_state \<Rightarrow> acm_state option" where
  "undo_reference p q streamlist s = do {
     st \<leftarrow> st_streams s p;
     rf \<leftarrow> st_streams s q;
     if stype st = INGRESS_TRIGGERED_STREAM \<or> stype st = EVENT_STREAM
     then do { s1 \<leftarrow> unlink_child p q s; stream_remove_list streamlist q s1 }
     else if stype st = REDUNDANT_STREAM_TX \<and> stype rf = REDUNDANT_STREAM_TX
     then set_redundant p q TIME_TRIGGERED_STREAM False s
     else set_redundant p q INGRESS_TRIGGERED_STREAM False s }"

definition refresh_redundant_indizes :: "addr \<Rightarrow> acm_state \<Rightarrow> acm_state option" where
  "refresh_redundant_indizes p s = do {
     st \<leftarrow> st_streams s p;
     case stream_list st of
       None \<Rightarrow> Some s
     | Some mp \<Rightarrow>
         if is_redundant st then do {
           m \<leftarrow> st_modules s mp;
           s1 \<leftarrow> calculate_redundancy_indizes (mod_streams m) s;
           if stype st = REDUNDANT_STREAM_TX then calculate_gather_indizes (mod_streams m) s1 else Some s1 }
         else Some s }"

definition stream_set_reference :: "ptr \<Rightarrow> ptr \<Rightarrow> acm_state \<Rightarrow> (int \<times> acm_state) option" where
  "stream_set_reference sp rp s = (case (sp, rp) of
     (Some p, Some q) \<Rightarrow> do {
       ret \<leftarrow> reference_checks p q s;
       if ret \<noteq> 0 then Some (ret, s)
       else do {
         st \<leftarrow> st_streams s p;
         let streamlist = stream_list st in do {
         (ret, s1) \<leftarrow> set_reference_links p q streamlist s;
         if ret \<noteq> 0 then Some (ret, s1)
         else do {
           (ret, s2) \<leftarrow> validate_stream False p s1;
           if ret \<noteq> 0 then do { s3 \<leftarrow> undo_reference p q streamlist s2; Some (- EINVAL, s3) }
           else do { s3 \<leftarrow> refresh_redundant_indizes p s2; Some (0, s3) } } } } }
   | _ \<Rightarrow> Some (- EINVAL, s))"

section \<open>Header of egress frames\<close>

definition empty_mac :: "u8 list" where "empty_mac = [0, 0, 0, 0, 0, 0]"
definition set_mac :: "u8 list" where "set_mac = [0xff, 0xff, 0xff, 0xff, 0xff, 0xff]"

definition vlan_tag_bytes :: "u16 \<Rightarrow> u8 \<Rightarrow> u8 list" where
  "vlan_tag_bytes vlan prio = (let h = push_bit 13 (ucast prio :: u16) OR (vlan AND 0x0fff) in
     [0x81, 0x00, ucast (drop_bit 8 h), ucast h])"

definition egress_dmac_op :: "stream_type \<Rightarrow> u8 list \<Rightarrow> acm_state \<Rightarrow> (operation option \<times> acm_state) option" where
  "egress_dmac_op t dmac s =
     (if dmac = set_mac \<and> t = EVENT_STREAM
      then Some (operation_create_forward OFFSET_DEST_MAC_IN_FRAME (word_of_nat ETHER_ADDR_LEN) s)
      else operation_create_insertconstant dmac (word_of_nat ETHER_ADDR_LEN) s)"

definition egress_smac_op :: "stream_type \<Rightarrow> u8 list \<Rightarrow> acm_state \<Rightarrow> (operation option \<times> acm_state) option" where
  "egress_smac_op t smac s =
     (if smac = set_mac \<and> t = EVENT_STREAM
      then Some (operation_create_forward OFFSET_SOURCE_MAC_IN_FRAME (word_of_nat ETHER_ADDR_LEN) s)
      else if smac = empty_mac
      then operation_create_insertconstant LOCAL_SMAC_CONST (word_of_nat ETHER_ADDR_LEN) s
      else operation_create_insertconstant smac (word_of_nat ETHER_ADDR_LEN) s)"

text \<open>
  The operations are removed again by their places: the first one is at place \<open>i\<close>, and once it is
  removed so is the second. The addresses are arrays of six bytes.
\<close>

definition stream_set_egress_header :: "ptr \<Rightarrow> u8 list \<Rightarrow> u8 list \<Rightarrow> u16 \<Rightarrow> u8 \<Rightarrow> acm_state \<Rightarrow>
    (int \<times> acm_state) option" where
  "stream_set_egress_header sp dmac smac vlan prio s = (case sp of
     None \<Rightarrow> Some (- EINVAL, s)
   | Some p \<Rightarrow> do {
       st \<leftarrow> st_streams s p;
       if stype st = INGRESS_TRIGGERED_STREAM \<or> stype st = REDUNDANT_STREAM_RX then Some (- EINVAL, s)
       else let i = length (operations st) in do {
         (dop, s1) \<leftarrow> egress_dmac_op (stype st) dmac s;
         (ret, s2) \<leftarrow> stream_add_operation (Some p) dop s1;
         if ret < 0 then Some (ret, s2)
         else do {
           (sop, s3) \<leftarrow> egress_smac_op (stype st) smac s2;
           (ret, s4) \<leftarrow> stream_add_operation (Some p) sop s3;
           if ret < 0 then do { s5 \<leftarrow> remove_operation_at p i s4; Some (ret, s5) }
           else if uint vlan = ACM_VLAN_ID_MAX \<and> stype st \<noteq> EVENT_STREAM then do {
             s5 \<leftarrow> remove_operation_at p i s4;
             s6 \<leftarrow> remove_operation_at p i s5;
             Some (- EINVAL, s6) }
           else do {
             (vop, s5) \<leftarrow> (if uint vlan = ACM_VLAN_ID_MAX
               then Some (operation_create_forward OFFSET_VLAN_TAG_IN_FRAME 4 s4)
               else operation_create_insertconstant (vlan_tag_bytes vlan prio) 4 s4);
             (ret, s6) \<leftarrow> stream_add_operation (Some p) vop s5;
             if ret < 0 then do {
               s7 \<leftarrow> remove_operation_at p i s6;
               s8 \<leftarrow> remove_operation_at p i s7;
               Some (ret, s8) }
             else Some (0, s6) } } } })"

definition out_of_range :: "int \<Rightarrow> int \<Rightarrow> int \<Rightarrow> bool" where
  "out_of_range val vmin vmax = (val < vmin \<or> vmax < val)"

definition stream_check_vlan_parameter :: "u16 \<Rightarrow> u8 \<Rightarrow> int" where
  "stream_check_vlan_parameter vlan_id vlan_prio =
     (if out_of_range (uint vlan_id) ACM_VLAN_ID_MIN ACM_VLAN_ID_MAX then - EINVAL
      else if out_of_range (uint vlan_prio) ACM_VLAN_PRIO_MIN ACM_VLAN_PRIO_MAX then - EINVAL
      else 0)"

definition stream_set_indiv_recov :: "ptr \<Rightarrow> u32 \<Rightarrow> acm_state \<Rightarrow> (int \<times> acm_state) option" where
  "stream_set_indiv_recov sp timeout_ms s = (case sp of
     None \<Rightarrow> Some (- EINVAL, s)
   | Some p \<Rightarrow> do {
       applied \<leftarrow> stream_config_applied (Some p) s;
       if applied then Some (- EPERM, s)
       else do {
         st \<leftarrow> st_streams s p;
         if stype st \<noteq> INGRESS_TRIGGERED_STREAM \<and> stype st \<noteq> REDUNDANT_STREAM_RX then Some (- EPERM, s)
         else do {
           s1 \<leftarrow> mod_stream p (\<lambda>st. st\<lparr>indiv_recov_timeout_ms := timeout_ms\<rparr>) s;
           Some (0, s1) } } })"

end
