(* ===== verification/Acm_Module.thy ===== *)
theory Acm_Module
  imports Acm_Stream
begin

text \<open>
  Modules (\<^verbatim>\<open>module.c\<close>) and configurations without the hardware (\<^verbatim>\<open>config.c\<close>): creating and
  destroying them, adding streams with their schedules, adding a module to a configuration.
\<close>

section \<open>Modules\<close>

definition zero_delay :: hw_dependent_delay where
  "zero_delay = \<lparr>chip_in = 0, chip_eg = 0, phy_in = 0, phy_eg = 0, ser_bypass = 0, ser_switch = 0\<rparr>"

definition module_create :: "acm_connection_mode \<Rightarrow> acm_linkspeed \<Rightarrow> nat \<Rightarrow> acm_state \<Rightarrow>
    (ptr \<times> acm_state) option" where
  "module_create mode speed mid s =
     (if ACM_MODULES_COUNT \<le> mid then Some (None, s)
      else case acm_zalloc s of
          (None, s') \<Rightarrow> Some (None, s')
        | (Some mp, s') \<Rightarrow> do {
            m \<leftarrow> module_init_delays (st_env s')
              \<lparr>mod_streams = [], conn_mode = mode, mod_speed = speed, module_id = mid, cycle_ns = 0,
               start_time = \<lparr>tv_sec = 0, tv_nsec = 0\<rparr>, config_reference = None, fsc_list = [],
               delays_100MBps = zero_delay, delays_1GBps = zero_delay, streams_locked = False\<rparr>;
            Some (Some mp, s'\<lparr>st_modules := (st_modules s')(mp \<mapsto> m)\<rparr>) })"

definition module_destroy :: "ptr \<Rightarrow> acm_state \<Rightarrow> acm_state option" where
  "module_destroy bp s = (case bp of
     None \<Rightarrow> Some s
   | Some mp \<Rightarrow> do {
       m \<leftarrow> st_modules s mp;
       s1 \<leftarrow> mod_module mp (\<lambda>m. m\<lparr>fsc_list := fsc_command_empty_list (fsc_list m)\<rparr>) s;
       s2 \<leftarrow> stream_empty_list (mod_streams m) s1;
       Some (s2\<lparr>st_modules := (st_modules s2)(mp := None)\<rparr>) })"

definition module_set_schedule :: "ptr \<Rightarrow> u32 \<Rightarrow> timespec \<Rightarrow> acm_state \<Rightarrow> (int \<times> acm_state) option" where
  "module_set_schedule bp cycle start s = (case bp of
     None \<Rightarrow> Some (- EINVAL, s)
   | Some mp \<Rightarrow>
       if cycle = 0 then Some (- EINVAL, s)
       else do {
         s1 \<leftarrow> mod_module mp (\<lambda>m. m\<lparr>cycle_ns := cycle, start_time := start\<rparr>) s;
         Some (0, s1) })"

text \<open>The gather index of the recovery stream, if the stream has one.\<close>

definition recovery_of :: "acm_stream \<Rightarrow> acm_state \<Rightarrow> (bool \<times> u16) option" where
  "recovery_of st s = (case reference st of
     None \<Rightarrow> Some (False, 0)
   | Some ep \<Rightarrow> do {
       ev \<leftarrow> st_streams s ep;
       case reference ev of
         None \<Rightarrow> Some (False, 0)
       | Some rp \<Rightarrow> do { rec_st \<leftarrow> st_streams s rp; Some (True, gather_dma_index rec_st) } })"

definition create_sysfs_items :: "acm_stream \<Rightarrow> addr \<Rightarrow> addr \<Rightarrow> int \<Rightarrow> acm_state \<Rightarrow> (int \<times> acm_state) option" where
  "create_sysfs_items st sp mp tick_duration s =
     (if stype st = TIME_TRIGGERED_STREAM \<or> stype st = REDUNDANT_STREAM_TX
      then create_event_sysfs_items sp mp tick_duration (gather_dma_index st) (redundand_index st) s
      else do {
        (recovery, g) \<leftarrow> recovery_of st s;
        create_window_sysfs_items sp mp tick_duration g (lookup_index st) recovery s })"

definition module_add_schedules :: "addr \<Rightarrow> addr \<Rightarrow> acm_state \<Rightarrow> (int \<times> acm_state) option" where
  "module_add_schedules p sp s = do {
     st \<leftarrow> st_streams s p;
     case stream_list st of
       None \<Rightarrow> Some (- EFAULT, s)
     | Some mp \<Rightarrow>
         let tick_duration = calc_tick_duration s in
         if tick_duration \<le> 0 then Some (- EINVAL, s)
         else if stype st = EVENT_STREAM \<or> stype st = RECOVERY_STREAM \<or> stype st = MAX_STREAM_TYPE
         then Some (- EPERM, s)
         else do {
           (result, s1) \<leftarrow> create_sysfs_items st sp mp tick_duration s;
           if result \<noteq> 0 then do {
             s2 \<leftarrow> remove_schedule_sysfs_items_schedule sp mp s1;
             Some (result, s2) }
           else do {
             (result, s2) \<leftarrow> validate_stream False p s1;
             if result \<noteq> 0 then do {
               s3 \<leftarrow> remove_schedule_sysfs_items_schedule sp mp s2;
               Some (result, s3) }
             else Some (0, s2) } } }"

definition module_add_stream :: "ptr \<Rightarrow> ptr \<Rightarrow> acm_state \<Rightarrow> (int \<times> acm_state) option" where
  "module_add_stream bp sp s = (case (bp, sp) of
     (Some mp, Some p) \<Rightarrow> do {
       (ret, s1) \<leftarrow> stream_add_list (Some mp) (Some p) s;
       if ret \<noteq> 0 then Some (ret, s1)
       else do {
         st \<leftarrow> st_streams s1 p;
         (ret, s2) \<leftarrow> foreach_st (module_add_schedules p) (windows st) s1;
         if ret \<noteq> 0 then do {
           s3 \<leftarrow> remove_schedule_sysfs_items_stream p mp s2;
           s4 \<leftarrow> stream_remove_list (Some mp) p s3;
           (ret_unimportant, s5) \<leftarrow> calculate_indizes_of_list mp p s4;
           Some (ret, s5) }
         else Some (0, s2) } }
   | _ \<Rightarrow> Some (- EINVAL, s))"

section \<open>Configurations\<close>

definition config_create :: "acm_state \<Rightarrow> ptr \<times> acm_state" where
  "config_create s = (case acm_zalloc s of
     (None, s') \<Rightarrow> (None, s')
   | (Some cp, s') \<Rightarrow> (Some cp, s'\<lparr>st_configs := (st_configs s')(cp \<mapsto>
       \<lparr>bypass = (\<lambda>_. None), config_applied = False, msg_buffs = []\<rparr>)\<rparr>))"

definition config_destroy :: "ptr \<Rightarrow> acm_state \<Rightarrow> acm_state option" where
  "config_destroy cpp s = (case cpp of
     None \<Rightarrow> Some s
   | Some cp \<Rightarrow> do {
       cfg \<leftarrow> st_configs s cp;
       s1 \<leftarrow> module_destroy (bypass cfg 0) s;
       s2 \<leftarrow> module_destroy (bypass cfg 1) s1;
       let (bufs, s3) = buffer_empty_list (msg_buffs cfg) s2 in
       Some (s3\<lparr>st_configs := (st_configs s3)(cp := None)\<rparr>) })"

definition config_add_checks :: "acm_config \<Rightarrow> acm_module \<Rightarrow> int" where
  "config_add_checks cfg m =
     (if config_applied cfg then - EINVAL
      else if ACM_MODULES_COUNT \<le> module_id m then - EINVAL
      else if bypass cfg (module_id m) \<noteq> None then - EINVAL
      else if config_reference m \<noteq> None then - EINVAL
      else 0)"

text \<open>
  When the validation fails the slot of the configuration is cleared, but the module keeps the
  reference to the configuration.
\<close>

definition config_add_module :: "ptr \<Rightarrow> ptr \<Rightarrow> acm_state \<Rightarrow> (int \<times> acm_state) option" where
  "config_add_module cpp bp s = (case (cpp, bp) of
     (Some cp, Some mp) \<Rightarrow> do {
       cfg \<leftarrow> st_configs s cp;
       m \<leftarrow> st_modules s mp;
       if config_add_checks cfg m \<noteq> 0 then Some (config_add_checks cfg m, s)
       else do {
         s1 \<leftarrow> mod_config cp (\<lambda>c. c\<lparr>bypass := (bypass c)(module_id m := Some mp)\<rparr>) s;
         s2 \<leftarrow> mod_module mp (\<lambda>m. m\<lparr>config_reference := Some cp\<rparr>) s1;
         (ret, s3) \<leftarrow> validate_config False cp s2;
         if ret \<noteq> 0 then do {
           s4 \<leftarrow> mod_config cp (\<lambda>c. c\<lparr>bypass := (bypass c)(module_id m := None)\<rparr>) s3;
           s5 \<leftarrow> mod_module mp (\<lambda>m. m\<lparr>config_reference := Some cp\<rparr>) s4;
           Some (ret, s5) }
         else Some (0, s3) } }
   | _ \<Rightarrow> Some (- EINVAL, s))"

end
