(* ===== verification/Acm_Apply.thy ===== *)
theory Acm_Apply
  imports Acm_Hw Acm_Module
begin

text \<open>
  Applying a configuration to the hardware (\<^verbatim>\<open>application.c\<close>, \<^verbatim>\<open>write_module_data_to_HW\<close> and
  \<^verbatim>\<open>write_module_schedule_to_HW\<close> of \<^verbatim>\<open>module.c\<close>, the second half of \<^verbatim>\<open>config.c\<close>) and the status
  functions of \<^verbatim>\<open>status.c\<close>.
\<close>

section \<open>Modules\<close>

text \<open>A module is looked up again for every table, as earlier tables may have changed it.\<close>

definition with_module :: "addr \<Rightarrow> (acm_module \<Rightarrow> acm_state \<Rightarrow> 'a option) \<Rightarrow> acm_state \<Rightarrow> 'a option" where
  "with_module mp f s = do { m \<leftarrow> st_modules s mp; f m s }"

definition write_module_data_to_HW :: "addr \<Rightarrow> acm_state \<Rightarrow> (int \<times> acm_state) option" where
  "write_module_data_to_HW mp s = do {
     res \<leftarrow> with_module mp sysfs_write_data_constant_buffer s;
     unless_neg res (\<lambda>s. do {
     res \<leftarrow> sysfs_write_lookup_tables mp s;
     unless_neg res (\<lambda>s. do {
     res \<leftarrow> with_module mp sysfs_write_scatter_dma s;
     unless_neg res (\<lambda>s. do {
     res \<leftarrow> with_module mp sysfs_write_prefetcher_gather_dma s;
     unless_neg res (\<lambda>s. do {
     res \<leftarrow> with_module mp (\<lambda>m s. Some (sysfs_write_connection_mode_to_HW m s)) s;
     unless_neg res (\<lambda>s. do {
     res \<leftarrow> with_module mp sysfs_write_redund_ctrl_table s;
     unless_neg res (\<lambda>s. do {
     res \<leftarrow> with_module mp sysfs_write_individual_recovery s;
     unless_neg res (\<lambda>s. do {
     res \<leftarrow> with_module mp (\<lambda>m s. Some (sysfs_write_cntl_speed m s)) s;
     unless_neg res (\<lambda>s. do {
     res \<leftarrow> with_module mp (\<lambda>m s. Some (sysfs_write_module_enable m True s)) s;
     unless_neg res (\<lambda>s. Some (0, s)) }) }) }) }) }) }) }) }) }"

definition write_module_schedule_to_HW :: "addr \<Rightarrow> acm_state \<Rightarrow> (int \<times> acm_state) option" where
  "write_module_schedule_to_HW mp s = do {
     m \<leftarrow> st_modules s mp;
     r \<leftarrow> sysfs_read_schedule_status m s;
     case r of
       Inl ret \<Rightarrow> Some (ret, s)
     | Inr free_table \<Rightarrow> do {
         res \<leftarrow> write_fsc_schedules_to_HW mp free_table s;
         unless_neg res (\<lambda>s. do {
         res \<leftarrow> with_module mp (\<lambda>m s. Some (write_module_schedules_to_HW m free_table s)) s;
         unless_neg res (\<lambda>s. do {
         res \<leftarrow> with_module mp (\<lambda>m s. Some (sysfs_write_emergency_disable m 0 s)) s;
         unless_neg res (\<lambda>s. Some (0, s)) }) }) } }"

section \<open>Configurations\<close>

text \<open>\<open>if (config->bypass[i] != NULL) { ret = f (config->bypass[i]); if (ret < 0) return ret; }\<close>\<close>

definition for_bypass :: "(addr \<Rightarrow> acm_state \<Rightarrow> (int \<times> acm_state) option) \<Rightarrow> ptr \<Rightarrow> acm_state \<Rightarrow>
    (int \<times> acm_state) option" where
  "for_bypass f bp s = (case bp of
     None \<Rightarrow> Some (0, s)
   | Some mp \<Rightarrow> do { res \<leftarrow> f mp s; unless_neg res (\<lambda>s. Some (0, s)) })"

definition for_modules :: "(addr \<Rightarrow> acm_state \<Rightarrow> (int \<times> acm_state) option) \<Rightarrow> acm_config \<Rightarrow> acm_state \<Rightarrow>
    (int \<times> acm_state) option" where
  "for_modules f cfg s = do {
     res \<leftarrow> for_bypass f (bypass cfg 0) s;
     unless_neg res (\<lambda>s. for_bypass f (bypass cfg 1) s) }"

definition apply_schedule :: "addr \<Rightarrow> acm_state \<Rightarrow> (int \<times> acm_state) option" where
  "apply_schedule cp s = do {
     cfg \<leftarrow> st_configs s cp;
     for_modules write_module_schedule_to_HW cfg s }"

definition apply_configuration :: "addr \<Rightarrow> u32 \<Rightarrow> acm_state \<Rightarrow> (int \<times> acm_state) option" where
  "apply_configuration cp identifier s = do {
     cfg \<leftarrow> st_configs s cp;
     unless_neg (write_clear_all_fpga s) (\<lambda>s.
     unless_neg (sysfs_write_config_status_to_HW ACMDRV_CONFIG_START_STATE s) (\<lambda>s. do {
     res \<leftarrow> sysfs_write_msg_buff_to_HW cfg BUFF_DESC s;
     unless_neg res (\<lambda>s. do {
     res \<leftarrow> sysfs_write_msg_buff_to_HW cfg BUFF_ALIAS s;
     unless_neg res (\<lambda>s. do {
     res \<leftarrow> for_modules write_module_data_to_HW cfg s;
     unless_neg res (\<lambda>s. do {
     res \<leftarrow> sysfs_write_base_recovery cfg s;
     unless_neg res (\<lambda>s.
     unless_neg (sysfs_write_configuration_id identifier s) (\<lambda>s.
     unless_neg (sysfs_write_config_status_to_HW ACMDRV_CONFIG_END_STATE s) (\<lambda>s. do {
     (ret, s) \<leftarrow> apply_schedule cp s;
     if ret \<noteq> 0 then Some (ret, s) else Some (0, s) }))) }) }) }) })) }"

definition remove_configuration :: "acm_state \<Rightarrow> int \<times> acm_state" where
  "remove_configuration s = write_clear_all_fpga s"

definition config_enable :: "ptr \<Rightarrow> u32 \<Rightarrow> acm_state \<Rightarrow> (int \<times> acm_state) option" where
  "config_enable cpp identifier s = (case cpp of
     None \<Rightarrow> Some (- EINVAL, s)
   | Some cp \<Rightarrow>
       if identifier = 0 then Some (- EINVAL, s)
       else do {
         (ret, s1) \<leftarrow> validate_config True cp s;
         if ret \<noteq> 0 then do {
           s2 \<leftarrow> mod_config cp (\<lambda>c. c\<lparr>config_applied := False\<rparr>) s1;
           Some (ret, s2) }
         else do {
           res \<leftarrow> apply_configuration cp identifier s1;
           if_zero res (\<lambda>s2.
           if_zero (sysfs_write_configuration_id identifier s2) (\<lambda>s3. do {
             s4 \<leftarrow> mod_config cp (\<lambda>c. c\<lparr>config_applied := True\<rparr>) s3;
             Some (0, s4) })) } })"

text \<open>The identifier read is compared with the expected one as an unsigned number.\<close>

definition config_schedule :: "ptr \<Rightarrow> u32 \<Rightarrow> u32 \<Rightarrow> acm_state \<Rightarrow> (int \<times> acm_state) option" where
  "config_schedule cpp identifier identifier_expected s = (case cpp of
     None \<Rightarrow> Some (- EINVAL, s)
   | Some cp \<Rightarrow>
       if identifier = 0 then Some (- EINVAL, s)
       else let ret = sysfs_read_configuration_id s in
         if ret < 0 then Some (ret, s)
         else if (word_of_int ret :: u32) \<noteq> identifier_expected then Some (- EINVAL, s)
         else do {
           (ret, s1) \<leftarrow> validate_config True cp s;
           if ret \<noteq> 0 then Some (ret, s1)
           else do {
             res \<leftarrow> apply_schedule cp s1;
             if_zero res (\<lambda>s2. Some (sysfs_write_configuration_id identifier s2)) } })"

definition config_disable :: "acm_state \<Rightarrow> int \<times> acm_state" where
  "config_disable s = remove_configuration s"

section \<open>Status\<close>

definition status_read_config_identifier :: "acm_state \<Rightarrow> int" where
  "status_read_config_identifier s = sysfs_read_configuration_id s"

text \<open>
  The value returned is the return code of the read function, which overwrites the vector that
  was read.
\<close>

definition status_read_buffer_locking_vector :: "acm_state \<Rightarrow> int" where
  "status_read_buffer_locking_vector s =
     (case sysfs_construct_path_name SYSFS_PATH_LENGTH CONTROL_GROUP ''lock_msg_bufs'' of
        Inl ret \<Rightarrow> ret
      | Inr path_name \<Rightarrow>
          (case read_buffer_sysfs_item path_name 8 0 s of Inl ret \<Rightarrow> ret | Inr _ \<Rightarrow> 0))"

text \<open>An alias as read: index, eight bytes, the name up to its NUL.\<close>

definition alias_name :: "u8 list \<Rightarrow> string" where
  "alias_name bs = map (char_of \<circ> (unat :: u8 \<Rightarrow> nat)) (takeWhile (\<lambda>b. b \<noteq> 0) (drop 9 bs))"

text \<open>The search through the aliases; a read that returns no data ends it.\<close>

fun find_alias :: "string \<Rightarrow> string \<Rightarrow> nat list \<Rightarrow> acm_state \<Rightarrow> int option" where
  "find_alias path name [] s = Some (- EACMBUFFNAME)"
| "find_alias path name (i # is) s = (case env_pread (st_env s) (st_hw s) path 64 (i * 64) of
     Inl e \<Rightarrow> Some (- EACMBUFFNAME)
   | Inr bs \<Rightarrow>
       if bs = [] then Some (- EACMBUFFNAME)
       else if length bs < 64 then None
       else if alias_name bs = name then Some (uint (hd bs))
       else find_alias path name is s)"

definition status_get_buffer_id_from_name :: "string option \<Rightarrow> acm_state \<Rightarrow> int option" where
  "status_get_buffer_id_from_name buffer s = (case buffer of
     None \<Rightarrow> Some (- EINVAL)
   | Some name \<Rightarrow>
       if name = [] then Some (- EINVAL)
       else case sysfs_construct_path_name SYSFS_PATH_LENGTH CONFIG_GROUP ''msg_buff_alias'' of
           Inl ret \<Rightarrow> Some ret
         | Inr path \<Rightarrow>
             let n = get_int32_status_value ACM_SYSFS_MSGBUF_COUNT s in
             if env_open (st_env s) path < 0 then Some (env_open (st_env s) path)
             else find_alias path name [0..<nat n] s)"

end
