(* ===== verification/Acm_Api.thy ===== *)
theory Acm_Api
  imports Acm_Apply
begin

text \<open>
  The functions of the library interface (\<^verbatim>\<open>libacmconfig.c\<close>): guards, then the functions of the
  components. The last section has the functions that forward their arguments.
\<close>

section \<open>Operations\<close>

definition refresh_indizes :: "(addr list \<Rightarrow> acm_state \<Rightarrow> acm_state option) \<Rightarrow> addr \<Rightarrow> acm_state \<Rightarrow> acm_state option" where
  "refresh_indizes calc p s = do {
     st \<leftarrow> st_streams s p;
     case stream_list st of
       None \<Rightarrow> Some s
     | Some mp \<Rightarrow> do { m \<leftarrow> st_modules s mp; calc (mod_streams m) s } }"

text \<open>
  The common part of the \<^verbatim>\<open>acm_add_stream_operation\<close> functions, after the operation was created:
  the indices are calculated when the operation was added.
\<close>

definition add_created_operation :: "(addr list \<Rightarrow> acm_state \<Rightarrow> acm_state option) \<Rightarrow> ptr \<Rightarrow>
    operation option \<Rightarrow> acm_state \<Rightarrow> (int \<times> acm_state) option" where
  "add_created_operation calc sp opp s = (case opp of
     None \<Rightarrow> Some (- ENOMEM, s)
   | Some op \<Rightarrow> do {
       (ret, s1) \<leftarrow> stream_add_operation sp (Some op) s;
       if ret \<noteq> 0 then Some (ret, s1)
       else do {
         p \<leftarrow> sp;
         s2 \<leftarrow> refresh_indizes calc p s1;
         Some (0, s2) } })"

definition unless_applied :: "ptr \<Rightarrow> (acm_state \<Rightarrow> (int \<times> acm_state) option) \<Rightarrow> acm_state \<Rightarrow> (int \<times> acm_state) option" where
  "unless_applied sp f s = do {
     applied \<leftarrow> stream_config_applied sp s;
     if applied then Some (- EPERM, s) else f s }"

definition acm_add_stream_operation_insert :: "ptr \<Rightarrow> u16 \<Rightarrow> string option \<Rightarrow> acm_state \<Rightarrow> (int \<times> acm_state) option" where
  "acm_add_stream_operation_insert sp len buffer s = unless_applied sp (\<lambda>s. do {
     (op, s1) \<leftarrow> operation_create_insert len buffer s;
     add_created_operation calculate_gather_indizes sp op s1 }) s"

definition acm_add_stream_operation_insertconstant :: "ptr \<Rightarrow> u8 list \<Rightarrow> u16 \<Rightarrow> acm_state \<Rightarrow> (int \<times> acm_state) option" where
  "acm_add_stream_operation_insertconstant sp content sz s = unless_applied sp (\<lambda>s. do {
     (op, s1) \<leftarrow> operation_create_insertconstant content sz s;
     add_created_operation calculate_gather_indizes sp op s1 }) s"

definition acm_add_stream_operation_pad :: "ptr \<Rightarrow> u16 \<Rightarrow> u8 \<Rightarrow> acm_state \<Rightarrow> (int \<times> acm_state) option" where
  "acm_add_stream_operation_pad sp len val s = unless_applied sp (\<lambda>s.
     let (op, s1) = operation_create_pad len val s in
     add_created_operation calculate_gather_indizes sp op s1) s"

definition acm_add_stream_operation_forward :: "ptr \<Rightarrow> u16 \<Rightarrow> u16 \<Rightarrow> acm_state \<Rightarrow> (int \<times> acm_state) option" where
  "acm_add_stream_operation_forward sp off len s = unless_applied sp (\<lambda>s.
     let (op, s1) = operation_create_forward off len s in
     add_created_operation calculate_gather_indizes sp op s1) s"

definition acm_add_stream_operation_read :: "ptr \<Rightarrow> u16 \<Rightarrow> u16 \<Rightarrow> string option \<Rightarrow> acm_state \<Rightarrow> (int \<times> acm_state) option" where
  "acm_add_stream_operation_read sp off len buffer s = unless_applied sp (\<lambda>s. do {
     (op, s1) \<leftarrow> operation_create_read off len buffer s;
     add_created_operation calculate_scatter_indizes sp op s1 }) s"

definition acm_add_stream_operation_forwardall :: "ptr \<Rightarrow> acm_state \<Rightarrow> (int \<times> acm_state) option" where
  "acm_add_stream_operation_forwardall sp s = unless_applied sp (\<lambda>s.
     let (op, s1) = operation_create_forwardall s in
     add_created_operation calculate_gather_indizes sp op s1) s"

definition acm_clean_operations :: "ptr \<Rightarrow> acm_state \<Rightarrow> acm_state option" where
  "acm_clean_operations sp s = (case sp of
     None \<Rightarrow> Some s
   | Some p \<Rightarrow> do {
       applied \<leftarrow> stream_config_applied (Some p) s;
       if applied then Some s
       else do {
         s1 \<leftarrow> mod_stream p (\<lambda>st. st\<lparr>operations :=
           (if has_egress_frame st then operation_list_flush_user (operations st)
            else operation_list_flush (operations st))\<rparr>) s;
         s2 \<leftarrow> refresh_indizes calculate_scatter_indizes p s1;
         refresh_indizes calculate_gather_indizes p s2 } })"

section \<open>Schedules\<close>

text \<open>Both functions end in the same way: the entry is removed again when its commands fail.\<close>

definition add_created_schedule :: "addr \<Rightarrow> ptr \<Rightarrow> acm_state \<Rightarrow> (int \<times> acm_state) option" where
  "add_created_schedule p schedule s = (case schedule of
     None \<Rightarrow> Some (- ENOMEM, s)
   | Some sp \<Rightarrow> do {
       (result, s1) \<leftarrow> schedule_list_add_schedule (Some p) (Some sp) s;
       if result \<noteq> 0 then Some (result, s1)
       else do {
         (result, s2) \<leftarrow> module_add_schedules p sp s1;
         if result \<noteq> 0 then do { s3 \<leftarrow> schedule_list_remove_schedule p sp s2; Some (result, s3) }
         else Some (0, s2) } })"

definition acm_add_stream_schedule_event :: "ptr \<Rightarrow> u32 \<Rightarrow> u32 \<Rightarrow> acm_state \<Rightarrow> (int \<times> acm_state) option" where
  "acm_add_stream_schedule_event stp period send_time s = (case stp of
     None \<Rightarrow> Some (- EINVAL, s)
   | Some p \<Rightarrow> do {
       st \<leftarrow> st_streams s p;
       if stype st \<noteq> TIME_TRIGGERED_STREAM \<and> stype st \<noteq> REDUNDANT_STREAM_TX then Some (- EPERM, s)
       else if period < send_time then Some (- EINVAL, s)
       else let (schedule, s1) = schedule_create 0 0 send_time period s in add_created_schedule p schedule s1 })"

definition acm_add_stream_schedule_window :: "ptr \<Rightarrow> u32 \<Rightarrow> u32 \<Rightarrow> u32 \<Rightarrow> acm_state \<Rightarrow> (int \<times> acm_state) option" where
  "acm_add_stream_schedule_window stp period t_start t_end s = (case stp of
     None \<Rightarrow> Some (- EINVAL, s)
   | Some p \<Rightarrow> do {
       st \<leftarrow> st_streams s p;
       if stype st \<noteq> INGRESS_TRIGGERED_STREAM \<and> stype st \<noteq> REDUNDANT_STREAM_RX then Some (- EPERM, s)
       else if period < t_start \<or> period < t_end then Some (- EINVAL, s)
       else let (schedule, s1) = schedule_create t_start t_end 0 period s in add_created_schedule p schedule s1 })"

definition acm_clean_schedule :: "ptr \<Rightarrow> acm_state \<Rightarrow> acm_state option" where
  "acm_clean_schedule stp s = (case stp of
     None \<Rightarrow> Some s
   | Some p \<Rightarrow> do {
       st \<leftarrow> st_streams s p;
       s1 \<leftarrow> (case stream_list st of
          None \<Rightarrow> Some s
        | Some mp \<Rightarrow> remove_schedule_sysfs_items_stream p mp s);
       schedule_list_flush p s1 })"

section \<open>Creating streams\<close>

definition create_egress_stream :: "stream_type \<Rightarrow> u8 list \<Rightarrow> u8 list \<Rightarrow> u16 \<Rightarrow> u8 \<Rightarrow> acm_state \<Rightarrow>
    (ptr \<times> acm_state) option" where
  "create_egress_stream t dmac smac vlan prio s =
     (if stream_check_vlan_parameter vlan prio \<noteq> 0 then Some (None, s)
      else case stream_create t s of
          (None, s1) \<Rightarrow> Some (None, s1)
        | (Some p, s1) \<Rightarrow> do {
            (result, s2) \<leftarrow> stream_set_egress_header (Some p) dmac smac vlan prio s1;
            if result \<noteq> 0 then do { s3 \<leftarrow> stream_destroy (Some p) s2; Some (None, s3) }
            else Some (Some p, s2) })"

definition acm_create_time_triggered_stream :: "u8 list \<Rightarrow> u8 list \<Rightarrow> u16 \<Rightarrow> u8 \<Rightarrow> acm_state \<Rightarrow> (ptr \<times> acm_state) option" where
  "acm_create_time_triggered_stream = create_egress_stream TIME_TRIGGERED_STREAM"

definition acm_create_event_stream :: "u8 list \<Rightarrow> u8 list \<Rightarrow> u16 \<Rightarrow> u8 \<Rightarrow> acm_state \<Rightarrow> (ptr \<times> acm_state) option" where
  "acm_create_event_stream = create_egress_stream EVENT_STREAM"

definition acm_create_recovery_stream :: "u8 list \<Rightarrow> u8 list \<Rightarrow> u16 \<Rightarrow> u8 \<Rightarrow> acm_state \<Rightarrow> (ptr \<times> acm_state) option" where
  "acm_create_recovery_stream = create_egress_stream RECOVERY_STREAM"

definition acm_create_ingress_triggered_stream :: "u8 list \<Rightarrow> u8 list \<Rightarrow> u8 list option \<Rightarrow> u8 list option \<Rightarrow> u16 \<Rightarrow>
    acm_state \<Rightarrow> (ptr \<times> acm_state) option" where
  "acm_create_ingress_triggered_stream header hmask additional_filter additional_mask sz s =
     (case stream_create INGRESS_TRIGGERED_STREAM s of
        (None, s1) \<Rightarrow> Some (None, s1)
      | (Some p, s1) \<Rightarrow> do {
          (lk, s2) \<leftarrow> lookup_create header hmask additional_filter additional_mask (unat sz) s1;
          case lk of
            None \<Rightarrow> do { s3 \<leftarrow> stream_destroy (Some p) s2; Some (None, s3) }
          | Some l \<Rightarrow> do {
              s3 \<leftarrow> mod_stream p (\<lambda>st. st\<lparr>stream_lookup := Some l\<rparr>) s2;
              Some (Some p, s3) } })"

section \<open>Modules\<close>

definition acm_destroy_module :: "ptr \<Rightarrow> acm_state \<Rightarrow> acm_state option" where
  "acm_destroy_module bp s = (case bp of
     None \<Rightarrow> Some s
   | Some mp \<Rightarrow> do {
       m \<leftarrow> st_modules s mp;
       if config_reference m \<noteq> None then Some s else module_destroy (Some mp) s })"

definition module_config_applied :: "acm_module \<Rightarrow> acm_state \<Rightarrow> bool option" where
  "module_config_applied m s = (case config_reference m of
     None \<Rightarrow> Some False
   | Some cp \<Rightarrow> do { cfg \<leftarrow> st_configs s cp; Some (config_applied cfg) })"

text \<open>The children of an ingress triggered stream are added behind it.\<close>

definition acm_add_module_stream :: "ptr \<Rightarrow> ptr \<Rightarrow> acm_state \<Rightarrow> (int \<times> acm_state) option" where
  "acm_add_module_stream bp sp s = (case (bp, sp) of
     (Some mp, Some p) \<Rightarrow> do {
       m \<leftarrow> st_modules s mp;
       applied \<leftarrow> module_config_applied m s;
       if applied then Some (- EPERM, s)
       else do {
         st \<leftarrow> st_streams s p;
         if stype st \<noteq> INGRESS_TRIGGERED_STREAM \<and> stype st \<noteq> TIME_TRIGGERED_STREAM then Some (- EINVAL, s)
         else do {
           res \<leftarrow> module_add_stream (Some mp) (Some p) s;
           if_zero res (\<lambda>s1. do {
             st1 \<leftarrow> st_streams s1 p;
             case reference st1 of
               None \<Rightarrow> Some (0, s1)
             | Some ep \<Rightarrow>
                 if stype st1 \<noteq> INGRESS_TRIGGERED_STREAM then Some (0, s1)
                 else do {
                   res \<leftarrow> module_add_stream (Some mp) (Some ep) s1;
                   if_zero res (\<lambda>s2. do {
                     ev \<leftarrow> st_streams s2 ep;
                     case reference ev of
                       None \<Rightarrow> Some (0, s2)
                     | Some rp \<Rightarrow> do {
                         res \<leftarrow> module_add_stream (Some mp) (Some rp) s2;
                         if_zero res (\<lambda>s3. Some (0, s3)) } }) } }) } } }
   | _ \<Rightarrow> Some (- EINVAL, s))"

section \<open>Forwarding functions\<close>

definition acm_destroy_stream :: "ptr \<Rightarrow> acm_state \<Rightarrow> acm_state option" where
  "acm_destroy_stream stp s = stream_delete stp s"

definition acm_set_reference_stream :: "ptr \<Rightarrow> ptr \<Rightarrow> acm_state \<Rightarrow> (int \<times> acm_state) option" where
  "acm_set_reference_stream stp rp s = stream_set_reference stp rp s"

definition acm_set_rtag_stream :: "ptr \<Rightarrow> u32 \<Rightarrow> acm_state \<Rightarrow> (int \<times> acm_state) option" where
  "acm_set_rtag_stream stp timeout_ms s = stream_set_indiv_recov stp timeout_ms s"

definition acm_create_module :: "acm_connection_mode \<Rightarrow> acm_linkspeed \<Rightarrow> nat \<Rightarrow> acm_state \<Rightarrow>
    (ptr \<times> acm_state) option" where
  "acm_create_module mode speed mid s = module_create mode speed mid s"

definition acm_set_module_schedule :: "ptr \<Rightarrow> u32 \<Rightarrow> timespec \<Rightarrow> acm_state \<Rightarrow> (int \<times> acm_state) option" where
  "acm_set_module_schedule bp cycle start s = module_set_schedule bp cycle start s"

definition acm_create :: "acm_state \<Rightarrow> ptr \<times> acm_state" where
  "acm_create s = config_create s"

definition acm_destroy :: "ptr \<Rightarrow> acm_state \<Rightarrow> acm_state option" where
  "acm_destroy cpp s = config_destroy cpp s"

definition acm_add_module :: "ptr \<Rightarrow> ptr \<Rightarrow> acm_state \<Rightarrow> (int \<times> acm_state) option" where
  "acm_add_module cpp bp s = config_add_module cpp bp s"

definition acm_validate_stream :: "addr \<Rightarrow> acm_state \<Rightarrow> (int \<times> acm_state) option" where
  "acm_validate_stream p s = validate_stream True p s"

definition acm_validate_module :: "addr \<Rightarrow> acm_state \<Rightarrow> (int \<times> acm_state) option" where
  "acm_validate_module mp s = validate_module True mp s"

definition acm_validate_config :: "addr \<Rightarrow> acm_state \<Rightarrow> (int \<times> acm_state) option" where
  "acm_validate_config cp s = validate_config True cp s"

definition acm_apply_config :: "ptr \<Rightarrow> u32 \<Rightarrow> acm_state \<Rightarrow> (int \<times> acm_state) option" where
  "acm_apply_config cpp identifier s = config_enable cpp identifier s"

definition acm_apply_schedule :: "ptr \<Rightarrow> u32 \<Rightarrow> u32 \<Rightarrow> acm_state \<Rightarrow> (int \<times> acm_state) option" where
  "acm_apply_schedule cpp identifier identifier_expected s = config_schedule cpp identifier identifier_expected s"

definition acm_disable_config :: "acm_state \<Rightarrow> int \<times> acm_state" where
  "acm_disable_config s = config_disable s"

definition acm_set_buffer_locking_mask :: "u64 \<Rightarrow> acm_state \<Rightarrow> (int \<times> acm_state) option" where
  "acm_set_buffer_locking_mask locking_vector s = sysfs_write_buffer_control_mask locking_vector ''lock_msg_bufs'' s"

definition acm_set_buffer_unlocking_mask :: "u64 \<Rightarrow> acm_state \<Rightarrow> (int \<times> acm_state) option" where
  "acm_set_buffer_unlocking_mask unlocking_vector s =
     sysfs_write_buffer_control_mask unlocking_vector ''unlock_msg_bufs'' s"

definition acm_read_config_identifier :: "acm_state \<Rightarrow> int" where
  "acm_read_config_identifier s = status_read_config_identifier s"

definition acm_read_capability_item :: "acm_capability_item \<Rightarrow> acm_state \<Rightarrow> int" where
  "acm_read_capability_item item_id s = status_read_capability_item item_id s"

definition acm_get_buffer_id :: "string option \<Rightarrow> acm_state \<Rightarrow> int option" where
  "acm_get_buffer_id buffer s = status_get_buffer_id_from_name buffer s"

definition acm_read_buffer_locking_vector :: "acm_state \<Rightarrow> int" where
  "acm_read_buffer_locking_vector s = status_read_buffer_locking_vector s"

end
