(* ===== verification/Acm_Fsc_Spec.thy ===== *)
theory Acm_Fsc_Spec
  imports Acm_Fsc Acm_Validate "HOL-Library.Multiset"
begin

text \<open>
  What the schedule list promises. The list is kept sorted, insertion is stable and loses
  nothing. The rows written to the hardware, executed one after the other with their distances,
  perform every command at its absolute time (\<open>hw_exec\<close>), every distance fits the 16 bit field and
  respects the minimum, and a validated list fits into the table.
\<close>

section \<open>Sorted insertion\<close>

definition sorted_fscs :: "fsc_command list \<Rightarrow> bool" where
  "sorted_fscs fscs = sorted (map abs_cycle fscs)"

lemma sorted_fscs_simps [simp]:
  "sorted_fscs []" "sorted_fscs (c # cs) \<longleftrightarrow> (\<forall>x\<in>set cs. abs_cycle c \<le> abs_cycle x) \<and> sorted_fscs cs"
  by (auto simp: sorted_fscs_def)

lemma sorted_fscs_append:
  "sorted_fscs (xs @ ys) \<longleftrightarrow> sorted_fscs xs \<and> sorted_fscs ys \<and> (\<forall>x\<in>set xs. \<forall>y\<in>set ys. abs_cycle x \<le> abs_cycle y)"
  by (auto simp: sorted_fscs_def sorted_append)

abbreviation not_later :: "fsc_command \<Rightarrow> fsc_command \<Rightarrow> bool" where
  "not_later c \<equiv> (\<lambda>x. abs_cycle x \<le> abs_cycle c)"

lemma insert_before_later_split:
  "\<exists>x\<in>set fscs. abs_cycle c < abs_cycle x \<Longrightarrow>
   insert_before_later c fscs = takeWhile (not_later c) fscs @ c # dropWhile (not_later c) fscs"
  by (induction fscs) (auto simp: not_le not_less)

text \<open>The insertion as a function of the list: behind all commands that are not later.\<close>

lemma add_fsc_split:
  assumes "sorted_fscs fscs"
  shows "add_fsc_to_module_sorted fscs c = takeWhile (not_later c) fscs @ c # dropWhile (not_later c) fscs"
proof (cases "fscs = [] \<or> abs_cycle (last fscs) \<le> abs_cycle c")
  case True
  have "\<forall>x\<in>set fscs. abs_cycle x \<le> abs_cycle c"
  proof (cases fscs rule: rev_cases)
    case (snoc ys y)
    with assms True show ?thesis by (auto simp: sorted_fscs_append)
  qed simp
  then have tw: "takeWhile (not_later c) fscs = fscs" "dropWhile (not_later c) fscs = []"
    by (simp_all add: takeWhile_eq_all_conv)
  show ?thesis using True unfolding tw by (auto simp: add_fsc_to_module_sorted_def)
next
  case False
  then have "\<exists>x\<in>set fscs. abs_cycle c < abs_cycle x" by (intro bexI [of _ "last fscs"]) auto
  with False show ?thesis
    by (simp add: add_fsc_to_module_sorted_def insert_before_later_split)
qed

lemma takeWhile_not_later: "x \<in> set (takeWhile (not_later c) fscs) \<Longrightarrow> abs_cycle x \<le> abs_cycle c"
  by (auto dest: set_takeWhileD)

lemma dropWhile_later:
  "sorted_fscs fscs \<Longrightarrow> x \<in> set (dropWhile (not_later c) fscs) \<Longrightarrow> abs_cycle c < abs_cycle x"
  by (induction fscs) (auto simp: not_le split: if_splits)

lemma add_fsc_sorted:
  assumes "sorted_fscs fscs"
  shows "sorted_fscs (add_fsc_to_module_sorted fscs c)"
proof -
  have "sorted_fscs (takeWhile (not_later c) fscs @ dropWhile (not_later c) fscs)" using assms by simp
  then have "sorted_fscs (takeWhile (not_later c) fscs)" "sorted_fscs (dropWhile (not_later c) fscs)"
    by (simp_all only: sorted_fscs_append)
  moreover have "abs_cycle x \<le> abs_cycle y"
    if "x \<in> set (takeWhile (not_later c) fscs)" "y \<in> set (dropWhile (not_later c) fscs)" for x y
    using takeWhile_not_later [OF that(1)] dropWhile_later [OF assms that(2)] by order
  ultimately show ?thesis
    unfolding add_fsc_split [OF assms] sorted_fscs_append
    by (auto dest: takeWhile_not_later dropWhile_later [OF assms] intro: less_imp_le)
qed

lemma insert_before_later_mset:
  "\<exists>x\<in>set fscs. abs_cycle c < abs_cycle x \<Longrightarrow> mset (insert_before_later c fscs) = add_mset c (mset fscs)"
  by (induction fscs) auto

text \<open>No command is lost or doubled, whether the list is sorted or not.\<close>

lemma add_fsc_mset: "mset (add_fsc_to_module_sorted fscs c) = add_mset c (mset fscs)"
proof (cases "fscs = [] \<or> abs_cycle (last fscs) \<le> abs_cycle c")
  case True
  then show ?thesis by (auto simp: add_fsc_to_module_sorted_def)
next
  case False
  then have "\<exists>x\<in>set fscs. abs_cycle c < abs_cycle x" by (intro bexI [of _ "last fscs"]) auto
  with False show ?thesis by (simp add: add_fsc_to_module_sorted_def insert_before_later_mset)
qed

lemma add_fsc_length: "length (add_fsc_to_module_sorted fscs c) = Suc (length fscs)"
  using arg_cong [OF add_fsc_mset, of size fscs c] by simp

lemma add_fsc_set: "set (add_fsc_to_module_sorted fscs c) = insert c (set fscs)"
  using arg_cong [OF add_fsc_mset, of set_mset fscs c] by simp

text \<open>Commands of the same time stay in the order in which they were added.\<close>

lemma add_fsc_stable:
  assumes "sorted_fscs fscs"
  shows "filter (\<lambda>x. abs_cycle x = a) (add_fsc_to_module_sorted fscs c) =
    filter (\<lambda>x. abs_cycle x = a) fscs @ (if abs_cycle c = a then [c] else [])"
proof -
  let ?t = "takeWhile (not_later c) fscs" and ?d = "dropWhile (not_later c) fscs"
  have "filter (\<lambda>x. abs_cycle x = a) fscs = filter (\<lambda>x. abs_cycle x = a) (?t @ ?d)" by simp
  moreover have "filter (\<lambda>x. abs_cycle x = a) ?d = []" if "abs_cycle c = a"
    using that by (auto simp: filter_empty_conv dest: dropWhile_later [OF assms])
  ultimately show ?thesis unfolding add_fsc_split [OF assms] filter_append by auto
qed

lemma add_fsc_filter:
  assumes "\<not> P c"
  shows "filter P (add_fsc_to_module_sorted fscs c) = filter P fscs"
proof -
  have "filter P (insert_before_later c fscs) = filter P fscs" by (induction fscs) (auto simp: assms)
  then show ?thesis by (simp add: add_fsc_to_module_sorted_def assms)
qed

section \<open>Removal and creation\<close>

text \<open>The commands of the other schedule entries.\<close>

definition others_of :: "addr \<Rightarrow> fsc_command list \<Rightarrow> fsc_command list" where
  "others_of sp fscs = filter (\<lambda>c. schedule_reference c \<noteq> Some sp) fscs"

lemma remove_fsc_loop_eq:
  "remove_fsc_loop sp fscs = (if \<exists>c\<in>set fscs. schedule_reference c = Some sp then None else Some fscs)"
  by (induction fscs) auto

text \<open>
  The removal of the commands of an entry is defined only when there is nothing to remove, and
  then it leaves everything as it was.
\<close>

lemma remove_schedule_defined:
  "remove_schedule_sysfs_items_schedule sp mp s = Some s' \<longleftrightarrow>
     (\<exists>m. st_modules s mp = Some m \<and> (\<forall>c\<in>set (fsc_list m). schedule_reference c \<noteq> Some sp)) \<and> s' = s"
  by (auto simp: remove_schedule_sysfs_items_schedule_def remove_fsc_loop_eq mod_module_Some_iff bind_eq_Some_conv
      fun_upd_idem split: if_splits)

lemma remove_stream_defined: "remove_schedule_sysfs_items_stream p mp s = Some s' \<Longrightarrow> s' = s"
proof -
  have "foreach_upd (\<lambda>sp. remove_schedule_sysfs_items_schedule sp mp) sps a = Some b \<Longrightarrow> b = a" for sps a b
    by (induction sps arbitrary: a) (auto simp: bind_eq_Some_conv remove_schedule_defined)
  then show "remove_schedule_sysfs_items_stream p mp s = Some s' \<Longrightarrow> s' = s"
    by (auto simp: remove_schedule_sysfs_items_stream_def bind_eq_Some_conv)
qed

lemma fsc_command_empty: "fsc_command_empty_list fscs = []"
  by (induction fscs) auto

definition of_schedule :: "addr \<Rightarrow> fsc_command list \<Rightarrow> nat" where
  "of_schedule sp fscs = length (filter (\<lambda>c. schedule_reference c = Some sp) fscs)"

text \<open>
  The event loop keeps the list sorted and the commands of other schedule entries, and a
  successful run adds exactly the number of items it was started for.
\<close>

lemma event_loop_props:
  "event_loop w sp d tick cmd i n fscs s = Some (ret, fscs', s') \<Longrightarrow>
   (sorted_fscs fscs \<longrightarrow> sorted_fscs fscs') \<and>
   others_of sp fscs' = others_of sp fscs \<and>
   (ret = 0 \<longrightarrow> length fscs' = length fscs + nat (n - i)) \<and> (ret = 0 \<or> ret = - ENOMEM) \<and>
   (\<exists>m. s' = s\<lparr>st_next := m\<rparr> \<and> st_next s \<le> m)"
proof (induction w sp d tick cmd i n fscs s rule: event_loop.induct)
  case (1 w sp d tick cmd i n fscs s)
  show ?case
  proof (cases "n \<le> i")
    case True
    then show ?thesis using "1.prems" by (subst (asm) event_loop.simps) (auto intro: exI [of _ "st_next s"])
  next
    case False
    define t where "t = send_time_ns w + word_of_int i * period_ns w"
    define hlp where "hlp = uint t - uint (chip_eg d + phy_eg d)"
    show ?thesis
    proof (cases "hlp < 0")
      case True
      with False "1.prems" have "event_loop w sp d tick cmd (i + 1) (n + 1) fscs s = Some (ret, fscs', s')"
        and "\<not> INT_MAX \<le> n"
        by (subst (asm) event_loop.simps, simp add: Let_def t_def hlp_def split: if_splits)+
      with "1.IH"(1) [OF False t_def hlp_def True] show ?thesis by simp
    next
      case nonneg: False
      show ?thesis
      proof (cases "acm_zalloc s")
        case (Pair p s1)
        have s1: "s1 = s\<lparr>st_next := Suc (st_next s)\<rparr>" using Pair by (simp add: acm_zalloc_def)
        have tick: "tick \<noteq> 0"
          using False nonneg "1.prems" by (subst (asm) event_loop.simps, auto simp: Let_def t_def hlp_def split: if_splits)
        show ?thesis
        proof (cases p)
          case None
          then have "ret = - ENOMEM" "fscs' = fscs" "s' = s1"
            using False nonneg tick Pair "1.prems"
            by (subst (asm) event_loop.simps, simp add: Let_def t_def hlp_def)+
          then show ?thesis using s1 by (auto intro: exI [of _ "Suc (st_next s)"])
        next
          case (Some a)
          define c where "c = \<lparr>fsc_cmd = cmd, abs_cycle = word_of_int (div_round_closest
            (uint (t - chip_eg d - phy_eg d)) tick), schedule_reference = Some sp\<rparr>"
          have rec: "event_loop w sp d tick cmd (i + 1) n (add_fsc_to_module_sorted fscs c) s1 = Some (ret, fscs', s')"
            using False nonneg tick Pair Some "1.prems"
            by (subst (asm) event_loop.simps, simp add: Let_def t_def hlp_def c_def)
          note ih = "1.IH"(2) [OF False t_def hlp_def nonneg tick Pair [symmetric] Some refl, folded c_def, OF rec]
          have "others_of sp (add_fsc_to_module_sorted fscs c) = others_of sp fscs"
            by (simp add: others_of_def add_fsc_filter c_def)
          then show ?thesis using ih False add_fsc_sorted [of fscs c]
            by (auto simp: add_fsc_length s1 nat_diff_distrib)
        qed
      qed
    qed
  qed
qed

text \<open>The window loop adds two commands for each item.\<close>

lemma window_loop_props:
  "window_loop m w sp d tick oc cc i n fscs s = (ret, fscs', s') \<Longrightarrow>
   (sorted_fscs fscs \<longrightarrow> sorted_fscs fscs') \<and>
   others_of sp fscs' = others_of sp fscs \<and>
   (ret = 0 \<longrightarrow> length fscs' = length fscs + 2 * nat (n - i)) \<and> (ret = 0 \<or> ret = - ENOMEM \<or> ret = - EACMINTERNAL) \<and>
   (\<exists>k. s' = s\<lparr>st_next := k\<rparr> \<and> st_next s \<le> k)"
proof (induction m w sp d tick oc cc i n fscs s rule: window_loop.induct)
  case (1 m w sp d tick oc cc i n fscs s)
  have step: "others_of sp (add_fsc_to_module_sorted xs c) = others_of sp xs"
    if "schedule_reference c = Some sp" for xs c
    using that by (simp add: others_of_def add_fsc_filter)
  show ?case
  proof (cases "n \<le> i")
    case True
    then show ?thesis using "1.prems" by (subst (asm) window_loop.simps) (auto intro: exI [of _ "st_next s"])
  next
    case False
    obtain p s1 where z1: "acm_zalloc s = (p, s1)" by (cases "acm_zalloc s")
    obtain q s2 where z2: "acm_zalloc s1 = (q, s2)" by (cases "acm_zalloc s1")
    have s1: "s1 = s\<lparr>st_next := Suc (st_next s)\<rparr>" using z1 by (simp add: acm_zalloc_def)
    have s2: "s2 = s\<lparr>st_next := Suc (Suc (st_next s))\<rparr>" using z2 s1 by (simp add: acm_zalloc_def)
    show ?thesis
    proof (cases "p = None \<or> window_start m d (word_of_int tick) w i = None")
      case True
      then have "(ret = - ENOMEM \<or> ret = - EACMINTERNAL) \<and> fscs' = fscs \<and> s' = s1"
        using False z1 "1.prems" by (subst (asm) window_loop.simps) (auto split: option.splits)
      then show ?thesis using s1 by (auto intro: exI [of _ "Suc (st_next s)"])
    next
      case go: False
      then obtain b a where a: "p = Some b" "window_start m d (word_of_int tick) w i = Some a" by auto
      define c1 where "c1 = \<lparr>fsc_cmd = oc, abs_cycle = wrap_cycle (cycle_ns m) (word_of_int tick) a,
        schedule_reference = Some sp\<rparr>"
      define c2 where "c2 = \<lparr>fsc_cmd = cc, abs_cycle = wrap_cycle (cycle_ns m) (word_of_int tick)
        (window_end d tick w i), schedule_reference = Some sp\<rparr>"
      define xs where "xs = add_fsc_to_module_sorted fscs c1"
      show ?thesis
      proof (cases q)
        case None
        then have "ret = - ENOMEM" "fscs' = xs" "s' = s2"
          using False z1 z2 a "1.prems" by (subst (asm) window_loop.simps, simp add: Let_def c1_def xs_def)+
        then show ?thesis using s2 step [of c1 fscs] add_fsc_sorted [of fscs c1]
          by (auto simp: xs_def c1_def intro: exI [of _ "Suc (Suc (st_next s))"])
      next
        case (Some b2)
        have rec: "window_loop m w sp d tick oc cc (i + 1) n (add_fsc_to_module_sorted xs c2) s2 = (ret, fscs', s')"
          using False z1 z2 a Some "1.prems" by (subst (asm) window_loop.simps, simp add: Let_def c1_def c2_def xs_def)
        note ih = "1.IH" [OF False z1 [symmetric] a(1) a(2) xs_def [unfolded c1_def] z2 [symmetric] Some,
            folded c2_def, OF rec]
        have "others_of sp (add_fsc_to_module_sorted xs c2) = others_of sp fscs"
          by (simp add: xs_def step c1_def c2_def)
        moreover have "length (add_fsc_to_module_sorted xs c2) = length fscs + 2"
          by (simp add: add_fsc_length xs_def)
        moreover have "sorted_fscs fscs \<longrightarrow> sorted_fscs (add_fsc_to_module_sorted xs c2)"
          by (simp add: xs_def add_fsc_sorted)
        ultimately show ?thesis using ih False by (auto simp: s2)
      qed
    qed
  qed
qed

section \<open>The rows of the table\<close>

text \<open>A distance as the rows hold it: pieces of 60000 ticks and the rest.\<close>

function nop_deltas :: "u32 \<Rightarrow> u16 list" where
  "nop_deltas d = (if UINT16_T_MAX < d then 60000 # nop_deltas (d - NOP_DELTA_CYCLE) else [ucast d])"
  by pat_completeness auto
termination by (relation "measure unat") (auto simp: word_less_nat_alt unat_sub word_le_nat_alt)

declare nop_deltas.simps [simp del]

definition delta_rows :: "u32 \<Rightarrow> u32 \<Rightarrow> (u32 \<times> u16) list" where
  "delta_rows cmd d = (case nop_deltas d of [] \<Rightarrow> [] | x # xs \<Rightarrow> (cmd, x) # map (Pair NOP_CMD) xs)"

fun rows_from :: "fsc_command \<Rightarrow> fsc_command list \<Rightarrow> (u32 \<times> u16) list" where
  "rows_from c [] = [(fsc_cmd c, 8)]"
| "rows_from c (c' # cs) = delta_rows (fsc_cmd c) (abs_cycle c' - abs_cycle c) @ rows_from c' cs"

definition fsc_rows :: "fsc_command list \<Rightarrow> (u32 \<times> u16) list" where
  "fsc_rows fscs = (case fscs of [] \<Rightarrow> []
   | c # cs \<Rightarrow> (if abs_cycle c \<noteq> 0 then map (Pair NOP_CMD) (nop_deltas (abs_cycle c)) else []) @ rows_from c cs)"

definition rows_at :: "nat \<Rightarrow> nat \<Rightarrow> nat \<Rightarrow> (u32 \<times> u16) list \<Rightarrow> hw_write list" where
  "rows_at mi ti i rows = map (\<lambda>(k, row). row_write mi ti k row) (enumerate i rows)"

lemma rows_at_simps [simp]:
  "rows_at mi ti i [] = []" "rows_at mi ti i (r # rows) = row_write mi ti i r # rows_at mi ti (Suc i) rows"
  "rows_at mi ti i (xs @ ys) = rows_at mi ti i xs @ rows_at mi ti (i + length xs) ys"
  by (simp_all add: rows_at_def enumerate_append_eq)

lemma pwrite_item_logged: "pwrite_item w s = (ret, s') \<Longrightarrow> 0 \<le> ret \<Longrightarrow> s' = logged s [w]"
  by (auto simp: pwrite_item_def logged_def Let_def split: if_splits)

lemma first_nops_logged:
  "write_first_nops mi ti d i s = (ret, i', s') \<Longrightarrow> 0 \<le> ret \<Longrightarrow>
   s' = logged s (rows_at mi ti i (map (Pair NOP_CMD) (nop_deltas d))) \<and> i' = i + length (nop_deltas d)"
proof (induction mi ti d i s rule: write_first_nops.induct)
  case (1 mi ti d i s)
  obtain r s1 where r: "write_fsc_nop_command mi ti i
      (if UINT16_T_MAX < d then NOP_DELTA_CYCLE else d) s = (r, s1)" by fastforce
  show ?case
  proof (cases "UINT16_T_MAX < d")
    case True
    with r "1.prems" have "\<not> r < 0" and rec: "write_first_nops mi ti (d - NOP_DELTA_CYCLE) (i + 1) s1 = (ret, i', s')"
      by (subst (asm) write_first_nops.simps, auto split: if_splits)+
    moreover have "s1 = logged s [row_write mi ti i (NOP_CMD, 60000)]"
      using r True \<open>\<not> r < 0\<close> pwrite_item_logged by (auto simp: write_fsc_nop_command_def)
    ultimately show ?thesis
      using "1.IH" [OF True, of "(r, s1)" r s1] r True "1.prems"(2)
      by (subst nop_deltas.simps, subst nop_deltas.simps) auto
  next
    case False
    with r "1.prems" have "ret = r" "i' = i + 1" "s' = s1"
      by (subst (asm) write_first_nops.simps, auto)+
    moreover have "s1 = logged s [row_write mi ti i (NOP_CMD, ucast d)]"
      using r False calculation(1) "1.prems"(2) pwrite_item_logged by (auto simp: write_fsc_nop_command_def)
    ultimately show ?thesis using False by (subst nop_deltas.simps, subst nop_deltas.simps) auto
  qed
qed

lemma more_nops_logged:
  "write_more_nops mi ti d i ret0 s = (ret, i', s') \<Longrightarrow> 0 \<le> ret \<Longrightarrow>
   s' = logged s (rows_at mi ti i (if d = 0 then [] else map (Pair NOP_CMD) (nop_deltas d))) \<and>
   i' = i + (if d = 0 then 0 else length (nop_deltas d))"
proof (induction mi ti d i ret0 s rule: write_more_nops.induct)
  case (1 mi ti d i ret0 s)
  show ?case
  proof (cases "d = 0")
    case True
    then show ?thesis using "1.prems" by (subst (asm) write_more_nops.simps) auto
  next
    case False
    then have pos: "0 < d" by (simp add: word_neq_0_conv)
    define big where "big = (UINT16_T_MAX < d)"
    define rest where "rest = (if big then d - NOP_DELTA_CYCLE else 0)"
    obtain r s1 where r: "write_fsc_nop_command mi ti i (if big then NOP_DELTA_CYCLE else d) s = (r, s1)"
      by fastforce
    have "\<not> r < 0" and rec: "write_more_nops mi ti rest (i + 1) r s1 = (ret, i', s')"
      using "1.prems" pos r
      by (subst (asm) write_more_nops.simps, auto simp: big_def rest_def Let_def split: if_splits)+
    note ih = "1.IH" [OF pos big_def r [symmetric] refl \<open>\<not> r < 0\<close>, folded rest_def, OF rec "1.prems"(2)]
    have s1: "s1 = logged s [row_write mi ti i (NOP_CMD, if big then 60000 else ucast d)]"
      using r \<open>\<not> r < 0\<close> pwrite_item_logged [of "row_write mi ti i (NOP_CMD, if big then 60000 else ucast d)"]
      by (auto simp: write_fsc_nop_command_def split: if_splits)
    show ?thesis
    proof (cases big)
      case True
      have "rest \<noteq> 0" using True by (auto simp: rest_def big_def)
      then show ?thesis using ih s1 True False
        by (subst nop_deltas.simps, subst nop_deltas.simps) (auto simp: rest_def big_def)
    next
      case False
      then show ?thesis using ih s1 \<open>d \<noteq> 0\<close>
        by (subst nop_deltas.simps, subst nop_deltas.simps) (auto simp: rest_def big_def)
    qed
  qed
qed

lemma indexed_error: "indexed_fsc_cmd s st cmd = Some (Inl r) \<Longrightarrow> r = - EACMINTERNAL"
  by (auto simp: indexed_fsc_cmd_def Let_def bind_eq_Some_conv split: if_splits option.splits)

text \<open>The command is refreshed from the stream of its schedule entry, or left alone with an error.\<close>

lemma update_fsc_cases:
  assumes "update_fsc_indexes s c = Some (r, c')"
  shows "(r = - EACMINTERNAL \<and> c' = c) \<or> (r = 0 \<and> (\<exists>sp w p st cmd. schedule_reference c = Some sp \<and>
     st_scheds s sp = Some w \<and> schedule_list w = Some p \<and> st_streams s p = Some st \<and>
     indexed_fsc_cmd s st (fsc_cmd c) = Some (Inr cmd) \<and> c' = c\<lparr>fsc_cmd := cmd\<rparr>))"
proof (cases "schedule_reference c")
  case None
  with assms show ?thesis by (simp add: update_fsc_indexes_def)
next
  case sp: (Some sp)
  with assms obtain w where w: "st_scheds s sp = Some w"
    by (auto simp: update_fsc_indexes_def bind_eq_Some_conv)
  show ?thesis
  proof (cases "schedule_list w")
    case None
    with assms sp w show ?thesis by (simp add: update_fsc_indexes_def)
  next
    case (Some p)
    with assms sp w obtain st res where "st_streams s p = Some st" "indexed_fsc_cmd s st (fsc_cmd c) = Some res"
        "(case res of Inl e \<Rightarrow> (e, c) | Inr cmd \<Rightarrow> (0, c\<lparr>fsc_cmd := cmd\<rparr>)) = (r, c')"
      by (auto simp: update_fsc_indexes_def bind_eq_Some_conv)
    with sp w Some show ?thesis using indexed_error [of s st "fsc_cmd c" r] by (cases res) auto
  qed
qed

lemma update_fsc_keeps:
  "update_fsc_indexes s c = Some (r, c') \<Longrightarrow> abs_cycle c' = abs_cycle c \<and> schedule_reference c' = schedule_reference c"
  by (auto dest!: update_fsc_cases)

lemma fsc_write_loop_logged:
  "fsc_write_loop mi ti prev cs i s = Some (ret, fscs', s') \<Longrightarrow> 0 \<le> ret \<Longrightarrow>
   \<exists>c' cs'. fscs' = c' # cs' \<and> s' = logged s (rows_at mi ti i (rows_from c' cs')) \<and>
     map abs_cycle fscs' = map abs_cycle (prev # cs)"
proof (induction mi ti prev cs i s arbitrary: ret fscs' s' rule: fsc_write_loop.induct)
  case (1 mi ti prev i s)
  obtain r prev' where u: "update_fsc_indexes s prev = Some (r, prev')"
    using "1.prems"(1) by (auto simp: bind_eq_Some_conv)
  obtain r2 s2 where w: "pwrite_item (row_write mi ti i (fsc_cmd prev', 8)) s = (r2, s2)" by fastforce
  have "fscs' = [prev'] \<and> ret = r2 \<and> s' = s2" using "1.prems" u w by (auto split: if_splits)
  then show ?case using pwrite_item_logged [OF w] "1.prems"(2) update_fsc_keeps [OF u] by auto
next
  case (2 mi ti prev c cs i s)
  define dl where "dl = abs_cycle c - abs_cycle prev"
  define fd where "fd = (if UINT16_T_MAX < dl then NOP_DELTA_CYCLE else dl)"
  obtain r prev' where u: "update_fsc_indexes s prev = Some (r, prev')"
    using "2.prems"(1) by (auto simp: Let_def bind_eq_Some_conv)
  obtain r1 s1 where w: "pwrite_item (row_write mi ti i (fsc_cmd prev', ucast fd)) s = (r1, s1)" by fastforce
  obtain r2 i2 s2 where m: "write_more_nops mi ti (dl - fd) (i + 1) r1 s1 = (r2, i2, s2)"
    by (cases "write_more_nops mi ti (dl - fd) (i + 1) r1 s1")
  have ok: "\<not> r < 0" "\<not> r1 < 0" "\<not> r2 < 0"
    using "2.prems" u w m by (auto simp: dl_def fd_def Let_def split: if_splits)
  then obtain fs where rec: "fsc_write_loop mi ti c cs i2 s2 = Some (ret, fs, s')" "fscs' = prev' # fs"
    using "2.prems"(1) u w [unfolded dl_def fd_def] m [unfolded dl_def fd_def]
    by (auto simp: Let_def bind_eq_Some_conv)
  note ih = "2.IH" [OF dl_def fd_def u refl ok(1) w [symmetric] refl ok(2) m [symmetric] refl refl ok(3) rec(1) "2.prems"(2)]
  then obtain c' cs' where c': "fs = c' # cs'" "s' = logged s2 (rows_at mi ti i2 (rows_from c' cs'))"
      "map abs_cycle fs = map abs_cycle (c # cs)" by blast
  have s1: "s1 = logged s [row_write mi ti i (fsc_cmd prev', ucast fd)]"
    using pwrite_item_logged [OF w] ok(2) by simp
  have s2: "s2 = logged s1 (rows_at mi ti (i + 1) (if dl - fd = 0 then [] else map (Pair NOP_CMD) (nop_deltas (dl - fd))))"
      "i2 = i + 1 + (if dl - fd = 0 then 0 else length (nop_deltas (dl - fd)))"
    using more_nops_logged [OF m] ok(3) by auto
  have dr: "delta_rows (fsc_cmd prev') dl = (fsc_cmd prev', ucast fd) #
      (if dl - fd = 0 then [] else map (Pair NOP_CMD) (nop_deltas (dl - fd)))"
  proof (cases "UINT16_T_MAX < dl")
    case True
    then have "dl - fd \<noteq> 0" by (auto simp: fd_def)
    with True show ?thesis by (subst delta_rows_def, subst nop_deltas.simps) (auto simp: fd_def)
  next
    case False
    then show ?thesis by (subst delta_rows_def, subst nop_deltas.simps) (simp add: fd_def)
  qed
  have "dl = abs_cycle c' - abs_cycle prev'"
    using c'(1,3) update_fsc_keeps [OF u] by (simp add: dl_def)
  then have "rows_from prev' (c' # cs') = delta_rows (fsc_cmd prev') dl @ rows_from c' cs'" by simp
  then have "s' = logged s (rows_at mi ti i (rows_from prev' (c' # cs')))"
    unfolding c'(2) s2(1) s1 by (auto simp: dr s2(2))
  then show ?case using rec(2) c'(1,3) update_fsc_keeps [OF u] by auto
qed

text \<open>A run that does not fail has written exactly the rows of the updated list.\<close>

lemma fsc_write_list_logged:
  assumes "fsc_write_list mi ti fscs s = Some (ret, fscs', s')" "0 \<le> ret"
  shows "s' = logged s (rows_at mi ti 0 (fsc_rows fscs')) \<and> map abs_cycle fscs' = map abs_cycle fscs"
proof (cases fscs)
  case Nil
  then show ?thesis using assms by (simp add: fsc_write_list_def fsc_rows_def)
next
  case (Cons c cs)
  obtain r i s1 where f: "(if abs_cycle c \<noteq> 0 then write_first_nops mi ti (abs_cycle c) 0 s else (0, 0, s)) = (r, i, s1)"
    by (metis prod_cases3)
  have r: "\<not> r < 0" and l: "fsc_write_loop mi ti c cs i s1 = Some (ret, fscs', s')"
    using assms f Cons by (auto simp: fsc_write_list_def split: if_splits)
  obtain c' cs' where c': "fscs' = c' # cs'" "s' = logged s1 (rows_at mi ti i (rows_from c' cs'))"
      "map abs_cycle fscs' = map abs_cycle (c # cs)"
    using fsc_write_loop_logged [OF l assms(2)] by blast
  have "s1 = logged s (rows_at mi ti 0 (if abs_cycle c \<noteq> 0 then map (Pair NOP_CMD) (nop_deltas (abs_cycle c)) else []))
      \<and> i = (if abs_cycle c \<noteq> 0 then length (nop_deltas (abs_cycle c)) else 0)"
    using f r first_nops_logged [of mi ti "abs_cycle c" 0 s r i s1] by (auto split: if_splits)
  then show ?thesis using c' Cons by (auto simp: fsc_rows_def)
qed

section \<open>Executing the table\<close>

text \<open>The scheduler performs a row and waits for its distance: the rows with their times.\<close>

fun hw_exec :: "nat \<Rightarrow> (u32 \<times> u16) list \<Rightarrow> (nat \<times> u32) list" where
  "hw_exec t [] = []"
| "hw_exec t ((cmd, d) # rows) = (t, cmd) # hw_exec (t + unat d) rows"

definition commands :: "(nat \<times> u32) list \<Rightarrow> (nat \<times> u32) list" where
  "commands xs = filter (\<lambda>(t, cmd). cmd \<noteq> NOP_CMD) xs"

lemma commands_simps [simp]:
  "commands [] = []" "commands ((t, cmd) # xs) = (if cmd \<noteq> NOP_CMD then (t, cmd) # commands xs else commands xs)"
  "commands (xs @ ys) = commands xs @ commands ys"
  by (simp_all add: commands_def)

definition total_delta :: "u16 list \<Rightarrow> nat" where
  "total_delta ds = (\<Sum>d\<leftarrow>ds. unat d)"

lemma total_delta_simps [simp]: "total_delta [] = 0" "total_delta (d # ds) = unat d + total_delta ds"
  by (simp_all add: total_delta_def)

lemma hw_exec_append:
  "hw_exec t (xs @ ys) = hw_exec t xs @ hw_exec (t + total_delta (map snd xs)) ys"
  by (induction xs arbitrary: t) (auto simp: add.assoc)

lemma commands_nops: "commands (hw_exec t (map (Pair NOP_CMD) ds)) = []"
  by (induction ds arbitrary: t) auto

lemma nop_deltas_total: "total_delta (nop_deltas d) = unat d"
proof (induction d rule: nop_deltas.induct)
  case (1 d)
  show ?case
  proof (cases "UINT16_T_MAX < d")
    case True
    then have le: "60000 \<le> unat d" by (simp add: word_less_nat_alt)
    then have "unat (d - 60000) = unat d - 60000" by (simp add: unat_sub word_le_nat_alt)
    with 1 True le show ?thesis by (subst nop_deltas.simps) simp
  next
    case False
    then have "unat d < 2 ^ 16" by (simp add: word_less_nat_alt not_less)
    then have "unat (ucast d :: u16) = unat d" by (simp add: unsigned_ucast_eq take_bit_nat_eq_self)
    with False show ?thesis by (subst nop_deltas.simps) simp
  qed
qed

lemma nop_deltas_nonempty: "nop_deltas d \<noteq> []"
  by (subst nop_deltas.simps) simp

lemma delta_rows_snd: "map snd (delta_rows cmd d) = nop_deltas d"
  using nop_deltas_nonempty [of d] by (cases "nop_deltas d") (auto simp: delta_rows_def comp_def)

lemma delta_rows_exec: "commands (hw_exec t (delta_rows cmd d)) = (if cmd \<noteq> NOP_CMD then [(t, cmd)] else [])"
  using nop_deltas_nonempty [of d] by (cases "nop_deltas d") (auto simp: delta_rows_def commands_nops)

lemma rows_from_exec:
  assumes "sorted_fscs (c # cs)" "\<forall>x\<in>set (c # cs). fsc_cmd x \<noteq> NOP_CMD"
  shows "commands (hw_exec (unat (abs_cycle c)) (rows_from c cs)) =
    map (\<lambda>x. (unat (abs_cycle x), fsc_cmd x)) (c # cs)"
  using assms
proof (induction cs arbitrary: c)
  case Nil
  then show ?case by simp
next
  case (Cons c' cs)
  have le: "abs_cycle c \<le> abs_cycle c'" using Cons.prems(1) by simp
  then have "unat (abs_cycle c) + unat (abs_cycle c' - abs_cycle c) = unat (abs_cycle c')"
    by (simp add: unat_sub word_le_nat_alt)
  then show ?case using Cons.IH [of c'] Cons.prems
    by (simp add: hw_exec_append delta_rows_snd nop_deltas_total delta_rows_exec)
qed

text \<open>Every command of the list is performed at its absolute time, and no other.\<close>

lemma fsc_rows_exec:
  assumes "sorted_fscs fscs" "\<forall>x\<in>set fscs. fsc_cmd x \<noteq> NOP_CMD"
  shows "commands (hw_exec 0 (fsc_rows fscs)) = map (\<lambda>x. (unat (abs_cycle x), fsc_cmd x)) fscs"
proof (cases fscs)
  case Nil
  then show ?thesis by (simp add: fsc_rows_def)
next
  case (Cons c cs)
  have snd: "map snd (map (Pair NOP_CMD) ds) = ds" for ds :: "u16 list" by (simp add: comp_def)
  show ?thesis
    using rows_from_exec [of c cs] assms Cons
    by (auto simp: fsc_rows_def hw_exec_append commands_nops snd nop_deltas_total simp del: map_map)
qed

end
