(* ===== verification/Acm_Fsc_Limits.thy ===== *)
theory Acm_Fsc_Limits
  imports Acm_Fsc_Spec
begin

text \<open>
  What the validation of a module (\<^verbatim>\<open>validate_module\<close>, \<^verbatim>\<open>check_module_scheduling_gaps\<close> and
  \<^verbatim>\<open>calc_nop_schedules_for_long_cycles\<close>) buys when the table is written: the rows fit into the
  table of the hardware, stay inside the part of the module and table they are written for, and
  no distance between two rows is below the minimum.
\<close>

section \<open>Counting rows\<close>

text \<open>The NOP rows the validation counts for a command that follows another at time \<open>p\<close>.\<close>

fun counted_nops :: "u32 \<Rightarrow> fsc_command list \<Rightarrow> nat" where
  "counted_nops p [] = 0"
| "counted_nops p (c # cs) = (let d = unat (abs_cycle c - p) in
     (if 65535 < d then d div 60000 else 0) + counted_nops (abs_cycle c) cs)"

lemma nop_deltas_length: "length (nop_deltas d) \<le> 1 + (if 65535 < unat d then unat d div 60000 else 0)"
proof (induction d rule: nop_deltas.induct)
  case (1 d)
  show ?case
  proof (cases "UINT16_T_MAX < d")
    case True
    then have gt: "65535 < unat d" by (simp add: word_less_nat_alt)
    then have rest: "unat (d - 60000) = unat d - 60000" by (simp add: unat_sub word_le_nat_alt)
    have "Suc ((unat d - 60000) div 60000) = unat d div 60000" using gt by (simp add: le_div_geq)
    with 1 True gt rest show ?thesis by (subst nop_deltas.simps) (auto split: if_splits)
  next
    case False
    then show ?thesis by (subst nop_deltas.simps) simp
  qed
qed

lemma delta_rows_length: "length (delta_rows cmd d) = length (nop_deltas d)"
  using arg_cong [OF delta_rows_snd, of length cmd d] by simp

lemma rows_from_length:
  "length (rows_from c cs) \<le> 1 + length cs + counted_nops (abs_cycle c) cs"
proof (induction cs arbitrary: c)
  case (Cons c' cs)
  show ?case using Cons [of c'] nop_deltas_length [of "abs_cycle c' - abs_cycle c"]
    by (simp add: Let_def delta_rows_length)
qed simp

lemma fsc_rows_length:
  assumes "fscs \<noteq> []"
  shows "length (fsc_rows fscs) \<le> length fscs + counted_nops 0 fscs + (if abs_cycle (hd fscs) = 0 then 0 else 1)"
proof -
  obtain c cs where f: "fscs = c # cs" using assms by (cases fscs) auto
  show ?thesis
    using rows_from_length [of c cs] nop_deltas_length [of "abs_cycle c"] f
    by (auto simp: fsc_rows_def Let_def)
qed

section \<open>The signed counter of the validation\<close>

lemma signed_small:
  assumes "unat (a :: u32) < 2 ^ 31"
  shows "sint a = int (unat a)"
proof -
  have u: "uint a = int (unat a)" by simp
  have "int (unat a) < 2 ^ 31" using assms unfolding of_nat_less_numeral_power_cancel_iff .
  then have "signed_take_bit 31 (int (unat a)) = int (unat a)"
    by (intro signed_take_bit_int_eq_self) linarith+
  then show ?thesis unfolding sint_uint u by simp
qed

lemma div_mult_le_nat: "(d :: nat) div 60000 * 60000 \<le> d" by simp

text \<open>For a sorted list of times below \<open>2 ^ 31\<close> neither the subtraction nor the counter wraps.\<close>

lemma nop_loop_counted:
  assumes "sorted_fscs cs" "\<forall>c\<in>set cs. p \<le> abs_cycle c \<and> unat (abs_cycle c) < 2 ^ 31"
    "unat p < 2 ^ 31" "unat n * 60000 \<le> unat p"
  shows "unat (nop_loop cs (sint p) n) = unat n + counted_nops p cs"
  using assms
proof (induction cs arbitrary: p n)
  case Nil
  then show ?case by simp
next
  case (Cons c cs)
  let ?d = "unat (abs_cycle c - p)"
  have d: "?d = unat (abs_cycle c) - unat p" using Cons.prems(2) by (simp add: unat_sub)
  have le: "unat p \<le> unat (abs_cycle c)" "unat (abs_cycle c) < 2 ^ 31"
    using Cons.prems(2) by (auto simp: word_le_nat_alt)
  define D where "D = int ?d"
  have sd: "sint (abs_cycle c - p) = D"
    using signed_small [of "abs_cycle c - p"] d le unfolding D_def by linarith
  define q where "q = (if 65535 < ?d then ?d div 60000 else 0)"
  have q: "q * 60000 \<le> ?d" using div_mult_le_nat [of ?d] by (simp add: q_def)
  have small: "(unat n + q) * 60000 \<le> unat (abs_cycle c)" using q Cons.prems(4) d le by (simp add: algebra_simps)
  define n' where "n' = (if 65535 < D then n + word_of_int (c_div D 60000) else n)"
  have n': "unat n' = unat n + q"
  proof (cases "65535 < ?d")
    case True
    have "c_div D 60000 = int q" using True unfolding D_def q_def by (simp add: c_div_nonneg zdiv_int)
    moreover have "65535 < D" using True unfolding D_def by linarith
    ultimately have "n' = n + of_nat q" unfolding n'_def by (simp only: if_True of_int_of_nat_eq)
    moreover have "unat n + q < 2 ^ 32" using small le(2) by simp
    ultimately show ?thesis by (simp add: unat_word_ariths unat_of_nat)
  next
    case False
    then have "\<not> 65535 < D" unfolding D_def by linarith
    then show ?thesis using False unfolding n'_def q_def by (simp only: if_False add_0_right)
  qed
  have "unat (nop_loop cs (sint (abs_cycle c)) n') = unat n' + counted_nops (abs_cycle c) cs"
    using Cons.prems(1,2) n' small le(2) by (intro Cons.IH) auto
  then show ?case
    using n' unfolding n'_def by (cases "65535 < D") (simp_all add: Let_def sd q_def [symmetric])
qed

lemma calc_nop_counted:
  assumes "sorted_fscs fscs" "\<forall>c\<in>set fscs. unat (abs_cycle c) < 2 ^ 31"
  shows "unat (calc_nop_schedules_for_long_cycles fscs) = counted_nops 0 fscs"
  using nop_loop_counted [of fscs 0 0] assms by (simp add: calc_nop_schedules_for_long_cycles_def)

text \<open>A list that passes the check has rows for at most the whole table.\<close>

lemma fsc_rows_fit:
  assumes "sorted_fscs fscs" "\<forall>c\<in>set fscs. unat (abs_cycle c) < 2 ^ 31" "\<not> too_many_events fscs"
  shows "length (fsc_rows fscs) \<le> ACMDRV_SCHED_TBL_ROW_COUNT"
proof (cases fscs)
  case Nil
  then show ?thesis by (simp add: fsc_rows_def)
next
  case (Cons c cs)
  then have "length (fsc_rows fscs) \<le> length fscs + counted_nops 0 fscs + (if abs_cycle (hd fscs) = 0 then 0 else 1)"
    by (intro fsc_rows_length) simp
  then show ?thesis
    using assms(3) calc_nop_counted [OF assms(1,2)] by (auto simp: too_many_events_def Let_def split: if_splits)
qed

lemma rows_at_member:
  assumes "w \<in> set (rows_at mi ti i rows)"
  shows "\<exists>k row. i \<le> k \<and> k < i + length rows \<and> w = row_write mi ti k row"
proof -
  obtain k row where "(k, row) \<in> set (enumerate i rows)" "w = row_write mi ti k row"
    using assms by (auto simp: rows_at_def)
  moreover from this have "i \<le> k \<and> k < i + length rows" by (auto simp: in_set_enumerate_eq)
  ultimately show ?thesis by blast
qed

section \<open>Distances\<close>

text \<open>Two neighbours of the list are at least the minimum apart.\<close>

definition gaps_ok :: "fsc_command list \<Rightarrow> bool" where
  "gaps_ok fscs = (\<forall>i. Suc i < length fscs \<longrightarrow> 8 \<le> abs_cycle (fscs ! Suc i) - abs_cycle (fscs ! i))"

lemma gaps_ok_Cons: "gaps_ok (c # c' # cs) \<longleftrightarrow> 8 \<le> abs_cycle c' - abs_cycle c \<and> gaps_ok (c' # cs)"
proof -
  have "gaps_ok (c # c' # cs) \<longleftrightarrow> (\<forall>i. i < Suc (length cs) \<longrightarrow>
      8 \<le> abs_cycle ((c # c' # cs) ! Suc i) - abs_cycle ((c # c' # cs) ! i))"
    by (simp add: gaps_ok_def)
  also have "\<dots> \<longleftrightarrow> 8 \<le> abs_cycle c' - abs_cycle c \<and> (\<forall>i. i < length cs \<longrightarrow>
      8 \<le> abs_cycle ((c' # cs) ! Suc i) - abs_cycle ((c' # cs) ! i))"
    by (subst All_less_Suc2) simp
  also have "\<dots> \<longleftrightarrow> 8 \<le> abs_cycle c' - abs_cycle c \<and> gaps_ok (c' # cs)" by (simp add: gaps_ok_def)
  finally show ?thesis .
qed


lemma gaps_loop_ok:
  "gaps_loop (c # cs) b p = 0 \<longleftrightarrow>
     (8 \<le> abs_cycle c - p \<or> (abs_cycle c = p \<and> b)) \<and> gaps_ok (c # cs)"
proof (induction cs arbitrary: c b p)
  case Nil
  then show ?case by (auto simp: Let_def gaps_ok_def not_less)
next
  case (Cons c' cs)
  have "\<not> abs_cycle c' - abs_cycle c < 8 \<longleftrightarrow> 8 \<le> abs_cycle c' - abs_cycle c" by (simp add: not_less)
  moreover have "abs_cycle c - p = 0 \<longleftrightarrow> abs_cycle c = p" by simp
  ultimately show ?case
    using Cons.IH [of c' False "abs_cycle c"] unfolding gaps_ok_Cons
    by (subst gaps_loop.simps) (auto simp: Let_def not_less simp del: gaps_loop.simps)
qed

text \<open>The check of the gaps says exactly this, with the start of the table at time zero.\<close>

lemma check_gaps_iff:
  "check_module_scheduling_gaps m = 0 \<longleftrightarrow> fsc_list m = [] \<or>
     ((abs_cycle (hd (fsc_list m)) = 0 \<or> 8 \<le> abs_cycle (hd (fsc_list m))) \<and> gaps_ok (fsc_list m))"
  using gaps_loop_ok [of "hd (fsc_list m)" "tl (fsc_list m)" True 0]
  by (cases "fsc_list m") (auto simp: check_module_scheduling_gaps_def)


lemma nop_deltas_min: "8 \<le> d \<Longrightarrow> x \<in> set (nop_deltas d) \<Longrightarrow> 8 \<le> unat x"
proof (induction d rule: nop_deltas.induct)
  case (1 d)
  show ?case
  proof (cases "UINT16_T_MAX < d")
    case True
    then have gt: "65535 < unat d" by (simp add: word_less_nat_alt)
    then have "unat (d - 60000) = unat d - 60000" by (simp add: unat_sub word_le_nat_alt)
    then have "8 \<le> d - 60000" using gt by (simp add: word_le_nat_alt)
    then have "8 \<le> d - NOP_DELTA_CYCLE" by simp
    note ih = "1.IH" [OF True this]
    have "nop_deltas d = 60000 # nop_deltas (d - NOP_DELTA_CYCLE)" using True by (subst nop_deltas.simps) simp
    then show ?thesis using "1.prems"(2) ih by auto
  next
    case False
    then have "nop_deltas d = [ucast d]" by (subst nop_deltas.simps) simp
    then have x: "x = ucast d" using "1.prems"(2) by simp
    have "unat d < 2 ^ 16" using False by (simp add: word_less_nat_alt not_less)
    then have "unat x = unat d" unfolding x by (simp add: unsigned_ucast_eq take_bit_nat_eq_self)
    then show ?thesis using "1.prems"(1) by (simp add: word_le_nat_alt)
  qed
qed

lemma delta_rows_min: "8 \<le> d \<Longrightarrow> row \<in> set (delta_rows cmd d) \<Longrightarrow> 8 \<le> unat (snd row)"
  using nop_deltas_min [of d] by (cases "nop_deltas d") (auto simp: delta_rows_def)

lemma rows_from_min: "gaps_ok (c # cs) \<Longrightarrow> row \<in> set (rows_from c cs) \<Longrightarrow> 8 \<le> unat (snd row)"
proof (induction cs arbitrary: c)
  case (Cons c' cs)
  then show ?case using delta_rows_min [of "abs_cycle c' - abs_cycle c" row] by (auto simp: gaps_ok_Cons simp del: split_paired_All)
qed simp

text \<open>A validated list has no row that is shorter than the minimum.\<close>

lemma fsc_rows_min:
  assumes "check_module_scheduling_gaps m = 0" "row \<in> set (fsc_rows (fsc_list m))"
  shows "8 \<le> unat (snd row)"
proof (cases "fsc_list m")
  case Nil
  then show ?thesis using assms(2) by (simp add: fsc_rows_def)
next
  case (Cons c cs)
  then have "abs_cycle c = 0 \<or> 8 \<le> abs_cycle c" and gaps: "gaps_ok (c # cs)"
    using assms(1) by (simp_all add: check_gaps_iff)
  then show ?thesis
    using assms(2) Cons nop_deltas_min [of "abs_cycle c"] rows_from_min [OF gaps, of row]
    by (auto simp: fsc_rows_def split: if_splits)
qed


section \<open>Commands that do something\<close>

text \<open>A command that is not a NOP has a trigger or switches something: bits 25 to 30.\<close>

definition active_cmd :: "u32 \<Rightarrow> bool" where
  "active_cmd cmd = (RVAL 26 25 cmd \<noteq> 0 \<or> RVAL 27 27 cmd \<noteq> 0 \<or> RVAL 28 28 cmd \<noteq> 0 \<or>
     RVAL 29 29 cmd \<noteq> 0 \<or> RVAL 30 30 cmd \<noteq> 0)"

lemma created_cmd_fields:
  "RVAL 26 25 (acmdrv_sched_tbl_cmd_create g r d t wc wo nd ne) = take_bit 2 t"
  "RVAL 27 27 (acmdrv_sched_tbl_cmd_create g r d t wc wo nd ne) = bool32 wc"
  "RVAL 28 28 (acmdrv_sched_tbl_cmd_create g r d t wc wo nd ne) = bool32 wo"
  "RVAL 29 29 (acmdrv_sched_tbl_cmd_create g r d t wc wo nd ne) = bool32 nd"
  "RVAL 30 30 (acmdrv_sched_tbl_cmd_create g r d t wc wo nd ne) = bool32 ne"
  by (simp_all add: acmdrv_sched_tbl_cmd_create_def field_simps)

lemma created_active:
  "active_cmd (acmdrv_sched_tbl_cmd_create g r d t wc wo nd ne) \<longleftrightarrow> take_bit 2 t \<noteq> 0 \<or> wc \<or> wo \<or> nd \<or> ne"
  by (simp add: active_cmd_def created_cmd_fields)

lemma NOP_not_active: "\<not> active_cmd NOP_CMD"
  by (simp add: NOP_CMD_def created_active)

lemma trigger_small: "take_bit 2 (RVAL 26 25 cmd) = RVAL 26 25 cmd"
  by (rule bit_word_eqI) (auto simp: bit_take_bit_iff bit_RVAL)

text \<open>Refreshing the indices keeps the trigger and the switches.\<close>

lemma indexed_keeps_kind:
  assumes "indexed_fsc_cmd s st cmd = Some (Inr cmd')"
  shows "RVAL 26 25 cmd' = RVAL 26 25 cmd" "active_cmd cmd' = active_cmd cmd"
proof -
  obtain g r d where c: "cmd' = acmdrv_sched_tbl_cmd_create g r d (RVAL 26 25 cmd) (RVAL 27 27 cmd \<noteq> 0)
      (RVAL 28 28 cmd \<noteq> 0) (RVAL 29 29 cmd \<noteq> 0) (RVAL 30 30 cmd \<noteq> 0)"
    using assms by (auto simp: indexed_fsc_cmd_def Let_def bind_eq_Some_conv split: if_splits option.splits)
  show "RVAL 26 25 cmd' = RVAL 26 25 cmd" by (simp add: c created_cmd_fields trigger_small)
  show "active_cmd cmd' = active_cmd cmd"
    unfolding c created_active by (simp add: active_cmd_def trigger_small)
qed

lemma update_fsc_active:
  "update_fsc_indexes s c = Some (r, c') \<Longrightarrow> active_cmd (fsc_cmd c') = active_cmd (fsc_cmd c)"
  by (auto dest!: update_fsc_cases simp: indexed_keeps_kind(2))

section \<open>Everything written is refreshed\<close>

lemma update_fsc_hw [simp]: "update_fsc_indexes (logged s ws) c = update_fsc_indexes s c"
  unfolding update_fsc_indexes_def indexed_fsc_cmd_def logged_simps ..

text \<open>The relation between the list before and after a run that does not fail.\<close>

definition refreshed :: "acm_state \<Rightarrow> fsc_command \<Rightarrow> fsc_command \<Rightarrow> bool" where
  "refreshed s c c' = (\<exists>r. 0 \<le> r \<and> update_fsc_indexes s c = Some (r, c'))"

lemma pwrite_state: "pwrite_item w s = (r, s') \<Longrightarrow> \<exists>ws. s' = logged s ws"
  by (auto simp: pwrite_item_def Let_def logged_def intro: exI [of _ "[]"] exI [of _ "[w]"] split: if_splits)

lemma more_nops_state: "write_more_nops mi ti d i r s = (r', i', s') \<Longrightarrow> \<exists>ws. s' = logged s ws"
proof (induction mi ti d i r s rule: write_more_nops.induct)
  case (1 mi ti d i r s)
  show ?case
  proof (cases "0 < d")
    case False
    then show ?thesis using "1.prems" by (subst (asm) write_more_nops.simps) (auto intro: exI [of _ "[]"])
  next
    case True
    define big where "big = (UINT16_T_MAX < d)"
    obtain r1 s1 where w: "write_fsc_nop_command mi ti i (if big then NOP_DELTA_CYCLE else d) s = (r1, s1)"
      by fastforce
    obtain ws where s1: "s1 = logged s ws"
      using pwrite_state [OF w [unfolded write_fsc_nop_command_def]] by blast
    show ?thesis
    proof (cases "r1 < 0")
      case True
      then have "s' = s1" using "1.prems" \<open>0 < d\<close> w
        by (subst (asm) write_more_nops.simps) (auto simp: Let_def big_def split: if_splits)
      with s1 show ?thesis by blast
    next
      case False
      then have "write_more_nops mi ti (if big then d - NOP_DELTA_CYCLE else 0) (i + 1) r1 s1 = (r', i', s')"
        using "1.prems" \<open>0 < d\<close> w
        by (subst (asm) write_more_nops.simps) (auto simp: Let_def big_def split: if_splits)
      from "1.IH" [OF \<open>0 < d\<close> big_def w [symmetric] refl False this] s1 show ?thesis by auto
    qed
  qed
qed

lemma refreshed_logged [simp]: "refreshed (logged s ws) = refreshed s"
  by (intro ext) (simp add: refreshed_def)

lemma fsc_write_loop_refreshed:
  "fsc_write_loop mi ti prev cs i s = Some (ret, fscs', s') \<Longrightarrow> 0 \<le> ret \<Longrightarrow>
   list_all2 (refreshed s) (prev # cs) fscs'"
proof (induction mi ti prev cs i s arbitrary: ret fscs' s' rule: fsc_write_loop.induct)
  case (1 mi ti prev i s)
  then show ?case by (auto simp: bind_eq_Some_conv refreshed_def not_less split: if_splits prod.splits)
next
  case (2 mi ti prev c cs i s)
  define dl where "dl = abs_cycle c - abs_cycle prev"
  define fd where "fd = (if UINT16_T_MAX < dl then NOP_DELTA_CYCLE else dl)"
  obtain r prev' where u: "update_fsc_indexes s prev = Some (r, prev')"
    using "2.prems"(1) by (auto simp: Let_def bind_eq_Some_conv)
  obtain r1 s1 where w: "pwrite_item (row_write mi ti i (fsc_cmd prev', ucast fd)) s = (r1, s1)" by fastforce
  obtain r2 i2 s2 where m: "write_more_nops mi ti (dl - fd) (i + 1) r1 s1 = (r2, i2, s2)"
    by (cases "write_more_nops mi ti (dl - fd) (i + 1) r1 s1")
  have ok: "\<not> r < 0" "\<not> r1 < 0" "\<not> r2 < 0"
    using "2.prems" u w m by (auto simp: dl_def fd_def Let_def split: if_splits)
  then obtain fs where rec: "fsc_write_loop mi ti c cs i2 s2 = Some (ret, fs, s')" "fscs' = prev' # fs"
    using "2.prems"(1) u w [unfolded dl_def fd_def] m [unfolded dl_def fd_def]
    by (auto simp: Let_def bind_eq_Some_conv)
  have "list_all2 (refreshed s2) (c # cs) fs"
    by (rule "2.IH" [OF dl_def fd_def u refl ok(1) w [symmetric] refl ok(2) m [symmetric] refl refl ok(3) rec(1) "2.prems"(2)])
  moreover obtain ws where "s2 = logged s ws"
    using pwrite_state [OF w] more_nops_state [OF m] by auto
  moreover have "refreshed s prev prev'" using u ok(1) by (auto simp: refreshed_def)
  ultimately show ?case using rec(2) by simp
qed

lemma fsc_write_list_refreshed:
  assumes "fsc_write_list mi ti fscs s = Some (ret, fscs', s')" "0 \<le> ret"
  shows "list_all2 (refreshed s) fscs fscs'"
proof (cases fscs)
  case Nil
  then show ?thesis using assms by (simp add: fsc_write_list_def)
next
  case (Cons c cs)
  obtain r i s1 where f: "(if abs_cycle c \<noteq> 0 then write_first_nops mi ti (abs_cycle c) 0 s else (0, 0, s)) = (r, i, s1)"
    by (metis prod_cases3)
  have r: "\<not> r < 0" and l: "fsc_write_loop mi ti c cs i s1 = Some (ret, fscs', s')"
    using assms f Cons by (auto simp: fsc_write_list_def split: if_splits)
  obtain ws where "s1 = logged s ws"
  proof (cases "abs_cycle c = 0")
    case True
    with f have "s1 = logged s []" by simp
    then show ?thesis by (rule that)
  next
    case False
    then show ?thesis using f r first_nops_logged [of mi ti "abs_cycle c" 0 s r i s1] that by auto
  qed
  then show ?thesis using fsc_write_loop_refreshed [OF l assms(2)] Cons by simp
qed

lemma refreshed_not_NOP:
  assumes "list_all2 (refreshed s) fscs fscs'" "\<forall>c\<in>set fscs. active_cmd (fsc_cmd c)"
  shows "\<forall>c\<in>set fscs'. fsc_cmd c \<noteq> NOP_CMD"
proof
  fix c' assume "c' \<in> set fscs'"
  then obtain k where k: "k < length fscs'" "c' = fscs' ! k" by (auto simp: in_set_conv_nth)
  then obtain c where "c \<in> set fscs" "refreshed s c c'"
    using assms(1) that [of "fscs ! k"] by (auto simp: list_all2_conv_all_nth)
  then show "fsc_cmd c' \<noteq> NOP_CMD"
    using assms(2) NOP_not_active by (auto simp: refreshed_def dest!: update_fsc_active)
qed

end
