(* ===== verification/Acm_Msgbuf_Spec.thy ===== *)
theory Acm_Msgbuf_Spec
  imports Acm_Msgbuf
begin

text \<open>
  What the message buffer list promises: an abstract buffer is a name with a direction and a
  size; a request with a known name enlarges that buffer, any other request appends one; a name
  requested in both directions is refused. The memory layout numbers the buffers and places
  them one after the other. The lemmas show that every operation of the code keeps the heap in
  the layout of some abstract list, and that this list is the result of merging the requests.
\<close>

section \<open>Abstract buffers and their layout\<close>

type_synonym request = "string \<times> acmdrv_buff_desc_type \<times> u16"

fun merge_request :: "request list \<Rightarrow> request \<Rightarrow> request list option" where
  "merge_request [] r = Some [r]"
| "merge_request ((n, d, z) # rs) (n', d', z') =
     (if n = n' then (if d = d' then Some ((n, d, max z z') # rs) else None)
      else map_option ((#) (n, d, z)) (merge_request rs (n', d', z')))"

definition layout_buffer :: "u8 \<Rightarrow> u16 \<Rightarrow> request \<Rightarrow> sysfs_buffer" where
  "layout_buffer i off r = \<lparr>msg_buff_index = i, msg_buff_offset = off, buf_reset = False,
     stream_direction = fst (snd r), buff_size = snd (snd r), buf_timestamp = True, buf_valid = True,
     msg_buff_name = fst r\<rparr>"

fun buffer_layout :: "u8 \<Rightarrow> u16 \<Rightarrow> request list \<Rightarrow> sysfs_buffer list" where
  "buffer_layout i off [] = []"
| "buffer_layout i off (r # rs) = layout_buffer i off r # buffer_layout (i + 1) (off + snd (snd r)) rs"

definition blocks :: "request list \<Rightarrow> u16" where
  "blocks rs = (\<Sum>r\<leftarrow>rs. snd (snd r))"

lemma blocks_simps [simp]: "blocks [] = 0" "blocks (r # rs) = snd (snd r) + blocks rs"
    "blocks (xs @ ys) = blocks xs + blocks ys"
  by (simp_all add: blocks_def)

lemma layout_length [simp]: "length (buffer_layout i off rs) = length rs"
  by (induction rs arbitrary: i off) auto

lemma layout_append:
  "buffer_layout i off (xs @ ys) =
     buffer_layout i off xs @ buffer_layout (i + word_of_nat (length xs)) (off + blocks xs) ys"
  by (induction xs arbitrary: i off) (auto simp: add.assoc)

lemma layout_names [simp]: "map msg_buff_name (buffer_layout i off rs) = map fst rs"
  by (induction rs arbitrary: i off) (auto simp: layout_buffer_def)

lemma layout_buffer_simps [simp]:
  "msg_buff_index (layout_buffer i off r) = i" "msg_buff_offset (layout_buffer i off r) = off"
  "stream_direction (layout_buffer i off r) = fst (snd r)" "buff_size (layout_buffer i off r) = snd (snd r)"
  "msg_buff_name (layout_buffer i off r) = fst r"
  by (simp_all add: layout_buffer_def)

lemma layout_nth:
  "k < length rs \<Longrightarrow> buffer_layout i off rs ! k =
     layout_buffer (i + word_of_nat k) (off + blocks (take k rs)) (rs ! k)"
proof (induction rs arbitrary: i off k)
  case Nil
  then show ?case by simp
next
  case (Cons r rs)
  then show ?case by (cases k) (auto simp: add.assoc)
qed

lemma merge_new: "n \<notin> fst ` set rs \<Longrightarrow> merge_request rs (n, d, z) = Some (rs @ [(n, d, z)])"
  by (induction rs) auto

lemma merge_known:
  "n \<notin> fst ` set rx \<Longrightarrow> merge_request (rx @ (n, d, z) # ry) (n, d', z') =
     (if d = d' then Some (rx @ (n, d, max z z') # ry) else None)"
  by (induction rx) auto

lemma merge_names:
  "merge_request rs r = Some rs' \<Longrightarrow>
   map fst rs' = (if fst r \<in> fst ` set rs then map fst rs else map fst rs @ [fst r])"
proof (induction rs r arbitrary: rs' rule: merge_request.induct)
  case (1 r)
  then show ?case by auto
next
  case (2 n d z rs n' d' z')
  then show ?case by (auto split: if_splits) force
qed

lemma merge_distinct:
  "merge_request rs r = Some rs' \<Longrightarrow> distinct (map fst rs) \<Longrightarrow> distinct (map fst rs')"
  using merge_names [of rs r rs'] by (auto split: if_splits)

lemma merge_satisfies:
  "merge_request rs (n, d, z) = Some rs' \<Longrightarrow> \<exists>z'. (n, d, z') \<in> set rs' \<and> z \<le> z'"
  by (induction rs "(n, d, z)" arbitrary: rs' rule: merge_request.induct) (auto split: if_splits)

lemma merge_grows:
  "merge_request rs r = Some rs' \<Longrightarrow> (n, d, z) \<in> set rs \<Longrightarrow> \<exists>z'. (n, d, z') \<in> set rs' \<and> z \<le> z'"
proof (induction rs r arbitrary: rs' rule: merge_request.induct)
  case (1 r)
  then show ?case by simp
next
  case (2 n1 d1 z1 rs n' d' z')
  then show ?case by (auto split: if_splits simp: le_max_iff_disj)
qed

section \<open>Buffers on the heap\<close>

definition bufs_at :: "acm_state \<Rightarrow> addr list \<Rightarrow> sysfs_buffer list option" where
  "bufs_at s ps = those (map (st_bufs s) ps)"

lemma bufs_at_Nil [simp]: "bufs_at s [] = Some []"
  by (simp add: bufs_at_def)

lemma bufs_at_Cons:
  "bufs_at s (p # ps) = Some bs \<longleftrightarrow>
     (\<exists>b bs'. st_bufs s p = Some b \<and> bufs_at s ps = Some bs' \<and> bs = b # bs')"
  by (auto simp: bufs_at_def split: option.splits)

lemma bufs_at_append:
  "bufs_at s (ps @ qs) = Some bs \<longleftrightarrow>
     (\<exists>b1 b2. bufs_at s ps = Some b1 \<and> bufs_at s qs = Some b2 \<and> bs = b1 @ b2)"
  by (auto simp: bufs_at_def those_eq_Some_iff append_eq_map_conv)

lemma bufs_at_cong: "(\<And>p. p \<in> set ps \<Longrightarrow> st_bufs s p = st_bufs s' p) \<Longrightarrow> bufs_at s ps = bufs_at s' ps"
  by (simp add: bufs_at_def cong: map_cong)

lemma bufs_at_length: "bufs_at s ps = Some bs \<Longrightarrow> length bs = length ps"
  by (auto simp: bufs_at_def dest: those_length)

lemma bufs_at_nth:
  assumes "bufs_at s ps = Some bs" "k < length ps"
  shows "st_bufs s (ps ! k) = Some (bs ! k)"
proof -
  have "map (st_bufs s) ps = map Some bs" using assms(1) by (simp add: bufs_at_def those_eq_Some_iff)
  then have "map (st_bufs s) ps ! k = map Some bs ! k" by simp
  then show ?thesis using assms(2) bufs_at_length [OF assms(1)] by simp
qed

lemma bufs_at_split:
  assumes "bufs_at s ps = Some (bx @ b # bt)"
  shows "\<exists>px q pt. ps = px @ q # pt \<and> bufs_at s px = Some bx \<and> st_bufs s q = Some b \<and>
    bufs_at s pt = Some bt \<and> length px = length bx"
proof -
  have len: "length ps = Suc (length bx + length bt)" using bufs_at_length [OF assms] by simp
  define px where "px = take (length bx) ps"
  have ps: "ps = px @ ps ! length bx # drop (Suc (length bx)) ps"
    unfolding px_def by (rule id_take_nth_drop) (simp add: len)
  have lpx: "length px = length bx" by (simp add: px_def len)
  have "bufs_at s (px @ ps ! length bx # drop (Suc (length bx)) ps) = Some (bx @ b # bt)"
    using assms ps by simp
  then obtain b1 b2 where b: "bufs_at s px = Some b1"
      "bufs_at s (ps ! length bx # drop (Suc (length bx)) ps) = Some b2" "bx @ b # bt = b1 @ b2"
    by (auto simp only: bufs_at_append)
  have "length b1 = length bx" using bufs_at_length [OF b(1)] lpx by simp
  then have "b1 = bx" "b2 = b # bt" using b(3) by auto
  with b(1,2) ps lpx show ?thesis by (auto simp: bufs_at_Cons)
qed

fun reoffset :: "u16 \<Rightarrow> sysfs_buffer list \<Rightarrow> sysfs_buffer list" where
  "reoffset off [] = []"
| "reoffset off (b # bs) = b\<lparr>msg_buff_offset := off\<rparr> # reoffset (off + buff_size b) bs"

lemma reoffset_layout: "reoffset off' (buffer_layout i off rs) = buffer_layout i off' rs"
  by (induction rs arbitrary: i off off') (auto simp: layout_buffer_def)

lemma update_offset_found:
  assumes "distinct ps" "bufs_at s ps = Some bs"
  shows "\<exists>h. update_offset_loop ps q True off s = Some (s\<lparr>st_bufs := h\<rparr>) \<and>
    bufs_at (s\<lparr>st_bufs := h\<rparr>) ps = Some (reoffset off bs) \<and> (\<forall>p. p \<notin> set ps \<longrightarrow> h p = st_bufs s p)"
  using assms
proof (induction ps arbitrary: s bs off)
  case Nil
  then show ?case by (intro exI [of _ "st_bufs s"]) simp
next
  case (Cons p ps)
  then obtain b bs' where b: "st_bufs s p = Some b" "bufs_at s ps = Some bs'" "bs = b # bs'"
    by (auto simp: bufs_at_Cons)
  define s1 where "s1 = s\<lparr>st_bufs := (st_bufs s)(p \<mapsto> b\<lparr>msg_buff_offset := off\<rparr>)\<rparr>"
  have "bufs_at s1 ps = bufs_at s ps"
    using Cons.prems(1) by (intro bufs_at_cong) (auto simp: s1_def)
  with b(2) Cons.IH [of s1 bs' "off + buff_size b"] Cons.prems(1) obtain h where h:
      "update_offset_loop ps q True (off + buff_size b) s1 = Some (s1\<lparr>st_bufs := h\<rparr>)"
      "bufs_at (s1\<lparr>st_bufs := h\<rparr>) ps = Some (reoffset (off + buff_size b) bs')"
      "\<forall>p. p \<notin> set ps \<longrightarrow> h p = st_bufs s1 p" by auto
  have s1h: "s1\<lparr>st_bufs := h\<rparr> = s\<lparr>st_bufs := h\<rparr>" by (simp add: s1_def)
  have "h p = Some (b\<lparr>msg_buff_offset := off\<rparr>)" using h(3) Cons.prems(1) by (simp add: s1_def)
  moreover have "update_offset_loop (p # ps) q True off s = Some (s\<lparr>st_bufs := h\<rparr>)"
    using b(1) h(1) s1h by (simp add: mod_buf_def s1_def [symmetric])
  moreover have "\<forall>p'. p' \<notin> set (p # ps) \<longrightarrow> h p' = st_bufs s p'" using h(3) by (simp add: s1_def)
  ultimately show ?case using h(2) b(3) by (intro exI [of _ h]) (simp add: bufs_at_Cons s1h)
qed

lemma update_offset_skip:
  assumes "q \<notin> set px" "bufs_at s px = Some bx"
  shows "update_offset_loop (px @ ps) q False c s = update_offset_loop ps q False c s"
  using assms by (induction px arbitrary: bx) (auto simp: bufs_at_Cons)

text \<open>The buffers up to the given one stay, the ones after it follow it without a gap.\<close>

lemma update_offset_after_buffer_spec:
  assumes "distinct (px @ q # pt)" "bufs_at s px = Some bx" "st_bufs s q = Some b" "bufs_at s pt = Some bt"
  shows "\<exists>h. update_offset_after_buffer (px @ q # pt) q s = Some (s\<lparr>st_bufs := h\<rparr>) \<and>
    bufs_at (s\<lparr>st_bufs := h\<rparr>) (px @ q # pt) = Some (bx @ b # reoffset (msg_buff_offset b + buff_size b) bt) \<and>
    (\<forall>p. p \<notin> set pt \<longrightarrow> h p = st_bufs s p)"
proof -
  obtain h where h: "update_offset_loop pt q True (msg_buff_offset b + buff_size b) s = Some (s\<lparr>st_bufs := h\<rparr>)"
      "bufs_at (s\<lparr>st_bufs := h\<rparr>) pt = Some (reoffset (msg_buff_offset b + buff_size b) bt)"
      "\<forall>p. p \<notin> set pt \<longrightarrow> h p = st_bufs s p"
    using update_offset_found [of pt s bt q "msg_buff_offset b + buff_size b"] assms(1,4) by auto
  have "bufs_at (s\<lparr>st_bufs := h\<rparr>) px = bufs_at s px"
    using h(3) assms(1) by (intro bufs_at_cong) auto
  moreover have "h q = Some b" using h(3) assms(1,3) by simp
  moreover have "update_offset_after_buffer (px @ q # pt) q s = Some (s\<lparr>st_bufs := h\<rparr>)"
    unfolding update_offset_after_buffer_def
    using update_offset_skip [OF _ assms(2), of q "q # pt" 0] assms(1,3) h(1) by simp
  ultimately show ?thesis using h(2,3) assms(2)
    by (intro exI [of _ h]) (simp add: bufs_at_append bufs_at_Cons)
qed

lemma check_new:
  "bufs_at s ps = Some bs \<Longrightarrow> msg_buff_name m \<notin> msg_buff_name ` set bs \<Longrightarrow>
   buffername_check ps m s = Some (0, None)"
  by (induction ps arbitrary: bs) (auto simp: bufs_at_Cons)

lemma check_known:
  assumes "bufs_at s px = Some bx" "msg_buff_name m \<notin> msg_buff_name ` set bx"
    and "st_bufs s q = Some b" "msg_buff_name b = msg_buff_name m"
  shows "buffername_check (px @ q # pt) m s =
    Some (if stream_direction b = stream_direction m then (0, Some q) else (- EPERM, None))"
  using assms by (induction px arbitrary: bx) (auto simp: bufs_at_Cons)

section \<open>One operation\<close>

definition uses_buffer :: "operation \<Rightarrow> bool" where
  "uses_buffer op = (opcode op = READ \<or> opcode op = INSERT)"

definition op_direction :: "operation \<Rightarrow> acmdrv_buff_desc_type" where
  "op_direction op = (if opcode op = READ then ACMDRV_BUFF_DESC_BUFF_TYPE_RX
     else ACMDRV_BUFF_DESC_BUFF_TYPE_TX)"

definition op_request :: "int \<Rightarrow> operation \<Rightarrow> request option" where
  "op_request g op = (if uses_buffer op
     then map_option (\<lambda>n. (n, op_direction op, buffer_blocks g op)) (buffer_name op) else None)"

text \<open>The heap holds the layout of the abstract list, and the counters continue it.\<close>

definition buf_inv :: "msgbuf_ctx \<Rightarrow> acm_state \<Rightarrow> request list \<Rightarrow> bool" where
  "buf_inv c s rs = (distinct (mb_list c) \<and> (\<forall>p\<in>set (mb_list c). p < st_next s) \<and>
     bufs_at s (mb_list c) = Some (buffer_layout 0 0 rs) \<and> distinct (map fst rs) \<and>
     mb_index c = word_of_nat (length rs) \<and> mb_offset c = blocks rs)"

definition buffers_only :: "acm_state \<Rightarrow> acm_state \<Rightarrow> bool" where
  "buffers_only s s' = (s' = s\<lparr>st_next := st_next s', st_bufs := st_bufs s'\<rparr> \<and> st_next s \<le> st_next s')"

lemma buffers_only_refl [simp]: "buffers_only s s"
  by (simp add: buffers_only_def)

lemma buffers_only_iff:
  "buffers_only s s' \<longleftrightarrow> (\<exists>m h. s' = s\<lparr>st_next := m, st_bufs := h\<rparr> \<and> st_next s \<le> m)"
  by (auto simp: buffers_only_def)

lemma buffers_only_intro: "st_next s \<le> m \<Longrightarrow> buffers_only s (s\<lparr>st_next := m, st_bufs := h\<rparr>)"
  by (simp add: buffers_only_def)

lemma buffers_only_trans: "buffers_only s s1 \<Longrightarrow> buffers_only s1 s2 \<Longrightarrow> buffers_only s s2"
  by (auto simp: buffers_only_iff [of s s1] buffers_only_iff [of s1 s2] intro: buffers_only_intro [OF le_trans])

lemma buf_inv_fresh:
  assumes "buf_inv c s rs" "st_next s \<le> m" "\<forall>p < st_next s. h p = st_bufs s p"
  shows "buf_inv c (s\<lparr>st_next := m, st_bufs := h\<rparr>) rs"
proof -
  have "bufs_at (s\<lparr>st_next := m, st_bufs := h\<rparr>) (mb_list c) = bufs_at s (mb_list c)"
    using assms by (intro bufs_at_cong) (auto simp: buf_inv_def)
  with assms show ?thesis by (auto simp: buf_inv_def)
qed

lemma buffer_create_cases:
  assumes "op_request g op = Some r"
  obtains (fail) s1 where "buffer_create op i off (snd (snd r)) s = Some (None, s1)"
      "s1 = s\<lparr>st_next := st_next s1\<rparr>" "st_next s \<le> st_next s1"
  | (ok) "buffer_create op i off (snd (snd r)) s = Some (Some (st_next s),
        s\<lparr>st_next := Suc (Suc (st_next s)), st_bufs := (st_bufs s)(st_next s \<mapsto> layout_buffer i off r)\<rparr>)"
proof -
  from assms obtain n where n: "buffer_name op = Some n" "uses_buffer op"
    and r: "r = (n, op_direction op, buffer_blocks g op)"
    by (auto simp: op_request_def split: if_splits)
  have codes: "(opcode op \<noteq> READ \<and> opcode op \<noteq> INSERT) = False"
    using n(2) by (auto simp: uses_buffer_def)
  show thesis
  proof (cases "env_alloc (st_env s) (st_next s) \<and> env_alloc (st_env s) (Suc (st_next s))")
    case True
    show thesis
      by (rule ok) (use True n r in \<open>simp add: buffer_create_def codes acm_zalloc_def layout_buffer_def
          op_direction_def del: de_Morgan_conj\<close>)
  next
    case False
    show thesis
    proof (cases "env_alloc (st_env s) (st_next s)")
      case True
      show thesis
        by (rule fail [of "s\<lparr>st_next := Suc (Suc (st_next s))\<rparr>"])
          (use True False n in \<open>simp_all add: buffer_create_def codes acm_zalloc_def del: de_Morgan_conj\<close>)
    next
      case False
      show thesis
        by (rule fail [of "s\<lparr>st_next := Suc (st_next s)\<rparr>"])
          (use False n in \<open>simp_all add: buffer_create_def codes acm_zalloc_def del: de_Morgan_conj\<close>)
    qed
  qed
qed

text \<open>
  The result of one operation: on success the request is merged and the operation linked to the
  buffer of its name; otherwise the buffers stay and the code says why.
\<close>

definition op_refines :: "request list \<Rightarrow> request \<Rightarrow> operation \<Rightarrow> msgbuf_ctx \<Rightarrow>
    int \<times> operation \<times> msgbuf_ctx \<times> acm_state \<Rightarrow> bool" where
  "op_refines rs r op c = (\<lambda>(ret, op', c', s').
     (ret = 0 \<longrightarrow> (\<exists>rs' k. merge_request rs r = Some rs' \<and> buf_inv c' s' rs' \<and>
        take (length (mb_list c)) (mb_list c') = mb_list c \<and> k < length rs' \<and>
        fst (rs' ! k) = fst r \<and> op' = op\<lparr>msg_buf := Some (mb_list c' ! k)\<rparr>)) \<and>
     (ret \<noteq> 0 \<longrightarrow> ret < 0 \<and> buf_inv c' s' rs \<and> mb_list c' = mb_list c \<and> op' = op \<and>
        (ret = - ENOMEM \<or> ret = - EPERM \<and> merge_request rs r = None)))"

lemma refines_new:
  assumes inv: "buf_inv c s rs" and req: "op_request g op = Some r" and new: "fst r \<notin> fst ` set rs"
    and s1: "s1 = s\<lparr>st_next := Suc (Suc (st_next s)),
      st_bufs := (st_bufs s)(st_next s \<mapsto> layout_buffer (mb_index c) (mb_offset c) r)\<rparr>"
  shows "op_refines rs r op c (0, op\<lparr>msg_buf := Some (st_next s)\<rparr>,
     \<lparr>mb_list = mb_list c @ [st_next s], mb_index = mb_index c + 1, mb_offset = mb_offset c + snd (snd r)\<rparr>, s1)"
proof -
  obtain n d z where r: "r = (n, d, z)" by (cases r)
  have len: "length (mb_list c) = length rs"
    using inv bufs_at_length by (fastforce simp: buf_inv_def)
  have fresh: "bufs_at s1 (mb_list c) = bufs_at s (mb_list c)"
    using inv by (intro bufs_at_cong) (auto simp: buf_inv_def s1)
  have mrg: "merge_request rs r = Some (rs @ [r])" using new by (simp add: r merge_new)
  have "buf_inv \<lparr>mb_list = mb_list c @ [st_next s], mb_index = mb_index c + 1,
      mb_offset = mb_offset c + snd (snd r)\<rparr> s1 (rs @ [r])"
    using inv new fresh
    by (auto simp: buf_inv_def s1 bufs_at_append bufs_at_Cons layout_append add.commute)
  then show ?thesis
    unfolding op_refines_def using mrg len
    by (auto intro!: exI [of _ "length rs"] simp: nth_append)
qed

text \<open>The buffer of the same name stands at some position of the list.\<close>

lemma known_split:
  assumes inv: "buf_inv c s rs" and known: "n \<in> fst ` set rs"
  obtains d z rx ry px q pt where "rs = rx @ (n, d, z) # ry" "n \<notin> fst ` set rx"
    "mb_list c = px @ q # pt" "length px = length rx"
    "bufs_at s px = Some (buffer_layout 0 0 rx)"
    "st_bufs s q = Some (layout_buffer (word_of_nat (length rx)) (blocks rx) (n, d, z))"
    "bufs_at s pt = Some (buffer_layout (word_of_nat (length rx) + 1) (blocks rx + z) ry)"
proof -
  from known obtain r0 where "r0 \<in> set rs" "fst r0 = n" by auto
  then obtain rx r1 ry where rs: "rs = rx @ r1 # ry" "fst r1 = n" "\<forall>r\<in>set rx. fst r \<noteq> n"
    using split_list_first_prop [of rs "\<lambda>r. fst r = n"] by blast
  obtain d z where r1: "r1 = (n, d, z)" using rs(2) by (cases r1) auto
  have "bufs_at s (mb_list c) = Some (buffer_layout 0 0 rx @
      layout_buffer (word_of_nat (length rx)) (blocks rx) (n, d, z) #
      buffer_layout (word_of_nat (length rx) + 1) (blocks rx + z) ry)"
    using inv by (simp add: buf_inv_def rs(1) r1 layout_append)
  from bufs_at_split [OF this] obtain px q pt where "mb_list c = px @ q # pt"
      "bufs_at s px = Some (buffer_layout 0 0 rx)"
      "st_bufs s q = Some (layout_buffer (word_of_nat (length rx)) (blocks rx) (n, d, z))"
      "bufs_at s pt = Some (buffer_layout (word_of_nat (length rx) + 1) (blocks rx + z) ry)"
      "length px = length (buffer_layout 0 0 rx)" by auto
  moreover have "rs = rx @ (n, d, z) # ry" "n \<notin> fst ` set rx" using rs r1 by auto
  ultimately show thesis by (intro that) auto
qed

lemma refines_reuse:
  assumes inv: "buf_inv c s rs"
    and rs: "rs = rx @ (n, d, z) # ry" "n \<notin> fst ` set rx" and ps: "mb_list c = px @ q # pt"
    and len: "length px = length rx" and z': "z' \<le> z"
    and s': "\<forall>p < st_next s. h p = st_bufs s p" "st_next s \<le> m"
  shows "op_refines rs (n, d, z') op c (0, op\<lparr>msg_buf := Some q\<rparr>, c, s\<lparr>st_next := m, st_bufs := h\<rparr>)"
proof -
  have "merge_request rs (n, d, z') = Some rs"
    using z' by (simp add: rs merge_known max_absorb1)
  moreover have "buf_inv c (s\<lparr>st_next := m, st_bufs := h\<rparr>) rs"
    using buf_inv_fresh [OF inv s'(2,1)] .
  ultimately show ?thesis
    unfolding op_refines_def using rs ps len
    by (auto intro!: exI [of _ "length rx"] simp: nth_append)
qed

lemma refines_grow:
  assumes inv: "buf_inv c s rs"
    and rs: "rs = rx @ (n, d, z) # ry" "n \<notin> fst ` set rx" and ps: "mb_list c = px @ q # pt"
    and len: "length px = length rx" and z': "z < z'"
    and bufs: "bufs_at s' (mb_list c) = Some (buffer_layout 0 0 (rx @ (n, d, z') # ry))"
    and nxt: "st_next s \<le> st_next s'"
  shows "op_refines rs (n, d, z') op c
    (0, op\<lparr>msg_buf := Some q\<rparr>, c\<lparr>mb_offset := mb_offset c + (z' - z)\<rparr>, s')"
proof -
  have mrg: "merge_request rs (n, d, z') = Some (rx @ (n, d, z') # ry)"
    using z' by (simp add: rs merge_known max_absorb2)
  have "buf_inv (c\<lparr>mb_offset := mb_offset c + (z' - z)\<rparr>) s' (rx @ (n, d, z') # ry)"
    using inv bufs nxt by (fastforce simp: buf_inv_def rs algebra_simps)
  then show ?thesis
    unfolding op_refines_def using mrg ps len
    by (auto intro!: exI [of _ "rx @ (n, d, z') # ry"] exI [of _ "length rx"] simp: nth_append)
qed

text \<open>Enlarging the reused buffer and moving the ones behind it gives the new layout.\<close>

lemma grow_layout:
  assumes dist: "distinct (px @ q # pt)" and p: "p \<notin> set (px @ q # pt)"
    and px: "bufs_at s px = Some (buffer_layout 0 0 rx)"
    and q: "st_bufs s q = Some (layout_buffer (word_of_nat (length rx)) (blocks rx) (n, d, z))"
    and pt: "bufs_at s pt = Some (buffer_layout (word_of_nat (length rx) + 1) (blocks rx + z) ry)"
  shows "\<exists>h. do { s2 \<leftarrow> mod_buf q (\<lambda>b. b\<lparr>buff_size := z'\<rparr>) s;
        s3 \<leftarrow> update_offset_after_buffer (px @ q # pt) q s2; Some (buffer_destroy p s3) }
      = Some (s\<lparr>st_bufs := h\<rparr>) \<and>
    bufs_at (s\<lparr>st_bufs := h\<rparr>) (px @ q # pt) = Some (buffer_layout 0 0 (rx @ (n, d, z') # ry))"
proof -
  define b where "b = layout_buffer (word_of_nat (length rx)) (blocks rx) (n, d, z')"
  define s2 where "s2 = s\<lparr>st_bufs := (st_bufs s)(q \<mapsto> b)\<rparr>"
  have m: "mod_buf q (\<lambda>b. b\<lparr>buff_size := z'\<rparr>) s = Some s2"
    using q by (simp add: mod_buf_def s2_def b_def layout_buffer_def)
  have "bufs_at s2 px = bufs_at s px" "bufs_at s2 pt = bufs_at s pt"
    using dist by (auto intro!: bufs_at_cong simp: s2_def)
  moreover have "st_bufs s2 q = Some b" by (simp add: s2_def)
  ultimately obtain h where h: "update_offset_after_buffer (px @ q # pt) q s2 = Some (s2\<lparr>st_bufs := h\<rparr>)"
    "bufs_at (s2\<lparr>st_bufs := h\<rparr>) (px @ q # pt) =
       Some (buffer_layout 0 0 rx @ b # reoffset (msg_buff_offset b + buff_size b)
         (buffer_layout (word_of_nat (length rx) + 1) (blocks rx + z) ry))"
    using update_offset_after_buffer_spec [OF dist, of s2 _ b] px pt by metis
  have s2h: "s2\<lparr>st_bufs := g\<rparr> = s\<lparr>st_bufs := g\<rparr>" for g by (simp add: s2_def)
  let ?s = "s\<lparr>st_bufs := h(p := None)\<rparr>"
  have "bufs_at ?s (px @ q # pt) = bufs_at (s2\<lparr>st_bufs := h\<rparr>) (px @ q # pt)"
    using p by (intro bufs_at_cong) auto
  then have "bufs_at ?s (px @ q # pt) = Some (buffer_layout 0 0 (rx @ (n, d, z') # ry))"
    unfolding h(2) by (simp add: layout_append reoffset_layout b_def)
  moreover have "do { s2 \<leftarrow> mod_buf q (\<lambda>b. b\<lparr>buff_size := z'\<rparr>) s;
        s3 \<leftarrow> update_offset_after_buffer (px @ q # pt) q s2; Some (buffer_destroy p s3) } = Some ?s"
    by (simp add: m h(1) buffer_destroy_def s2h)
  ultimately show ?thesis by blast
qed

text \<open>
  The refinement: in a state that satisfies the invariant, an operation that uses a buffer has a
  defined result, which is the merge of its request.
\<close>

lemma msgbuf_op_refines:
  assumes inv: "buf_inv c s rs" and req: "op_request g op = Some r"
  shows "\<exists>res. msgbuf_op g op c s = Some res \<and> op_refines rs r op c res \<and>
    buffers_only s (snd (snd (snd res)))"
proof -
  obtain n where nm: "buffer_name op = Some n" "uses_buffer op"
    and r: "r = (n, op_direction op, buffer_blocks g op)"
    using req by (auto simp: op_request_def split: if_splits)
  have codes: "(opcode op \<noteq> READ \<and> opcode op \<noteq> INSERT) = False"
    using nm(2) by (auto simp: uses_buffer_def)
  have sz: "snd (snd r) = buffer_blocks g op" by (simp add: r)
  from req show ?thesis
  proof (cases rule: buffer_create_cases [where i = "mb_index c" and off = "mb_offset c" and s = s])
    case (fail s1)
    then obtain m where s1: "s1 = s\<lparr>st_next := m\<rparr>" "st_next s \<le> m" by metis
    have "buf_inv c s1 rs"
      using buf_inv_fresh [OF inv, of m "st_bufs s"] s1 by simp
    then have "op_refines rs r op c (- ENOMEM, op, c, s1)" by (simp add: op_refines_def)
    moreover have "msgbuf_op g op c s = Some (- ENOMEM, op, c, s1)"
      using fail(1) by (simp add: msgbuf_op_def codes sz del: de_Morgan_conj)
    moreover have "buffers_only s s1"
      using s1 buffers_only_intro [OF s1(2), of "st_bufs s"] by simp
    ultimately show ?thesis by auto
  next
    case ok
    define b where "b = layout_buffer (mb_index c) (mb_offset c) r"
    define p where "p = st_next s"
    define s1 where "s1 = s\<lparr>st_next := Suc (Suc (st_next s)), st_bufs := (st_bufs s)(p \<mapsto> b)\<rparr>"
    have cr: "buffer_create op (mb_index c) (mb_offset c) (buffer_blocks g op) s = Some (Some p, s1)"
      using ok by (simp add: sz s1_def p_def b_def)
    have b1: "st_bufs s1 p = Some b" by (simp add: s1_def)
    have old: "\<forall>a < st_next s. st_bufs s1 a = st_bufs s a" by (simp add: s1_def p_def)
    have inv1: "buf_inv c s1 rs"
      using buf_inv_fresh [OF inv, of "Suc (Suc (st_next s))" "st_bufs s1"] old by (simp add: s1_def)
    have below: "\<forall>a\<in>set (mb_list c). a < st_next s" using inv by (simp add: buf_inv_def)
    have bn: "msg_buff_name b = n" "stream_direction b = op_direction op" "buff_size b = buffer_blocks g op"
      by (simp_all add: b_def r)
    show ?thesis
    proof (cases "n \<in> fst ` set rs")
      case False
      let ?c = "\<lparr>mb_list = mb_list c @ [p], mb_index = mb_index c + 1,
        mb_offset = mb_offset c + snd (snd r)\<rparr>"
      have names: "msg_buff_name ` set (buffer_layout 0 0 rs) = fst ` set rs"
        by (metis layout_names list.set_map)
      have "buffername_check (mb_list c) b s1 = Some (0, None)"
        using inv1 False check_new [of s1 "mb_list c" "buffer_layout 0 0 rs" b]
        by (simp add: buf_inv_def bn names)
      then have "msgbuf_op g op c s = Some (0, op\<lparr>msg_buf := Some p\<rparr>, ?c, s1)"
        by (simp add: msgbuf_op_def codes cr b1 buffer_add_list_def sz del: de_Morgan_conj)
      moreover have "op_refines rs r op c (0, op\<lparr>msg_buf := Some p\<rparr>, ?c, s1)"
        unfolding p_def using refines_new [OF inv req, of s1] False
        by (simp add: r s1_def p_def b_def)
      moreover have "buffers_only s s1" by (simp add: s1_def buffers_only_intro)
      ultimately show ?thesis by auto
    next
      case True
      from known_split [OF inv1 True] obtain d z rx ry px q pt where split: "rs = rx @ (n, d, z) # ry"
          "n \<notin> fst ` set rx" "mb_list c = px @ q # pt" "length px = length rx"
          "bufs_at s1 px = Some (buffer_layout 0 0 rx)"
          "st_bufs s1 q = Some (layout_buffer (word_of_nat (length rx)) (blocks rx) (n, d, z))"
          "bufs_at s1 pt = Some (buffer_layout (word_of_nat (length rx) + 1) (blocks rx + z) ry)"
        by metis
      have "msg_buff_name ` set (buffer_layout 0 0 rx) = fst ` set rx"
        by (metis layout_names list.set_map)
      then have chk: "buffername_check (mb_list c) b s1 =
          Some (if d = op_direction op then (0, Some q) else (- EPERM, None))"
        unfolding split(3) using check_known [OF split(5) _ split(6), of b pt] split(2) by (simp add: bn)
      have dest: "buffer_destroy p (s1\<lparr>st_bufs := h\<rparr>) =
          s\<lparr>st_next := Suc (Suc (st_next s)), st_bufs := h(p := None)\<rparr>" for h
        by (simp add: buffer_destroy_def s1_def)
      have dest1: "buffer_destroy p s1 =
          s\<lparr>st_next := Suc (Suc (st_next s)), st_bufs := (st_bufs s1)(p := None)\<rparr>"
        by (simp add: buffer_destroy_def s1_def)
      have pl: "p \<notin> set (mb_list c)" using below by (auto simp: p_def)
      have old1: "\<forall>a < st_next s. ((st_bufs s1)(p := None)) a = st_bufs s a"
        using old by (simp add: p_def)
      consider (clash) "d \<noteq> op_direction op" | (fits) "d = op_direction op" "buffer_blocks g op \<le> z"
        | (grow) "d = op_direction op" "z < buffer_blocks g op" by (meson linorder_not_less)
      then show ?thesis
      proof cases
        case clash
        have "msgbuf_op g op c s = Some (- EPERM, op, c, buffer_destroy p s1)"
          using clash by (simp add: msgbuf_op_def codes cr b1 chk del: de_Morgan_conj)
        moreover have "merge_request rs r = None" using clash split(2) by (simp add: split(1) r merge_known)
        moreover have "buf_inv c (buffer_destroy p s1) rs"
          unfolding dest1 by (rule buf_inv_fresh [OF inv _ old1]) simp
        ultimately show ?thesis by (auto simp: op_refines_def dest1 intro: buffers_only_intro)
      next
        case fits
        have "msgbuf_op g op c s = Some (0, op\<lparr>msg_buf := Some q\<rparr>, c, buffer_destroy p s1)"
          using fits split(6) leD [OF fits(2)]
          by (simp add: msgbuf_op_def codes cr b1 chk bn del: de_Morgan_conj)
        moreover have "op_refines rs r op c (0, op\<lparr>msg_buf := Some q\<rparr>, c, buffer_destroy p s1)"
          unfolding dest1 r fits(1) [symmetric]
          by (rule refines_reuse [OF inv split(1-4) fits(2) old1]) simp
        ultimately show ?thesis by (auto simp: dest1 intro: buffers_only_intro)
      next
        case grow
        have dist: "distinct (px @ q # pt)" "p \<notin> set (px @ q # pt)"
          using inv pl by (simp_all add: buf_inv_def split(3))
        obtain h where h: "do { s2 \<leftarrow> mod_buf q (\<lambda>b. b\<lparr>buff_size := buffer_blocks g op\<rparr>) s1;
              s3 \<leftarrow> update_offset_after_buffer (px @ q # pt) q s2; Some (buffer_destroy p s3) }
            = Some (s1\<lparr>st_bufs := h\<rparr>)"
          "bufs_at (s1\<lparr>st_bufs := h\<rparr>) (px @ q # pt) =
             Some (buffer_layout 0 0 (rx @ (n, d, buffer_blocks g op) # ry))"
          using grow_layout [OF dist split(5-7)] by blast
        let ?c = "c\<lparr>mb_offset := mb_offset c + (buffer_blocks g op - z)\<rparr>"
        have "msgbuf_op g op c s = Some (0, op\<lparr>msg_buf := Some q\<rparr>, ?c, s1\<lparr>st_bufs := h\<rparr>)"
          using grow split(6) h(1)
          by (auto simp: msgbuf_op_def codes cr b1 chk [unfolded split(3)] bn split(3) bind_eq_Some_conv
              simp del: de_Morgan_conj)
        moreover have "op_refines rs r op c (0, op\<lparr>msg_buf := Some q\<rparr>, ?c, s1\<lparr>st_bufs := h\<rparr>)"
          unfolding r grow(1) [symmetric]
          by (rule refines_grow [OF inv split(1-4) grow(2)]) (use h(2) in \<open>simp_all add: split(3) s1_def\<close>)
        ultimately show ?thesis by (auto simp: s1_def intro: buffers_only_intro)
      qed
    qed
  qed
qed

section \<open>The operations of a stream and the streams of a module\<close>

text \<open>The requests of a list of operations, and their merge.\<close>

definition requests :: "int \<Rightarrow> operation list \<Rightarrow> request list" where
  "requests g ops = List.map_filter (op_request g) ops"

fun merge_all :: "request list \<Rightarrow> request list \<Rightarrow> request list option" where
  "merge_all rs [] = Some rs"
| "merge_all rs (r # qs) = do { rs' \<leftarrow> merge_request rs r; merge_all rs' qs }"

lemma merge_all_append: "merge_all rs (xs @ ys) = Option.bind (merge_all rs xs) (\<lambda>rs'. merge_all rs' ys)"
  by (induction xs arbitrary: rs) (auto split: Option.bind_split)

lemma requests_simps [simp]:
  "requests g [] = []"
  "requests g (op # ops) = (case op_request g op of None \<Rightarrow> requests g ops | Some r \<Rightarrow> r # requests g ops)"
  by (simp_all add: requests_def List.map_filter_simps split: option.split)

text \<open>Operations that use a buffer have a name (the constructors see to that).\<close>

definition named :: "operation \<Rightarrow> bool" where
  "named op = (uses_buffer op \<longrightarrow> buffer_name op \<noteq> None)"

lemma named_request: "named op \<Longrightarrow> op_request g op = None \<Longrightarrow> \<not> uses_buffer op"
  by (auto simp: named_def op_request_def split: if_splits)

lemma op_wf_named: "op_wf op \<Longrightarrow> named op"
  by (auto simp: named_def uses_buffer_def op_wf_def name_ok_def split: option.splits)

text \<open>
  After a successful pass every operation that uses a buffer points to the buffer of the list
  whose name it carries.
\<close>

definition linked :: "addr list \<Rightarrow> request list \<Rightarrow> operation \<Rightarrow> bool" where
  "linked ps rs op = (uses_buffer op \<longrightarrow> (\<exists>k < length rs. k < length ps \<and> msg_buf op = Some (ps ! k) \<and>
     buffer_name op = Some (fst (rs ! k))))"

lemma linked_mono:
  assumes "linked ps rs op" "take (length ps) ps' = ps" "take (length rs) (map fst rs') = map fst rs"
  shows "linked ps' rs' op"
proof (cases "uses_buffer op")
  case True
  with assms(1) obtain k where k: "k < length rs" "k < length ps" "msg_buf op = Some (ps ! k)"
      "buffer_name op = Some (fst (rs ! k))" by (auto simp: linked_def)
  have pre: "take (length (map fst rs)) (map fst rs') = map fst rs" using assms(3) by simp
  have "length ps \<le> length ps'" by (rule take_prefix_length [OF assms(2)])
  moreover have le: "length rs \<le> length rs'" using take_prefix_length [OF pre] by simp
  moreover have "ps' ! k = ps ! k" by (rule take_prefix_nth [OF assms(2) k(2)])
  moreover have "fst (rs' ! k) = fst (rs ! k)" using take_prefix_nth [OF pre, of k] k(1) le by simp
  ultimately show ?thesis using k by (auto simp: linked_def intro!: exI [of _ k])
qed (simp add: linked_def)

lemma merge_prefix:
  "merge_request rs r = Some rs' \<Longrightarrow> take (length rs) (map fst rs') = map fst rs"
  using merge_names [of rs r rs'] by (auto split: if_splits)

lemma merge_all_prefix:
  "merge_all rs qs = Some rs' \<Longrightarrow> take (length rs) (map fst rs') = map fst rs"
proof (induction qs arbitrary: rs)
  case Nil
  then show ?case by (simp add: take_map)
next
  case (Cons r qs)
  then obtain rs1 where rs1: "merge_request rs r = Some rs1" "merge_all rs1 qs = Some rs'"
    by (auto simp: bind_eq_Some_conv)
  have p1: "take (length rs) (map fst rs1) = map fst rs" by (rule merge_prefix [OF rs1(1)])
  have p2: "take (length rs1) (map fst rs') = map fst rs1" by (rule Cons.IH [OF rs1(2)])
  show ?case using take_prefix_trans [of "map fst rs" "map fst rs1" "map fst rs'"] p1 p2 by simp
qed

lemma buf_inv_length: "buf_inv c s rs \<Longrightarrow> length (mb_list c) = length rs"
  using bufs_at_length by (fastforce simp: buf_inv_def)

definition same_ops :: "operation list \<Rightarrow> operation list \<Rightarrow> bool" where
  "same_ops ops ops' = (map (\<lambda>op. op\<lparr>msg_buf := None\<rparr>) ops' = map (\<lambda>op. op\<lparr>msg_buf := None\<rparr>) ops)"

definition ops_refine :: "request list \<Rightarrow> request list \<Rightarrow> operation list \<Rightarrow> msgbuf_ctx \<Rightarrow>
    int \<times> operation list \<times> msgbuf_ctx \<times> acm_state \<Rightarrow> bool" where
  "ops_refine rs qs ops c = (\<lambda>(ret, ops', c', s'). same_ops ops ops' \<and>
     take (length (mb_list c)) (mb_list c') = mb_list c \<and>
     (ret = 0 \<longrightarrow> (\<exists>rs'. merge_all rs qs = Some rs' \<and> buf_inv c' s' rs' \<and>
        (\<forall>op\<in>set ops'. linked (mb_list c') rs' op))) \<and>
     (ret \<noteq> 0 \<longrightarrow> ret < 0 \<and> (\<exists>rs'. buf_inv c' s' rs') \<and>
        (ret = - ENOMEM \<or> ret = - EPERM \<and> merge_all rs qs = None)))"

lemma msgbuf_ops_refines:
  assumes "buf_inv c s rs" "\<forall>op\<in>set ops. named op"
  shows "\<exists>res. msgbuf_ops g ops c s = Some res \<and> ops_refine rs (requests g ops) ops c res \<and>
    buffers_only s (snd (snd (snd res)))"
  using assms
proof (induction ops arbitrary: c s rs)
  case Nil
  then show ?case by (auto simp: ops_refine_def same_ops_def)
next
  case (Cons op ops)
  show ?case
  proof (cases "op_request g op")
    case None
    then have nu: "\<not> uses_buffer op" using Cons.prems(2) named_request by auto
    then have st: "msgbuf_op g op c s = Some (0, op, c, s)"
      by (simp add: msgbuf_op_def uses_buffer_def)
    obtain ret ops' c' s' where ih: "msgbuf_ops g ops c s = Some (ret, ops', c', s')"
        "ops_refine rs (requests g ops) ops c (ret, ops', c', s')" "buffers_only s s'"
      using Cons.IH [OF Cons.prems(1)] Cons.prems(2) by auto
    have "ops_refine rs (requests g (op # ops)) (op # ops) c (ret, op # ops', c', s')"
      using ih(2) None nu by (auto simp: ops_refine_def same_ops_def linked_def)
    then show ?thesis using ih st by simp
  next
    case (Some r)
    obtain r1 op1 c1 s1 where o: "msgbuf_op g op c s = Some (r1, op1, c1, s1)"
        "op_refines rs r op c (r1, op1, c1, s1)" "buffers_only s s1"
      using msgbuf_op_refines [OF Cons.prems(1) Some] by auto
    show ?thesis
    proof (cases "r1 = 0")
      case False
      then have "ops_refine rs (requests g (op # ops)) (op # ops) c (r1, op1 # ops, c1, s1)"
        using o(2) Some by (auto simp: ops_refine_def op_refines_def same_ops_def)
      moreover have "r1 < 0" using o(2) False by (simp add: op_refines_def)
      ultimately show ?thesis using o(1,3) by simp
    next
      case True
      then obtain rs1 k where rs1: "merge_request rs r = Some rs1" "buf_inv c1 s1 rs1"
          "take (length (mb_list c)) (mb_list c1) = mb_list c" "k < length rs1"
          "fst (rs1 ! k) = fst r" "op1 = op\<lparr>msg_buf := Some (mb_list c1 ! k)\<rparr>"
        using o(2) by (auto simp: op_refines_def)
      obtain ret ops' c' s' where ih: "msgbuf_ops g ops c1 s1 = Some (ret, ops', c', s')"
          "ops_refine rs1 (requests g ops) ops c1 (ret, ops', c', s')" "buffers_only s1 s'"
        using Cons.IH [OF rs1(2)] Cons.prems(2) by auto
      have l1: "linked (mb_list c1) rs1 op1"
        using rs1(4-6) buf_inv_length [OF rs1(2)] Some
        by (auto simp: linked_def op_request_def split: if_splits)
      have pre: "take (length (mb_list c)) (mb_list c') = mb_list c"
        using ih(2) take_prefix_trans [OF rs1(3)] by (simp add: ops_refine_def)
      have "linked (mb_list c') rs' op1" if "merge_all rs1 (requests g ops) = Some rs'" for rs'
        by (rule linked_mono [OF l1 _ merge_all_prefix [OF that]])
          (use ih(2) in \<open>simp add: ops_refine_def\<close>)
      then have "ops_refine rs (requests g (op # ops)) (op # ops) c (ret, op1 # ops', c', s')"
        using ih(2) Some rs1(1,6) pre by (auto simp: ops_refine_def same_ops_def)
      then show ?thesis using ih(1,3) o(1,3) True by (auto intro: buffers_only_trans)
    qed
  qed
qed

text \<open>What the pass may change: the allocation counter, buffers, and the links of operations.\<close>

definition relinked :: "acm_stream \<Rightarrow> acm_stream \<Rightarrow> bool" where
  "relinked st st' = (\<exists>ops'. st' = st\<lparr>operations := ops'\<rparr> \<and> same_ops (operations st) ops')"

definition msgbuf_frame :: "addr list \<Rightarrow> acm_state \<Rightarrow> acm_state \<Rightarrow> bool" where
  "msgbuf_frame ps s s' = (\<exists>m hb hs. s' = s\<lparr>st_next := m, st_bufs := hb, st_streams := hs\<rparr> \<and> st_next s \<le> m \<and>
     (\<forall>q. q \<notin> set ps \<longrightarrow> hs q = st_streams s q) \<and> (\<forall>q. rel_option relinked (st_streams s q) (hs q)))"

lemma same_ops_refl [simp]: "same_ops ops ops"
  by (simp add: same_ops_def)

lemma same_ops_trans: "same_ops xs ys \<Longrightarrow> same_ops ys zs \<Longrightarrow> same_ops xs zs"
  by (simp add: same_ops_def)

lemma relinked_refl [simp]: "relinked st st"
  by (auto simp: relinked_def intro: exI [of _ "operations st"])

lemma relinked_intro: "same_ops (operations st) ops' \<Longrightarrow> relinked st (st\<lparr>operations := ops'\<rparr>)"
  by (auto simp: relinked_def)

lemma relinked_trans: "relinked a b \<Longrightarrow> relinked b c \<Longrightarrow> relinked a c"
  by (auto simp: relinked_def [of a b] relinked_def [of b c] intro: relinked_intro [OF same_ops_trans])

lemma rel_option_relinked_refl [simp]: "rel_option relinked x x"
  by (cases x) auto

lemma rel_option_relinked_trans:
  "rel_option relinked x y \<Longrightarrow> rel_option relinked y z \<Longrightarrow> rel_option relinked x z"
  by (cases x; cases y; cases z) (auto intro: relinked_trans)

lemma msgbuf_frame_refl [simp]: "msgbuf_frame ps s s"
  unfolding msgbuf_frame_def by (intro exI [of _ "st_next s"] exI [of _ "st_bufs s"] exI [of _ "st_streams s"]) simp

lemma msgbuf_frame_trans:
  assumes "msgbuf_frame ps s s1" "msgbuf_frame qs s1 s2"
  shows "msgbuf_frame (ps @ qs) s s2"
proof -
  obtain m hb hs where 1: "s1 = s\<lparr>st_next := m, st_bufs := hb, st_streams := hs\<rparr>" "st_next s \<le> m"
      "\<forall>q. q \<notin> set ps \<longrightarrow> hs q = st_streams s q" "\<forall>q. rel_option relinked (st_streams s q) (hs q)"
    using assms(1) by (auto simp: msgbuf_frame_def)
  obtain m' hb' hs' where 2: "s2 = s1\<lparr>st_next := m', st_bufs := hb', st_streams := hs'\<rparr>" "m \<le> m'"
      "\<forall>q. q \<notin> set qs \<longrightarrow> hs' q = hs q" "\<forall>q. rel_option relinked (hs q) (hs' q)"
    using assms(2) by (auto simp: msgbuf_frame_def 1(1))
  show ?thesis unfolding msgbuf_frame_def
    by (rule exI [of _ m'], rule exI [of _ hb'], rule exI [of _ hs'])
      (use 1 2 in \<open>auto intro: rel_option_relinked_trans\<close>)
qed

lemma msgbuf_frame_bufs:
  assumes "msgbuf_frame ps s t"
  shows "msgbuf_frame ps s (t\<lparr>st_bufs := h\<rparr>)"
proof -
  obtain m hb hs where t: "t = s\<lparr>st_next := m, st_bufs := hb, st_streams := hs\<rparr>" "st_next s \<le> m"
      "\<forall>q. q \<notin> set ps \<longrightarrow> hs q = st_streams s q" "\<forall>q. rel_option relinked (st_streams s q) (hs q)"
    using assms by (auto simp: msgbuf_frame_def)
  have "t\<lparr>st_bufs := h\<rparr> = s\<lparr>st_next := m, st_bufs := h, st_streams := hs\<rparr>"
    by (cases s) (simp add: t(1))
  with t(2-4) show ?thesis unfolding msgbuf_frame_def by blast
qed

lemma msgbuf_frame_configs:
  assumes "msgbuf_frame ps s t"
  shows "msgbuf_frame ps (s\<lparr>st_configs := h\<rparr>) (t\<lparr>st_configs := h\<rparr>)"
proof -
  obtain m hb hs where t: "t = s\<lparr>st_next := m, st_bufs := hb, st_streams := hs\<rparr>" "st_next s \<le> m"
      "\<forall>q. q \<notin> set ps \<longrightarrow> hs q = st_streams s q" "\<forall>q. rel_option relinked (st_streams s q) (hs q)"
    using assms by (auto simp: msgbuf_frame_def)
  show ?thesis unfolding msgbuf_frame_def
    by (rule exI [of _ m], rule exI [of _ hb], rule exI [of _ hs]) (use t in \<open>simp\<close>)
qed

lemma msgbuf_frame_trans_same: "msgbuf_frame ps s s1 \<Longrightarrow> msgbuf_frame ps s1 s2 \<Longrightarrow> msgbuf_frame ps s s2"
  using msgbuf_frame_trans [of ps s s1 ps s2] by (simp add: msgbuf_frame_def)

lemma same_ops_named: "same_ops ops ops' \<Longrightarrow> (\<forall>op\<in>set ops'. named op) \<longleftrightarrow> (\<forall>op\<in>set ops. named op)"
proof -
  assume so: "same_ops ops ops'"
  have n: "named (op\<lparr>msg_buf := None\<rparr>) = named op" for op by (simp add: named_def uses_buffer_def)
  have "(\<forall>op\<in>set ops'. named op) = (\<forall>op\<in>set (map (\<lambda>op. op\<lparr>msg_buf := None\<rparr>) ops'). named op)"
    by (simp add: n)
  also have "\<dots> = (\<forall>op\<in>set ops. named op)" using so unfolding same_ops_def by (simp add: n)
  finally show ?thesis .
qed

lemma same_ops_requests: "same_ops ops ops' \<Longrightarrow> requests g ops' = requests g ops"
proof -
  assume so: "same_ops ops ops'"
  have n: "op_request g (op\<lparr>msg_buf := None\<rparr>) = op_request g op" for op
    by (simp add: op_request_def uses_buffer_def op_direction_def buffer_blocks_def get_oplen_def)
  have m: "requests g (map (\<lambda>op. op\<lparr>msg_buf := None\<rparr>) xs) = requests g xs" for xs
    by (induction xs) (auto simp: n split: option.split)
  show ?thesis using so m [of ops] m [of ops'] by (simp add: same_ops_def)
qed

text \<open>The invariant does not look at streams.\<close>

lemma buf_inv_streams [simp]: "buf_inv c (s\<lparr>st_streams := h\<rparr>) rs = buf_inv c s rs"
  by (simp add: buf_inv_def bufs_at_def)

definition stream_requests :: "int \<Rightarrow> acm_stream list \<Rightarrow> request list" where
  "stream_requests g sts = concat (map (\<lambda>st. requests g (operations st)) sts)"

lemma stream_requests_simps [simp]:
  "stream_requests g [] = []"
  "stream_requests g (st # sts) = requests g (operations st) @ stream_requests g sts"
  "stream_requests g (sts @ sts') = stream_requests g sts @ stream_requests g sts'"
  by (simp_all add: stream_requests_def)

definition all_linked :: "msgbuf_ctx \<Rightarrow> request list \<Rightarrow> acm_stream list \<Rightarrow> bool" where
  "all_linked c rs sts = (\<forall>st\<in>set sts. \<forall>op\<in>set (operations st). linked (mb_list c) rs op)"

definition streams_refine :: "request list \<Rightarrow> request list \<Rightarrow> addr list \<Rightarrow> msgbuf_ctx \<Rightarrow>
    int \<times> msgbuf_ctx \<times> acm_state \<Rightarrow> bool" where
  "streams_refine rs qs ps c = (\<lambda>(ret, c', s').
     take (length (mb_list c)) (mb_list c') = mb_list c \<and>
     (ret = 0 \<longrightarrow> (\<exists>rs' sts'. merge_all rs qs = Some rs' \<and> buf_inv c' s' rs' \<and>
        module_streams s' ps = Some sts' \<and> all_linked c' rs' sts')) \<and>
     (ret \<noteq> 0 \<longrightarrow> ret < 0 \<and> (\<exists>rs'. buf_inv c' s' rs') \<and>
        (ret = - ENOMEM \<or> ret = - EPERM \<and> merge_all rs qs = None)))"

lemma linked_extends:
  assumes "all_linked c rs sts" "take (length (mb_list c)) (mb_list c') = mb_list c"
    and "merge_all rs qs = Some rs'"
  shows "all_linked c' rs' sts"
  using assms linked_mono [OF _ assms(2) merge_all_prefix [OF assms(3)]] by (auto simp: all_linked_def)

lemma msgbuf_streams_refines:
  assumes "buf_inv c s rs" "module_streams s ps = Some sts" "distinct ps"
    and "\<forall>st\<in>set sts. \<forall>op\<in>set (operations st). named op"
  shows "\<exists>res. msgbuf_streams g ps c s = Some res \<and>
    streams_refine rs (stream_requests g sts) ps c res \<and> msgbuf_frame ps s (snd (snd res))"
  using assms
proof (induction ps arbitrary: c s rs sts)
  case Nil
  then show ?case by (auto simp: streams_refine_def module_streams_def all_linked_def)
next
  case (Cons p ps)
  then obtain st sts' where st: "st_streams s p = Some st" "module_streams s ps = Some sts'"
    "sts = st # sts'" by (auto simp: module_streams_Cons)
  obtain r1 ops1 c1 s1 where o: "msgbuf_ops g (operations st) c s = Some (r1, ops1, c1, s1)"
      "ops_refine rs (requests g (operations st)) (operations st) c (r1, ops1, c1, s1)" "buffers_only s s1"
    using msgbuf_ops_refines [OF Cons.prems(1), of "operations st" g] Cons.prems(4) st(3) by auto
  from o(3) obtain m hb where s1: "s1 = s\<lparr>st_next := m, st_bufs := hb\<rparr>" "st_next s \<le> m"
    by (auto simp: buffers_only_iff)
  define x where "x = st\<lparr>operations := ops1\<rparr>"
  define s2 where "s2 = s1\<lparr>st_streams := (st_streams s1)(p \<mapsto> x)\<rparr>"
  have upd: "mod_stream p (\<lambda>x. x\<lparr>operations := ops1\<rparr>) s1 = Some s2"
    using st(1) by (simp add: mod_stream_def s2_def x_def s1(1))
  have "relinked st x" using o(2) by (auto simp: relinked_def x_def ops_refine_def)
  then have fr: "msgbuf_frame (p # ps) s s2"
    unfolding msgbuf_frame_def s2_def s1(1)
    using s1(2) st(1) by (intro exI [of _ m] exI [of _ hb] exI [of _ "(st_streams s)(p \<mapsto> x)"]) auto
  show ?case
  proof (cases "r1 = 0")
    case False
    then have "msgbuf_streams g (p # ps) c s = Some (r1, c1, s2)"
      using o(2) by (simp add: st(1) o(1) upd ops_refine_def)
    moreover have "streams_refine rs (stream_requests g sts) (p # ps) c (r1, c1, s2)"
      using o(2) False by (auto simp: streams_refine_def ops_refine_def st(3) merge_all_append s2_def)
    ultimately show ?thesis using fr by auto
  next
    case True
    then obtain rs1 where rs1: "merge_all rs (requests g (operations st)) = Some rs1"
        "buf_inv c1 s1 rs1" "\<forall>op\<in>set ops1. linked (mb_list c1) rs1 op"
      using o(2) by (auto simp: ops_refine_def)
    have "module_streams s2 ps = module_streams s ps"
      using Cons.prems(3) by (intro module_streams_cong) (auto simp: s2_def s1(1))
    then have "module_streams s2 ps = Some sts'" using st(2) by simp
    moreover have "buf_inv c1 s2 rs1" using rs1(2) by (simp add: s2_def)
    ultimately obtain ret c' s' where ih: "msgbuf_streams g ps c1 s2 = Some (ret, c', s')"
        "streams_refine rs1 (stream_requests g sts') ps c1 (ret, c', s')" "msgbuf_frame ps s2 s'"
      using Cons.IH [of c1 s2 rs1 sts'] Cons.prems(3,4) st(3) by auto
    have run: "msgbuf_streams g (p # ps) c s = Some (ret, c', s')"
      using True by (simp add: st(1) o(1) upd ih(1))
    have pre1: "take (length (mb_list c)) (mb_list c1) = mb_list c"
      using o(2) by (simp add: ops_refine_def)
    have pre2: "take (length (mb_list c1)) (mb_list c') = mb_list c1"
      using ih(2) by (simp add: streams_refine_def)
    have p': "st_streams s' p = Some x"
      using ih(3) Cons.prems(3) by (auto simp: msgbuf_frame_def s2_def)
    have link: "all_linked c' rs' [x]" if "merge_all rs1 (stream_requests g sts') = Some rs'" for rs'
      by (rule linked_extends [OF _ pre2 that]) (use rs1(3) in \<open>simp add: all_linked_def x_def\<close>)
    have "streams_refine rs (stream_requests g sts) (p # ps) c (ret, c', s')"
      using ih(2) take_prefix_trans [OF pre1 pre2] link p'
      by (fastforce simp: streams_refine_def st(3) merge_all_append rs1(1) module_streams_Cons all_linked_def)
    moreover have "msgbuf_frame (p # ps) s s'"
      using msgbuf_frame_trans [OF fr ih(3)] by (simp add: msgbuf_frame_def)
    ultimately show ?thesis using run by auto
  qed
qed

section \<open>The whole configuration\<close>

text \<open>The streams of the module at one place of the bypass array (none without a module).\<close>

definition bypass_streams :: "acm_state \<Rightarrow> ptr \<Rightarrow> addr list option" where
  "bypass_streams s bp = (case bp of None \<Rightarrow> Some [] | Some mp \<Rightarrow> map_option mod_streams (st_modules s mp))"

lemma bypass_streams_frame: "msgbuf_frame ps s s' \<Longrightarrow> bypass_streams s' bp = bypass_streams s bp"
  by (auto simp: msgbuf_frame_def bypass_streams_def split: option.split)

definition fits_memory :: "int \<Rightarrow> acm_state \<Rightarrow> u16 \<Rightarrow> bool" where
  "fits_memory g s off = (msgbuf_memory off g < get_int32_status_value ACM_SYSFS_MSGBUF_SIZE s)"

lemma fits_memory_frame: "msgbuf_frame ps s s' \<Longrightarrow> fits_memory g s' off = fits_memory g s off"
  using int32_status_env [of s s' ACM_SYSFS_MSGBUF_SIZE] by (auto simp: fits_memory_def msgbuf_frame_def)

definition module_refines :: "int \<Rightarrow> request list \<Rightarrow> request list \<Rightarrow> addr list \<Rightarrow> ptr \<Rightarrow> msgbuf_ctx \<Rightarrow>
    int \<times> msgbuf_ctx \<times> acm_state \<Rightarrow> bool" where
  "module_refines g rs qs ps bp c = (\<lambda>(ret, c', s').
     take (length (mb_list c)) (mb_list c') = mb_list c \<and>
     (ret = 0 \<longrightarrow> (bp = None \<or> fits_memory g s' (mb_offset c')) \<and>
        (\<exists>rs' sts'. merge_all rs qs = Some rs' \<and> buf_inv c' s' rs' \<and>
        module_streams s' ps = Some sts' \<and> all_linked c' rs' sts')) \<and>
     (ret \<noteq> 0 \<longrightarrow> ret < 0 \<and> (\<exists>rs'. buf_inv c' s' rs')))"

lemma create_module_refines:
  assumes inv: "buf_inv c s rs" and ps: "bypass_streams s bp = Some ps" "module_streams s ps = Some sts"
    and "distinct ps" "\<forall>st\<in>set sts. \<forall>op\<in>set (operations st). named op"
  shows "\<exists>res. create_hw_msg_buf_list_module bp g c s = Some res \<and>
    module_refines g rs (stream_requests g sts) ps bp c res \<and> msgbuf_frame ps s (snd (snd res))"
proof (cases bp)
  case None
  then have "ps = []" "sts = []" using ps by (auto simp: bypass_streams_def module_streams_def)
  then show ?thesis using None inv
    by (auto simp: create_hw_msg_buf_list_module_def module_refines_def module_streams_def all_linked_def)
next
  case (Some mp)
  then obtain m where m: "st_modules s mp = Some m" "mod_streams m = ps"
    using ps(1) by (auto simp: bypass_streams_def)
  obtain ret c' s' where r: "msgbuf_streams g ps c s = Some (ret, c', s')"
      "streams_refine rs (stream_requests g sts) ps c (ret, c', s')" "msgbuf_frame ps s s'"
    using msgbuf_streams_refines [OF inv ps(2) assms(4,5), of g] by auto
  show ?thesis
  proof (cases "ret = 0 \<and> \<not> fits_memory g s' (mb_offset c')")
    case True
    then have "create_hw_msg_buf_list_module bp g c s = Some (- EPERM, c', s')"
      by (simp add: create_hw_msg_buf_list_module_def Some m r(1) fits_memory_def not_less)
    then show ?thesis using r True by (auto simp: module_refines_def streams_refine_def)
  next
    case False
    then have "create_hw_msg_buf_list_module bp g c s = Some (ret, c', s')"
      by (auto simp: create_hw_msg_buf_list_module_def Some m r(1) fits_memory_def not_less)
    then show ?thesis using r False by (auto simp: module_refines_def streams_refine_def)
  qed
qed

text \<open>
  The configuration as the pass needs it: its modules and their streams exist, no stream is in
  two places, and every operation that uses a buffer has a name.
\<close>

definition config_streams :: "acm_state \<Rightarrow> acm_config \<Rightarrow> (addr list \<times> addr list \<times> acm_stream list) option" where
  "config_streams s cfg = do {
     ps0 \<leftarrow> bypass_streams s (bypass cfg 0);
     ps1 \<leftarrow> bypass_streams s (bypass cfg 1);
     sts \<leftarrow> module_streams s (ps0 @ ps1);
     Some (ps0, ps1, sts) }"

definition config_ok :: "acm_state \<Rightarrow> acm_config \<Rightarrow> bool" where
  "config_ok s cfg = (case config_streams s cfg of None \<Rightarrow> False
     | Some (ps0, ps1, sts) \<Rightarrow> distinct (ps0 @ ps1) \<and> (\<forall>st\<in>set sts. \<forall>op\<in>set (operations st). named op))"

lemma module_streams_append:
  "module_streams s (ps @ qs) = Some sts \<longleftrightarrow>
     (\<exists>a b. module_streams s ps = Some a \<and> module_streams s qs = Some b \<and> sts = a @ b)"
  by (auto simp: module_streams_def those_eq_Some_iff append_eq_map_conv)

lemma create_list_refines:
  assumes cfg: "st_configs s cp = Some cfg" "msg_buffs cfg = []" and ok: "config_ok s cfg"
    and cs: "config_streams s cfg = Some (ps0, ps1, sts)"
    and g: "g = get_int32_status_value ACM_SYSFS_MSGBUF_DATAWIDTH s" "0 < g"
  shows "\<exists>ret s' ps. create_hw_msg_buf_list cp s = Some (ret, s') \<and>
     st_configs s' = (st_configs s)(cp \<mapsto> cfg\<lparr>msg_buffs := ps\<rparr>) \<and>
     msgbuf_frame (ps0 @ ps1) s (s'\<lparr>st_configs := st_configs s\<rparr>) \<and> ret \<le> 0 \<and>
     (ret = 0 \<longrightarrow> (\<exists>rs sts' c. merge_all [] (stream_requests g sts) = Some rs \<and> mb_list c = ps \<and> buf_inv c s' rs \<and>
        module_streams s' (ps0 @ ps1) = Some sts' \<and> all_linked c rs sts' \<and>
        (bypass cfg 0 \<noteq> None \<or> bypass cfg 1 \<noteq> None \<longrightarrow> fits_memory g s (blocks rs))))"
proof -
  let ?c = "\<lparr>mb_list = [] :: addr list, mb_index = 0 :: u8, mb_offset = 0 :: u16\<rparr>"
  obtain sts0 sts1 where b: "bypass_streams s (bypass cfg 0) = Some ps0" "bypass_streams s (bypass cfg 1) = Some ps1"
      "module_streams s ps0 = Some sts0" "module_streams s ps1 = Some sts1" "sts = sts0 @ sts1"
    using cs by (auto simp: config_streams_def bind_eq_Some_conv module_streams_append)
  have nd: "distinct ps0" "distinct ps1" "set ps0 \<inter> set ps1 = {}"
      "\<forall>st\<in>set sts0. \<forall>op\<in>set (operations st). named op"
      "\<forall>st\<in>set sts1. \<forall>op\<in>set (operations st). named op"
    using ok cs b(5) by (auto simp: config_ok_def)
  have inv0: "buf_inv ?c s []" by (simp add: buf_inv_def)
  obtain r1 c1 s1 where m0: "create_hw_msg_buf_list_module (bypass cfg 0) g ?c s = Some (r1, c1, s1)"
      "module_refines g [] (stream_requests g sts0) ps0 (bypass cfg 0) ?c (r1, c1, s1)" "msgbuf_frame ps0 s s1"
    using create_module_refines [OF inv0 b(1,3) nd(1,4), of g] by auto
  have put: "mod_config cp (\<lambda>x. x\<lparr>msg_buffs := ps\<rparr>) t =
      Some (t\<lparr>st_configs := (st_configs s)(cp \<mapsto> cfg\<lparr>msg_buffs := ps\<rparr>)\<rparr>)"
    if "msgbuf_frame qs s t" for t ps qs
    using that cfg(1) by (auto simp: msgbuf_frame_def mod_config_def)
  have fr: "msgbuf_frame qs s (t\<lparr>st_configs := h, st_configs := st_configs s\<rparr>)"
    if "msgbuf_frame qs s t" for t h qs
  proof -
    have "t\<lparr>st_configs := h, st_configs := st_configs s\<rparr> = t" using that by (auto simp: msgbuf_frame_def)
    then show ?thesis using that by simp
  qed
  show ?thesis
  proof (cases "r1 = 0")
    case False
    let ?s = "s1\<lparr>st_configs := (st_configs s)(cp \<mapsto> cfg\<lparr>msg_buffs := mb_list c1\<rparr>)\<rparr>"
    have "create_hw_msg_buf_list cp s = Some (r1, ?s)"
      using g(2) False m0(1) put [OF m0(3)]
      by (simp add: create_hw_msg_buf_list_def cfg g(1) [symmetric] Let_def)
    moreover have "r1 < 0" using m0(2) False by (simp add: module_refines_def)
    moreover have "msgbuf_frame (ps0 @ ps1) s (?s\<lparr>st_configs := st_configs s\<rparr>)"
      using msgbuf_frame_trans [OF fr [OF m0(3)], of ps1] by simp
    ultimately show ?thesis using False by fastforce
  next
    case True
    then obtain rs0 sts0' where r0: "merge_all [] (stream_requests g sts0) = Some rs0" "buf_inv c1 s1 rs0"
        "module_streams s1 ps0 = Some sts0'" "all_linked c1 rs0 sts0'"
      using m0(2) by (auto simp: module_refines_def)
    have b1: "bypass_streams s1 (bypass cfg 1) = Some ps1" using bypass_streams_frame [OF m0(3)] b(2) by simp
    have "module_streams s1 ps1 = module_streams s ps1"
      using m0(3) nd(3) by (intro module_streams_cong) (auto simp: msgbuf_frame_def)
    then have ms1: "module_streams s1 ps1 = Some sts1" using b(4) by simp
    obtain r2 c2 s2 where m1: "create_hw_msg_buf_list_module (bypass cfg 1) g c1 s1 = Some (r2, c2, s2)"
        "module_refines g rs0 (stream_requests g sts1) ps1 (bypass cfg 1) c1 (r2, c2, s2)" "msgbuf_frame ps1 s1 s2"
      using create_module_refines [OF r0(2) b1 ms1 nd(2,5), of g] by auto
    have f2: "msgbuf_frame (ps0 @ ps1) s s2" by (rule msgbuf_frame_trans [OF m0(3) m1(3)])
    let ?s = "s2\<lparr>st_configs := (st_configs s)(cp \<mapsto> cfg\<lparr>msg_buffs := mb_list c2\<rparr>)\<rparr>"
    have run: "create_hw_msg_buf_list cp s = Some (r2, ?s)"
      using g(2) True m0(1) m1(1) put [OF f2]
      by (simp add: create_hw_msg_buf_list_def cfg g(1) [symmetric] Let_def)
    have pre: "take (length (mb_list c1)) (mb_list c2) = mb_list c1" using m1(2) by (simp add: module_refines_def)
    have "module_streams s2 ps0 = module_streams s1 ps0"
      using m1(3) nd(3) by (intro module_streams_cong) (auto simp: msgbuf_frame_def)
    then have ms0: "module_streams s2 ps0 = Some sts0'" using r0(3) by simp
    have fin: "\<exists>rs sts' c. merge_all [] (stream_requests g sts) = Some rs \<and> mb_list c = mb_list c2 \<and> buf_inv c ?s rs \<and>
        module_streams ?s (ps0 @ ps1) = Some sts' \<and> all_linked c rs sts' \<and>
        (bypass cfg 0 \<noteq> None \<or> bypass cfg 1 \<noteq> None \<longrightarrow> fits_memory g s (blocks rs))" if "r2 = 0"
    proof -
      obtain rs sts1' where rs: "merge_all rs0 (stream_requests g sts1) = Some rs" "buf_inv c2 s2 rs"
          "module_streams s2 ps1 = Some sts1'" "all_linked c2 rs sts1'"
          "bypass cfg 1 \<noteq> None \<longrightarrow> fits_memory g s2 (mb_offset c2)"
        using m1(2) \<open>r2 = 0\<close> by (auto simp: module_refines_def)
      have "all_linked c2 rs sts0'" by (rule linked_extends [OF r0(4) pre rs(1)])
      moreover have off: "mb_offset c2 = blocks rs" using rs(2) by (simp add: buf_inv_def)
      moreover have "fits_memory g s (blocks rs)" if "bypass cfg 0 \<noteq> None" "bypass cfg 1 = None"
      proof -
        have "sts1 = []" using that(2) b(2,4) by (simp add: bypass_streams_def module_streams_def)
        then have "rs = rs0" using rs(1) by simp
        moreover have "fits_memory g s1 (mb_offset c1)" using m0(2) True that(1) by (simp add: module_refines_def)
        ultimately show ?thesis using r0(2) fits_memory_frame [OF m0(3)] by (simp add: buf_inv_def)
      qed
      moreover have "module_streams ?s qs = module_streams s2 qs" for qs by (simp add: module_streams_def)
      moreover have "buf_inv c2 ?s rs" using rs(2) by (simp add: buf_inv_def bufs_at_def)
      ultimately show ?thesis
        using rs r0(1) ms0 fits_memory_frame [OF f2]
        by (intro exI [of _ rs] exI [of _ "sts0' @ sts1'"] exI [of _ c2])
          (auto simp: b(5) merge_all_append module_streams_append all_linked_def)
    qed
    have "r2 \<le> 0" using m1(2) by (cases "r2 = 0") (auto simp: module_refines_def)
    with run fin fr [OF f2] show ?thesis
      by (intro exI [of _ r2] exI [of _ ?s] exI [of _ "mb_list c2"]) simp
  qed
qed

text \<open>Removing the links first changes no request.\<close>

lemma clean_op_same: "same_ops ops (map (\<lambda>op. if opcode op = READ \<or> opcode op = INSERT
    then op\<lparr>msg_buf := None\<rparr> else op) ops)"
  by (auto simp: same_ops_def)

lemma stream_clean_frame:
  assumes "st_streams s p = Some st"
  shows "\<exists>s'. stream_clean_msg_buff_links p s = Some s' \<and> msgbuf_frame [p] s s'"
proof -
  define x where "x = st\<lparr>operations := map (\<lambda>op. if opcode op = READ \<or> opcode op = INSERT
    then op\<lparr>msg_buf := None\<rparr> else op) (operations st)\<rparr>"
  have "relinked st x" unfolding x_def by (rule relinked_intro [OF clean_op_same])
  then have "msgbuf_frame [p] s (s\<lparr>st_streams := (st_streams s)(p \<mapsto> x)\<rparr>)"
    unfolding msgbuf_frame_def using assms
    by (intro exI [of _ "st_next s"] exI [of _ "st_bufs s"] exI [of _ "(st_streams s)(p \<mapsto> x)"]) auto
  then show ?thesis using assms by (simp add: stream_clean_msg_buff_links_def mod_stream_def x_def)
qed

lemma msgbuf_frame_exists: "msgbuf_frame ps s s' \<Longrightarrow> st_streams s q \<noteq> None \<Longrightarrow> st_streams s' q \<noteq> None"
  unfolding msgbuf_frame_def by (metis (no_types, lifting) acm_state.select_convs(3)
      acm_state.surjective acm_state.update_convs(3) option.rel_distinct(2) option.exhaust)

lemma module_streams_exists: "module_streams s ps \<noteq> None \<longleftrightarrow> (\<forall>p\<in>set ps. st_streams s p \<noteq> None)"
  unfolding module_streams_def those_not_None_iff by simp

lemma foreach_clean_frame:
  "(\<forall>p\<in>set ps. st_streams s p \<noteq> None) \<Longrightarrow>
   \<exists>s'. foreach_upd stream_clean_msg_buff_links ps s = Some s' \<and> msgbuf_frame ps s s'"
proof (induction ps arbitrary: s)
  case Nil
  then show ?case by simp
next
  case (Cons p ps)
  then obtain s1 where s1: "stream_clean_msg_buff_links p s = Some s1" "msgbuf_frame [p] s s1"
    using stream_clean_frame [of s p] by auto
  moreover obtain s2 where "foreach_upd stream_clean_msg_buff_links ps s1 = Some s2" "msgbuf_frame ps s1 s2"
    using Cons.IH [of s1] Cons.prems msgbuf_frame_exists [OF s1(2)] by auto
  ultimately show ?case using msgbuf_frame_trans [of "[p]" s s1 ps s2] by auto
qed

lemma module_streams_relinked:
  assumes "msgbuf_frame qs s s'" "module_streams s ps = Some sts"
  shows "\<exists>sts'. module_streams s' ps = Some sts' \<and> list_all2 relinked sts sts'"
  using assms(2)
proof (induction ps arbitrary: sts)
  case Nil
  then show ?case by (simp add: module_streams_def)
next
  case (Cons p ps)
  then obtain st sts1 where st: "st_streams s p = Some st" "module_streams s ps = Some sts1" "sts = st # sts1"
    by (auto simp: module_streams_Cons)
  obtain sts2 where "module_streams s' ps = Some sts2" "list_all2 relinked sts1 sts2"
    using Cons.IH [OF st(2)] by blast
  moreover have "rel_option relinked (st_streams s p) (st_streams s' p)"
    using assms(1) by (auto simp: msgbuf_frame_def)
  then obtain x where "st_streams s' p = Some x" "relinked st x"
    by (cases "st_streams s' p") (auto simp: st(1))
  ultimately show ?case by (auto simp: module_streams_Cons st(3))
qed

lemma relinked_list:
  assumes "list_all2 relinked sts sts'"
  shows "stream_requests g sts' = stream_requests g sts"
    and "(\<forall>st\<in>set sts'. \<forall>op\<in>set (operations st). named op) = (\<forall>st\<in>set sts. \<forall>op\<in>set (operations st). named op)"
  using assms
proof (induction rule: list_all2_induct)
  case Nil
  { case 1 show ?case by simp next case 2 show ?case by simp }
next
  case (Cons x xs y ys)
  from Cons.hyps(1) have so: "same_ops (operations x) (operations y)" by (auto simp: relinked_def)
  {
    case 1
    show ?case using Cons.IH(1) same_ops_requests [OF so] by simp
  next
    case 2
    show ?case using Cons.IH(2) same_ops_named [OF so] by simp
  }
qed

lemma config_frame:
  assumes "msgbuf_frame qs s s'" "config_streams s cfg = Some (ps0, ps1, sts)" "config_ok s cfg"
  shows "\<exists>sts'. config_streams s' cfg = Some (ps0, ps1, sts') \<and> config_ok s' cfg \<and>
     stream_requests g sts' = stream_requests g sts"
proof -
  obtain sts' where "module_streams s' (ps0 @ ps1) = Some sts'" "list_all2 relinked sts sts'"
    using module_streams_relinked [OF assms(1), of "ps0 @ ps1" sts] assms(2)
    by (auto simp: config_streams_def bind_eq_Some_conv)
  then show ?thesis
    using assms(2,3) bypass_streams_frame [OF assms(1)] relinked_list [of sts sts']
    by (auto simp: config_streams_def config_ok_def bind_eq_Some_conv)
qed

lemma buffer_empty_list_spec:
  "\<exists>h. buffer_empty_list ps s = ([], s\<lparr>st_bufs := h\<rparr>)"
proof (induction ps arbitrary: s)
  case Nil
  show ?case by (auto intro: exI [of _ "st_bufs s"])
next
  case (Cons p ps)
  then show ?case by (auto simp: buffer_destroy_def) (metis acm_state.update_convs(7) acm_state.surjective)
qed

lemma clean_bypass_frame:
  assumes "bypass_streams s bp = Some ps" "\<forall>p\<in>set ps. st_streams s p \<noteq> None"
  shows "\<exists>s'. clean_bypass_links bp s = Some s' \<and> msgbuf_frame ps s s'"
proof (cases bp)
  case None
  then show ?thesis by (simp add: clean_bypass_links_def)
next
  case (Some mp)
  then show ?thesis using assms foreach_clean_frame [of ps s]
    by (auto simp: clean_bypass_links_def module_clean_msg_buff_links_def bypass_streams_def)
qed

text \<open>
  What a recalculation yields, whatever the buffers and links were before: it is defined, changes
  no more than the frame says, and on success the buffers are the layout of the merged requests
  of all streams, within the memory, with all operations linked.
\<close>

definition recalculated :: "int \<Rightarrow> acm_state \<Rightarrow> acm_config \<Rightarrow> addr list \<Rightarrow> acm_state \<Rightarrow> bool" where
  "recalculated g s cfg ps s' = (\<exists>ps0 ps1 sts rs sts'. config_streams s cfg = Some (ps0, ps1, sts) \<and>
     merge_all [] (stream_requests g sts) = Some rs \<and>
     distinct ps \<and> bufs_at s' ps = Some (buffer_layout 0 0 rs) \<and> distinct (map fst rs) \<and>
     module_streams s' (ps0 @ ps1) = Some sts' \<and> list_all2 relinked sts sts' \<and>
     (\<forall>st\<in>set sts'. \<forall>op\<in>set (operations st). linked ps rs op) \<and>
     (bypass cfg 0 \<noteq> None \<or> bypass cfg 1 \<noteq> None \<longrightarrow> fits_memory g s (blocks rs)))"

lemma recalculate_spec:
  assumes cfg: "st_configs s cp = Some cfg" and ok: "config_ok s cfg"
  shows "\<exists>ret s' ps qs. clean_and_recalculate_hw_msg_buffs cp s = Some (ret, s') \<and> ret \<le> 0 \<and>
     st_configs s' = (st_configs s)(cp \<mapsto> cfg\<lparr>msg_buffs := ps\<rparr>) \<and>
     msgbuf_frame qs s (s'\<lparr>st_configs := st_configs s\<rparr>) \<and>
     (ret = 0 \<longrightarrow> 0 < get_int32_status_value ACM_SYSFS_MSGBUF_DATAWIDTH s \<and>
        recalculated (get_int32_status_value ACM_SYSFS_MSGBUF_DATAWIDTH s) s cfg ps s')"
proof -
  define g where "g = get_int32_status_value ACM_SYSFS_MSGBUF_DATAWIDTH s"
  obtain ps0 ps1 sts where cs: "config_streams s cfg = Some (ps0, ps1, sts)"
    using ok by (auto simp: config_ok_def split: option.splits)
  have ex: "\<forall>p\<in>set (ps0 @ ps1). st_streams s p \<noteq> None"
    using cs module_streams_exists [of s "ps0 @ ps1"] by (auto simp: config_streams_def bind_eq_Some_conv)
  have bp: "bypass_streams s (bypass cfg 0) = Some ps0" "bypass_streams s (bypass cfg 1) = Some ps1"
    using cs by (auto simp: config_streams_def bind_eq_Some_conv)
  obtain s1 where s1: "clean_bypass_links (bypass cfg 0) s = Some s1" "msgbuf_frame ps0 s s1"
    using clean_bypass_frame [OF bp(1)] ex by auto
  have "bypass_streams s1 (bypass cfg 1) = Some ps1" using bypass_streams_frame [OF s1(2)] bp(2) by simp
  then obtain s2 where s2: "clean_bypass_links (bypass cfg 1) s1 = Some s2" "msgbuf_frame ps1 s1 s2"
    using clean_bypass_frame [of s1 "bypass cfg 1" ps1] ex msgbuf_frame_exists [OF s1(2)] by auto
  have f2: "msgbuf_frame (ps0 @ ps1) s s2" by (rule msgbuf_frame_trans [OF s1(2) s2(2)])
  obtain h where h: "buffer_empty_list (msg_buffs cfg) s2 = ([], s2\<lparr>st_bufs := h\<rparr>)"
    using buffer_empty_list_spec by blast
  define s3 where "s3 = s2\<lparr>st_bufs := h\<rparr>"
  have f3: "msgbuf_frame (ps0 @ ps1) s s3"
    unfolding s3_def by (rule msgbuf_frame_bufs [OF f2])
  define cfg' where "cfg' = cfg\<lparr>msg_buffs := []\<rparr>"
  define s4 where "s4 = s3\<lparr>st_configs := (st_configs s)(cp \<mapsto> cfg')\<rparr>"
  have conf3: "st_configs s3 = st_configs s" using f3 by (auto simp: msgbuf_frame_def)
  have run: "clean_and_recalculate_hw_msg_buffs cp s = create_hw_msg_buf_list cp s4"
    using cfg s1(1) s2(1) h conf3
    by (simp add: clean_and_recalculate_hw_msg_buffs_def mod_config_def s4_def s3_def cfg'_def)
  obtain sts3 where c3: "config_streams s3 cfg = Some (ps0, ps1, sts3)" "config_ok s3 cfg"
      "stream_requests g sts3 = stream_requests g sts"
    using config_frame [OF f3 cs ok] by blast
  have same: "config_streams s4 cfg' = config_streams s3 cfg" "config_ok s4 cfg' = config_ok s3 cfg"
  proof -
    have "bypass_streams s4 bp = bypass_streams s3 bp" "module_streams s4 qs = module_streams s3 qs" for bp qs
      by (simp_all add: s4_def bypass_streams_def module_streams_def split: option.split)
    then show "config_streams s4 cfg' = config_streams s3 cfg" by (simp add: config_streams_def cfg'_def)
    then show "config_ok s4 cfg' = config_ok s3 cfg" by (simp add: config_ok_def)
  qed
  have env: "st_env s4 = st_env s" using f3 by (auto simp: s4_def msgbuf_frame_def)
  have g4: "g = get_int32_status_value ACM_SYSFS_MSGBUF_DATAWIDTH s4"
    using int32_status_env [OF env] by (simp add: g_def)
  have id4: "s4\<lparr>st_configs := st_configs s\<rparr> = s3" using conf3 by (simp add: s4_def)
  show ?thesis
  proof (cases "0 < g")
    case False
    then have "create_hw_msg_buf_list cp s4 = Some (- ENODEV, s4)"
      using g4 by (simp add: create_hw_msg_buf_list_def s4_def)
    then show ?thesis using run f3 id4
      by (intro exI [of _ "- ENODEV"] exI [of _ s4] exI [of _ "[]"] exI [of _ "ps0 @ ps1"])
        (simp add: s4_def cfg'_def)
  next
    case True
    have pre: "st_configs s4 cp = Some cfg'" "msg_buffs cfg' = []" by (simp_all add: s4_def cfg'_def)
    have pre2: "config_ok s4 cfg'" "config_streams s4 cfg' = Some (ps0, ps1, sts3)"
      using same c3(1,2) by auto
    from create_list_refines [OF pre pre2 g4 True] obtain ret s' ps where
      r: "create_hw_msg_buf_list cp s4 = Some (ret, s')"
        "st_configs s' = (st_configs s4)(cp \<mapsto> cfg'\<lparr>msg_buffs := ps\<rparr>)"
        "msgbuf_frame (ps0 @ ps1) s4 (s'\<lparr>st_configs := st_configs s4\<rparr>)" "ret \<le> 0"
        "ret = 0 \<longrightarrow> (\<exists>rs sts' c. merge_all [] (stream_requests g sts3) = Some rs \<and> mb_list c = ps \<and> buf_inv c s' rs \<and>
          module_streams s' (ps0 @ ps1) = Some sts' \<and> all_linked c rs sts' \<and>
          (bypass cfg' 0 \<noteq> None \<or> bypass cfg' 1 \<noteq> None \<longrightarrow> fits_memory g s4 (blocks rs)))"
      by blast
    have "msgbuf_frame (ps0 @ ps1) s3 (s'\<lparr>st_configs := st_configs s\<rparr>)"
      using msgbuf_frame_configs [OF r(3), of "st_configs s"] id4 by simp
    then have f: "msgbuf_frame (ps0 @ ps1) s (s'\<lparr>st_configs := st_configs s\<rparr>)"
      by (rule msgbuf_frame_trans_same [OF f3])
    have "recalculated g s cfg ps s'" if "ret = 0"
    proof -
      obtain rs sts' c where q: "merge_all [] (stream_requests g sts3) = Some rs" "mb_list c = ps" "buf_inv c s' rs"
          "module_streams s' (ps0 @ ps1) = Some sts'" "all_linked c rs sts'"
          "bypass cfg' 0 \<noteq> None \<or> bypass cfg' 1 \<noteq> None \<longrightarrow> fits_memory g s4 (blocks rs)"
        using r(5) \<open>ret = 0\<close> by blast
      have "module_streams (s'\<lparr>st_configs := st_configs s\<rparr>) (ps0 @ ps1) = Some sts'"
        using q(4) by (simp add: module_streams_def)
      then have "list_all2 relinked sts sts'"
        using module_streams_relinked [OF f, of "ps0 @ ps1" sts] cs
        by (auto simp: config_streams_def bind_eq_Some_conv)
      moreover have "fits_memory g s4 off = fits_memory g s off" for off
        using int32_status_env [OF env] by (simp add: fits_memory_def)
      ultimately show ?thesis using q cs c3(3)
        unfolding recalculated_def
        by (intro exI [of _ ps0] exI [of _ ps1] exI [of _ sts] exI [of _ rs] exI [of _ sts'])
          (simp add: buf_inv_def all_linked_def cfg'_def)
    qed
    with run r(1,2,4) f True show ?thesis
      by (intro exI [of _ ret] exI [of _ s'] exI [of _ ps] exI [of _ "ps0 @ ps1"])
        (simp add: s4_def cfg'_def g_def)
  qed
qed

end
