(* ===== verification/Acm_Validate_Spec.thy ===== *)
theory Acm_Validate_Spec
  imports Acm_Validate
begin

text \<open>
  What a successful validation says. A module passes exactly if all its sums are within the limits
  of the hardware and its schedule is consistent (\<open>module_checks_iff\<close>); the sums bound the tables
  that \<^verbatim>\<open>calculate_*_indizes\<close> lay out, so that every stream of a validated module has its own rows
  inside the tables. The payload check, which runs on 32 bit positions, decides the same question
  on unbounded positions (\<open>payload_exact\<close>).
\<close>

section \<open>Sums\<close>

lemma sum_egress_ops_list:
  "sum_egress_ops sts = (\<Sum>st\<leftarrow>sts. int (max (stream_num_gather_ops st) (stream_num_prefetch_ops st)))"
  by (induction sts) (auto simp: Let_def max_def)

lemma sum_ingress_ops_list: "sum_ingress_ops sts = (\<Sum>st\<leftarrow>sts. int (stream_num_scatter_ops st))"
  by (induction sts) auto

lemma count_streams_filter: "count_streams P sts = int (length (filter P sts))"
  by (induction sts) auto

lemma stream_sum_const_buffer_list:
  "stream_sum_const_buffer ops = (\<Sum>op\<leftarrow>filter (\<lambda>op. opcode op = INSERT_CONSTANT) ops. uint (op_length op))"
  by (induction ops) auto

lemma calc_framesize_list:
  "calc_stream_egress_framesize ops = (\<Sum>op\<leftarrow>filter is_egress_payload ops. uint (op_length op))"
  by (induction ops) auto

lemma sum_const_buffers_list:
  "sum_const_buffers sts = (\<Sum>st\<leftarrow>sts. stream_sum_const_buffer (operations st))"
  by (induction sts) auto

section \<open>The checks of a module\<close>

lemma check_window_zero_iff:
  "check_window cycle w = Some 0 \<longleftrightarrow> period_ns w \<noteq> 0 \<and> cycle mod period_ns w = 0"
  by (auto simp: check_window_def)

text \<open>The rule for two redundant streams: no schedule, or one each with the cycle as period.\<close>

lemma check_redundant_windows_zero_iff:
  "check_redundant_windows cycle ws rs 0 = 0 \<longleftrightarrow>
     ws = [] \<and> rs = [] \<or> (\<exists>w r. ws = [w] \<and> rs = [r] \<and> period_ns w = cycle \<and> period_ns r = cycle)"
  by (cases ws; cases rs; cases "tl ws"; cases "tl rs") (auto simp: check_redundant_windows_def Let_def)

lemma check_redundant_windows_nonzero:
  "ret < 0 \<Longrightarrow> check_redundant_windows cycle ws rs ret < 0"
  by (auto simp: check_redundant_windows_def Let_def split: list.splits)

lemma check_window_nonpos: "check_window cycle w = Some r \<Longrightarrow> r \<le> 0"
  by (auto simp: check_window_def split: if_splits)

text \<open>Any check of a stream for which the loop ran, redundant or not, needs the periods to fit.\<close>

lemma stream_check_periods_zero:
  assumes "stream_check_periods s st cycle final = Some 0"
  shows "\<exists>ws. stream_windows s st = Some ws \<and> (\<forall>w\<in>set ws. period_ns w \<noteq> 0 \<and> cycle mod period_ns w = 0)"
proof -
  obtain ws ret where ws: "stream_windows s st = Some ws"
    and ret: "foreach_check (check_window cycle) ws = Some ret"
    using assms by (auto simp: stream_check_periods_def bind_eq_Some_conv)
  have "ret = 0"
  proof (rule ccontr)
    assume "ret \<noteq> 0"
    then obtain w where "check_window cycle w = Some ret"
      using foreach_check_nonzero [OF ret] by blast
    then have "ret < 0" using check_window_nonpos \<open>ret \<noteq> 0\<close> by fastforce
    then have "check_redundant_windows cycle ws rs ret \<noteq> 0" for rs
      using check_redundant_windows_nonzero [of ret cycle ws rs] by simp
    with assms ws ret \<open>ret \<noteq> 0\<close> show False
      by (auto simp: stream_check_periods_def bind_eq_Some_conv split: if_splits)
  qed
  with ret have "\<forall>w\<in>set ws. check_window cycle w = Some 0" by (simp add: foreach_check_zero_iff)
  with ws show ?thesis by (auto simp: check_window_zero_iff)
qed

definition module_limits :: "acm_stream list \<Rightarrow> bool" where
  "module_limits sts = (sum_const_buffers sts \<le> 4096 \<and>
     length (filter is_redundant sts) \<le> 31 \<and>
     (\<Sum>st\<leftarrow>sts. max (stream_num_gather_ops st) (stream_num_prefetch_ops st)) \<le> 254 \<and>
     (\<Sum>st\<leftarrow>sts. stream_num_scatter_ops st) \<le> 255 \<and> length (filter is_lookup_stream sts) \<le> 16)"

lemma int_sum_list: "int (\<Sum>x\<leftarrow>xs. f x) = (\<Sum>x\<leftarrow>xs. int (f x))"
  by (induction xs) auto

lemma module_checks_iff:
  "validate_module_checks final s m = Some 0 \<longleftrightarrow>
     (\<exists>sts. module_streams s (mod_streams m) = Some sts \<and> module_limits sts \<and>
       \<not> too_many_events (fsc_list m) \<and> cycle_ns m \<noteq> 0 \<and>
       (\<forall>st\<in>set sts. stream_check_periods s st (cycle_ns m) final = Some 0) \<and>
       check_module_scheduling_gaps m = 0)"
proof (cases "module_streams s (mod_streams m)")
  case None
  then show ?thesis by (simp add: validate_module_checks_def)
next
  case (Some sts)
  have limits: "module_limits sts \<longleftrightarrow> sum_const_buffers sts \<le> 4096 \<and> count_streams is_redundant sts \<le> 31 \<and>
      sum_egress_ops sts \<le> 254 \<and> sum_ingress_ops sts \<le> 255 \<and> count_streams is_lookup_stream sts \<le> 16"
    for sts
    unfolding module_limits_def sum_egress_ops_list sum_ingress_ops_list count_streams_filter int_sum_list [symmetric]
    by linarith
  show ?thesis unfolding limits
    using Some by (auto simp: validate_module_checks_def Let_def bind_eq_Some_conv foreach_check_zero_iff not_less)
qed

text \<open>What the widths of the tables are made of.\<close>

lemmas width_defs = gather_width_def scatter_width_def lookup_width_def count_defs is_lookup_stream_def is_redundant_def

section \<open>Validated modules fit into the tables\<close>

lemma unat_u16_le: "unat (word_of_nat n :: u16) \<le> n"
  by (simp add: unat_of_nat)

lemma gather_width_le: "gather_width st \<le> max (stream_num_gather_ops st) (stream_num_prefetch_ops st)"
  using unat_u16_le [of "stream_num_gather_ops st"] unat_u16_le [of "stream_num_prefetch_ops st"]
  by (auto simp: gather_width_def Let_def)

lemma scatter_width_le: "scatter_width st \<le> stream_num_scatter_ops st"
  using unat_u16_le [of "stream_num_scatter_ops st"] by (auto simp: scatter_width_def)

lemma sum_list_mono_nat: "(\<And>x. x \<in> set xs \<Longrightarrow> f x \<le> g x) \<Longrightarrow> (\<Sum>x\<leftarrow>xs. f x :: nat) \<le> (\<Sum>x\<leftarrow>xs. g x)"
  by (rule sum_list_mono)

lemma gather_total_le: "module_limits sts \<Longrightarrow> gather.total sts \<le> 254"
  unfolding gather.total_def module_limits_def
  using sum_list_mono_nat [of sts gather_width "\<lambda>st. max (stream_num_gather_ops st) (stream_num_prefetch_ops st)"]
    gather_width_le by fastforce

lemma scatter_total_le: "module_limits sts \<Longrightarrow> scatter.total sts \<le> 255"
  unfolding scatter.total_def module_limits_def
  using sum_list_mono_nat [of sts scatter_width stream_num_scatter_ops] scatter_width_le by fastforce

lemma lookup_total: "lookup.total sts = length (filter is_lookup_stream sts)"
  unfolding lookup.total_def by (induction sts) (auto simp: lookup_width_def is_lookup_stream_def)

lemma lookup_total_le: "module_limits sts \<Longrightarrow> lookup.total sts \<le> 16"
  by (simp add: module_limits_def lookup_total)

text \<open>With the real number of rows: in a validated module the counters are not truncated.\<close>

lemma limits_member:
  assumes "module_limits sts" "st \<in> set sts"
  shows "stream_num_gather_ops st \<le> 254" "stream_num_prefetch_ops st \<le> 254" "stream_num_scatter_ops st \<le> 255"
  using assms sum_list_member_le_nat [OF assms(2), of "\<lambda>st. max (stream_num_gather_ops st) (stream_num_prefetch_ops st)"]
    sum_list_member_le_nat [OF assms(2), of stream_num_scatter_ops]
  by (auto simp: module_limits_def)

lemma gather_width_exact:
  assumes "module_limits sts" "st \<in> set sts" "stream_num_gather_ops st \<noteq> 0"
    "\<not> (stream_num_gather_ops st = 1 \<and> stream_has_operation_x (operations st) FORWARD_ALL)"
  shows "gather_width st = max (stream_num_gather_ops st) (stream_num_prefetch_ops st)"
proof -
  have "unat (word_of_nat (stream_num_gather_ops st) :: u16) = stream_num_gather_ops st"
    "unat (word_of_nat (stream_num_prefetch_ops st) :: u16) = stream_num_prefetch_ops st"
    using limits_member [OF assms(1,2)] by (simp_all add: unat_of_nat)
  then show ?thesis using assms(3,4) unfolding gather_width_def by (auto simp: Let_def)
qed

section \<open>The payload check\<close>

text \<open>The loop on unbounded positions.\<close>

fun payload_nat :: "operation list \<Rightarrow> nat \<Rightarrow> nat \<Rightarrow> nat option" where
  "payload_nat [] e i = Some e"
| "payload_nat (op # ops) e i =
     (if opcode op = INSERT \<or> opcode op = INSERT_CONSTANT \<or> opcode op = PAD
      then payload_nat ops (e + unat (op_length op)) (i + unat (op_length op))
      else if opcode op = FORWARD
      then (if i + 19 < unat (op_offset op) then None
        else payload_nat ops (e + unat (op_length op)) (max i (unat (op_offset op)) + unat (op_length op)))
      else payload_nat ops e i)"

lemma u32_plus: "unat (a :: u32) + n < 2 ^ 32 \<Longrightarrow> unat (a + word_of_nat n) = unat a + n"
  by (simp add: unat_word_ariths unat_of_nat)

lemma u16_bound: "unat (l :: u16) \<le> 65535"
proof -
  have "unat l < 2 ^ LENGTH(16)" by (rule unsigned_less)
  then show ?thesis by simp
qed

lemma payload_loop_nat:
  assumes "unat e + 65554 * length ops < 2 ^ 32 - 20" "unat i + 65554 * length ops < 2 ^ 32 - 20"
  shows "payload_loop ops e i = (case payload_nat ops (unat e) (unat i) of
    None \<Rightarrow> Inl (- EACMFWDOFFSET) | Some n \<Rightarrow> Inr (word_of_nat n))"
  using assms
proof (induction ops arbitrary: e i)
  case Nil
  then show ?case by simp
next
  case (Cons op ops)
  let ?l = "unat (op_length op)" and ?o = "unat (op_offset op)"
  have l: "?l \<le> 65535" by (rule u16_bound)
  have ucl: "(ucast (op_length op) :: u32) = word_of_nat ?l" and uco: "unat (ucast (op_offset op) :: u32) = ?o"
    using u16_bound [of "op_offset op"] by (simp_all add: unsigned_ucast_eq take_bit_nat_eq_self)
  have e': "unat (e + ucast (op_length op)) = unat e + ?l"
    unfolding ucl by (rule u32_plus) (use Cons.prems l in simp)
  have i': "unat (i + ucast (op_length op)) = unat i + ?l"
    unfolding ucl by (rule u32_plus) (use Cons.prems l in simp)
  show ?case
  proof (cases "opcode op = FORWARD")
    case False
    then show ?thesis
      using Cons.IH [of "e + ucast (op_length op)" "i + ucast (op_length op)"] Cons.IH [of e i] Cons.prems l
      by (auto simp: e' i')
  next
    case True
    have trunc: "i + MAX_TRUNC_BYTES < ucast (op_offset op) \<longleftrightarrow> unat i + 19 < ?o"
      using u32_plus [of i 19] Cons.prems by (simp add: word_less_nat_alt uco)
    define pos where "pos = (if i < ucast (op_offset op) then ucast (op_offset op) else i)"
    have pos: "unat pos = max (unat i) ?o" by (auto simp: pos_def word_less_nat_alt uco)
    show ?thesis
    proof (cases "unat i + 19 < ?o")
      case skip: True
      then show ?thesis using True trunc by simp
    next
      case go: False
      have "unat (pos + ucast (op_length op)) = unat pos + ?l"
        unfolding ucl by (rule u32_plus) (use Cons.prems l go pos in simp)
      then show ?thesis
        using Cons.IH [of "e + ucast (op_length op)" "pos + ucast (op_length op)"] Cons.prems l go True trunc
        by (simp add: e' pos_def [symmetric] pos Let_def)
    qed
  qed
qed

lemma payload_nat_sum:
  "payload_nat ops e i = Some n \<Longrightarrow> int n = int e + calc_stream_egress_framesize ops"
  by (induction ops arbitrary: e i) (auto simp: is_egress_payload_def split: if_splits)

lemma framesize_bound: "calc_stream_egress_framesize ops \<le> 65535 * int (length ops)"
proof (induction ops)
  case (Cons op ops)
  have "int (unat (op_length op)) \<le> 65535" using u16_bound [of "op_length op"] by linarith
  then have "uint (op_length op) \<le> 65535" by simp
  with Cons show ?case by auto
qed simp

text \<open>For any stream with less than 60000 operations the check is exact.\<close>

lemma payload_exact:
  assumes "length ops < 60000"
  shows "check_stream_payload ops = 0 \<longleftrightarrow>
    payload_nat ops 0 0 \<noteq> None \<and> calc_stream_egress_framesize ops \<le> 1518"
proof (cases "payload_nat ops 0 0")
  case None
  then show ?thesis using payload_loop_nat [of 0 ops 0] assms by (simp add: check_stream_payload_def)
next
  case (Some n)
  have n: "int n = calc_stream_egress_framesize ops" using payload_nat_sum [OF Some] by simp
  then have small: "n < 2 ^ 32" using framesize_bound [of ops] assms by simp
  then have "MAX_PAYLOAD_HEADER_SIZE < (word_of_nat n :: u32) \<longleftrightarrow> 1518 < n"
    by (simp add: word_less_nat_alt unat_of_nat)
  then show ?thesis
    using payload_loop_nat [of 0 ops 0] assms Some n by (auto simp: check_stream_payload_def)
qed

end
