(* ===== verification/Acm_Examples.thy ===== *)
theory Acm_Examples
  imports Acm_Fsc_Limits Acm_Msgbuf_Spec Acm_Validate_Spec
begin

text \<open>
  A concrete environment and configurations on which the properties are exercised: every system
  call succeeds, there is no configuration file, the device has 64 message buffers in 8192 bytes of
  memory in blocks of 4 bytes and runs at 100 MHz.
\<close>

definition ex_env :: acm_env where
  "ex_env = \<lparr>env_alloc = (\<lambda>_. True), env_open = (\<lambda>_. 3), env_pwrite = (\<lambda>_ w. int (w_size w)),
     env_pread = (\<lambda>_ _ n _. Inr (replicate n 0)),
     env_text = (\<lambda>path.
       if path = ''/sys/devices/acm/status/msgbuf_memsize'' then Some ''8192''
       else if path = ''/sys/devices/acm/status/msgbuf_count'' then Some ''64''
       else if path = ''/sys/devices/acm/status/msgbuf_datawidth'' then Some ''4''
       else if path = ''/sys/devices/acm/status/rx_redundancy'' then Some ''1''
       else if path = ''/sys/devices/acm/status/time_freq'' then Some ''100000000'' else None),
     env_cfg_file = Inl 2, env_cfg_stack = [],
     env_mac = (\<lambda>_. Inr [0x02, 0, 0, 0, 0, 0x01])\<rparr>"

definition ex_empty :: acm_state where
  "ex_empty = \<lparr>st_env = ex_env, st_next = 0, st_streams = (\<lambda>_. None), st_modules = (\<lambda>_. None),
     st_configs = (\<lambda>_. None), st_scheds = (\<lambda>_. None), st_bufs = (\<lambda>_. None), st_hw = []\<rparr>"

text \<open>A module with a time triggered stream and two commands of its schedule entry.\<close>

definition ex_delay :: hw_dependent_delay where
  "ex_delay = schedule_delays_1GBps"

definition ex_module :: acm_module where
  "ex_module = \<lparr>mod_streams = [1], conn_mode = CONN_MODE_PARALLEL, mod_speed = SPEED_1GBps, module_id = 0,
     cycle_ns = 1000000, start_time = \<lparr>tv_sec = 0, tv_nsec = 0\<rparr>, config_reference = Some 3,
     fsc_list = [\<lparr>fsc_cmd = 0x02000005, abs_cycle = 10, schedule_reference = Some 2\<rparr>,
                 \<lparr>fsc_cmd = 0x02000005, abs_cycle = 70010, schedule_reference = Some 2\<rparr>],
     delays_100MBps = ex_delay, delays_1GBps = ex_delay, streams_locked = False\<rparr>"

definition ex_op :: "acm_operation_code \<Rightarrow> u16 \<Rightarrow> string option \<Rightarrow> u8 list \<Rightarrow> operation" where
  "ex_op code len nm data = \<lparr>opcode = code, op_offset = 0, op_length = len, buffer_name = nm, op_data = data,
     data_size = word_of_nat (length data), ownership_set = True, msg_buf = None, const_buff_offset = 0\<rparr>"

definition ex_stream :: acm_stream where
  "ex_stream = \<lparr>stype = TIME_TRIGGERED_STREAM, stream_lookup = None,
     operations = [ex_op INSERT_CONSTANT 6 None [1, 2, 3, 4, 5, 6], ex_op INSERT_CONSTANT 6 None [1, 2, 3, 4, 5, 7],
       ex_op INSERT_CONSTANT 4 None [0x81, 0, 0, 5], ex_op INSERT 60 (Some ''acm_tx'') []],
     windows = [2], reference = None, reference_parent = None, reference_redundant = None,
     indiv_recov_timeout_ms = 0, stream_list = Some 0, gather_dma_index = 2, scatter_dma_index = 0,
     redundand_index = 0, lookup_index = 0\<rparr>"

definition ex_state :: acm_state where
  "ex_state = ex_empty\<lparr>st_next := 4, st_streams := [1 \<mapsto> ex_stream], st_modules := [0 \<mapsto> ex_module],
     st_scheds := [2 \<mapsto> \<lparr>time_start_ns = 0, time_end_ns = 0, send_time_ns = 1000, period_ns = 500000,
       schedule_list = Some 1\<rparr>],
     st_configs := [3 \<mapsto> \<lparr>bypass = (\<lambda>i. if i = 0 then Some 0 else None), config_applied = False, msg_buffs = []\<rparr>]\<rparr>"

lemmas ex_defs = ex_env_def ex_empty_def ex_delay_def ex_module_def ex_op_def ex_stream_def ex_state_def

section \<open>Evaluation\<close>

lemmas strtoul_defs = c_strtoull0_def c_sign_def is_c_space_def c_strtoul_digits_def digits_value_def
  is_digit_of_def c_digit_def

lemmas recalculate_defs = clean_and_recalculate_hw_msg_buffs_def create_hw_msg_buf_list_def
  create_hw_msg_buf_list_module_def clean_bypass_links_def module_clean_msg_buff_links_def
  stream_clean_msg_buff_links_def msgbuf_op_def buffer_create_def buffer_blocks_def get_oplen_def
  buffer_add_list_def msgbuf_memory_def

lemmas sysfs_name_defs = ACMDEV_BASE_def STATUS_GROUP_def CONFIG_GROUP_def ACM_SYSFS_MSGBUF_SIZE_def
  ACM_SYSFS_MSGBUF_COUNT_def ACM_SYSFS_MSGBUF_DATAWIDTH_def ACM_SYSFS_RX_REDUNDANCY_def

lemma ex_status:
  assumes "st_env s = ex_env"
  shows "get_int32_status_value ACM_SYSFS_MSGBUF_SIZE s = 8192"
    "get_int32_status_value ACM_SYSFS_MSGBUF_COUNT s = 64"
    "get_int32_status_value ACM_SYSFS_MSGBUF_DATAWIDTH s = 4"
    "get_int32_status_value ACM_SYSFS_RX_REDUNDANCY s = 1"
    "calc_tick_duration s = 10"
  using assms
  by (simp_all add: get_int32_status_value_def read_uint64_sysfs_item_def status_read_time_freq_def
      calc_tick_duration_def sysfs_construct_path_name_def strtoul_defs ex_env_def sysfs_name_defs)

lemma ex_state_env [simp]: "st_env ex_state = ex_env"
  by (simp add: ex_state_def ex_empty_def)

end
