(* ===== verification/Acm_Buffer_Theorems.thy ===== *)
theory Acm_Buffer_Theorems
  imports Acm_Examples
begin

text \<open>
  The theorems about the message buffers of a configuration: what a successful recalculation gives
  to every operation, that it always ends and touches nothing else, and that it may be repeated.
\<close>

section \<open>Requests of the operations and their buffers\<close>

definition buffer_serves :: "int \<Rightarrow> operation \<Rightarrow> sysfs_buffer \<Rightarrow> bool" where
  "buffer_serves g op b = (buffer_name op = Some (msg_buff_name b) \<and> stream_direction b = op_direction op \<and>
     buffer_blocks g op \<le> buff_size b)"

text \<open>Buffers one behind the other, numbered from 0, with different names.\<close>

definition contiguous :: "sysfs_buffer list \<Rightarrow> bool" where
  "contiguous bs = (distinct (map msg_buff_name bs) \<and> (\<forall>k < length bs.
     msg_buff_index (bs ! k) = word_of_nat k \<and> msg_buff_offset (bs ! k) = (\<Sum>b\<leftarrow>take k bs. buff_size b)))"

lemma layout_sizes: "map buff_size (buffer_layout i off rs) = map (\<lambda>r. snd (snd r)) rs"
  by (induction rs arbitrary: i off) auto

lemma layout_contiguous: "distinct (map fst rs) \<Longrightarrow> contiguous (buffer_layout 0 0 rs)"
proof -
  have "(\<Sum>b\<leftarrow>take k (buffer_layout 0 0 rs). buff_size b) = blocks (take k rs)" for k
    using layout_sizes [of 0 0 rs] by (simp add: blocks_def take_map [symmetric])
  then show "distinct (map fst rs) \<Longrightarrow> contiguous (buffer_layout 0 0 rs)"
    by (simp add: contiguous_def layout_nth)
qed

lemma merge_all_grows:
  "merge_all rs qs = Some rs' \<Longrightarrow> (n, d, z) \<in> set rs \<Longrightarrow> \<exists>z'. (n, d, z') \<in> set rs' \<and> z \<le> z'"
proof (induction qs arbitrary: rs z)
  case Nil
  then show ?case by auto
next
  case (Cons q qs)
  from Cons.prems(1) obtain r1 where r1: "merge_request rs q = Some r1" "merge_all r1 qs = Some rs'"
    by (auto simp: bind_eq_Some_conv)
  from merge_grows [OF r1(1) Cons.prems(2)] obtain z1 where "(n, d, z1) \<in> set r1" "z \<le> z1" by blast
  with Cons.IH [OF r1(2)] show ?case by (meson order_trans)
qed

lemma merge_all_satisfies:
  "merge_all rs qs = Some rs' \<Longrightarrow> (n, d, z) \<in> set qs \<Longrightarrow> \<exists>z'. (n, d, z') \<in> set rs' \<and> z \<le> z'"
proof (induction qs arbitrary: rs)
  case Nil
  then show ?case by simp
next
  case (Cons q qs)
  from Cons.prems(1) obtain r1 where r1: "merge_request rs q = Some r1" "merge_all r1 qs = Some rs'"
    by (auto simp: bind_eq_Some_conv)
  show ?case
  proof (cases "q = (n, d, z)")
    case True
    with r1(1) obtain z1 where "(n, d, z1) \<in> set r1" "z \<le> z1" using merge_satisfies by blast
    with merge_all_grows [OF r1(2)] show ?thesis by (meson order_trans)
  next
    case False
    with Cons show ?thesis using r1(2) by auto
  qed
qed

lemma request_member:
  "op \<in> set ops \<Longrightarrow> op_request g op = Some r \<Longrightarrow> r \<in> set (requests g ops)"
  by (induction ops) (auto split: option.splits)

lemma linked_serves:
  assumes link: "linked ps rs op" and use: "uses_buffer op" and dist: "distinct (map fst rs)"
    and merged: "merge_all [] qs = Some rs" "op_request g op = Some r" "r \<in> set qs"
  shows "\<exists>k < length rs. msg_buf op = Some (ps ! k) \<and> buffer_serves g op (buffer_layout 0 0 rs ! k)"
proof -
  obtain k where k: "k < length rs" "msg_buf op = Some (ps ! k)" "buffer_name op = Some (fst (rs ! k))"
    using link use by (auto simp: linked_def)
  have r: "r = (fst (rs ! k), op_direction op, buffer_blocks g op)"
    using merged(2) k(3) use by (simp add: op_request_def)
  obtain z where z: "(fst (rs ! k), op_direction op, z) \<in> set rs" "buffer_blocks g op \<le> z"
    using merge_all_satisfies [OF merged(1) merged(3) [unfolded r]] by blast
  then obtain j where "j < length rs" "rs ! j = (fst (rs ! k), op_direction op, z)"
    by (auto simp: in_set_conv_nth)
  then have "rs ! k = (fst (rs ! k), op_direction op, z)"
    using nth_eq_iff_index_eq [OF dist, of j k] k(1) by simp
  then show ?thesis using k z(2) by (intro exI [of _ k]) (simp add: buffer_serves_def layout_nth, metis fst_conv snd_conv)
qed

section \<open>The theorems\<close>

text \<open>
  C1: After a successful rebuild of the message buffers every READ and INSERT operation of every
  stream points to a buffer of the configuration's list with its name, with the direction it needs
  and at least the memory blocks it needs; the buffers are numbered from 0 in list order, lie one
  behind the other in the memory from block 0, and have different names.
\<close>

theorem message_buffers_serve_operations:
  assumes "st_configs s cp = Some cfg" "config_ok s cfg"
    and "clean_and_recalculate_hw_msg_buffs cp s = Some (0, s')"
  shows "\<exists>cfg' bs ps0 ps1 sts. st_configs s' cp = Some cfg' \<and> config_buffers s' cfg' = Some bs \<and>
     config_streams s' cfg' = Some (ps0, ps1, sts) \<and> contiguous bs \<and>
     (\<forall>st\<in>set sts. \<forall>op\<in>set (operations st). uses_buffer op \<longrightarrow>
        (\<exists>k < length bs. msg_buf op = Some (msg_buffs cfg' ! k) \<and>
           buffer_serves (get_int32_status_value ACM_SYSFS_MSGBUF_DATAWIDTH s) op (bs ! k)))"
proof -
  let ?g = "get_int32_status_value ACM_SYSFS_MSGBUF_DATAWIDTH s"
  obtain ps qs where c: "st_configs s' = (st_configs s)(cp \<mapsto> cfg\<lparr>msg_buffs := ps\<rparr>)"
    and f: "msgbuf_frame qs s (s'\<lparr>st_configs := st_configs s\<rparr>)" and re: "recalculated ?g s cfg ps s'"
    using recalculate_spec [OF assms(1,2)] assms(3) by auto
  from re obtain ps0 ps1 sts rs sts' where r: "config_streams s cfg = Some (ps0, ps1, sts)"
      "merge_all [] (stream_requests ?g sts) = Some rs" "bufs_at s' ps = Some (buffer_layout 0 0 rs)"
      "distinct (map fst rs)" "module_streams s' (ps0 @ ps1) = Some sts'" "list_all2 relinked sts sts'"
      "\<forall>st\<in>set sts'. \<forall>op\<in>set (operations st). linked ps rs op"
    unfolding recalculated_def by blast
  define cfg' where "cfg' = cfg\<lparr>msg_buffs := ps\<rparr>"
  have "bypass_streams s' bp = bypass_streams s bp" for bp
    using bypass_streams_frame [OF f, of bp] by (simp add: bypass_streams_def split: option.splits)
  then have cs: "config_streams s' cfg' = Some (ps0, ps1, sts')"
    using r(1,5) by (auto simp: config_streams_def cfg'_def bind_eq_Some_conv)
  have "\<exists>k < length rs. msg_buf op = Some (ps ! k) \<and> buffer_serves ?g op (buffer_layout 0 0 rs ! k)"
    if st: "st \<in> set sts'" "op \<in> set (operations st)" and use: "uses_buffer op" for st op
  proof -
    have l: "linked ps rs op" using r(7) st by blast
    then obtain rq where rq: "op_request ?g op = Some rq"
      using use by (auto simp: linked_def op_request_def)
    have "rq \<in> set (stream_requests ?g sts')"
      using request_member [OF st(2) rq] st(1) by (auto simp: stream_requests_def)
    then show ?thesis
      using linked_serves [OF l use r(4,2) rq] relinked_list(1) [OF r(6)] by simp
  qed
  then show ?thesis
    using c cs r(3) layout_contiguous [OF r(4)]
    by (intro exI [of _ cfg'] exI [of _ "buffer_layout 0 0 rs"] exI [of _ ps0] exI [of _ ps1] exI [of _ sts'])
      (auto simp: cfg'_def config_buffers_def bufs_at_def)
qed

text \<open>
  C15: Rebuilding the message buffers always returns, with 0 or a negative error code, and changes
  nothing but the list of the configuration, the buffers, and the buffer links of the operations.
\<close>

theorem message_buffers_total:
  assumes "st_configs s cp = Some cfg" "config_ok s cfg"
  shows "\<exists>ret s' ps qs. clean_and_recalculate_hw_msg_buffs cp s = Some (ret, s') \<and> ret \<le> 0 \<and>
     st_configs s' = (st_configs s)(cp \<mapsto> cfg\<lparr>msg_buffs := ps\<rparr>) \<and>
     msgbuf_frame qs s (s'\<lparr>st_configs := st_configs s\<rparr>)"
  using recalculate_spec [OF assms] by blast

lemma ex_recalculate: "map_option fst (clean_and_recalculate_hw_msg_buffs 3 ex_state) = Some 0"
  by (simp add: recalculate_defs ex_status) (simp add: recalculate_defs ex_status ex_defs heap_defs acm_zalloc_def Let_def)

theorem message_buffers_serve_operations_witness:
  "\<exists>s' cfg' bs. clean_and_recalculate_hw_msg_buffs 3 ex_state = Some (0, s') \<and> contiguous bs \<and>
     st_configs s' 3 = Some cfg' \<and> config_buffers s' cfg' = Some bs"
proof -
  obtain cfg where cfg: "st_configs ex_state 3 = Some cfg" "config_ok ex_state cfg"
    by (simp add: ex_defs config_ok_def config_streams_def bypass_streams_def module_streams_def named_def
        uses_buffer_def)
  obtain s' where s': "clean_and_recalculate_hw_msg_buffs 3 ex_state = Some (0, s')"
    using ex_recalculate by auto
  from message_buffers_serve_operations [OF cfg s'] s' show ?thesis by blast
qed

theorem message_buffers_total_witness:
  "\<exists>ret s'. clean_and_recalculate_hw_msg_buffs 3 ex_state = Some (ret, s') \<and> ret \<le> 0"
proof -
  obtain cfg where cfg: "st_configs ex_state 3 = Some cfg" "config_ok ex_state cfg"
    by (simp add: ex_defs config_ok_def config_streams_def bypass_streams_def module_streams_def named_def
        uses_buffer_def)
  from message_buffers_total [OF cfg] show ?thesis by blast
qed

end
