(* ===== verification/Acm_Schedule_Theorems.thy ===== *)
theory Acm_Schedule_Theorems
  imports Acm_Examples
begin

text \<open>
  The theorems about the schedule of a module: the commands that are created from a schedule entry,
  and the table that the hardware gets.
\<close>

section \<open>The commands of a schedule entry\<close>

definition event_early :: "schedule_entry \<Rightarrow> hw_dependent_delay \<Rightarrow> int \<Rightarrow> bool" where
  "event_early w d i = (uint (send_time_ns w + word_of_int i * period_ns w) < uint (chip_eg d + phy_eg d))"

definition event_cmd :: "schedule_entry \<Rightarrow> addr \<Rightarrow> hw_dependent_delay \<Rightarrow> int \<Rightarrow> u32 \<Rightarrow> int \<Rightarrow> fsc_command" where
  "event_cmd w sp d tick cmd i = \<lparr>fsc_cmd = cmd, abs_cycle = word_of_int (div_round_closest
     (uint (send_time_ns w + word_of_int i * period_ns w - chip_eg d - phy_eg d)) tick),
     schedule_reference = Some sp\<rparr>"

lemma mset_add_fsc [simp]: "mset (add_fsc_to_module_sorted fscs c) = add_mset c (mset fscs)"
  by (rule add_fsc_mset)

text \<open>
  The commands that a run over the events adds are those of the first numbers that are not too
  early, as many as there are periods in the cycle.
\<close>

definition events_upto :: "schedule_entry \<Rightarrow> hw_dependent_delay \<Rightarrow> int \<Rightarrow> int \<Rightarrow> int list" where
  "events_upto w d i N = filter (\<lambda>j. \<not> event_early w d j) [i..N - 1]"

lemma events_upto_rec:
  "events_upto w d i N = (if N \<le> i then [] else if event_early w d i then events_upto w d (i + 1) N
     else i # events_upto w d (i + 1) N)"
  by (simp add: events_upto_def upto_rec1)

lemma event_loop_commands:
  "event_loop w sp d tick cmd i n fscs s = Some (0, fscs', s') \<Longrightarrow>
   \<exists>N\<ge>i. length (events_upto w d i N) = nat (n - i) \<and>
     mset fscs' = mset fscs + mset (map (event_cmd w sp d tick cmd) (events_upto w d i N))"
proof (induction w sp d tick cmd i n fscs s rule: event_loop.induct)
  case (1 w sp d tick cmd i n fscs s)
  define t where "t = send_time_ns w + word_of_int i * period_ns w"
  define hlp where "hlp = uint t - uint (chip_eg d + phy_eg d)"
  have early: "event_early w d i \<longleftrightarrow> hlp < 0" by (auto simp: event_early_def hlp_def t_def)
  note first = events_upto_rec [of w d i]
  show ?case
  proof (cases "n \<le> i")
    case True
    then show ?thesis using "1.prems" by (subst (asm) event_loop.simps) (auto intro!: exI [of _ i] simp: first [of i])
  next
    case more: False
    show ?thesis
    proof (cases "hlp < 0")
      case True
      with more "1.prems" have "event_loop w sp d tick cmd (i + 1) (n + 1) fscs s = Some (0, fscs', s')"
        and "\<not> INT_MAX \<le> n"
        by (subst (asm) event_loop.simps, simp add: Let_def t_def hlp_def split: if_splits)+
      from "1.IH"(1) [OF more t_def hlp_def True this(2,1)] obtain N where
        N: "i + 1 \<le> N" "length (events_upto w d (i + 1) N) = nat (n - i)"
          "mset fscs' = mset fscs + mset (map (event_cmd w sp d tick cmd) (events_upto w d (i + 1) N))"
        by auto
      then show ?thesis using early True by (intro exI [of _ N]) (simp add: first [of N])
    next
      case late: False
      have tick: "tick \<noteq> 0"
        using more late "1.prems" by (subst (asm) event_loop.simps, auto simp: Let_def t_def hlp_def split: if_splits)
      obtain a s1 where z: "acm_zalloc s = (Some a, s1)"
        using more late tick "1.prems"
        by (subst (asm) event_loop.simps) (auto simp: Let_def t_def hlp_def split: prod.splits option.splits)
      have rec: "event_loop w sp d tick cmd (i + 1) n
          (add_fsc_to_module_sorted fscs (event_cmd w sp d tick cmd i)) s1 = Some (0, fscs', s')"
        using more late tick z "1.prems"
        by (subst (asm) event_loop.simps) (simp add: Let_def t_def hlp_def event_cmd_def)
      have ec: "event_cmd w sp d tick cmd i = \<lparr>fsc_cmd = cmd, abs_cycle = word_of_int (div_round_closest
          (uint (t - chip_eg d - phy_eg d)) tick), schedule_reference = Some sp\<rparr>"
        by (simp add: event_cmd_def t_def)
      from "1.IH"(2) [OF more t_def hlp_def late tick z [symmetric] refl refl, OF rec [unfolded ec]]
      obtain N where
        N: "i + 1 \<le> N" "length (events_upto w d (i + 1) N) = nat (n - (i + 1))"
          "mset fscs' = mset fscs + mset (map (event_cmd w sp d tick cmd) (i # events_upto w d (i + 1) N))"
        by (auto simp: ec [symmetric])
      then show ?thesis using early late more
        by (intro exI [of _ N]) (simp add: first [of N] nat_diff_distrib)
    qed
  qed
qed

definition window_cmds :: "acm_module \<Rightarrow> schedule_entry \<Rightarrow> addr \<Rightarrow> hw_dependent_delay \<Rightarrow> int \<Rightarrow> u32 \<Rightarrow> u32 \<Rightarrow>
    int \<Rightarrow> fsc_command list" where
  "window_cmds m w sp d tick oc cc i = (case window_start m d (word_of_int tick) w i of
     None \<Rightarrow> []
   | Some a \<Rightarrow>
       [\<lparr>fsc_cmd = oc, abs_cycle = wrap_cycle (cycle_ns m) (word_of_int tick) a, schedule_reference = Some sp\<rparr>,
        \<lparr>fsc_cmd = cc, abs_cycle = wrap_cycle (cycle_ns m) (word_of_int tick) (window_end d tick w i),
          schedule_reference = Some sp\<rparr>])"

lemma window_loop_commands:
  "window_loop m w sp d tick oc cc i n fscs s = (0, fscs', s') \<Longrightarrow>
   mset fscs' = mset fscs + mset (concat (map (window_cmds m w sp d tick oc cc) [i..n - 1])) \<and>
   (i < n \<longrightarrow> conn_mode m \<noteq> CONN_MODE_OTHER)"
proof (induction m w sp d tick oc cc i n fscs s rule: window_loop.induct)
  case (1 m w sp d tick oc cc i n fscs s)
  show ?case
  proof (cases "n \<le> i")
    case True
    then show ?thesis using "1.prems" by (subst (asm) window_loop.simps) auto
  next
    case False
    obtain b s1 where z1: "acm_zalloc s = (Some b, s1)"
      using False "1.prems" by (subst (asm) window_loop.simps) (auto split: prod.splits option.splits)
    obtain a where a: "window_start m d (word_of_int tick) w i = Some a"
      using False z1 "1.prems" by (subst (asm) window_loop.simps) (auto split: option.splits)
    obtain b2 s2 where z2: "acm_zalloc s1 = (Some b2, s2)"
      using False z1 a "1.prems" by (subst (asm) window_loop.simps) (auto simp: Let_def split: prod.splits option.splits)
    define c1 where "c1 = \<lparr>fsc_cmd = oc, abs_cycle = wrap_cycle (cycle_ns m) (word_of_int tick) a,
      schedule_reference = Some sp\<rparr>"
    define c2 where "c2 = \<lparr>fsc_cmd = cc, abs_cycle = wrap_cycle (cycle_ns m) (word_of_int tick)
      (window_end d tick w i), schedule_reference = Some sp\<rparr>"
    have rec: "window_loop m w sp d tick oc cc (i + 1) n
        (add_fsc_to_module_sorted (add_fsc_to_module_sorted fscs c1) c2) s2 = (0, fscs', s')"
      using False z1 z2 a "1.prems" by (subst (asm) window_loop.simps, simp add: Let_def c1_def c2_def)
    note ih = "1.IH" [OF False z1 [symmetric] refl a refl z2 [symmetric] refl,
        folded c1_def, folded c2_def, OF rec]
    have "window_cmds m w sp d tick oc cc i = [c1, c2]" by (simp add: window_cmds_def a c1_def c2_def)
    moreover have "[i..n - 1] = i # [i + 1..n - 1]" using False by (simp add: upto_rec1)
    moreover have "conn_mode m \<noteq> CONN_MODE_OTHER" using a by (auto simp: window_start_def)
    ultimately show ?thesis using ih by simp
  qed
qed

text \<open>
  The times of a window in nanoseconds from the start of the cycle, without bounds: it opens after
  the delays of chip and PHY (and of the switch in a serial connection) and closes after the delays
  of chip and PHY. A time in ticks behind the end of the cycle belongs to the next one.
\<close>

definition in_cycle :: "nat \<Rightarrow> nat \<Rightarrow> nat" where
  "in_cycle c t = (if c \<le> t then t - c else t)"

definition open_ns :: "acm_module \<Rightarrow> hw_dependent_delay \<Rightarrow> schedule_entry \<Rightarrow> nat \<Rightarrow> nat" where
  "open_ns m d w i = unat (time_start_ns w) + i * unat (period_ns w) + unat (chip_in d) + unat (phy_in d) +
     (if conn_mode m = CONN_MODE_SERIAL then unat (ser_switch d) else 0)"

definition close_ns :: "hw_dependent_delay \<Rightarrow> schedule_entry \<Rightarrow> nat \<Rightarrow> nat" where
  "close_ns d w i = unat (time_end_ns w) + i * unat (period_ns w) + unat (chip_in d) + unat (phy_in d)"

lemma unat_small: "n < 2 ^ 32 \<Longrightarrow> unat (word_of_nat n :: u32) = n"
  by (simp add: unat_of_nat)

lemma wrap_cycle_exact:
  assumes "t < 2 ^ 32" "0 < tick" "tick < 2 ^ 32"
  shows "wrap_cycle c (word_of_nat tick) (word_of_nat t) = word_of_nat (in_cycle (unat c div tick) t)"
proof -
  have u: "unat (c div word_of_nat tick) = unat c div tick"
    using unat_small [OF assms(3)] by (simp add: unat_div)
  then have le: "c div word_of_nat tick \<le> word_of_nat t \<longleftrightarrow> unat c div tick \<le> t"
    by (simp only: word_le_nat_alt unat_small [OF assms(1)])
  have "c div word_of_nat tick = word_of_nat (unat c div tick)" by (simp add: u [symmetric])
  then have "word_of_nat t - c div word_of_nat tick = word_of_nat (t - unat c div tick)" if "unat c div tick \<le> t"
    using that by (simp add: of_nat_diff)
  then show ?thesis unfolding wrap_cycle_def in_cycle_def le by simp
qed

lemma window_cmds_exact:
  assumes mode: "conn_mode m \<noteq> CONN_MODE_OTHER" and tick: "0 < tick" "tick < 2 ^ 31"
    and small: "open_ns m d w i < 2 ^ 32" "close_ns d w i < 2 ^ 32"
  shows "window_cmds m w sp d (int tick) oc cc (int i) =
    [\<lparr>fsc_cmd = oc, abs_cycle = word_of_nat (in_cycle (unat (cycle_ns m) div tick) (open_ns m d w i div tick)),
       schedule_reference = Some sp\<rparr>,
     \<lparr>fsc_cmd = cc, abs_cycle = word_of_nat (in_cycle (unat (cycle_ns m) div tick) ((close_ns d w i + tick - 1) div tick)),
       schedule_reference = Some sp\<rparr>]"
proof -
  have wo: "word_of_nat (open_ns m d w i) = (if conn_mode m = CONN_MODE_SERIAL
      then time_start_ns w + word_of_int (int i) * period_ns w + chip_in d + phy_in d + ser_switch d
      else time_start_ns w + word_of_int (int i) * period_ns w + chip_in d + phy_in d)"
    by (simp add: open_ns_def)
  have wc: "time_end_ns w + word_of_int (int i) * period_ns w + chip_in d + phy_in d = word_of_nat (close_ns d w i)"
    by (simp add: close_ns_def)
  have t: "word_of_int (int tick) = (word_of_nat tick :: u32)" by simp
  have ut: "unat (word_of_nat tick :: u32) = tick" using tick(2) by (intro unat_small) simp
  have s: "window_start m d (word_of_int (int tick)) w (int i) = Some (word_of_nat (open_ns m d w i div tick))"
  proof -
    have "window_start m d (word_of_int (int tick)) w (int i) = Some (word_of_nat (open_ns m d w i) div word_of_nat tick)"
      using mode unfolding wo by (cases "conn_mode m") (simp_all add: window_start_def)
    moreover have "(word_of_nat (open_ns m d w i) :: u32) div word_of_nat tick = word_of_nat (open_ns m d w i div tick)"
    proof (rule word_unat_eq_iff [THEN iffD2])
      have "open_ns m d w i div tick < 2 ^ 32" using div_le_dividend [of "open_ns m d w i" tick] small(1) by linarith
      then show "unat ((word_of_nat (open_ns m d w i) :: u32) div word_of_nat tick) = unat (word_of_nat (open_ns m d w i div tick) :: u32)"
        by (simp only: unat_div ut unat_small [OF small(1)] unat_small)
    qed
    ultimately show ?thesis by simp
  qed
  have e: "window_end d (int tick) w (int i) = word_of_nat ((close_ns d w i + tick - 1) div tick)"
  proof -
    have u: "uint (word_of_nat (close_ns d w i) :: u32) = int (close_ns d w i)"
      using unat_small [OF small(2)] by (simp only: uint_nat)
    have "int (close_ns d w i) + int tick - 1 = int (close_ns d w i + tick - 1)" using tick(1) by simp
    moreover have "c_div (int a) (int tick) = int (a div tick)" for a
      using c_div_nonneg [of "int a" "int tick"] tick(1) by (simp only: zdiv_int)
    ultimately show ?thesis
      unfolding window_end_def wc u div_round_up_def by (simp only: of_int_of_nat_eq)
  qed
  have b: "open_ns m d w i div tick < 2 ^ 32" "(close_ns d w i + tick - 1) div tick < 2 ^ 32"
  proof -
    show "open_ns m d w i div tick < 2 ^ 32" using div_le_dividend [of "open_ns m d w i" tick] small(1) by linarith
    have "(close_ns d w i + tick - 1) div tick \<le> close_ns d w i"
      if "0 < close_ns d w i"
    proof -
      have "1 * close_ns d w i \<le> tick * close_ns d w i" using tick(1) by (intro mult_le_mono1) simp
      then have "close_ns d w i + tick - 1 < tick * (close_ns d w i + 1)"
        unfolding distrib_left using tick(1) that by linarith
      then show ?thesis using tick(1) by (metis div_less_iff_less_mult mult.commute Suc_eq_plus1 less_Suc_eq_le)
    qed
    then show "(close_ns d w i + tick - 1) div tick < 2 ^ 32" using small(2) tick(1) by (cases "close_ns d w i = 0") auto
  qed
  show ?thesis
    unfolding window_cmds_def s e option.case
    using wrap_cycle_exact [OF b(1) tick(1)] wrap_cycle_exact [OF b(2) tick(1)] tick(2) by simp
qed

lemma int_upto_upt: "[0..n - 1] = map int [0..<nat n]"
proof -
  have "[0..int k - 1] = map int [0..<k]" for k
    by (induction k) (simp_all add: upto_rec2)
  from this [of "nat n"] show ?thesis by (cases "0 \<le> n") simp_all
qed

section \<open>Theorems about creation\<close>

text \<open>
  C23: Creating the events of a schedule entry either fails with -ENOMEM or adds to the list of the
  module exactly one command for each of the first event numbers, counted from zero, whose event
  does not lie before the start of the cycle, as many as the cycle has periods; each command is at
  the rounded time of its event in ticks. The list stays sorted and nothing else of the state
  changes.
\<close>

theorem create_event_adds_commands:
  assumes "create_event_sysfs_items sp mp tick gi ri s = Some (ret, s')"
    and "st_scheds s sp = Some w" "st_modules s mp = Some m" "module_delays m (mod_speed m) = Some d"
  shows "\<exists>fscs k. s' = s\<lparr>st_next := k, st_modules := (st_modules s)(mp \<mapsto> m\<lparr>fsc_list := fscs\<rparr>)\<rparr> \<and>
     (sorted_fscs (fsc_list m) \<longrightarrow> sorted_fscs fscs) \<and> (ret = 0 \<or> ret = - ENOMEM) \<and>
     (ret = 0 \<longrightarrow> (\<exists>N js. js = filter (\<lambda>j. \<not> event_early w d j) [0..N - 1] \<and>
        length js = nat (schedule_items (cycle_ns m) (period_ns w)) \<and>
        mset fscs = mset (fsc_list m) + mset (map (event_cmd w sp d tick
          (acmdrv_sched_tbl_cmd_create gi 0 ri TRIG_MODE_STAND_ALONE False False False False)) js)))"
proof -
  let ?cmd = "acmdrv_sched_tbl_cmd_create gi 0 ri TRIG_MODE_STAND_ALONE False False False False"
  obtain fscs s1 where l: "event_loop w sp d tick ?cmd 0 (schedule_items (cycle_ns m) (period_ns w))
        (fsc_list m) s = Some (ret, fscs, s1)"
      and up: "mod_module mp (\<lambda>m. m\<lparr>fsc_list := fscs\<rparr>) s1 = Some s'"
    using assms by (auto simp: create_event_sysfs_items_def bind_eq_Some_conv split: if_splits)
  note props = event_loop_props [OF l]
  obtain k where s1: "s1 = s\<lparr>st_next := k\<rparr>" using props by blast
  have "s' = s\<lparr>st_next := k, st_modules := (st_modules s)(mp \<mapsto> m\<lparr>fsc_list := fscs\<rparr>)\<rparr>"
    using up assms(3) by (auto simp: mod_module_Some_iff s1)
  moreover have "ret = 0 \<longrightarrow> (\<exists>N js. js = filter (\<lambda>j. \<not> event_early w d j) [0..N - 1] \<and>
        length js = nat (schedule_items (cycle_ns m) (period_ns w)) \<and>
        mset fscs = mset (fsc_list m) + mset (map (event_cmd w sp d tick ?cmd) js))"
    using event_loop_commands [where i = 0] l unfolding events_upto_def by fastforce
  ultimately show ?thesis using props by blast
qed

text \<open>
  C24: Creating the commands of a receive window either fails with -ENOMEM or -EACMINTERNAL or adds to
  the list of the module two commands for each period of the cycle. When the times fit into 32 bits
  these are, for every period from number 0 on, exactly one that opens the window at its start,
  delayed as the connection demands and rounded down to a tick, and one that closes it at its
  delayed end, rounded up to a tick; a tick behind the end of the cycle is moved into the cycle.
  The list stays sorted and nothing else of the state changes.
\<close>

theorem create_window_adds_commands:
  assumes "create_window_sysfs_items sp mp tick gi li recovery s = Some (ret, s')"
    and "st_scheds s sp = Some w" "st_modules s mp = Some m" "module_delays m (mod_speed m) = Some d"
    and "0 < tick" "tick < 2 ^ 31"
  defines "n \<equiv> nat (schedule_items (cycle_ns m) (period_ns w))"
    and "wrapped \<equiv> \<lambda>t. word_of_nat (in_cycle (unat (cycle_ns m) div nat tick) t)"
    and "open_cmd \<equiv> acmdrv_sched_tbl_cmd_create 0 li 0 TRIG_MODE_NO_TRIG False True False False"
    and "close_cmd \<equiv> (if recovery then acmdrv_sched_tbl_cmd_create gi li 0 TRIG_MODE_FIRST_STAGE True False False False
         else acmdrv_sched_tbl_cmd_create 0 li 0 TRIG_MODE_NO_TRIG True False False False)"
  shows "\<exists>fscs k. s' = s\<lparr>st_next := k, st_modules := (st_modules s)(mp \<mapsto> m\<lparr>fsc_list := fscs\<rparr>)\<rparr> \<and>
     (sorted_fscs (fsc_list m) \<longrightarrow> sorted_fscs fscs) \<and> (ret = 0 \<or> ret = - ENOMEM \<or> ret = - EACMINTERNAL) \<and>
     (ret = 0 \<longrightarrow> length fscs = length (fsc_list m) + 2 * n \<and>
       ((\<forall>i<n. open_ns m d w i < 2 ^ 32 \<and> close_ns d w i < 2 ^ 32) \<longrightarrow>
        mset fscs = mset (fsc_list m) +
          mset (map (\<lambda>i. \<lparr>fsc_cmd = open_cmd, abs_cycle = wrapped (open_ns m d w i div nat tick), schedule_reference = Some sp\<rparr>) [0..<n]) +
          mset (map (\<lambda>i. \<lparr>fsc_cmd = close_cmd, abs_cycle = wrapped ((close_ns d w i + nat tick - 1) div nat tick),
            schedule_reference = Some sp\<rparr>) [0..<n])))"
proof -
  obtain fscs s1 where l: "window_loop m w sp d tick open_cmd close_cmd 0 (schedule_items (cycle_ns m) (period_ns w))
        (fsc_list m) s = (ret, fscs, s1)"
      and up: "mod_module mp (\<lambda>m. m\<lparr>fsc_list := fscs\<rparr>) s1 = Some s'"
    using assms(1-4) unfolding create_window_sysfs_items_def open_cmd_def close_cmd_def
    by (auto simp: bind_eq_Some_conv Let_def split: if_splits prod.splits)
  note props = window_loop_props [OF l]
  obtain k where s1: "s1 = s\<lparr>st_next := k\<rparr>" using props by blast
  have s': "s' = s\<lparr>st_next := k, st_modules := (st_modules s)(mp \<mapsto> m\<lparr>fsc_list := fscs\<rparr>)\<rparr>"
    using up assms(3) by (auto simp: mod_module_Some_iff s1)
  define os where "os i = \<lparr>fsc_cmd = open_cmd, abs_cycle = wrapped (open_ns m d w i div nat tick), schedule_reference = Some sp\<rparr>" for i
  define cs where "cs i = \<lparr>fsc_cmd = close_cmd, abs_cycle = wrapped ((close_ns d w i + nat tick - 1) div nat tick),
    schedule_reference = Some sp\<rparr>" for i
  have "mset fscs = mset (fsc_list m) + mset (map os [0..<n]) + mset (map cs [0..<n])"
    if r: "ret = 0" and small: "\<forall>i<n. open_ns m d w i < 2 ^ 32 \<and> close_ns d w i < 2 ^ 32"
  proof -
    from window_loop_commands [OF l [unfolded r]]
    have c: "mset fscs = mset (fsc_list m) + mset (concat (map (\<lambda>i. window_cmds m w sp d tick open_cmd close_cmd (int i)) [0..<n]))"
      and mode: "0 < n \<longrightarrow> conn_mode m \<noteq> CONN_MODE_OTHER"
      by (simp_all add: int_upto_upt n_def o_def)
    have "window_cmds m w sp d tick open_cmd close_cmd (int i) = [os i, cs i]" if "i < n" for i
      using window_cmds_exact [of m "nat tick" d w i sp open_cmd close_cmd] mode small that assms(5,6)
      by (simp add: os_def cs_def wrapped_def)
    then have "map (\<lambda>i. window_cmds m w sp d tick open_cmd close_cmd (int i)) [0..<n] = map (\<lambda>i. [os i, cs i]) [0..<n]"
      by (intro map_cong) simp_all
    moreover have "mset (concat (map (\<lambda>i. [os i, cs i]) xs)) = mset (map os xs) + mset (map cs xs)" for xs
      by (induction xs) simp_all
    ultimately show ?thesis by (simp only: c add.assoc)
  qed
  then show ?thesis
    using props s' unfolding os_def cs_def n_def by (intro exI [of _ fscs] exI [of _ k]) simp
qed

section \<open>Theorems about the table\<close>

text \<open>The rows that are written are those of the refreshed commands.\<close>

lemma fsc_written_rows:
  assumes "write_fsc_schedules_to_HW mp ti s = Some (ret, s')" "0 \<le> ret" "st_modules s mp = Some m"
    and "sorted_fscs (fsc_list m)" "\<forall>c\<in>set (fsc_list m). active_cmd (fsc_cmd c)"
  obtains fscs where "st_modules s' = (st_modules s)(mp \<mapsto> m\<lparr>fsc_list := fscs\<rparr>)"
    "st_hw s' = st_hw s @ rows_at (module_id m) ti 0 (fsc_rows fscs)"
    "list_all2 (refreshed s) (fsc_list m) fscs" "map abs_cycle fscs = map abs_cycle (fsc_list m)"
    "commands (hw_exec 0 (fsc_rows fscs)) = map (\<lambda>c. (unat (abs_cycle c), fsc_cmd c)) fscs"
proof -
  obtain fscs s1 where w: "fsc_write_list (module_id m) ti (fsc_list m) s = Some (ret, fscs, s1)"
      and up: "mod_module mp (\<lambda>m. m\<lparr>fsc_list := fscs\<rparr>) s1 = Some s'"
    using assms(1-3) by (auto simp: write_fsc_schedules_to_HW_def bind_eq_Some_conv split: if_splits)
  have l: "s1 = logged s (rows_at (module_id m) ti 0 (fsc_rows fscs))"
      and times: "map abs_cycle fscs = map abs_cycle (fsc_list m)"
    using fsc_write_list_logged [OF w assms(2)] by auto
  have ref: "list_all2 (refreshed s) (fsc_list m) fscs"
    by (rule fsc_write_list_refreshed [OF w assms(2)])
  then have "\<forall>c\<in>set fscs. fsc_cmd c \<noteq> NOP_CMD"
    using assms(5) by (rule refreshed_not_NOP)
  moreover have "sorted_fscs fscs" using assms(4) times by (simp add: sorted_fscs_def)
  ultimately have "commands (hw_exec 0 (fsc_rows fscs)) = map (\<lambda>c. (unat (abs_cycle c), fsc_cmd c)) fscs"
    by (intro fsc_rows_exec)
  moreover have "st_modules s' = (st_modules s)(mp \<mapsto> m\<lparr>fsc_list := fscs\<rparr>)" "st_hw s' = st_hw s1"
    using up assms(3) by (auto simp: mod_module_Some_iff l)
  ultimately show thesis using ref times l by (intro that [of fscs]) simp_all
qed

text \<open>
  C2: When writing the schedule table does not fail, the writes that reach the hardware are exactly
  the rows of the module's table from row 0 on, every command is refreshed from the current indices
  of its stream, and a scheduler that performs the rows one after the other, waiting the distance
  of each, performs every command of the module's list at its absolute time and no other command.
\<close>

theorem schedule_table_executes:
  assumes "write_fsc_schedules_to_HW mp ti s = Some (ret, s')" "0 \<le> ret" "st_modules s mp = Some m"
    and "sorted_fscs (fsc_list m)" "\<forall>c\<in>set (fsc_list m). active_cmd (fsc_cmd c)"
  shows "\<exists>fscs rows. st_modules s' = (st_modules s)(mp \<mapsto> m\<lparr>fsc_list := fscs\<rparr>) \<and>
     st_hw s' = st_hw s @ rows_at (module_id m) ti 0 rows \<and>
     list_all2 (refreshed s) (fsc_list m) fscs \<and> map abs_cycle fscs = map abs_cycle (fsc_list m) \<and>
     commands (hw_exec 0 rows) = map (\<lambda>c. (unat (abs_cycle c), fsc_cmd c)) fscs"
proof (rule fsc_written_rows [OF assms])
  fix fscs
  assume r: "st_modules s' = (st_modules s)(mp \<mapsto> m\<lparr>fsc_list := fscs\<rparr>)"
    "st_hw s' = st_hw s @ rows_at (module_id m) ti 0 (fsc_rows fscs)"
    "list_all2 (refreshed s) (fsc_list m) fscs" "map abs_cycle fscs = map abs_cycle (fsc_list m)"
    "commands (hw_exec 0 (fsc_rows fscs)) = map (\<lambda>c. (unat (abs_cycle c), fsc_cmd c)) fscs"
  show ?thesis
    by (rule exI [of _ fscs], rule exI [of _ "fsc_rows fscs"]) (intro conjI r)
qed

text \<open>The checks of a command list look at the times only.\<close>

lemma gaps_loop_times: "map abs_cycle xs = map abs_cycle ys \<Longrightarrow> gaps_loop xs b t = gaps_loop ys b t"
proof (induction xs arbitrary: ys b t)
  case (Cons x xs)
  then obtain y ys' where "ys = y # ys'" "abs_cycle y = abs_cycle x" "map abs_cycle xs = map abs_cycle ys'" by auto
  with Cons.IH [of ys'] show ?case by simp
qed simp

lemma nop_loop_times: "map abs_cycle xs = map abs_cycle ys \<Longrightarrow> nop_loop xs t k = nop_loop ys t k"
proof (induction xs arbitrary: ys t k)
  case (Cons x xs)
  then obtain y ys' where "ys = y # ys'" "abs_cycle y = abs_cycle x" "map abs_cycle xs = map abs_cycle ys'" by auto
  with Cons.IH [of ys'] show ?case by simp
qed simp

lemma times_only:
  assumes "map abs_cycle fscs = map abs_cycle (fsc_list m)"
  shows "sorted_fscs fscs = sorted_fscs (fsc_list m)"
    and "(\<forall>c\<in>set fscs. P (abs_cycle c)) = (\<forall>c\<in>set (fsc_list m). P (abs_cycle c))"
    and "too_many_events fscs = too_many_events (fsc_list m)"
    and "check_module_scheduling_gaps (m\<lparr>fsc_list := fscs\<rparr>) = check_module_scheduling_gaps m"
proof -
  show "sorted_fscs fscs = sorted_fscs (fsc_list m)" by (simp add: sorted_fscs_def assms)
  have "abs_cycle ` set fscs = abs_cycle ` set (fsc_list m)" using arg_cong [OF assms, of set] by simp
  then show "(\<forall>c\<in>set fscs. P (abs_cycle c)) = (\<forall>c\<in>set (fsc_list m). P (abs_cycle c))"
    using ball_simps(9) [of abs_cycle "set fscs" P] ball_simps(9) [of abs_cycle "set (fsc_list m)" P] by simp
  have len: "length fscs = length (fsc_list m)" by (rule map_eq_imp_length_eq [OF assms])
  show "too_many_events fscs = too_many_events (fsc_list m)"
  proof (cases "fscs = []")
    case True
    then show ?thesis using len by simp
  next
    case False
    then have "abs_cycle (hd fscs) = abs_cycle (hd (fsc_list m))"
      using assms len by (metis hd_map length_0_conv)
    then show ?thesis
      using len nop_loop_times [OF assms] by (simp add: too_many_events_def calc_nop_schedules_for_long_cycles_def)
  qed
  show "check_module_scheduling_gaps (m\<lparr>fsc_list := fscs\<rparr>) = check_module_scheduling_gaps m"
    using gaps_loop_times [OF assms] by (simp add: check_module_scheduling_gaps_def)
qed

text \<open>
  C19: For a sorted command list that passes the validation of its length and of its gaps, with times
  below 2^31 ticks, everything that writing the table puts on the hardware lies inside the 1024 rows
  of that table of the module, in whole rows, and no row is shorter than the minimum of 8 ticks.
\<close>

theorem schedule_rows_in_table:
  assumes "write_fsc_schedules_to_HW mp ti s = Some (ret, s')" "0 \<le> ret" "st_modules s mp = Some m"
    and "sorted_fscs (fsc_list m)" "\<forall>c\<in>set (fsc_list m). unat (abs_cycle c) < 2 ^ 31"
    and "\<not> too_many_events (fsc_list m)" "check_module_scheduling_gaps m = 0"
  shows "\<exists>rows. st_hw s' = st_hw s @ rows_at (module_id m) ti 0 rows \<and> length rows \<le> 1024 \<and>
     (\<forall>row\<in>set rows. 8 \<le> unat (snd row)) \<and>
     (\<forall>w\<in>set (rows_at (module_id m) ti 0 rows). w_path w = SCHED_TAB_PATH \<and> w_size w = 8 \<and>
        row_offset (module_id m) ti 0 \<le> w_offset w \<and> w_offset w + 8 \<le> row_offset (module_id m) ti 1024)"
proof -
  obtain fscs s1 where w: "fsc_write_list (module_id m) ti (fsc_list m) s = Some (ret, fscs, s1)"
      and up: "mod_module mp (\<lambda>m. m\<lparr>fsc_list := fscs\<rparr>) s1 = Some s'"
    using assms(1-3) by (auto simp: write_fsc_schedules_to_HW_def bind_eq_Some_conv split: if_splits)
  have l: "s1 = logged s (rows_at (module_id m) ti 0 (fsc_rows fscs))"
      and times: "map abs_cycle fscs = map abs_cycle (fsc_list m)"
    using fsc_write_list_logged [OF w assms(2)] by auto
  have hw: "st_hw s' = st_hw s @ rows_at (module_id m) ti 0 (fsc_rows fscs)"
    using up assms(3) by (auto simp: mod_module_Some_iff l)
  have same: "sorted_fscs fscs" "\<forall>c\<in>set fscs. unat (abs_cycle c) < 2 ^ 31"
      "too_many_events fscs = too_many_events (fsc_list m)"
      "check_module_scheduling_gaps (m\<lparr>fsc_list := fscs\<rparr>) = check_module_scheduling_gaps m"
    using times_only(1,3,4) [OF times] times_only(2) [OF times, of "\<lambda>a. unat a < 2 ^ 31"] assms(4,5) by simp_all
  have len: "length (fsc_rows fscs) \<le> 1024"
    using fsc_rows_fit [OF same(1,2)] same(3) assms(6) by simp
  have "8 \<le> unat (snd row)" if "row \<in> set (fsc_rows fscs)" for row
    using fsc_rows_min [of "m\<lparr>fsc_list := fscs\<rparr>" row] that same(4) assms(7) by simp
  moreover have "w_path w = SCHED_TAB_PATH \<and> w_size w = 8 \<and> row_offset (module_id m) ti 0 \<le> w_offset w \<and>
      w_offset w + 8 \<le> row_offset (module_id m) ti 1024"
    if "w \<in> set (rows_at (module_id m) ti 0 (fsc_rows fscs))" for w
    using rows_at_member [OF that] len by (auto simp: row_write_def row_offset_def)
  ultimately show ?thesis using hw len by blast
qed

text \<open>
  C26: The check of the gaps accepts exactly the command lists in which the first command is at time
  0 or not before the minimum distance, and any two neighbours are at least that distance apart.
\<close>

theorem gaps_check_complete:
  "check_module_scheduling_gaps m = 0 \<longleftrightarrow> fsc_list m = [] \<or>
     ((abs_cycle (hd (fsc_list m)) = 0 \<or> 8 \<le> abs_cycle (hd (fsc_list m))) \<and>
      (\<forall>i. Suc i < length (fsc_list m) \<longrightarrow> 8 \<le> abs_cycle (fsc_list m ! Suc i) - abs_cycle (fsc_list m ! i)))"
  using check_gaps_iff [of m] by (simp add: gaps_ok_def)

section \<open>Witnesses\<close>

lemmas event_defs = create_event_sysfs_items_def event_loop.simps module_delays_def schedule_items_def
  mod_module_def acm_zalloc_def

lemma ex_create_event:
  "map_option fst (create_event_sysfs_items 2 0 10 2 0 ex_state) = Some 0"
  by (simp add: event_defs ex_defs schedule_delays_1GBps_def Let_def)

lemma ex_create_window:
  "map_option fst (create_window_sysfs_items 2 0 10 2 0 True ex_state) = Some 0"
  by (simp add: event_defs create_window_sysfs_items_def window_loop.simps window_start_def ex_defs
      schedule_delays_1GBps_def Let_def)

lemma ex_trigger: "RVAL 26 25 (33554437 :: u32) = 1"
  by code_simp

lemma ex_write: "map_option fst (write_fsc_schedules_to_HW 0 1 ex_state) = Some 8"
  by (simp add: write_fsc_schedules_to_HW_def fsc_write_list_def write_first_nops.simps write_more_nops.simps
      write_fsc_nop_command_def pwrite_item_def row_write_def update_fsc_indexes_def indexed_fsc_cmd_def
      mod_module_def ex_defs ex_trigger Let_def)

lemma ex_schedule_parts:
  "st_modules ex_state 0 = Some ex_module" "module_delays ex_module (mod_speed ex_module) = Some ex_delay"
  "st_scheds ex_state 2 = Some \<lparr>time_start_ns = 0, time_end_ns = 0, send_time_ns = 1000, period_ns = 500000,
     schedule_list = Some 1\<rparr>"
  by (simp_all add: ex_state_def ex_module_def module_delays_def)

lemma ex_fscs:
  "sorted_fscs (fsc_list ex_module)" "\<forall>c\<in>set (fsc_list ex_module). active_cmd (fsc_cmd c)"
  "\<forall>c\<in>set (fsc_list ex_module). unat (abs_cycle c) < 2 ^ 31" "\<not> too_many_events (fsc_list ex_module)"
  "check_module_scheduling_gaps ex_module = 0"
proof -
  show "\<forall>c\<in>set (fsc_list ex_module). active_cmd (fsc_cmd c)"
    by (simp add: ex_module_def active_cmd_def ex_trigger)
  show "\<not> too_many_events (fsc_list ex_module)"
    by (simp add: ex_module_def too_many_events_def calc_nop_schedules_for_long_cycles_def Let_def c_div_def)
qed (simp_all add: ex_module_def sorted_fscs_def check_module_scheduling_gaps_def Let_def)

theorem create_event_adds_commands_witness:
  "\<exists>s' m'. create_event_sysfs_items 2 0 10 2 0 ex_state = Some (0, s') \<and> st_modules s' 0 = Some m' \<and>
     sorted_fscs (fsc_list m')"
proof -
  obtain s' where r: "create_event_sysfs_items 2 0 10 2 0 ex_state = Some (0, s')"
    using ex_create_event by auto
  from create_event_adds_commands [OF r ex_schedule_parts(3,1,2)] obtain fscs k where
    "s' = ex_state\<lparr>st_next := k, st_modules := (st_modules ex_state)(0 \<mapsto> ex_module\<lparr>fsc_list := fscs\<rparr>)\<rparr>"
    "sorted_fscs fscs" using ex_fscs(1) by blast
  with r show ?thesis by simp
qed

theorem create_window_adds_commands_witness:
  "\<exists>s' m'. create_window_sysfs_items 2 0 10 2 0 True ex_state = Some (0, s') \<and> st_modules s' 0 = Some m' \<and>
     sorted_fscs (fsc_list m') \<and> length (fsc_list m') = 6"
proof -
  obtain s' where r: "create_window_sysfs_items 2 0 10 2 0 True ex_state = Some (0, s')"
    using ex_create_window by auto
  have n: "nat (schedule_items (cycle_ns ex_module) 500000) = 2" by (simp add: ex_module_def schedule_items_def)
  from create_window_adds_commands [OF r ex_schedule_parts(3,1,2)] obtain fscs k where
    "s' = ex_state\<lparr>st_next := k, st_modules := (st_modules ex_state)(0 \<mapsto> ex_module\<lparr>fsc_list := fscs\<rparr>)\<rparr>"
    "sorted_fscs fscs" "length fscs = length (fsc_list ex_module) + 2 * 2"
    using ex_fscs(1) by (auto simp: n)
  with r show ?thesis by (simp add: ex_module_def)
qed

theorem schedule_table_executes_witness:
  "\<exists>s' rows. write_fsc_schedules_to_HW 0 1 ex_state = Some (8, s') \<and> st_hw s' = rows_at 0 1 0 rows \<and>
     map fst (commands (hw_exec 0 rows)) = [10, 70010]"
proof -
  obtain s' where r: "write_fsc_schedules_to_HW 0 1 ex_state = Some (8, s')" using ex_write by auto
  from schedule_table_executes [OF r zero_le_numeral ex_schedule_parts(1) ex_fscs(1,2)] obtain fscs :: "fsc_command list" and rows where
    w: "st_hw s' = st_hw ex_state @ rows_at (module_id ex_module) 1 0 rows"
      "map abs_cycle fscs = map abs_cycle (fsc_list ex_module)"
      "commands (hw_exec 0 rows) = map (\<lambda>c. (unat (abs_cycle c), fsc_cmd c)) fscs" by blast
  have "map fst (commands (hw_exec 0 rows)) = map unat (map abs_cycle fscs)" by (simp add: w(3))
  also have "\<dots> = [10, 70010]" unfolding w(2) by (simp add: ex_module_def)
  finally have "map fst (commands (hw_exec 0 rows)) = [10, 70010]" .
  then show ?thesis using r w(1)
    by (intro exI [of _ s'] exI [of _ rows]) (simp add: ex_module_def ex_state_def ex_empty_def)
qed

theorem schedule_rows_in_table_witness:
  "\<exists>s' rows. write_fsc_schedules_to_HW 0 1 ex_state = Some (8, s') \<and> st_hw s' = rows_at 0 1 0 rows \<and>
     length rows \<le> 1024"
proof -
  obtain s' where r: "write_fsc_schedules_to_HW 0 1 ex_state = Some (8, s')" using ex_write by auto
  from schedule_rows_in_table [OF r zero_le_numeral ex_schedule_parts(1) ex_fscs(1,3,4,5)] show ?thesis
    using r by (auto simp: ex_module_def ex_state_def ex_empty_def)
qed

theorem gaps_check_complete_witness: "check_module_scheduling_gaps ex_module = 0"
proof -
  have "\<forall>i. Suc i < length (fsc_list ex_module) \<longrightarrow>
      8 \<le> abs_cycle (fsc_list ex_module ! Suc i) - abs_cycle (fsc_list ex_module ! i)"
    by (simp add: ex_module_def less_Suc_eq)
  moreover have "8 \<le> abs_cycle (hd (fsc_list ex_module))" by (simp add: ex_module_def)
  ultimately show ?thesis using gaps_check_complete [of ex_module] by blast
qed

end
