(* ===== verification/Acm_Limits_Theorems.thy ===== *)
theory Acm_Limits_Theorems
  imports Acm_Buffer_Theorems
begin

text \<open>
  The theorems about the limits of the hardware: what validation accepts, and that the table indices
  of accepted streams lie in the tables and do not overlap.
\<close>

section \<open>Rows of the tables\<close>

lemma index_loop_defined:
  "distinct ps \<Longrightarrow> module_streams s ps = Some sts \<Longrightarrow>
   \<exists>s' sts'. index_loop step ps i s = Some s' \<and> module_streams s' ps = Some sts'"
  using index_loop_scan [of ps s sts step i] by blast

lemma scan_keeps:
  assumes "\<And>st i. f (fst (step st i)) = f st"
  shows "map f (index_scan step i sts) = map f sts"
  by (induction sts arbitrary: i) (simp_all add: assms)

lemma step_keeps:
  "operations (fst (lookup_step st i)) = operations st" "stype (fst (lookup_step st i)) = stype st"
  "operations (fst (scatter_step st j)) = operations st" "stype (fst (scatter_step st j)) = stype st"
  "lookup_index (fst (scatter_step st j)) = lookup_index st" "lookup_index (fst (gather_step st j)) = lookup_index st"
  "scatter_dma_index (fst (gather_step st j)) = scatter_dma_index st"
  "operations (fst (gather_step st j)) = operations st" "stype (fst (gather_step st j)) = stype st"
  by (auto simp: lookup_step_def scatter_step_def gather_step_def Let_def)

definition same_table_use :: "acm_stream \<Rightarrow> acm_stream \<Rightarrow> bool" where
  "same_table_use a b = (operations a = operations b \<and> stype a = stype b)"

lemma scan_table_use:
  "(\<And>st i. same_table_use (fst (step st i)) st) \<Longrightarrow> list_all2 same_table_use (index_scan step i sts) sts"
  by (induction sts arbitrary: i) simp_all

lemma limits_same:
  assumes pt: "list_all2 same_table_use sts' sts"
  shows "module_limits sts' = module_limits sts"
proof -
  have sums: "(\<Sum>st\<leftarrow>sts'. f st) = (\<Sum>st\<leftarrow>sts. f st)"
    if "\<And>a b. same_table_use a b \<Longrightarrow> f a = f b" for f :: "acm_stream \<Rightarrow> int"
    using pt by (induction rule: list_all2_induct) (auto dest: that)
  have sumn: "(\<Sum>st\<leftarrow>sts'. f st) = (\<Sum>st\<leftarrow>sts. f st)"
    if "\<And>a b. same_table_use a b \<Longrightarrow> f a = f b" for f :: "acm_stream \<Rightarrow> nat"
    using pt by (induction rule: list_all2_induct) (auto dest: that)
  have filt: "length (filter P sts') = length (filter P sts)"
    if "\<And>a b. same_table_use a b \<Longrightarrow> P a = P b" for P :: "acm_stream \<Rightarrow> bool"
    using pt by (induction rule: list_all2_induct) (auto dest: that)
  have "sum_const_buffers sts' = sum_const_buffers sts"
    unfolding sum_const_buffers_list by (rule sums) (simp add: same_table_use_def)
  moreover have "length (filter is_redundant sts') = length (filter is_redundant sts)"
    "length (filter is_lookup_stream sts') = length (filter is_lookup_stream sts)"
    by (rule filt; simp add: width_defs same_table_use_def)+
  moreover have "(\<Sum>st\<leftarrow>sts'. max (stream_num_gather_ops st) (stream_num_prefetch_ops st)) =
      (\<Sum>st\<leftarrow>sts. max (stream_num_gather_ops st) (stream_num_prefetch_ops st))"
    "(\<Sum>st\<leftarrow>sts'. stream_num_scatter_ops st) = (\<Sum>st\<leftarrow>sts. stream_num_scatter_ops st)"
    by (rule sumn; simp add: width_defs same_table_use_def)+
  ultimately show ?thesis by (simp add: module_limits_def)
qed

text \<open>
  C18: When the streams of a module keep the limits of the hardware, the index calculation gives every
  stream its own rows: in the lookup table within 0 to 15, in the scatter table within 1 to 255 (row
  0 is the NOP), in the gather table within 2 to 255 (rows 0 and 1 are the NOP and FORWARD), and the
  rows of different streams do not overlap.
\<close>

theorem table_rows_disjoint:
  assumes "distinct ps" "module_streams s ps = Some sts" "module_limits sts"
    and "calculate_lookup_indizes ps s = Some s1" "calculate_scatter_indizes ps s1 = Some s2"
    and "calculate_gather_indizes ps s2 = Some s3"
  shows "\<exists>sts'. module_streams s3 ps = Some sts' \<and> list_all2 same_table_use sts' sts \<and>
     rows_disjoint 0 16 (map (\<lambda>st. (unat (lookup_index st), lookup_width st)) sts') \<and>
     rows_disjoint 1 256 (map (\<lambda>st. (unat (scatter_dma_index st), scatter_width st)) sts') \<and>
     rows_disjoint 2 256 (map (\<lambda>st. (unat (gather_dma_index st), gather_width st)) sts')"
proof -
  let ?s1 = "index_scan lookup_step 0 sts" and ?s2 = "index_scan scatter_step 1 (index_scan lookup_step 0 sts)"
  let ?s3 = "index_scan gather_step 2 ?s2"
  note use = scan_table_use [of lookup_step 0 sts] scan_table_use [of scatter_step 1 ?s1]
    scan_table_use [of gather_step 2 ?s2]
  have same: "list_all2 same_table_use ?s1 sts" "list_all2 same_table_use ?s2 ?s1" "list_all2 same_table_use ?s3 ?s2"
    by (rule use; simp add: same_table_use_def step_keeps)+
  have lim: "module_limits ?s1" "module_limits ?s2"
    using assms(3) limits_same [OF same(1)] limits_same [OF same(2)] by auto
  have l: "module_streams s1 ps = Some ?s1" "rows_disjoint 0 16 (lookup.rows ?s1)"
    using lookup.loop_rows [OF assms(1,2) assms(4) [unfolded calculate_lookup_indizes_def]] lookup_total_le [OF assms(3)]
    by (simp_all add: rows_disjoint_mono)
  have sc: "module_streams s2 ps = Some ?s2" "rows_disjoint 1 256 (scatter.rows ?s2)"
    using scatter.loop_rows [OF assms(1) l(1) assms(5) [unfolded calculate_scatter_indizes_def]] scatter_total_le [OF lim(1)]
    by (simp_all add: rows_disjoint_mono)
  have g: "module_streams s3 ps = Some ?s3" "rows_disjoint 2 256 (gather.rows ?s3)"
    using gather.loop_rows [OF assms(1) sc(1) assms(6) [unfolded calculate_gather_indizes_def]] gather_total_le [OF lim(2)]
    by (simp_all add: rows_disjoint_mono)
  have "lookup.rows ?s2 = lookup.rows ?s1" "lookup.rows ?s3 = lookup.rows ?s2" "scatter.rows ?s3 = scatter.rows ?s2"
    unfolding lookup.rows_def scatter.rows_def
    by (rule scan_keeps; simp add: step_keeps width_defs)+
  moreover have "list_all2 same_table_use ?s3 sts"
  proof (rule list_all2_trans [OF _ same(3)])
    show "list_all2 same_table_use ?s2 sts"
      by (rule list_all2_trans [OF _ same(2,1)]) (simp add: same_table_use_def)
  qed (simp add: same_table_use_def)
  ultimately show ?thesis using l sc g
    by (intro exI [of _ ?s3]) (simp add: lookup.rows_def scatter.rows_def gather.rows_def)
qed

section \<open>Validation\<close>

text \<open>
  C25: For a stream with less than 60000 operations the check of the payload, which counts in 32 bit,
  accepts exactly the streams whose frame, computed without bounds, has at most 1518 bytes and in
  which no FORWARD operation skips more than 19 bytes of the received frame.
\<close>

theorem payload_check_exact:
  assumes "length (operations st) < 60000"
  shows "check_stream_payload (operations st) = 0 \<longleftrightarrow>
     payload_nat (operations st) 0 0 \<noteq> None \<and> calc_stream_egress_framesize (operations st) \<le> 1518"
  by (rule payload_exact [OF assms])

theorem payload_check_exact_witness:
  "check_stream_payload (operations ex_stream) = 0"
proof -
  have "payload_nat (operations ex_stream) 0 0 \<noteq> None" "calc_stream_egress_framesize (operations ex_stream) \<le> 1518"
    by (simp_all add: ex_stream_def ex_op_def is_egress_payload_def)
  moreover have "length (operations ex_stream) < 60000" by (simp add: ex_stream_def)
  ultimately show ?thesis using payload_check_exact [of ex_stream] by blast
qed

text \<open>
  What final validation guarantees of a stream: sizes in bytes are those of the frame without any
  bound, the periods divide the cycle, and the partner of a redundant stream is in the other module
  of the same configuration.
\<close>

definition stream_sound :: "acm_state \<Rightarrow> acm_module \<Rightarrow> acm_stream \<Rightarrow> bool" where
  "stream_sound s m st = ((has_egress_frame st \<longrightarrow> 64 \<le> calc_stream_egress_framesize (operations st)) \<and>
     ((\<forall>op\<in>set (operations st). opcode op \<noteq> OPERATION_MAX) \<longrightarrow>
        calc_stream_egress_framesize (operations st) \<le> 1518 \<and> payload_nat (operations st) 0 0 \<noteq> None) \<and>
     stream_num_operations_x st INSERT \<le> 8 \<and>
     (operations st \<noteq> [] \<or> stype st = INGRESS_TRIGGERED_STREAM \<and> reference st \<noteq> None) \<and>
     (\<exists>ws. stream_windows s st = Some ws \<and> (\<forall>w\<in>set ws. period_ns w \<noteq> 0 \<and> cycle_ns m mod period_ns w = 0)) \<and>
     (is_redundant st \<longrightarrow> (\<exists>home ref_home. stream_home s st = Some home \<and> redundant_home s st = Some ref_home \<and>
        home_config home \<noteq> None \<and> home_config home = home_config ref_home \<and>
        map_option fst home \<noteq> map_option fst ref_home)))"

text \<open>
  The schedule of a module, when its commands are sorted and the times are below \<open>2 ^ 31\<close>: the rows
  that the commands need, those of long waits included, fit into a table, and none is shorter than
  the minimum.
\<close>

definition schedule_sound :: "fsc_command list \<Rightarrow> bool" where
  "schedule_sound fscs = (
     (fscs \<noteq> [] \<longrightarrow> abs_cycle (hd fscs) = 0 \<or> 8 \<le> abs_cycle (hd fscs)) \<and>
     (\<forall>i. Suc i < length fscs \<longrightarrow> 8 \<le> abs_cycle (fscs ! Suc i) - abs_cycle (fscs ! i)) \<and>
     (\<forall>row\<in>set (fsc_rows fscs). 8 \<le> unat (snd row)) \<and>
     (sorted_fscs fscs \<and> (\<forall>c\<in>set fscs. unat (abs_cycle c) < 2 ^ 31) \<longrightarrow> length (fsc_rows fscs) \<le> 1024))"

definition module_sound :: "acm_state \<Rightarrow> acm_module \<Rightarrow> bool" where
  "module_sound s m = (\<exists>sts. module_streams s (mod_streams m) = Some sts \<and> module_limits sts \<and>
     (\<forall>st\<in>set sts. stream_sound s m st) \<and> cycle_ns m \<noteq> 0 \<and> schedule_sound (fsc_list m))"

text \<open>The tables bound the number of operations, so that the 32 bit check of the payload is exact.\<close>

lemma count_complement:
  "(\<forall>op\<in>set ops. opcode op \<noteq> OPERATION_MAX) \<Longrightarrow>
     length ops = count_operations is_gather_op ops + count_operations (\<lambda>op. opcode op = READ) ops"
proof (induction ops)
  case (Cons op ops)
  then show ?case by (cases "opcode op") (auto simp: is_gather_op_def)
qed simp

lemma operations_bounded:
  assumes "module_limits sts" "st \<in> set sts" "\<forall>op\<in>set (operations st). opcode op \<noteq> OPERATION_MAX"
  shows "length (operations st) < 60000"
proof -
  have "f st \<le> (\<Sum>st\<leftarrow>sts. f st)" for f :: "acm_stream \<Rightarrow> nat"
    using assms(2) by (intro member_le_sum_list) auto
  from this [of "\<lambda>st. max (stream_num_gather_ops st) (stream_num_prefetch_ops st)"] this [of stream_num_scatter_ops]
  have "stream_num_gather_ops st \<le> 254" "stream_num_scatter_ops st \<le> 255"
    using assms(1) by (auto simp: module_limits_def)
  then show ?thesis
    using count_complement [OF assms(3)] by (auto simp: stream_num_gather_ops_def stream_num_scatter_ops_def Let_def split: if_splits)
qed

lemma schedule_checks_sound:
  assumes "\<not> too_many_events (fsc_list m)" "check_module_scheduling_gaps m = 0"
  shows "schedule_sound (fsc_list m)"
  using assms fsc_rows_fit [of "fsc_list m"] fsc_rows_min [OF assms(2)]
  by (auto simp: schedule_sound_def check_gaps_iff gaps_ok_def)

lemma op_exists_loop_iff:
  "op_exists_loop sts \<longleftrightarrow> (\<forall>st\<in>set sts. operations st \<noteq> [] \<or> stype st = INGRESS_TRIGGERED_STREAM \<and> reference st \<noteq> None)"
  by (induction sts) auto

lemma home_config_None: "home_config home \<noteq> None \<Longrightarrow> home \<noteq> None"
  by (cases home) (simp_all add: home_config_def)

lemma check_redundant_final:
  assumes "check_redundant True home ref_home = 0"
  shows "home_config home \<noteq> None \<and> home_config home = home_config ref_home \<and> map_option fst home \<noteq> map_option fst ref_home"
proof -
  have c: "home_config home \<noteq> None" "home_config ref_home \<noteq> None" "home_config home = home_config ref_home"
    using assms by (auto simp: check_redundant_def split: if_splits)
  then have "home \<noteq> None" "ref_home \<noteq> None" using home_config_None by blast+
  then show ?thesis using assms c by (auto simp: check_redundant_def split: if_splits)
qed

lemma stream_checks_final:
  assumes "validate_stream_checks True s p = Some 0" "st_streams s p = Some st"
    and "stream_check_periods s st (cycle_ns m) True = Some 0"
    and "operations st \<noteq> [] \<or> stype st = INGRESS_TRIGGERED_STREAM \<and> reference st \<noteq> None"
    and "(\<forall>op\<in>set (operations st). opcode op \<noteq> OPERATION_MAX) \<Longrightarrow> length (operations st) < 60000"
  shows "stream_sound s m st"
proof -
  have frame: "has_egress_frame st \<longrightarrow> 64 \<le> calc_stream_egress_framesize (operations st)"
    using assms(1,2) by (auto simp: validate_stream_checks_def split: if_splits)
  obtain home where home: "stream_home s st = Some home"
    and rest: "(if is_redundant st then do { ref_home \<leftarrow> redundant_home s st; Some (check_redundant True home ref_home) }
         else Some 0) = Some 0"
      "check_stream_payload (operations st) = 0" "stream_num_operations_x st INSERT \<le> 8"
    using assms(1,2) by (auto simp: validate_stream_checks_def Let_def bind_eq_Some_conv split: if_splits)
  have red: "is_redundant st \<longrightarrow> (\<exists>ref_home. redundant_home s st = Some ref_home \<and> check_redundant True home ref_home = 0)"
    using rest(1) by (auto simp: bind_eq_Some_conv)
  have pay: "(\<forall>op\<in>set (operations st). opcode op \<noteq> OPERATION_MAX) \<longrightarrow>
      calc_stream_egress_framesize (operations st) \<le> 1518 \<and> payload_nat (operations st) 0 0 \<noteq> None"
    using payload_exact rest(2) assms(5) by blast
  show ?thesis
    using red pay frame home rest(3) stream_check_periods_zero [OF assms(3)] assms(4) check_redundant_final
    unfolding stream_sound_def by blast
qed

lemma module_final_sound:
  assumes "validate_module_final s mp = Some 0" "check_module_op_exists s (Some mp) = Some True"
  shows "\<exists>m. st_modules s mp = Some m \<and> module_sound s m"
proof -
  obtain m where m: "st_modules s mp = Some m" and l: "foreach_check (validate_stream_checks True s) (mod_streams m) = Some 0"
    and c: "validate_module_checks True s m = Some 0"
    using assms(1) by (auto simp: validate_module_final_def validate_stream_list_final_def bind_eq_Some_conv split: if_splits)
  from c obtain sts where sts: "module_streams s (mod_streams m) = Some sts" "module_limits sts"
      "\<not> too_many_events (fsc_list m)" "cycle_ns m \<noteq> 0"
      "\<forall>st\<in>set sts. stream_check_periods s st (cycle_ns m) True = Some 0" "check_module_scheduling_gaps m = 0"
    unfolding module_checks_iff by blast
  have ops: "op_exists_loop sts" using assms(2) m sts(1) by (simp add: check_module_op_exists_def)
  have "stream_sound s m st" if st: "st \<in> set sts" for st
  proof -
    obtain p where p: "p \<in> set (mod_streams m)" "st_streams s p = Some st"
      using those_map_out [OF sts(1) [unfolded module_streams_def] st] by blast
    have "validate_stream_checks True s p = Some 0"
      using l p(1) by (simp add: foreach_check_zero_iff)
    from stream_checks_final [OF this p(2)] sts(5) ops st operations_bounded [OF sts(2) st]
    show ?thesis by (simp add: op_exists_loop_iff)
  qed
  then show ?thesis using m sts schedule_checks_sound by (auto simp: module_sound_def)
qed

text \<open>The memory that the buffers need, counted without a bound.\<close>

lemma blocks_sum: "unat (blocks rs) = (\<Sum>r\<leftarrow>rs. unat (snd (snd r))) mod 65536"
  by (induction rs) (simp_all add: unat_word_ariths mod_simps)

lemma fits_memory_exact:
  assumes "fits_memory g s (blocks rs)" "0 < g" "n = (\<Sum>r\<leftarrow>rs. unat (snd (snd r)))"
    and "n < 65536" "(int n + 1) * g < 2 ^ 31"
  shows "(int n + 1) * g < get_int32_status_value ACM_SYSFS_MSGBUF_SIZE s"
proof -
  have u: "uint (blocks rs) = int n" using blocks_sum [of rs] assms(3,4) by (simp add: uint_nat)
  have "0 \<le> (int n + 1) * g" using assms(2) by simp
  then have "sint (word_of_int ((int n + 1) * g) :: u32) = (int n + 1) * g"
    using assms(5) unfolding sint_sbintrunc' by (simp add: signed_take_bit_int_eq_self)
  then show ?thesis using assms(1) by (simp add: fits_memory_def msgbuf_memory_def u)
qed

text \<open>
  C6: A configuration that passes the final validation has only modules within all limits of the
  hardware: the rows of the tables and the constants fit; every frame has at least 64 and at most
  1518 bytes and no FORWARD skips more than 19 bytes of the received frame; a stream has at most 8
  INSERT operations and at least one operation (or is an ingress stream with an event stream behind
  it); the periods divide the cycle; the commands of the schedule need at most the 1024 rows of a
  table and none is shorter than 8 ticks; and the partner of a redundant stream is in the other
  module of the same configuration. The buffers are those of the rebuilt list: when the hardware
  tells the number of its buffers, they are not more than that, and when their blocks are counted
  without a wrap of the 16 bit offset and the 32 bit size, they lie within the memory. (When the
  number cannot be read, the code takes the negative error as no limit.)
\<close>

theorem validated_config_sound:
  assumes "validate_config True cp s = Some (0, s')" "st_configs s cp = Some cfg" "config_ok s cfg"
  defines "g \<equiv> get_int32_status_value ACM_SYSFS_MSGBUF_DATAWIDTH s"
  shows "(\<forall>i\<in>{0, 1}. \<forall>mp. bypass cfg i = Some mp \<longrightarrow> (\<exists>m. st_modules s mp = Some m \<and> module_sound s m)) \<and>
     (\<exists>cfg' bs n. st_configs s' cp = Some cfg' \<and> config_buffers s' cfg' = Some bs \<and> n = (\<Sum>b\<leftarrow>bs. unat (buff_size b)) \<and>
        (0 \<le> get_int32_status_value ACM_SYSFS_MSGBUF_COUNT s' \<longrightarrow> int (length bs) \<le> get_int32_status_value ACM_SYSFS_MSGBUF_COUNT s') \<and>
        0 < g \<and> ((bypass cfg 0 \<noteq> None \<or> bypass cfg 1 \<noteq> None) \<and> n < 65536 \<and> (int n + 1) * g < 2 ^ 31 \<longrightarrow>
          (int n + 1) * g < get_int32_status_value ACM_SYSFS_MSGBUF_SIZE s))"
proof -
  have v: "validate_config_final_checks s cfg = Some 0"
    and c: "clean_and_recalculate_hw_msg_buffs cp s = Some (0, s')"
    and n: "\<exists>cfg'. st_configs s' cp = Some cfg' \<and>
        \<not> too_many_buffers (length (msg_buffs cfg')) (get_int32_status_value ACM_SYSFS_MSGBUF_COUNT s')"
    using assms(1,2) by (auto simp: validate_config_def bind_eq_Some_conv split: if_splits)
  have mods: "\<exists>m. st_modules s mp = Some m \<and> module_sound s m" if i: "i \<in> {0, 1}" and bp: "bypass cfg i = Some mp" for i mp
  proof (rule module_final_sound)
    have a: "\<forall>i\<in>{0, 1}. validate_bypass_final s (bypass cfg i) = Some 0"
      and b: "\<forall>i\<in>{0, 1}. check_module_op_exists s (bypass cfg i) = Some True"
      using v by (auto simp: validate_config_final_checks_def bind_eq_Some_conv split: if_splits)
    show "validate_module_final s mp = Some 0" using a i bp by (auto simp: validate_bypass_final_def)
    show "check_module_op_exists s (Some mp) = Some True" using b i bp by auto
  qed
  obtain ps rs where r: "st_configs s' cp = Some (cfg\<lparr>msg_buffs := ps\<rparr>)" "0 < g"
      "bufs_at s' ps = Some (buffer_layout 0 0 rs)"
      "bypass cfg 0 \<noteq> None \<or> bypass cfg 1 \<noteq> None \<longrightarrow> fits_memory g s (blocks rs)"
    using recalculate_spec [OF assms(2,3)] c by (auto simp: g_def recalculated_def)
  define k where "k = (\<Sum>b\<leftarrow>buffer_layout 0 0 rs. unat (buff_size b))"
  have k: "k = (\<Sum>r\<leftarrow>rs. unat (snd (snd r)))"
    using arg_cong [OF layout_sizes [of 0 0 rs], of "\<lambda>xs. \<Sum>x\<leftarrow>xs. unat x"] by (simp add: k_def o_def)
  have len: "length rs = length ps" using bufs_at_length [OF r(3)] by simp
  have b: "config_buffers s' (cfg\<lparr>msg_buffs := ps\<rparr>) = Some (buffer_layout 0 0 rs)"
    using r(3) by (simp add: config_buffers_def bufs_at_def)
  have lim: "0 \<le> get_int32_status_value ACM_SYSFS_MSGBUF_COUNT s' \<longrightarrow>
      int (length (buffer_layout 0 0 rs)) \<le> get_int32_status_value ACM_SYSFS_MSGBUF_COUNT s'"
    using n r(1) len by (auto simp: too_many_buffers_def)
  have mem: "(bypass cfg 0 \<noteq> None \<or> bypass cfg 1 \<noteq> None) \<and> k < 65536 \<and> (int k + 1) * g < 2 ^ 31 \<longrightarrow>
      (int k + 1) * g < get_int32_status_value ACM_SYSFS_MSGBUF_SIZE s"
    using fits_memory_exact [OF _ r(2) k] r(4) by blast
  show ?thesis
    using mods r(1,2) b lim mem unfolding k_def by blast
qed

section \<open>Witnesses\<close>

lemmas check_defs = validate_config_def validate_config_final_checks_def validate_bypass_final_def
  validate_module_final_def validate_stream_list_final_def validate_stream_checks_def
  validate_module_checks_def check_module_op_exists_def module_streams_def stream_home_def
  is_redundant_def has_egress_frame_def is_egress_payload_def check_stream_payload_def too_many_events_def
  calc_nop_schedules_for_long_cycles_def check_module_scheduling_gaps_def stream_check_periods_def
  stream_windows_def check_window_def is_gather_op_def is_lookup_stream_def count_defs too_many_buffers_def

lemma ex_validate: "map_option fst (validate_config True 3 ex_state) = Some 0"
  apply (simp add: check_defs recalculate_defs ex_status)
  apply (simp add: check_defs recalculate_defs ex_status ex_defs heap_defs acm_zalloc_def Let_def c_div_def)
  done

theorem validated_config_sound_witness:
  "\<exists>m s' cfg' bs. st_modules ex_state 0 = Some m \<and> module_sound ex_state m \<and> validate_config True 3 ex_state = Some (0, s') \<and>
     st_configs s' 3 = Some cfg' \<and> config_buffers s' cfg' = Some bs"
proof -
  obtain s' where v: "validate_config True 3 ex_state = Some (0, s')" using ex_validate by auto
  obtain cfg where cfg: "st_configs ex_state 3 = Some cfg" "config_ok ex_state cfg" "bypass cfg 0 = Some 0"
    by (simp add: ex_defs config_ok_def config_streams_def bypass_streams_def module_streams_def named_def
        uses_buffer_def)
  from validated_config_sound [OF v cfg(1,2)] v cfg(3) show ?thesis by blast
qed

theorem table_rows_disjoint_witness:
  "\<exists>s1 s2 s3 sts. calculate_lookup_indizes [1] ex_state = Some s1 \<and> calculate_scatter_indizes [1] s1 = Some s2 \<and>
     calculate_gather_indizes [1] s2 = Some s3 \<and> module_streams s3 [1] = Some sts \<and>
     rows_disjoint 2 256 (map (\<lambda>st. (unat (gather_dma_index st), gather_width st)) sts)"
proof -
  have d: "distinct [1 :: addr]" by simp
  have m: "module_streams ex_state [1] = Some [ex_stream]" by (simp add: module_streams_def ex_state_def)
  have l: "module_limits [ex_stream]"
    by (simp add: module_limits_def ex_stream_def ex_op_def is_redundant_def is_lookup_stream_def count_defs is_gather_op_def)
  obtain s1 sts1 where s1: "calculate_lookup_indizes [1] ex_state = Some s1" and m1: "module_streams s1 [1] = Some sts1"
    unfolding calculate_lookup_indizes_def using index_loop_defined [OF d m] by blast
  obtain s2 sts2 where s2: "calculate_scatter_indizes [1] s1 = Some s2" and m2: "module_streams s2 [1] = Some sts2"
    unfolding calculate_scatter_indizes_def using index_loop_defined [OF d m1] by blast
  obtain s3 where s3: "calculate_gather_indizes [1] s2 = Some s3"
    unfolding calculate_gather_indizes_def using index_loop_defined [OF d m2] by blast
  from table_rows_disjoint [OF d m l s1 s2 s3] s1 s2 s3 show ?thesis by blast
qed

end
