(* ===== verification/Acm_Hw_Spec.thy ===== *)
theory Acm_Hw_Spec
  imports Acm_Hw Acm_Validate_Spec
begin

text \<open>
  What the functions that write the DMA tables put on the hardware. For each of them there is the
  list of its planned writes; the function performs the plan from its start until a write fails
  (\<open>follows_plan\<close>). The plans of a stream are the rows of its gather and prefetch program.
\<close>

section \<open>Plans and chains of writes\<close>

lemma follows_if_zero:
  assumes "if_zero res k = Some out" "follows_plan ws s res"
    and "\<And>s1 out. k s1 = Some out \<Longrightarrow> s1 = logged s ws \<Longrightarrow> follows_plan vs s1 out"
  shows "follows_plan (ws @ vs) s out"
proof (cases res)
  case (Pair r s1)
  show ?thesis
  proof (cases "r = 0")
    case True
    then have "s1 = logged s ws" using assms(2) Pair by (simp add: follows_success)
    moreover have "k s1 = Some out" using assms(1) Pair True by (simp add: if_zero_def)
    ultimately show ?thesis using follows_then [of ws s s1 vs out] assms(2,3) Pair True by simp
  next
    case False
    then have "out = (r, s1)" using assms(1) Pair by (simp add: if_zero_def)
    then show ?thesis using follows_failure [of ws s r s1 vs] assms(2) Pair False by auto
  qed
qed

section \<open>DMA commands\<close>

definition dma_write :: "string \<Rightarrow> nat \<Rightarrow> nat \<Rightarrow> u32 \<Rightarrow> hw_write" where
  "dma_write file mid idx cmd = config_write file (D_u32 cmd) 4 (mid * 4 * 256 + idx * 4)"

definition dma_rows :: "string \<Rightarrow> nat \<Rightarrow> nat \<Rightarrow> u32 list \<Rightarrow> hw_write list" where
  "dma_rows file mid i cmds = map (\<lambda>(k, cmd). dma_write file mid k cmd) (enumerate i cmds)"

lemma dma_rows_simps [simp]:
  "dma_rows file mid i [] = []"
  "dma_rows file mid i (c # cs) = dma_write file mid i c # dma_rows file mid (Suc i) cs"
  "dma_rows file mid i (xs @ ys) = dma_rows file mid i xs @ dma_rows file mid (i + length xs) ys"
  by (simp_all add: dma_rows_def enumerate_append_eq)

lemma follows_dma: "follows_plan [dma_write file mid idx cmd] s (dma_item file mid idx cmd s)"
  unfolding dma_write_def dma_item_def by (rule follows_item)

lemma buffer_index_logged [simp]: "buffer_index_of op (logged s ws) = buffer_index_of op s"
  by (simp add: buffer_index_of_def logged_others)

section \<open>The prefetch table of a stream\<close>

fun lock_program :: "bool \<Rightarrow> bitarray \<Rightarrow> nat list \<Rightarrow> u32 list" where
  "lock_program dual v [] = []"
| "lock_program dual v (i # is) = (if lock_group v i = 0 then lock_program dual v is
     else acmdrv_bypass_dma_cmd_p_lock_msg_buff_create (word_of_nat i) dual (lock_group v i) # lock_program dual v is)"

definition head_program :: "bool \<Rightarrow> bitarray \<Rightarrow> u32 list" where
  "head_program dual v = (if acmdrv_bitarray_count 8 v \<noteq> 0 then lock_program dual v [0, 1, 2, 3]
     else [acmdrv_bypass_dma_cmd_p_nop_create])"

text \<open>The row of the first command that moves a buffer: a lone NOP would be overwritten by it.\<close>

definition head_rows :: "bool \<Rightarrow> bitarray \<Rightarrow> nat" where
  "head_rows dual v = (if acmdrv_bitarray_count 8 v \<noteq> 0 then length (lock_program dual v [0, 1, 2, 3]) else 0)"

lemma lock_commands_plan:
  "write_lock_commands mid dual v is pidx s = (r, pidx', s') \<Longrightarrow>
   follows_plan (dma_rows ''prefetch_dma'' mid pidx (lock_program dual v is)) s (r, s') \<and>
   (r = 0 \<longrightarrow> pidx' = pidx + length (lock_program dual v is))"
proof (induction "is" arbitrary: pidx s)
  case Nil
  then show ?case by simp
next
  case (Cons i "is")
  show ?case
  proof (cases "lock_group v i = 0")
    case True
    then show ?thesis using Cons.IH [of pidx s] Cons.prems by simp
  next
    case False
    let ?c = "acmdrv_bypass_dma_cmd_p_lock_msg_buff_create (word_of_nat i) dual (lock_group v i)"
    obtain r1 s1 where d: "dma_item ''prefetch_dma'' mid pidx ?c s = (r1, s1)" by fastforce
    have f: "follows_plan [dma_write ''prefetch_dma'' mid pidx ?c] s (r1, s1)" using follows_dma d by metis
    show ?thesis
    proof (cases "r1 = 0")
      case True
      then have "write_lock_commands mid dual v is (pidx + 1) s1 = (r, pidx', s')"
        using Cons.prems False d by simp
      with Cons.IH [of "Suc pidx" s1] have ih: "follows_plan (dma_rows ''prefetch_dma'' mid (Suc pidx)
          (lock_program dual v is)) s1 (r, s') \<and> (r = 0 \<longrightarrow> pidx' = Suc pidx + length (lock_program dual v is))"
        by simp
      then show ?thesis using follows_then [of _ s s1] f True False by fastforce
    next
      case fail: False
      then have "r = r1" "s' = s1" using Cons.prems False d by auto
      then show ?thesis using follows_failure [OF f] fail False by auto
    qed
  qed
qed

lemma prefetch_head_plan:
  assumes "write_prefetch_head mid dual v pidx s = (r, pidx', s')"
  shows "follows_plan (dma_rows ''prefetch_dma'' mid pidx (head_program dual v)) s (r, s') \<and>
    (r = 0 \<longrightarrow> pidx' = pidx + head_rows dual v)"
proof (cases "acmdrv_bitarray_count 8 v = 0")
  case True
  have "follows_plan [dma_write ''prefetch_dma'' mid pidx acmdrv_bypass_dma_cmd_p_nop_create] s
      (dma_item ''prefetch_dma'' mid pidx acmdrv_bypass_dma_cmd_p_nop_create s)" by (rule follows_dma)
  then show ?thesis using assms True
    by (auto simp: write_prefetch_head_def head_program_def head_rows_def split: prod.splits)
next
  case False
  define groups :: "nat list" where "groups = [0, 1, 2, 3]"
  have "write_lock_commands mid dual v groups pidx s = (r, pidx', s')"
    using assms False by (simp only: write_prefetch_head_def groups_def not_False_eq_True if_True)
  note plan = lock_commands_plan [OF this]
  have "head_program dual v = lock_program dual v groups" "head_rows dual v = length (lock_program dual v groups)"
    using False by (simp_all only: head_program_def head_rows_def groups_def not_False_eq_True if_True)
  with plan show ?thesis by metis
qed

section \<open>The gather table of a stream\<close>

text \<open>The last command carries the end mark; a redundant stream gets its R-TAG after the header.\<close>

fun gather_program :: "bool \<Rightarrow> operation list \<Rightarrow> nat \<Rightarrow> u32 list" where
  "gather_program tx [] k = []"
| "gather_program tx (op # ops) k =
     (case gather_command op (ops = [] \<and> \<not> (tx \<and> k = NUM_AUTOGEN_OPS - 1)) of
        Some (Inr cmd) \<Rightarrow> cmd #
          (if tx \<and> k + 1 = NUM_AUTOGEN_OPS
           then acmdrv_bypass_dma_cmd_g_r_tag_create # gather_program tx ops (k + 2)
           else gather_program tx ops (k + 1))
      | _ \<Rightarrow> [])"

definition move_command :: "operation \<Rightarrow> operation list \<Rightarrow> acm_state \<Rightarrow> u32" where
  "move_command op ops s = acmdrv_bypass_dma_cmd_p_mov_msg_buff_create (\<not> stream_has_operation_x ops INSERT)
     False (op_length op) (the (buffer_index_of op s))"

fun move_program :: "operation list \<Rightarrow> acm_state \<Rightarrow> u32 list" where
  "move_program [] s = []"
| "move_program (op # ops) s =
     (if opcode op = INSERT then move_command op ops s # move_program ops s else move_program ops s)"

text \<open>The writes of both tables in the order of the code.\<close>

fun gather_plan :: "nat \<Rightarrow> bool \<Rightarrow> nat \<Rightarrow> operation list \<Rightarrow> nat \<Rightarrow> nat \<Rightarrow> acm_state \<Rightarrow> hw_write list" where
  "gather_plan mid tx start [] k pidx s = []"
| "gather_plan mid tx start (op # ops) k pidx s =
     (case gather_command op (ops = [] \<and> \<not> (tx \<and> k = NUM_AUTOGEN_OPS - 1)) of
        Some (Inr cmd) \<Rightarrow>
          (if opcode op = INSERT then [dma_write ''prefetch_dma'' mid pidx (move_command op ops s)] else []) @
          [dma_write ''gather_dma'' mid (start + k) cmd] @
          (let pidx' = (if opcode op = INSERT then pidx + 1 else pidx) in
           if tx \<and> k + 1 = NUM_AUTOGEN_OPS
           then [dma_write ''gather_dma'' mid (start + (k + 1)) acmdrv_bypass_dma_cmd_g_r_tag_create] @
             gather_plan mid tx start ops (k + 2) pidx' s
           else gather_plan mid tx start ops (k + 1) pidx' s)
      | _ \<Rightarrow> [])"

lemma move_command_logged [simp]: "move_command op ops (logged s ws) = move_command op ops s"
  by (simp add: move_command_def)

lemma gather_plan_logged [simp]: "gather_plan mid tx start ops k pidx (logged s ws) = gather_plan mid tx start ops k pidx s"
  by (induction mid tx start ops k pidx s rule: gather_plan.induct)
    (auto simp: Let_def split: option.split sum.split)

lemma gather_ops_plan:
  "write_gather_ops mid tx start ops k pidx s = Some res \<Longrightarrow>
   follows_plan (gather_plan mid tx start ops k pidx s) s res"
proof (induction ops arbitrary: k pidx s res)
  case Nil
  then show ?case by auto
next
  case (Cons op ops)
  define last_item where "last_item = (ops = [] \<and> \<not> (tx \<and> k = NUM_AUTOGEN_OPS - 1))"
  note run = Cons.prems [unfolded write_gather_ops.simps Let_def, folded last_item_def]
  note plan0 = gather_plan.simps(2) [of mid tx start op ops k pidx s, folded last_item_def]
  obtain c where c: "gather_command op last_item = Some c"
    using run by (auto simp: bind_eq_Some_conv)
  show ?case
  proof (cases c)
    case (Inl e)
    then have "e \<noteq> 0" using c by (auto simp: gather_command_def split: acm_operation_code.splits list.splits)
    moreover have "res = (e, s)" using run c Inl by simp
    ultimately show ?thesis by simp
  next
    case (Inr cmd)
    define pidx1 where "pidx1 = (if opcode op = INSERT then pidx + 1 else pidx)"
    define pre where "pre = (if opcode op = INSERT then [dma_write ''prefetch_dma'' mid pidx (move_command op ops s)] else [])"
    define tag where "tag = (tx \<and> k + 1 = NUM_AUTOGEN_OPS)"
    define rest where "rest = (if tag then [dma_write ''gather_dma'' mid (start + (k + 1)) acmdrv_bypass_dma_cmd_g_r_tag_create] @
         gather_plan mid tx start ops (k + 2) pidx1 s else gather_plan mid tx start ops (k + 1) pidx1 s)"
    have plan: "gather_plan mid tx start (op # ops) k pidx s =
        pre @ [dma_write ''gather_dma'' mid (start + k) cmd] @ rest"
      unfolding plan0 c Inr pre_def rest_def tag_def pidx1_def Let_def by simp
    obtain r pidx' s1 where w: "write_prefetch_command mid op ops pidx s = Some (r, pidx', s1)"
      and out: "(if r \<noteq> 0 then Some (r, s1) else if_zero (dma_item ''gather_dma'' mid (start + k) cmd s1) (\<lambda>s2.
              if tag then
                if_zero (dma_item ''gather_dma'' mid (start + (k + 1)) acmdrv_bypass_dma_cmd_g_r_tag_create s2) (\<lambda>s3.
                  write_gather_ops mid tx start ops (k + 2) pidx' s3)
              else write_gather_ops mid tx start ops (k + 1) pidx' s2)) = Some res"
      using run unfolding c Inr tag_def by (auto simp: bind_eq_Some_conv)
    have p1: "follows_plan pre s (r, s1)" "pidx' = pidx1"
    proof -
      show "pidx' = pidx1"
        using w by (auto simp: write_prefetch_command_def pidx1_def bind_eq_Some_conv case_prod_beta Let_def split: if_splits)
      show "follows_plan pre s (r, s1)"
      proof (cases "opcode op = INSERT")
        case True
        obtain r0 s0 where d: "dma_item ''prefetch_dma'' mid pidx (move_command op ops s) s = (r0, s0)" by fastforce
        then have "r0 = r" "s0 = s1"
          using w True by (auto simp: write_prefetch_command_def move_command_def bind_eq_Some_conv)
        then show ?thesis using d True follows_dma [of "''prefetch_dma''" mid pidx "move_command op ops s" s]
          by (simp add: pre_def)
      next
        case False
        then show ?thesis using w by (simp add: write_prefetch_command_def pre_def)
      qed
    qed
    show ?thesis
    proof (cases "r = 0")
      case False
      then show ?thesis using out p1(1) follows_failure [OF p1(1)] plan by auto
    next
      case True
      have s1: "s1 = logged s pre" using p1(1) True by (simp add: follows_success)
      have "follows_plan ([dma_write ''gather_dma'' mid (start + k) cmd] @ rest) s1 res"
      proof (rule follows_if_zero [OF _ follows_dma])
        fix s2 out
        assume k: "(if tag then if_zero (dma_item ''gather_dma'' mid (start + (k + 1)) acmdrv_bypass_dma_cmd_g_r_tag_create s2)
                (\<lambda>s3. write_gather_ops mid tx start ops (k + 2) pidx' s3)
              else write_gather_ops mid tx start ops (k + 1) pidx' s2) = Some out"
          and s2: "s2 = logged s1 [dma_write ''gather_dma'' mid (start + k) cmd]"
        show "follows_plan rest s2 out"
        proof (cases tag)
          case False
          then show ?thesis using k Cons.IH [of "k + 1" pidx' s2] p1(2) by (simp add: rest_def s2 s1)
        next
          case True
          have "follows_plan ([dma_write ''gather_dma'' mid (start + (k + 1)) acmdrv_bypass_dma_cmd_g_r_tag_create] @
              gather_plan mid tx start ops (k + 2) pidx1 s) s2 out"
          proof (rule follows_if_zero [OF _ follows_dma])
            fix s3 out
            assume run3: "write_gather_ops mid tx start ops (k + 2) pidx' s3 = Some out"
              and s3: "s3 = logged s2 [dma_write ''gather_dma'' mid (start + (k + 1)) acmdrv_bypass_dma_cmd_g_r_tag_create]"
            have "gather_plan mid tx start ops (k + 2) pidx1 s3 = gather_plan mid tx start ops (k + 2) pidx1 s"
              by (simp add: s3 s2 s1)
            then show "follows_plan (gather_plan mid tx start ops (k + 2) pidx1 s) s3 out"
              using Cons.IH [OF run3] p1(2) by simp
          qed (use k True in simp)
          then show ?thesis using True by (simp add: rest_def)
        qed
      qed (use out True in simp)
      then show ?thesis unfolding plan
        using follows_then [of pre s s1] p1(1) True by simp
    qed
  qed
qed

section \<open>The programs of a stream\<close>

text \<open>The operations that have a gather command.\<close>

definition gatherable :: "operation \<Rightarrow> bool" where
  "gatherable op = (opcode op = INSERT_CONSTANT \<or> opcode op = PAD \<and> op_data op \<noteq> [] \<or> opcode op = FORWARD \<or>
     opcode op = INSERT)"

lemma gatherable_command: "gatherable op \<longleftrightarrow> (\<exists>cmd. gather_command op l = Some (Inr cmd))"
  by (auto simp: gatherable_def gather_command_def split: acm_operation_code.splits list.splits)

lemma gather_ops_gatherable:
  "write_gather_ops mid tx start ops k pidx s = Some (0, s') \<Longrightarrow> \<forall>op\<in>set ops. gatherable op"
proof (induction ops arbitrary: k pidx s)
  case (Cons op ops)
  define last_item where "last_item = (ops = [] \<and> \<not> (tx \<and> k = NUM_AUTOGEN_OPS - 1))"
  note run = Cons.prems [unfolded write_gather_ops.simps Let_def, folded last_item_def]
  obtain c where c: "gather_command op last_item = Some c"
    using run by (auto simp: bind_eq_Some_conv)
  show ?case
  proof (cases c)
    case (Inl e)
    then have "e \<noteq> 0" using c by (auto simp: gather_command_def split: acm_operation_code.splits list.splits)
    then show ?thesis using run c Inl by simp
  next
    case (Inr cmd)
    then have "gatherable op" using c gatherable_command by blast
    moreover have "\<exists>k' pidx' s1. write_gather_ops mid tx start ops k' pidx' s1 = Some (0, s')"
      using run unfolding c Inr
      by (auto simp: if_zero_def bind_eq_Some_conv split: if_splits prod.splits)
    ultimately show ?thesis using Cons.IH by auto
  qed
qed simp

lemma gather_program_length:
  "\<forall>op\<in>set ops. gatherable op \<Longrightarrow> length (gather_program tx ops k) =
     length ops + (if tx \<and> k < NUM_AUTOGEN_OPS \<and> NUM_AUTOGEN_OPS \<le> k + length ops then 1 else 0)"
proof (induction tx ops k rule: gather_program.induct)
  case (2 tx op ops k)
  from "2.prems" obtain cmd where "gather_command op (ops = [] \<and> \<not> (tx \<and> k = NUM_AUTOGEN_OPS - 1)) = Some (Inr cmd)"
    using gatherable_command by (metis list.set_intros(1))
  with 2 show ?case by auto
qed simp

lemma move_program_length: "length (move_program ops s) = count_operations (\<lambda>op. opcode op = INSERT) ops"
  by (induction ops) auto

definition on_table :: "string \<Rightarrow> hw_write \<Rightarrow> bool" where
  "on_table file w = (w_path w = ACMDEV_BASE @ CONFIG_GROUP @ ''/'' @ file)"

lemma on_table_dma [simp]:
  "on_table file (dma_write file' mid i cmd) \<longleftrightarrow> file = file'"
  by (auto simp: on_table_def dma_write_def config_write_def)

lemma filter_dma_rows: "filter (on_table file) (dma_rows file' mid i cmds) = (if file = file' then dma_rows file' mid i cmds else [])"
  by (induction cmds arbitrary: i) auto

lemma gather_plan_tables:
  assumes "\<forall>op\<in>set ops. gatherable op"
  shows "filter (on_table ''gather_dma'') (gather_plan mid tx start ops k pidx s) =
      dma_rows ''gather_dma'' mid (start + k) (gather_program tx ops k) \<and>
    filter (on_table ''prefetch_dma'') (gather_plan mid tx start ops k pidx s) =
      dma_rows ''prefetch_dma'' mid pidx (move_program ops s) \<and>
    (\<forall>w\<in>set (gather_plan mid tx start ops k pidx s). on_table ''gather_dma'' w \<or> on_table ''prefetch_dma'' w)"
  using assms
proof (induction ops arbitrary: k pidx)
  case (Cons op ops)
  from Cons.prems obtain cmd where c: "gather_command op (ops = [] \<and> \<not> (tx \<and> k = NUM_AUTOGEN_OPS - 1)) = Some (Inr cmd)"
    using gatherable_command by (metis list.set_intros(1))
  have ih: "filter (on_table ''gather_dma'') (gather_plan mid tx start ops k pidx s) =
      dma_rows ''gather_dma'' mid (start + k) (gather_program tx ops k)"
    "filter (on_table ''prefetch_dma'') (gather_plan mid tx start ops k pidx s) =
      dma_rows ''prefetch_dma'' mid pidx (move_program ops s)"
    "\<forall>w\<in>set (gather_plan mid tx start ops k pidx s). on_table ''gather_dma'' w \<or> on_table ''prefetch_dma'' w"
    for k pidx using Cons.IH [of k pidx] Cons.prems by auto
  show ?case unfolding gather_plan.simps gather_program.simps c
    using ih by (auto simp: Let_def numeral_2_eq_2 numeral_3_eq_3)
qed simp

definition prefetch_program :: "bool \<Rightarrow> bitarray \<Rightarrow> operation list \<Rightarrow> acm_state \<Rightarrow> u32 list" where
  "prefetch_program tx v ops s = head_program tx v @ move_program ops s"

text \<open>The lock vector: exactly the buffers of the INSERT operations.\<close>

lemma lock_vector_bits:
  "lock_vector_of ops v s = Some v' \<Longrightarrow> length v = 2 \<Longrightarrow>
   length v' = 2 \<and> (\<forall>n. abit v' n \<longleftrightarrow> abit v n \<or>
     (\<exists>op\<in>set ops. opcode op = INSERT \<and> (\<exists>b. buffer_index_of op s = Some b \<and> unat b = n \<and> n < 64)))"
proof (induction ops arbitrary: v)
  case Nil
  then show ?case by simp
next
  case (Cons op ops)
  have el: "elno 8 = 2" by (simp add: elno_def)
  show ?case
  proof (cases "opcode op = INSERT")
    case True
    then obtain b where b: "buffer_index_of op s = Some b"
        "lock_vector_of ops (acmdrv_bitarray_set (unat b) 8 v) s = Some v'"
      using Cons.prems(1) by (auto simp: bind_eq_Some_conv)
    have set: "abit (acmdrv_bitarray_set (unat b) 8 v) n \<longleftrightarrow> abit v n \<or> (n = unat b \<and> unat b div 8 < 8)" for n
      using abit_set [of v 8] Cons.prems(2) el by simp
    have "unat b div 8 < 8 \<longleftrightarrow> unat b < 64" by auto
    then show ?thesis using Cons.IH [OF b(2)] Cons.prems(2) True b(1) set by auto
  next
    case False
    then show ?thesis using Cons.IH [of v] Cons.prems by auto
  qed
qed

definition indexed_buffers :: "operation list \<Rightarrow> acm_state \<Rightarrow> bool" where
  "indexed_buffers ops s = (\<forall>op\<in>set ops. opcode op = INSERT \<longrightarrow> (\<exists>b. buffer_index_of op s = Some b \<and> unat b < 64))"

lemma lock_vector_count:
  assumes "lock_vector_of ops (acmdrv_bitarray_zero 8) s = Some v" "indexed_buffers ops s"
  shows "acmdrv_bitarray_count 8 v = 0 \<longleftrightarrow> (\<forall>op\<in>set ops. opcode op \<noteq> INSERT)"
proof -
  have el: "elno 8 = 2" by (simp add: elno_def)
  have bits: "length v = 2" "\<And>n. abit v n \<longleftrightarrow>
      (\<exists>op\<in>set ops. opcode op = INSERT \<and> (\<exists>b. buffer_index_of op s = Some b \<and> unat b = n \<and> n < 64))"
    using lock_vector_bits [OF assms(1)] el by auto
  have "acmdrv_bitarray_count 8 v = 0 \<longleftrightarrow> (\<forall>n. \<not> abit v n)"
    by (rule count_zero_iff) (simp add: bits(1) el)
  then show ?thesis using assms(2) unfolding bits(2) indexed_buffers_def by blast
qed

lemma lock_program_length: "length (lock_program dual v is) \<le> length is"
  by (induction "is") auto

lemma head_program_length: "length (head_program dual v) \<le> (if acmdrv_bitarray_count 8 v = 0 then 1 else 4)"
  using lock_program_length [of dual v "[0, 1, 2, 3]"] by (simp add: head_program_def del: lock_program.simps)

lemma no_inserts_no_moves: "\<forall>op\<in>set ops. opcode op \<noteq> INSERT \<Longrightarrow> move_program ops s = []"
  by (induction ops) auto

lemma egress_tables:
  assumes "write_gather_egress start mid st s = Some (0, s')" "indexed_buffers (operations st) s"
  shows "\<exists>v ws. lock_vector_of (operations st) (acmdrv_bitarray_zero 8) s = Some v \<and> s' = logged s ws \<and>
     (\<forall>op\<in>set (operations st). gatherable op) \<and>
     filter (on_table ''gather_dma'') ws =
       dma_rows ''gather_dma'' mid start (gather_program (stype st = REDUNDANT_STREAM_TX) (operations st) 0) \<and>
     filter (on_table ''prefetch_dma'') ws =
       dma_rows ''prefetch_dma'' mid start (prefetch_program (stype st = REDUNDANT_STREAM_TX) v (operations st) s) \<and>
     (\<forall>w\<in>set ws. on_table ''gather_dma'' w \<or> on_table ''prefetch_dma'' w)"
proof -
  define tx where "tx = (stype st = REDUNDANT_STREAM_TX)"
  obtain v where v: "lock_vector_of (operations st) (acmdrv_bitarray_zero 8) s = Some v"
    using assms(1) by (auto simp: write_gather_egress_def bind_eq_Some_conv)
  obtain r pidx s1 where h: "write_prefetch_head mid tx v start s = (r, pidx, s1)" by (metis prod_cases3)
  have r: "r = 0" and ops: "write_gather_ops mid tx start (operations st) 0 pidx s1 = Some (0, s')"
    using assms(1) v h by (auto simp: write_gather_egress_def tx_def Let_def split: if_splits)
  have s1: "s1 = logged s (dma_rows ''prefetch_dma'' mid start (head_program tx v))" and pidx: "pidx = start + head_rows tx v"
    using prefetch_head_plan [OF h] r by (simp_all add: follows_success)
  have g: "\<forall>op\<in>set (operations st). gatherable op" by (rule gather_ops_gatherable [OF ops])
  have s': "s' = logged s1 (gather_plan mid tx start (operations st) 0 pidx s)"
    using gather_ops_plan [OF ops] by (simp add: follows_success s1)
  have pre: "dma_rows ''prefetch_dma'' mid start (head_program tx v) @ dma_rows ''prefetch_dma'' mid pidx (move_program (operations st) s) =
      dma_rows ''prefetch_dma'' mid start (prefetch_program tx v (operations st) s)"
  proof (cases "acmdrv_bitarray_count 8 v = 0")
    case True
    then have "move_program (operations st) s = []"
      using lock_vector_count [OF v assms(2)] no_inserts_no_moves by blast
    then show ?thesis by (simp add: prefetch_program_def)
  next
    case False
    then have "head_rows tx v = length (head_program tx v)" by (simp only: head_rows_def head_program_def if_True not_False_eq_True)
    then show ?thesis by (simp add: prefetch_program_def pidx)
  qed
  define ws where "ws = dma_rows ''prefetch_dma'' mid start (head_program tx v) @ gather_plan mid tx start (operations st) 0 pidx s"
  have "s' = logged s ws" by (simp add: s' s1 ws_def)
  moreover have "filter (on_table ''gather_dma'') ws = dma_rows ''gather_dma'' mid start (gather_program tx (operations st) 0)"
    "filter (on_table ''prefetch_dma'') ws = dma_rows ''prefetch_dma'' mid start (prefetch_program tx v (operations st) s)"
    using gather_plan_tables [OF g, of mid tx start 0 pidx s] pre by (simp_all add: ws_def filter_dma_rows)
  moreover have "\<forall>w\<in>set ws. on_table ''gather_dma'' w \<or> on_table ''prefetch_dma'' w"
    using gather_plan_tables [OF g, of mid tx start 0 pidx s]
    by (auto simp: ws_def dma_rows_def)
  ultimately show ?thesis using v g unfolding tx_def by blast
qed

section \<open>The tables of a module\<close>

definition dma_addr :: "string \<Rightarrow> nat \<Rightarrow> nat \<Rightarrow> string \<times> nat" where
  "dma_addr file mid row = (ACMDEV_BASE @ CONFIG_GROUP @ ''/'' @ file, mid * 4 * 256 + row * 4)"

lemma dma_addr_eq [simp]: "dma_addr file mid row = dma_addr file' mid row' \<longleftrightarrow> file = file' \<and> row = row'"
  by (auto simp: dma_addr_def)

lemma dma_write_addr: "(w_path (dma_write file mid row c), w_offset (dma_write file mid row c)) = dma_addr file mid row"
  by (simp add: dma_write_def config_write_def dma_addr_def)

lemma hw_mem_Cons: "hw_mem (w # log) = (\<lambda>a. case hw_mem log a of
    None \<Rightarrow> if a = (w_path w, w_offset w) then Some (w_data w) else None | Some d \<Rightarrow> Some d)"
  by (auto simp: hw_mem_def map_add_def fun_eq_iff split: option.split)

lemma hw_mem_filter: "hw_mem (filter (on_table file) log) (dma_addr file mid row) = hw_mem log (dma_addr file mid row)"
  by (induction log) (auto simp: hw_mem_Cons on_table_def dma_addr_def split: option.split)

lemma hw_mem_rows_other: "(\<And>j. j < length cmds \<Longrightarrow> row \<noteq> i + j) \<Longrightarrow> hw_mem (dma_rows file mid i cmds) (dma_addr file mid row) = None"
proof (induction cmds arbitrary: i)
  case (Cons c cs)
  have "hw_mem (dma_rows file mid (Suc i) cs) (dma_addr file mid row) = None"
    by (rule Cons.IH) (use Cons.prems [of "Suc _"] in auto)
  then show ?case using Cons.prems [of 0] by (simp add: hw_mem_Cons dma_write_addr)
qed simp

lemma hw_mem_rows:
  "j < length cmds \<Longrightarrow> hw_mem (dma_rows file mid i cmds) (dma_addr file mid (i + j)) = Some (D_u32 (cmds ! j))"
proof (induction cmds arbitrary: i j)
  case (Cons c cs)
  show ?case
  proof (cases j)
    case 0
    have "hw_mem (dma_rows file mid (Suc i) cs) (dma_addr file mid i) = None"
      by (rule hw_mem_rows_other) simp
    then show ?thesis using 0 by (simp add: hw_mem_Cons dma_write_addr) (simp add: dma_write_def config_write_def)
  next
    case (Suc j')
    then show ?thesis using Cons.IH [of j' "Suc i"] Cons.prems by (simp add: hw_mem_Cons)
  qed
qed simp

definition rows_within :: "nat \<Rightarrow> nat \<Rightarrow> nat \<Rightarrow> hw_write list \<Rightarrow> bool" where
  "rows_within mid lo hi ws = (\<forall>w\<in>set ws. \<exists>file row. (file = ''gather_dma'' \<or> file = ''prefetch_dma'') \<and>
     (w_path w, w_offset w) = dma_addr file mid row \<and> lo \<le> row \<and> row < hi)"

lemma rows_within_other:
  assumes "rows_within mid lo hi ws" "row < lo \<or> hi \<le> row"
  shows "hw_mem ws (dma_addr file mid row) = None"
  using assms by (intro hw_mem_other) (fastforce simp: rows_within_def)

lemma rows_within_dma:
  assumes "file = ''gather_dma'' \<or> file = ''prefetch_dma''" "lo \<le> i" "i + length cmds \<le> hi"
  shows "rows_within mid lo hi (dma_rows file mid i cmds)"
  using assms(2,3)
proof (induction cmds arbitrary: i)
  case (Cons c cs)
  have "rows_within mid lo hi (dma_rows file mid (Suc i) cs)" using Cons by simp
  then show ?case using Cons.prems assms(1)
    unfolding rows_within_def by (auto simp: dma_write_addr)
qed (simp add: rows_within_def)

lemma rows_within_tables:
  assumes "\<forall>w\<in>set ws. on_table ''gather_dma'' w \<or> on_table ''prefetch_dma'' w"
    and "rows_within mid lo hi (filter (on_table ''gather_dma'') ws)"
    and "rows_within mid lo hi (filter (on_table ''prefetch_dma'') ws)"
  shows "rows_within mid lo hi ws"
  using assms unfolding rows_within_def by auto

definition egress_stream :: "acm_stream \<Rightarrow> bool" where
  "egress_stream st = (stype st \<noteq> INGRESS_TRIGGERED_STREAM \<and> stype st \<noteq> REDUNDANT_STREAM_RX)"

definition stream_tables :: "nat \<Rightarrow> acm_state \<Rightarrow> acm_stream \<Rightarrow> hw_write list \<Rightarrow> bool" where
  "stream_tables mid s st ws = (let idx = unat (gather_dma_index st); tx = (stype st = REDUNDANT_STREAM_TX) in
     (if 0 < gather_width st then rows_within mid idx (idx + gather_width st) ws else rows_within mid 0 2 ws) \<and>
     (egress_stream st \<and> 0 < gather_width st \<longrightarrow>
       (\<exists>v. lock_vector_of (operations st) (acmdrv_bitarray_zero 8) s = Some v \<and>
         filter (on_table ''gather_dma'') ws = dma_rows ''gather_dma'' mid idx (gather_program tx (operations st) 0) \<and>
         filter (on_table ''prefetch_dma'') ws = dma_rows ''prefetch_dma'' mid idx (prefetch_program tx v (operations st) s))))"

text \<open>A stream with its table index: without rows of its own it points to one of the two fixed rows.\<close>

definition table_ready :: "acm_state \<Rightarrow> acm_stream \<Rightarrow> bool" where
  "table_ready s st = (indexed_buffers (operations st) s \<and> stream_num_gather_ops st \<le> 254 \<and>
     stream_num_prefetch_ops st \<le> 254 \<and> (gather_width st = 0 \<longrightarrow> unat (gather_dma_index st) < 2))"

lemma count_gatherable: "\<forall>op\<in>set ops. gatherable op \<Longrightarrow> count_operations is_gather_op ops = length ops"
  by (induction ops) (auto simp: gatherable_def is_gather_op_def)

lemma forward_all_not_gatherable: "stream_has_operation_x ops FORWARD_ALL \<Longrightarrow> \<not> (\<forall>op\<in>set ops. gatherable op)"
  unfolding stream_has_operation_x_iff gatherable_def by force

lemma prefetch_program_length:
  assumes "lock_vector_of (operations st) (acmdrv_bitarray_zero 8) s = Some v" "indexed_buffers (operations st) s"
  shows "length (prefetch_program tx v (operations st) s) \<le> stream_num_prefetch_ops st"
proof -
  have m: "length (move_program (operations st) s) = stream_num_operations_x st INSERT"
    by (simp add: move_program_length stream_num_operations_x_def)
  have z: "stream_num_operations_x st INSERT = 0 \<longleftrightarrow> acmdrv_bitarray_count 8 v = 0"
    using lock_vector_count [OF assms] by (simp add: stream_num_operations_x_def count_operations_zero_iff)
  show ?thesis using m z head_program_length [of tx v]
    by (auto simp: prefetch_program_def stream_num_prefetch_ops_def Let_def split: if_splits)
qed

lemma ingress_plan:
  "write_gather_ingress idx mid ops s = (0, s') \<Longrightarrow>
   \<exists>ws. s' = logged s ws \<and> (ws = [] \<or> ws = dma_rows ''gather_dma'' mid idx [acmdrv_bypass_dma_cmd_g_forward_create])"
proof (induction ops)
  case Nil
  then show ?case by (intro exI [of _ "[]"]) simp
next
  case (Cons op ops)
  show ?case
  proof (cases "opcode op = FORWARD_ALL")
    case True
    then have "dma_item ''gather_dma'' mid idx acmdrv_bypass_dma_cmd_g_forward_create s = (0, s')" using Cons.prems by simp
    then have "s' = logged s [dma_write ''gather_dma'' mid idx acmdrv_bypass_dma_cmd_g_forward_create]"
      using follows_dma follows_success by metis
    then show ?thesis by auto
  next
    case False
    then show ?thesis using Cons by simp
  qed
qed

lemma gather_stream_tables:
  assumes run: "write_gather_stream mid p s = Some (0, s')" and st: "st_streams s p = Some st"
    and ready: "table_ready s st"
  shows "\<exists>ws. s' = logged s ws \<and> stream_tables mid s st ws"
proof (cases "egress_stream st")
  case True
  define tx where "tx = (stype st = REDUNDANT_STREAM_TX)"
  define idx where "idx = unat (gather_dma_index st)"
  have e: "write_gather_egress idx mid st s = Some (0, s')"
    using run st True by (simp add: write_gather_stream_def egress_stream_def idx_def)
  have ib: "indexed_buffers (operations st) s" using ready by (simp add: table_ready_def)
  obtain v ws where v: "lock_vector_of (operations st) (acmdrv_bitarray_zero 8) s = Some v" and ws: "s' = logged s ws"
    and g: "\<forall>op\<in>set (operations st). gatherable op"
    and t: "filter (on_table ''gather_dma'') ws = dma_rows ''gather_dma'' mid idx (gather_program tx (operations st) 0)"
      "filter (on_table ''prefetch_dma'') ws = dma_rows ''prefetch_dma'' mid idx (prefetch_program tx v (operations st) s)"
      "\<forall>w\<in>set ws. on_table ''gather_dma'' w \<or> on_table ''prefetch_dma'' w"
    using egress_tables [OF e ib] unfolding tx_def by blast
  have n: "stream_num_gather_ops st = length (operations st) + (if tx then 1 else 0)"
    using count_gatherable [OF g] by (simp add: stream_num_gather_ops_def tx_def)
  have lg: "length (gather_program tx (operations st) 0) \<le> stream_num_gather_ops st"
    using gather_program_length [OF g, of tx 0] n by simp
  have lp: "length (prefetch_program tx v (operations st) s) \<le> stream_num_prefetch_ops st"
    by (rule prefetch_program_length [OF v ib])
  have within: "rows_within mid lo hi ws"
    if "lo \<le> idx" "idx + length (gather_program tx (operations st) 0) \<le> hi"
      "idx + length (prefetch_program tx v (operations st) s) \<le> hi" for lo hi
  proof (rule rows_within_tables [OF t(3)])
    show "rows_within mid lo hi (filter (on_table ''gather_dma'') ws)"
      unfolding t(1) by (rule rows_within_dma [OF _ that(1,2)]) (rule disjI1, rule refl)
    show "rows_within mid lo hi (filter (on_table ''prefetch_dma'') ws)"
      unfolding t(2) by (rule rows_within_dma [OF _ that(1,3)]) (rule disjI2, rule refl)
  qed
  have exact: "unat (word_of_nat (stream_num_gather_ops st) :: u16) = stream_num_gather_ops st"
    "unat (word_of_nat (stream_num_prefetch_ops st) :: u16) = stream_num_prefetch_ops st"
    using ready by (simp_all add: table_ready_def unat_of_nat)
  show ?thesis
  proof (cases "0 < gather_width st")
    case True
    then have w: "gather_width st = max (stream_num_gather_ops st) (stream_num_prefetch_ops st)"
      using exact by (auto simp: gather_width_def Let_def split: if_splits)
    have "idx + length (gather_program tx (operations st) 0) \<le> idx + gather_width st"
      "idx + length (prefetch_program tx v (operations st) s) \<le> idx + gather_width st"
      using lg lp w by linarith+
    then have "rows_within mid idx (idx + gather_width st) ws" by (rule within [OF order.refl])
    then have "stream_tables mid s st ws"
      unfolding stream_tables_def Let_def tx_def [symmetric] idx_def [symmetric] using True t(1,2) by (simp add: v)
    then show ?thesis using ws by blast
  next
    case False
    then have "stream_num_gather_ops st = 0 \<or> stream_has_operation_x (operations st) FORWARD_ALL"
      using exact by (auto simp: gather_width_def Let_def split: if_splits)
    then have none: "operations st = []" "\<not> tx"
      using n forward_all_not_gatherable g by (auto split: if_splits)
    have "stream_num_prefetch_ops st = 1" using none by (simp add: stream_num_prefetch_ops_def count_defs)
    moreover have "idx < 2" using ready False by (simp add: table_ready_def idx_def)
    ultimately have "idx + length (gather_program tx (operations st) 0) \<le> 2"
      "idx + length (prefetch_program tx v (operations st) s) \<le> 2"
      using lg lp none n by simp_all
    then have "rows_within mid 0 2 ws" using within [of 0 2] by simp
    then show ?thesis using ws False unfolding stream_tables_def Let_def by auto
  qed
next
  case False
  define idx where "idx = unat (gather_dma_index st)"
  have "\<exists>ws. s' = logged s ws \<and> (ws = [] \<or> ws = dma_rows ''gather_dma'' mid idx [acmdrv_bypass_dma_cmd_g_forward_create])"
  proof (cases "stype st = INGRESS_TRIGGERED_STREAM")
    case True
    then have "write_gather_ingress idx mid (operations st) s = (0, s')"
      using run st by (simp add: write_gather_stream_def idx_def)
    then show ?thesis by (rule ingress_plan)
  next
    case no: False
    then have "s' = logged s []" using run st False by (simp add: write_gather_stream_def egress_stream_def)
    then show ?thesis by blast
  qed
  then obtain ws where ws: "s' = logged s ws" "ws = [] \<or> ws = dma_rows ''gather_dma'' mid idx [acmdrv_bypass_dma_cmd_g_forward_create]"
    by blast
  have within: "rows_within mid lo hi ws" if "lo \<le> idx" "Suc idx \<le> hi" for lo hi
    using ws(2) rows_within_dma [of "''gather_dma''" lo idx "[acmdrv_bypass_dma_cmd_g_forward_create]" hi mid] that
    by (auto simp: rows_within_def [of _ _ _ "[]"])
  have "if 0 < gather_width st then rows_within mid idx (idx + gather_width st) ws else rows_within mid 0 2 ws"
  proof (cases "0 < gather_width st")
    case True
    then show ?thesis using within [of idx "idx + gather_width st"] by simp
  next
    case False
    then show ?thesis using ready within [of 0 2] by (simp add: table_ready_def idx_def)
  qed
  then show ?thesis using ws(1) False by (auto simp: stream_tables_def idx_def Let_def)
qed

lemma logged_streams_only:
  "lock_vector_of ops v (logged s us) = lock_vector_of ops v s"
  "move_program ops (logged s us) = move_program ops s"
  "indexed_buffers ops (logged s us) = indexed_buffers ops s"
proof -
  show "lock_vector_of ops v (logged s us) = lock_vector_of ops v s" by (induction ops arbitrary: v) auto
  show "move_program ops (logged s us) = move_program ops s" by (induction ops) auto
  show "indexed_buffers ops (logged s us) = indexed_buffers ops s" by (simp add: indexed_buffers_def)
qed

lemma stream_tables_logged: "stream_tables mid (logged s us) st ws = stream_tables mid s st ws"
  "table_ready (logged s us) st = table_ready s st"
  by (simp_all add: stream_tables_def table_ready_def prefetch_program_def logged_streams_only)

lemma foreach_gather_tables:
  "foreach_st (write_gather_stream mid) ps s = Some (0, s') \<Longrightarrow> module_streams s ps = Some sts \<Longrightarrow>
   \<forall>st\<in>set sts. table_ready s st \<Longrightarrow>
   \<exists>wss. s' = logged s (concat wss) \<and> list_all2 (stream_tables mid s) sts wss"
proof (induction ps arbitrary: s sts)
  case Nil
  then show ?case by (intro exI [of _ "[]"]) (simp add: module_streams_def)
next
  case (Cons p ps)
  obtain st sts1 where st: "st_streams s p = Some st" "module_streams s ps = Some sts1" "sts = st # sts1"
    using Cons.prems(2) by (auto simp: module_streams_Cons)
  obtain r s1 where w: "write_gather_stream mid p s = Some (r, s1)"
    and rest: "(if r \<noteq> 0 then Some (r, s1) else foreach_st (write_gather_stream mid) ps s1) = Some (0, s')"
    using Cons.prems(1) by (auto simp: bind_eq_Some_conv split: prod.splits)
  then have r: "r = 0" "foreach_st (write_gather_stream mid) ps s1 = Some (0, s')" by (auto split: if_splits)
  obtain ws where ws: "s1 = logged s ws" "stream_tables mid s st ws"
    using gather_stream_tables [OF _ st(1)] w r(1) Cons.prems(3) st(3) by auto
  have "module_streams s1 ps = Some sts1" using st(2) by (simp add: ws(1) module_streams_def)
  moreover have "\<forall>st\<in>set sts1. table_ready s1 st" using Cons.prems(3) st(3) by (simp add: ws(1) stream_tables_logged)
  ultimately obtain wss where "s' = logged s1 (concat wss)" "list_all2 (stream_tables mid s1) sts1 wss"
    using Cons.IH [OF r(2)] by blast
  then show ?case using ws st(3) by (intro exI [of _ "ws # wss"]) (simp add: stream_tables_logged cong: list.rel_cong)
qed

lemma hw_mem_concat:
  assumes "k < length wss" "\<And>j. j < length wss \<Longrightarrow> j \<noteq> k \<Longrightarrow> hw_mem (wss ! j) a = None"
    and "hw_mem (wss ! k) a = Some d"
  shows "hw_mem (concat wss) a = Some d"
  using assms
proof (induction wss arbitrary: k)
  case (Cons ws wss)
  show ?case
  proof (cases k)
    case 0
    have "hw_mem w a = None" if "w \<in> set wss" for w
      using that Cons.prems(2) [of "Suc _"] 0 by (auto simp: in_set_conv_nth)
    then have "hw_mem (concat wss) a = None" by (induction wss) (auto simp: map_add_def)
    then show ?thesis using Cons.prems(3) 0 by (simp add: map_add_def)
  next
    case (Suc k')
    then have "hw_mem (concat wss) a = Some d"
      using Cons.IH [of k'] Cons.prems(1) Cons.prems(2) [of "Suc _"] Cons.prems(3) by auto
    then show ?thesis by (simp add: map_add_def)
  qed
qed simp

lemma rows_disjointD:
  assumes "rows_disjoint lo hi rs"
  shows "k < length rs \<Longrightarrow> 0 < snd (rs ! k) \<Longrightarrow> lo \<le> fst (rs ! k)"
    and "j < k \<Longrightarrow> k < length rs \<Longrightarrow> 0 < snd (rs ! j) \<Longrightarrow> 0 < snd (rs ! k) \<Longrightarrow> fst (rs ! j) + snd (rs ! j) \<le> fst (rs ! k)"
  using assms by (auto simp: rows_disjoint_def)

text \<open>The rows of one stream are not touched by another.\<close>

lemma stream_tables_other:
  assumes "stream_tables mid s st ws" "rows_disjoint 2 hi (map (\<lambda>st. (unat (gather_dma_index st), gather_width st)) sts)"
    and "j < length sts" "k < length sts" "j \<noteq> k" "st = sts ! j" "0 < gather_width (sts ! k)"
    and "unat (gather_dma_index (sts ! k)) \<le> row" "row < unat (gather_dma_index (sts ! k)) + gather_width (sts ! k)"
  shows "hw_mem ws (dma_addr file mid row) = None"
proof -
  note d = rows_disjointD [OF assms(2)]
  have lo: "2 \<le> unat (gather_dma_index (sts ! k))" using d(1) [of k] assms(4,7) by simp
  show ?thesis
  proof (cases "0 < gather_width st")
    case False
    then have "rows_within mid 0 2 ws" using assms(1) by (simp add: stream_tables_def Let_def)
    then show ?thesis by (rule rows_within_other) (use lo assms(8) in simp)
  next
    case True
    then have "rows_within mid (unat (gather_dma_index st)) (unat (gather_dma_index st) + gather_width st) ws"
      using assms(1) by (simp add: stream_tables_def Let_def)
    moreover have "unat (gather_dma_index st) + gather_width st \<le> row \<or> row < unat (gather_dma_index st)"
    proof (cases "j < k")
      case less: True
      then show ?thesis using d(2) [of j k] assms(3,4,6,7,8) True by simp
    next
      case False
      then have "k < j" using assms(5) by simp
      then show ?thesis using d(2) [of k j] assms(3,4,6,7,9) True by simp
    qed
    ultimately show ?thesis using rows_within_other by blast
  qed
qed

text \<open>The whole function: the four fixed rows, then the streams.\<close>

definition fixed_rows :: "nat \<Rightarrow> hw_write list" where
  "fixed_rows mid = [dma_write ''gather_dma'' mid 0 GATHER_NOP_CMD,
     dma_write ''prefetch_dma'' mid 0 acmdrv_bypass_dma_cmd_p_nop_create,
     dma_write ''gather_dma'' mid 1 acmdrv_bypass_dma_cmd_g_forward_create,
     dma_write ''prefetch_dma'' mid 1 acmdrv_bypass_dma_cmd_p_nop_create]"

lemma if_zero_success:
  assumes "if_zero (dma_item file mid i c s) k = Some (0, s')"
  shows "k (logged s [dma_write file mid i c]) = Some (0, s')"
proof -
  obtain r s1 where d: "dma_item file mid i c s = (r, s1)" by fastforce
  then have "r = 0" "k s1 = Some (0, s')" using assms by (auto simp: if_zero_def split: if_splits)
  moreover have "follows_plan [dma_write file mid i c] s (r, s1)" using follows_dma d by metis
  ultimately show ?thesis by (simp add: follows_success)
qed

lemma gather_dma_log:
  assumes "sysfs_write_prefetcher_gather_dma m s = Some (0, s')" "module_streams s (mod_streams m) = Some sts"
    and "\<forall>st\<in>set sts. table_ready s st"
  shows "\<exists>wss. s' = logged s (fixed_rows (module_id m) @ concat wss) \<and> list_all2 (stream_tables (module_id m) s) sts wss"
proof -
  let ?s = "logged s (fixed_rows (module_id m))"
  have "foreach_st (write_gather_stream (module_id m)) (mod_streams m) ?s = Some (0, s')"
    using assms(1) unfolding sysfs_write_prefetcher_gather_dma_def
    by (auto dest!: if_zero_success simp: fixed_rows_def)
  moreover have "module_streams ?s (mod_streams m) = Some sts" using assms(2) by (simp add: module_streams_def)
  moreover have "\<forall>st\<in>set sts. table_ready ?s st" using assms(3) by (simp add: stream_tables_logged)
  ultimately obtain wss where "s' = logged ?s (concat wss)" "list_all2 (stream_tables (module_id m) ?s) sts wss"
    using foreach_gather_tables by blast
  then show ?thesis by (intro exI [of _ wss]) (simp add: stream_tables_logged cong: list.rel_cong)
qed

lemma gather_dma_mem:
  assumes run: "sysfs_write_prefetcher_gather_dma m s = Some (0, s')" "module_streams s (mod_streams m) = Some sts"
    and ready: "\<forall>st\<in>set sts. table_ready s st"
    and disj: "rows_disjoint 2 256 (map (\<lambda>st. (unat (gather_dma_index st), gather_width st)) sts)"
    and k: "k < length sts" "0 < gather_width (sts ! k)" "egress_stream (sts ! k)"
  shows "\<exists>v. lock_vector_of (operations (sts ! k)) (acmdrv_bitarray_zero 8) s = Some v \<and>
     (\<forall>j < length (gather_program (stype (sts ! k) = REDUNDANT_STREAM_TX) (operations (sts ! k)) 0).
        hw_mem (st_hw s') (dma_addr ''gather_dma'' (module_id m) (unat (gather_dma_index (sts ! k)) + j)) =
          Some (D_u32 (gather_program (stype (sts ! k) = REDUNDANT_STREAM_TX) (operations (sts ! k)) 0 ! j))) \<and>
     (\<forall>j < length (prefetch_program (stype (sts ! k) = REDUNDANT_STREAM_TX) v (operations (sts ! k)) s).
        hw_mem (st_hw s') (dma_addr ''prefetch_dma'' (module_id m) (unat (gather_dma_index (sts ! k)) + j)) =
          Some (D_u32 (prefetch_program (stype (sts ! k) = REDUNDANT_STREAM_TX) v (operations (sts ! k)) s ! j)))"
proof -
  define mid where "mid = module_id m"
  define st where "st = sts ! k"
  define idx where "idx = unat (gather_dma_index st)"
  define tx where "tx = (stype st = REDUNDANT_STREAM_TX)"
  obtain wss where log: "s' = logged s (fixed_rows mid @ concat wss)" and all: "list_all2 (stream_tables mid s) sts wss"
    using gather_dma_log [OF run ready] unfolding mid_def by blast
  have kw: "k < length wss" and tk: "stream_tables mid s st (wss ! k)"
    using all k(1) by (simp_all add: list_all2_conv_all_nth st_def)
  obtain v where v: "lock_vector_of (operations st) (acmdrv_bitarray_zero 8) s = Some v"
    and t: "filter (on_table ''gather_dma'') (wss ! k) = dma_rows ''gather_dma'' mid idx (gather_program tx (operations st) 0)"
      "filter (on_table ''prefetch_dma'') (wss ! k) = dma_rows ''prefetch_dma'' mid idx (prefetch_program tx v (operations st) s)"
    and win: "rows_within mid idx (idx + gather_width st) (wss ! k)"
    using tk k(2,3) by (auto simp: stream_tables_def Let_def st_def [symmetric] idx_def tx_def)
  have mem: "hw_mem (st_hw s') (dma_addr file mid (idx + j)) = Some (D_u32 (cmds ! j))"
    if f: "filter (on_table file) (wss ! k) = dma_rows file mid idx cmds" and j: "j < length cmds" for "file" cmds j
  proof -
    have own: "hw_mem (wss ! k) (dma_addr file mid (idx + j)) = Some (D_u32 (cmds ! j))"
      using hw_mem_rows [OF j, of "file" mid idx] hw_mem_filter [of "file" "wss ! k" mid "idx + j"] f by simp
    then have "idx + j < idx + gather_width st"
      using rows_within_other [OF win, of "idx + j" "file"] by (metis linorder_not_le option.distinct(1))
    moreover have "hw_mem (wss ! i) (dma_addr file mid (idx + j)) = None" if "i < length wss" "i \<noteq> k" for i
      using stream_tables_other [OF _ disj _ k(1) that(2) refl k(2), of mid s "wss ! i" "idx + j" "file"] all that calculation
      by (simp add: list_all2_conv_all_nth idx_def st_def)
    ultimately have "hw_mem (concat wss) (dma_addr file mid (idx + j)) = Some (D_u32 (cmds ! j))"
      using hw_mem_concat [OF kw _ own] by blast
    then show ?thesis by (simp add: log map_add_def)
  qed
  show ?thesis using v mem [OF t(1)] mem [OF t(2)] unfolding idx_def tx_def st_def mid_def by blast
qed

end
