(* ===== verification/Acm_Hw_Data_Spec.thy ===== *)
theory Acm_Hw_Data_Spec
  imports Acm_Hw_Spec
begin

text \<open>
  The constant buffer, the scatter table and the message buffer tables: what the hardware holds
  after they were written.
\<close>

section \<open>Constant buffer\<close>

definition constant_at :: "u8 list \<Rightarrow> operation \<Rightarrow> bool" where
  "constant_at data op = (opcode op = INSERT_CONSTANT \<longrightarrow>
     (let at = unat (const_buff_offset op); n = unat (data_size op) in
      at + n \<le> length data \<and> take n (drop at data) = take n (op_data op)))"

text \<open>The same operation, apart from the offset that it was given.\<close>

definition placed :: "operation \<Rightarrow> operation \<Rightarrow> bool" where
  "placed op op' = (\<exists>off. op' = op\<lparr>const_buff_offset := off\<rparr>)"

lemma take_drop_splice:
  assumes "off + n \<le> length data" "length bs = n"
  shows "take n (drop off (take off data @ bs @ drop (off + n) data)) = bs"
    and "take off (take off data @ bs @ drop (off + n) data) = take off data"
    and "drop (off + n) (take off data @ bs @ drop (off + n) data) = drop (off + n) data"
    and "length (take off data @ bs @ drop (off + n) data) = length data"
  using assms by simp_all

lemma take_drop_prefix:
  assumes "take k data' = take k data" "off + n \<le> k"
  shows "take n (drop off data') = take n (drop off data)"
proof -
  have "take n (drop off data') = drop off (take (off + n) (take k data'))" using assms(2) by (simp add: take_drop min_def add.commute)
  also have "\<dots> = take n (drop off data)" unfolding assms(1) using assms(2) by (simp add: take_drop min_def add.commute)
  finally show ?thesis .
qed

lemma const_buffer_ops_spec:
  "const_buffer_ops ops off data = Some (ops', off', data') \<Longrightarrow> off \<le> length data \<Longrightarrow> length data \<le> 65535 \<Longrightarrow>
   length data' = length data \<and> off \<le> off' \<and> off' \<le> length data \<and> take off data' = take off data \<and>
   drop off' data' = drop off' data \<and> list_all2 placed ops ops' \<and>
   (\<forall>op\<in>set ops'. opcode op = INSERT_CONSTANT \<longrightarrow> off \<le> unat (const_buff_offset op) \<and>
      unat (const_buff_offset op) + unat (data_size op) \<le> off') \<and>
   (\<forall>op\<in>set ops'. constant_at data' op)"
proof (induction ops arbitrary: off data ops')
  case Nil
  then show ?case by simp
next
  case (Cons op ops)
  show ?case
  proof (cases "opcode op = INSERT_CONSTANT")
    case False
    then obtain ops1 where r: "const_buffer_ops ops off data = Some (ops1, off', data')" "ops' = op # ops1"
      using Cons.prems(1) by (auto simp: bind_eq_Some_conv)
    have "placed op op" unfolding placed_def by (intro exI [of _ "const_buff_offset op"]) simp
    then show ?thesis using Cons.IH [OF r(1) Cons.prems(2,3)] r(2) False by (auto simp: constant_at_def)
  next
    case True
    define n where "n = unat (data_size op)"
    define bs where "bs = take n (op_data op)"
    define data1 where "data1 = take off data @ bs @ drop (off + n) data"
    have fits: "n \<le> length (op_data op)" "off + n \<le> length data"
      and ex: "\<exists>ops1. const_buffer_ops ops (off + n) data1 = Some (ops1, off', data') \<and>
        ops' = op\<lparr>const_buff_offset := word_of_nat off\<rparr> # ops1"
      using Cons.prems(1) True
      by (auto simp: bind_eq_Some_conv n_def [symmetric] bs_def [symmetric] data1_def [symmetric] not_less split: if_splits)
    then obtain ops1 where r: "const_buffer_ops ops (off + n) data1 = Some (ops1, off', data')"
        "ops' = op\<lparr>const_buff_offset := word_of_nat off\<rparr> # ops1" by blast
    have bs: "length bs = n" using fits(1) by (simp add: bs_def)
    note sp = take_drop_splice [OF fits(2) bs, folded data1_def]
    have ih: "length data' = length data" "off + n \<le> off'" "off' \<le> length data" "take (off + n) data' = take (off + n) data1"
        "drop off' data' = drop off' data1" "list_all2 placed ops ops1"
        "\<forall>op\<in>set ops1. opcode op = INSERT_CONSTANT \<longrightarrow> off + n \<le> unat (const_buff_offset op) \<and>
           unat (const_buff_offset op) + unat (data_size op) \<le> off'" "\<forall>op\<in>set ops1. constant_at data' op"
      using Cons.IH [OF r(1)] fits(2) Cons.prems(3) sp(4) by auto
    have off: "unat (word_of_nat off :: u16) = off" using Cons.prems(2,3) by (simp add: unat_of_nat)
    have "take n (drop off data') = take n (drop off data1)" by (rule take_drop_prefix [OF ih(4)]) simp
    then have here: "constant_at data' (op\<lparr>const_buff_offset := word_of_nat off\<rparr>)"
      using fits(2) ih(1) sp(1) by (simp add: constant_at_def off Let_def n_def [symmetric] bs_def)
    have "take off data' = take off (take (off + n) data')" by (simp add: min_def)
    also have "\<dots> = take off data" unfolding ih(4) using sp(2) by (simp add: min_def)
    finally have t: "take off data' = take off data" .
    have "drop off' data1 = drop (off' - (off + n)) (drop (off + n) data1)" using ih(2) by simp
    also have "\<dots> = drop off' data" unfolding sp(3) using ih(2) by simp
    finally have d: "drop off' data' = drop off' data" using ih(5) by simp
    have "placed op (op\<lparr>const_buff_offset := word_of_nat off\<rparr>)" by (auto simp: placed_def)
    then show ?thesis using ih here t d r(2) off fits(2) by (auto simp: n_def [symmetric])
  qed
qed

text \<open>The streams of the module, one after the other.\<close>

definition restaged :: "acm_stream \<Rightarrow> acm_stream \<Rightarrow> bool" where
  "restaged st st' = (\<exists>ops. st' = st\<lparr>operations := ops\<rparr> \<and> list_all2 placed (operations st) ops)"

lemma constant_at_prefix:
  assumes "take k data' = take k data" "length data' = length data" "constant_at data op"
    and "opcode op = INSERT_CONSTANT \<longrightarrow> unat (const_buff_offset op) + unat (data_size op) \<le> k"
  shows "constant_at data' op"
  using assms take_drop_prefix [OF assms(1), of "unat (const_buff_offset op)" "unat (data_size op)"]
  by (auto simp: constant_at_def Let_def)

lemma const_buffer_streams_spec:
  "const_buffer_streams ps off data s = Some (data', s') \<Longrightarrow> distinct ps \<Longrightarrow> module_streams s ps = Some sts \<Longrightarrow>
   off \<le> length data \<Longrightarrow> length data \<le> 65535 \<Longrightarrow>
   length data' = length data \<and> take off data' = take off data \<and>
   (\<exists>h sts'. s' = s\<lparr>st_streams := h\<rparr> \<and> (\<forall>q. q \<notin> set ps \<longrightarrow> h q = st_streams s q) \<and>
      module_streams s' ps = Some sts' \<and> list_all2 restaged sts sts' \<and>
      (\<forall>st\<in>set sts'. \<forall>op\<in>set (operations st). constant_at data' op))"
proof (induction ps arbitrary: off data s sts)
  case Nil
  then show ?case by (intro conjI exI [of _ "st_streams s"]) (auto simp: module_streams_def)
next
  case (Cons p ps)
  obtain st sts1 where st: "st_streams s p = Some st" "module_streams s ps = Some sts1" "sts = st # sts1"
    using Cons.prems(3) by (auto simp: module_streams_Cons)
  obtain ops off1 data1 where c: "const_buffer_ops (operations st) off data = Some (ops, off1, data1)"
    and rest: "const_buffer_streams ps off1 data1 (s\<lparr>st_streams := (st_streams s)(p \<mapsto> st\<lparr>operations := ops\<rparr>)\<rparr>) = Some (data', s')"
    using Cons.prems(1) st(1) by (auto simp: bind_eq_Some_conv mod_stream_Some_iff)
  define s1 where "s1 = s\<lparr>st_streams := (st_streams s)(p \<mapsto> st\<lparr>operations := ops\<rparr>)\<rparr>"
  from const_buffer_ops_spec [OF c Cons.prems(4,5)] have o: "length data1 = length data" "off \<le> off1" "off1 \<le> length data"
      "take off data1 = take off data" "list_all2 placed (operations st) ops"
      "\<forall>op\<in>set ops. opcode op = INSERT_CONSTANT \<longrightarrow> unat (const_buff_offset op) + unat (data_size op) \<le> off1"
      "\<forall>op\<in>set ops. constant_at data1 op" by auto
  have m: "module_streams s1 ps = Some sts1" using Cons.prems(2) st(2) by (simp add: s1_def module_streams_update_other)
  obtain h sts2 where ih: "length data' = length data1" "take off1 data' = take off1 data1"
      "s' = s1\<lparr>st_streams := h\<rparr>" "\<forall>q. q \<notin> set ps \<longrightarrow> h q = st_streams s1 q"
      "module_streams s' ps = Some sts2" "list_all2 restaged sts1 sts2"
      "\<forall>st\<in>set sts2. \<forall>op\<in>set (operations st). constant_at data' op"
    using Cons.IH [OF rest [folded s1_def] _ m] Cons.prems(2,5) o by auto
  have "st_streams s' p = Some (st\<lparr>operations := ops\<rparr>)" using ih(3,4) Cons.prems(2) by (simp add: s1_def)
  then have ms: "module_streams s' (p # ps) = Some (st\<lparr>operations := ops\<rparr> # sts2)" using ih(5) by (auto simp: module_streams_Cons)
  have "\<forall>op\<in>set ops. constant_at data' op" using o(6,7) ih(1,2) constant_at_prefix by blast
  then have "\<forall>x\<in>set (st\<lparr>operations := ops\<rparr> # sts2). \<forall>op\<in>set (operations x). constant_at data' op" using ih(7) by auto
  moreover have "list_all2 restaged sts (st\<lparr>operations := ops\<rparr> # sts2)" using st(3) ih(6) o(5) by (auto simp: restaged_def)
  moreover have "take off data' = take off data"
    using arg_cong [OF ih(2), of "take off"] o(2,4) by (simp add: min_def)
  moreover have "s' = s\<lparr>st_streams := h\<rparr>" "\<forall>q. q \<notin> set (p # ps) \<longrightarrow> h q = st_streams s q"
    using ih(3,4) by (auto simp: s1_def)
  ultimately show ?case using ms ih(1) o(1) by (metis (no_types, lifting))
qed

text \<open>With the limits of validation there is always room.\<close>

lemma const_buffer_ops_room:
  assumes "\<forall>op\<in>set ops. op_wf op" "int off + stream_sum_const_buffer ops \<le> int (length data)"
  shows "\<exists>ops' off' data'. const_buffer_ops ops off data = Some (ops', off', data') \<and>
    length data' = length data \<and> int off' = int off + stream_sum_const_buffer ops"
  using assms
proof (induction ops arbitrary: off data)
  case Nil
  then show ?case by simp
next
  case (Cons op ops)
  show ?case
  proof (cases "opcode op = INSERT_CONSTANT")
    case False
    then show ?thesis using Cons.IH [of off data] Cons.prems by auto
  next
    case True
    define n where "n = unat (data_size op)"
    have n: "length (op_data op) = n" "uint (op_length op) = int n"
      using Cons.prems(1) True by (simp_all add: op_wf_def n_def)
    have nonneg: "0 \<le> stream_sum_const_buffer ops" for ops by (induction ops) auto
    have fits: "off + n \<le> length data" using Cons.prems(2) True n(2) nonneg [of ops] by simp
    define data1 where "data1 = take off data @ take n (op_data op) @ drop (off + n) data"
    have "length data1 = length data" using fits n(1) by (simp add: data1_def)
    then obtain ops' off' data' where "const_buffer_ops ops (off + n) data1 = Some (ops', off', data')"
        "length data' = length data" "int off' = int (off + n) + stream_sum_const_buffer ops"
      using Cons.IH [of "off + n" data1] Cons.prems True n(2) by auto
    then show ?thesis using True fits n by (simp add: n_def [symmetric] data1_def)
  qed
qed

lemma const_buffer_streams_room:
  assumes "distinct ps" "module_streams s ps = Some sts" "\<forall>st\<in>set sts. \<forall>op\<in>set (operations st). op_wf op"
    and "int off + sum_const_buffers sts \<le> int (length data)"
  shows "\<exists>data' s'. const_buffer_streams ps off data s = Some (data', s')"
  using assms
proof (induction ps arbitrary: off data s sts)
  case Nil
  then show ?case by simp
next
  case (Cons p ps)
  obtain st sts1 where st: "st_streams s p = Some st" "module_streams s ps = Some sts1" "sts = st # sts1"
    using Cons.prems(2) by (auto simp: module_streams_Cons)
  have nonneg: "0 \<le> stream_sum_const_buffer ops" for ops by (induction ops) auto
  then have "0 \<le> sum_const_buffers sts" for sts by (induction sts) auto
  then have room: "int off + stream_sum_const_buffer (operations st) \<le> int (length data)"
    using Cons.prems(4) st(3) by (metis add.assoc le_add_same_cancel1 order_trans sum_const_buffers.simps(2))
  obtain ops off1 data1 where c: "const_buffer_ops (operations st) off data = Some (ops, off1, data1)"
      "length data1 = length data" "int off1 = int off + stream_sum_const_buffer (operations st)"
    using const_buffer_ops_room [OF _ room] Cons.prems(3) st(3) by auto
  define s1 where "s1 = s\<lparr>st_streams := (st_streams s)(p \<mapsto> st\<lparr>operations := ops\<rparr>)\<rparr>"
  have "module_streams s1 ps = Some sts1" using Cons.prems(1) st(2) by (simp add: s1_def module_streams_update_other)
  then obtain data' s' where "const_buffer_streams ps off1 data1 s1 = Some (data', s')"
    using Cons.IH [of s1 sts1 off1 data1] Cons.prems c(2,3) st(3) by auto
  then show ?case using st(1) c(1) by (simp add: mod_stream_def s1_def)
qed

section \<open>The scatter table\<close>

text \<open>
  A failing write in this table may be forgotten, so the log is known only when the hardware takes
  every write.
\<close>

lemma accepts_logged [simp]: "hw_accepts (logged s ws) = hw_accepts s"
  by (simp add: hw_accepts_def)

lemma item_accepts:
  assumes "hw_accepts s" "length f < 60"
  shows "write_buffer_config_sysfs_item f d n off s = (0, logged s [config_write f d n off])"
  using assms
  by (auto simp: write_buffer_config_sysfs_item_def sysfs_construct_path_name_def write_file_sysfs_def hw_accepts_def
      ACMDEV_BASE_def CONFIG_GROUP_def config_write_def logged_def Let_def not_less)

lemma dma_accepts:
  "hw_accepts s \<Longrightarrow> length tab < 60 \<Longrightarrow> dma_item tab mid idx cmd s = (0, logged s [dma_write tab mid idx cmd])"
  by (simp add: dma_item_def dma_write_def item_accepts)

fun scatter_program :: "operation list \<Rightarrow> acm_state \<Rightarrow> u32 list" where
  "scatter_program [] s = []"
| "scatter_program (op # ops) s =
     (if opcode op = READ
      then acmdrv_bypass_dma_cmd_s_move_with_timestamp_create (\<not> stream_has_operation_x ops READ) False
        (op_offset op) (op_length op) (the (buffer_index_of op s)) # scatter_program ops s
      else scatter_program ops s)"

lemma scatter_program_logged [simp]: "scatter_program ops (logged s ws) = scatter_program ops s"
  by (induction ops) auto

lemma scatter_program_length: "length (scatter_program ops s) = count_operations (\<lambda>op. opcode op = READ) ops"
  by (induction ops) auto

definition reads_linked :: "operation list \<Rightarrow> acm_state \<Rightarrow> bool" where
  "reads_linked ops s = (\<forall>op\<in>set ops. opcode op = READ \<longrightarrow> buffer_index_of op s \<noteq> None)"

lemma reads_linked_logged [simp]: "reads_linked ops (logged s ws) = reads_linked ops s"
  by (simp add: reads_linked_def)

lemma scatter_ops_accepted:
  "hw_accepts s \<Longrightarrow> reads_linked ops s \<Longrightarrow>
   write_scatter_ops mid ops i 0 s = Some (0, logged s (dma_rows ''scatter_dma'' mid i (scatter_program ops s)))"
proof (induction ops arbitrary: i s)
  case Nil
  then show ?case by simp
next
  case (Cons op ops)
  have l: "reads_linked ops s" using Cons.prems(2) by (simp add: reads_linked_def)
  show ?case
  proof (cases "opcode op = READ")
    case False
    then show ?thesis using Cons.IH [OF Cons.prems(1) l] by simp
  next
    case True
    then obtain b where b: "buffer_index_of op s = Some b" using Cons.prems(2) by (auto simp: reads_linked_def)
    define w where "w = dma_write ''scatter_dma'' mid i (acmdrv_bypass_dma_cmd_s_move_with_timestamp_create
      (\<not> stream_has_operation_x ops READ) False (op_offset op) (op_length op) b)"
    have "write_scatter_ops mid ops (i + 1) 0 (logged s [w]) = Some (0, logged (logged s [w]) (dma_rows ''scatter_dma'' mid (i + 1) (scatter_program ops s)))"
      using Cons.IH [of "logged s [w]" "i + 1"] Cons.prems(1) l by simp
    then show ?thesis using True b Cons.prems(1) by (simp add: dma_accepts w_def)
  qed
qed

definition scatter_writes :: "nat \<Rightarrow> acm_state \<Rightarrow> acm_stream \<Rightarrow> hw_write list" where
  "scatter_writes mid s st = (if is_lookup_stream st
     then dma_rows ''scatter_dma'' mid (unat (scatter_dma_index st)) (scatter_program (operations st) s) else [])"

lemma scatter_writes_logged [simp]: "scatter_writes mid (logged s ws) = scatter_writes mid s"
  by (simp add: scatter_writes_def fun_eq_iff)

lemma scatter_streams_accepted:
  "hw_accepts s \<Longrightarrow> module_streams s ps = Some sts \<Longrightarrow> \<forall>st\<in>set sts. reads_linked (operations st) s \<Longrightarrow>
   write_scatter_streams mid ps 0 s = Some (0, logged s (concat (map (scatter_writes mid s) sts)))"
proof (induction ps arbitrary: s sts)
  case Nil
  then show ?case by (simp add: module_streams_def)
next
  case (Cons p ps)
  obtain st sts1 where st: "st_streams s p = Some st" "module_streams s ps = Some sts1" "sts = st # sts1"
    using Cons.prems(2) by (auto simp: module_streams_Cons)
  have rec: "write_scatter_streams mid ps 0 (logged s ws) =
      Some (0, logged (logged s ws) (concat (map (scatter_writes mid s) sts1)))" for ws
    using Cons.IH [of "logged s ws" sts1] Cons.prems(1,3) st(2,3) by (simp add: module_streams_def)
  show ?case
  proof (cases "is_lookup_stream st")
    case True
    then have "write_scatter_ops mid (operations st) (unat (scatter_dma_index st)) 0 s =
        Some (0, logged s (scatter_writes mid s st))"
      using scatter_ops_accepted Cons.prems(1,3) st(3) by (simp add: scatter_writes_def)
    then show ?thesis using st(1,3) True rec by (simp add: is_lookup_stream_def)
  next
    case False
    then have "scatter_writes mid s st = []" by (simp add: scatter_writes_def)
    then show ?thesis using False st(1,3) rec [of "[]"] by (simp add: is_lookup_stream_def)
  qed
qed

lemma scatter_accepted:
  assumes "hw_accepts s" "module_streams s (mod_streams m) = Some sts" "\<forall>st\<in>set sts. reads_linked (operations st) s"
  shows "sysfs_write_scatter_dma m s = Some (0, logged s (dma_write ''scatter_dma'' (module_id m) 0 SCATTER_NOP_CMD #
    concat (map (scatter_writes (module_id m) s) sts)))"
proof -
  let ?w = "dma_write ''scatter_dma'' (module_id m) 0 SCATTER_NOP_CMD"
  have "module_streams (logged s [?w]) (mod_streams m) = Some sts" using assms(2) by (simp add: module_streams_def)
  then show ?thesis
    using scatter_streams_accepted [of "logged s [?w]" "mod_streams m" sts "module_id m"] assms(1,3)
    by (simp add: sysfs_write_scatter_dma_def dma_accepts if_zero_def)
qed

text \<open>The rows of a stream hold its program, as far as the table layout gives it rows of its own.\<close>

lemma scatter_mem:
  assumes disj: "rows_disjoint 1 256 (map (\<lambda>st. (unat (scatter_dma_index st), scatter_width st)) sts)"
    and small: "\<forall>st\<in>set sts. stream_num_scatter_ops st \<le> 255"
    and k: "k < length sts" "is_lookup_stream (sts ! k)" "j < length (scatter_program (operations (sts ! k)) s)"
  shows "hw_mem (w # concat (map (scatter_writes mid s) sts))
      (dma_addr ''scatter_dma'' mid (unat (scatter_dma_index (sts ! k)) + j)) =
    Some (D_u32 (scatter_program (operations (sts ! k)) s ! j))"
proof -
  let ?row = "unat (scatter_dma_index (sts ! k)) + j"
  have width: "scatter_width (sts ! i) = length (scatter_program (operations (sts ! i)) s)"
    if "i < length sts" "is_lookup_stream (sts ! i)" for i
  proof -
    have "stream_num_scatter_ops (sts ! i) \<le> 255" using small that(1) by simp
    then have "unat (word_of_nat (stream_num_scatter_ops (sts ! i)) :: u16) = stream_num_scatter_ops (sts ! i)"
      by (simp add: unat_of_nat)
    then show ?thesis using that(2)
      by (auto simp: scatter_width_def is_lookup_stream_def scatter_program_length stream_num_scatter_ops_def)
  qed
  have own: "hw_mem (scatter_writes mid s (sts ! k)) (dma_addr ''scatter_dma'' mid ?row) =
      Some (D_u32 (scatter_program (operations (sts ! k)) s ! j))"
    using hw_mem_rows [OF k(3)] k(2) by (simp add: scatter_writes_def)
  have other: "hw_mem (scatter_writes mid s (sts ! i)) (dma_addr ''scatter_dma'' mid ?row) = None"
    if i: "i < length sts" "i \<noteq> k" for i
  proof (cases "is_lookup_stream (sts ! i)")
    case False
    then show ?thesis by (simp add: scatter_writes_def)
  next
    case True
    have "?row \<noteq> unat (scatter_dma_index (sts ! i)) + l" if l: "l < length (scatter_program (operations (sts ! i)) s)" for l
    proof (cases "i < k")
      case less: True
      have "0 < length (scatter_program (operations (sts ! i)) s)" "0 < length (scatter_program (operations (sts ! k)) s)"
        using l k(3) by linarith+
      then show ?thesis
        using less rows_disjointD(2) [OF disj, of i k] i k width [OF i(1) \<open>is_lookup_stream (sts ! i)\<close>] width [OF k(1,2)] l by simp
    next
      case False
      then have less: "k < i" using i(2) by simp
      have "0 < length (scatter_program (operations (sts ! i)) s)" "0 < length (scatter_program (operations (sts ! k)) s)"
        using l k(3) by linarith+
      then show ?thesis
        using less rows_disjointD(2) [OF disj, of k i] i k width [OF i(1) True] width [OF k(1,2)] l by simp
    qed
    then show ?thesis using True by (simp add: scatter_writes_def hw_mem_rows_other)
  qed
  have "hw_mem (concat (map (scatter_writes mid s) sts)) (dma_addr ''scatter_dma'' mid ?row) =
      Some (D_u32 (scatter_program (operations (sts ! k)) s ! j))"
    using hw_mem_concat [of k "map (scatter_writes mid s) sts"] own other k(1) by simp
  then show ?thesis by (simp add: hw_mem_Cons)
qed

section \<open>Message buffers\<close>

definition desc_of :: "sysfs_buffer \<Rightarrow> u32" where
  "desc_of b = acmdrv_buff_desc_create (msg_buff_offset b) (buf_reset b) (stream_direction b) (buff_size b)
     (buf_timestamp b) (buf_valid b)"

definition desc_write :: "string \<Rightarrow> sysfs_buffer \<Rightarrow> hw_write" where
  "desc_write path b = \<lparr>w_path = path, w_offset = unat (msg_buff_index b) * 4, w_size = 4, w_data = D_u32 (desc_of b)\<rparr>"

lemma msg_buffs_desc_log:
  "write_msg_buffs BUFF_DESC path bs s = (0, s') \<Longrightarrow> s' = logged s (map (desc_write path) bs)"
proof (induction bs arbitrary: s)
  case (Cons b bs)
  have w: "msg_buff_write BUFF_DESC path b = Inr (desc_write path b)"
    by (simp add: msg_buff_write_def desc_write_def desc_of_def)
  then have "write_msg_buffs BUFF_DESC path bs (logged s [desc_write path b]) = (0, s')"
    using Cons.prems by (auto simp: Let_def logged_def split: if_splits)
  from Cons.IH [OF this] show ?case by simp
qed simp

text \<open>The fields of a descriptor; the size field holds sizes of 1 to 512 blocks.\<close>

lemma desc_fields:
  "acmdrv_buff_desc_offset_read (acmdrv_buff_desc_create off rst t sz ts v) = off"
  "acmdrv_buff_desc_reset_read (acmdrv_buff_desc_create off rst t sz ts v) = rst"
  "acmdrv_buff_desc_type_read (acmdrv_buff_desc_create off rst t sz ts v) = t"
  "acmdrv_buff_desc_timestamp_read (acmdrv_buff_desc_create off rst t sz ts v) = ts"
  "acmdrv_buff_desc_valid_read (acmdrv_buff_desc_create off rst t sz ts v) = v"
  by (simp_all add: acmdrv_buff_desc_create_def acmdrv_buff_desc_offset_read_def acmdrv_buff_desc_reset_read_def
      acmdrv_buff_desc_type_read_def acmdrv_buff_desc_timestamp_read_def acmdrv_buff_desc_valid_read_def
      field_simps buff_type_value_def split: acmdrv_buff_desc_type.split)

lemma desc_size_field:
  assumes "1 \<le> unat sz" "unat sz \<le> 512"
  shows "acmdrv_buff_desc_sub_buffer_size_read (acmdrv_buff_desc_create off rst t sz ts v) = sz"
proof -
  have u: "unat (ucast sz :: u32) = unat sz" using u16_bound [of sz] by (simp add: unsigned_ucast_eq take_bit_nat_eq_self)
  then have "unat (ucast sz - 1 :: u32) = unat sz - 1" using assms(1) by (simp add: unat_sub word_le_nat_alt)
  then have "take_bit 9 (ucast sz - 1 :: u32) = ucast sz - 1" using assms(2) by (intro take_bit_small) simp
  moreover have "ucast (ucast sz :: u32) = sz" by (rule bit_word_eqI) (auto simp: bit_ucast_iff)
  ultimately show ?thesis
    by (simp add: acmdrv_buff_desc_sub_buffer_size_read_def acmdrv_buff_desc_create_def field_simps)
qed

section \<open>Gather and prefetch tables on hardware that takes every write\<close>

lemma lock_commands_accepted:
  "hw_accepts s \<Longrightarrow> \<exists>pidx' ws. write_lock_commands mid dual v is pidx s = (0, pidx', logged s ws)"
proof (induction "is" arbitrary: pidx s)
  case Nil
  then show ?case by (auto intro!: exI [of _ "[]"])
next
  case (Cons i "is")
  show ?case
  proof (cases "lock_group v i = 0")
    case True
    then show ?thesis using Cons by simp
  next
    case False
    let ?w = "dma_write ''prefetch_dma'' mid pidx (acmdrv_bypass_dma_cmd_p_lock_msg_buff_create (word_of_nat i) dual (lock_group v i))"
    obtain pidx' ws where "write_lock_commands mid dual v is (pidx + 1) (logged s [?w]) = (0, pidx', logged (logged s [?w]) ws)"
      using Cons.IH [of "logged s [?w]" "pidx + 1"] Cons.prems by auto
    then show ?thesis using False Cons.prems by (simp add: dma_accepts) blast
  qed
qed

lemma gather_ops_accepted:
  "hw_accepts s \<Longrightarrow> \<forall>op\<in>set ops. gatherable op \<Longrightarrow> indexed_buffers ops s \<Longrightarrow>
   \<exists>ws. write_gather_ops mid tx start ops k pidx s = Some (0, logged s ws)"
proof (induction ops arbitrary: k pidx s)
  case Nil
  then show ?case by (auto intro!: exI [of _ "[]"])
next
  case (Cons op ops)
  define last_item where "last_item = (ops = [] \<and> \<not> (tx \<and> k = NUM_AUTOGEN_OPS - 1))"
  obtain cmd where c: "gather_command op last_item = Some (Inr cmd)"
    using Cons.prems(2) gatherable_command by (metis list.set_intros(1))
  obtain pidx' us where p: "write_prefetch_command mid op ops pidx s = Some (0, pidx', logged s us)"
  proof (cases "opcode op = INSERT")
    case True
    then obtain b where "buffer_index_of op s = Some b" using Cons.prems(3) by (auto simp: indexed_buffers_def)
    then show ?thesis using True Cons.prems(1) that by (simp add: write_prefetch_command_def dma_accepts)
  next
    case False
    then show ?thesis using that [of pidx "[]"] by (simp add: write_prefetch_command_def)
  qed
  have rec: "\<exists>ws. write_gather_ops mid tx start ops k' pidx' (logged s vs) = Some (0, logged s ws)" for k' vs
  proof -
    have "\<exists>ws. write_gather_ops mid tx start ops k' pidx' (logged s vs) = Some (0, logged (logged s vs) ws)"
      by (rule Cons.IH) (use Cons.prems in \<open>simp_all add: logged_streams_only\<close>, simp add: indexed_buffers_def)
    then show ?thesis by auto
  qed
  show ?case
    unfolding write_gather_ops.simps Let_def last_item_def [symmetric]
    using c p rec Cons.prems(1) by (cases tx) (simp_all add: dma_accepts if_zero_def)
qed

lemma lock_vector_defined: "indexed_buffers ops s \<Longrightarrow> \<exists>v'. lock_vector_of ops v s = Some v'"
proof (induction ops arbitrary: v)
  case (Cons op ops)
  have "indexed_buffers ops s" using Cons.prems by (simp add: indexed_buffers_def)
  moreover have "opcode op = INSERT \<Longrightarrow> \<exists>b. buffer_index_of op s = Some b" using Cons.prems by (auto simp: indexed_buffers_def)
  ultimately show ?case using Cons.IH by auto
qed simp

lemma gather_egress_accepted:
  assumes "hw_accepts s" "\<forall>op\<in>set (operations st). gatherable op" "indexed_buffers (operations st) s"
  shows "\<exists>ws. write_gather_egress start mid st s = Some (0, logged s ws)"
proof -
  obtain v where v: "lock_vector_of (operations st) (acmdrv_bitarray_zero 8) s = Some v"
    using lock_vector_defined [OF assms(3)] by blast
  define tx where "tx = (stype st = REDUNDANT_STREAM_TX)"
  obtain pidx us where h: "write_prefetch_head mid tx v start s = (0, pidx, logged s us)"
  proof (cases "acmdrv_bitarray_count 8 v = 0")
    case True
    then show ?thesis using assms(1) that by (simp add: write_prefetch_head_def dma_accepts)
  next
    case False
    then show ?thesis using lock_commands_accepted [OF assms(1), of mid tx v "[0, 1, 2, 3]" start] that
      by (auto simp: write_prefetch_head_def simp del: write_lock_commands.simps)
  qed
  have "indexed_buffers (operations st) (logged s us)" using assms(3) by (simp add: logged_streams_only)
  then obtain ws where "write_gather_ops mid tx start (operations st) 0 pidx (logged s us) = Some (0, logged (logged s us) ws)"
    using gather_ops_accepted [of "logged s us" "operations st" mid tx start 0 pidx] assms(1,2) by auto
  then show ?thesis using v h by (auto simp: write_gather_egress_def tx_def)
qed

lemma gather_ingress_accepted: "hw_accepts s \<Longrightarrow> \<exists>ws. write_gather_ingress idx mid ops s = (0, logged s ws)"
proof (induction ops)
  case Nil
  then show ?case by (auto intro!: exI [of _ "[]"])
next
  case (Cons op ops)
  then show ?case by (auto simp: dma_accepts)
qed

text \<open>Writing the two tables succeeds when every operation of the sending streams has a command.\<close>

definition programmable :: "acm_state \<Rightarrow> acm_stream \<Rightarrow> bool" where
  "programmable s st = (indexed_buffers (operations st) s \<and>
     (egress_stream st \<longrightarrow> (\<forall>op\<in>set (operations st). gatherable op)))"

lemma foreach_gather_accepted:
  "hw_accepts s \<Longrightarrow> module_streams s ps = Some sts \<Longrightarrow> \<forall>st\<in>set sts. programmable s st \<Longrightarrow>
   \<exists>ws. foreach_st (write_gather_stream mid) ps s = Some (0, logged s ws)"
proof (induction ps arbitrary: s sts)
  case Nil
  then show ?case by (auto intro!: exI [of _ "[]"])
next
  case (Cons p ps)
  obtain st sts1 where st: "st_streams s p = Some st" "module_streams s ps = Some sts1" "sts = st # sts1"
    using Cons.prems(2) by (auto simp: module_streams_Cons)
  have pr: "programmable s st" using Cons.prems(3) st(3) by simp
  obtain us where w: "write_gather_stream mid p s = Some (0, logged s us)"
  proof -
    consider "egress_stream st" | "stype st = INGRESS_TRIGGERED_STREAM" | "stype st = REDUNDANT_STREAM_RX"
      by (auto simp: egress_stream_def)
    then show ?thesis
    proof cases
      case 1
      then show ?thesis using gather_egress_accepted [OF Cons.prems(1), of st "unat (gather_dma_index st)" mid] pr st(1) that
        by (auto simp: write_gather_stream_def programmable_def egress_stream_def)
    next
      case 2
      then show ?thesis using gather_ingress_accepted [OF Cons.prems(1), of "unat (gather_dma_index st)" mid "operations st"] st(1) that
        by (auto simp: write_gather_stream_def)
    next
      case 3
      then show ?thesis using st(1) that [of "[]"] by (simp add: write_gather_stream_def)
    qed
  qed
  have "module_streams (logged s us) ps = Some sts1" using st(2) by (simp add: module_streams_def)
  moreover have "\<forall>st\<in>set sts1. programmable (logged s us) st"
    using Cons.prems(3) st(3) by (simp add: programmable_def logged_streams_only)
  ultimately obtain ws where "foreach_st (write_gather_stream mid) ps (logged s us) = Some (0, logged (logged s us) ws)"
    using Cons.IH [of "logged s us" sts1] Cons.prems(1) by auto
  then show ?case using w by auto
qed

lemma gather_dma_accepted:
  assumes "hw_accepts s" "module_streams s (mod_streams m) = Some sts" "\<forall>st\<in>set sts. programmable s st"
  shows "\<exists>ws. sysfs_write_prefetcher_gather_dma m s = Some (0, logged s ws)"
proof -
  let ?s = "logged s (fixed_rows (module_id m))"
  have "module_streams ?s (mod_streams m) = Some sts" using assms(2) by (simp add: module_streams_def)
  moreover have "\<forall>st\<in>set sts. programmable ?s st" using assms(3) by (simp add: programmable_def logged_streams_only)
  ultimately obtain ws where "foreach_st (write_gather_stream (module_id m)) (mod_streams m) ?s = Some (0, logged ?s ws)"
    using foreach_gather_accepted [of ?s "mod_streams m" sts "module_id m"] assms(1) by auto
  then show ?thesis using assms(1)
    by (auto simp: sysfs_write_prefetcher_gather_dma_def dma_accepts if_zero_def fixed_rows_def)
qed

end
