(* ===== verification/Acm_Table_Theorems.thy ===== *)
theory Acm_Table_Theorems
  imports Acm_Hw_Data_Spec Acm_Buffer_Theorems
begin

text \<open>
  The theorems about the tables of the hardware: the programs of the streams in the gather, prefetch
  and scatter tables, the locks of the message buffers, the constant buffer and the descriptors of
  the message buffers.
\<close>

section \<open>Locks\<close>

lemma lock_group_bits:
  assumes "length v = 2" "i < 4"
  shows "bit (lock_group v i) j \<longleftrightarrow> j < 16 \<and> abit v (16 * i + j)"
proof -
  have "elno 8 = 2" by (simp add: elno_def)
  then have "bit (acmdrv_bitmask_field_get 8 (acmdrv_bitmask_genmask 8 ((i + 1) * 16 - 1) (i * 16)) v) j \<longleftrightarrow>
      j < 32 \<and> i * 16 + j \<le> (i + 1) * 16 - 1 \<and> abit v (i * 16 + j)"
    by (intro field_get_bits) (use assms in auto)
  then show ?thesis by (auto simp: lock_group_def bit_ucast_iff mult.commute)
qed

text \<open>The buffers that a lock command locks: a group of 16 and a bit for each of them.\<close>

definition locks_buffer :: "u32 \<Rightarrow> nat \<Rightarrow> bool" where
  "locks_buffer cmd n = (RVAL 2 1 cmd = 3 \<and> RVAL 9 8 cmd = word_of_nat (n div 16) \<and> bit (RVAL 31 16 cmd) (n mod 16))"

lemma lock_command_buffers:
  assumes "i < 4" "n < 64"
  shows "locks_buffer (acmdrv_bypass_dma_cmd_p_lock_msg_buff_create (word_of_nat i) dual g) n \<longleftrightarrow>
    i = n div 16 \<and> bit g (n mod 16)"
proof -
  let ?c = "acmdrv_bypass_dma_cmd_p_lock_msg_buff_create (word_of_nat i) dual g"
  have small: "x < 4 \<Longrightarrow> take_bit 2 (word_of_nat x :: u32) = word_of_nat x" for x
    by (rule take_bit_small) (simp add: unat_of_nat)
  have "(ucast (word_of_nat i :: u8) :: u32) = word_of_nat i"
    using assms(1) by (intro word_unat_eq_iff [THEN iffD2]) (simp add: unsigned_ucast_eq unat_of_nat take_bit_nat_eq_self)
  then have grp: "RVAL 9 8 ?c = word_of_nat i"
    using small [OF assms(1)] by (simp add: acmdrv_bypass_dma_cmd_p_lock_msg_buff_create_def field_simps)
  have "word_of_nat i = (word_of_nat (n div 16) :: u32) \<longleftrightarrow> i = n div 16"
    using assms by (auto simp: word_unat_eq_iff unat_of_nat)
  moreover have "RVAL 2 1 ?c = 3" "RVAL 31 16 ?c = take_bit 16 (ucast g)"
    by (simp_all add: acmdrv_bypass_dma_cmd_p_lock_msg_buff_create_def field_simps take_bit_small)
  ultimately show ?thesis by (auto simp: locks_buffer_def grp bit_take_bit_iff bit_ucast_iff)
qed

lemma lock_program_buffers:
  assumes "length v = 2" "set is \<subseteq> {..<4}" "n < 64"
  shows "(\<exists>cmd\<in>set (lock_program dual v is). locks_buffer cmd n) \<longleftrightarrow> n div 16 \<in> set is \<and> abit v n"
  using assms(2)
proof (induction "is")
  case (Cons i "is")
  have b: "bit (lock_group v i) (n mod 16) \<longleftrightarrow> abit v (16 * i + n mod 16)"
    using lock_group_bits [OF assms(1)] Cons.prems by simp
  have n: "16 * (n div 16) + n mod 16 = n" by simp
  have z: "lock_group v i = 0 \<Longrightarrow> \<not> bit (lock_group v i) m" for m by simp
  show ?case using Cons lock_command_buffers [of i n dual "lock_group v i"] assms(3) b n z by (auto split: if_splits)
qed simp

text \<open>
  The lock commands in front of the prefetch program of a stream lock exactly the message buffers
  that the INSERT operations of the stream take their data from.
\<close>

theorem prefetch_locks_inserted_buffers:
  assumes "lock_vector_of ops (acmdrv_bitarray_zero 8) s = Some v" "indexed_buffers ops s" "n < 64"
  shows "(\<exists>cmd\<in>set (lock_program dual v [0, 1, 2, 3]). locks_buffer cmd n) \<longleftrightarrow>
    (\<exists>op\<in>set ops. opcode op = INSERT \<and> (\<exists>b. buffer_index_of op s = Some b \<and> unat b = n))"
proof -
  have el: "elno 8 = 2" by (simp add: elno_def)
  have v: "length v = 2" "abit v n \<longleftrightarrow> (\<exists>op\<in>set ops. opcode op = INSERT \<and> (\<exists>b. buffer_index_of op s = Some b \<and> unat b = n \<and> n < 64))"
    using lock_vector_bits [OF assms(1)] el by auto
  have "n div 16 \<in> set [0, 1, 2, 3]" using assms(3) by auto
  then show ?thesis using lock_program_buffers [OF v(1), of "[0, 1, 2, 3]" n dual] assms(3) v(2) by simp
qed

section \<open>Programs\<close>

text \<open>
  C5: When the writing of the gather and prefetch tables succeeds for a module whose streams have
  disjoint table rows, then for every sending stream with rows of its own the hardware holds, from
  the table index of the stream on, its complete gather program and its complete prefetch program:
  no row is missing, in another place, or overwritten by another stream.
\<close>

theorem gather_tables_hold_programs:
  assumes "sysfs_write_prefetcher_gather_dma m s = Some (0, s')" "module_streams s (mod_streams m) = Some sts"
    and "\<forall>st\<in>set sts. table_ready s st"
    and "rows_disjoint 2 256 (map (\<lambda>st. (unat (gather_dma_index st), gather_width st)) sts)"
    and "k < length sts" "0 < gather_width (sts ! k)" "egress_stream (sts ! k)"
  shows "\<exists>v. lock_vector_of (operations (sts ! k)) (acmdrv_bitarray_zero 8) s = Some v \<and>
     (\<forall>j < length (gather_program (stype (sts ! k) = REDUNDANT_STREAM_TX) (operations (sts ! k)) 0).
        hw_mem (st_hw s') (dma_addr ''gather_dma'' (module_id m) (unat (gather_dma_index (sts ! k)) + j)) =
          Some (D_u32 (gather_program (stype (sts ! k) = REDUNDANT_STREAM_TX) (operations (sts ! k)) 0 ! j))) \<and>
     (\<forall>j < length (prefetch_program (stype (sts ! k) = REDUNDANT_STREAM_TX) v (operations (sts ! k)) s).
        hw_mem (st_hw s') (dma_addr ''prefetch_dma'' (module_id m) (unat (gather_dma_index (sts ! k)) + j)) =
          Some (D_u32 (prefetch_program (stype (sts ! k) = REDUNDANT_STREAM_TX) v (operations (sts ! k)) s ! j)))"
  by (rule gather_dma_mem [OF assms])

text \<open>
  C20: On hardware that takes every write, writing the scatter table succeeds and the hardware holds
  for every receiving stream, from its scatter index on, one move command for each of its READ
  operations in their order.
\<close>

theorem scatter_table_holds_programs:
  assumes "hw_accepts s" "module_streams s (mod_streams m) = Some sts"
    and "\<forall>st\<in>set sts. reads_linked (operations st) s \<and> stream_num_scatter_ops st \<le> 255"
    and "rows_disjoint 1 256 (map (\<lambda>st. (unat (scatter_dma_index st), scatter_width st)) sts)"
  shows "\<exists>s'. sysfs_write_scatter_dma m s = Some (0, s') \<and>
     (\<forall>k < length sts. is_lookup_stream (sts ! k) \<longrightarrow>
        length (scatter_program (operations (sts ! k)) s) = stream_num_scatter_ops (sts ! k) \<and>
        (\<forall>j < length (scatter_program (operations (sts ! k)) s).
          hw_mem (st_hw s') (dma_addr ''scatter_dma'' (module_id m) (unat (scatter_dma_index (sts ! k)) + j)) =
            Some (D_u32 (scatter_program (operations (sts ! k)) s ! j))))"
proof -
  let ?ws = "dma_write ''scatter_dma'' (module_id m) 0 SCATTER_NOP_CMD # concat (map (scatter_writes (module_id m) s) sts)"
  have run: "sysfs_write_scatter_dma m s = Some (0, logged s ?ws)"
    using scatter_accepted [OF assms(1,2)] assms(3) by blast
  have "hw_mem (st_hw (logged s ?ws)) (dma_addr ''scatter_dma'' (module_id m) (unat (scatter_dma_index (sts ! k)) + j)) =
      Some (D_u32 (scatter_program (operations (sts ! k)) s ! j))"
    if "k < length sts" "is_lookup_stream (sts ! k)" "j < length (scatter_program (operations (sts ! k)) s)" for k j
    using scatter_mem [OF assms(4) _ that, of "dma_write ''scatter_dma'' (module_id m) 0 SCATTER_NOP_CMD" "module_id m"] assms(3)
    by (simp add: map_add_def)
  then show ?thesis using run by (auto simp: scatter_program_length stream_num_scatter_ops_def)
qed

section \<open>Data\<close>

text \<open>
  C21: When the INSERT_CONSTANT operations of a module are well-formed and their lengths sum up to at
  most 4096 bytes, writing the constant buffer finds room for all of them: it writes 4096 bytes in
  which every constant of every stream stands at the offset that its operation was given.
\<close>

theorem constant_buffer_holds_constants:
  assumes "distinct (mod_streams m)" "module_streams s (mod_streams m) = Some sts"
    and "\<forall>st\<in>set sts. \<forall>op\<in>set (operations st). op_wf op" "sum_const_buffers sts \<le> 4096"
  shows "\<exists>data r s1 s' sts'. sysfs_write_data_constant_buffer m s = Some (r, s') \<and> length data = 4096 \<and>
     (r = 0 \<longrightarrow> s' = logged s1 [config_write ''const_buffer'' (D_bytes data) 4096 (module_id m * 4096)]) \<and>
     module_streams s' (mod_streams m) = Some sts' \<and> list_all2 restaged sts sts' \<and>
     (\<forall>st\<in>set sts'. \<forall>op\<in>set (operations st). constant_at data op)"
proof -
  obtain data s1 where c: "const_buffer_streams (mod_streams m) 0 (replicate 4096 0) s = Some (data, s1)"
    using const_buffer_streams_room [OF assms(1-3), of 0 "replicate 4096 0"] assms(4) by auto
  obtain sts' where t: "length data = 4096" "module_streams s1 (mod_streams m) = Some sts'" "list_all2 restaged sts sts'"
      "\<forall>st\<in>set sts'. \<forall>op\<in>set (operations st). constant_at data op"
    using const_buffer_streams_spec [OF c assms(1,2)] by auto
  obtain r s' where w: "write_buffer_config_sysfs_item ''const_buffer'' (D_bytes data) 4096 (module_id m * 4096) s1 = (r, s')"
    by fastforce
  have "r = 0 \<longrightarrow> s' = logged s1 [config_write ''const_buffer'' (D_bytes data) 4096 (module_id m * 4096)]"
    and "st_streams s' = st_streams s1"
    using write_item_cases [OF w] by auto
  then show ?thesis using c w t by (auto simp: sysfs_write_data_constant_buffer_def module_streams_def)
qed

text \<open>
  C22: After the descriptors of a list of contiguous message buffers were written, the descriptor of
  buffer number k, read back with the accessors of the driver, has the offset, the direction and,
  for sizes of 1 to 512 blocks, the size of the buffer.
\<close>

theorem buffer_descriptors_read_back:
  assumes "sysfs_write_msg_buff_to_HW cfg BUFF_DESC s = Some (0, s')" "config_buffers s cfg = Some bs"
    and "contiguous bs" "length bs \<le> 256" "msg_buff_path BUFF_DESC = Inr path" "k < length bs"
  shows "\<exists>desc. hw_mem (st_hw s') (path, k * 4) = Some (D_u32 desc) \<and>
     acmdrv_buff_desc_offset_read desc = (\<Sum>b\<leftarrow>take k bs. buff_size b) \<and>
     acmdrv_buff_desc_type_read desc = stream_direction (bs ! k) \<and>
     (1 \<le> unat (buff_size (bs ! k)) \<and> unat (buff_size (bs ! k)) \<le> 512 \<longrightarrow>
        acmdrv_buff_desc_sub_buffer_size_read desc = buff_size (bs ! k))"
proof -
  have "write_msg_buffs BUFF_DESC path bs s = (0, s')"
    using assms(1,2,5) by (auto simp: sysfs_write_msg_buff_to_HW_def split: if_splits)
  then have s': "s' = logged s (map (desc_write path) bs)" by (rule msg_buffs_desc_log)
  have idx: "unat (msg_buff_index (bs ! i)) = i" if "i < length bs" for i
    using assms(3,4) that by (simp add: contiguous_def unat_of_nat)
  have "distinct (map (\<lambda>w. (w_path w, w_offset w)) (map (desc_write path) bs))"
    by (simp add: distinct_conv_nth desc_write_def idx)
  moreover have "desc_write path (bs ! k) \<in> set (map (desc_write path) bs)" using assms(6) by simp
  ultimately have "hw_mem (map (desc_write path) bs) (path, k * 4) = Some (D_u32 (desc_of (bs ! k)))"
    using hw_mem_distinct [of "map (desc_write path) bs" "desc_write path (bs ! k)"]
    by (simp add: desc_write_def idx [OF assms(6)])
  moreover have "msg_buff_offset (bs ! k) = (\<Sum>b\<leftarrow>take k bs. buff_size b)" using assms(3,6) by (simp add: contiguous_def)
  ultimately show ?thesis
    by (intro exI [of _ "desc_of (bs ! k)"]) (simp add: s' desc_of_def desc_fields desc_size_field)
qed

section \<open>Witnesses\<close>

text \<open>A sending and a receiving stream, with their message buffers and table indices.\<close>

definition ex_linked :: "operation \<Rightarrow> addr \<Rightarrow> operation" where
  "ex_linked op b = op\<lparr>msg_buf := Some b\<rparr>"

definition ex_sender :: acm_stream where
  "ex_sender = ex_stream\<lparr>operations := [ex_op INSERT_CONSTANT 6 None [1, 2, 3, 4, 5, 6], ex_op INSERT_CONSTANT 6 None [1, 2, 3, 4, 5, 7],
     ex_op INSERT_CONSTANT 4 None [0x81, 0, 0, 5], ex_linked (ex_op INSERT 60 (Some ''acm_tx'') []) 4]\<rparr>"

definition ex_receiver :: acm_stream where
  "ex_receiver = ex_stream\<lparr>stype := INGRESS_TRIGGERED_STREAM, operations := [ex_linked (ex_op READ 40 (Some ''acm_rx'') []) 6],
     gather_dma_index := 0, scatter_dma_index := 1\<rparr>"

definition ex_buffer :: "u8 \<Rightarrow> u16 \<Rightarrow> acmdrv_buff_desc_type \<Rightarrow> string \<Rightarrow> sysfs_buffer" where
  "ex_buffer i off d n = \<lparr>msg_buff_index = i, msg_buff_offset = off, buf_reset = False, stream_direction = d,
     buff_size = 15, buf_timestamp = True, buf_valid = True, msg_buff_name = n\<rparr>"

definition ex_running :: acm_state where
  "ex_running = ex_state\<lparr>st_next := 7, st_streams := [1 \<mapsto> ex_sender, 5 \<mapsto> ex_receiver],
     st_modules := [0 \<mapsto> ex_module\<lparr>mod_streams := [1, 5]\<rparr>],
     st_bufs := [4 \<mapsto> ex_buffer 0 0 ACMDRV_BUFF_DESC_BUFF_TYPE_TX ''acm_tx'', 6 \<mapsto> ex_buffer 1 15 ACMDRV_BUFF_DESC_BUFF_TYPE_RX ''acm_rx'']\<rparr>"

lemmas ex_running_defs = ex_running_def ex_sender_def ex_receiver_def ex_linked_def ex_buffer_def

lemma ex_running_accepts: "hw_accepts ex_running"
  by (simp add: hw_accepts_def ex_running_def ex_state_def ex_empty_def ex_env_def)

lemma ex_running_streams: "module_streams ex_running [1, 5] = Some [ex_sender, ex_receiver]"
  by (simp add: module_streams_def ex_running_def)

lemma ex_running_widths: "gather_width ex_sender = 5" "gather_width ex_receiver = 0"
    "scatter_width ex_sender = 0" "scatter_width ex_receiver = 1"
  by (simp_all add: width_defs is_gather_op_def ex_running_defs ex_stream_def ex_op_def)

lemma ex_running_ready: "table_ready ex_running ex_sender" "table_ready ex_running ex_receiver"
  by (simp_all add: table_ready_def indexed_buffers_def buffer_index_of_def ex_running_widths)
    (simp_all add: width_defs is_gather_op_def ex_running_defs ex_stream_def ex_op_def)

lemma ex_running_lock: "lock_vector_of (operations ex_sender) (acmdrv_bitarray_zero 8) ex_running = Some [1, 0]"
  by (simp add: ex_running_defs ex_stream_def ex_op_def buffer_index_of_def acmdrv_bitarray_zero_def elno_def
      acmdrv_bitarray_set_def acmdrv_bitarray_idx_def acmdrv_bitarray_mask_def numeral_2_eq_2)

theorem prefetch_locks_inserted_buffers_witness:
  "(\<exists>cmd\<in>set (lock_program False [1, 0] [0, 1, 2, 3]). locks_buffer cmd 0)"
proof -
  have ib: "indexed_buffers (operations ex_sender) ex_running" using ex_running_ready(1) by (simp add: table_ready_def)
  have "\<exists>op\<in>set (operations ex_sender). opcode op = INSERT \<and> (\<exists>b. buffer_index_of op ex_running = Some b \<and> unat b = 0)"
    by (simp add: ex_running_defs ex_stream_def ex_op_def buffer_index_of_def)
  then show ?thesis using prefetch_locks_inserted_buffers [OF ex_running_lock ib, of 0 False] by simp
qed

theorem scatter_table_holds_programs_witness:
  "\<exists>s'. sysfs_write_scatter_dma (ex_module\<lparr>mod_streams := [1, 5]\<rparr>) ex_running = Some (0, s') \<and>
     hw_mem (st_hw s') (dma_addr ''scatter_dma'' 0 1) = Some (D_u32 (scatter_program (operations ex_receiver) ex_running ! 0))"
proof -
  have len: "length (scatter_program (operations ex_receiver) ex_running) = 1" "stream_num_scatter_ops ex_sender = 0"
      "stream_num_scatter_ops ex_receiver = 1"
    by (simp_all add: count_defs ex_running_defs ex_stream_def ex_op_def)
  have "reads_linked (operations ex_sender) ex_running" "reads_linked (operations ex_receiver) ex_running"
    by (simp_all add: reads_linked_def ex_running_defs ex_stream_def ex_op_def buffer_index_of_def)
  moreover have "rows_disjoint 1 256 (map (\<lambda>st. (unat (scatter_dma_index st), scatter_width st)) [ex_sender, ex_receiver])"
    by (simp add: rows_disjoint_def ex_running_widths less_Suc_eq) (simp add: ex_running_defs ex_stream_def)
  ultimately obtain s' where s': "sysfs_write_scatter_dma (ex_module\<lparr>mod_streams := [1, 5]\<rparr>) ex_running = Some (0, s')"
      "\<forall>k < length [ex_sender, ex_receiver]. is_lookup_stream ([ex_sender, ex_receiver] ! k) \<longrightarrow>
        length (scatter_program (operations ([ex_sender, ex_receiver] ! k)) ex_running) = stream_num_scatter_ops ([ex_sender, ex_receiver] ! k) \<and>
        (\<forall>j < length (scatter_program (operations ([ex_sender, ex_receiver] ! k)) ex_running).
          hw_mem (st_hw s') (dma_addr ''scatter_dma'' (module_id ex_module) (unat (scatter_dma_index ([ex_sender, ex_receiver] ! k)) + j)) =
            Some (D_u32 (scatter_program (operations ([ex_sender, ex_receiver] ! k)) ex_running ! j)))"
    using scatter_table_holds_programs [OF ex_running_accepts, of "ex_module\<lparr>mod_streams := [1, 5]\<rparr>"] ex_running_streams len
    by auto
  have "is_lookup_stream ex_receiver" "unat (scatter_dma_index ex_receiver) = 1" "module_id ex_module = 0"
    by (simp_all add: is_lookup_stream_def ex_receiver_def ex_module_def)
  then show ?thesis using s'(1) spec [OF s'(2), of 1] len by (auto simp del: scatter_program.simps)
qed

lemma ex_running_index: "unat (gather_dma_index ex_sender) = 2" "egress_stream ex_sender" "\<not> egress_stream ex_receiver"
  by (simp_all add: ex_sender_def ex_receiver_def ex_stream_def egress_stream_def)

lemma ex_running_disjoint:
  "rows_disjoint 2 256 (map (\<lambda>st. (unat (gather_dma_index st), gather_width st)) [ex_sender, ex_receiver])"
  by (simp add: rows_disjoint_def ex_running_widths ex_running_index less_Suc_eq)

lemma ex_running_gatherable: "\<forall>op\<in>set (operations ex_sender). gatherable op"
  by (simp add: gatherable_def ex_running_defs ex_op_def)

theorem gather_tables_hold_programs_witness:
  "\<exists>s'. sysfs_write_prefetcher_gather_dma (ex_module\<lparr>mod_streams := [1, 5]\<rparr>) ex_running = Some (0, s') \<and>
     hw_mem (st_hw s') (dma_addr ''gather_dma'' 0 2) = Some (D_u32 (gather_program False (operations ex_sender) 0 ! 0))"
proof -
  let ?m = "ex_module\<lparr>mod_streams := [1, 5]\<rparr>"
  have ms: "module_streams ex_running (mod_streams ?m) = Some [ex_sender, ex_receiver]" using ex_running_streams by simp
  have "\<forall>st\<in>set [ex_sender, ex_receiver]. programmable ex_running st"
    using ex_running_ready ex_running_gatherable ex_running_index by (simp add: programmable_def table_ready_def)
  then obtain ws where run: "sysfs_write_prefetcher_gather_dma ?m ex_running = Some (0, logged ex_running ws)"
    using gather_dma_accepted [OF ex_running_accepts ms] by blast
  have "\<forall>st\<in>set [ex_sender, ex_receiver]. table_ready ex_running st" using ex_running_ready by simp
  note t = gather_tables_hold_programs [OF run ms this ex_running_disjoint, of 0]
  have len: "length (gather_program False (operations ex_sender) 0) = 4"
    using gather_program_length [OF ex_running_gatherable, of False 0] by (simp add: ex_sender_def)
  have "stype ex_sender = TIME_TRIGGERED_STREAM" "module_id ?m = 0" by (simp_all add: ex_sender_def ex_stream_def ex_module_def)
  then have "\<forall>j < 4. hw_mem (st_hw (logged ex_running ws)) (dma_addr ''gather_dma'' 0 (2 + j)) =
      Some (D_u32 (gather_program False (operations ex_sender) 0 ! j))"
    using t len ex_running_widths ex_running_index by (simp del: gather_program.simps) blast
  then have "hw_mem (st_hw (logged ex_running ws)) (dma_addr ''gather_dma'' 0 (2 + 0)) =
      Some (D_u32 (gather_program False (operations ex_sender) 0 ! 0))" by (elim allE [of _ 0]) simp
  then show ?thesis using run by (intro exI [of _ "logged ex_running ws"]) simp
qed

theorem constant_buffer_holds_constants_witness:
  "\<exists>data r s' sts. sysfs_write_data_constant_buffer (ex_module\<lparr>mod_streams := [1, 5]\<rparr>) ex_running = Some (r, s') \<and>
     length data = 4096 \<and> module_streams s' [1, 5] = Some sts \<and>
     (\<forall>st\<in>set sts. \<forall>op\<in>set (operations st). constant_at data op)"
proof -
  have d: "distinct (mod_streams (ex_module\<lparr>mod_streams := [1, 5]\<rparr>))" by simp
  have ms: "module_streams ex_running (mod_streams (ex_module\<lparr>mod_streams := [1, 5]\<rparr>)) = Some [ex_sender, ex_receiver]"
    using ex_running_streams by simp
  have wf: "\<forall>st\<in>set [ex_sender, ex_receiver]. \<forall>op\<in>set (operations st). op_wf op"
    by (simp add: op_wf_defs ex_running_defs ex_stream_def ex_op_def)
  have "sum_const_buffers [ex_sender, ex_receiver] \<le> 4096"
    by (simp add: ex_running_defs ex_stream_def ex_op_def)
  from constant_buffer_holds_constants [OF d ms wf this] show ?thesis by auto
qed

lemma ex_desc_path: "msg_buff_path BUFF_DESC = Inr ''/sys/devices/acm/config_bin/msg_buff_desc''"
  by (simp add: msg_buff_path_def sysfs_construct_path_name_def ACMDEV_BASE_def CONFIG_GROUP_def)

theorem buffer_descriptors_read_back_witness:
  "\<exists>cfg s' desc. sysfs_write_msg_buff_to_HW cfg BUFF_DESC ex_running = Some (0, s') \<and>
     hw_mem (st_hw s') (''/sys/devices/acm/config_bin/msg_buff_desc'', 4) = Some (D_u32 desc) \<and>
     acmdrv_buff_desc_offset_read desc = 15 \<and> acmdrv_buff_desc_sub_buffer_size_read desc = 15"
proof -
  define bs where "bs = [ex_buffer 0 0 ACMDRV_BUFF_DESC_BUFF_TYPE_TX ''acm_tx'', ex_buffer 1 15 ACMDRV_BUFF_DESC_BUFF_TYPE_RX ''acm_rx'']"
  define cfg where "cfg = \<lparr>bypass = (\<lambda>i. if i = 0 then Some 0 else None), config_applied = False, msg_buffs = [4, 6]\<rparr>"
  have b: "config_buffers ex_running cfg = Some bs" by (simp add: config_buffers_def cfg_def bs_def ex_running_def)
  have c: "contiguous bs" by (simp add: contiguous_def bs_def ex_buffer_def less_Suc_eq)
  have "map_option fst (sysfs_write_msg_buff_to_HW cfg BUFF_DESC ex_running) = Some 0"
    using b by (simp add: sysfs_write_msg_buff_to_HW_def ex_desc_path bs_def msg_buff_write_def ex_running_def ex_state_def
        ex_empty_def ex_env_def Let_def)
  then obtain s' where w: "sysfs_write_msg_buff_to_HW cfg BUFF_DESC ex_running = Some (0, s')" by auto
  from buffer_descriptors_read_back [OF w b c _ ex_desc_path, of 1]
  have "\<exists>desc. hw_mem (st_hw s') (''/sys/devices/acm/config_bin/msg_buff_desc'', 4) = Some (D_u32 desc) \<and>
     acmdrv_buff_desc_offset_read desc = 15 \<and> acmdrv_buff_desc_sub_buffer_size_read desc = 15"
    by (auto simp: bs_def ex_buffer_def)
  with w show ?thesis by blast
qed

end
