(* ===== verification/Acm_Heap_Steps.thy ===== *)
theory Acm_Heap_Steps
  imports Acm_Module
begin

text \<open>
  The heap of the library as an abstract machine. A function of the library changes the heap only
  by elementary steps (\<open>heap_step\<close>): objects are created and freed, a stream is put into the list
  of a module or taken out of it, a schedule entry into the list of a stream, a module is bound to
  a configuration, the operations of a stream and the commands of a module are replaced; any other
  change is quiet (\<open>quiet\<close>): it concerns indices, links to message buffers, types and references,
  which are not part of the structure. The well-formedness of the heap (\<open>heap_wf\<close>) is an invariant
  of the machine, shown by rule induction.
\<close>

section \<open>Quiet changes\<close>

definition op_like :: "operation \<Rightarrow> operation \<Rightarrow> bool" where
  "op_like op op' = (opcode op' = opcode op \<and> op_offset op' = op_offset op \<and> op_length op' = op_length op \<and>
     buffer_name op' = buffer_name op \<and> data_size op' = data_size op \<and>
     ownership_set op' = ownership_set op \<and> length (op_data op') = length (op_data op))"

definition stream_like :: "acm_stream \<Rightarrow> acm_stream \<Rightarrow> bool" where
  "stream_like st st' = (stream_list st' = stream_list st \<and> windows st' = windows st \<and>
     stream_lookup st' = stream_lookup st \<and> list_all2 op_like (operations st) (operations st'))"

definition module_like :: "acm_module \<Rightarrow> acm_module \<Rightarrow> bool" where
  "module_like m m' = (mod_streams m' = mod_streams m \<and> module_id m' = module_id m \<and>
     config_reference m' = config_reference m \<and>
     map (\<lambda>c. (abs_cycle c, schedule_reference c)) (fsc_list m') =
     map (\<lambda>c. (abs_cycle c, schedule_reference c)) (fsc_list m))"

definition config_like :: "acm_config \<Rightarrow> acm_config \<Rightarrow> bool" where
  "config_like c c' = (bypass c' = bypass c)"

definition quiet :: "acm_state \<Rightarrow> acm_state \<Rightarrow> bool" where
  "quiet s s' = (st_env s' = st_env s \<and> st_next s \<le> st_next s' \<and> st_scheds s' = st_scheds s \<and>
     (\<forall>p. rel_option stream_like (st_streams s p) (st_streams s' p)) \<and>
     (\<forall>p. rel_option module_like (st_modules s p) (st_modules s' p)) \<and>
     (\<forall>p. rel_option config_like (st_configs s p) (st_configs s' p)))"

lemma op_like_refl [simp]: "op_like op op"
  by (simp add: op_like_def)

lemma op_like_trans: "op_like a b \<Longrightarrow> op_like b c \<Longrightarrow> op_like a c"
  by (simp add: op_like_def)

lemma ops_like_refl [simp]: "list_all2 op_like ops ops"
  by (simp add: list.rel_refl)

lemma ops_like_trans: "list_all2 op_like a b \<Longrightarrow> list_all2 op_like b c \<Longrightarrow> list_all2 op_like a c"
  using list_all2_trans [of op_like op_like op_like a b c] op_like_trans by blast

lemma stream_like_refl [simp]: "stream_like st st"
  by (simp add: stream_like_def)

lemma stream_like_trans: "stream_like a b \<Longrightarrow> stream_like b c \<Longrightarrow> stream_like a c"
  unfolding stream_like_def using ops_like_trans [of "operations a" "operations b" "operations c"] by simp

lemma module_like_refl [simp]: "module_like m m"
  by (simp add: module_like_def)

lemma module_like_times: "module_like m m' \<Longrightarrow> map abs_cycle (fsc_list m') = map abs_cycle (fsc_list m)"
  unfolding module_like_def by (drule conjunct2, drule conjunct2, drule conjunct2,
    drule arg_cong [of _ _ "map fst"]) (simp add: comp_def)

lemma module_like_trans: "module_like a b \<Longrightarrow> module_like b c \<Longrightarrow> module_like a c"
  by (simp add: module_like_def)

lemma config_like_refl [simp]: "config_like c c"
  by (simp add: config_like_def)

lemma config_like_trans: "config_like a b \<Longrightarrow> config_like b c \<Longrightarrow> config_like a c"
  by (simp add: config_like_def)

lemma rel_option_refl_on: "(\<And>x. R x x) \<Longrightarrow> rel_option R x x"
  by (cases x) simp_all

lemma rel_option_trans_on:
  "(\<And>x y z. R x y \<Longrightarrow> R y z \<Longrightarrow> R x z) \<Longrightarrow> rel_option R a b \<Longrightarrow> rel_option R b c \<Longrightarrow> rel_option R a c"
  by (cases a; cases b; cases c) auto

lemma quiet_refl [simp]: "quiet s s"
  by (simp add: quiet_def rel_option_refl_on)

lemma quiet_trans:
  assumes "quiet a b" "quiet b c"
  shows "quiet a c"
proof -
  have "rel_option stream_like (st_streams a p) (st_streams c p)" for p
    using assms stream_like_trans by (auto simp: quiet_def intro: rel_option_trans_on)
  moreover have "rel_option module_like (st_modules a p) (st_modules c p)" for p
    using assms module_like_trans by (auto simp: quiet_def intro: rel_option_trans_on)
  moreover have "rel_option config_like (st_configs a p) (st_configs c p)" for p
    using assms config_like_trans by (auto simp: quiet_def intro: rel_option_trans_on)
  ultimately show ?thesis using assms by (simp add: quiet_def)
qed

text \<open>The elementary quiet changes.\<close>

lemma quiet_next [simp]: "quiet s (s\<lparr>st_next := n\<rparr>) \<longleftrightarrow> st_next s \<le> n"
  by (auto simp: quiet_def rel_option_refl_on)

lemma quiet_hw [simp]: "quiet s (s\<lparr>st_hw := h\<rparr>)" "quiet s (logged s ws)" "quiet s (s\<lparr>st_bufs := b\<rparr>)"
  by (simp_all add: quiet_def rel_option_refl_on logged_def)

lemma quiet_zalloc: "acm_zalloc s = (r, s') \<Longrightarrow> quiet s s'"
  by (auto simp: acm_zalloc_def)

lemma quiet_mod_stream:
  "mod_stream p f s = Some s' \<Longrightarrow> (\<And>st. st_streams s p = Some st \<Longrightarrow> stream_like st (f st)) \<Longrightarrow> quiet s s'"
  by (auto simp: mod_stream_def quiet_def rel_option_refl_on split: option.splits)

lemma quiet_mod_module:
  "mod_module p f s = Some s' \<Longrightarrow> (\<And>m. st_modules s p = Some m \<Longrightarrow> module_like m (f m)) \<Longrightarrow> quiet s s'"
  by (auto simp: mod_module_def quiet_def rel_option_refl_on split: option.splits)

lemma quiet_mod_config:
  "mod_config p f s = Some s' \<Longrightarrow> (\<And>c. st_configs s p = Some c \<Longrightarrow> config_like c (f c)) \<Longrightarrow> quiet s s'"
  by (auto simp: mod_config_def quiet_def rel_option_refl_on split: option.splits)

lemma quiet_mod_buf: "mod_buf p f s = Some s' \<Longrightarrow> quiet s s'"
  by (auto simp: mod_buf_def split: option.splits)

text \<open>What a quiet change leaves.\<close>

lemma quiet_stream_cases:
  assumes "quiet s s'" "st_streams s p = Some st"
  obtains st' where "st_streams s' p = Some st'" "stream_like st st'"
  using assms unfolding quiet_def by (metis option_rel_Some1)

lemma quiet_stream_back:
  assumes "quiet s s'" "st_streams s' p = Some st'"
  obtains st where "st_streams s p = Some st" "stream_like st st'"
  using assms unfolding quiet_def by (metis option_rel_Some2)

lemma quiet_module_cases:
  assumes "quiet s s'" "st_modules s p = Some m"
  obtains m' where "st_modules s' p = Some m'" "module_like m m'"
  using assms unfolding quiet_def by (metis option_rel_Some1)

lemma quiet_module_back:
  assumes "quiet s s'" "st_modules s' p = Some m'"
  obtains m where "st_modules s p = Some m" "module_like m m'"
  using assms unfolding quiet_def by (metis option_rel_Some2)

lemma quiet_config_back:
  assumes "quiet s s'" "st_configs s' p = Some c'"
  obtains c where "st_configs s p = Some c" "config_like c c'"
  using assms unfolding quiet_def by (metis option_rel_Some2)

section \<open>Elementary steps\<close>

inductive heap_step :: "acm_state \<Rightarrow> acm_state \<Rightarrow> bool" where
  Quiet: "quiet s s' \<Longrightarrow> heap_step s s'"
| New_Stream: "heap_step s (s\<lparr>st_next := Suc (st_next s),
    st_streams := (st_streams s)(st_next s \<mapsto> zero_stream t)\<rparr>)"
| New_Module: "mod_streams m = [] \<Longrightarrow> fsc_list m = [] \<Longrightarrow> config_reference m = None \<Longrightarrow>
    module_id m < ACM_MODULES_COUNT \<Longrightarrow>
    heap_step s (s\<lparr>st_next := Suc (st_next s), st_modules := (st_modules s)(st_next s \<mapsto> m)\<rparr>)"
| New_Config: "bypass c = (\<lambda>_. None) \<Longrightarrow>
    heap_step s (s\<lparr>st_next := Suc (st_next s), st_configs := (st_configs s)(st_next s \<mapsto> c)\<rparr>)"
| New_Schedule: "period_ns w \<noteq> 0 \<Longrightarrow> schedule_list w = None \<Longrightarrow>
    heap_step s (s\<lparr>st_next := Suc (st_next s), st_scheds := (st_scheds s)(st_next s \<mapsto> w)\<rparr>)"
| Set_Operations: "st_streams s p = Some st \<Longrightarrow>
    (\<And>op. op \<in> set ops \<Longrightarrow> op \<in> set (operations st) \<or> op_wf op \<and> ownership_set op) \<Longrightarrow>
    heap_step s (s\<lparr>st_streams := (st_streams s)(p \<mapsto> st\<lparr>operations := ops\<rparr>)\<rparr>)"
| Set_Lookup: "st_streams s p = Some st \<Longrightarrow> lookup_wf lk \<Longrightarrow>
    heap_step s (s\<lparr>st_streams := (st_streams s)(p \<mapsto> st\<lparr>stream_lookup := Some lk\<rparr>)\<rparr>)"
| Link_Stream: "st_modules s mp = Some m \<Longrightarrow> st_streams s p = Some st \<Longrightarrow> stream_list st = None \<Longrightarrow>
    heap_step s (s\<lparr>st_modules := (st_modules s)(mp \<mapsto> m\<lparr>mod_streams := mod_streams m @ [p]\<rparr>),
      st_streams := (st_streams s)(p \<mapsto> st\<lparr>stream_list := Some mp\<rparr>)\<rparr>)"
| Unlink_Stream: "st_modules s mp = Some m \<Longrightarrow> st_streams s p = Some st \<Longrightarrow> p \<in> set (mod_streams m) \<Longrightarrow>
    heap_step s (s\<lparr>st_modules := (st_modules s)(mp \<mapsto> m\<lparr>mod_streams := remove1 p (mod_streams m)\<rparr>),
      st_streams := (st_streams s)(p \<mapsto> st\<lparr>stream_list := None\<rparr>)\<rparr>)"
| Link_Schedule: "st_streams s p = Some st \<Longrightarrow> st_scheds s sp = Some w \<Longrightarrow> schedule_list w = None \<Longrightarrow>
    heap_step s (s\<lparr>st_streams := (st_streams s)(p \<mapsto> st\<lparr>windows := windows st @ [sp]\<rparr>),
      st_scheds := (st_scheds s)(sp \<mapsto> w\<lparr>schedule_list := Some p\<rparr>)\<rparr>)"
| Free_Schedule: "st_streams s p = Some st \<Longrightarrow> sp \<in> set (windows st) \<Longrightarrow>
    heap_step s (s\<lparr>st_streams := (st_streams s)(p \<mapsto> st\<lparr>windows := remove1 sp (windows st)\<rparr>),
      st_scheds := (st_scheds s)(sp := None)\<rparr>)"
| Set_Commands: "st_modules s mp = Some m \<Longrightarrow>
    (sorted (map abs_cycle (fsc_list m)) \<Longrightarrow> sorted (map abs_cycle fscs)) \<Longrightarrow>
    heap_step s (s\<lparr>st_modules := (st_modules s)(mp \<mapsto> m\<lparr>fsc_list := fscs\<rparr>)\<rparr>)"
| Bind_Module: "st_configs s cp = Some c \<Longrightarrow> st_modules s mp = Some m \<Longrightarrow> config_reference m = None \<Longrightarrow>
    heap_step s (s\<lparr>st_configs := (st_configs s)(cp \<mapsto> c\<lparr>bypass := (bypass c)(module_id m \<mapsto> mp)\<rparr>),
      st_modules := (st_modules s)(mp \<mapsto> m\<lparr>config_reference := Some cp\<rparr>)\<rparr>)"
| Unbind_Module: "st_configs s cp = Some c \<Longrightarrow>
    heap_step s (s\<lparr>st_configs := (st_configs s)(cp \<mapsto> c\<lparr>bypass := (bypass c)(i := None)\<rparr>)\<rparr>)"
| Free_Stream: "st_streams s p = Some st \<Longrightarrow> stream_list st = None \<Longrightarrow> windows st = [] \<Longrightarrow>
    heap_step s (s\<lparr>st_streams := (st_streams s)(p := None)\<rparr>)"
| Free_Module: "st_modules s mp = Some m \<Longrightarrow> mod_streams m = [] \<Longrightarrow>
    (\<And>cp c i. st_configs s cp = Some c \<Longrightarrow> bypass c i \<noteq> Some mp) \<Longrightarrow>
    heap_step s (s\<lparr>st_modules := (st_modules s)(mp := None)\<rparr>)"
| Free_Config: "heap_step s (s\<lparr>st_configs := (st_configs s)(cp := None)\<rparr>)"

abbreviation heap_steps :: "acm_state \<Rightarrow> acm_state \<Rightarrow> bool" where
  "heap_steps \<equiv> heap_step\<^sup>*\<^sup>*"

section \<open>Well-formed heaps\<close>

text \<open>Streams and modules name each other.\<close>

definition streams_linked :: "acm_state \<Rightarrow> bool" where
  "streams_linked s = ((\<forall>mp m. st_modules s mp = Some m \<longrightarrow> distinct (mod_streams m) \<and>
       (\<forall>p\<in>set (mod_streams m). \<exists>st. st_streams s p = Some st \<and> stream_list st = Some mp)) \<and>
     (\<forall>p st mp. st_streams s p = Some st \<longrightarrow> stream_list st = Some mp \<longrightarrow>
       (\<exists>m. st_modules s mp = Some m \<and> p \<in> set (mod_streams m))))"

text \<open>Schedule entries and streams name each other.\<close>

definition windows_linked :: "acm_state \<Rightarrow> bool" where
  "windows_linked s = ((\<forall>p st. st_streams s p = Some st \<longrightarrow> distinct (windows st) \<and>
       (\<forall>sp\<in>set (windows st). \<exists>w. st_scheds s sp = Some w \<and> schedule_list w = Some p)) \<and>
     (\<forall>sp w p. st_scheds s sp = Some w \<longrightarrow> schedule_list w = Some p \<longrightarrow>
       (\<exists>st. st_streams s p = Some st \<and> sp \<in> set (windows st))))"

text \<open>A module in a slot of a configuration exists, has the number of the slot and names the configuration.\<close>

definition modules_bound :: "acm_state \<Rightarrow> bool" where
  "modules_bound s = (\<forall>cp c i mp. st_configs s cp = Some c \<longrightarrow> bypass c i = Some mp \<longrightarrow>
     (\<exists>m. st_modules s mp = Some m \<and> module_id m = i \<and> config_reference m = Some cp))"

text \<open>What the objects hold: operations within their limits, lookup entries, periods, sorted commands.\<close>

definition stream_ok :: "acm_stream \<Rightarrow> bool" where
  "stream_ok st = ((\<forall>op\<in>set (operations st). op_wf op \<and> ownership_set op) \<and>
     (\<forall>lk. stream_lookup st = Some lk \<longrightarrow> lookup_wf lk))"

definition module_ok :: "acm_module \<Rightarrow> bool" where
  "module_ok m = (module_id m < ACM_MODULES_COUNT \<and> sorted (map abs_cycle (fsc_list m)))"

definition contents_ok :: "acm_state \<Rightarrow> bool" where
  "contents_ok s = ((\<forall>p st. st_streams s p = Some st \<longrightarrow> stream_ok st) \<and>
     (\<forall>mp m. st_modules s mp = Some m \<longrightarrow> module_ok m) \<and>
     (\<forall>sp w. st_scheds s sp = Some w \<longrightarrow> period_ns w \<noteq> 0))"

text \<open>No object is at an address that will still be handed out.\<close>

definition fresh_above :: "acm_state \<Rightarrow> bool" where
  "fresh_above s = (\<forall>a\<ge>st_next s. st_streams s a = None \<and> st_modules s a = None \<and>
     st_configs s a = None \<and> st_scheds s a = None)"

definition heap_wf :: "acm_state \<Rightarrow> bool" where
  "heap_wf s = (streams_linked s \<and> windows_linked s \<and> modules_bound s \<and> contents_ok s \<and> fresh_above s)"

section \<open>Rules for the invariants\<close>

lemma streams_linkedI:
  assumes "\<And>mp m. st_modules s mp = Some m \<Longrightarrow> distinct (mod_streams m)"
    "\<And>mp m p. st_modules s mp = Some m \<Longrightarrow> p \<in> set (mod_streams m) \<Longrightarrow>
      \<exists>st. st_streams s p = Some st \<and> stream_list st = Some mp"
    "\<And>p st mp. st_streams s p = Some st \<Longrightarrow> stream_list st = Some mp \<Longrightarrow>
      \<exists>m. st_modules s mp = Some m \<and> p \<in> set (mod_streams m)"
  shows "streams_linked s"
  using assms unfolding streams_linked_def by blast

lemma streams_linkedD:
  assumes "streams_linked s"
  shows "st_modules s mp = Some m \<Longrightarrow> distinct (mod_streams m)"
    "st_modules s mp = Some m \<Longrightarrow> p \<in> set (mod_streams m) \<Longrightarrow>
      \<exists>st. st_streams s p = Some st \<and> stream_list st = Some mp"
    "st_streams s p = Some st \<Longrightarrow> stream_list st = Some mp \<Longrightarrow>
      \<exists>m. st_modules s mp = Some m \<and> p \<in> set (mod_streams m)"
  using assms unfolding streams_linked_def by blast+

lemma windows_linkedI:
  assumes "\<And>p st. st_streams s p = Some st \<Longrightarrow> distinct (windows st)"
    "\<And>p st sp. st_streams s p = Some st \<Longrightarrow> sp \<in> set (windows st) \<Longrightarrow>
      \<exists>w. st_scheds s sp = Some w \<and> schedule_list w = Some p"
    "\<And>sp w p. st_scheds s sp = Some w \<Longrightarrow> schedule_list w = Some p \<Longrightarrow>
      \<exists>st. st_streams s p = Some st \<and> sp \<in> set (windows st)"
  shows "windows_linked s"
  using assms unfolding windows_linked_def by blast

lemma windows_linkedD:
  assumes "windows_linked s"
  shows "st_streams s p = Some st \<Longrightarrow> distinct (windows st)"
    "st_streams s p = Some st \<Longrightarrow> sp \<in> set (windows st) \<Longrightarrow>
      \<exists>w. st_scheds s sp = Some w \<and> schedule_list w = Some p"
    "st_scheds s sp = Some w \<Longrightarrow> schedule_list w = Some p \<Longrightarrow>
      \<exists>st. st_streams s p = Some st \<and> sp \<in> set (windows st)"
  using assms unfolding windows_linked_def by blast+

lemma modules_boundD:
  "modules_bound s \<Longrightarrow> st_configs s cp = Some c \<Longrightarrow> bypass c i = Some mp \<Longrightarrow>
    \<exists>m. st_modules s mp = Some m \<and> module_id m = i \<and> config_reference m = Some cp"
  unfolding modules_bound_def by blast

lemma contents_okD:
  assumes "contents_ok s"
  shows "st_streams s p = Some st \<Longrightarrow> stream_ok st" "st_modules s mp = Some m \<Longrightarrow> module_ok m"
    "st_scheds s sp = Some w \<Longrightarrow> period_ns w \<noteq> 0"
  using assms unfolding contents_ok_def by blast+

lemma fresh_aboveD:
  assumes "fresh_above s"
  shows "st_streams s a = Some x1 \<Longrightarrow> a < st_next s" "st_modules s a = Some x2 \<Longrightarrow> a < st_next s"
    "st_configs s a = Some x3 \<Longrightarrow> a < st_next s" "st_scheds s a = Some x4 \<Longrightarrow> a < st_next s"
  using assms unfolding fresh_above_def by (metis linorder_not_le option.distinct(1))+

lemma heap_wfD:
  assumes "heap_wf s"
  shows "streams_linked s" "windows_linked s" "modules_bound s" "contents_ok s" "fresh_above s"
  using assms by (simp_all add: heap_wf_def)

section \<open>Quiet changes keep a heap well-formed\<close>

lemma op_like_wf: "op_like op op' \<Longrightarrow> op_wf op' = op_wf op"
  by (cases "opcode op") (auto simp: op_like_def op_wf_def length_ok_def in_frame_def name_ok_def)

lemma ops_like_member:
  "list_all2 op_like ops ops' \<Longrightarrow> op' \<in> set ops' \<Longrightarrow> \<exists>op\<in>set ops. op_like op op'"
  by (induction rule: list_all2_induct) auto

lemma stream_like_ok:
  assumes "stream_like st st'" "stream_ok st"
  shows "stream_ok st'"
proof -
  have "op_wf op' \<and> ownership_set op'" if op': "op' \<in> set (operations st')" for op'
  proof -
    obtain op where "op \<in> set (operations st)" "op_like op op'"
      using assms(1) ops_like_member [OF _ op'] by (auto simp: stream_like_def)
    then show ?thesis using assms(2) op_like_wf [of op op'] by (auto simp: stream_ok_def op_like_def)
  qed
  then show ?thesis using assms by (auto simp: stream_ok_def stream_like_def)
qed

lemma quiet_streams_linked:
  assumes "quiet s s'" "streams_linked s"
  shows "streams_linked s'"
  unfolding streams_linked_def
proof (intro conjI allI impI ballI)
  fix mp m
  assume "st_modules s' mp = Some m"
  then obtain m0 where m0: "st_modules s mp = Some m0" "module_like m0 m"
    using quiet_module_back [OF assms(1)] by blast
  show "distinct (mod_streams m)"
    using m0 streams_linkedD(1) [OF assms(2)] by (simp add: module_like_def)
  fix p
  assume "p \<in> set (mod_streams m)"
  then have "p \<in> set (mod_streams m0)" using m0(2) by (simp add: module_like_def)
  then obtain st where "st_streams s p = Some st" "stream_list st = Some mp"
    using streams_linkedD(2) [OF assms(2) m0(1)] by blast
  moreover obtain st' where "st_streams s' p = Some st'" "stream_like st st'"
    using quiet_stream_cases [OF assms(1) calculation(1)] .
  ultimately show "\<exists>st. st_streams s' p = Some st \<and> stream_list st = Some mp"
    by (simp add: stream_like_def)
next
  fix p st mp
  assume "st_streams s' p = Some st" "stream_list st = Some mp"
  then obtain st0 where "st_streams s p = Some st0" "stream_list st0 = Some mp"
    by - (rule quiet_stream_back [OF assms(1)], auto simp: stream_like_def)
  then obtain m where "st_modules s mp = Some m" "p \<in> set (mod_streams m)"
    using streams_linkedD(3) [OF assms(2)] by blast
  then show "\<exists>m. st_modules s' mp = Some m \<and> p \<in> set (mod_streams m)"
    by (auto elim: quiet_module_cases [OF assms(1)] simp: module_like_def)
qed

lemma quiet_windows_linked:
  assumes "quiet s s'" "windows_linked s"
  shows "windows_linked s'"
proof -
  have w: "st_scheds s' = st_scheds s" using assms(1) by (simp add: quiet_def)
  show ?thesis
    unfolding windows_linked_def w
  proof (intro conjI allI impI ballI)
    fix p st
    assume "st_streams s' p = Some st"
    then obtain st0 where st0: "st_streams s p = Some st0" "windows st = windows st0"
      by (auto elim: quiet_stream_back [OF assms(1)] simp: stream_like_def)
    then show "distinct (windows st)" using windows_linkedD(1) [OF assms(2)] by simp
    fix sp
    assume "sp \<in> set (windows st)"
    then show "\<exists>w. st_scheds s sp = Some w \<and> schedule_list w = Some p"
      using st0 windows_linkedD(2) [OF assms(2)] by simp
  next
    fix sp w p
    assume "st_scheds s sp = Some w" "schedule_list w = Some p"
    then obtain st where "st_streams s p = Some st" "sp \<in> set (windows st)"
      using windows_linkedD(3) [OF assms(2)] by blast
    then show "\<exists>st. st_streams s' p = Some st \<and> sp \<in> set (windows st)"
      by (auto elim: quiet_stream_cases [OF assms(1)] simp: stream_like_def)
  qed
qed

lemma quiet_modules_bound:
  assumes "quiet s s'" "modules_bound s"
  shows "modules_bound s'"
  unfolding modules_bound_def
proof (intro allI impI)
  fix cp c i mp
  assume "st_configs s' cp = Some c" "bypass c i = Some mp"
  then obtain c0 where "st_configs s cp = Some c0" "bypass c0 i = Some mp"
    by (auto elim: quiet_config_back [OF assms(1)] simp: config_like_def)
  then obtain m where "st_modules s mp = Some m" "module_id m = i" "config_reference m = Some cp"
    using modules_boundD [OF assms(2)] by blast
  then show "\<exists>m. st_modules s' mp = Some m \<and> module_id m = i \<and> config_reference m = Some cp"
    by (auto elim: quiet_module_cases [OF assms(1)] simp: module_like_def)
qed

lemma quiet_contents_ok:
  assumes "quiet s s'" "contents_ok s"
  shows "contents_ok s'"
  unfolding contents_ok_def
proof (intro conjI allI impI)
  show "stream_ok st" if st: "st_streams s' p = Some st" for p st
  proof -
    obtain st0 where "st_streams s p = Some st0" "stream_like st0 st"
      using quiet_stream_back [OF assms(1) st] .
    then show ?thesis using contents_okD(1) [OF assms(2)] stream_like_ok by simp
  qed
  show "module_ok m" if "st_modules s' mp = Some m" for mp m
    using that contents_okD(2) [OF assms(2)]
    by (auto elim!: quiet_module_back [OF assms(1)] dest: module_like_times
      simp: module_ok_def) (auto simp: module_like_def)
  show "period_ns w \<noteq> 0" if "st_scheds s' sp = Some w" for sp w
    using that contents_okD(3) [OF assms(2)] assms(1) by (auto simp: quiet_def)
qed

lemma rel_option_None: "rel_option R a b \<Longrightarrow> a = None \<longleftrightarrow> b = None"
  by (cases a; cases b) simp_all

lemma quiet_fresh_above:
  assumes "quiet s s'" "fresh_above s"
  shows "fresh_above s'"
  using assms unfolding quiet_def fresh_above_def
  by (metis le_trans rel_option_None)

lemma quiet_heap_wf: "quiet s s' \<Longrightarrow> heap_wf s \<Longrightarrow> heap_wf s'"
  by (simp add: heap_wf_def quiet_streams_linked quiet_windows_linked quiet_modules_bound
      quiet_contents_ok quiet_fresh_above)

section \<open>Elementary steps keep a heap well-formed\<close>

lemma fresh_step:
  assumes "heap_step s s'" "fresh_above s"
  shows "fresh_above s'"
  using assms(1)
proof cases
  case Quiet
  then show ?thesis using assms(2) quiet_fresh_above by blast
qed (use assms(2) fresh_aboveD [OF assms(2)] in \<open>auto simp: fresh_above_def\<close>)

lemma contents_step:
  assumes "heap_step s s'" "contents_ok s"
  shows "contents_ok s'"
  using assms(1)
proof cases
  case Quiet
  then show ?thesis using assms(2) quiet_contents_ok by blast
qed (use contents_okD [OF assms(2)] in
    \<open>auto simp: contents_ok_def stream_ok_def module_ok_def zero_stream_def split: if_splits\<close>)

lemma modules_bound_mono:
  assumes "modules_bound s"
    "\<And>cp c' i mp. st_configs s' cp = Some c' \<Longrightarrow> bypass c' i = Some mp \<Longrightarrow>
      \<exists>c. st_configs s cp = Some c \<and> bypass c i = Some mp"
    "\<And>mp m. st_modules s mp = Some m \<Longrightarrow>
      \<exists>m'. st_modules s' mp = Some m' \<and> module_id m' = module_id m \<and> config_reference m' = config_reference m"
  shows "modules_bound s'"
  unfolding modules_bound_def
proof (intro allI impI)
  fix cp c' i mp
  assume "st_configs s' cp = Some c'" "bypass c' i = Some mp"
  then obtain c where "st_configs s cp = Some c" "bypass c i = Some mp" using assms(2) by blast
  then obtain m where "st_modules s mp = Some m" "module_id m = i" "config_reference m = Some cp"
    using modules_boundD [OF assms(1)] by blast
  then show "\<exists>m. st_modules s' mp = Some m \<and> module_id m = i \<and> config_reference m = Some cp"
    using assms(3) [of mp m] by auto
qed

lemma bound_step:
  assumes "heap_step s s'" "modules_bound s" "fresh_above s"
  shows "modules_bound s'"
  using assms(1)
proof cases
  case Quiet
  then show ?thesis using assms(2) quiet_modules_bound by blast
next
  case (Bind_Module cp c mp m)
  show ?thesis
    unfolding modules_bound_def
  proof (intro allI impI)
    fix cp' c' i mp'
    assume c': "st_configs s' cp' = Some c'" "bypass c' i = Some mp'"
    show "\<exists>m. st_modules s' mp' = Some m \<and> module_id m = i \<and> config_reference m = Some cp'"
    proof (cases "cp' = cp \<and> i = module_id m")
      case True
      then show ?thesis using c' Bind_Module by auto
    next
      case False
      then have "\<exists>c0. st_configs s cp' = Some c0 \<and> bypass c0 i = Some mp'"
        using c' Bind_Module by (auto split: if_splits)
      then obtain m0 where m0: "st_modules s mp' = Some m0" "module_id m0 = i" "config_reference m0 = Some cp'"
        using modules_boundD [OF assms(2)] by blast
      then have "mp' \<noteq> mp" using Bind_Module by auto
      then show ?thesis using m0 Bind_Module(1) by simp
    qed
  qed
next
  case (Free_Module mp m)
  show ?thesis
    unfolding modules_bound_def
  proof (intro allI impI)
    fix cp c i mp'
    assume c: "st_configs s' cp = Some c" "bypass c i = Some mp'"
    then have "mp' \<noteq> mp" using Free_Module by auto
    then show "\<exists>m. st_modules s' mp' = Some m \<and> module_id m = i \<and> config_reference m = Some cp"
      using c modules_boundD [OF assms(2), of cp c i mp'] Free_Module(1) by simp
  qed
qed (rule modules_bound_mono [OF assms(2)]; use fresh_aboveD(2) [OF assms(3)] in \<open>force split: if_splits\<close>)+

lemma windows_linked_mono:
  assumes "windows_linked s" "st_scheds s' = st_scheds s"
    "\<And>p st'. st_streams s' p = Some st' \<Longrightarrow> windows st' \<noteq> [] \<Longrightarrow>
      \<exists>st. st_streams s p = Some st \<and> windows st = windows st'"
    "\<And>p st. st_streams s p = Some st \<Longrightarrow> windows st \<noteq> [] \<Longrightarrow>
      \<exists>st'. st_streams s' p = Some st' \<and> windows st' = windows st"
  shows "windows_linked s'"
proof (rule windows_linkedI)
  show "distinct (windows st')" if st': "st_streams s' p = Some st'" for p st'
  proof (cases "windows st' = []")
    case False
    then show ?thesis using assms(3) [OF st'] windows_linkedD(1) [OF assms(1)] by metis
  qed simp
  show "\<exists>w. st_scheds s' sp = Some w \<and> schedule_list w = Some p"
    if st': "st_streams s' p = Some st'" "sp \<in> set (windows st')" for p st' sp
  proof -
    have "windows st' \<noteq> []" using st'(2) by auto
    then obtain st where "st_streams s p = Some st" "windows st = windows st'"
      using assms(3) [OF st'(1)] by blast
    then show ?thesis using windows_linkedD(2) [OF assms(1), of p st sp] st'(2) assms(2) by simp
  qed
  show "\<exists>st. st_streams s' p = Some st \<and> sp \<in> set (windows st)"
    if w: "st_scheds s' sp = Some w" "schedule_list w = Some p" for sp w p
  proof -
    obtain st where "st_streams s p = Some st" "sp \<in> set (windows st)"
      using windows_linkedD(3) [OF assms(1), of sp w p] w assms(2) by auto
    moreover from this have "windows st \<noteq> []" by auto
    ultimately show ?thesis using assms(4) by metis
  qed
qed

lemma windows_step:
  assumes "heap_step s s'" "windows_linked s" "fresh_above s"
  shows "windows_linked s'"
  using assms(1)
proof cases
  case Quiet
  then show ?thesis using assms(2) quiet_windows_linked by blast
next
  case (New_Stream t)
  show ?thesis
  proof (rule windows_linked_mono [OF assms(2)])
    fix p st
    assume "st_streams s p = Some st" "windows st \<noteq> []"
    moreover from this have "p < st_next s" using fresh_aboveD(1) [OF assms(3)] by blast
    ultimately show "\<exists>st'. st_streams s' p = Some st' \<and> windows st' = windows st"
      by (simp add: New_Stream)
  qed (auto simp: New_Stream zero_stream_def split: if_splits)
next
  case (New_Schedule w)
  show ?thesis
    by (rule windows_linkedI)
      (use New_Schedule windows_linkedD [OF assms(2)] fresh_aboveD [OF assms(3)] in
        \<open>fastforce split: if_splits\<close>)+
next
  case (Link_Schedule p st sp w)
  show ?thesis
    by (rule windows_linkedI)
      (use Link_Schedule windows_linkedD [OF assms(2)] in \<open>fastforce split: if_splits\<close>)+
next
  case (Free_Schedule p st sp)
  have d: "distinct (windows st)" using windows_linkedD(1) [OF assms(2) Free_Schedule(2)] .
  have own: "q = p" if "st_streams s q = Some x" "sp \<in> set (windows x)" for q x
    using windows_linkedD(2) [OF assms(2) that] windows_linkedD(2) [OF assms(2) Free_Schedule(2,3)] by auto
  have st': "st_streams s' = (st_streams s)(p \<mapsto> st\<lparr>windows := remove1 sp (windows st)\<rparr>)"
    and w': "st_scheds s' = (st_scheds s)(sp := None)"
    using Free_Schedule(1) by simp_all
  show ?thesis
  proof (rule windows_linkedI)
    show "distinct (windows x)" if "st_streams s' q = Some x" for q x
      using that d windows_linkedD(1) [OF assms(2)] by (auto simp: st' split: if_splits)
    show "\<exists>w. st_scheds s' wp = Some w \<and> schedule_list w = Some q"
      if x: "st_streams s' q = Some x" "wp \<in> set (windows x)" for q x wp
    proof (cases "q = p")
      case True
      then have "wp \<in> set (windows st)" "wp \<noteq> sp" using x d by (auto simp: st')
      then show ?thesis using True windows_linkedD(2) [OF assms(2) Free_Schedule(2)] by (simp add: w')
    next
      case False
      then have "st_streams s q = Some x" using x by (simp add: st')
      moreover have "wp \<noteq> sp" using own [OF calculation] x(2) False by blast
      ultimately show ?thesis using windows_linkedD(2) [OF assms(2) _ x(2)] by (simp add: w')
    qed
    show "\<exists>x. st_streams s' q = Some x \<and> wp \<in> set (windows x)"
      if w: "st_scheds s' wp = Some w" "schedule_list w = Some q" for wp w q
    proof -
      have "wp \<noteq> sp" "st_scheds s wp = Some w" using w(1) by (auto simp: w' split: if_splits)
      then show ?thesis
        using windows_linkedD(3) [OF assms(2) _ w(2)] Free_Schedule(2) d by (auto simp: st')
    qed
  qed
qed (rule windows_linked_mono [OF assms(2)]; force split: if_splits)+

lemma streams_linked_mono:
  assumes "streams_linked s"
    "\<And>mp m'. st_modules s' mp = Some m' \<Longrightarrow> mod_streams m' \<noteq> [] \<Longrightarrow>
      \<exists>m. st_modules s mp = Some m \<and> mod_streams m = mod_streams m'"
    "\<And>mp m. st_modules s mp = Some m \<Longrightarrow> mod_streams m \<noteq> [] \<Longrightarrow>
      \<exists>m'. st_modules s' mp = Some m' \<and> mod_streams m' = mod_streams m"
    "\<And>p st'. st_streams s' p = Some st' \<Longrightarrow> stream_list st' \<noteq> None \<Longrightarrow>
      \<exists>st. st_streams s p = Some st \<and> stream_list st = stream_list st'"
    "\<And>p st. st_streams s p = Some st \<Longrightarrow> stream_list st \<noteq> None \<Longrightarrow>
      \<exists>st'. st_streams s' p = Some st' \<and> stream_list st' = stream_list st"
  shows "streams_linked s'"
proof (rule streams_linkedI)
  show "distinct (mod_streams m')" if m': "st_modules s' mp = Some m'" for mp m'
  proof (cases "mod_streams m' = []")
    case False
    then show ?thesis using assms(2) [OF m'] streams_linkedD(1) [OF assms(1)] by metis
  qed simp
  show "\<exists>st. st_streams s' p = Some st \<and> stream_list st = Some mp"
    if m': "st_modules s' mp = Some m'" "p \<in> set (mod_streams m')" for mp m' p
  proof -
    have "mod_streams m' \<noteq> []" using m'(2) by auto
    then obtain m where "st_modules s mp = Some m" "mod_streams m = mod_streams m'"
      using assms(2) [OF m'(1)] by blast
    then obtain st where st: "st_streams s p = Some st" "stream_list st = Some mp"
      using streams_linkedD(2) [OF assms(1), of mp m p] m'(2) by auto
    then show ?thesis using assms(5) [OF st(1)] by simp
  qed
  show "\<exists>m'. st_modules s' mp = Some m' \<and> p \<in> set (mod_streams m')"
    if st': "st_streams s' p = Some st'" "stream_list st' = Some mp" for p st' mp
  proof -
    obtain st where "st_streams s p = Some st" "stream_list st = Some mp"
      using assms(4) [OF st'(1)] st'(2) by auto
    then obtain m where m: "st_modules s mp = Some m" "p \<in> set (mod_streams m)"
      using streams_linkedD(3) [OF assms(1)] by blast
    then have "mod_streams m \<noteq> []" by auto
    then show ?thesis using assms(3) [OF m(1)] m(2) by auto
  qed
qed

lemma streams_step:
  assumes "heap_step s s'" "streams_linked s" "fresh_above s"
  shows "streams_linked s'"
  using assms(1)
proof cases
  case Quiet
  then show ?thesis using assms(2) quiet_streams_linked by blast
next
  case (Link_Stream mp m p st)
  have fresh: "p \<notin> set (mod_streams x)" if "st_modules s q = Some x" for q x
    using streams_linkedD(2) [OF assms(2) that, of p] Link_Stream by auto
  show ?thesis
    by (rule streams_linkedI)
      (use Link_Stream fresh streams_linkedD [OF assms(2)] in \<open>fastforce split: if_splits\<close>)+
next
  case (Unlink_Stream mp m p st)
  have d: "distinct (mod_streams m)" using streams_linkedD(1) [OF assms(2) Unlink_Stream(2)] .
  have own: "q = mp" if "st_modules s q = Some x" "p \<in> set (mod_streams x)" for q x
    using streams_linkedD(2) [OF assms(2) that] streams_linkedD(2) [OF assms(2) Unlink_Stream(2,4)] by auto
  have m': "st_modules s' = (st_modules s)(mp \<mapsto> m\<lparr>mod_streams := remove1 p (mod_streams m)\<rparr>)"
    and st': "st_streams s' = (st_streams s)(p \<mapsto> st\<lparr>stream_list := None\<rparr>)"
    using Unlink_Stream(1) by simp_all
  show ?thesis
  proof (rule streams_linkedI)
    show "distinct (mod_streams x)" if "st_modules s' q = Some x" for q x
      using that d streams_linkedD(1) [OF assms(2)] by (auto simp: m' split: if_splits)
    show "\<exists>x. st_streams s' r = Some x \<and> stream_list x = Some q"
      if x: "st_modules s' q = Some x" "r \<in> set (mod_streams x)" for q x r
    proof (cases "q = mp")
      case True
      then have "r \<in> set (mod_streams m)" "r \<noteq> p" using x d by (auto simp: m')
      then show ?thesis using True streams_linkedD(2) [OF assms(2) Unlink_Stream(2)] by (simp add: st')
    next
      case False
      then have "st_modules s q = Some x" using x by (simp add: m')
      moreover have "r \<noteq> p" using own [OF calculation] x(2) False by blast
      ultimately show ?thesis using streams_linkedD(2) [OF assms(2) _ x(2)] by (simp add: st')
    qed
    show "\<exists>m. st_modules s' q = Some m \<and> r \<in> set (mod_streams m)"
      if x: "st_streams s' r = Some x" "stream_list x = Some q" for r x q
    proof -
      have "r \<noteq> p" "st_streams s r = Some x" using x by (auto simp: st' split: if_splits)
      then show ?thesis
        using streams_linkedD(3) [OF assms(2) _ x(2)] Unlink_Stream(2) d by (auto simp: m')
    qed
  qed
next
  case (New_Stream t)
  show ?thesis
  proof (rule streams_linked_mono [OF assms(2)])
    fix p st
    assume "st_streams s p = Some st" "stream_list st \<noteq> None"
    moreover from this have "p < st_next s" using fresh_aboveD(1) [OF assms(3)] by blast
    ultimately show "\<exists>st'. st_streams s' p = Some st' \<and> stream_list st' = stream_list st"
      by (simp add: New_Stream)
  qed (auto simp: New_Stream zero_stream_def split: if_splits)
next
  case (New_Module m)
  show ?thesis
  proof (rule streams_linked_mono [OF assms(2)])
    fix mp x
    assume "st_modules s mp = Some x" "mod_streams x \<noteq> []"
    moreover from this have "mp < st_next s" using fresh_aboveD(2) [OF assms(3)] by blast
    ultimately show "\<exists>m'. st_modules s' mp = Some m' \<and> mod_streams m' = mod_streams x"
      by (simp add: New_Module)
  qed (auto simp: New_Module split: if_splits)
qed (rule streams_linked_mono [OF assms(2)]; force split: if_splits)+

theorem heap_step_wf: "heap_step s s' \<Longrightarrow> heap_wf s \<Longrightarrow> heap_wf s'"
  unfolding heap_wf_def
  using streams_step windows_step bound_step contents_step fresh_step by blast

theorem heap_steps_wf: "heap_steps s s' \<Longrightarrow> heap_wf s \<Longrightarrow> heap_wf s'"
  by (induction rule: rtranclp_induct) (auto intro: heap_step_wf)

end
