(* ===== verification/Acm_Quiet.thy ===== *)
theory Acm_Quiet
  imports Acm_Heap_Steps Acm_Apply Acm_Msgbuf_Spec Acm_Fsc_Spec
begin

text \<open>
  The functions of the library that change the heap only quietly: the calculation of indices, the
  validation (which rebuilds the message buffers), and everything that writes to the hardware.
\<close>

section \<open>Combinators\<close>

named_theorems quiets

lemma quiet_foreach_st:
  assumes "foreach_st f xs s = Some (r, s')" "\<And>x a q b. f x a = Some (q, b) \<Longrightarrow> quiet a b"
  shows "quiet s s'"
  using assms(1)
proof (induction xs arbitrary: s)
  case (Cons x xs)
  then show ?case
    by (auto simp: bind_eq_Some_conv split: if_splits intro: quiet_trans assms(2) dest: assms(2))
qed simp

lemma quiet_foreach_upd:
  assumes "foreach_upd f xs s = Some s'" "\<And>x a b. f x a = Some b \<Longrightarrow> quiet a b"
  shows "quiet s s'"
  using assms(1)
proof (induction xs arbitrary: s)
  case (Cons x xs)
  then show ?case by (auto simp: bind_eq_Some_conv dest!: assms(2) intro: quiet_trans)
qed simp

text \<open>Chains of calls that stop at an error.\<close>

lemma quiet_unless_neg:
  assumes "unless_neg res k = Some (r, s')" "quiet s (snd res)"
    "\<And>a. k a = Some (r, s') \<Longrightarrow> quiet a s'"
  shows "quiet s s'"
  using assms by (cases res) (auto simp: unless_neg_def split: if_splits intro: quiet_trans)

lemma quiet_if_zero:
  assumes "if_zero res k = Some (r, s')" "quiet s (snd res)"
    "\<And>a. k a = Some (r, s') \<Longrightarrow> quiet a s'"
  shows "quiet s s'"
  using assms by (cases res) (auto simp: if_zero_def split: if_splits intro: quiet_trans)

section \<open>Index calculation\<close>

lemma quiet_index_loop:
  assumes "index_loop step ps i s = Some s'" "\<And>st i. stream_like st (fst (step st i))"
  shows "quiet s s'"
  using assms(1)
proof (induction ps arbitrary: i s)
  case (Cons p ps)
  then show ?case
    by (auto simp: bind_eq_Some_conv case_prod_beta dest!: quiet_mod_stream intro: quiet_trans assms(2))
qed simp

lemma quiet_lookup [quiets]: "calculate_lookup_indizes ps s = Some s' \<Longrightarrow> quiet s s'"
  unfolding calculate_lookup_indizes_def
  by (erule quiet_index_loop) (simp add: lookup_step_def stream_like_def)

lemma quiet_gather [quiets]: "calculate_gather_indizes ps s = Some s' \<Longrightarrow> quiet s s'"
  unfolding calculate_gather_indizes_def
  by (erule quiet_index_loop) (simp add: gather_step_def stream_like_def Let_def)

lemma quiet_scatter [quiets]: "calculate_scatter_indizes ps s = Some s' \<Longrightarrow> quiet s s'"
  unfolding calculate_scatter_indizes_def
  by (erule quiet_index_loop) (simp add: scatter_step_def stream_like_def Let_def)

lemma quiet_mod_redundand: "mod_stream p (\<lambda>x. x\<lparr>redundand_index := i\<rparr>) s = Some s' \<Longrightarrow> quiet s s'"
  by (erule quiet_mod_stream) (simp add: stream_like_def)

lemma quiet_redundancy_loop: "redundancy_loop ps i s = Some s' \<Longrightarrow> quiet s s'"
proof (induction ps arbitrary: i s)
  case (Cons p ps)
  then show ?case
    by (auto simp: bind_eq_Some_conv split: if_splits dest!: quiet_mod_redundand
        intro: quiet_trans [OF _ quiet_trans] quiet_trans)
qed simp

lemma quiet_redundancy [quiets]: "calculate_redundancy_indizes ps s = Some s' \<Longrightarrow> quiet s s'"
  unfolding calculate_redundancy_indizes_def by (rule quiet_redundancy_loop)

lemma quiet_indizes [quiets]:
  assumes "calculate_indizes_for_HW_tables ps p s = Some (r, s')"
  shows "quiet s s'"
proof -
  obtain st where st: "st_streams s p = Some st"
    using assms by (auto simp: calculate_indizes_for_HW_tables_def bind_eq_Some_conv)
  show ?thesis
    using assms
    by (cases "stype st") (auto simp: calculate_indizes_for_HW_tables_def bind_eq_Some_conv st
        dest!: quiets intro: quiet_trans [OF _ quiet_trans] quiet_trans)
qed

lemma quiet_indizes_of_list [quiets]: "calculate_indizes_of_list mp p s = Some (r, s') \<Longrightarrow> quiet s s'"
  by (auto simp: calculate_indizes_of_list_def bind_eq_Some_conv dest: quiets)

section \<open>Message buffers and validation\<close>

lemma buffers_only_quiet: "buffers_only s s' \<Longrightarrow> quiet s s' \<and> st_streams s' = st_streams s"
proof -
  assume b: "buffers_only s s'"
  then obtain m h where "s' = s\<lparr>st_next := m, st_bufs := h\<rparr>" "st_next s \<le> m"
    by (auto simp: buffers_only_iff)
  then show ?thesis by (auto simp: quiet_def rel_option_refl_on)
qed

lemma only_mod_buf: "mod_buf p f s = Some s' \<Longrightarrow> buffers_only s s'"
  by (auto simp: mod_buf_def buffers_only_def split: option.splits)

lemma only_update_offset_loop: "update_offset_loop ps q f c s = Some s' \<Longrightarrow> buffers_only s s'"
proof (induction ps arbitrary: f c s)
  case (Cons p ps)
  then show ?case
    by (auto simp: bind_eq_Some_conv split: if_splits dest!: only_mod_buf intro: buffers_only_trans)
qed simp

lemma only_buffer_destroy: "buffers_only s s' \<Longrightarrow> buffers_only s (buffer_destroy p s')"
  unfolding buffer_destroy_def by (erule buffers_only_trans) (simp add: buffers_only_def)

lemma only_buffer_empty_list: "buffer_empty_list ps s = (bs, s') \<Longrightarrow> buffers_only s s'"
proof (induction ps arbitrary: s)
  case (Cons p ps)
  then show ?case using buffers_only_trans [OF only_buffer_destroy [OF buffers_only_refl]] by simp blast
qed simp

lemma only_buffer_create: "buffer_create op i off z s = Some (r, s') \<Longrightarrow> buffers_only s s'"
  by (auto simp: buffer_create_def acm_zalloc_def bind_eq_Some_conv buffers_only_def
      split: if_splits)

lemma op_like_msg_buf [simp]: "op_like op (op\<lparr>msg_buf := b\<rparr>)"
  by (simp add: op_like_def)

lemma msgbuf_op_only:
  assumes "msgbuf_op g op c s = Some (r, op', c', s')"
  shows "buffers_only s s' \<and> op_like op op'"
proof (cases "opcode op \<noteq> READ \<and> opcode op \<noteq> INSERT")
  case True
  then show ?thesis using assms by (simp add: msgbuf_op_def)
next
  case False
  then have codes: "(opcode op \<noteq> READ \<and> opcode op \<noteq> INSERT) = False" by blast
  obtain new s1 where new: "buffer_create op (mb_index c) (mb_offset c) (buffer_blocks g op) s = Some (new, s1)"
    using assms codes by (auto simp: msgbuf_op_def bind_eq_Some_conv simp del: de_Morgan_conj)
  note q1 = only_buffer_create [OF new]
  note step = assms [unfolded msgbuf_op_def codes if_False new bind.bind_lunit prod.case]
  show ?thesis
  proof (cases new)
    case None
    then show ?thesis using step q1 by simp
  next
    case (Some p)
    obtain b ret reuse where b: "st_bufs s1 p = Some b" "buffername_check (mb_list c) b s1 = Some (ret, reuse)"
      using step by (auto simp: Some bind_eq_Some_conv)
    note step = step [unfolded Some option.case b bind.bind_lunit prod.case]
    show ?thesis
    proof (cases "ret < 0 \<or> reuse = None")
      case True
      then show ?thesis using step q1 by (auto split: if_splits intro: only_buffer_destroy)
    next
      case False
      then obtain q old where q: "reuse = Some q" "st_bufs s1 q = Some old" "\<not> ret < 0"
        using step by (auto simp: bind_eq_Some_conv)
      then show ?thesis
        using step q1
        by (auto simp: bind_eq_Some_conv update_offset_after_buffer_def split: if_splits
            dest!: only_mod_buf only_update_offset_loop
            intro!: only_buffer_destroy intro: buffers_only_trans [OF _ buffers_only_trans])
    qed
  qed
qed

lemma msgbuf_ops_only:
  assumes "msgbuf_ops g ops c s = Some (r, ops', c', s')"
  shows "buffers_only s s' \<and> list_all2 op_like ops ops'"
  using assms
proof (induction ops arbitrary: c s r ops' c')
  case (Cons op ops)
  then show ?case
    by (auto simp: bind_eq_Some_conv split: if_splits dest!: msgbuf_op_only intro: buffers_only_trans)
qed simp

lemma quiet_set_ops:
  assumes "mod_stream p (\<lambda>x. x\<lparr>operations := ops'\<rparr>) s = Some s'" "st_streams s p = Some st"
    "list_all2 op_like (operations st) ops'"
  shows "quiet s s'"
  using assms(1) by (rule quiet_mod_stream) (use assms in \<open>simp add: stream_like_def\<close>)

lemma quiet_msgbuf_streams: "msgbuf_streams g ps c s = Some (r, c', s') \<Longrightarrow> quiet s s'"
proof (induction ps arbitrary: c s)
  case (Cons p ps)
  from Cons.prems obtain st r1 ops' c1 s1 s2 where st: "st_streams s p = Some st"
      "msgbuf_ops g (operations st) c s = Some (r1, ops', c1, s1)"
      "mod_stream p (\<lambda>x. x\<lparr>operations := ops'\<rparr>) s1 = Some s2"
    and rest: "(if r1 < 0 then Some (r1, c1, s2) else msgbuf_streams g ps c1 s2) = Some (r, c', s')"
    by (auto simp: bind_eq_Some_conv)
  have "quiet s s1" "st_streams s1 = st_streams s" "list_all2 op_like (operations st) ops'"
    using msgbuf_ops_only [OF st(2)] buffers_only_quiet by auto
  then have "quiet s s2" using quiet_set_ops [OF st(3)] st(1) quiet_trans by metis
  then show ?case using rest Cons.IH by (auto split: if_splits intro: quiet_trans)
qed simp

lemma quiet_create_module: "create_hw_msg_buf_list_module bp g c s = Some (r, c', s') \<Longrightarrow> quiet s s'"
  by (auto simp: create_hw_msg_buf_list_module_def bind_eq_Some_conv Let_def
      split: option.splits if_splits dest: quiet_msgbuf_streams)

lemma quiet_mod_msg_buffs: "mod_config cp (\<lambda>x. x\<lparr>msg_buffs := bs\<rparr>) s = Some s' \<Longrightarrow> quiet s s'"
  by (erule quiet_mod_config) (simp add: config_like_def)

lemma quiet_create_list: "create_hw_msg_buf_list cp s = Some (r, s') \<Longrightarrow> quiet s s'"
  by (auto simp: create_hw_msg_buf_list_def bind_eq_Some_conv Let_def split: if_splits
      dest!: quiet_create_module quiet_mod_msg_buffs intro: quiet_trans [OF _ quiet_trans] quiet_trans)

lemma quiet_clean_links: "stream_clean_msg_buff_links p s = Some s' \<Longrightarrow> quiet s s'"
  unfolding stream_clean_msg_buff_links_def
  by (erule quiet_mod_stream) (auto simp: stream_like_def list_all2_map2 intro!: list.rel_refl_strong)

lemma quiet_clean_bypass: "clean_bypass_links bp s = Some s' \<Longrightarrow> quiet s s'"
  by (auto simp: clean_bypass_links_def module_clean_msg_buff_links_def bind_eq_Some_conv
      split: option.splits elim: quiet_foreach_upd quiet_clean_links)

lemma quiet_recalculate [quiets]:
  assumes "clean_and_recalculate_hw_msg_buffs cp s = Some (r, s')"
  shows "quiet s s'"
proof -
  from assms obtain cfg s1 s2 where 1: "st_configs s cp = Some cfg"
      "clean_bypass_links (bypass cfg 0) s = Some s1" "clean_bypass_links (bypass cfg 1) s1 = Some s2"
    by (auto simp: clean_and_recalculate_hw_msg_buffs_def bind_eq_Some_conv Let_def)
  obtain bufs s3 where 2: "buffer_empty_list (msg_buffs cfg) s2 = (bufs, s3)" by fastforce
  with assms 1 obtain s4 where 3: "mod_config cp (\<lambda>x. x\<lparr>msg_buffs := bufs\<rparr>) s3 = Some s4"
      "create_hw_msg_buf_list cp s4 = Some (r, s')"
    by (auto simp: clean_and_recalculate_hw_msg_buffs_def bind_eq_Some_conv Let_def)
  have "quiet s s1" "quiet s1 s2" "quiet s3 s4" "quiet s4 s'"
    using 1 3 by (auto dest: quiet_clean_bypass quiet_mod_msg_buffs quiet_create_list)
  moreover have "quiet s2 s3" using only_buffer_empty_list [OF 2] buffers_only_quiet by blast
  ultimately show ?thesis by (blast intro: quiet_trans)
qed

lemma quiet_validate_config [quiets]: "validate_config f cp s = Some (r, s') \<Longrightarrow> quiet s s'"
  by (auto simp: validate_config_def bind_eq_Some_conv split: if_splits dest: quiets)

lemma quiet_validate_module [quiets]: "validate_module f mp s = Some (r, s') \<Longrightarrow> quiet s s'"
  by (auto simp: validate_module_def bind_eq_Some_conv split: if_splits option.splits dest: quiets)

lemma quiet_validate_stream_list [quiets]: "validate_stream_list f mp s = Some (r, s') \<Longrightarrow> quiet s s'"
  by (auto simp: validate_stream_list_def bind_eq_Some_conv split: if_splits dest: quiets)

lemma quiet_validate_stream [quiets]: "validate_stream f p s = Some (r, s') \<Longrightarrow> quiet s s'"
  by (auto simp: validate_stream_def bind_eq_Some_conv split: if_splits option.splits dest: quiets)

section \<open>Writing to the hardware\<close>

lemma quiet_write_item [simp]: "quiet s (snd (write_buffer_config_sysfs_item f d n off s))"
proof (cases "write_buffer_config_sysfs_item f d n off s")
  case (Pair r s')
  then show ?thesis using write_item_cases [OF Pair] by auto
qed

lemma quiet_single [simp]:
  "quiet s (snd (sysfs_write_configuration_id i s))" "quiet s (snd (sysfs_write_emergency_disable m v s))"
  "quiet s (snd (sysfs_write_connection_mode_to_HW m s))" "quiet s (snd (sysfs_write_config_status_to_HW w s))"
  "quiet s (snd (sysfs_write_module_enable m b s))" "quiet s (snd (sysfs_write_cntl_speed m s))"
  "quiet s (snd (write_clear_all_fpga s))" "quiet s (snd (lookup_item f n mid ix d s))"
  "quiet s (snd (trigger_item mid k t s))" "quiet s (snd (dma_item f mid k c s))"
  "quiet s (snd (redund_item mid k c s))"
  by (simp_all add: sysfs_write_configuration_id_def sysfs_write_emergency_disable_def
      sysfs_write_connection_mode_to_HW_def sysfs_write_config_status_to_HW_def sysfs_write_module_enable_def
      sysfs_write_cntl_speed_def write_clear_all_fpga_def lookup_item_def trigger_item_def dma_item_def
      redund_item_def split: acm_connection_mode.split acm_linkspeed.split)

lemma quiet_singles:
  "sysfs_write_configuration_id i s = (r, s') \<Longrightarrow> quiet s s'"
  "sysfs_write_emergency_disable m v s = (r, s') \<Longrightarrow> quiet s s'"
  "sysfs_write_connection_mode_to_HW m s = (r, s') \<Longrightarrow> quiet s s'"
  "sysfs_write_module_enable m b s = (r, s') \<Longrightarrow> quiet s s'"
  "sysfs_write_cntl_speed m s = (r, s') \<Longrightarrow> quiet s s'"
  using quiet_single(1) [of s i] quiet_single(2) [of s m v] quiet_single(3) [of s m]
    quiet_single(5) [of s m b] quiet_single(6) [of s m] by simp_all

lemma quiet_item: "write_buffer_config_sysfs_item f d n off s = (r, s') \<Longrightarrow> quiet s s'"
  using quiet_write_item [of s f d n off] by simp

lemma const_buffer_ops_like:
  "const_buffer_ops ops off data = Some (ops', off', data') \<Longrightarrow> list_all2 op_like ops ops'"
  by (induction ops arbitrary: off data ops')
    (auto simp: bind_eq_Some_conv op_like_def split: if_splits)

lemma quiet_const_streams: "const_buffer_streams ps off data s = Some (d, s') \<Longrightarrow> quiet s s'"
proof (induction ps arbitrary: off data s)
  case (Cons p ps)
  then show ?case
    by (auto simp: bind_eq_Some_conv dest!: const_buffer_ops_like dest: quiet_set_ops intro: quiet_trans)
qed simp

lemma quiet_const_buffer [quiets]: "sysfs_write_data_constant_buffer m s = Some (r, s') \<Longrightarrow> quiet s s'"
  by (auto simp: sysfs_write_data_constant_buffer_def bind_eq_Some_conv dest!: quiet_const_streams quiet_item
      intro: quiet_trans)

lemma quiet_trigger_item: "trigger_item mid k t s = (r, s') \<Longrightarrow> quiet s s'"
  unfolding trigger_item_def by (rule quiet_item)

lemma quiet_write_lookup_stream:
  assumes "write_lookup_stream mid st s = Some (r, s')"
  shows "quiet s s'"
proof -
  from assms obtain lk where lk: "stream_lookup st = Some lk"
    by (auto simp: write_lookup_stream_def bind_eq_Some_conv)
  show ?thesis
    using assms unfolding write_lookup_stream_def lk bind.bind_lunit
    by (elim quiet_if_zero; (simp only: quiet_single)?)
      (auto simp: bind_eq_Some_conv dest!: quiet_trigger_item split: option.splits)
qed

lemma quiet_write_lookup_streams: "write_lookup_streams mid ps c s = Some (r, c', s') \<Longrightarrow> quiet s s'"
proof (induction ps arbitrary: c s)
  case (Cons p ps)
  then show ?case
    by (auto simp: bind_eq_Some_conv split: if_splits dest!: quiet_write_lookup_stream intro: quiet_trans)
qed simp

lemma quiet_control_block:
  "sysfs_write_lookup_control_block mid a b c d s = Some (r, s') \<Longrightarrow> quiet s s'"
  unfolding sysfs_write_lookup_control_block_def
  by (elim quiet_if_zero; (simp only: quiet_write_item)?) simp

lemma quiet_lookup_tables [quiets]:
  assumes "sysfs_write_lookup_tables mp s = Some (r, s')"
  shows "quiet s s'"
proof -
  obtain m ret c s1 where m: "st_modules s mp = Some m"
    and l: "write_lookup_streams (module_id m) (mod_streams m)
      \<lparr>lc_ingress_control = 0, lc_lookup_enable = 0, lc_layer7_enable = 0, lc_layer7_len = 0\<rparr> s = Some (ret, c, s1)"
    using assms by (auto simp: sysfs_write_lookup_tables_def bind_eq_Some_conv)
  have q: "quiet s s1" using l by (rule quiet_write_lookup_streams)
  have "quiet s1 s'"
  proof (cases "ret = 0")
    case True
    then obtain res where "sysfs_write_lookup_control_block (module_id m) (lc_ingress_control c)
        (lc_lookup_enable c) (lc_layer7_enable c) (lc_layer7_len c) s1 = Some res"
      "if_zero res (\<lambda>s2. if_zero (trigger_item (module_id m) 16 (default_trigger (conn_mode m)) s2)
        (\<lambda>s3. Some (0, s3))) = Some (r, s')"
      using assms m l by (auto simp: sysfs_write_lookup_tables_def bind_eq_Some_conv)
    then show ?thesis
      by (cases res) (auto dest!: quiet_control_block elim!: quiet_if_zero)
  next
    case False
    then show ?thesis
      using assms m l by (auto simp: sysfs_write_lookup_tables_def bind_eq_Some_conv
          elim!: quiet_mod_module simp: module_like_def)
  qed
  with q show ?thesis by (rule quiet_trans)
qed

lemma quiet_dma_item: "dma_item f mid k c s = (r, s') \<Longrightarrow> quiet s s'"
  unfolding dma_item_def by (rule quiet_item)

lemma quiet_scatter_ops: "write_scatter_ops mid ops i r0 s = Some (r, s') \<Longrightarrow> quiet s s'"
proof (induction ops arbitrary: i r0 s)
  case (Cons op ops)
  show ?case
  proof (cases "opcode op = READ")
    case True
    then obtain b where b: "buffer_index_of op s = Some b"
      using Cons.prems by (auto simp: bind_eq_Some_conv)
    obtain r1 s1 where d: "dma_item ''scatter_dma'' mid i
        (acmdrv_bypass_dma_cmd_s_move_with_timestamp_create (\<not> stream_has_operation_x ops READ) False
          (op_offset op) (op_length op) b) s = (r1, s1)"
      by fastforce
    show ?thesis
      using Cons.prems True b d quiet_dma_item [OF d] Cons.IH
      by (auto split: if_split_asm intro: quiet_trans)
  next
    case False
    then show ?thesis using Cons by simp
  qed
qed simp

lemma quiet_scatter_streams: "write_scatter_streams mid ps r0 s = Some (r, s') \<Longrightarrow> quiet s s'"
proof (induction ps arbitrary: r0 s)
  case (Cons p ps)
  then show ?case
    by (auto simp: bind_eq_Some_conv split: if_splits dest!: quiet_scatter_ops intro: quiet_trans)
qed simp

lemma quiet_scatter_dma [quiets]: "sysfs_write_scatter_dma m s = Some (r, s') \<Longrightarrow> quiet s s'"
  unfolding sysfs_write_scatter_dma_def
  by (elim quiet_if_zero) (simp_all add: quiet_scatter_streams)

lemma quiet_gather_ingress: "quiet s (snd (write_gather_ingress g mid ops s))"
  by (induction ops) auto

lemma quiet_lock_commands: "quiet s (snd (snd (write_lock_commands mid d v is pidx s)))"
proof (induction "is" arbitrary: pidx s)
  case (Cons i rest)
  obtain r1 s1 where 1: "dma_item ''prefetch_dma'' mid pidx
      (acmdrv_bypass_dma_cmd_p_lock_msg_buff_create (word_of_nat i) d (lock_group v i)) s = (r1, s1)"
    by fastforce
  then show ?case using Cons.IH quiet_trans [OF quiet_dma_item [OF 1]] by (simp add: quiet_dma_item)
qed simp

lemma quiet_prefetch_head: "write_prefetch_head mid d v pidx s = (r, q, s') \<Longrightarrow> quiet s s'"
  using quiet_lock_commands [of s mid d v "[0, 1, 2, 3]" pidx]
  by (auto simp: write_prefetch_head_def split: if_splits prod.split_asm dest: quiet_dma_item)

lemma quiet_prefetch_command:
  assumes "write_prefetch_command mid op ops pidx s = Some (r, q, s')"
  shows "quiet s s'"
proof (cases "opcode op = INSERT")
  case True
  then obtain b where b: "buffer_index_of op s = Some b"
    using assms by (auto simp: write_prefetch_command_def bind_eq_Some_conv)
  obtain r1 s1 where d: "dma_item ''prefetch_dma'' mid pidx
      (acmdrv_bypass_dma_cmd_p_mov_msg_buff_create (\<not> stream_has_operation_x ops INSERT) False
        (op_length op) b) s = (r1, s1)"
    by fastforce
  show ?thesis using assms True b d quiet_dma_item [OF d] by (simp add: write_prefetch_command_def)
next
  case False
  then show ?thesis using assms by (simp add: write_prefetch_command_def)
qed

lemma quiet_gather_ops: "write_gather_ops mid tx st ops k pidx s = Some (r, s') \<Longrightarrow> quiet s s'"
proof (induction ops arbitrary: k pidx s)
  case (Cons op ops)
  obtain cmd where cmd: "gather_command op (ops = [] \<and> \<not> (tx \<and> k = NUM_AUTOGEN_OPS - 1)) = Some cmd"
    using Cons.prems by (auto simp: Let_def bind_eq_Some_conv)
  show ?case
  proof (cases cmd)
    case (Inl e)
    then show ?thesis using Cons.prems cmd by (simp add: Let_def)
  next
    case (Inr g)
    note prems = Cons.prems [unfolded write_gather_ops.simps Let_def cmd Inr bind.bind_lunit sum.case]
    obtain r1 q s1 where p: "write_prefetch_command mid op ops pidx s = Some (r1, q, s1)"
      using prems by (auto simp: bind_eq_Some_conv)
    have 1: "quiet s s1" using p by (rule quiet_prefetch_command)
    have "quiet s1 s'"
    proof (cases "r1 = 0")
      case True
      then have "if_zero (dma_item ''gather_dma'' mid (st + k) g s1) (\<lambda>s2.
          if tx \<and> k + 1 = NUM_AUTOGEN_OPS then
            if_zero (dma_item ''gather_dma'' mid (st + (k + 1)) acmdrv_bypass_dma_cmd_g_r_tag_create s2)
              (\<lambda>s3. write_gather_ops mid tx st ops (k + 2) q s3)
          else write_gather_ops mid tx st ops (k + 1) q s2) = Some (r, s')"
        using prems p by simp
      then show ?thesis
      proof (rule quiet_if_zero)
        fix a
        assume "(if tx \<and> k + 1 = NUM_AUTOGEN_OPS then
            if_zero (dma_item ''gather_dma'' mid (st + (k + 1)) acmdrv_bypass_dma_cmd_g_r_tag_create a)
              (\<lambda>s3. write_gather_ops mid tx st ops (k + 2) q s3)
          else write_gather_ops mid tx st ops (k + 1) q a) = Some (r, s')"
        then show "quiet a s'"
          using Cons.IH by (auto split: if_split_asm elim!: quiet_if_zero)
      qed simp
    next
      case False
      then show ?thesis using prems p by simp
    qed
    with 1 show ?thesis by (rule quiet_trans)
  qed
qed simp

lemma quiet_gather_stream: "write_gather_stream mid p s = Some (r, s') \<Longrightarrow> quiet s s'"
proof -
  assume a: "write_gather_stream mid p s = Some (r, s')"
  then obtain st where st: "st_streams s p = Some st"
    by (auto simp: write_gather_stream_def bind_eq_Some_conv)
  have "quiet s s'" if e: "write_gather_egress g mid st s = Some (r, s')" for g
  proof -
    obtain v where v: "lock_vector_of (operations st) (acmdrv_bitarray_zero 8) s = Some v"
      using e by (auto simp: write_gather_egress_def bind_eq_Some_conv)
    obtain r1 q s1 where h: "write_prefetch_head mid (stype st = REDUNDANT_STREAM_TX) v g s = (r1, q, s1)"
      by (metis prod_cases3)
    show ?thesis
      using e quiet_prefetch_head [OF h]
      by (auto simp: write_gather_egress_def v h Let_def split: if_split_asm
          dest!: quiet_gather_ops intro: quiet_trans)
  qed
  then show ?thesis
    using a quiet_gather_ingress [of s "unat (gather_dma_index st)" mid "operations st"]
    by (auto simp: write_gather_stream_def st split: if_split_asm)
qed

lemma quiet_gather_dma [quiets]: "sysfs_write_prefetcher_gather_dma m s = Some (r, s') \<Longrightarrow> quiet s s'"
  unfolding sysfs_write_prefetcher_gather_dma_def
  by (elim quiet_if_zero quiet_foreach_st quiet_gather_stream) simp_all

lemma quiet_redund_stream: "write_redund_stream mid p s = Some (r, s') \<Longrightarrow> quiet s s'"
  by (auto simp: write_redund_stream_def redund_item_def bind_eq_Some_conv split: if_split_asm dest!: quiet_item)

lemma quiet_redund_table [quiets]: "sysfs_write_redund_ctrl_table m s = Some (r, s') \<Longrightarrow> quiet s s'"
  unfolding sysfs_write_redund_ctrl_table_def
  by (elim quiet_if_zero quiet_foreach_st quiet_redund_stream) simp_all

lemma quiet_base_recovery [quiets]: "sysfs_write_base_recovery cfg s = Some (r, s') \<Longrightarrow> quiet s s'"
  by (auto simp: sysfs_write_base_recovery_def bind_eq_Some_conv dest!: quiet_item split: option.split_asm)

lemma quiet_individual_recovery [quiets]:
  "sysfs_write_individual_recovery m s = Some (r, s') \<Longrightarrow> quiet s s'"
  by (auto simp: sysfs_write_individual_recovery_def bind_eq_Some_conv dest!: quiet_item)

lemma quiet_write_msg_buffs: "write_msg_buffs t path bs s = (r, s') \<Longrightarrow> quiet s s'"
proof (induction bs arbitrary: s)
  case (Cons b bs)
  then show ?case
    by (auto simp: Let_def split: sum.split_asm if_split_asm intro: quiet_trans [OF quiet_hw(1)])
qed simp

lemma quiet_msg_buff_to_HW [quiets]: "sysfs_write_msg_buff_to_HW cfg t s = Some (r, s') \<Longrightarrow> quiet s s'"
  by (auto simp: sysfs_write_msg_buff_to_HW_def bind_eq_Some_conv split: sum.split_asm if_split_asm
      dest!: quiet_write_msg_buffs)

text \<open>The schedule table is written to an open file: nothing but the log changes.\<close>

definition only_logged :: "acm_state \<Rightarrow> acm_state \<Rightarrow> bool" where
  "only_logged s s' = (s' = s\<lparr>st_hw := st_hw s'\<rparr>)"

lemma only_logged_refl [simp]: "only_logged s s" "only_logged s (s\<lparr>st_hw := h\<rparr>)"
  by (simp_all add: only_logged_def)

lemma only_logged_trans:
  assumes "only_logged a b" "only_logged b c"
  shows "only_logged a c"
proof -
  obtain g h where "b = a\<lparr>st_hw := g\<rparr>" "c = b\<lparr>st_hw := h\<rparr>"
    using assms unfolding only_logged_def by blast
  then show ?thesis by simp
qed

lemma only_logged_quiet: "only_logged s s' \<Longrightarrow> quiet s s' \<and> st_modules s' = st_modules s"
proof -
  assume "only_logged s s'"
  then obtain h where "s' = s\<lparr>st_hw := h\<rparr>" unfolding only_logged_def by blast
  then show ?thesis by simp
qed

lemma only_logged_pwrite_item: "pwrite_item w s = (r, s') \<Longrightarrow> only_logged s s'"
  by (auto simp: pwrite_item_def Let_def split: if_split_asm)

lemma only_logged_nop_command: "write_fsc_nop_command mi ti i d s = (r, s') \<Longrightarrow> only_logged s s'"
  unfolding write_fsc_nop_command_def by (rule only_logged_pwrite_item)

lemma only_logged_first_nops: "write_first_nops mi ti d i s = (r, q, s') \<Longrightarrow> only_logged s s'"
proof (induction mi ti d i s rule: write_first_nops.induct)
  case (1 mi ti d i s)
  obtain r1 s1 where n: "write_fsc_nop_command mi ti i (if UINT16_T_MAX < d then NOP_DELTA_CYCLE else d) s = (r1, s1)"
    by fastforce
  note prems = 1(2) [unfolded write_first_nops.simps [of mi ti d i s]]
  show ?case
    using prems n only_logged_nop_command [OF n] 1(1)
    by (auto split: if_split_asm intro: only_logged_trans)
qed

lemma only_logged_more_nops: "write_more_nops mi ti d i r0 s = (r, q, s') \<Longrightarrow> only_logged s s'"
proof (induction mi ti d i r0 s rule: write_more_nops.induct)
  case (1 mi ti d i r0 s)
  obtain r1 s1 where n: "write_fsc_nop_command mi ti i (if UINT16_T_MAX < d then NOP_DELTA_CYCLE else d) s = (r1, s1)"
    by fastforce
  note prems = 1(2) [unfolded write_more_nops.simps [of mi ti d i r0 s] Let_def]
  show ?case
    using prems n only_logged_nop_command [OF n] 1(1)
    by (auto split: if_split_asm intro: only_logged_trans)
qed

definition same_times :: "fsc_command list \<Rightarrow> fsc_command list \<Rightarrow> bool" where
  "same_times xs ys = (map (\<lambda>c. (abs_cycle c, schedule_reference c)) ys =
     map (\<lambda>c. (abs_cycle c, schedule_reference c)) xs)"

lemma fsc_write_loop_only_logged:
  "fsc_write_loop mi ti c cs i s = Some (r, fscs, s') \<Longrightarrow> only_logged s s' \<and> same_times (c # cs) fscs"
proof (induction cs arbitrary: c i s r fscs)
  case Nil
  then obtain r1 c' where u: "update_fsc_indexes s c = Some (r1, c')"
    by (auto simp: bind_eq_Some_conv)
  obtain r2 s1 where w: "pwrite_item (row_write mi ti i (fsc_cmd c', ucast ANZ_MIN_TICKS)) s = (r2, s1)"
    by fastforce
  show ?case
    using Nil u w update_fsc_keeps [OF u] only_logged_pwrite_item [OF w]
    by (auto simp: same_times_def split: if_split_asm)
next
  case (Cons d cs)
  obtain r1 c' where u: "update_fsc_indexes s c = Some (r1, c')"
    using Cons.prems by (auto simp: Let_def bind_eq_Some_conv)
  define delta where "delta = abs_cycle d - abs_cycle c"
  define f where "f = (if UINT16_T_MAX < delta then NOP_DELTA_CYCLE else delta)"
  obtain r2 s1 where w: "pwrite_item (row_write mi ti i (fsc_cmd c', ucast f)) s = (r2, s1)" by fastforce
  obtain r3 q s2 where m: "write_more_nops mi ti (delta - f) (i + 1) r2 s1 = (r3, q, s2)" by (metis prod_cases3)
  note prems = Cons.prems [unfolded fsc_write_loop.simps Let_def, folded delta_def, folded f_def, unfolded u
    bind.bind_lunit prod.case w m]
  note facts = update_fsc_keeps [OF u] only_logged_pwrite_item [OF w] only_logged_trans [OF only_logged_pwrite_item [OF w] only_logged_more_nops [OF m]]
  show ?case
  proof (cases "r1 < 0 \<or> r2 < 0 \<or> r3 < 0")
    case True
    then show ?thesis using prems facts by (auto simp: same_times_def split: if_split_asm)
  next
    case False
    then obtain r4 fscs' where l: "fsc_write_loop mi ti d cs q s2 = Some (r4, fscs', s')"
        "fscs = c' # fscs'"
      using prems by (auto simp: bind_eq_Some_conv)
    then show ?thesis using Cons.IH [OF l(1)] facts by (auto simp: same_times_def intro: only_logged_trans)
  qed
qed

lemma fsc_write_list_only_logged:
  assumes "fsc_write_list mi ti fscs s = Some (r, fscs', s')"
  shows "only_logged s s' \<and> same_times fscs fscs'"
proof (cases fscs)
  case Nil
  then show ?thesis using assms by (simp add: fsc_write_list_def same_times_def)
next
  case (Cons c cs)
  obtain r1 q s1 where f: "(if abs_cycle c \<noteq> 0 then write_first_nops mi ti (abs_cycle c) 0 s else (0, 0, s)) = (r1, q, s1)"
    by (metis prod_cases3)
  have "only_logged s s1" using f only_logged_first_nops by (auto split: if_split_asm)
  then show ?thesis
    using assms Cons f by (auto simp: fsc_write_list_def same_times_def split: if_split_asm
        dest!: fsc_write_loop_only_logged intro: only_logged_trans)
qed

lemma quiet_fsc_schedules [quiets]:
  assumes "write_fsc_schedules_to_HW mp ti s = Some (r, s')"
  shows "quiet s s'"
proof (cases "env_open (st_env s) SCHED_TAB_PATH < 0")
  case True
  then show ?thesis using assms by (auto simp: write_fsc_schedules_to_HW_def bind_eq_Some_conv)
next
  case False
  then obtain m r1 fscs s1 where m: "st_modules s mp = Some m"
      and l: "fsc_write_list (module_id m) ti (fsc_list m) s = Some (r1, fscs, s1)"
      and u: "mod_module mp (\<lambda>m. m\<lparr>fsc_list := fscs\<rparr>) s1 = Some s'"
    using assms by (auto simp: write_fsc_schedules_to_HW_def bind_eq_Some_conv)
  have 1: "only_logged s s1" "same_times (fsc_list m) fscs" using fsc_write_list_only_logged [OF l] by auto
  have "quiet s1 s'"
    using u by (rule quiet_mod_module)
      (use m 1 only_logged_quiet in \<open>auto simp: module_like_def same_times_def\<close>)
  then show ?thesis using 1 only_logged_quiet quiet_trans by blast
qed

lemma quiet_module_schedules: "write_module_schedules_to_HW m ti s = (r, s') \<Longrightarrow> quiet s s'"
  by (auto simp: write_module_schedules_to_HW_def Let_def split: if_split_asm prod.split_asm
      dest!: only_logged_pwrite_item [THEN only_logged_quiet] intro: quiet_trans)

section \<open>Applying a configuration\<close>

lemma quiet_with_module:
  assumes "with_module mp f s = Some (r, s')" "\<And>m q b. f m s = Some (q, b) \<Longrightarrow> quiet s b"
  shows "quiet s s'"
  using assms by (auto simp: with_module_def bind_eq_Some_conv)

lemma quiet_bind_unless_neg:
  assumes "(f s \<bind> (\<lambda>res. unless_neg res k)) = Some (r, s')" "\<And>q b. f s = Some (q, b) \<Longrightarrow> quiet s b"
    "\<And>a. k a = Some (r, s') \<Longrightarrow> quiet a s'"
  shows "quiet s s'"
proof -
  obtain q b where f: "f s = Some (q, b)" "unless_neg (q, b) k = Some (r, s')"
    using assms(1) by (auto simp: bind_eq_Some_conv)
  show ?thesis
    using f(2) by (rule quiet_unless_neg) (use f(1) assms(2,3) in auto)
qed

lemma quiet_module_data [quiets]:
  assumes "write_module_data_to_HW mp s = Some (r, s')"
  shows "quiet s s'"
  using assms unfolding write_module_data_to_HW_def
  by (elim quiet_bind_unless_neg quiet_with_module quiets) (auto dest: quiet_singles)

lemma quiet_module_schedule [quiets]:
  assumes "write_module_schedule_to_HW mp s = Some (r, s')"
  shows "quiet s s'"
proof -
  obtain m x where m: "st_modules s mp = Some m" "sysfs_read_schedule_status m s = Some x"
    using assms by (auto simp: write_module_schedule_to_HW_def bind_eq_Some_conv)
  show ?thesis
  proof (cases x)
    case (Inl e)
    then show ?thesis using assms m by (simp add: write_module_schedule_to_HW_def)
  next
    case (Inr t)
    show ?thesis
      using assms m Inr unfolding write_module_schedule_to_HW_def
      by (simp only: bind.bind_lunit sum.case)
        (elim quiet_bind_unless_neg quiet_with_module quiets;
          auto dest: quiet_module_schedules quiet_singles)
  qed
qed

lemma quiet_for_bypass:
  assumes "for_bypass f bp s = Some (r, s')" "\<And>mp a q b. f mp a = Some (q, b) \<Longrightarrow> quiet a b"
  shows "quiet s s'"
  using assms by (auto simp: for_bypass_def split: option.split_asm elim!: quiet_bind_unless_neg)

lemma quiet_for_modules:
  assumes "for_modules f cfg s = Some (r, s')" "\<And>mp a q b. f mp a = Some (q, b) \<Longrightarrow> quiet a b"
  shows "quiet s s'"
  using assms(1) unfolding for_modules_def
  by (elim quiet_bind_unless_neg quiet_for_bypass assms(2))

lemma quiet_apply_schedule [quiets]: "apply_schedule cp s = Some (r, s') \<Longrightarrow> quiet s s'"
  by (auto simp: apply_schedule_def bind_eq_Some_conv elim: quiet_for_modules intro: quiets)

lemma quiet_apply_configuration [quiets]:
  assumes "apply_configuration cp i s = Some (r, s')"
  shows "quiet s s'"
proof -
  obtain cfg where cfg: "st_configs s cp = Some cfg"
    using assms by (auto simp: apply_configuration_def bind_eq_Some_conv)
  show ?thesis
    using assms unfolding apply_configuration_def cfg bind.bind_lunit
    by (elim quiet_bind_unless_neg quiet_unless_neg quiet_for_modules quiets)
      (auto dest: quiets simp: bind_eq_Some_conv split: if_split_asm)
qed

lemma quiet_config_applied: "mod_config cp (\<lambda>c. c\<lparr>config_applied := b\<rparr>) s = Some s' \<Longrightarrow> quiet s s'"
  by (erule quiet_mod_config) (simp add: config_like_def)

lemma quiet_config_enable [quiets]:
  assumes "config_enable cpp i s = Some (r, s')"
  shows "quiet s s'"
proof (cases "cpp = None \<or> i = 0")
  case True
  then show ?thesis using assms by (auto simp: config_enable_def split: option.split_asm)
next
  case False
  then obtain cp where cp: "cpp = Some cp" "i \<noteq> 0" by auto
  then obtain r1 s1 where v: "validate_config True cp s = Some (r1, s1)"
    using assms by (auto simp: config_enable_def bind_eq_Some_conv)
  have 1: "quiet s s1" using v by (rule quiets)
  have "quiet s1 s'"
  proof (cases "r1 = 0")
    case True
    then obtain res where a: "apply_configuration cp i s1 = Some res"
        "if_zero res (\<lambda>s2. if_zero (sysfs_write_configuration_id i s2) (\<lambda>s3. do {
            s4 \<leftarrow> mod_config cp (\<lambda>c. c\<lparr>config_applied := True\<rparr>) s3;
            Some (0, s4) })) = Some (r, s')"
      using assms cp v by (auto simp: config_enable_def bind_eq_Some_conv)
    show ?thesis
      using a(2)
    proof (elim quiet_if_zero)
      show "quiet s1 (snd res)" using a(1) quiet_apply_configuration by (cases res) auto
    qed (auto simp: bind_eq_Some_conv dest: quiet_config_applied)
  next
    case False
    then show ?thesis
      using assms cp v by (auto simp: config_enable_def bind_eq_Some_conv dest: quiet_config_applied)
  qed
  with 1 show ?thesis by (rule quiet_trans)
qed

lemma quiet_config_schedule [quiets]:
  "config_schedule cpp i j s = Some (r, s') \<Longrightarrow> quiet s s'"
  by (auto simp: config_schedule_def bind_eq_Some_conv Let_def split: option.split_asm if_split_asm
      dest!: quiets quiet_singles elim!: quiet_if_zero intro: quiet_trans)

lemma quiet_config_disable [simp]: "quiet s (snd (config_disable s))"
  by (simp add: config_disable_def remove_configuration_def)

end
