(* ===== verification/Acm_Api_Steps.thy ===== *)
theory Acm_Api_Steps
  imports Acm_Quiet Acm_Api
begin

text \<open>
  Every function of the library interface is a sequence of elementary steps of the heap. The
  lemmas follow the calls from the inside: operations, schedule entries, streams, modules,
  configurations, the interface.
\<close>

section \<open>Sequences of steps\<close>

lemma steps_quiet: "quiet s s' \<Longrightarrow> heap_steps s s'"
  by (blast intro: heap_step.Quiet)

lemma steps_trans: "heap_steps a b \<Longrightarrow> heap_steps b c \<Longrightarrow> heap_steps a c"
  by (rule rtranclp_trans)

lemma steps_single: "heap_step s s' \<Longrightarrow> heap_steps s s'"
  by blast

text \<open>No stream changes its place: the module it is in and its schedule entries.\<close>

definition same_place :: "acm_stream \<Rightarrow> acm_stream \<Rightarrow> bool" where
  "same_place st st' = (stream_list st' = stream_list st \<and> windows st' = windows st)"

definition places_kept :: "acm_state \<Rightarrow> acm_state \<Rightarrow> bool" where
  "places_kept s s' = (\<forall>p. rel_option same_place (st_streams s p) (st_streams s' p))"

lemma places_refl [simp]: "places_kept s s"
  by (simp add: places_kept_def rel_option_refl_on same_place_def)

lemma places_trans: "places_kept a b \<Longrightarrow> places_kept b c \<Longrightarrow> places_kept a c"
  unfolding places_kept_def by (metis (mono_tags, lifting) rel_option_trans_on same_place_def)

lemma quiet_places: "quiet s s' \<Longrightarrow> places_kept s s'"
  unfolding quiet_def places_kept_def by (metis (mono_tags) option.rel_mono_strong same_place_def stream_like_def)

lemma places_cases:
  assumes "places_kept s s'" "st_streams s p = Some st"
  obtains st' where "st_streams s' p = Some st'" "same_place st st'"
  using assms unfolding places_kept_def by (metis option_rel_Some1)

text \<open>Steps that keep all places.\<close>

definition local_steps :: "acm_state \<Rightarrow> acm_state \<Rightarrow> bool" where
  "local_steps s s' = (heap_steps s s' \<and> places_kept s s')"

lemma local_refl [simp]: "local_steps s s"
  by (simp add: local_steps_def)

lemma local_trans: "local_steps a b \<Longrightarrow> local_steps b c \<Longrightarrow> local_steps a c"
  unfolding local_steps_def by (meson places_trans rtranclp_trans)

lemma local_quiet: "quiet s s' \<Longrightarrow> local_steps s s'"
  by (simp add: local_steps_def steps_quiet quiet_places)

lemma local_steps_heap: "local_steps s s' \<Longrightarrow> heap_steps s s'"
  by (simp add: local_steps_def)

section \<open>Operations\<close>

lemma op_wf_owned [simp]: "op_wf (op\<lparr>ownership_set := b\<rparr>) = op_wf op"
  by (cases "opcode op") (auto simp: op_wf_def length_ok_def in_frame_def name_ok_def)

lemma local_set_ops:
  assumes "mod_stream p (\<lambda>st. st\<lparr>operations := f (operations st)\<rparr>) s = Some s'"
    "\<And>ops op. op \<in> set (f ops) \<Longrightarrow> op \<in> set ops \<or> op_wf op \<and> ownership_set op"
  shows "local_steps s s'"
proof -
  obtain st where st: "st_streams s p = Some st"
      "s' = s\<lparr>st_streams := (st_streams s)(p \<mapsto> st\<lparr>operations := f (operations st)\<rparr>)\<rparr>"
    using assms(1) by (auto simp: mod_stream_Some_iff)
  have "heap_step s s'"
    unfolding st(2) by (rule heap_step.Set_Operations [OF st(1)]) (use assms(2) in blast)
  moreover have "places_kept s s'"
    using st by (simp add: places_kept_def rel_option_refl_on same_place_def)
  ultimately show ?thesis by (simp add: local_steps_def steps_single)
qed

lemma local_append: "append_operation p op s = Some s' \<Longrightarrow> op_wf op \<Longrightarrow> local_steps s s'"
  unfolding append_operation_def by (erule local_set_ops) auto

lemma local_remove: "remove_operation_at p i s = Some s' \<Longrightarrow> local_steps s s'"
  unfolding remove_operation_at_def
  by (erule local_set_ops) (auto simp: operation_list_remove_operation_def dest: in_set_takeD in_set_dropD)

lemma local_add_operation:
  assumes "operation_list_add_operation p (Some op) s = Some (r, s')" "op_wf op"
  shows "local_steps s s'"
  using assms
  by (auto simp: operation_list_add_operation_def bind_eq_Some_conv split: if_split_asm
      dest!: local_append local_remove quiet_validate_stream [THEN local_quiet]
      intro: local_trans [OF _ local_trans] local_trans)

lemma local_stream_add_operation:
  assumes "stream_add_operation sp opp s = Some (r, s')" "\<And>op. opp = Some op \<Longrightarrow> op_wf op"
  shows "local_steps s s'"
  using assms
  by (auto simp: stream_add_operation_def bind_eq_Some_conv split: option.split_asm if_split_asm
      dest: local_add_operation)

text \<open>The constructors only allocate.\<close>

lemma quiet_zalloc_then:
  assumes "zalloc_then f s = (r, s')" "\<And>p a q b. f p a = (q, b) \<Longrightarrow> quiet a b"
  shows "quiet s s'"
proof -
  obtain q a where z: "acm_zalloc s = (q, a)" by fastforce
  then have "quiet s a" by (rule quiet_zalloc)
  then show ?thesis
    using assms z by (auto simp: zalloc_then_def split: option.split_asm intro: quiet_trans)
qed

lemma quiet_create_insert: "operation_create_insert len n s = Some (r, s') \<Longrightarrow> quiet s s'"
  by (auto simp: operation_create_insert_def bind_eq_Some_conv split: option.split_asm if_split_asm
      elim!: quiet_zalloc_then)

lemma quiet_create_read: "operation_create_read off len n s = Some (r, s') \<Longrightarrow> quiet s s'"
  by (auto simp: operation_create_read_def bind_eq_Some_conv split: option.split_asm if_split_asm
      elim!: quiet_zalloc_then)

lemma quiet_create_constant: "operation_create_insertconstant d n s = Some (r, s') \<Longrightarrow> quiet s s'"
  by (auto simp: operation_create_insertconstant_def split: option.split_asm if_split_asm prod.split_asm
      elim!: quiet_zalloc_then)

lemma quiet_create_pad: "operation_create_pad len v s = (r, s') \<Longrightarrow> quiet s s'"
  by (auto simp: operation_create_pad_def split: if_split_asm elim!: quiet_zalloc_then)

lemma quiet_create_forward: "operation_create_forward off len s = (r, s') \<Longrightarrow> quiet s s'"
  by (auto simp: operation_create_forward_def split: if_split_asm elim!: quiet_zalloc_then)

lemma quiet_create_forwardall: "operation_create_forwardall s = (r, s') \<Longrightarrow> quiet s s'"
  by (auto simp: operation_create_forwardall_def elim!: quiet_zalloc_then)

section \<open>The header of egress frames\<close>

lemma dmac_op:
  "egress_dmac_op t d s = Some (r, s') \<Longrightarrow> quiet s s' \<and> (\<forall>op. r = Some op \<longrightarrow> op_wf op)"
  by (auto simp: egress_dmac_op_def split: if_split_asm
      dest: quiet_create_forward quiet_create_constant forward_wf insertconstant_wf)

lemma smac_op:
  "egress_smac_op t d s = Some (r, s') \<Longrightarrow> quiet s s' \<and> (\<forall>op. r = Some op \<longrightarrow> op_wf op)"
  by (auto simp: egress_smac_op_def split: if_split_asm
      dest: quiet_create_forward quiet_create_constant forward_wf insertconstant_wf)

lemma local_step_then:
  assumes "quiet s a \<and> (\<forall>op. opp = Some op \<longrightarrow> op_wf op)" "stream_add_operation sp opp a = Some (r, b)"
  shows "local_steps s b"
  using assms local_stream_add_operation local_quiet local_trans by blast

lemma local_set_egress_header:
  assumes "stream_set_egress_header sp dmac smac vlan prio s = Some (r, s')"
  shows "local_steps s s'"
proof (cases sp)
  case None
  then show ?thesis using assms by (simp add: stream_set_egress_header_def)
next
  case (Some p)
  then obtain st where st: "st_streams s p = Some st"
    using assms by (auto simp: stream_set_egress_header_def bind_eq_Some_conv)
  let ?i = "length (operations st)"
  note body = assms [unfolded stream_set_egress_header_def Some option.case st bind.bind_lunit Let_def]
  show ?thesis
  proof (cases "stype st = INGRESS_TRIGGERED_STREAM \<or> stype st = REDUNDANT_STREAM_RX")
    case True
    then show ?thesis using body by simp
  next
    case False
    obtain dop s1 r1 s2 where 1: "egress_dmac_op (stype st) dmac s = Some (dop, s1)"
        "stream_add_operation (Some p) dop s1 = Some (r1, s2)"
      using body False by (auto simp: bind_eq_Some_conv)
    have l2: "local_steps s s2" using dmac_op [OF 1(1)] 1(2) by (rule local_step_then)
    show ?thesis
    proof (cases "r1 < 0")
      case True
      then show ?thesis using body False 1 l2 by simp
    next
      case r1: False
      obtain sop s3 r2 s4 where 2: "egress_smac_op (stype st) smac s2 = Some (sop, s3)"
          "stream_add_operation (Some p) sop s3 = Some (r2, s4)"
        using body False 1 r1 by (auto simp: bind_eq_Some_conv)
      have l4: "local_steps s s4"
        using local_trans [OF l2 local_step_then [OF smac_op [OF 2(1)] 2(2)]] .
      note rest = body [unfolded 1 bind.bind_lunit prod.case, simplified False r1 if_False, unfolded 2 bind.bind_lunit prod.case]
      show ?thesis
      proof (cases "r2 < 0 \<or> uint vlan = ACM_VLAN_ID_MAX \<and> stype st \<noteq> EVENT_STREAM")
        case True
        then show ?thesis
          using rest 1 2 False r1 l4
          by (auto simp: bind_eq_Some_conv split: if_split_asm dest!: local_remove intro: local_trans)
      next
        case r2: False
        then obtain vop s5 r3 s6 where 3: "(if uint vlan = ACM_VLAN_ID_MAX
               then Some (operation_create_forward OFFSET_VLAN_TAG_IN_FRAME 4 s4)
               else operation_create_insertconstant (vlan_tag_bytes vlan prio) 4 s4) = Some (vop, s5)"
            "stream_add_operation (Some p) vop s5 = Some (r3, s6)"
          and end': "(if r3 < 0 then do {
               s7 \<leftarrow> remove_operation_at p ?i s6;
               s8 \<leftarrow> remove_operation_at p ?i s7;
               Some (r3, s8) }
             else Some (0, s6)) = Some (r, s')"
          using rest 1 2 False r1 by (auto simp: bind_eq_Some_conv split: if_split_asm)
        have "quiet s4 s5 \<and> (\<forall>op. vop = Some op \<longrightarrow> op_wf op)"
          using 3(1) by (auto split: if_split_asm
              dest: quiet_create_forward quiet_create_constant forward_wf insertconstant_wf)
        then have "local_steps s s6" using local_trans [OF l4 local_step_then [OF _ 3(2)]] by blast
        then show ?thesis
          using end' by (auto simp: bind_eq_Some_conv split: if_split_asm dest!: local_remove intro: local_trans)
      qed
    qed
  qed
qed

section \<open>Schedule entries\<close>

lemma flush_schedules_steps:
  assumes "flush_schedules sps s = Some s'" "st_streams s p = Some st"
  shows "heap_steps (s\<lparr>st_streams := (st_streams s)(p \<mapsto> st\<lparr>windows := sps\<rparr>)\<rparr>)
      (s'\<lparr>st_streams := (st_streams s')(p \<mapsto> st\<lparr>windows := []\<rparr>)\<rparr>) \<and> st_streams s' = st_streams s"
  using assms
proof (induction sps arbitrary: s)
  case (Cons sp sps)
  then obtain w where w: "st_scheds s sp = Some w"
    and f: "flush_schedules sps (s\<lparr>st_scheds := (st_scheds s)(sp := None)\<rparr>) = Some s'"
    by (auto simp: mod_sched_Some_iff schedule_destroy_def bind_eq_Some_conv)
  let ?s1 = "s\<lparr>st_scheds := (st_scheds s)(sp := None)\<rparr>"
  let ?a = "s\<lparr>st_streams := (st_streams s)(p \<mapsto> st\<lparr>windows := sp # sps\<rparr>)\<rparr>"
  let ?b = "?a\<lparr>st_streams := (st_streams ?a)(p \<mapsto> (st\<lparr>windows := sp # sps\<rparr>)\<lparr>windows :=
      remove1 sp (windows (st\<lparr>windows := sp # sps\<rparr>))\<rparr>), st_scheds := (st_scheds ?a)(sp := None)\<rparr>"
  have "heap_step ?a ?b" by (rule heap_step.Free_Schedule) simp_all
  moreover have "?b = ?s1\<lparr>st_streams := (st_streams ?s1)(p \<mapsto> st\<lparr>windows := sps\<rparr>)\<rparr>"
    by (cases s) simp
  ultimately have step: "heap_step ?a (?s1\<lparr>st_streams := (st_streams ?s1)(p \<mapsto> st\<lparr>windows := sps\<rparr>)\<rparr>)"
    by (simp only:)
  have "st_streams ?s1 p = Some st" using Cons.prems(2) by simp
  note ih = Cons.IH [OF f this]
  show ?case
  proof
    show "heap_steps ?a (s'\<lparr>st_streams := (st_streams s')(p \<mapsto> st\<lparr>windows := []\<rparr>)\<rparr>)"
      by (rule converse_rtranclp_into_rtranclp [OF step conjunct1 [OF ih]])
    show "st_streams s' = st_streams s" using conjunct2 [OF ih] by simp
  qed
qed simp

lemma schedule_list_flush_steps:
  assumes "schedule_list_flush p s = Some s'"
  shows "heap_steps s s' \<and> (\<exists>st. st_streams s p = Some st \<and>
    st_streams s' = (st_streams s)(p \<mapsto> st\<lparr>windows := []\<rparr>)) \<and> st_modules s' = st_modules s \<and>
    st_configs s' = st_configs s"
proof -
  obtain st s1 where st: "st_streams s p = Some st" and f: "flush_schedules (windows st) s = Some s1"
    and u: "mod_stream p (\<lambda>st. st\<lparr>windows := []\<rparr>) s1 = Some s'"
    using assms by (auto simp: schedule_list_flush_def bind_eq_Some_conv)
  note steps = flush_schedules_steps [OF f st]
  have "s\<lparr>st_streams := (st_streams s)(p \<mapsto> st\<lparr>windows := windows st\<rparr>)\<rparr> = s"
    using st by (simp add: fun_upd_idem)
  then have "heap_steps s s'" using steps u st by (auto simp: mod_stream_Some_iff)
  moreover have others: "flush_schedules sps t = Some t' \<Longrightarrow> st_modules t' = st_modules t \<and> st_configs t' = st_configs t"
    for sps t t'
    by (induction sps arbitrary: t) (auto simp: mod_sched_Some_iff schedule_destroy_def bind_eq_Some_conv)
  ultimately show ?thesis using steps u st others [OF f] by (auto simp: mod_stream_Some_iff)
qed

section \<open>Streams\<close>

lemma stream_create_steps: "stream_create t s = (r, s') \<Longrightarrow> heap_steps s s'"
proof -
  assume c: "stream_create t s = (r, s')"
  have "heap_step s (s\<lparr>st_next := Suc (st_next s), st_streams := (st_streams s)(st_next s \<mapsto> zero_stream t)\<rparr>)"
    by (rule heap_step.New_Stream)
  then show ?thesis
    using c by (auto simp: stream_create_def acm_zalloc_def intro: steps_quiet split: if_split_asm)
qed

lemma stream_destroy_steps:
  assumes "stream_destroy (Some p) s = Some s'" "st_streams s p = Some st" "stream_list st = None"
  shows "heap_steps s s' \<and> st_streams s' = (st_streams s)(p := None) \<and> st_modules s' = st_modules s \<and>
    st_configs s' = st_configs s"
proof -
  obtain s1 s2 where 1: "mod_stream p (\<lambda>st. st\<lparr>operations := operation_list_flush (operations st)\<rparr>) s = Some s1"
    and 2: "schedule_list_flush p s1 = Some s2" and s': "s' = s2\<lparr>st_streams := (st_streams s2)(p := None)\<rparr>"
    using assms(1) by (auto simp: stream_destroy_def bind_eq_Some_conv)
  have "local_steps s s1"
    using 1 by (rule local_set_ops) (simp add: operation_list_flush_empty)
  then have a: "heap_steps s s1" by (rule local_steps_heap)
  have s1: "st_streams s1 = (st_streams s)(p \<mapsto> st\<lparr>operations := []\<rparr>)" "st_modules s1 = st_modules s"
      "st_configs s1 = st_configs s"
    using 1 assms(2) by (auto simp: mod_stream_Some_iff operation_list_flush_empty)
  have b: "heap_steps s1 s2" "st_streams s2 = (st_streams s1)(p \<mapsto> st\<lparr>operations := [], windows := []\<rparr>)"
      "st_modules s2 = st_modules s1" "st_configs s2 = st_configs s1"
    using schedule_list_flush_steps [OF 2] s1 by auto
  have "heap_step s2 s'"
    unfolding s' by (rule heap_step.Free_Stream [where st = "st\<lparr>operations := [], windows := []\<rparr>"])
      (use b(2) assms(3) in auto)
  then show ?thesis using a b s1 s' by (auto intro: steps_trans)
qed

lemma quiet_set_parent: "mod_stream c (\<lambda>x. x\<lparr>reference_parent := b\<rparr>) s = Some s' \<Longrightarrow> quiet s s'"
  by (erule quiet_mod_stream) (simp add: stream_like_def)

lemma quiet_set_partner:
  "mod_stream q (\<lambda>x. x\<lparr>stype := t, reference_redundant := b\<rparr>) s = Some s' \<Longrightarrow> quiet s s'"
  by (erule quiet_mod_stream) (simp add: stream_like_def)

text \<open>
  Deleting a stream: the children are deleted first. The streams that are left are in the same
  modules as before.
\<close>

definition deleted :: "acm_state \<Rightarrow> acm_state \<Rightarrow> bool" where
  "deleted s s' = (heap_steps s s' \<and>
     (\<forall>q x'. st_streams s' q = Some x' \<longrightarrow> (\<exists>x. st_streams s q = Some x \<and> stream_list x' = stream_list x)))"

lemma deleted_refl [simp]: "deleted s s"
  by (simp add: deleted_def)

lemma deleted_back:
  assumes "deleted s s'" "st_streams s' q = Some x'"
  obtains x where "st_streams s q = Some x" "stream_list x' = stream_list x"
  using assms unfolding deleted_def by blast

lemma deleted_trans:
  assumes "deleted a b" "deleted b c"
  shows "deleted a c"
proof -
  have "\<exists>x. st_streams a q = Some x \<and> stream_list z = stream_list x" if z: "st_streams c q = Some z" for q z
  proof -
    obtain y where y: "st_streams b q = Some y" "stream_list z = stream_list y"
      using deleted_back [OF assms(2) z] .
    obtain x where "st_streams a q = Some x" "stream_list y = stream_list x"
      using deleted_back [OF assms(1) y(1)] .
    then show ?thesis using y(2) by simp
  qed
  then show ?thesis using assms unfolding deleted_def by (blast intro: steps_trans)
qed

lemma deleted_quiet:
  assumes "quiet s s'"
  shows "deleted s s'"
proof -
  have "\<exists>x. st_streams s q = Some x \<and> stream_list x' = stream_list x" if "st_streams s' q = Some x'" for q x'
    using quiet_stream_back [OF assms that] by (auto simp: stream_like_def)
  then show ?thesis using assms by (simp add: deleted_def steps_quiet)
qed

lemma delete_step:
  assumes ih: "\<And>sp s s'. sd sp s = Some s' \<Longrightarrow> deleted s s'"
    and body: "(case sp of
     None \<Rightarrow> Some s
   | Some p \<Rightarrow> do {
       st \<leftarrow> st_streams s p;
       if stream_list st \<noteq> None then Some s
       else if (stype st = EVENT_STREAM \<or> stype st = RECOVERY_STREAM) \<and> reference_parent st \<noteq> None then Some s
       else do {
         s1 \<leftarrow> (case reference st of
            None \<Rightarrow> Some s
          | Some c \<Rightarrow> do {
              s' \<leftarrow> mod_stream c (\<lambda>x. x\<lparr>reference_parent := None\<rparr>) s;
              sd (Some c) s' });
         st1 \<leftarrow> st_streams s1 p;
         s2 \<leftarrow> (case reference_redundant st1 of
            None \<Rightarrow> Some s1
          | Some q \<Rightarrow> mod_stream q (\<lambda>x. x\<lparr>stype := TIME_TRIGGERED_STREAM, reference_redundant := None\<rparr>) s1);
         stream_destroy (Some p) s2 } }) = Some s'"
  shows "deleted s s'"
proof (cases sp)
  case None
  then show ?thesis using body by simp
next
  case (Some p)
  then obtain st where st: "st_streams s p = Some st" using body by (auto simp: bind_eq_Some_conv)
  note body = body [unfolded Some option.case st bind.bind_lunit]
  show ?thesis
  proof (cases "stream_list st = None \<and>
      \<not> ((stype st = EVENT_STREAM \<or> stype st = RECOVERY_STREAM) \<and> reference_parent st \<noteq> None)")
    case False
    then show ?thesis using body by (auto split: if_split_asm)
  next
    case True
    then obtain s1 st1 s2 where 1: "(case reference st of
          None \<Rightarrow> Some s
        | Some c \<Rightarrow> do {
            s' \<leftarrow> mod_stream c (\<lambda>x. x\<lparr>reference_parent := None\<rparr>) s;
            sd (Some c) s' }) = Some s1"
      and st1: "st_streams s1 p = Some st1"
      and 2: "(case reference_redundant st1 of
          None \<Rightarrow> Some s1
        | Some q \<Rightarrow> mod_stream q (\<lambda>x. x\<lparr>stype := TIME_TRIGGERED_STREAM, reference_redundant := None\<rparr>) s1) = Some s2"
      and 3: "stream_destroy (Some p) s2 = Some s'"
      using body by (auto simp: bind_eq_Some_conv)
    have "deleted s s1"
      using 1 by (auto simp: bind_eq_Some_conv split: option.split_asm
          dest!: quiet_set_parent [THEN deleted_quiet] ih intro: deleted_trans)
    moreover have q: "quiet s1 s2"
      using 2 by (auto split: option.split_asm dest: quiet_set_partner)
    ultimately have d: "deleted s s2" using deleted_quiet deleted_trans by blast
    obtain st2 where st2: "st_streams s2 p = Some st2" using quiet_stream_cases [OF q st1] by blast
    have "stream_list st2 = None" using deleted_back [OF d st2] st True by force
    note destroyed = stream_destroy_steps [OF 3 st2 this]
    have "deleted s2 s'"
      unfolding deleted_def using destroyed by (auto split: if_split_asm)
    with d show ?thesis by (rule deleted_trans)
  qed
qed

lemma stream_delete_steps: "stream_delete sp s = Some s' \<Longrightarrow> deleted s s'"
  by (rule stream_delete.raw_induct [of "\<lambda>_ s s'. deleted s s'"]) (auto intro: delete_step)

section \<open>Streams in modules\<close>

lemma link_stream_steps:
  assumes "mod_module mp (\<lambda>m. m\<lparr>mod_streams := mod_streams m @ [p]\<rparr>) s = Some s1"
    "mod_stream p (\<lambda>st. st\<lparr>stream_list := Some mp\<rparr>) s1 = Some s2"
    "st_streams s p = Some st" "stream_list st = None"
  shows "heap_steps s s2"
proof -
  obtain m where m: "st_modules s mp = Some m"
      "s2 = s\<lparr>st_modules := (st_modules s)(mp \<mapsto> m\<lparr>mod_streams := mod_streams m @ [p]\<rparr>),
        st_streams := (st_streams s)(p \<mapsto> st\<lparr>stream_list := Some mp\<rparr>)\<rparr>"
    using assms(1-3) by (auto simp: mod_module_Some_iff mod_stream_Some_iff)
  show ?thesis unfolding m(2) by (rule steps_single, rule heap_step.Link_Stream [OF m(1) assms(3,4)])
qed

lemma remove_list_steps: "stream_remove_list lst p s = Some s' \<Longrightarrow> heap_steps s s'"
proof (cases lst)
  case (Some mp)
  assume r: "stream_remove_list lst p s = Some s'"
  then obtain m where m: "st_modules s mp = Some m"
    by (auto simp: stream_remove_list_def Some bind_eq_Some_conv)
  show ?thesis
  proof (cases "p \<in> set (mod_streams m)")
    case True
    then obtain st where st: "st_streams s p = Some st"
        "s' = s\<lparr>st_modules := (st_modules s)(mp \<mapsto> m\<lparr>mod_streams := remove1 p (mod_streams m)\<rparr>),
          st_streams := (st_streams s)(p \<mapsto> st\<lparr>stream_list := None\<rparr>)\<rparr>"
      using r m by (auto simp: stream_remove_list_def Some bind_eq_Some_conv stream_in_list_iff
          mod_module_Some_iff mod_stream_Some_iff)
    show ?thesis unfolding st(2) by (rule steps_single, rule heap_step.Unlink_Stream [OF m st(1) True])
  next
    case False
    then show ?thesis using r m by (simp add: stream_remove_list_def Some stream_in_list_iff)
  qed
qed (simp add: stream_remove_list_def)

lemma update_smac_ops_like:
  assumes "those (map (update_smac_op mac) ops) = Some ops'" "length mac = 6"
  shows "list_all2 op_like ops ops'"
  using assms(1)
proof (induction ops arbitrary: ops')
  case (Cons op ops)
  then obtain op' os where u: "update_smac_op mac op = Some op'" "those (map (update_smac_op mac) ops) = Some os"
      "ops' = op' # os" by (auto split: option.split_asm)
  obtain d where "op' = op\<lparr>op_data := d\<rparr>" "length d = length (op_data op)"
    using update_smac_op_keeps [OF u(1) assms(2)] by (metis operation.update_convs(5) operation.surjective)
  then show ?case using Cons.IH u by (simp add: op_like_def)
qed simp

text \<open>The operating system yields addresses of six bytes.\<close>

definition macs_ok :: "acm_env \<Rightarrow> bool" where
  "macs_ok env = (\<forall>ifname mac. env_mac env ifname = Inr mac \<longrightarrow> 6 \<le> length mac)"

lemma quiet_update_smac:
  assumes "stream_update_smac p mid s = Some (r, s')" "macs_ok (st_env s)"
  shows "quiet s s'"
proof -
  obtain st ops where st: "st_streams s p = Some st"
      "operation_list_update_smac (st_env s) (operations st) mid = Some (r, ops)"
      "mod_stream p (\<lambda>st. st\<lparr>operations := ops\<rparr>) s = Some s'"
    using assms(1) by (auto simp: stream_update_smac_def bind_eq_Some_conv)
  have len: "length mac = 6" if "module_mac (st_env s) mid = Inr mac" for mac
    using that assms(2)
    by (auto simp: module_mac_def get_mac_address_def macs_ok_def split: if_split_asm sum.split_asm)
  have "list_all2 op_like (operations st) ops"
    using st(2) len by (auto simp: operation_list_update_smac_def bind_eq_Some_conv split: sum.split_asm
        intro: update_smac_ops_like)
  then show ?thesis using quiet_set_ops st(1,3) by blast
qed

lemma or_remove_steps:
  assumes "or_remove mp p res k = Some (r, s')" "heap_steps s (snd res)"
    "\<And>a. k a = Some (r, s') \<Longrightarrow> heap_steps a s'"
  shows "heap_steps s s'"
  using assms by (cases res) (auto simp: or_remove_def bind_eq_Some_conv split: if_split_asm
      dest!: remove_list_steps intro: steps_trans)

lemma stream_add_list_steps:
  assumes "stream_add_list lst sp s = Some (r, s')" "macs_ok (st_env s)"
  shows "heap_steps s s'"
proof (cases "lst = None \<or> sp = None")
  case True
  then show ?thesis using assms(1) by (auto simp: stream_add_list_def split: option.split_asm)
next
  case False
  then obtain mp p where lp: "lst = Some mp" "sp = Some p" by auto
  obtain st where st: "st_streams s p = Some st" using assms(1) lp by (auto simp: stream_add_list_def bind_eq_Some_conv)
  show ?thesis
  proof (cases "stream_list st = None")
    case False
    then show ?thesis using assms(1) lp st by (simp add: stream_add_list_def)
  next
    case True
    then obtain m s1 s2 res where 1: "st_modules s mp = Some m"
        "mod_module mp (\<lambda>m. m\<lparr>mod_streams := mod_streams m @ [p]\<rparr>) s = Some s1"
        "mod_stream p (\<lambda>st. st\<lparr>stream_list := Some mp\<rparr>) s1 = Some s2"
        "stream_update_smac p (module_id m) s2 = Some res"
      and rest: "or_remove mp p res (\<lambda>s3. do {
           res \<leftarrow> validate_stream_list False mp s3;
           or_remove mp p res (\<lambda>s4. do {
             res \<leftarrow> calculate_indizes_of_list mp p s4;
             or_remove mp p res (\<lambda>s5. Some (0, s5)) }) }) = Some (r, s')"
      using assms(1) lp st by (auto simp: stream_add_list_def bind_eq_Some_conv)
    have l: "heap_steps s s2" using link_stream_steps [OF 1(2,3) st True] .
    have "st_env s2 = st_env s" using 1 by (auto simp: mod_module_Some_iff mod_stream_Some_iff)
    then have "quiet s2 (snd res)" using quiet_update_smac [of p "module_id m" s2] 1(4) assms(2) by (cases res) simp
    then have "heap_steps s (snd res)" using l steps_quiet steps_trans by blast
    with rest show ?thesis
    proof (rule or_remove_steps)
      fix a
      assume a: "(validate_stream_list False mp a \<bind> (\<lambda>res. or_remove mp p res (\<lambda>s4.
          calculate_indizes_of_list mp p s4 \<bind> (\<lambda>res. or_remove mp p res (\<lambda>s5. Some (0, s5)))))) = Some (r, s')"
      then obtain res1 where v: "validate_stream_list False mp a = Some res1"
        and b: "or_remove mp p res1 (\<lambda>s4. calculate_indizes_of_list mp p s4 \<bind>
          (\<lambda>res. or_remove mp p res (\<lambda>s5. Some (0, s5)))) = Some (r, s')"
        by (auto simp: bind_eq_Some_conv)
      show "heap_steps a s'"
        using b
      proof (rule or_remove_steps)
        show "heap_steps a (snd res1)" using v by (cases res1) (auto dest: quiets intro: steps_quiet)
        fix c
        assume "(calculate_indizes_of_list mp p c \<bind> (\<lambda>res. or_remove mp p res (\<lambda>s5. Some (0, s5)))) = Some (r, s')"
        then obtain res2 where "calculate_indizes_of_list mp p c = Some res2"
            "or_remove mp p res2 (\<lambda>s5. Some (0, s5)) = Some (r, s')"
          by (auto simp: bind_eq_Some_conv)
        then show "heap_steps c s'"
          by (cases res2) (auto dest!: quiets elim!: or_remove_steps intro: steps_quiet)
      qed
    qed
  qed
qed

lemma heap_step_env: "heap_step s s' \<Longrightarrow> st_env s' = st_env s"
  by (cases rule: heap_step.cases) (auto simp: quiet_def)

lemma heap_steps_env: "heap_steps s s' \<Longrightarrow> st_env s' = st_env s"
  by (induction rule: rtranclp_induct) (auto dest: heap_step_env)

section \<open>References\<close>

lemma quiet_set_reference: "mod_stream c (\<lambda>x. x\<lparr>reference := b\<rparr>) s = Some s' \<Longrightarrow> quiet s s'"
  by (erule quiet_mod_stream) (simp add: stream_like_def)

lemma quiet_link_child: "link_child p q s = Some s' \<Longrightarrow> quiet s s'"
  unfolding link_child_def
  by (auto simp: bind_eq_Some_conv dest!: quiet_set_parent quiet_set_reference intro: quiet_trans)

lemma quiet_unlink_child: "unlink_child p q s = Some s' \<Longrightarrow> quiet s s'"
  unfolding unlink_child_def
  by (auto simp: bind_eq_Some_conv dest!: quiet_set_parent quiet_set_reference intro: quiet_trans)

lemma quiet_set_type: "mod_stream p (\<lambda>st. st\<lparr>stype := t\<rparr>) s = Some s' \<Longrightarrow> quiet s s'"
  by (erule quiet_mod_stream) (simp add: stream_like_def)

lemma quiet_set_redundant_ref: "mod_stream p (\<lambda>st. st\<lparr>reference_redundant := b\<rparr>) s = Some s' \<Longrightarrow> quiet s s'"
  by (erule quiet_mod_stream) (simp add: stream_like_def)

lemma quiet_set_redundant: "set_redundant p q t l s = Some s' \<Longrightarrow> quiet s s'"
  unfolding set_redundant_def
  by (auto simp: bind_eq_Some_conv dest!: quiet_set_type quiet_set_redundant_ref
      intro: quiet_trans [OF _ quiet_trans [OF _ quiet_trans]])

lemma link_then_add:
  assumes "link_child p q s = Some a" "stream_add_list lst sp a = Some (r, b)" "macs_ok (st_env s)"
  shows "heap_steps s b"
proof -
  have q: "quiet s a" using assms(1) by (rule quiet_link_child)
  then have "macs_ok (st_env a)" using assms(3) by (simp add: quiet_def)
  then show ?thesis using stream_add_list_steps [OF assms(2)] steps_trans [OF steps_quiet [OF q]] by blast
qed

lemma set_reference_links_steps:
  assumes "set_reference_links p q sl s = Some (r, s')" "macs_ok (st_env s)"
  shows "heap_steps s s'"
proof -
  obtain st rf where st: "st_streams s p = Some st" "st_streams s q = Some rf"
    using assms(1) by (auto simp: set_reference_links_def bind_eq_Some_conv)
  have red: "heap_steps s s'" if "set_redundant p q t True s = Some s'" for t
    using that quiet_set_redundant steps_quiet by blast
  show ?thesis
  proof (cases "(stype st = EVENT_STREAM \<and> stype rf = RECOVERY_STREAM) \<or>
      (stype st = INGRESS_TRIGGERED_STREAM \<and> stype rf = EVENT_STREAM)")
    case True
    then obtain s1 where s1: "link_child p q s = Some s1"
      and k: "(case sl of
           None \<Rightarrow> Some (0, s1)
         | Some mp \<Rightarrow> do {
             (ret, s2) \<leftarrow> stream_add_list (Some mp) (Some q) s1;
             if ret \<noteq> 0 then do { s3 \<leftarrow> unlink_child p q s2; Some (ret, s3) } else Some (0, s2) }) = Some (r, s')"
      using assms(1) st unfolding set_reference_links_def by (simp add: bind_eq_Some_conv del: de_Morgan_disj) blast
    show ?thesis
    proof (cases sl)
      case None
      then show ?thesis using k s1 quiet_link_child steps_quiet by auto
    next
      case (Some mp)
      then obtain q1 s2 where a: "stream_add_list (Some mp) (Some q) s1 = Some (q1, s2)"
        using k by (auto simp: bind_eq_Some_conv)
      have "heap_steps s s2" using link_then_add [OF s1 a assms(2)] .
      then show ?thesis
        using k Some a by (auto simp: bind_eq_Some_conv split: if_split_asm
            dest!: quiet_unlink_child [THEN steps_quiet] intro: steps_trans)
    qed
  next
    case False
    then show ?thesis
      using assms(1) st red unfolding set_reference_links_def
      by (auto simp: bind_eq_Some_conv split: if_split_asm)
  qed
qed

lemma undo_reference_steps: "undo_reference p q sl s = Some s' \<Longrightarrow> heap_steps s s'"
  unfolding undo_reference_def
  by (auto simp: bind_eq_Some_conv split: if_split_asm dest!: quiet_set_redundant [THEN steps_quiet]
      quiet_unlink_child [THEN steps_quiet] remove_list_steps intro: steps_trans)

lemma quiet_refresh_redundant: "refresh_redundant_indizes p s = Some s' \<Longrightarrow> quiet s s'"
  unfolding refresh_redundant_indizes_def
  by (auto simp: bind_eq_Some_conv split: if_split_asm option.split_asm dest!: quiets intro: quiet_trans)

lemma stream_set_reference_steps:
  assumes "stream_set_reference sp rp s = Some (r, s')" "macs_ok (st_env s)"
  shows "heap_steps s s'"
proof (cases "sp = None \<or> rp = None")
  case True
  then show ?thesis using assms(1) by (auto simp: stream_set_reference_def split: option.split_asm)
next
  case False
  then obtain p q where pq: "sp = Some p" "rp = Some q" by auto
  then obtain ret where ret: "reference_checks p q s = Some ret"
    using assms(1) by (auto simp: stream_set_reference_def bind_eq_Some_conv)
  show ?thesis
  proof (cases "ret = 0")
    case False
    then show ?thesis using assms(1) pq ret by (simp add: stream_set_reference_def)
  next
    case True
    then obtain st r1 s1 where st: "st_streams s p = Some st"
        and l: "set_reference_links p q (stream_list st) s = Some (r1, s1)"
        and rest: "(if r1 \<noteq> 0 then Some (r1, s1)
         else do {
           (ret, s2) \<leftarrow> validate_stream False p s1;
           if ret \<noteq> 0 then do { s3 \<leftarrow> undo_reference p q (stream_list st) s2; Some (- EINVAL, s3) }
           else do { s3 \<leftarrow> refresh_redundant_indizes p s2; Some (0, s3) } }) = Some (r, s')"
      using assms(1) pq ret by (auto simp: stream_set_reference_def bind_eq_Some_conv Let_def)
    have a: "heap_steps s s1" using set_reference_links_steps [OF l assms(2)] .
    have "heap_steps s1 s'"
      using rest by (auto simp: bind_eq_Some_conv split: if_split_asm
          dest!: quiet_validate_stream [THEN steps_quiet] undo_reference_steps
          quiet_refresh_redundant [THEN steps_quiet] intro: steps_trans)
    with a show ?thesis by (rule steps_trans)
  qed
qed

section \<open>Schedules of modules\<close>

lemma set_commands_steps:
  assumes "mod_module mp (\<lambda>m. m\<lparr>fsc_list := f (fsc_list m)\<rparr>) s = Some s'"
    "\<And>fscs. sorted_fscs fscs \<Longrightarrow> sorted_fscs (f fscs)"
  shows "heap_steps s s'"
proof -
  obtain m where m: "st_modules s mp = Some m"
      "s' = s\<lparr>st_modules := (st_modules s)(mp \<mapsto> m\<lparr>fsc_list := f (fsc_list m)\<rparr>)\<rparr>"
    using assms(1) by (auto simp: mod_module_Some_iff)
  show ?thesis
    unfolding m(2) by (rule steps_single, rule heap_step.Set_Commands [OF m(1)])
      (use assms(2) in \<open>simp add: sorted_fscs_def\<close>)
qed

lemma remove_schedule_items_steps: "remove_schedule_sysfs_items_schedule sp mp s = Some s' \<Longrightarrow> heap_steps s s'"
  by (simp add: remove_schedule_defined)

lemma remove_stream_items_steps: "remove_schedule_sysfs_items_stream p mp s = Some s' \<Longrightarrow> heap_steps s s'"
  by (drule remove_stream_defined) simp

lemma stored_commands_steps:
  assumes "mod_module mp (\<lambda>m. m\<lparr>fsc_list := fscs\<rparr>) (s\<lparr>st_next := k\<rparr>) = Some s'" "st_next s \<le> k"
    "st_modules s mp = Some m" "sorted_fscs (fsc_list m) \<longrightarrow> sorted_fscs fscs"
  shows "heap_steps s s'"
proof -
  let ?s1 = "s\<lparr>st_next := k\<rparr>"
  have "heap_step s ?s1" using assms(2) by (intro heap_step.Quiet) simp
  moreover have "s' = ?s1\<lparr>st_modules := (st_modules ?s1)(mp \<mapsto> m\<lparr>fsc_list := fscs\<rparr>)\<rparr>"
    using assms(1,3) by (auto simp: mod_module_Some_iff)
  moreover have "heap_step ?s1 (?s1\<lparr>st_modules := (st_modules ?s1)(mp \<mapsto> m\<lparr>fsc_list := fscs\<rparr>)\<rparr>)"
    by (rule heap_step.Set_Commands) (use assms(3,4) in \<open>simp_all add: sorted_fscs_def\<close>)
  ultimately show ?thesis by (metis rtranclp.rtrancl_into_rtrancl r_into_rtranclp)
qed

lemma create_event_steps:
  assumes "create_event_sysfs_items sp mp tick g ri s = Some (r, s')"
  shows "heap_steps s s'"
proof -
  obtain w m d fscs s1 where 1: "st_modules s mp = Some m"
      "event_loop w sp d tick (acmdrv_sched_tbl_cmd_create g 0 ri TRIG_MODE_STAND_ALONE False False False False)
        0 (schedule_items (cycle_ns m) (period_ns w)) (fsc_list m) s = Some (r, fscs, s1)"
      "mod_module mp (\<lambda>m. m\<lparr>fsc_list := fscs\<rparr>) s1 = Some s'"
    using assms by (auto simp: create_event_sysfs_items_def bind_eq_Some_conv split: if_split_asm)
  obtain k where "s1 = s\<lparr>st_next := k\<rparr>" "st_next s \<le> k" "sorted_fscs (fsc_list m) \<longrightarrow> sorted_fscs fscs"
    using event_loop_props [OF 1(2)] by blast
  then show ?thesis using stored_commands_steps 1(1,3) by blast
qed

lemma create_window_steps:
  assumes "create_window_sysfs_items sp mp tick g li rec s = Some (r, s')"
  shows "heap_steps s s'"
proof -
  obtain w m d oc cc where 1: "st_modules s mp = Some m"
    and u: "(case window_loop m w sp d tick oc cc 0 (schedule_items (cycle_ns m) (period_ns w)) (fsc_list m) s of
        (ret, fscs, s1) \<Rightarrow> do { s'' \<leftarrow> mod_module mp (\<lambda>m. m\<lparr>fsc_list := fscs\<rparr>) s1; Some (ret, s'') }) = Some (r, s')"
    using assms by (auto simp: create_window_sysfs_items_def bind_eq_Some_conv Let_def split: if_split_asm)
  obtain ret fscs s1 where l: "window_loop m w sp d tick oc cc 0 (schedule_items (cycle_ns m) (period_ns w))
      (fsc_list m) s = (ret, fscs, s1)"
    by (metis prod_cases3)
  obtain k where "s1 = s\<lparr>st_next := k\<rparr>" "st_next s \<le> k" "sorted_fscs (fsc_list m) \<longrightarrow> sorted_fscs fscs"
    using window_loop_props [OF l] by blast
  moreover have "mod_module mp (\<lambda>m. m\<lparr>fsc_list := fscs\<rparr>) s1 = Some s'"
    using u l by (auto simp: bind_eq_Some_conv)
  ultimately show ?thesis using stored_commands_steps 1 by blast
qed

lemma create_sysfs_items_steps: "create_sysfs_items st sp mp tick s = Some (r, s') \<Longrightarrow> heap_steps s s'"
  by (auto simp: create_sysfs_items_def bind_eq_Some_conv split: if_split_asm
      dest: create_event_steps create_window_steps)

lemma module_add_schedules_steps:
  assumes "module_add_schedules p sp s = Some (r, s')"
  shows "heap_steps s s'"
  using assms
  by (auto simp: module_add_schedules_def Let_def bind_eq_Some_conv split: option.split_asm if_split_asm
      dest!: create_sysfs_items_steps remove_schedule_items_steps quiet_validate_stream [THEN steps_quiet]
      intro: steps_trans [OF _ steps_trans] steps_trans)

lemma foreach_add_schedules_steps:
  "foreach_st (module_add_schedules p) sps s = Some (r, s') \<Longrightarrow> heap_steps s s'"
  by (induction sps arbitrary: s) (auto simp: bind_eq_Some_conv split: if_split_asm
      dest!: module_add_schedules_steps intro: steps_trans)

lemma module_add_stream_steps:
  assumes "module_add_stream bp sp s = Some (r, s')" "macs_ok (st_env s)"
  shows "heap_steps s s'"
proof (cases "bp = None \<or> sp = None")
  case True
  then show ?thesis using assms(1) by (auto simp: module_add_stream_def split: option.split_asm)
next
  case False
  then obtain mp p where mp: "bp = Some mp" "sp = Some p" by auto
  then obtain r1 s1 where a: "stream_add_list (Some mp) (Some p) s = Some (r1, s1)"
    using assms(1) by (auto simp: module_add_stream_def bind_eq_Some_conv)
  have 1: "heap_steps s s1" using stream_add_list_steps [OF a assms(2)] .
  have "heap_steps s1 s'"
    using assms(1) mp a
    by (auto simp: module_add_stream_def bind_eq_Some_conv split: if_split_asm
        dest!: foreach_add_schedules_steps remove_stream_items_steps remove_list_steps
          quiet_indizes_of_list [THEN steps_quiet]
        intro: steps_trans [OF _ steps_trans [OF _ steps_trans]])
  with 1 show ?thesis by (rule steps_trans)
qed

section \<open>Modules and configurations\<close>

lemma module_init_fields:
  "module_init_delays env m = Some m' \<Longrightarrow> mod_streams m' = mod_streams m \<and> fsc_list m' = fsc_list m \<and>
    config_reference m' = config_reference m \<and> module_id m' = module_id m"
  by (auto simp: module_init_delays_def bind_eq_Some_conv)

lemma module_create_steps:
  assumes "module_create mode speed mid s = Some (r, s')"
  shows "heap_steps s s'"
proof (cases "mid < ACM_MODULES_COUNT \<and> env_alloc (st_env s) (st_next s)")
  case True
  then obtain m where "mod_streams m = []" "fsc_list m = []" "config_reference m = None" "module_id m = mid"
      "s' = s\<lparr>st_next := Suc (st_next s), st_modules := (st_modules s)(st_next s \<mapsto> m)\<rparr>"
    using assms by (auto simp: module_create_def acm_zalloc_def bind_eq_Some_conv dest!: module_init_fields)
  then show ?thesis using True heap_step.New_Module [of m s] by auto
next
  case False
  then show ?thesis
    using assms by (cases "ACM_MODULES_COUNT \<le> mid") (auto simp: module_create_def acm_zalloc_def intro: steps_quiet)
qed

lemma quiet_module_set_schedule: "module_set_schedule bp c st s = Some (r, s') \<Longrightarrow> quiet s s'"
  by (auto simp: module_set_schedule_def bind_eq_Some_conv module_like_def split: option.split_asm if_split_asm
      elim!: quiet_mod_module)

text \<open>
  The streams of a module that is destroyed are taken out of its list one by one; the code does
  not update the list, which is freed at the end. The functions on streams do not look at modules
  and configurations, so that they can be moved behind the update of the list.
\<close>

definition other_heap :: "(addr \<Rightarrow> acm_module option) \<Rightarrow> (addr \<Rightarrow> acm_config option) \<Rightarrow> acm_state \<Rightarrow> acm_state" where
  "other_heap M C s = s\<lparr>st_modules := M, st_configs := C\<rparr>"

lemma other_heap_simps [simp]:
  "st_streams (other_heap M C s) = st_streams s" "st_scheds (other_heap M C s) = st_scheds s"
  "st_modules (other_heap M C s) = M" "st_configs (other_heap M C s) = C"
  "other_heap (st_modules s) (st_configs s) s = s"
  by (simp_all add: other_heap_def)

lemma other_heap_commute:
  "(other_heap M C s)\<lparr>st_streams := h\<rparr> = other_heap M C (s\<lparr>st_streams := h\<rparr>)"
  "(other_heap M C s)\<lparr>st_scheds := w\<rparr> = other_heap M C (s\<lparr>st_scheds := w\<rparr>)"
  by (cases s, simp add: other_heap_def)+

lemma other_mod_stream: "mod_stream p f (other_heap M C s) = map_option (other_heap M C) (mod_stream p f s)"
  by (simp add: mod_stream_def other_heap_commute split: option.split)

lemma other_flush_schedules:
  "flush_schedules sps (other_heap M C s) = map_option (other_heap M C) (flush_schedules sps s)"
proof (induction sps arbitrary: s)
  case (Cons sp sps)
  then show ?case
    by (cases "st_scheds s sp") (simp_all add: mod_sched_def schedule_destroy_def other_heap_commute)
qed simp

lemma other_stream_destroy:
  "stream_destroy (Some p) (other_heap M C s) = map_option (other_heap M C) (stream_destroy (Some p) s)"
  unfolding stream_destroy_def schedule_list_flush_def
  by (auto simp: other_mod_stream other_flush_schedules other_heap_commute bind_eq_None_conv
      Option.bind_map_option comp_def option.map_comp split: bind_splits)

lemma stream_empty_list_steps:
  assumes "stream_empty_list ps s = Some s'"
  shows "heap_steps (other_heap (M(mp \<mapsto> m\<lparr>mod_streams := ps\<rparr>)) C s)
      (other_heap (M(mp \<mapsto> m\<lparr>mod_streams := []\<rparr>)) C s') \<and>
    st_modules s' = st_modules s \<and> st_configs s' = st_configs s"
  using assms
proof (induction ps arbitrary: s)
  case (Cons p ps)
  then obtain st s1 s2 where st: "st_streams s p = Some st"
    and s1: "s1 = s\<lparr>st_streams := (st_streams s)(p \<mapsto> st\<lparr>stream_list := None\<rparr>)\<rparr>"
    and d: "stream_destroy (Some p) s1 = Some s2" and rest: "stream_empty_list ps s2 = Some s'"
    by (auto simp: bind_eq_Some_conv mod_stream_Some_iff)
  let ?a = "other_heap (M(mp \<mapsto> m\<lparr>mod_streams := p # ps\<rparr>)) C s"
  let ?M = "M(mp \<mapsto> m\<lparr>mod_streams := ps\<rparr>)"
  let ?b = "?a\<lparr>st_modules := (st_modules ?a)(mp \<mapsto> (m\<lparr>mod_streams := p # ps\<rparr>)\<lparr>mod_streams :=
      remove1 p (mod_streams (m\<lparr>mod_streams := p # ps\<rparr>))\<rparr>),
      st_streams := (st_streams ?a)(p \<mapsto> st\<lparr>stream_list := None\<rparr>)\<rparr>"
  have "heap_step ?a ?b" by (rule heap_step.Unlink_Stream) (use st in simp_all)
  moreover have "?b = other_heap ?M C s1" unfolding s1 other_heap_def by (cases s) simp
  ultimately have 1: "heap_step ?a (other_heap ?M C s1)" by (simp only:)
  have "stream_destroy (Some p) (other_heap ?M C s1) = Some (other_heap ?M C s2)"
    by (simp add: other_stream_destroy d)
  then have 2: "heap_steps (other_heap ?M C s1) (other_heap ?M C s2)"
    using stream_destroy_steps [of p "other_heap ?M C s1"] by (simp add: s1)
  have "st_modules s2 = st_modules s" "st_configs s2 = st_configs s"
    using stream_destroy_steps [OF d] by (simp_all add: s1)
  moreover note Cons.IH [OF rest]
  ultimately show ?case
    using converse_rtranclp_into_rtranclp [OF 1 2] steps_trans by fastforce
qed simp

lemma module_destroy_steps:
  assumes "module_destroy (Some mp) s = Some s'" "\<And>cp c i. C cp = Some c \<Longrightarrow> bypass c i \<noteq> Some mp"
  shows "heap_steps (other_heap (st_modules s) C s) (other_heap (st_modules s') C s') \<and>
    st_configs s' = st_configs s"
proof -
  obtain m s2 where m: "st_modules s mp = Some m"
    and e: "stream_empty_list (mod_streams m) (s\<lparr>st_modules := (st_modules s)(mp \<mapsto> m\<lparr>fsc_list := []\<rparr>)\<rparr>) = Some s2"
    and s': "s' = s2\<lparr>st_modules := (st_modules s2)(mp := None)\<rparr>"
    using assms(1) by (auto simp: module_destroy_def bind_eq_Some_conv mod_module_Some_iff fsc_command_empty)
  let ?m = "m\<lparr>fsc_list := []\<rparr>"
  let ?M = "(st_modules s)(mp \<mapsto> ?m)"
  let ?s1 = "s\<lparr>st_modules := ?M\<rparr>"
  let ?N = "?M(mp \<mapsto> ?m\<lparr>mod_streams := []\<rparr>)"
  let ?a = "other_heap (st_modules s) C s"
  have "heap_step ?a (?a\<lparr>st_modules := (st_modules ?a)(mp \<mapsto> m\<lparr>fsc_list := []\<rparr>)\<rparr>)"
    by (rule heap_step.Set_Commands) (use m in simp_all)
  moreover have "?a\<lparr>st_modules := (st_modules ?a)(mp \<mapsto> m\<lparr>fsc_list := []\<rparr>)\<rparr> = other_heap ?M C ?s1"
    unfolding other_heap_def by (cases s) simp
  ultimately have 1: "heap_step ?a (other_heap ?M C ?s1)" by (simp only:)
  have "?M(mp \<mapsto> ?m\<lparr>mod_streams := mod_streams m\<rparr>) = ?M" by simp
  then have 2: "heap_steps (other_heap ?M C ?s1) (other_heap ?N C s2)"
      "st_modules s2 = ?M" "st_configs s2 = st_configs s"
    using stream_empty_list_steps [OF e, of ?M mp ?m C] by simp_all
  have "heap_step (other_heap ?N C s2) ((other_heap ?N C s2)\<lparr>st_modules := (st_modules (other_heap ?N C s2))(mp := None)\<rparr>)"
    by (rule heap_step.Free_Module) (use assms(2) in auto)
  moreover have "(other_heap ?N C s2)\<lparr>st_modules := (st_modules (other_heap ?N C s2))(mp := None)\<rparr> =
      other_heap (st_modules s') C s'"
    unfolding s' other_heap_def using 2(2) by (cases s2) simp
  ultimately have 3: "heap_step (other_heap ?N C s2) (other_heap (st_modules s') C s')" by (simp only:)
  show ?thesis
    using rtranclp.rtrancl_into_rtrancl [OF converse_rtranclp_into_rtranclp [OF 1 2(1)] 3] 2(3) s' by simp
qed

lemma acm_destroy_module_steps:
  assumes "acm_destroy_module bp s = Some s'" "modules_bound s"
  shows "heap_steps s s'"
proof (cases bp)
  case None
  then show ?thesis using assms(1) by (simp add: acm_destroy_module_def)
next
  case (Some mp)
  then obtain m where m: "st_modules s mp = Some m"
    using assms(1) by (auto simp: acm_destroy_module_def bind_eq_Some_conv)
  show ?thesis
  proof (cases "config_reference m = None")
    case True
    then have free: "bypass c i \<noteq> Some mp" if "st_configs s cp = Some c" for cp c i
      using modules_boundD [OF assms(2) that, of i mp] m by auto
    have "module_destroy (Some mp) s = Some s'"
      using assms(1) Some m True by (simp add: acm_destroy_module_def)
    from module_destroy_steps [OF this, of "st_configs s"] free
    have "heap_steps (other_heap (st_modules s) (st_configs s) s) (other_heap (st_modules s') (st_configs s) s')"
        "st_configs s' = st_configs s" by auto
    then show ?thesis by (metis other_heap_simps(5))
  next
    case False
    then show ?thesis using assms(1) Some m by (simp add: acm_destroy_module_def)
  qed
qed

lemma config_create_steps: "config_create s = (r, s') \<Longrightarrow> heap_steps s s'"
proof -
  assume c: "config_create s = (r, s')"
  have "heap_step s (s\<lparr>st_next := Suc (st_next s), st_configs := (st_configs s)(st_next s \<mapsto>
      \<lparr>bypass = (\<lambda>_. None), config_applied = False, msg_buffs = []\<rparr>)\<rparr>)"
    by (rule heap_step.New_Config) simp
  then show ?thesis
    using c by (auto simp: config_create_def acm_zalloc_def intro: steps_quiet split: if_split_asm)
qed

lemma unbind_steps:
  assumes "C cp = Some c"
  shows "heap_steps (other_heap M C s) (other_heap M (C(cp \<mapsto> c\<lparr>bypass := (bypass c)(i := None)\<rparr>)) s)"
proof -
  let ?a = "other_heap M C s"
  have "heap_step ?a (?a\<lparr>st_configs := (st_configs ?a)(cp \<mapsto> c\<lparr>bypass := (bypass c)(i := None)\<rparr>)\<rparr>)"
    by (rule heap_step.Unbind_Module) (use assms in simp)
  moreover have "?a\<lparr>st_configs := (st_configs ?a)(cp \<mapsto> c\<lparr>bypass := (bypass c)(i := None)\<rparr>)\<rparr> =
      other_heap M (C(cp \<mapsto> c\<lparr>bypass := (bypass c)(i := None)\<rparr>)) s"
    unfolding other_heap_def by (cases s) simp
  ultimately have "heap_step ?a (other_heap M (C(cp \<mapsto> c\<lparr>bypass := (bypass c)(i := None)\<rparr>)) s)" by (simp only:)
  then show ?thesis by (rule steps_single)
qed

text \<open>Destroying a configuration: its slots are cleared, then its modules are destroyed.\<close>

lemma config_destroy_steps:
  assumes "config_destroy cpp s = Some s'" "modules_bound s"
  shows "heap_steps s s'"
proof (cases cpp)
  case None
  then show ?thesis using assms(1) by (simp add: config_destroy_def)
next
  case (Some cp)
  obtain cfg s1 s2 where cfg: "st_configs s cp = Some cfg"
    and 1: "module_destroy (bypass cfg 0) s = Some s1" and 2: "module_destroy (bypass cfg 1) s1 = Some s2"
    using assms(1) by (auto simp: config_destroy_def Some bind_eq_Some_conv)
  obtain bufs s3 where 3: "buffer_empty_list (msg_buffs cfg) s2 = (bufs, s3)" by fastforce
  have s': "s' = s3\<lparr>st_configs := (st_configs s3)(cp := None)\<rparr>"
    using assms(1) cfg 1 2 3 by (simp add: config_destroy_def Some)
  define c1 where "c1 = cfg\<lparr>bypass := (bypass cfg)(0 := None)\<rparr>"
  define c2 where "c2 = c1\<lparr>bypass := (bypass c1)(1 := None)\<rparr>"
  define C where "C = (st_configs s)(cp \<mapsto> c2)"
  have unbound: "bypass c i \<noteq> Some mp" if hyps: "C q = Some c" "bypass cfg k = Some mp" "k = 0 \<or> k = 1" for q c i mp k
  proof
    assume b: "bypass c i = Some mp"
    obtain m where m: "st_modules s mp = Some m" "module_id m = k" "config_reference m = Some cp"
      using modules_boundD [OF assms(2) cfg hyps(2)] by blast
    show False
    proof (cases "q = cp")
      case True
      then have "bypass cfg i = Some mp" "i \<noteq> 0" "i \<noteq> 1"
        using hyps(1) b by (auto simp: C_def c2_def c1_def split: if_split_asm)
      then show False using modules_boundD [OF assms(2) cfg] m hyps(3) by fastforce
    next
      case False
      then show False using hyps(1) b modules_boundD [OF assms(2), of q c i mp] m by (auto simp: C_def)
    qed
  qed
  have "heap_steps s (other_heap (st_modules s) ((st_configs s)(cp \<mapsto> c1)) s)"
    using unbind_steps [of "st_configs s" cp cfg "st_modules s" s 0] cfg by (simp add: c1_def)
  moreover have "heap_steps (other_heap (st_modules s) ((st_configs s)(cp \<mapsto> c1)) s) (other_heap (st_modules s) C s)"
    using unbind_steps [of "(st_configs s)(cp \<mapsto> c1)" cp c1 "st_modules s" s 1] by (simp add: c2_def C_def)
  ultimately have a: "heap_steps s (other_heap (st_modules s) C s)" by (rule steps_trans)
  have b: "heap_steps (other_heap (st_modules s) C s) (other_heap (st_modules s1) C s1) \<and> st_configs s1 = st_configs s"
  proof (cases "bypass cfg 0")
    case None
    then show ?thesis using 1 by (simp add: module_destroy_def)
  next
    case (Some mp)
    then show ?thesis using 1 unbound by (intro module_destroy_steps) auto
  qed
  have c: "heap_steps (other_heap (st_modules s1) C s1) (other_heap (st_modules s2) C s2) \<and> st_configs s2 = st_configs s1"
  proof (cases "bypass cfg 1")
    case None
    then show ?thesis using 2 by (simp add: module_destroy_def)
  next
    case (Some mp)
    then show ?thesis using 2 unbound by (intro module_destroy_steps) auto
  qed
  obtain n h where s3: "s3 = s2\<lparr>st_next := n, st_bufs := h\<rparr>" "st_next s2 \<le> n"
    using only_buffer_empty_list [OF 3] by (auto simp: buffers_only_iff)
  have "quiet (other_heap (st_modules s2) C s2) (other_heap (st_modules s3) C s3)"
    using s3 by (auto simp: quiet_def other_heap_def rel_option_refl_on)
  then have d: "heap_steps (other_heap (st_modules s2) C s2) (other_heap (st_modules s3) C s3)"
    by (rule steps_quiet)
  have "heap_step (other_heap (st_modules s3) C s3)
      ((other_heap (st_modules s3) C s3)\<lparr>st_configs := (st_configs (other_heap (st_modules s3) C s3))(cp := None)\<rparr>)"
    by (rule heap_step.Free_Config)
  moreover have "st_configs s3 = st_configs s" using s3 b c by simp
  then have "(other_heap (st_modules s3) C s3)\<lparr>st_configs := (st_configs (other_heap (st_modules s3) C s3))(cp := None)\<rparr> = s'"
    unfolding s' other_heap_def C_def by (cases s3) simp
  ultimately have e: "heap_steps (other_heap (st_modules s3) C s3) s'" by (metis steps_single)
  show ?thesis using a b c d e by (meson steps_trans)
qed

lemma config_add_module_steps:
  assumes "config_add_module cpp bp s = Some (r, s')"
  shows "heap_steps s s'"
proof (cases "cpp = None \<or> bp = None")
  case True
  then show ?thesis using assms by (auto simp: config_add_module_def split: option.split_asm)
next
  case False
  then obtain cp mp where cm: "cpp = Some cp" "bp = Some mp" by auto
  then obtain cfg m where m: "st_configs s cp = Some cfg" "st_modules s mp = Some m"
    using assms by (auto simp: config_add_module_def bind_eq_Some_conv)
  show ?thesis
  proof (cases "config_add_checks cfg m = 0")
    case False
    then show ?thesis using assms cm m by (simp add: config_add_module_def)
  next
    case True
    then have unref: "config_reference m = None" by (auto simp: config_add_checks_def split: if_split_asm)
    obtain s2 r3 s3 where s2: "s2 = s\<lparr>st_configs := (st_configs s)(cp \<mapsto> cfg\<lparr>bypass := (bypass cfg)(module_id m \<mapsto> mp)\<rparr>),
          st_modules := (st_modules s)(mp \<mapsto> m\<lparr>config_reference := Some cp\<rparr>)\<rparr>"
      and v: "validate_config False cp s2 = Some (r3, s3)"
      and rest: "(if r3 \<noteq> 0 then do {
           s4 \<leftarrow> mod_config cp (\<lambda>c. c\<lparr>bypass := (bypass c)(module_id m := None)\<rparr>) s3;
           s5 \<leftarrow> mod_module mp (\<lambda>m. m\<lparr>config_reference := Some cp\<rparr>) s4;
           Some (r3, s5) }
         else Some (0, s3)) = Some (r, s')"
      using assms cm m True by (auto simp: config_add_module_def bind_eq_Some_conv mod_config_Some_iff mod_module_Some_iff)
    have "heap_step s s2" unfolding s2 by (rule heap_step.Bind_Module [OF m unref])
    moreover have q: "quiet s2 s3" using v by (rule quiets)
    ultimately have a: "heap_steps s s3" using steps_quiet steps_single steps_trans by blast
    have "heap_steps s3 s'"
    proof (cases "r3 = 0")
      case True
      then show ?thesis using rest by simp
    next
      case False
      then obtain s4 where 4: "mod_config cp (\<lambda>c. c\<lparr>bypass := (bypass c)(module_id m := None)\<rparr>) s3 = Some s4"
          "mod_module mp (\<lambda>m. m\<lparr>config_reference := Some cp\<rparr>) s4 = Some s'"
        using rest by (auto simp: bind_eq_Some_conv)
      have "heap_steps s3 s4"
        using 4(1) by (auto simp: mod_config_Some_iff intro!: steps_single heap_step.Unbind_Module)
      moreover have "config_reference m' = Some cp" if "st_modules s4 mp = Some m'" for m'
      proof -
        have "st_modules s3 mp = Some m'" using that 4(1) by (auto simp: mod_config_Some_iff)
        then show ?thesis by (rule quiet_module_back [OF q]) (auto simp: s2 module_like_def)
      qed
      then have "quiet s4 s'" using 4(2) by (elim quiet_mod_module) (simp add: module_like_def)
      ultimately show ?thesis using steps_quiet steps_trans by blast
    qed
    with a show ?thesis by (rule steps_trans)
  qed
qed

section \<open>The library interface\<close>

definition op_or_null :: "operation option \<Rightarrow> bool" where
  "op_or_null opp = (\<forall>op. opp = Some op \<longrightarrow> op_wf op)"

lemma quiet_refresh_indizes:
  assumes "refresh_indizes calc p s = Some s'" "\<And>ps a b. calc ps a = Some b \<Longrightarrow> quiet a b"
  shows "quiet s s'"
  using assms by (auto simp: refresh_indizes_def bind_eq_Some_conv split: option.split_asm)

lemma add_created_steps:
  assumes "add_created_operation calc sp opp s = Some (r, s')" "op_or_null opp"
    "\<And>ps a b. calc ps a = Some b \<Longrightarrow> quiet a b"
  shows "heap_steps s s'"
proof (cases opp)
  case None
  then show ?thesis using assms(1) by (simp add: add_created_operation_def)
next
  case (Some op)
  obtain r1 s1 where 1: "stream_add_operation sp (Some op) s = Some (r1, s1)"
    using assms(1) Some by (auto simp: add_created_operation_def bind_eq_Some_conv)
  have "heap_steps s s1"
    using 1 assms(2) Some by (intro local_steps_heap local_stream_add_operation) (auto simp: op_or_null_def)
  moreover have "heap_steps s1 s'"
    using assms(1) Some 1 quiet_refresh_indizes [OF _ assms(3)]
    by (auto simp: add_created_operation_def bind_eq_Some_conv split: if_split_asm intro: steps_quiet)
  ultimately show ?thesis by (rule steps_trans)
qed

lemma unless_applied_steps:
  assumes "unless_applied sp f s = Some (r, s')" "\<And>q b. f s = Some (q, b) \<Longrightarrow> heap_steps s b"
  shows "heap_steps s s'"
  using assms by (auto simp: unless_applied_def bind_eq_Some_conv split: if_split_asm)

lemma created_then_added:
  assumes "quiet s s1" "op_or_null opp" "add_created_operation calc sp opp s1 = Some (r, s')"
    "\<And>ps a b. calc ps a = Some b \<Longrightarrow> quiet a b"
  shows "heap_steps s s'"
  using steps_trans [OF steps_quiet [OF assms(1)] add_created_steps [OF assms(3,2,4)]] .

lemma add_operation_steps:
  "acm_add_stream_operation_insert sp len n s = Some (r, s') \<Longrightarrow> heap_steps s s'"
  "acm_add_stream_operation_insertconstant sp content sz s = Some (r, s') \<Longrightarrow> heap_steps s s'"
  "acm_add_stream_operation_pad sp len val s = Some (r, s') \<Longrightarrow> heap_steps s s'"
  "acm_add_stream_operation_forward sp off len s = Some (r, s') \<Longrightarrow> heap_steps s s'"
  "acm_add_stream_operation_read sp off len n s = Some (r, s') \<Longrightarrow> heap_steps s s'"
  "acm_add_stream_operation_forwardall sp s = Some (r, s') \<Longrightarrow> heap_steps s s'"
proof -
  show "acm_add_stream_operation_insert sp len n s = Some (r, s') \<Longrightarrow> heap_steps s s'"
    unfolding acm_add_stream_operation_insert_def
    by (erule unless_applied_steps) (auto simp: bind_eq_Some_conv op_or_null_def
        dest: insert_wf quiet_create_insert intro: quiets elim!: created_then_added [rotated 2])
  show "acm_add_stream_operation_insertconstant sp content sz s = Some (r, s') \<Longrightarrow> heap_steps s s'"
    unfolding acm_add_stream_operation_insertconstant_def
    by (erule unless_applied_steps) (auto simp: bind_eq_Some_conv op_or_null_def
        dest: insertconstant_wf quiet_create_constant intro: quiets elim!: created_then_added [rotated 2])
  show "acm_add_stream_operation_read sp off len n s = Some (r, s') \<Longrightarrow> heap_steps s s'"
    unfolding acm_add_stream_operation_read_def
    by (erule unless_applied_steps) (auto simp: bind_eq_Some_conv op_or_null_def
        dest: read_wf quiet_create_read intro: quiets elim!: created_then_added [rotated 2])
  show "acm_add_stream_operation_pad sp len val s = Some (r, s') \<Longrightarrow> heap_steps s s'"
    unfolding acm_add_stream_operation_pad_def
    by (erule unless_applied_steps) (auto simp: Let_def op_or_null_def split: prod.split_asm
        dest: pad_wf quiet_create_pad intro: quiets elim!: created_then_added [rotated 2])
  show "acm_add_stream_operation_forward sp off len s = Some (r, s') \<Longrightarrow> heap_steps s s'"
    unfolding acm_add_stream_operation_forward_def
    by (erule unless_applied_steps) (auto simp: Let_def op_or_null_def split: prod.split_asm
        dest: forward_wf quiet_create_forward intro: quiets elim!: created_then_added [rotated 2])
  show "acm_add_stream_operation_forwardall sp s = Some (r, s') \<Longrightarrow> heap_steps s s'"
    unfolding acm_add_stream_operation_forwardall_def
    by (erule unless_applied_steps) (auto simp: Let_def op_or_null_def split: prod.split_asm
        dest: forwardall_wf quiet_create_forwardall intro: quiets elim!: created_then_added [rotated 2])
qed

end
