(* ===== verification/Acm_Reachable.thy ===== *)
theory Acm_Reachable
  imports Acm_Api_Steps
begin

text \<open>
  The interface as a transition system: one rule per function that changes the state, the states
  that sequences of calls reach, and the proof that every call is a sequence of elementary steps
  of the heap, so that every reachable heap is well-formed.
\<close>

section \<open>Schedule entries\<close>

lemma create_event_places:
  "create_event_sysfs_items sp mp tick g ri s = Some (r, s') \<Longrightarrow> st_streams s' = st_streams s"
  by (auto simp: create_event_sysfs_items_def bind_eq_Some_conv mod_module_Some_iff
      split: if_split_asm dest!: event_loop_props)

lemma window_then_places:
  assumes "(case window_loop m w sp d tick oc cc i n fscs s of (ret, fscs, s1) \<Rightarrow> do {
      s2 \<leftarrow> mod_module mp (\<lambda>m. m\<lparr>fsc_list := fscs\<rparr>) s1; Some (ret, s2) }) = Some (r, s')"
  shows "st_streams s' = st_streams s"
proof -
  obtain ret fscs' s1 where l: "window_loop m w sp d tick oc cc i n fscs s = (ret, fscs', s1)"
    by (rule prod_cases3)
  from window_loop_props [OF l] have "st_streams s1 = st_streams s" by auto
  then show ?thesis using assms l by (auto simp: bind_eq_Some_conv mod_module_Some_iff)
qed

lemma create_window_places:
  assumes "create_window_sysfs_items sp mp tick g li rec s = Some (r, s')"
  shows "st_streams s' = st_streams s"
proof -
  obtain w m d oc cc where "(case window_loop m w sp d tick oc cc 0 (schedule_items (cycle_ns m) (period_ns w)) (fsc_list m) s of
        (ret, fscs, s1) \<Rightarrow> do { s'' \<leftarrow> mod_module mp (\<lambda>m. m\<lparr>fsc_list := fscs\<rparr>) s1; Some (ret, s'') }) = Some (r, s')"
    using assms by (auto simp: create_window_sysfs_items_def bind_eq_Some_conv Let_def split: if_split_asm)
  then show ?thesis by (rule window_then_places)
qed

lemma create_sysfs_items_places: "create_sysfs_items st sp mp tick s = Some (r, s') \<Longrightarrow> st_streams s' = st_streams s"
  by (auto simp: create_sysfs_items_def bind_eq_Some_conv split: if_split_asm
      dest: create_event_places create_window_places)

lemma remove_items_places:
  "remove_schedule_sysfs_items_schedule sp mp s = Some s' \<Longrightarrow> st_streams s' = st_streams s"
  by (simp add: remove_schedule_defined)

lemma remove_stream_items_places:
  "remove_schedule_sysfs_items_stream p mp s = Some s' \<Longrightarrow> st_streams s' = st_streams s"
  by (drule remove_stream_defined) simp

lemma same_streams_places: "st_streams s' = st_streams s \<Longrightarrow> places_kept s s'"
  by (simp add: places_kept_def rel_option_refl_on same_place_def)

lemma module_add_schedules_places:
  assumes "module_add_schedules p sp s = Some (r, s')"
  shows "places_kept s s'"
  using assms
  by (auto simp: module_add_schedules_def Let_def bind_eq_Some_conv split: option.split_asm if_split_asm
      dest!: create_sysfs_items_places [THEN same_streams_places] remove_items_places [THEN same_streams_places]
        quiet_validate_stream [THEN quiet_places]
      intro: places_trans [OF _ places_trans] places_trans)

lemma schedule_create_steps:
  assumes "schedule_create a b c d s = (r, s')"
  shows "heap_steps s s' \<and> st_streams s' = st_streams s \<and> st_modules s' = st_modules s \<and>
    (\<forall>sp. r = Some sp \<longrightarrow> (\<exists>w. st_scheds s' sp = Some w \<and> schedule_list w = None))"
  using schedule_create_cases [OF assms]
proof
  assume n: "schedule_create a b c d s = (None, s') \<and> s' = s\<lparr>st_next := st_next s'\<rparr>"
  have "quiet s s'"
    using assms n by (auto simp: schedule_create_def split: if_split_asm prod.split_asm option.split_asm
        intro: quiet_zalloc)
  then show ?thesis using assms n by (metis (no_types, lifting) acm_state.select_convs(3,4)
        acm_state.surjective acm_state.update_convs(2) option.distinct(1) prod.inject steps_quiet)
next
  let ?w = "\<lparr>time_start_ns = a, time_end_ns = b, send_time_ns = c, period_ns = d, schedule_list = None\<rparr>"
  assume "d \<noteq> 0 \<and> schedule_create a b c d s = (Some (st_next s), s\<lparr>st_next := Suc (st_next s),
    st_scheds := (st_scheds s)(st_next s \<mapsto> ?w)\<rparr>)"
  then have s': "r = Some (st_next s)" "s' = s\<lparr>st_next := Suc (st_next s), st_scheds := (st_scheds s)(st_next s \<mapsto> ?w)\<rparr>"
    and d: "d \<noteq> 0" using assms by auto
  have "heap_step s s'" unfolding s'(2) by (rule heap_step.New_Schedule) (use d in simp_all)
  then show ?thesis using s' by auto
qed

lemma add_schedule_step:
  assumes "schedule_list_add_schedule (Some p) (Some sp) s = Some (r, s')"
    "st_scheds s sp = Some w" "schedule_list w = None"
  shows "r = 0 \<and> heap_steps s s' \<and> (\<exists>st. st_streams s' p = Some st \<and> sp \<in> set (windows st))"
proof -
  obtain st where st: "st_streams s p = Some st" "r = 0"
    "s' = s\<lparr>st_streams := (st_streams s)(p \<mapsto> st\<lparr>windows := windows st @ [sp]\<rparr>),
       st_scheds := (st_scheds s)(sp \<mapsto> w\<lparr>schedule_list := Some p\<rparr>)\<rparr>"
    using assms by (auto simp: schedule_list_add_schedule_def bind_eq_Some_conv heap_defs split: option.split_asm)
  have "heap_step s s'" unfolding st(3) using st(1) assms(2,3) by (rule heap_step.Link_Schedule)
  then show ?thesis using st by auto
qed

lemma remove_schedule_step:
  assumes "schedule_list_remove_schedule p sp s = Some s'"
    "st_streams s p = Some st" "sp \<in> set (windows st)"
  shows "heap_steps s s'"
proof -
  have "s' = s\<lparr>st_streams := (st_streams s)(p \<mapsto> st\<lparr>windows := remove1 sp (windows st)\<rparr>),
       st_scheds := (st_scheds s)(sp := None)\<rparr>"
    using assms by (auto simp: schedule_list_remove_schedule_def schedule_destroy_def bind_eq_Some_conv
        heap_defs split: option.split_asm)
  then show ?thesis using heap_step.Free_Schedule [OF assms(2,3)] by auto
qed

lemma add_created_schedule_steps:
  assumes "add_created_schedule p schedule s = Some (r, s')"
    "\<And>sp. schedule = Some sp \<Longrightarrow> \<exists>w. st_scheds s sp = Some w \<and> schedule_list w = None"
  shows "heap_steps s s'"
proof (cases schedule)
  case None
  then show ?thesis using assms(1) by (simp add: add_created_schedule_def)
next
  case (Some sp)
  then obtain w where w: "st_scheds s sp = Some w" "schedule_list w = None" using assms(2) by blast
  obtain r1 s1 where a: "schedule_list_add_schedule (Some p) (Some sp) s = Some (r1, s1)"
    using assms(1) Some by (auto simp: add_created_schedule_def bind_eq_Some_conv)
  from add_schedule_step [OF a w] obtain st where 1: "r1 = 0" "heap_steps s s1"
      "st_streams s1 p = Some st" "sp \<in> set (windows st)" by blast
  obtain r2 s2 where b: "module_add_schedules p sp s1 = Some (r2, s2)"
    using assms(1) Some a 1 by (auto simp: add_created_schedule_def bind_eq_Some_conv)
  have 2: "heap_steps s1 s2" by (rule module_add_schedules_steps [OF b])
  have "heap_steps s2 s'"
  proof (cases "r2 = 0")
    case True
    then show ?thesis using assms(1) Some a 1(1) b by (simp add: add_created_schedule_def)
  next
    case False
    then have rm: "schedule_list_remove_schedule p sp s2 = Some s'"
      using assms(1) Some a 1(1) b by (auto simp: add_created_schedule_def bind_eq_Some_conv)
    obtain st2 where "st_streams s2 p = Some st2" "same_place st st2"
      using module_add_schedules_places [OF b] 1(3) by (rule places_cases)
    with 1(4) show ?thesis using remove_schedule_step [OF rm] by (simp add: same_place_def)
  qed
  with 1(2) 2 show ?thesis by (meson steps_trans)
qed

lemma create_and_add_steps:
  assumes "schedule_create a b c d s = (schedule, s1)" "add_created_schedule p schedule s1 = Some (r, s')"
  shows "heap_steps s s'"
  using schedule_create_steps [OF assms(1)] add_created_schedule_steps [OF assms(2)] steps_trans by blast

lemma schedule_event_steps:
  "acm_add_stream_schedule_event stp period send s = Some (r, s') \<Longrightarrow> heap_steps s s'"
  by (auto simp: acm_add_stream_schedule_event_def bind_eq_Some_conv
      split: option.split_asm if_split_asm prod.split_asm dest: create_and_add_steps)

lemma schedule_window_steps:
  "acm_add_stream_schedule_window stp period t1 t2 s = Some (r, s') \<Longrightarrow> heap_steps s s'"
  by (auto simp: acm_add_stream_schedule_window_def bind_eq_Some_conv
      split: option.split_asm if_split_asm prod.split_asm dest: create_and_add_steps)

lemma clean_schedule_steps: "acm_clean_schedule stp s = Some s' \<Longrightarrow> heap_steps s s'"
  by (auto simp: acm_clean_schedule_def bind_eq_Some_conv split: option.split_asm
      dest!: schedule_list_flush_steps [THEN conjunct1] remove_stream_items_steps intro: steps_trans)

section \<open>Cleaning the operations\<close>

lemma flush_user_member: "op \<in> set (operation_list_flush_user ops) \<Longrightarrow> op \<in> set ops"
  by (auto simp: flush_user_take dest: in_set_takeD)

lemma clean_operations_steps: "acm_clean_operations sp s = Some s' \<Longrightarrow> heap_steps s s'"
proof (cases sp)
  case None
  then show "acm_clean_operations sp s = Some s' \<Longrightarrow> heap_steps s s'" by (simp add: acm_clean_operations_def)
next
  case (Some p)
  assume c: "acm_clean_operations sp s = Some s'"
  let ?f = "\<lambda>st. st\<lparr>operations := (if has_egress_frame st then operation_list_flush_user (operations st)
            else operation_list_flush (operations st))\<rparr>"
  obtain ap where ap: "stream_config_applied (Some p) s = Some ap"
    using c Some by (auto simp: acm_clean_operations_def bind_eq_Some_conv)
  show ?thesis
  proof (cases ap)
    case True
    then show ?thesis using c Some ap by (simp add: acm_clean_operations_def)
  next
    case False
    then obtain s1 s2 where 1: "mod_stream p ?f s = Some s1"
      and 2: "refresh_indizes calculate_scatter_indizes p s1 = Some s2"
        "refresh_indizes calculate_gather_indizes p s2 = Some s'"
      using c Some ap by (auto simp: acm_clean_operations_def bind_eq_Some_conv)
    obtain st where st: "st_streams s p = Some st" "s1 = s\<lparr>st_streams := (st_streams s)(p \<mapsto> ?f st)\<rparr>"
      using 1 by (auto simp: mod_stream_Some_iff)
    have "heap_step s s1"
      unfolding st(2) by (rule heap_step.Set_Operations [OF st(1)])
        (auto simp: operation_list_flush_empty dest: flush_user_member split: if_split_asm)
    moreover have "quiet s1 s'"
      by (rule quiet_trans [OF quiet_refresh_indizes [OF 2(1) quiet_scatter] quiet_refresh_indizes [OF 2(2) quiet_gather]])
    ultimately show ?thesis using steps_single steps_quiet steps_trans by blast
  qed
qed

section \<open>Creating streams\<close>

lemma stream_create_new:
  "stream_create t s = (Some p, s') \<Longrightarrow> st_streams s' p = Some (zero_stream t)"
  by (auto simp: stream_create_def split: if_split_asm prod.split_asm option.split_asm)

lemma create_egress_steps:
  assumes "create_egress_stream t dmac smac vlan prio s = Some (r, s')"
  shows "heap_steps s s'"
proof (cases "stream_check_vlan_parameter vlan prio = 0")
  case False
  then show ?thesis using assms by (simp add: create_egress_stream_def)
next
  case True
  obtain q s1 where c: "stream_create t s = (q, s1)" by fastforce
  have 1: "heap_steps s s1" by (rule stream_create_steps [OF c])
  show ?thesis
  proof (cases q)
    case None
    then show ?thesis using assms True c 1 by (simp add: create_egress_stream_def)
  next
    case (Some p)
    then obtain res s2 where h: "stream_set_egress_header (Some p) dmac smac vlan prio s1 = Some (res, s2)"
      and rest: "(if res \<noteq> 0 then do { s3 \<leftarrow> stream_destroy (Some p) s2; Some (None, s3) }
          else Some (Some p, s2)) = Some (r, s')"
      using assms True c by (auto simp: create_egress_stream_def bind_eq_Some_conv)
    have l: "local_steps s1 s2" by (rule local_set_egress_header [OF h])
    have "st_streams s1 p = Some (zero_stream t)" using stream_create_new c Some by blast
    with l obtain st where st: "st_streams s2 p = Some st" "stream_list st = None"
      unfolding local_steps_def by (auto elim!: places_cases simp: same_place_def zero_stream_def)
    have "heap_steps s2 s'"
      using rest stream_destroy_steps [OF _ st] by (auto simp: bind_eq_Some_conv split: if_split_asm)
    then show ?thesis using 1 l by (meson local_steps_heap steps_trans)
  qed
qed

lemma create_ingress_steps:
  assumes "acm_create_ingress_triggered_stream header hmask af am sz s = Some (r, s')"
  shows "heap_steps s s'"
proof -
  obtain q s1 where c: "stream_create INGRESS_TRIGGERED_STREAM s = (q, s1)" by fastforce
  have 1: "heap_steps s s1" by (rule stream_create_steps [OF c])
  show ?thesis
  proof (cases q)
    case None
    then show ?thesis using assms c 1 by (simp add: acm_create_ingress_triggered_stream_def)
  next
    case (Some p)
    then obtain lk s2 where l: "lookup_create header hmask af am (unat sz) s1 = Some (lk, s2)"
      and rest: "(case lk of
            None \<Rightarrow> do { s3 \<leftarrow> stream_destroy (Some p) s2; Some (None, s3) }
          | Some l \<Rightarrow> do {
              s3 \<leftarrow> mod_stream p (\<lambda>st. st\<lparr>stream_lookup := Some l\<rparr>) s2;
              Some (Some p, s3) }) = Some (r, s')"
      using assms c by (auto simp: acm_create_ingress_triggered_stream_def bind_eq_Some_conv)
    have q: "quiet s1 s2"
      using l by (auto simp: lookup_create_def bind_eq_Some_conv split: if_split_asm prod.split_asm
          option.split_asm dest: quiet_zalloc)
    have "st_streams s1 p = Some (zero_stream INGRESS_TRIGGERED_STREAM)" using stream_create_new c Some by blast
    then obtain st where "st_streams s2 p = Some st" "stream_like (zero_stream INGRESS_TRIGGERED_STREAM) st"
      using quiet_stream_cases [OF q] by blast
    then have st: "st_streams s2 p = Some st" "stream_list st = None"
      by (simp_all add: stream_like_def zero_stream_def)
    have "heap_steps s2 s'"
    proof (cases lk)
      case None
      then show ?thesis using rest stream_destroy_steps [OF _ st] by (auto simp: bind_eq_Some_conv)
    next
      case (Some k)
      then have "lookup_wf k" using lookup_create_wf l by blast
      then show ?thesis
        using rest Some st(1) heap_step.Set_Lookup [OF st(1)] by (auto simp: bind_eq_Some_conv mod_stream_def)
    qed
    with 1 q show ?thesis by (meson steps_quiet steps_trans)
  qed
qed

section \<open>Streams and modules\<close>

lemma set_rtag_steps: "stream_set_indiv_recov sp t s = Some (r, s') \<Longrightarrow> quiet s s'"
  by (auto simp: stream_set_indiv_recov_def bind_eq_Some_conv stream_like_def
      split: option.split_asm if_split_asm elim!: quiet_mod_stream)

text \<open>The environment, and with it the addresses it yields, never changes.\<close>

lemma then_added:
  assumes "macs_ok (st_env s)" "heap_steps s a"
    "do { res \<leftarrow> module_add_stream bp sp a; if_zero res k } = Some (r, s')"
    "\<And>b. heap_steps s b \<Longrightarrow> k b = Some (r, s') \<Longrightarrow> heap_steps s s'"
  shows "heap_steps s s'"
proof -
  obtain q b where m: "module_add_stream bp sp a = Some (q, b)" and k: "if_zero (q, b) k = Some (r, s')"
    using assms(3) by (auto simp: bind_eq_Some_conv)
  have "macs_ok (st_env a)" using assms(1) heap_steps_env [OF assms(2)] by simp
  then have "heap_steps s b" using steps_trans [OF assms(2) module_add_stream_steps [OF m]] by simp
  then show ?thesis using k assms(4) by (auto simp: if_zero_def split: if_split_asm)
qed

lemma then_child:
  assumes "do { x \<leftarrow> st_streams b p; case reference x of None \<Rightarrow> Some (0, b) | Some c \<Rightarrow> f x c } = Some (r, s')"
    "heap_steps s b" "\<And>x c. f x c = Some (r, s') \<Longrightarrow> heap_steps s s'"
  shows "heap_steps s s'"
proof -
  obtain x where x: "(case reference x of None \<Rightarrow> Some (0, b) | Some c \<Rightarrow> f x c) = Some (r, s')"
    using assms(1) by (auto simp: bind_eq_Some_conv)
  show ?thesis using x assms(2,3) by (cases "reference x") auto
qed

lemma add_module_stream_steps:
  assumes "acm_add_module_stream bp sp s = Some (r, s')" "macs_ok (st_env s)"
  shows "heap_steps s s'"
proof (cases "bp = None \<or> sp = None")
  case True
  then show ?thesis using assms(1) by (auto simp: acm_add_module_stream_def split: option.split_asm)
next
  case False
  then obtain mp p where mp: "bp = Some mp" "sp = Some p" by auto
  obtain m ap st where 1: "st_modules s mp = Some m" "module_config_applied m s = Some ap"
    using assms(1) mp by (auto simp: acm_add_module_stream_def bind_eq_Some_conv)
  show ?thesis
  proof (cases "ap \<or> s' = s")
    case True
    then show ?thesis using assms(1) mp 1 by (auto simp: acm_add_module_stream_def)
  next
    case False
    then have first: "do { res \<leftarrow> module_add_stream (Some mp) (Some p) s;
           if_zero res (\<lambda>s1. do {
             st1 \<leftarrow> st_streams s1 p;
             case reference st1 of
               None \<Rightarrow> Some (0, s1)
             | Some ep \<Rightarrow>
                 if stype st1 \<noteq> INGRESS_TRIGGERED_STREAM then Some (0, s1)
                 else do {
                   res \<leftarrow> module_add_stream (Some mp) (Some ep) s1;
                   if_zero res (\<lambda>s2. do {
                     ev \<leftarrow> st_streams s2 ep;
                     case reference ev of
                       None \<Rightarrow> Some (0, s2)
                     | Some rp \<Rightarrow> do {
                         res \<leftarrow> module_add_stream (Some mp) (Some rp) s2;
                         if_zero res (\<lambda>s3. Some (0, s3)) } }) } }) } = Some (r, s')"
      using assms(1) mp 1 by (auto simp: acm_add_module_stream_def bind_eq_Some_conv split: if_split_asm)
    show ?thesis
    proof (rule then_added [OF assms(2) rtranclp.rtrancl_refl first], erule then_child, assumption)
      fix a x ep
      assume a: "heap_steps s a"
      assume "(if stype x \<noteq> INGRESS_TRIGGERED_STREAM then Some (0, a)
         else do {
           res \<leftarrow> module_add_stream (Some mp) (Some ep) a;
           if_zero res (\<lambda>s2. do {
             ev \<leftarrow> st_streams s2 ep;
             case reference ev of
               None \<Rightarrow> Some (0, s2)
             | Some rp \<Rightarrow> do {
                 res \<leftarrow> module_add_stream (Some mp) (Some rp) s2;
                 if_zero res (\<lambda>s3. Some (0, s3)) } }) }) = Some (r, s')"
      then consider "s' = a" | "do {
           res \<leftarrow> module_add_stream (Some mp) (Some ep) a;
           if_zero res (\<lambda>s2. do {
             ev \<leftarrow> st_streams s2 ep;
             case reference ev of
               None \<Rightarrow> Some (0, s2)
             | Some rp \<Rightarrow> do {
                 res \<leftarrow> module_add_stream (Some mp) (Some rp) s2;
                 if_zero res (\<lambda>s3. Some (0, s3)) } }) } = Some (r, s')"
        by (simp split: if_split_asm)
      then show "heap_steps s s'"
      proof cases
        case 2
        show ?thesis
          by (rule then_added [OF assms(2) a 2], erule then_child, assumption,
              erule then_added [OF assms(2), rotated 1], simp, assumption)
      qed (use a in simp)
    qed
  qed
qed

section \<open>Calls of the interface\<close>

text \<open>
  One rule per function of the interface that can change the state, for any arguments. A call that
  has no result (an access through an invalid pointer) is no transition.
\<close>

inductive api_call :: "acm_state \<Rightarrow> acm_state \<Rightarrow> bool" where
  time_triggered: "acm_create_time_triggered_stream dmac smac vlan prio s = Some (rp, s') \<Longrightarrow> api_call s s'"
| event_stream: "acm_create_event_stream dmac smac vlan prio s = Some (rp, s') \<Longrightarrow> api_call s s'"
| recovery_stream: "acm_create_recovery_stream dmac smac vlan prio s = Some (rp, s') \<Longrightarrow> api_call s s'"
| ingress_stream: "acm_create_ingress_triggered_stream hdr msk af am sz s = Some (rp, s') \<Longrightarrow> api_call s s'"
| destroy_stream: "acm_destroy_stream p s = Some s' \<Longrightarrow> api_call s s'"
| reference_stream: "acm_set_reference_stream p q s = Some (r, s') \<Longrightarrow> api_call s s'"
| rtag_stream: "acm_set_rtag_stream p t s = Some (r, s') \<Longrightarrow> api_call s s'"
| op_insert: "acm_add_stream_operation_insert p len n s = Some (r, s') \<Longrightarrow> api_call s s'"
| op_constant: "acm_add_stream_operation_insertconstant p c n s = Some (r, s') \<Longrightarrow> api_call s s'"
| op_pad: "acm_add_stream_operation_pad p len v s = Some (r, s') \<Longrightarrow> api_call s s'"
| op_forward: "acm_add_stream_operation_forward p off len s = Some (r, s') \<Longrightarrow> api_call s s'"
| op_read: "acm_add_stream_operation_read p off len n s = Some (r, s') \<Longrightarrow> api_call s s'"
| op_forwardall: "acm_add_stream_operation_forwardall p s = Some (r, s') \<Longrightarrow> api_call s s'"
| clean_operations: "acm_clean_operations p s = Some s' \<Longrightarrow> api_call s s'"
| schedule_event: "acm_add_stream_schedule_event p period t s = Some (r, s') \<Longrightarrow> api_call s s'"
| schedule_window: "acm_add_stream_schedule_window p period t1 t2 s = Some (r, s') \<Longrightarrow> api_call s s'"
| clean_schedule: "acm_clean_schedule p s = Some s' \<Longrightarrow> api_call s s'"
| create_module: "acm_create_module mode speed i s = Some (rp, s') \<Longrightarrow> api_call s s'"
| destroy_module: "acm_destroy_module p s = Some s' \<Longrightarrow> api_call s s'"
| module_schedule: "acm_set_module_schedule p cyc st s = Some (r, s') \<Longrightarrow> api_call s s'"
| module_stream: "acm_add_module_stream p q s = Some (r, s') \<Longrightarrow> api_call s s'"
| create_config: "acm_create s = (rp, s') \<Longrightarrow> api_call s s'"
| destroy_config: "acm_destroy p s = Some s' \<Longrightarrow> api_call s s'"
| config_module: "acm_add_module p q s = Some (r, s') \<Longrightarrow> api_call s s'"
| validate_stream: "acm_validate_stream a s = Some (r, s') \<Longrightarrow> api_call s s'"
| validate_module: "acm_validate_module a s = Some (r, s') \<Longrightarrow> api_call s s'"
| validate_config: "acm_validate_config a s = Some (r, s') \<Longrightarrow> api_call s s'"
| apply_config: "acm_apply_config p i s = Some (r, s') \<Longrightarrow> api_call s s'"
| apply_schedule: "acm_apply_schedule p i j s = Some (r, s') \<Longrightarrow> api_call s s'"
| disable_config: "acm_disable_config s = (r, s') \<Longrightarrow> api_call s s'"
| lock_buffers: "acm_set_buffer_locking_mask v s = Some (r, s') \<Longrightarrow> api_call s s'"
| unlock_buffers: "acm_set_buffer_unlocking_mask v s = Some (r, s') \<Longrightarrow> api_call s s'"

lemma quiet_write_file: "write_file_sysfs path d n off s = (r, s') \<Longrightarrow> quiet s s'"
  by (auto simp: write_file_sysfs_def Let_def split: if_split_asm)

lemma quiet_control_mask: "sysfs_write_buffer_control_mask v f s = Some (r, s') \<Longrightarrow> quiet s s'"
  by (auto simp: sysfs_write_buffer_control_mask_def Let_def split: if_split_asm sum.split_asm
      dest: quiet_write_file)

text \<open>The functions of which all changes are quiet.\<close>

lemmas quiet_calls = set_rtag_steps quiet_module_set_schedule quiet_validate_stream quiet_validate_module
  quiet_validate_config quiet_config_enable quiet_config_schedule quiet_control_mask

theorem api_call_steps:
  assumes "api_call s s'" "modules_bound s" "macs_ok (st_env s)"
  shows "heap_steps s s'"
  using assms(1)
proof cases
  case destroy_stream
  then show ?thesis using stream_delete_steps by (auto simp: acm_destroy_stream_def deleted_def)
next
  case disable_config
  then show ?thesis using quiet_config_disable [of s] by (auto simp: acm_disable_config_def intro: steps_quiet)
next
  case (destroy_module p)
  then show ?thesis using acm_destroy_module_steps assms(2) by blast
next
  case (destroy_config p)
  then show ?thesis using config_destroy_steps assms(2) by (auto simp: acm_destroy_def)
next
  case (module_stream p q r)
  then show ?thesis using add_module_stream_steps assms(3) by blast
next
  case (reference_stream p q r)
  then show ?thesis using stream_set_reference_steps assms(3) by (auto simp: acm_set_reference_stream_def)
qed (auto simp: acm_create_time_triggered_stream_def acm_create_event_stream_def acm_create_recovery_stream_def
    acm_set_rtag_stream_def acm_create_module_def acm_set_module_schedule_def acm_create_def acm_add_module_def
    acm_validate_stream_def acm_validate_module_def acm_validate_config_def acm_apply_config_def
    acm_apply_schedule_def acm_set_buffer_locking_mask_def acm_set_buffer_unlocking_mask_def
    dest!: create_egress_steps create_ingress_steps add_operation_steps clean_operations_steps
      schedule_event_steps schedule_window_steps clean_schedule_steps module_create_steps config_create_steps
      config_add_module_steps quiet_calls [THEN steps_quiet])

section \<open>Reachable states\<close>

text \<open>The library starts with an empty heap; the hardware may have been written before.\<close>

definition initial_state :: "acm_env \<Rightarrow> hw_write list \<Rightarrow> acm_state" where
  "initial_state env hw = \<lparr>st_env = env, st_next = 0, st_streams = (\<lambda>_. None), st_modules = (\<lambda>_. None),
     st_configs = (\<lambda>_. None), st_scheds = (\<lambda>_. None), st_bufs = (\<lambda>_. None), st_hw = hw\<rparr>"

inductive reachable :: "acm_env \<Rightarrow> acm_state \<Rightarrow> bool" for env where
  start: "reachable env (initial_state env hw)"
| call: "reachable env s \<Longrightarrow> api_call s s' \<Longrightarrow> reachable env s'"

lemma initial_wf: "heap_wf (initial_state env hw)"
  by (simp add: heap_wf_def initial_state_def streams_linked_def windows_linked_def modules_bound_def
      contents_ok_def fresh_above_def)

lemma reachable_inv:
  assumes "reachable env s" "macs_ok env"
  shows "heap_wf s \<and> st_env s = env"
  using assms(1)
proof (induction rule: reachable.induct)
  case (start hw)
  show ?case by (simp add: initial_wf) (simp add: initial_state_def)
next
  case (call s s')
  then have "heap_steps s s'" using api_call_steps heap_wfD(3) assms(2) by blast
  then show ?case using call.IH heap_steps_wf heap_steps_env by simp
qed

lemma reachable_calls: "reachable env s \<Longrightarrow> api_call\<^sup>*\<^sup>* s s' \<Longrightarrow> reachable env s'"
  by (rotate_tac, induction rule: rtranclp_induct) (auto intro: reachable.call)
end
