(* ===== verification/Acm_Free.thy ===== *)
theory Acm_Free
  imports Acm_Heap_Steps Acm_Fsc_Spec
begin

text \<open>
  What freeing leaves: in a well-formed heap the functions that destroy a stream, a module or a
  configuration always return, and they free exactly the objects that belong to it. The results are
  given as restrictions of the heap.
\<close>

section \<open>Schedule entries and streams\<close>

lemma restrict_None: "m(x := None) = m |` (- {x})"
  by (auto simp: restrict_map_def)

lemma restrict_all [simp]: "m |` UNIV = m"
  by (auto simp: restrict_map_def)

lemma minus_both: "- {x} \<inter> - A = - insert x A"
  by auto

lemma flush_schedules_frees:
  assumes "distinct sps" "\<And>sp. sp \<in> set sps \<Longrightarrow> st_scheds s sp \<noteq> None"
  shows "flush_schedules sps s = Some (s\<lparr>st_scheds := st_scheds s |` (- set sps)\<rparr>)"
  using assms
proof (induction sps arbitrary: s)
  case (Cons sp sps)
  obtain w where w: "st_scheds s sp = Some w" using Cons.prems(2) by fastforce
  let ?s1 = "s\<lparr>st_scheds := (st_scheds s)(sp := None)\<rparr>"
  have "flush_schedules (sp # sps) s = flush_schedules sps ?s1"
    using w by (simp add: heap_defs schedule_destroy_def)
  also have "\<dots> = Some (?s1\<lparr>st_scheds := st_scheds ?s1 |` (- set sps)\<rparr>)"
    using Cons.prems by (intro Cons.IH) auto
  also have "\<dots> = Some (s\<lparr>st_scheds := st_scheds s |` (- set (sp # sps))\<rparr>)"
    using minus_both [of sp "set sps"] by (simp add: restrict_None)
  finally show ?case .
qed simp

definition entries_of_stream :: "acm_state \<Rightarrow> addr \<Rightarrow> addr set" where
  "entries_of_stream s p = (case st_streams s p of None \<Rightarrow> {} | Some st \<Rightarrow> set (windows st))"

lemma stream_destroy_frees:
  assumes "windows_linked s" "st_streams s p = Some st"
  shows "stream_destroy (Some p) s = Some (s\<lparr>st_streams := st_streams s |` (- {p}),
    st_scheds := st_scheds s |` (- set (windows st))\<rparr>)"
proof -
  let ?s1 = "s\<lparr>st_streams := (st_streams s)(p \<mapsto> st\<lparr>operations := []\<rparr>)\<rparr>"
  have "flush_schedules (windows st) ?s1 = Some (?s1\<lparr>st_scheds := st_scheds ?s1 |` (- set (windows st))\<rparr>)"
    using windows_linkedD(1,2) [OF assms] by (intro flush_schedules_frees) fastforce+
  then show ?thesis
    using assms(2) by (simp add: stream_destroy_def schedule_list_flush_def mod_stream_def
        operation_list_flush_empty restrict_None)
qed

lemma windows_linked_without:
  assumes "windows_linked s" "st_streams s p = Some st"
  shows "windows_linked (s\<lparr>st_streams := st_streams s |` (- {p}), st_scheds := st_scheds s |` (- set (windows st))\<rparr>)"
    (is "windows_linked ?t")
proof (rule windows_linkedI)
  fix q x
  assume "st_streams ?t q = Some x"
  then have q: "q \<noteq> p" "st_streams s q = Some x" by (auto simp: restrict_map_def split: if_split_asm)
  show "distinct (windows x)" by (rule windows_linkedD(1) [OF assms(1) q(2)])
  fix sp
  assume sp: "sp \<in> set (windows x)"
  obtain w where w: "st_scheds s sp = Some w" "schedule_list w = Some q"
    using windows_linkedD(2) [OF assms(1) q(2) sp] by blast
  have "sp \<notin> set (windows st)"
    using windows_linkedD(2) [OF assms] w q(1) by fastforce
  then show "\<exists>w. st_scheds ?t sp = Some w \<and> schedule_list w = Some q" using w by simp
next
  fix sp w q
  assume sp: "st_scheds ?t sp = Some w" and l: "schedule_list w = Some q"
  then have n: "sp \<notin> set (windows st)" "st_scheds s sp = Some w" by (auto simp: restrict_map_def split: if_split_asm)
  obtain x where x: "st_streams s q = Some x" "sp \<in> set (windows x)"
    using windows_linkedD(3) [OF assms(1) n(2) l] by blast
  then have "q \<noteq> p" using n(1) assms(2) by auto
  with x show "\<exists>x. st_streams ?t q = Some x \<and> sp \<in> set (windows x)" by simp
qed

text \<open>The back links to the module do not matter for the schedule entries.\<close>

lemma windows_linked_unlist:
  assumes "windows_linked s" "st_streams s p = Some st"
  shows "windows_linked (s\<lparr>st_streams := (st_streams s)(p \<mapsto> st\<lparr>stream_list := l\<rparr>)\<rparr>)"
  using assms by (intro windows_linkedI) (auto dest: windows_linkedD split: if_split_asm)

section \<open>Lists of streams\<close>

lemma stream_empty_list_frees:
  assumes "windows_linked s" "distinct ps" "\<And>p. p \<in> set ps \<Longrightarrow> st_streams s p \<noteq> None"
  shows "stream_empty_list ps s = Some (s\<lparr>st_streams := st_streams s |` (- set ps),
    st_scheds := st_scheds s |` (- (\<Union>p\<in>set ps. entries_of_stream s p))\<rparr>)"
  using assms
proof (induction ps arbitrary: s)
  case (Cons p ps)
  obtain st where st: "st_streams s p = Some st" using Cons.prems(3) by fastforce
  let ?s1 = "s\<lparr>st_streams := (st_streams s)(p \<mapsto> st\<lparr>stream_list := None\<rparr>)\<rparr>"
  let ?s2 = "s\<lparr>st_streams := st_streams s |` (- {p}), st_scheds := st_scheds s |` (- set (windows st))\<rparr>"
  have "stream_destroy (Some p) ?s1 = Some ?s2"
    using stream_destroy_frees [OF windows_linked_unlist [OF Cons.prems(1) st, of None], of p "st\<lparr>stream_list := None\<rparr>"]
    by simp
  moreover have "stream_empty_list ps ?s2 = Some (?s2\<lparr>st_streams := st_streams ?s2 |` (- set ps),
      st_scheds := st_scheds ?s2 |` (- (\<Union>q\<in>set ps. entries_of_stream ?s2 q))\<rparr>)"
    using Cons.prems(2,3) by (intro Cons.IH windows_linked_without [OF Cons.prems(1) st])
      (auto simp: restrict_map_def)
  moreover have "(\<Union>q\<in>set ps. entries_of_stream ?s2 q) = (\<Union>q\<in>set ps. entries_of_stream s q)"
    using Cons.prems(2) by (intro SUP_cong refl) (auto simp: entries_of_stream_def restrict_map_def)
  moreover have "entries_of_stream s p = set (windows st)" using st by (simp add: entries_of_stream_def)
  ultimately show ?case
    using st minus_both [of p "set ps"] by (simp add: mod_stream_def Compl_Un [symmetric])
qed simp

section \<open>Modules and configurations\<close>

text \<open>The heap without a module, its streams and their schedule entries.\<close>

definition streams_of_module :: "acm_state \<Rightarrow> addr \<Rightarrow> addr set" where
  "streams_of_module s mp = (case st_modules s mp of None \<Rightarrow> {} | Some m \<Rightarrow> set (mod_streams m))"

definition without_module :: "addr \<Rightarrow> acm_state \<Rightarrow> acm_state" where
  "without_module mp s = s\<lparr>st_modules := st_modules s |` (- {mp}),
     st_streams := st_streams s |` (- streams_of_module s mp),
     st_scheds := st_scheds s |` (- (\<Union>p\<in>streams_of_module s mp. entries_of_stream s p))\<rparr>"

lemma module_destroy_frees:
  assumes "streams_linked s" "windows_linked s" "st_modules s mp = Some m"
  shows "module_destroy (Some mp) s = Some (without_module mp s)"
proof -
  let ?s1 = "s\<lparr>st_modules := (st_modules s)(mp \<mapsto> m\<lparr>fsc_list := []\<rparr>)\<rparr>"
  have "windows_linked ?s1" using assms(2) by (simp add: windows_linked_def)
  then have "stream_empty_list (mod_streams m) ?s1 = Some (?s1\<lparr>st_streams := st_streams ?s1 |` (- set (mod_streams m)),
      st_scheds := st_scheds ?s1 |` (- (\<Union>p\<in>set (mod_streams m). entries_of_stream ?s1 p))\<rparr>)"
    using streams_linkedD(1,2) [OF assms(1,3)] by (intro stream_empty_list_frees) fastforce+
  moreover have "entries_of_stream ?s1 = entries_of_stream s" by (simp add: entries_of_stream_def fun_eq_iff)
  ultimately show ?thesis
    using assms(3) by (simp add: module_destroy_def mod_module_def fsc_command_empty
        without_module_def streams_of_module_def restrict_None)
qed

lemma in_module_iff:
  assumes "streams_linked s" "st_streams s p = Some st"
  shows "p \<in> streams_of_module s mp \<longleftrightarrow> stream_list st = Some mp"
proof
  assume "p \<in> streams_of_module s mp"
  then obtain m where "st_modules s mp = Some m" "p \<in> set (mod_streams m)"
    by (auto simp: streams_of_module_def split: option.split_asm)
  then show "stream_list st = Some mp" using streams_linkedD(2) [OF assms(1)] assms(2) by fastforce
next
  assume "stream_list st = Some mp"
  then show "p \<in> streams_of_module s mp"
    using streams_linkedD(3) [OF assms] by (auto simp: streams_of_module_def)
qed

lemma without_module_linked:
  assumes "streams_linked s" "windows_linked s"
  shows "streams_linked (without_module mp s) \<and> windows_linked (without_module mp s)"
    (is "streams_linked ?t \<and> windows_linked ?t")
proof
  have mods: "st_modules ?t q = Some m \<longleftrightarrow> q \<noteq> mp \<and> st_modules s q = Some m" for q m
    by (auto simp: without_module_def restrict_map_def)
  have strs: "st_streams ?t p = Some st \<longleftrightarrow> p \<notin> streams_of_module s mp \<and> st_streams s p = Some st" for p st
    by (auto simp: without_module_def restrict_map_def)
  have scs: "st_scheds ?t sp = Some w \<longleftrightarrow>
      (\<forall>p\<in>streams_of_module s mp. sp \<notin> entries_of_stream s p) \<and> st_scheds s sp = Some w" for sp w
    by (auto simp: without_module_def restrict_map_def)
  note home = in_module_iff [OF assms(1)]
  show "streams_linked ?t"
  proof (rule streams_linkedI)
    fix q m
    assume q: "st_modules ?t q = Some m"
    then show "distinct (mod_streams m)" using streams_linkedD(1) [OF assms(1)] by (auto simp: mods)
    fix p
    assume p: "p \<in> set (mod_streams m)"
    obtain st where "st_streams s p = Some st" "stream_list st = Some q"
      using streams_linkedD(2) [OF assms(1) _ p] q by (auto simp: mods)
    then show "\<exists>st. st_streams ?t p = Some st \<and> stream_list st = Some q" using q home by (auto simp: mods strs)
  next
    fix p st q
    assume "st_streams ?t p = Some st" "stream_list st = Some q"
    then show "\<exists>m. st_modules ?t q = Some m \<and> p \<in> set (mod_streams m)"
      using streams_linkedD(3) [OF assms(1)] home by (auto simp: mods strs)
  qed
  show "windows_linked ?t"
  proof (rule windows_linkedI)
    fix p st
    assume p: "st_streams ?t p = Some st"
    then show "distinct (windows st)" using windows_linkedD(1) [OF assms(2)] by (auto simp: strs)
    fix sp
    assume sp: "sp \<in> set (windows st)"
    obtain w where w: "st_scheds s sp = Some w" "schedule_list w = Some p"
      using windows_linkedD(2) [OF assms(2) _ sp] p by (auto simp: strs)
    have "sp \<notin> entries_of_stream s q" if "q \<in> streams_of_module s mp" for q
      using that w p windows_linkedD(2) [OF assms(2)]
      by (fastforce simp: entries_of_stream_def strs split: option.split_asm)
    with w show "\<exists>w. st_scheds ?t sp = Some w \<and> schedule_list w = Some p" by (auto simp: scs)
  next
    fix sp w p
    assume sp: "st_scheds ?t sp = Some w" and l: "schedule_list w = Some p"
    obtain st where st: "st_streams s p = Some st" "sp \<in> set (windows st)"
      using windows_linkedD(3) [OF assms(2) _ l] sp by (auto simp: scs)
    then have "p \<notin> streams_of_module s mp" using sp by (auto simp: scs entries_of_stream_def)
    with st show "\<exists>st. st_streams ?t p = Some st \<and> sp \<in> set (windows st)" by (auto simp: strs)
  qed
qed

definition module_in_slot :: "acm_state \<Rightarrow> ptr \<Rightarrow> bool" where
  "module_in_slot s bp = (\<forall>mp. bp = Some mp \<longrightarrow> (\<exists>m. st_modules s mp = Some m))"

definition without_slot :: "ptr \<Rightarrow> acm_state \<Rightarrow> acm_state" where
  "without_slot bp s = (case bp of None \<Rightarrow> s | Some mp \<Rightarrow> without_module mp s)"

lemma slot_destroy_frees:
  assumes "streams_linked s" "windows_linked s" "module_in_slot s bp"
  shows "module_destroy bp s = Some (without_slot bp s) \<and>
    streams_linked (without_slot bp s) \<and> windows_linked (without_slot bp s)"
proof (cases bp)
  case None
  then show ?thesis using assms by (simp add: module_destroy_def without_slot_def)
next
  case (Some mp)
  then obtain m where m: "st_modules s mp = Some m" using assms(3) by (auto simp: module_in_slot_def)
  show ?thesis
    using module_destroy_frees [OF assms(1,2) m] without_module_linked [OF assms(1,2)] Some
    by (simp add: without_slot_def)
qed

lemma empty_list_bufs: "buffer_empty_list ps s = (bs, s') \<Longrightarrow> bs = [] \<and> s' = s\<lparr>st_bufs := st_bufs s |` (- set ps)\<rparr>"
proof (induction ps arbitrary: s)
  case (Cons p ps)
  then show ?case using minus_both [of p "set ps"] by (fastforce simp: buffer_destroy_def restrict_None)
qed simp

lemma config_destroy_frees:
  assumes "heap_wf s" "st_configs s cp = Some cfg"
  shows "config_destroy (Some cp) s = Some (
    (without_slot (bypass cfg 1) (without_slot (bypass cfg 0) s))
      \<lparr>st_configs := st_configs s |` (- {cp}), st_bufs := st_bufs s |` (- set (msg_buffs cfg))\<rparr>)"
proof -
  let ?s1 = "without_slot (bypass cfg 0) s"
  let ?s2 = "without_slot (bypass cfg 1) ?s1"
  note bound = modules_boundD [OF heap_wfD(3) [OF assms(1)] assms(2)]
  have first: "module_in_slot s (bypass cfg 0)" using bound by (fastforce simp: module_in_slot_def)
  have slots: "module_in_slot s (bypass cfg 0)" "module_in_slot ?s1 (bypass cfg 1)"
  proof -
    have "\<exists>m. st_modules ?s1 mp = Some m" if one: "bypass cfg 1 = Some mp" for mp
    proof -
      obtain m where m: "st_modules s mp = Some m" "module_id m = 1" using bound [OF one] by blast
      have "bypass cfg 0 \<noteq> Some mp" using bound [of 0 mp] m by auto
      with m show ?thesis by (auto simp: without_slot_def without_module_def split: option.split)
    qed
    then show "module_in_slot ?s1 (bypass cfg 1)" by (simp add: module_in_slot_def)
  qed (rule first)
  note 1 = slot_destroy_frees [OF heap_wfD(1,2) [OF assms(1)] slots(1)]
  note 2 = slot_destroy_frees [OF _ _ slots(2)]
  have d: "module_destroy (bypass cfg 0) s = Some ?s1" "module_destroy (bypass cfg 1) ?s1 = Some ?s2"
    using 1 2 by blast+
  obtain bs s3 where e: "buffer_empty_list (msg_buffs cfg) ?s2 = (bs, s3)" by fastforce
  have keep: "st_configs ?s2 = st_configs s" "st_bufs ?s2 = st_bufs s"
    by (simp_all add: without_slot_def without_module_def split: option.split)
  show ?thesis
    using assms(2) d e empty_list_bufs [OF e] keep by (simp add: config_destroy_def restrict_None)
qed
text \<open>What is gone, told by the back links.\<close>

lemma without_module_modules: "st_modules (without_module mp s) q = (if q = mp then None else st_modules s q)"
  by (simp add: without_module_def restrict_map_def)

lemma without_module_configs:
  "st_configs (without_module mp s) = st_configs s" "st_bufs (without_module mp s) = st_bufs s"
  by (simp_all add: without_module_def)

lemma without_module_streams:
  assumes "streams_linked s"
  shows "st_streams (without_module mp s) p = Some st \<longleftrightarrow> st_streams s p = Some st \<and> stream_list st \<noteq> Some mp"
  using in_module_iff [OF assms] by (auto simp: without_module_def restrict_map_def)

lemma without_module_scheds:
  assumes "streams_linked s" "windows_linked s"
  shows "st_scheds (without_module mp s) sp = Some w \<longleftrightarrow> st_scheds s sp = Some w \<and>
    (\<forall>p st. schedule_list w = Some p \<longrightarrow> st_streams s p = Some st \<longrightarrow> stream_list st \<noteq> Some mp)"
proof -
  have "(\<exists>p\<in>streams_of_module s mp. sp \<in> entries_of_stream s p) \<longleftrightarrow>
      (\<exists>p st. schedule_list w = Some p \<and> st_streams s p = Some st \<and> stream_list st = Some mp)"
    if w: "st_scheds s sp = Some w"
  proof
    assume "\<exists>p\<in>streams_of_module s mp. sp \<in> entries_of_stream s p"
    then obtain p st where p: "p \<in> streams_of_module s mp" "st_streams s p = Some st" "sp \<in> set (windows st)"
      by (auto simp: entries_of_stream_def split: option.split_asm)
    have "schedule_list w = Some p" using windows_linkedD(2) [OF assms(2) p(2,3)] w by auto
    then show "\<exists>p st. schedule_list w = Some p \<and> st_streams s p = Some st \<and> stream_list st = Some mp"
      using p in_module_iff [OF assms(1) p(2)] by blast
  next
    assume "\<exists>p st. schedule_list w = Some p \<and> st_streams s p = Some st \<and> stream_list st = Some mp"
    then obtain p st where p: "schedule_list w = Some p" "st_streams s p = Some st" "stream_list st = Some mp"
      by blast
    then have "sp \<in> entries_of_stream s p" "p \<in> streams_of_module s mp"
      using windows_linkedD(3) [OF assms(2) w p(1)] in_module_iff [OF assms(1) p(2)]
      by (auto simp: entries_of_stream_def)
    then show "\<exists>p\<in>streams_of_module s mp. sp \<in> entries_of_stream s p" by blast
  qed
  then show ?thesis by (auto simp: without_module_def restrict_map_def)
qed

text \<open>The same for the slots of a configuration, of which one or both may be empty.\<close>

lemma without_slot_facts:
  assumes "streams_linked s" "windows_linked s"
  shows "st_modules (without_slot bp s) q = (if Some q = bp then None else st_modules s q)"
    "st_streams (without_slot bp s) p = Some st \<longleftrightarrow>
      st_streams s p = Some st \<and> (stream_list st = None \<or> stream_list st \<noteq> bp)"
    "st_scheds (without_slot bp s) sp = Some w \<longleftrightarrow> st_scheds s sp = Some w \<and>
      (\<forall>p st. schedule_list w = Some p \<longrightarrow> st_streams s p = Some st \<longrightarrow> stream_list st = None \<or> stream_list st \<noteq> bp)"
    "st_configs (without_slot bp s) = st_configs s" "st_bufs (without_slot bp s) = st_bufs s"
  using without_module_scheds [OF assms]
  by (cases bp; auto simp: without_slot_def without_module_modules without_module_streams [OF assms(1)]
      without_module_configs)+

end
