(* ===== verification/Acm_Heap_Theorems.thy ===== *)
theory Acm_Heap_Theorems
  imports Acm_Reachable Acm_Free Acm_Examples
begin

text \<open>
  The correctness of the interface: the header of new egress streams, the well-formedness of all
  reachable heaps, what destroying frees, what failing and refused calls leave.
\<close>

section \<open>New streams\<close>

text \<open>Outside a module a new operation is checked against its own stream only.\<close>

lemma add_operation_outside:
  assumes "st_streams s p = Some st" "stream_list st = None" "\<not> is_redundant st" "\<not> ownership_set op"
    "operation_admissible st op = 0" "check_stream_payload (operations st @ [op\<lparr>ownership_set := True\<rparr>]) = 0"
    "int (stream_num_operations_x (st\<lparr>operations := operations st @ [op\<lparr>ownership_set := True\<rparr>]\<rparr>) INSERT)
      \<le> ACM_MAX_INSERT_OPERATIONS"
  shows "stream_add_operation (Some p) (Some op) s = Some (0, s\<lparr>st_streams := (st_streams s)(p \<mapsto>
    st\<lparr>operations := operations st @ [op\<lparr>ownership_set := True\<rparr>]\<rparr>)\<rparr>)"
proof -
  have "is_redundant (st\<lparr>operations := x\<rparr>) = is_redundant st" for x by (simp add: is_redundant_def)
  then show ?thesis
    using assms by (simp add: stream_add_operation_def operation_list_add_operation_def append_operation_def
      mod_stream_def validate_stream_def validate_stream_checks_def stream_home_def not_less)
qed

lemma create_constant_ok:
  assumes "\<And>n. env_alloc (st_env s) n" "length bs = n" "0 < n" "n \<le> 1024"
  shows "operation_create_insertconstant bs (word_of_nat n) s =
    Some (Some (zero_operation\<lparr>opcode := INSERT_CONSTANT, op_length := word_of_nat n,
              op_data := bs, data_size := word_of_nat n\<rparr>), s\<lparr>st_next := st_next s + 2\<rparr>)"
  using assms by (simp add: operation_create_insertconstant_def zalloc_then_def acm_zalloc_def unat_of_nat)

definition const_op :: "u8 list \<Rightarrow> operation" where
  "const_op bs = \<lparr>opcode = INSERT_CONSTANT, op_offset = 0, op_length = word_of_nat (length bs), buffer_name = None,
     op_data = bs, data_size = word_of_nat (length bs), ownership_set = True, msg_buf = None, const_buff_offset = 0\<rparr>"

lemma small_header: "length cs \<le> 2 \<Longrightarrow> cs = [] \<or> (\<exists>a. cs = [a]) \<or> (\<exists>a b. cs = [a, b])"
  by (cases cs rule: remdups_adj.cases) auto

text \<open>The common step: a constant is created and appended to the operations of a fresh stream.\<close>

lemma add_constant_outside:
  assumes "\<And>n. env_alloc (st_env s) n" "length bs = n" "0 < n" "n \<le> 6" "length cs \<le> 2"
    "st_streams s p = Some (zero_stream t\<lparr>operations := map const_op cs\<rparr>)"
    "t = TIME_TRIGGERED_STREAM \<or> t = RECOVERY_STREAM \<or> t = EVENT_STREAM" "\<forall>c\<in>set cs. length c = 6"
  shows "\<exists>op s1. operation_create_insertconstant bs (word_of_nat n) s = Some (Some op, s1) \<and>
    stream_add_operation (Some p) (Some op) s1 = Some (0, s\<lparr>st_next := st_next s + 2, st_streams :=
      (st_streams s)(p \<mapsto> zero_stream t\<lparr>operations := map const_op (cs @ [bs])\<rparr>)\<rparr>)"
proof -
  let ?op = "zero_operation\<lparr>opcode := INSERT_CONSTANT, op_length := word_of_nat n, op_data := bs,
    data_size := word_of_nat n\<rparr>"
  let ?s1 = "s\<lparr>st_next := st_next s + 2\<rparr>"
  have op: "?op\<lparr>ownership_set := True\<rparr> = const_op bs" "opcode ?op = INSERT_CONSTANT" "\<not> ownership_set ?op"
    using assms(2) by (simp_all add: zero_operation_def const_op_def)
  have c: "operation_create_insertconstant bs (word_of_nat n) s = Some (Some ?op, ?s1)"
    using assms(2,3,4) by (intro create_constant_ok assms(1)) simp_all
  have n: "n = 1 \<or> n = 2 \<or> n = 3 \<or> n = 4 \<or> n = 5 \<or> n = 6" using assms(3,4) by arith
  have pay: "check_stream_payload (map const_op (cs @ [bs])) = 0"
    using small_header [OF assms(5)] n assms(2,8)
    by (elim disjE exE) (simp_all add: check_stream_payload_def const_op_def)
  have ins: "stream_num_operations_x (zero_stream t\<lparr>operations := map const_op xs\<rparr>) INSERT = 0" for xs
    by (induction xs) (simp_all add: stream_num_operations_x_def const_op_def)
  have "stream_add_operation (Some p) (Some ?op) ?s1 = Some (0, ?s1\<lparr>st_streams := (st_streams ?s1)(p \<mapsto>
     (zero_stream t\<lparr>operations := map const_op cs\<rparr>)\<lparr>operations := map const_op cs @ [?op\<lparr>ownership_set := True\<rparr>]\<rparr>)\<rparr>)"
    using assms(6,7) op pay ins [of "cs @ [bs]"]
    by (subst add_operation_outside [where st = "zero_stream t\<lparr>operations := map const_op cs\<rparr>"])
      (auto simp: zero_stream_def is_redundant_def operation_admissible_def)
  then show ?thesis using c op(1) by (cases s) simp
qed

lemma egress_header_set:
  assumes "\<And>n. env_alloc (st_env s) n" "length dmac = 6" "length smac = 6" "uint vlan < ACM_VLAN_ID_MAX"
    "st_streams s p = Some (zero_stream t)" "t = TIME_TRIGGERED_STREAM \<or> t = RECOVERY_STREAM"
  shows "stream_set_egress_header (Some p) dmac smac vlan prio s = Some (0, s\<lparr>st_next := st_next s + 6,
    st_streams := (st_streams s)(p \<mapsto> zero_stream t\<lparr>operations := map const_op
      [dmac, if smac = empty_mac then LOCAL_SMAC_CONST else smac, vlan_tag_bytes vlan prio]\<rparr>)\<rparr>)"
proof -
  define sm where "sm = (if smac = empty_mac then LOCAL_SMAC_CONST else smac)"
  define tag where "tag = vlan_tag_bytes vlan prio"
  define st where "st k cs = s\<lparr>st_next := st_next s + k, st_streams := (st_streams s)(p \<mapsto>
     zero_stream t\<lparr>operations := map const_op cs\<rparr>)\<rparr>" for k cs
  have env: "env_alloc (st_env (st k cs)) n" for k cs n using assms(1) by (simp add: st_def)
  have at: "st_streams (st k cs) p = Some (zero_stream t\<lparr>operations := map const_op cs\<rparr>)" for k cs
    by (simp add: st_def)
  have upd: "st k cs\<lparr>st_next := st_next (st k cs) + 2, st_streams := (st_streams (st k cs))(p \<mapsto>
      zero_stream t\<lparr>operations := map const_op ds\<rparr>)\<rparr> = st (k + 2) ds" for k cs ds
    by (simp add: st_def)
  have zero: "zero_stream t\<lparr>operations := []\<rparr> = zero_stream t" by (simp add: zero_stream_def)
  have type: "t = TIME_TRIGGERED_STREAM \<or> t = RECOVERY_STREAM \<or> t = EVENT_STREAM" using assms(6) by blast
  have lens: "length sm = 6" "length tag = 4"
    using assms(3) by (simp_all add: sm_def tag_def LOCAL_SMAC_CONST_def vlan_tag_bytes_def Let_def)
  have s0: "s = st 0 []" using assms(5) by (cases s) (simp add: st_def zero fun_upd_idem)
  have step: "\<exists>op s1. operation_create_insertconstant bs (word_of_nat n) (st k cs) = Some (Some op, s1) \<and>
      stream_add_operation (Some p) (Some op) s1 = Some (0, st j (cs @ [bs]))"
    if "length bs = n" "0 < n" "n \<le> 6" "length cs \<le> 2" "\<forall>c\<in>set cs. length c = 6" "j = k + 2" for bs n k cs j
    using add_constant_outside [OF env that(1-4) at type that(5)] unfolding upd that(6) .
  obtain op1 s1 where 1: "operation_create_insertconstant dmac (word_of_nat 6) (st 0 []) = Some (Some op1, s1)"
      "stream_add_operation (Some p) (Some op1) s1 = Some (0, st 2 [dmac])"
    using step [of dmac 6 "[]" 2 0] assms(2) by auto
  obtain op2 s2 where 2: "operation_create_insertconstant sm (word_of_nat 6) (st 2 [dmac]) = Some (Some op2, s2)"
      "stream_add_operation (Some p) (Some op2) s2 = Some (0, st 4 [dmac, sm])"
    using step [of sm 6 "[dmac]" 4 2] assms(2) lens(1) by auto
  obtain op3 s3 where 3: "operation_create_insertconstant tag (word_of_nat 4) (st 4 [dmac, sm]) =
        Some (Some op3, s3)"
      "stream_add_operation (Some p) (Some op3) s3 = Some (0, st 6 [dmac, sm, tag])"
  proof -
    have "length [dmac, sm] \<le> 2" "\<forall>c\<in>set [dmac, sm]. length c = 6" "0 < (4 :: nat)" "(4 :: nat) \<le> 6" "6 = (4 :: nat) + 2"
      using assms(2) lens(1) by simp_all
    then show ?thesis using step [of tag 4 "[dmac, sm]" 6 4] lens(2) that by (metis append_Cons append_Nil)
  qed
  have ev: "t \<noteq> EVENT_STREAM" using assms(6) by auto
  have d: "egress_dmac_op t dmac x = operation_create_insertconstant dmac (word_of_nat 6) x"
      "egress_smac_op t smac x = operation_create_insertconstant sm (word_of_nat 6) x" for x
    by (simp_all only: egress_dmac_op_def egress_smac_op_def sm_def ev simp_thms if_False ETHER_ADDR_LEN_def
        if_distrib [of "\<lambda>c. operation_create_insertconstant c _ _"])
  have t: "stype (zero_stream t) = t" "t \<noteq> INGRESS_TRIGGERED_STREAM"
      "t \<noteq> REDUNDANT_STREAM_RX" "uint vlan \<noteq> ACM_VLAN_ID_MAX"
    using assms(4,6) by (auto simp: zero_stream_def)
  have "stream_set_egress_header (Some p) dmac smac vlan prio (st 0 []) = Some (0, st 6 [dmac, sm, tag])"
    by (simp add: stream_set_egress_header_def Let_def at t zero d 1 [simplified] 2 [simplified] 3 [unfolded tag_def, simplified]
        tag_def del: ACM_VLAN_ID_MAX_def)
  then show ?thesis unfolding s0 [symmetric] by (simp only: st_def sm_def tag_def)
qed

text \<open>The tag control information read back from the bytes of the tag.\<close>

lemma high_or_low: "0 \<le> b \<Longrightarrow> b < 2 ^ n \<Longrightarrow> or (a * 2 ^ n) b = a * 2 ^ n + (b :: int)"
proof -
  assume b: "0 \<le> b" "b < 2 ^ n"
  then have "take_bit n b = b" by (simp add: take_bit_int_eq_self)
  then have "and (push_bit n a) b = 0"
    by (intro bit_eqI) (metis bit_0_eq bit_and_iff bit_push_bit_iff bit_take_bit_iff bot_apply leD bot_bool_def)
  then show ?thesis by (simp add: disjunctive_add_eq_or push_bit_eq_mult)
qed

lemma high_byte: "uint (ucast (drop_bit 8 (h :: u16)) :: u8) = uint h div 256"
proof -
  have "uint h div 256 < 256" using uint_lt2p [of h] by simp
  then show ?thesis
    by (simp only: unsigned_ucast_eq unsigned_drop_bit_eq drop_bit_eq_div take_bit_eq_mod)
      (use uint_lt2p [of h] in \<open>simp add: uint_div mod_pos_pos_trivial pos_imp_zdiv_nonneg_iff\<close>)
qed

lemma vlan_tag_reads_back:
  assumes "uint vlan \<le> 4095" "uint prio \<le> 7"
  shows "uint (vlan_tag_bytes vlan prio ! 2) * 256 + uint (vlan_tag_bytes vlan prio ! 3) =
    uint prio * 8192 + uint vlan"
proof -
  let ?h = "or (push_bit 13 (ucast prio :: u16)) (and vlan 0x0fff)"
  have v: "take_bit 12 (uint vlan) = uint vlan" using assms(1) by (simp add: take_bit_int_eq_self)
  have "uint (and vlan 0x0fff) = uint vlan"
    using v by (simp add: uint_and take_bit_eq_mask mask_numeral)
  moreover have "uint (push_bit 13 (ucast prio :: u16)) = uint prio * 2 ^ 13"
    using assms(2) by (subst unsigned_push_bit_eq) (simp add: unsigned_ucast_eq push_bit_eq_mult take_bit_int_eq_self)
  ultimately have h: "uint ?h = uint prio * 8192 + uint vlan"
    using high_or_low [of "uint vlan" 13 "uint prio"] assms(1) by (simp add: uint_or)
  have "uint (ucast (drop_bit 8 ?h) :: u8) = uint ?h div 256" "uint (ucast ?h :: u8) = uint ?h mod 256"
    by (rule high_byte) (simp add: unsigned_ucast_eq take_bit_eq_mod)
  then show ?thesis using h by (simp add: vlan_tag_bytes_def Let_def)
qed

lemma create_stream_alloc:
  "(\<And>n. env_alloc (st_env s) n) \<Longrightarrow> t \<noteq> MAX_STREAM_TYPE \<Longrightarrow> stream_create t s = (Some (st_next s),
    s\<lparr>st_next := Suc (st_next s), st_streams := (st_streams s)(st_next s \<mapsto> zero_stream t)\<rparr>)"
  by (simp add: stream_create_def acm_zalloc_def)

lemma create_egress_ok:
  assumes "\<And>n. env_alloc (st_env s) n" "length dmac = 6" "length smac = 6"
    "ACM_VLAN_ID_MIN \<le> uint vlan" "uint vlan < ACM_VLAN_ID_MAX" "uint prio \<le> ACM_VLAN_PRIO_MAX"
    "t = TIME_TRIGGERED_STREAM \<or> t = RECOVERY_STREAM"
  shows "create_egress_stream t dmac smac vlan prio s = Some (Some (st_next s), s\<lparr>st_next := st_next s + 7,
    st_streams := (st_streams s)(st_next s \<mapsto> zero_stream t\<lparr>operations := map const_op
      [dmac, if smac = empty_mac then LOCAL_SMAC_CONST else smac, vlan_tag_bytes vlan prio]\<rparr>)\<rparr>)"
proof -
  let ?s1 = "s\<lparr>st_next := Suc (st_next s), st_streams := (st_streams s)(st_next s \<mapsto> zero_stream t)\<rparr>"
  have v: "stream_check_vlan_parameter vlan prio = 0"
    using assms(4-6) by (simp add: stream_check_vlan_parameter_def out_of_range_def)
  have c: "stream_create t s = (Some (st_next s), ?s1)"
    using assms(7) by (intro create_stream_alloc assms(1)) auto
  have "stream_set_egress_header (Some (st_next s)) dmac smac vlan prio ?s1 = Some (0, ?s1\<lparr>st_next := st_next ?s1 + 6,
    st_streams := (st_streams ?s1)(st_next s \<mapsto> zero_stream t\<lparr>operations := map const_op
      [dmac, if smac = empty_mac then LOCAL_SMAC_CONST else smac, vlan_tag_bytes vlan prio]\<rparr>)\<rparr>)"
    using assms(1) by (intro egress_header_set assms(2,3,5,7)) simp_all
  then show ?thesis using v c by (simp add: create_egress_stream_def)
qed

text \<open>
  C16: A new time triggered stream starts with the header of its frames: three constants that hold
  the destination address, the source address (or the placeholder that stands for the address of
  the port when it is zero) and the VLAN tag with the TPID 0x8100, whose control information reads
  back as priority and identifier. No other stream changes.
\<close>

theorem time_triggered_header:
  assumes "\<And>n. env_alloc (st_env s) n" "length dmac = 6" "length smac = 6"
    "3 \<le> uint vlan" "uint vlan < 4095" "uint prio \<le> 7"
  shows "\<exists>p s' st tag. acm_create_time_triggered_stream dmac smac vlan prio s = Some (Some p, s') \<and>
    st_streams s' = (st_streams s)(p \<mapsto> st) \<and> stype st = TIME_TRIGGERED_STREAM \<and> stream_list st = None \<and>
    map opcode (operations st) = [INSERT_CONSTANT, INSERT_CONSTANT, INSERT_CONSTANT] \<and>
    map op_data (operations st) = [dmac, if smac = [0, 0, 0, 0, 0, 0] then LOCAL_SMAC_CONST else smac, tag] \<and>
    map (unat \<circ> op_length) (operations st) = [6, 6, 4] \<and>
    length tag = 4 \<and> tag ! 0 = 0x81 \<and> tag ! 1 = 0 \<and>
    uint (tag ! 2) * 256 + uint (tag ! 3) = uint prio * 8192 + uint vlan"
proof -
  let ?st = "zero_stream TIME_TRIGGERED_STREAM\<lparr>operations := map const_op
      [dmac, if smac = empty_mac then LOCAL_SMAC_CONST else smac, vlan_tag_bytes vlan prio]\<rparr>"
  let ?s' = "s\<lparr>st_next := st_next s + 7, st_streams := (st_streams s)(st_next s \<mapsto> ?st)\<rparr>"
  have c: "acm_create_time_triggered_stream dmac smac vlan prio s = Some (Some (st_next s), ?s')"
    unfolding acm_create_time_triggered_stream_def using assms(4-6) by (intro create_egress_ok assms(1-3)) simp_all
  have tag: "length (vlan_tag_bytes vlan prio) = 4" "vlan_tag_bytes vlan prio ! 0 = 0x81"
      "vlan_tag_bytes vlan prio ! 1 = 0"
    by (simp_all add: vlan_tag_bytes_def Let_def)
  have st: "stype ?st = TIME_TRIGGERED_STREAM" "stream_list ?st = None"
      "map opcode (operations ?st) = [INSERT_CONSTANT, INSERT_CONSTANT, INSERT_CONSTANT]"
      "map op_data (operations ?st) = [dmac, if smac = [0, 0, 0, 0, 0, 0] then LOCAL_SMAC_CONST else smac,
        vlan_tag_bytes vlan prio]"
      "map (unat \<circ> op_length) (operations ?st) = [6, 6, 4]"
    using assms(2,3) tag(1) by (simp_all add: zero_stream_def const_op_def empty_mac_def LOCAL_SMAC_CONST_def)
  have rb: "uint (vlan_tag_bytes vlan prio ! 2) * 256 + uint (vlan_tag_bytes vlan prio ! 3) =
      uint prio * 8192 + uint vlan"
    using assms(5,6) by (intro vlan_tag_reads_back) simp_all
  have ss: "st_streams ?s' = (st_streams s)(st_next s \<mapsto> ?st)" by simp
  show ?thesis by (intro exI conjI) (rule c ss st tag rb)+
qed

theorem time_triggered_header_witness:
  "\<exists>p s' st tag. acm_create_time_triggered_stream [1, 2, 3, 4, 5, 6] [0, 0, 0, 0, 0, 0] 100 5 ex_empty =
      Some (Some p, s') \<and> st_streams s' = (st_streams ex_empty)(p \<mapsto> st) \<and>
    map op_data (operations st) = [[1, 2, 3, 4, 5, 6], [0x73, 0x77, 0x30, 0x70, 0x32, 0x33], tag] \<and>
    uint (tag ! 2) * 256 + uint (tag ! 3) = 5 * 8192 + 100"
proof -
  have env: "env_alloc (st_env ex_empty) n" for n by (simp add: ex_empty_def ex_env_def)
  have l: "length [1, 2, 3, 4, 5, 6 :: u8] = 6" "length [0, 0, 0, 0, 0, 0 :: u8] = 6" by simp_all
  have v: "3 \<le> uint (100 :: u16)" "uint (100 :: u16) < 4095" "uint (5 :: u8) \<le> 7" by simp_all
  from time_triggered_header [OF env l v] obtain p s' st tag where
    r: "acm_create_time_triggered_stream [1, 2, 3, 4, 5, 6] [0, 0, 0, 0, 0, 0] 100 5 ex_empty = Some (Some p, s')"
      "st_streams s' = (st_streams ex_empty)(p \<mapsto> st)"
      "map op_data (operations st) = [[1, 2, 3, 4, 5, 6],
        if [0, 0, 0, 0, 0, 0 :: u8] = [0, 0, 0, 0, 0, 0] then LOCAL_SMAC_CONST else [0, 0, 0, 0, 0, 0], tag]"
      "uint (tag ! 2) * 256 + uint (tag ! 3) = uint (5 :: u8) * 8192 + uint (100 :: u16)"
    by (elim exE conjE)
  show ?thesis
    by (intro exI conjI, rule r(1), rule r(2)) (use r(3,4) in \<open>simp_all add: LOCAL_SMAC_CONST_def\<close>)
qed

section \<open>Reachable heaps\<close>

text \<open>A run of the library: a configuration and a time triggered stream are created.\<close>

definition ex_header :: "u8 list list" where
  "ex_header = [[1, 2, 3, 4, 5, 6], [1, 2, 3, 4, 5, 7], vlan_tag_bytes 100 5]"

definition ex_reached :: acm_state where
  "ex_reached = snd (acm_create (initial_state ex_env []))\<lparr>st_next := 8, st_streams :=
     [1 \<mapsto> zero_stream TIME_TRIGGERED_STREAM\<lparr>operations := map const_op ex_header\<rparr>]\<rparr>"

lemma ex_macs: "macs_ok ex_env"
  by (simp add: macs_ok_def ex_env_def)

lemma ex_call:
  "acm_create_time_triggered_stream [1, 2, 3, 4, 5, 6] [1, 2, 3, 4, 5, 7] 100 5 (snd (acm_create (initial_state ex_env [])))
    = Some (Some 1, ex_reached)"
proof -
  let ?s = "snd (acm_create (initial_state ex_env []))"
  have s: "st_env ?s = ex_env" "st_next ?s = 1" "st_streams ?s = (\<lambda>_. None)"
    by (simp_all add: acm_create_def config_create_def acm_zalloc_def initial_state_def ex_env_def)
  have "env_alloc (st_env ?s) n" for n unfolding s(1) by (simp add: ex_env_def)
  then have "create_egress_stream TIME_TRIGGERED_STREAM [1, 2, 3, 4, 5, 6] [1, 2, 3, 4, 5, 7] 100 5 ?s =
      Some (Some (st_next ?s), ?s\<lparr>st_next := st_next ?s + 7, st_streams := (st_streams ?s)(st_next ?s \<mapsto>
        zero_stream TIME_TRIGGERED_STREAM\<lparr>operations := map const_op [[1, 2, 3, 4, 5, 6],
          if [1, 2, 3, 4, 5, 7] = empty_mac then LOCAL_SMAC_CONST else [1, 2, 3, 4, 5, 7], vlan_tag_bytes 100 5]\<rparr>)\<rparr>)"
    by (intro create_egress_ok) simp_all
  then show ?thesis
    unfolding acm_create_time_triggered_stream_def s ex_reached_def by (simp add: ex_header_def empty_mac_def)
qed

lemma ex_reached: "reachable ex_env ex_reached"
proof (rule reachable.call [OF reachable.call [OF reachable.start]])
  show "api_call (initial_state ex_env []) (snd (acm_create (initial_state ex_env [])))"
    by (rule api_call.create_config [where rp = "fst (acm_create (initial_state ex_env []))"]) simp
  show "api_call (snd (acm_create (initial_state ex_env []))) ex_reached"
    by (rule api_call.time_triggered [OF ex_call])
qed

text \<open>
  C4: Every function of the interface refines the abstract heap machine: from a well-formed heap,
  with an environment that yields hardware addresses of at least six bytes, whatever a call does on
  its success and error branches is a sequence of elementary steps, and the heap it leaves is
  well-formed again.
\<close>

theorem calls_refine_heap_steps:
  assumes "api_call s s'" "heap_wf s" "macs_ok (st_env s)"
  shows "heap_steps s s' \<and> heap_wf s'"
  using api_call_steps [OF assms(1) heap_wfD(3) [OF assms(2)] assms(3)] heap_steps_wf assms(2) by blast

theorem calls_refine_heap_steps_witness:
  "heap_steps (snd (acm_create (initial_state ex_env []))) ex_reached \<and> heap_wf ex_reached"
proof (rule calls_refine_heap_steps)
  let ?s = "snd (acm_create (initial_state ex_env []))"
  show "api_call ?s ex_reached" by (rule api_call.time_triggered [OF ex_call])
  have "reachable ex_env ?s"
    by (rule reachable.call [OF reachable.start], rule api_call.create_config, rule prod.collapse [symmetric])
  then show "heap_wf ?s" "macs_ok (st_env ?s)" using reachable_inv ex_macs by auto
qed

text \<open>
  C8: Every heap the library can reach through its interface is well-formed: lists and back links of
  streams, modules and schedule entries agree and have no duplicates, the modules of a configuration
  exist, have the number of their slot and name the configuration, the commands of every module are
  sorted by their cycle, and no object is at an address that will be handed out again.
\<close>

theorem reachable_heaps_well_formed:
  assumes "reachable env s" "macs_ok env"
  shows "heap_wf s"
  using reachable_inv [OF assms] by blast

theorem reachable_heaps_well_formed_witness: "heap_wf ex_reached"
  by (rule reachable_heaps_well_formed [OF ex_reached ex_macs])

text \<open>
  C9: The type of operations is kept by every call: in a reachable heap each operation of a stream
  has the length and offset its kind admits and the data its kind needs, the data of constants has
  exactly the length of the operation, and named buffers have a name.
\<close>

theorem reachable_operations_typed:
  assumes "reachable env s" "macs_ok env" "st_streams s p = Some st" "op \<in> set (operations st)"
  shows "ownership_set op \<and> unat (op_length op) \<le> 1528 \<and> unat (data_size op) = length (op_data op) \<and>
    (case opcode op of
       INSERT \<Rightarrow> 3 \<le> unat (op_length op) \<and> unat (op_length op) \<le> 1500 \<and> (\<exists>n. buffer_name op = Some n \<and> n \<noteq> [] \<and> length n \<le> ACM_MAX_NAME_SIZE) \<and> op_data op = []
     | INSERT_CONSTANT \<Rightarrow> 1 \<le> unat (op_length op) \<and> unat (op_length op) \<le> 1500 \<and>
         length (op_data op) = unat (op_length op)
     | PAD \<Rightarrow> 1 \<le> unat (op_length op) \<and> unat (op_length op) \<le> 1500 \<and> length (op_data op) = 1
     | FORWARD \<Rightarrow> 2 \<le> unat (op_length op) \<and> unat (op_offset op) + unat (op_length op) \<le> 1528
     | READ \<Rightarrow> 4 \<le> unat (op_length op) \<and> unat (op_offset op) + unat (op_length op) \<le> 1528 \<and>
         (\<exists>n. buffer_name op = Some n \<and> n \<noteq> [] \<and> length n \<le> ACM_MAX_NAME_SIZE)
     | FORWARD_ALL \<Rightarrow> op_length op = 0
     | OPERATION_MAX \<Rightarrow> False)"
proof -
  have wf: "op_wf op \<and> ownership_set op"
    using reachable_inv [OF assms(1,2)] heap_wfD(4) contents_okD(1) [OF _ assms(3)] assms(4)
    by (auto simp: stream_ok_def)
  then show ?thesis
    using op_wf_length [of op] by (cases "opcode op") (auto simp: op_wf_defs split: option.split_asm)
qed

theorem reachable_operations_typed_witness:
  "\<exists>st. reachable ex_env ex_reached \<and> st_streams ex_reached 1 = Some st \<and> const_op [1, 2, 3, 4, 5, 6] \<in> set (operations st) \<and>
     unat (data_size (const_op [1, 2, 3, 4, 5, 6])) = length (op_data (const_op [1, 2, 3, 4, 5, 6]))"
proof -
  have "st_streams ex_reached 1 = Some (zero_stream TIME_TRIGGERED_STREAM\<lparr>operations := map const_op ex_header\<rparr>)"
    by (simp add: ex_reached_def)
  moreover have "const_op [1, 2, 3, 4, 5, 6] \<in> set (operations (zero_stream TIME_TRIGGERED_STREAM\<lparr>operations := map const_op ex_header\<rparr>))"
    by (simp add: zero_stream_def ex_header_def)
  ultimately show ?thesis using reachable_operations_typed [OF ex_reached ex_macs] ex_reached by blast
qed

section \<open>Destroying a configuration\<close>

text \<open>
  C7: Destroying a configuration always comes to its end and frees exactly what belongs to it: the
  modules of both slots, every stream in their lists, every schedule entry of these streams and the
  message buffers. All other objects stay as they are.
\<close>

theorem destroyed_config_frees_everything:
  assumes "reachable env s" "macs_ok env" "st_configs s cp = Some cfg"
  shows "\<exists>s'. acm_destroy (Some cp) s = Some s' \<and> st_configs s' = (st_configs s)(cp := None) \<and>
    (\<forall>mp. st_modules s' mp = (if Some mp \<in> {bypass cfg 0, bypass cfg 1} then None else st_modules s mp)) \<and>
    (\<forall>p st. st_streams s' p = Some st \<longleftrightarrow> st_streams s p = Some st \<and>
      (\<forall>mp. stream_list st = Some mp \<longrightarrow> Some mp \<notin> {bypass cfg 0, bypass cfg 1})) \<and>
    (\<forall>sp w. st_scheds s' sp = Some w \<longleftrightarrow> st_scheds s sp = Some w \<and>
      (\<forall>p st mp. schedule_list w = Some p \<longrightarrow> st_streams s p = Some st \<longrightarrow> stream_list st = Some mp \<longrightarrow>
        Some mp \<notin> {bypass cfg 0, bypass cfg 1})) \<and>
    (\<forall>b. st_bufs s' b = (if b \<in> set (msg_buffs cfg) then None else st_bufs s b))"
proof -
  have wf: "heap_wf s" using reachable_inv [OF assms(1,2)] by blast
  note links = heap_wfD(1,2) [OF wf]
  let ?s1 = "without_slot (bypass cfg 0) s"
  let ?s2 = "without_slot (bypass cfg 1) ?s1"
  let ?t = "?s2\<lparr>st_configs := st_configs s |` (- {cp}), st_bufs := st_bufs s |` (- set (msg_buffs cfg))\<rparr>"
  have linked: "streams_linked ?s1" "windows_linked ?s1"
    using without_module_linked [OF links] links by (simp_all add: without_slot_def split: option.split)
  note 1 = without_slot_facts [OF links] and 2 = without_slot_facts [OF linked]
  have d: "acm_destroy (Some cp) s = Some ?t"
    unfolding acm_destroy_def by (rule config_destroy_frees [OF wf assms(3)])
  have c: "st_configs ?t = (st_configs s)(cp := None)" by (simp add: restrict_None)
  have m: "\<forall>mp. st_modules ?t mp = (if Some mp \<in> {bypass cfg 0, bypass cfg 1} then None else st_modules s mp)"
    by (simp add: 1(1) 2(1))
  have p: "\<forall>p st. st_streams ?t p = Some st \<longleftrightarrow> st_streams s p = Some st \<and>
      (\<forall>mp. stream_list st = Some mp \<longrightarrow> Some mp \<notin> {bypass cfg 0, bypass cfg 1})"
    by (auto simp: 1(2) 2(2))
  have w: "\<forall>sp w. st_scheds ?t sp = Some w \<longleftrightarrow> st_scheds s sp = Some w \<and>
      (\<forall>p st mp. schedule_list w = Some p \<longrightarrow> st_streams s p = Some st \<longrightarrow> stream_list st = Some mp \<longrightarrow>
        Some mp \<notin> {bypass cfg 0, bypass cfg 1})"
    by (auto simp: 1(2,3) 2(3))
  have b: "\<forall>b. st_bufs ?t b = (if b \<in> set (msg_buffs cfg) then None else st_bufs s b)"
    by (simp add: restrict_map_def)
  show ?thesis by (intro exI [of _ ?t] conjI d c m p w b)
qed

theorem destroyed_config_frees_everything_witness:
  "\<exists>s'. acm_destroy (Some 0) ex_reached = Some s' \<and> st_configs s' 0 = None"
proof -
  have "\<exists>cfg. st_configs ex_reached 0 = Some cfg"
    by (simp add: ex_reached_def acm_create_def config_create_def acm_zalloc_def initial_state_def ex_env_def)
  then obtain cfg where "st_configs ex_reached 0 = Some cfg" ..
  from destroyed_config_frees_everything [OF ex_reached ex_macs this] show ?thesis by auto
qed

section \<open>Rejected modules\<close>

text \<open>
  C17: When the validation rejects a module, the slot of the configuration is empty again but the
  module still names the configuration. From then on the library can neither destroy the module nor
  add it to any configuration: its memory is lost.
\<close>

theorem rejected_module_stays_bound:
  assumes "acm_add_module (Some cp) (Some mp) s = Some (r, s')" "r \<noteq> 0"
    "st_configs s cp = Some cfg" "\<not> config_applied cfg" "bypass cfg (module_id m) = None"
    "st_modules s mp = Some m" "module_id m < ACM_MODULES_COUNT" "config_reference m = None"
  shows "(\<exists>cfg' m'. st_configs s' cp = Some cfg' \<and> bypass cfg' (module_id m) = None \<and>
      st_modules s' mp = Some m' \<and> config_reference m' = Some cp) \<and>
    acm_destroy_module (Some mp) s' = Some s' \<and>
    (\<forall>cp2 cfg2. st_configs s' cp2 = Some cfg2 \<longrightarrow>
      acm_add_module (Some cp2) (Some mp) s' = Some (- EINVAL, s'))"
proof -
  have checks: "config_add_checks cfg m = 0" using assms(4,5,7,8) by (simp add: config_add_checks_def)
  obtain s2 r3 s3 where v: "validate_config False cp s2 = Some (r3, s3)"
    and rest: "(if r3 \<noteq> 0 then do {
           s4 \<leftarrow> mod_config cp (\<lambda>c. c\<lparr>bypass := (bypass c)(module_id m := None)\<rparr>) s3;
           s5 \<leftarrow> mod_module mp (\<lambda>m. m\<lparr>config_reference := Some cp\<rparr>) s4;
           Some (r3, s5) }
         else Some (0, s3)) = Some (r, s')"
    using assms(1,3,6) checks by (auto simp: acm_add_module_def config_add_module_def bind_eq_Some_conv)
  then obtain s4 where 4: "mod_config cp (\<lambda>c. c\<lparr>bypass := (bypass c)(module_id m := None)\<rparr>) s3 = Some s4"
      "mod_module mp (\<lambda>m. m\<lparr>config_reference := Some cp\<rparr>) s4 = Some s'"
    using assms(2) by (auto simp: bind_eq_Some_conv split: if_split_asm)
  obtain c3 m4 where s': "st_configs s' cp = Some (c3\<lparr>bypass := (bypass c3)(module_id m := None)\<rparr>)"
      "st_modules s' mp = Some (m4\<lparr>config_reference := Some cp\<rparr>)"
    using 4 by (auto simp: mod_config_Some_iff mod_module_Some_iff)
  have "acm_destroy_module (Some mp) s' = Some s'" using s'(2) by (simp add: acm_destroy_module_def)
  moreover have "acm_add_module (Some cp2) (Some mp) s' = Some (- EINVAL, s')" if "st_configs s' cp2 = Some cfg2" for cp2 cfg2
    using that s'(2) by (simp add: acm_add_module_def config_add_module_def config_add_checks_def)
  ultimately show ?thesis using s' by auto
qed

text \<open>The device does not report the width of its message buffers.\<close>

definition ex_silent :: acm_state where
  "ex_silent = ex_empty\<lparr>st_env := ex_env\<lparr>env_text := \<lambda>_. None\<rparr>, st_next := 2,
     st_modules := [0 \<mapsto> ex_module\<lparr>mod_streams := [], fsc_list := [], config_reference := None\<rparr>],
     st_configs := [1 \<mapsto> \<lparr>bypass = (\<lambda>_. None), config_applied = False, msg_buffs = []\<rparr>]\<rparr>"

lemma ex_silent_rejects:
  "acm_add_module (Some 1) (Some 0) ex_silent = Some (- ENODEV, ex_silent\<lparr>
     st_modules := [0 \<mapsto> ex_module\<lparr>mod_streams := [], fsc_list := [], config_reference := Some 1\<rparr>]\<rparr>)"
proof -
  have g: "get_int32_status_value ACM_SYSFS_MSGBUF_DATAWIDTH s \<le> 0" if "env_text (st_env s) = (\<lambda>_. None)" for s
    using that by (simp add: get_int32_status_value_def read_uint64_sysfs_item_def sysfs_construct_path_name_def
        sysfs_name_defs)
  show ?thesis
    by (simp add: acm_add_module_def config_add_module_def config_add_checks_def validate_config_def
        recalculate_defs g ex_silent_def ex_empty_def ex_module_def mod_config_def mod_module_def)
qed

theorem rejected_module_stays_bound_witness:
  "\<exists>s'. acm_add_module (Some 1) (Some 0) ex_silent = Some (- ENODEV, s') \<and> acm_destroy_module (Some 0) s' = Some s'"
  using rejected_module_stays_bound [OF ex_silent_rejects, of
      "\<lparr>bypass = (\<lambda>_. None), config_applied = False, msg_buffs = []\<rparr>"
      "ex_module\<lparr>mod_streams := [], fsc_list := [], config_reference := None\<rparr>"] ex_silent_rejects
  by (simp add: ex_silent_def ex_module_def)

section \<open>Refused and failing calls\<close>

text \<open>
  C12: For a stream in a module of a configuration that was applied the following calls are refused
  with an error or have no effect, and they change nothing at all: the six functions that add an
  operation, the setting of the recovery timeout, the setting of a reference of the stream,
  cleaning its operations, destroying the stream, destroying its module, adding a stream to the
  module, adding a module to the configuration, and adding the module to any other configuration.
  The schedule is not protected, as the interface documents it: setting the schedule of the module
  succeeds for a cycle time other than 0 and changes only the cycle time and the start time. (The
  entries of the schedule, a reference to the stream from a stream outside of the configuration, and
  destroying the configuration itself are not refused either.)
\<close>

theorem applied_configuration_protected:
  assumes "st_streams s p = Some st" "stream_list st = Some mp" "st_modules s mp = Some m"
    "config_reference m = Some cp" "st_configs s cp = Some cfg" "config_applied cfg"
  shows "acm_add_stream_operation_insert (Some p) len n s = Some (- EPERM, s) \<and>
    acm_add_stream_operation_insertconstant (Some p) content sz s = Some (- EPERM, s) \<and>
    acm_add_stream_operation_pad (Some p) len val s = Some (- EPERM, s) \<and>
    acm_add_stream_operation_forward (Some p) off len s = Some (- EPERM, s) \<and>
    acm_add_stream_operation_read (Some p) off len n s = Some (- EPERM, s) \<and>
    acm_add_stream_operation_forwardall (Some p) s = Some (- EPERM, s) \<and>
    acm_set_rtag_stream (Some p) timeout s = Some (- EPERM, s) \<and>
    (\<forall>q rf. st_streams s q = Some rf \<longrightarrow>
      acm_set_reference_stream (Some p) (Some q) s \<in> {Some (- EPERM, s), Some (- EINVAL, s)}) \<and>
    acm_clean_operations (Some p) s = Some s \<and> acm_destroy_stream (Some p) s = Some s \<and>
    acm_destroy_module (Some mp) s = Some s \<and>
    acm_add_module_stream (Some mp) (Some q) s = Some (- EPERM, s) \<and>
    (\<forall>mp2 m2. st_modules s mp2 = Some m2 \<longrightarrow> acm_add_module (Some cp) (Some mp2) s = Some (- EINVAL, s)) \<and>
    (\<forall>cp2 cfg2. st_configs s cp2 = Some cfg2 \<longrightarrow> acm_add_module (Some cp2) (Some mp) s = Some (- EINVAL, s)) \<and>
    acm_set_module_schedule (Some mp) cycle start s = (if cycle = 0 then Some (- EINVAL, s)
      else Some (0, s\<lparr>st_modules := (st_modules s)(mp \<mapsto> m\<lparr>cycle_ns := cycle, start_time := start\<rparr>)\<rparr>))"
proof -
  have ap: "stream_config_applied (Some p) s = Some True" "module_config_applied m s = Some True"
    using assms by (simp_all add: stream_config_applied_def module_config_applied_def)
  have ref: "acm_set_reference_stream (Some p) (Some q) s \<in> {Some (- EPERM, s), Some (- EINVAL, s)}"
    if "st_streams s q = Some rf" for q rf
    using assms(1) that ap(1)
    by (simp add: acm_set_reference_stream_def stream_set_reference_def reference_checks_def)
  have add: "acm_add_module (Some cp) (Some mp2) s = Some (- EINVAL, s)" if "st_modules s mp2 = Some m2" for mp2 m2
    using assms(5,6) that by (simp add: acm_add_module_def config_add_module_def config_add_checks_def)
  have other: "acm_add_module (Some cp2) (Some mp) s = Some (- EINVAL, s)" if "st_configs s cp2 = Some cfg2" for cp2 cfg2
    using assms(3,4) that by (simp add: acm_add_module_def config_add_module_def config_add_checks_def)
  have sched: "acm_set_module_schedule (Some mp) cycle start s = (if cycle = 0 then Some (- EINVAL, s)
      else Some (0, s\<lparr>st_modules := (st_modules s)(mp \<mapsto> m\<lparr>cycle_ns := cycle, start_time := start\<rparr>)\<rparr>))"
    using assms(3) by (simp add: acm_set_module_schedule_def module_set_schedule_def mod_module_def)
  have del: "acm_destroy_stream (Some p) s = Some s"
    using assms(1,2) by (simp add: acm_destroy_stream_def stream_delete.simps)
  show ?thesis
    using assms(3,4) ap del
    by (simp add: acm_add_stream_operation_insert_def acm_add_stream_operation_insertconstant_def
        acm_add_stream_operation_pad_def acm_add_stream_operation_forward_def acm_add_stream_operation_read_def
        acm_add_stream_operation_forwardall_def unless_applied_def acm_set_rtag_stream_def
        stream_set_indiv_recov_def acm_clean_operations_def acm_destroy_module_def acm_add_module_stream_def)
      (use ref add other sched in auto)
qed

definition ex_applied :: acm_state where
  "ex_applied = ex_state\<lparr>st_configs := [3 \<mapsto> \<lparr>bypass = (\<lambda>i. if i = 0 then Some 0 else None), config_applied = True,
     msg_buffs = []\<rparr>]\<rparr>"

theorem applied_configuration_protected_witness:
  "acm_add_stream_operation_insert (Some 1) 64 (Some ''acm_tx'') ex_applied = Some (- EPERM, ex_applied) \<and>
   acm_clean_operations (Some 1) ex_applied = Some ex_applied \<and>
   acm_add_module (Some 3) (Some 0) ex_applied = Some (- EINVAL, ex_applied)"
proof -
  have "st_streams ex_applied 1 = Some ex_stream" "stream_list ex_stream = Some 0"
      "st_modules ex_applied 0 = Some ex_module" "config_reference ex_module = Some 3"
    by (simp_all add: ex_applied_def ex_state_def ex_stream_def ex_module_def)
  note facts = this
  have cfg: "st_configs ex_applied 3 = Some \<lparr>bypass = (\<lambda>i. if i = 0 then Some 0 else None), config_applied = True, msg_buffs = []\<rparr>"
    by (simp add: ex_applied_def)
  show ?thesis using applied_configuration_protected [OF facts cfg] cfg by simp
qed

lemma ops_like_append:
  "list_all2 op_like (ops @ [op]) ops' \<Longrightarrow> list_all2 op_like ops (operation_list_remove_operation ops' (length ops))"
  by (auto simp: list_all2_append1 operation_list_remove_operation_def dest: list_all2_lengthD)

text \<open>Adding an operation: nothing but quiet changes when it fails, one more operation when it succeeds.\<close>

definition one_more :: "addr \<Rightarrow> operation \<Rightarrow> acm_state \<Rightarrow> acm_state \<Rightarrow> bool" where
  "one_more p op s s' = (\<exists>st. st_streams s p = Some st \<and>
     quiet (s\<lparr>st_streams := (st_streams s)(p \<mapsto> st\<lparr>operations := operations st @ [op]\<rparr>)\<rparr>) s')"

lemma list_add_outcome:
  assumes "operation_list_add_operation p (Some op) s = Some (r, s')"
  shows "if r = 0 then one_more p (op\<lparr>ownership_set := True\<rparr>) s s' else quiet s s'"
proof (cases "ownership_set op")
  case True
  then show ?thesis using assms by (simp add: operation_list_add_operation_def split: if_split_asm)
next
  case False
  let ?op = "op\<lparr>ownership_set := True\<rparr>"
  obtain st s1 r2 s2 where st: "st_streams s p = Some st" and a: "append_operation p op s = Some s1"
    and v: "validate_stream False p s1 = Some (r2, s2)"
    and rest: "(if r2 \<noteq> 0 then do {
           s3 \<leftarrow> remove_operation_at p (length (operations st)) s2;
           Some (r2, s3) }
         else Some (0, s2)) = Some (r, s')"
    using assms False by (auto simp: operation_list_add_operation_def bind_eq_Some_conv)
  have s1: "s1 = s\<lparr>st_streams := (st_streams s)(p \<mapsto> st\<lparr>operations := operations st @ [?op]\<rparr>)\<rparr>"
    using a st by (simp add: append_operation_def mod_stream_def)
  have q: "quiet s1 s2" using v by (rule quiets)
  show ?thesis
  proof (cases "r2 = 0")
    case True
    then have "one_more p ?op s s'" unfolding one_more_def using st q rest s1 by auto
    with True rest show ?thesis by simp
  next
    case False
    then have rm: "remove_operation_at p (length (operations st)) s2 = Some s'" "r = r2"
      using rest by (auto simp: bind_eq_Some_conv)
    have at1: "st_streams s1 p = Some (st\<lparr>operations := operations st @ [?op]\<rparr>)" by (simp add: s1)
    obtain x where x: "st_streams s2 p = Some x" "stream_like (st\<lparr>operations := operations st @ [?op]\<rparr>) x"
      using quiet_stream_cases [OF q at1] .
    have s': "s' = s2\<lparr>st_streams := (st_streams s2)(p \<mapsto>
        x\<lparr>operations := operation_list_remove_operation (operations x) (length (operations st))\<rparr>)\<rparr>"
      using rm(1) x(1) by (simp add: remove_operation_at_def mod_stream_def)
    have "stream_like st (x\<lparr>operations := operation_list_remove_operation (operations x) (length (operations st))\<rparr>)"
      using x(2) ops_like_append [of "operations st" ?op "operations x"] by (simp add: stream_like_def)
    moreover have "rel_option stream_like (st_streams s q') (st_streams s2 q')" if "q' \<noteq> p" for q'
    proof -
      have "rel_option stream_like (st_streams s1 q') (st_streams s2 q')" using q by (simp add: quiet_def)
      then show ?thesis using that by (simp add: s1)
    qed
    ultimately have "quiet s s'" using q st by (auto simp: quiet_def s' s1)
    with False rm(2) show ?thesis by simp
  qed
qed

lemma add_created_outcome:
  assumes "add_created_operation calc (Some p) (Some op) s = Some (r, s')"
    "\<And>ps a b. calc ps a = Some b \<Longrightarrow> quiet a b"
  shows "if r = 0 then one_more p (op\<lparr>ownership_set := True\<rparr>) s s' else quiet s s'"
proof -
  obtain r1 s1 where 1: "stream_add_operation (Some p) (Some op) s = Some (r1, s1)"
    and rest: "(if r1 \<noteq> 0 then Some (r1, s1) else do { s2 \<leftarrow> refresh_indizes calc p s1; Some (0, s2) }) = Some (r, s')"
    using assms(1) by (auto simp: add_created_operation_def bind_eq_Some_conv [of "stream_add_operation _ _ _"] cong: if_cong)
  have out: "if r1 = 0 then one_more p (op\<lparr>ownership_set := True\<rparr>) s s1 else quiet s s1"
    using 1 list_add_outcome by (auto simp: stream_add_operation_def bind_eq_Some_conv split: if_split_asm)
  show ?thesis
  proof (cases "r1 = 0")
    case True
    then obtain s2 where "refresh_indizes calc p s1 = Some s'" "r = 0" using rest by (auto simp: bind_eq_Some_conv)
    then have "quiet s1 s'" using quiet_refresh_indizes assms(2) by blast
    then have "one_more p (op\<lparr>ownership_set := True\<rparr>) s s'"
      using out True unfolding one_more_def by (auto intro: quiet_trans)
    then show ?thesis using \<open>r = 0\<close> by simp
  next
    case False
    then show ?thesis using out rest by simp
  qed
qed

lemma one_more_quiet:
  assumes "quiet s a" "st_streams a = st_streams s" "one_more p op a s'"
  shows "one_more p op s s'"
proof -
  obtain st where st: "st_streams s p = Some st"
      "quiet (a\<lparr>st_streams := (st_streams s)(p \<mapsto> st\<lparr>operations := operations st @ [op]\<rparr>)\<rparr>) s'"
    using assms(2,3) unfolding one_more_def by auto
  have "quiet (s\<lparr>st_streams := f\<rparr>) (a\<lparr>st_streams := f\<rparr>)" for f
    using assms(1) by (simp add: quiet_def rel_option_refl_on)
  then show ?thesis using st quiet_trans unfolding one_more_def by blast
qed

definition all_or_nothing :: "addr \<Rightarrow> acm_state \<Rightarrow> int \<times> acm_state \<Rightarrow> bool" where
  "all_or_nothing p s res = (case res of (r, s') \<Rightarrow>
     if r = 0 then \<exists>op. op_wf op \<and> ownership_set op \<and> one_more p op s s' else quiet s s')"

lemma created_all_or_nothing:
  assumes "quiet s a" "st_streams a = st_streams s" "op_or_null opp"
    "add_created_operation calc (Some p) opp a = Some res" "\<And>ps a b. calc ps a = Some b \<Longrightarrow> quiet a b"
  shows "all_or_nothing p s res"
proof (cases opp)
  case None
  then show ?thesis using assms(1,4) by (auto simp: add_created_operation_def all_or_nothing_def)
next
  case (Some op)
  obtain r s' where res: "res = (r, s')" by fastforce
  have "if r = 0 then one_more p (op\<lparr>ownership_set := True\<rparr>) a s' else quiet a s'"
    by (rule add_created_outcome [OF _ assms(5)]) (use assms(4) Some res in auto)
  then have out: "if r = 0 then one_more p (op\<lparr>ownership_set := True\<rparr>) s s' else quiet s s'"
    using one_more_quiet [OF assms(1,2)] quiet_trans [OF assms(1)] by (simp split: if_split_asm)
  have "op_wf (op\<lparr>ownership_set := True\<rparr>) \<and> ownership_set (op\<lparr>ownership_set := True\<rparr>)"
    using assms(3) Some by (simp add: op_or_null_def)
  then have "\<exists>op. op_wf op \<and> ownership_set op \<and> one_more p op s s'" if "r = 0" using out that by metis
  then show ?thesis unfolding res all_or_nothing_def using out by simp
qed

text \<open>Creating an operation allocates memory and does nothing else.\<close>

lemma zalloc_then_streams:
  assumes "zalloc_then f s = (r, s')" "\<And>p a q b. f p a = (q, b) \<Longrightarrow> st_streams b = st_streams a"
  shows "st_streams s' = st_streams s"
  using assms by (auto simp: zalloc_then_def acm_zalloc_def split: if_split_asm)

lemma create_streams:
  "operation_create_insert len n s = Some (r, s') \<Longrightarrow> st_streams s' = st_streams s"
  "operation_create_read off len n s = Some (r, s') \<Longrightarrow> st_streams s' = st_streams s"
  "operation_create_insertconstant d sz s = Some (r, s') \<Longrightarrow> st_streams s' = st_streams s"
  "operation_create_pad len v s = (r, s') \<Longrightarrow> st_streams s' = st_streams s"
  "operation_create_forward off len s = (r, s') \<Longrightarrow> st_streams s' = st_streams s"
  "operation_create_forwardall s = (r, s') \<Longrightarrow> st_streams s' = st_streams s"
  by (auto simp: operation_create_insert_def operation_create_read_def operation_create_insertconstant_def
      operation_create_pad_def operation_create_forward_def operation_create_forwardall_def bind_eq_Some_conv
      split: option.split_asm if_split_asm prod.split_asm elim!: zalloc_then_streams)

lemma unless_all_or_nothing:
  assumes "unless_applied (Some p) f s = Some res" "f s = Some res \<Longrightarrow> all_or_nothing p s res"
  shows "all_or_nothing p s res"
  using assms by (auto simp: unless_applied_def bind_eq_Some_conv all_or_nothing_def split: if_split_asm)

lemmas add_operation_defs = acm_add_stream_operation_insert_def acm_add_stream_operation_insertconstant_def
  acm_add_stream_operation_pad_def acm_add_stream_operation_forward_def acm_add_stream_operation_read_def
  acm_add_stream_operation_forwardall_def

text \<open>What the constructors do, and the six functions.\<close>

definition constructed :: "acm_state \<Rightarrow> operation option \<Rightarrow> acm_state \<Rightarrow> bool" where
  "constructed s opp a = (quiet s a \<and> st_streams a = st_streams s \<and> op_or_null opp)"

lemma constructors:
  "operation_create_insert len n s = Some (opp, a) \<Longrightarrow> constructed s opp a"
  "operation_create_read off len n s = Some (opp, a) \<Longrightarrow> constructed s opp a"
  "operation_create_insertconstant d sz s = Some (opp, a) \<Longrightarrow> constructed s opp a"
  "operation_create_pad len v s = (opp, a) \<Longrightarrow> constructed s opp a"
  "operation_create_forward off len s = (opp, a) \<Longrightarrow> constructed s opp a"
  "operation_create_forwardall s = (opp, a) \<Longrightarrow> constructed s opp a"
  unfolding constructed_def op_or_null_def
  by (auto dest: create_streams insert_wf quiet_create_insert insertconstant_wf quiet_create_constant pad_wf
      quiet_create_pad forward_wf quiet_create_forward read_wf quiet_create_read forwardall_wf
      quiet_create_forwardall)

lemma constructed_all_or_nothing:
  assumes "constructed s opp a" "add_created_operation calc (Some p) opp a = Some res"
    "calc = calculate_gather_indizes \<or> calc = calculate_scatter_indizes"
  shows "all_or_nothing p s res"
proof -
  have "quiet x y" if "calc ps x = Some y" for ps x y using assms(3) that by (auto intro: quiets)
  then show ?thesis using assms(1,2) created_all_or_nothing unfolding constructed_def by blast
qed

lemma bind_all_or_nothing:
  assumes "do { (op, s1) \<leftarrow> create s; add_created_operation calc (Some p) op s1 } = Some res"
    "\<And>opp a. create s = Some (opp, a) \<Longrightarrow> constructed s opp a"
    "calc = calculate_gather_indizes \<or> calc = calculate_scatter_indizes"
  shows "all_or_nothing p s res"
proof -
  obtain opp a where c: "create s = Some (opp, a)" "add_created_operation calc (Some p) opp a = Some res"
    using assms(1) by (auto simp: bind_eq_Some_conv [of "create s"])
  show ?thesis by (rule constructed_all_or_nothing [OF assms(2) [OF c(1)] c(2) assms(3)])
qed

lemma let_all_or_nothing:
  assumes "(let (op, s1) = create s in add_created_operation calc (Some p) op s1) = Some res"
    "\<And>opp a. create s = (opp, a) \<Longrightarrow> constructed s opp a"
    "calc = calculate_gather_indizes \<or> calc = calculate_scatter_indizes"
  shows "all_or_nothing p s res"
proof -
  obtain opp a where c: "create s = (opp, a)" by fastforce
  then have "add_created_operation calc (Some p) opp a = Some res" using assms(1) by simp
  then show ?thesis by (rule constructed_all_or_nothing [OF assms(2) [OF c] _ assms(3)])
qed

lemma add_operation_outcomes:
  "acm_add_stream_operation_insert (Some p) len n s = Some res \<Longrightarrow> all_or_nothing p s res"
  "acm_add_stream_operation_insertconstant (Some p) content sz s = Some res \<Longrightarrow> all_or_nothing p s res"
  "acm_add_stream_operation_pad (Some p) len v s = Some res \<Longrightarrow> all_or_nothing p s res"
  "acm_add_stream_operation_forward (Some p) off len s = Some res \<Longrightarrow> all_or_nothing p s res"
  "acm_add_stream_operation_read (Some p) off len n s = Some res \<Longrightarrow> all_or_nothing p s res"
  "acm_add_stream_operation_forwardall (Some p) s = Some res \<Longrightarrow> all_or_nothing p s res"
  unfolding add_operation_defs
  by (erule unless_all_or_nothing, erule bind_all_or_nothing let_all_or_nothing, erule constructors, simp)+

text \<open>
  C10: Adding an operation is all or nothing. When one of the six functions returns zero, its stream has
  exactly one more operation than before, at the end of its list, and this operation is well-typed;
  when it returns an error, on any of its branches (no memory, not admitted for the type of stream,
  rejected by the validation of the stream, the module or the configuration), every object of the
  heap has the structure it had before.
\<close>

theorem add_operation_all_or_nothing:
  assumes "Some res \<in> {acm_add_stream_operation_insert (Some p) len n s,
    acm_add_stream_operation_insertconstant (Some p) content sz s,
    acm_add_stream_operation_pad (Some p) len v s, acm_add_stream_operation_forward (Some p) off len s,
    acm_add_stream_operation_read (Some p) off len n s, acm_add_stream_operation_forwardall (Some p) s}"
  shows "all_or_nothing p s res"
  using assms
proof (elim insertE emptyE)
qed (erule add_operation_outcomes [OF sym])+

lemma ex_pad_added: "\<exists>s'. acm_add_stream_operation_pad (Some 1) 46 0 ex_reached = Some (0, s')"
proof -
  let ?st = "zero_stream TIME_TRIGGERED_STREAM\<lparr>operations := map const_op ex_header\<rparr>"
  let ?op = "zero_operation\<lparr>opcode := PAD, op_length := 46, op_data := [0], data_size := 1\<rparr>"
  have s: "st_streams ex_reached 1 = Some ?st" "env_alloc (st_env ex_reached) n" for n
    by (simp_all add: ex_reached_def acm_create_def config_create_def acm_zalloc_def initial_state_def ex_env_def)
  have st: "stream_list ?st = None" "\<not> is_redundant ?st" "stype ?st = TIME_TRIGGERED_STREAM"
    by (simp_all add: zero_stream_def is_redundant_def)
  have ops: "operations ?st = map const_op ex_header" by simp
  have pay: "check_stream_payload (map const_op ex_header @ [?op\<lparr>ownership_set := True\<rparr>]) = 0"
    by (simp add: ex_header_def const_op_def check_stream_payload_def zero_operation_def vlan_tag_bytes_def Let_def)
  have ins: "stream_num_operations_x (?st\<lparr>operations := map const_op ex_header @ [?op\<lparr>ownership_set := True\<rparr>]\<rparr>) INSERT = 0"
    by (simp add: ex_header_def const_op_def stream_num_operations_x_def zero_operation_def)
  obtain s1 where c: "operation_create_pad 46 0 ex_reached = (Some ?op, s1)" "st_streams s1 = st_streams ex_reached"
    using s(2) by (simp add: operation_create_pad_def zalloc_then_def acm_zalloc_def)
  have "\<exists>s2. stream_add_operation (Some 1) (Some ?op) s1 = Some (0, s2) \<and>
      (\<exists>x. st_streams s2 1 = Some x \<and> stream_list x = None)"
    using s(1) c(2) st pay ins ops
    by (subst add_operation_outside [where st = ?st]) (auto simp: operation_admissible_def zero_operation_def)
  then show ?thesis
    using s(1) st(1) c(1) by (auto simp: acm_add_stream_operation_pad_def unless_applied_def stream_config_applied_def
        add_created_operation_def refresh_indizes_def)
qed

theorem add_operation_all_or_nothing_witness:
  "\<exists>s' op. acm_add_stream_operation_pad (Some 1) 46 0 ex_reached = Some (0, s') \<and> op_wf op \<and>
    one_more 1 op ex_reached s'"
proof -
  obtain s' where s': "acm_add_stream_operation_pad (Some 1) 46 0 ex_reached = Some (0, s')"
    using ex_pad_added by blast
  have "all_or_nothing 1 ex_reached (0, s')"
    by (rule add_operation_all_or_nothing [where len = 46 and v = 0 and n = None and content = "[]" and sz = 0
        and off = 0]) (use s' in simp)
  then show ?thesis using s' by (auto simp: all_or_nothing_def)
qed
end
