(* ===== verification/Acm_Text.thy ===== *)
theory Acm_Text
  imports Acm_Configfile
begin

text \<open>
  Numbers as text and as bytes: the conversions of \<^verbatim>\<open>printf\<close> that library and driver use, with the
  proof that \<^verbatim>\<open>strtoull\<close> reads them back, and little endian buffers.
\<close>

section \<open>Formatted numbers\<close>

definition digit_char :: "nat \<Rightarrow> char" where
  "digit_char n = (if n < 10 then char_of (48 + n) else char_of (87 + n))"

definition upper_digit_char :: "nat \<Rightarrow> char" where
  "upper_digit_char n = (if n < 10 then char_of (48 + n) else char_of (55 + n))"

function print_digits :: "(nat \<Rightarrow> char) \<Rightarrow> nat \<Rightarrow> nat \<Rightarrow> string" where
  "print_digits dig b n = (if n < b \<or> b < 2 then [dig n] else print_digits dig b (n div b) @ [dig (n mod b)])"
  by pat_completeness auto

termination
  by (relation "measure (\<lambda>(dig, b, n). n)") auto

declare print_digits.simps [simp del]

text \<open>\<^verbatim>\<open>%u\<close>, \<^verbatim>\<open>%x\<close>, \<^verbatim>\<open>%X\<close> without width and flags.\<close>

definition print_dec :: "nat \<Rightarrow> string" where
  "print_dec n = print_digits digit_char 10 n"

definition print_hex :: "nat \<Rightarrow> string" where
  "print_hex n = print_digits digit_char 16 n"

definition print_HEX :: "nat \<Rightarrow> string" where
  "print_HEX n = print_digits upper_digit_char 16 n"

section \<open>Reading printed numbers\<close>

definition digits_of_base :: "(nat \<Rightarrow> char) \<Rightarrow> nat \<Rightarrow> bool" where
  "digits_of_base dig b = (2 \<le> b \<and> (\<forall>d<b. c_digit (dig d) = Some d))"

lemma digits_of_base_chars: "digits_of_base digit_char 10" "digits_of_base upper_digit_char 16"
  by (auto simp: digits_of_base_def digit_char_def upper_digit_char_def c_digit_def)

lemma print_digits_digits:
  assumes "digits_of_base dig b" shows "\<forall>c\<in>set (print_digits dig b n). is_digit_of b c"
proof (induction n rule: less_induct)
  case (less n)
  have "is_digit_of b (dig (n mod b))"
    using assms by (simp add: digits_of_base_def is_digit_of_def)
  moreover have "is_digit_of b (dig n)" if "n < b"
    using assms that by (simp add: digits_of_base_def is_digit_of_def)
  moreover have "\<forall>c\<in>set (print_digits dig b (n div b)). is_digit_of b c" if "\<not> n < b"
    using assms that by (intro less div_less_dividend) (auto simp: digits_of_base_def)
  ultimately show ?case
    using assms by (subst print_digits.simps) (auto simp: digits_of_base_def)
qed

lemma print_digits_value:
  assumes "digits_of_base dig b" shows "digits_value b (print_digits dig b n) = int n"
proof (induction n rule: less_induct)
  case (less n)
  have step: "digits_value b (ds @ [c]) = digits_value b ds * int b + (case c_digit c of None \<Rightarrow> 0 | Some d \<Rightarrow> int d)" for ds c
    by (simp add: digits_value_def)
  show ?case
  proof (cases "n < b")
    case True
    then show ?thesis
      using assms by (subst print_digits.simps) (simp add: digits_of_base_def digits_value_def)
  next
    case False
    have "digits_value b (print_digits dig b (n div b)) = int (n div b)"
      using assms False by (intro less div_less_dividend) (auto simp: digits_of_base_def)
    moreover have "c_digit (dig (n mod b)) = Some (n mod b)"
      using assms by (simp add: digits_of_base_def)
    moreover have "int (n div b) * int b + int (n mod b) = int n"
      by (simp only: flip: of_nat_mult of_nat_add) simp
    ultimately show ?thesis
      using assms False by (subst print_digits.simps) (simp add: digits_of_base_def step)
  qed
qed

lemma print_digits_hd:
  assumes "digits_of_base dig b" "0 < n" shows "\<exists>d ds. print_digits dig b n = dig d # ds \<and> 0 < d \<and> d < b"
  using assms(2)
proof (induction n rule: less_induct)
  case (less n)
  show ?case
  proof (cases "n < b")
    case False
    have "n div b < n" "0 < n div b"
      using False less.prems assms by (auto simp: digits_of_base_def div_greater_zero_iff intro!: div_less_dividend)
    then obtain d ds where "print_digits dig b (n div b) = dig d # ds" "0 < d" "d < b"
      using less.IH by blast
    then show ?thesis using False assms by (subst print_digits.simps) (auto simp: digits_of_base_def)
  qed (use less assms in \<open>subst print_digits.simps, auto simp: digits_of_base_def\<close>)
qed

lemma print_digits_not_Nil [simp]: "print_digits dig b n \<noteq> []"
  by (subst print_digits.simps) simp

text \<open>What follows a number must not continue it.\<close>

definition ends_number :: "nat \<Rightarrow> string \<Rightarrow> bool" where
  "ends_number b str = (case str of [] \<Rightarrow> True | c # _ \<Rightarrow> \<not> is_digit_of b c)"

lemma strtoul_printed:
  assumes "digits_of_base dig b" "n < 2 ^ 64" "ends_number b str"
  shows "c_strtoul_digits b False (print_digits dig b n @ str) = (word_of_nat n, True, False)"
proof -
  have "takeWhile (is_digit_of b) (print_digits dig b n @ str) = print_digits dig b n"
    using print_digits_digits [OF assms(1), of n] assms(3)
    by (cases str) (simp_all add: ends_number_def takeWhile_append2)
  moreover have "int n < 2 ^ 64"
  proof -
    have "int n < int (2 ^ 64)" using assms(2) by (simp only: of_nat_less_iff)
    then show ?thesis by simp
  qed
  ultimately show ?thesis
    by (simp add: c_strtoul_digits_def print_digits_value [OF assms(1)])
qed

lemma strtoull_hex:
  assumes "n < 2 ^ 64" "ends_number 16 str" "x = CHR ''x'' \<or> x = CHR ''X''"
  shows "c_strtoull0 (CHR ''0'' # x # print_HEX n @ str) = (word_of_nat n, True, False)"
proof -
  obtain d ds where d: "print_HEX n = d # ds" "is_digit_of 16 d"
    using print_digits_digits [OF digits_of_base_chars(2), of n] by (cases "print_HEX n") (auto simp: print_HEX_def)
  have "c_strtoull0 (CHR ''0'' # x # print_HEX n @ str) = c_strtoul_digits 16 False (print_HEX n @ str)"
    using d assms(3) by (auto simp: c_strtoull0_def c_sign_def is_c_space_def)
  then show ?thesis
    using strtoul_printed [OF digits_of_base_chars(2) assms(1,2)] by (simp add: print_HEX_def)
qed

lemma strtoull_base10:
  assumes "c \<noteq> CHR ''0''" "c \<noteq> CHR ''-''" "c \<noteq> CHR ''+''" "\<not> is_c_space c"
  shows "c_strtoull0 (c # ds) = c_strtoul_digits 10 False (c # ds)"
  using assms by (simp add: c_strtoull0_def c_sign_def split: list.splits)

lemma digit_chars_facts:
  assumes "0 < d" "d < 10"
  shows "digit_char d \<noteq> CHR ''0''" "digit_char d \<noteq> CHR ''-''" "digit_char d \<noteq> CHR ''+''" "\<not> is_c_space (digit_char d)"
proof -
  have d: "of_char (digit_char d) = 48 + d" using assms by (simp add: digit_char_def)
  have "digit_char d \<noteq> c" if "of_char c < (49::nat)" for c using d assms that by auto
  from this [of "CHR ''0''"] this [of "CHR ''-''"] this [of "CHR ''+''"]
  show "digit_char d \<noteq> CHR ''0''" "digit_char d \<noteq> CHR ''-''" "digit_char d \<noteq> CHR ''+''" by simp_all
  show "\<not> is_c_space (digit_char d)" using d assms by (simp add: is_c_space_def)
qed

text \<open>The new line that ends the text of an attribute.\<close>

abbreviation newline :: char where
  "newline \<equiv> char_of (10::nat)"

lemma strtoull_dec:
  assumes "n < 2 ^ 64" "str = [] \<or> str = [newline]"
  shows "c_strtoull0 (print_dec n @ str) = (word_of_nat n, True, False)"
proof (cases "n = 0")
  case True
  have "char_of (48::nat) = CHR ''0''" by (rule iffD1 [OF of_char_eq_iff [where ?'a = nat]]) simp
  then have "print_dec 0 = ''0''" by (simp add: print_dec_def print_digits.simps digit_char_def)
  with assms True show ?thesis
    by (auto simp: c_strtoull0_def c_sign_def is_c_space_def c_strtoul_digits_def is_digit_of_def c_digit_def digits_value_def)
next
  case False
  obtain d ds where d: "print_dec n = digit_char d # ds" "0 < d" "d < 10"
    using print_digits_hd [OF digits_of_base_chars(1), of n] False by (auto simp: print_dec_def)
  have "c_strtoull0 (print_dec n @ str) = c_strtoul_digits 10 False (print_dec n @ str)"
    using strtoull_base10 [OF digit_chars_facts [OF d(2,3)]] by (simp add: d(1))
  moreover have "ends_number 10 str"
    using assms(2) by (auto simp: ends_number_def is_digit_of_def c_digit_def)
  ultimately show ?thesis
    using strtoul_printed [OF digits_of_base_chars(1) assms(1)] by (simp add: print_dec_def)
qed

section \<open>Little endian buffers\<close>

fun le_val :: "u8 list \<Rightarrow> nat" where
  "le_val [] = 0"
| "le_val (b # bs) = unat b + 256 * le_val bs"

fun to_le :: "nat \<Rightarrow> nat \<Rightarrow> u8 list" where
  "to_le 0 v = []"
| "to_le (Suc n) v = word_of_nat v # to_le n (v div 256)"

text \<open>\<^verbatim>\<open>get_unaligned\<close> from the head of a buffer, and the bytes \<^verbatim>\<open>put_unaligned\<close> stores.\<close>

definition get_u16 :: "u8 list \<Rightarrow> u16" where
  "get_u16 bs = word_of_nat (le_val (take 2 bs))"

definition get_u32 :: "u8 list \<Rightarrow> u32" where
  "get_u32 bs = word_of_nat (le_val (take 4 bs))"

definition put_u16 :: "u16 \<Rightarrow> u8 list" where
  "put_u16 v = to_le 2 (unat v)"

definition put_u32 :: "u32 \<Rightarrow> u8 list" where
  "put_u32 v = to_le 4 (unat v)"

lemma length_to_le [simp]: "length (to_le n v) = n"
  by (induction n arbitrary: v) auto

lemma length_put [simp]: "length (put_u16 v) = 2" "length (put_u32 w) = 4"
  by (simp_all add: put_u16_def put_u32_def)

lemma le_val_to_le: "le_val (to_le n v) = v mod 256 ^ n"
proof (induction n arbitrary: v)
  case (Suc n)
  have "unat (word_of_nat v :: u8) = v mod 256" by (simp add: unat_of_nat)
  then show ?case
    using mod_mult2_eq [of v 256 "256 ^ n"] by (simp add: Suc)
qed simp

lemma le_val_bound: "le_val bs < 256 ^ length bs"
proof (induction bs)
  case (Cons b bs)
  have "unat b < 256" using unsigned_less [of b, where ?'a = nat] by simp
  moreover have "256 * le_val bs + 256 \<le> 256 * 256 ^ length bs"
    using Cons by (metis Suc_leI add.commute mult_Suc_right mult_le_mono2)
  ultimately show ?case by simp
qed simp

lemma get_put_u16 [simp]: "get_u16 (put_u16 v @ bs) = v"
  using unsigned_less [of v, where ?'a = nat]
  by (simp add: get_u16_def put_u16_def le_val_to_le word_unat_eq_iff unat_of_nat)

lemma get_put_u32 [simp]: "get_u32 (put_u32 v @ bs) = v"
  using unsigned_less [of v, where ?'a = nat]
  by (simp add: get_u32_def put_u32_def le_val_to_le word_unat_eq_iff unat_of_nat)

end
