(* ===== verification/Acm_Drv_Base.thy ===== *)
theory Acm_Drv_Base
  imports Acm_Text Acm_Hw Acm_Fsc Acm_Bitarray
begin

text \<open>
  The kernel driver: values, register access and state. The registers of the IP are not memory
  (some are cleared by reading, some change by themselves), so the state holds the history of the
  accesses, newest first, and the environment gives the value a read returns as a function of the
  history. \<open>last16\<close> and \<open>last32\<close> look up the value that was last written to a register; a register
  that returns it is \<open>plain\<close>. The environment also decides what the calls into the kernel return:
  interrupted locks, the PTP time, failing device creation.

  Offsets are natural numbers; the driver only uses offsets from zero up. Loads and stores are
  little endian, as on the platforms of the driver.
\<close>

section \<open>Bit fields (\<^verbatim>\<open>acmbitops.h\<close>)\<close>

definition low_16bits :: "u32 \<Rightarrow> u16" where
  "low_16bits x = ucast (x AND 0xFFFF)"

definition high_16bits :: "u32 \<Rightarrow> u16" where
  "high_16bits x = ucast (drop_bit 16 (x AND 0xFFFF0000))"

text \<open>\<^verbatim>\<open>__ffs\<close>: the number of the lowest set bit of a word that is not zero.\<close>

definition ffs_kernel :: "'a::len word \<Rightarrow> nat" where
  "ffs_kernel w = (case find (bit w) [0..<LENGTH('a)] of Some i \<Rightarrow> i | None \<Rightarrow> 0)"

definition read_bitmask :: "u32 \<Rightarrow> u32 \<Rightarrow> u32" where
  "read_bitmask v m = (if m = 0 then 0 else drop_bit (ffs_kernel m) (v AND m))"

definition write_bitmask :: "u32 \<Rightarrow> u32 \<Rightarrow> u32 \<Rightarrow> u32" where
  "write_bitmask v t m = (if m = 0 then t
     else (t AND NOT m) OR (push_bit (ffs_kernel m) v AND m))"

definition read_bitmask16 :: "u16 \<Rightarrow> u16 \<Rightarrow> u16" where
  "read_bitmask16 v m = (if m = 0 then 0 else drop_bit (ffs_kernel m) (v AND m))"

definition write_bitmask16 :: "u16 \<Rightarrow> u16 \<Rightarrow> u16 \<Rightarrow> u16" where
  "write_bitmask16 v t m = (if m = 0 then t
     else (t AND NOT m) OR (push_bit (ffs_kernel m) v AND m))"

definition read_bitmask64 :: "u64 \<Rightarrow> u64 \<Rightarrow> u64" where
  "read_bitmask64 v m = (if m = 0 then 0 else drop_bit (ffs_kernel m) (v AND m))"

text \<open>
  Writing a field keeps the bits outside of it, and reading gives the value back when it fits;
  one lemma for all widths.
\<close>

lemma ffs_kernel_bits:
  fixes m :: "'a::len word"
  assumes "m \<noteq> 0"
  shows "bit m (ffs_kernel m)" "i < ffs_kernel m \<Longrightarrow> \<not> bit m i"
proof -
  obtain k where k: "bit m k" using assms by (auto simp: bit_eq_iff)
  then have "k < LENGTH('a)" by (rule bit_imp_le_length)
  with k obtain j where j: "find (bit m) [0..<LENGTH('a)] = Some j"
    by (cases "find (bit m) [0..<LENGTH('a)]") (auto simp: find_None_iff)
  then have j': "bit m j" "\<forall>i<j. \<not> bit m i"
    by (auto simp: find_Some_iff)
  from j have "ffs_kernel m = j" by (simp add: ffs_kernel_def)
  with j' show "bit m (ffs_kernel m)" "i < ffs_kernel m \<Longrightarrow> \<not> bit m i" by auto
qed

lemma field_write_read:
  fixes m :: "'a::len word"
  assumes "m \<noteq> 0" "push_bit (ffs_kernel m) v AND m = push_bit (ffs_kernel m) v"
    "unat v * 2 ^ ffs_kernel m < 2 ^ LENGTH('a)"
  shows "drop_bit (ffs_kernel m) (((t AND NOT m) OR (push_bit (ffs_kernel m) v AND m)) AND m) = v"
proof -
  have "((t AND NOT m) OR (push_bit (ffs_kernel m) v AND m)) AND m = push_bit (ffs_kernel m) v AND m"
    by (rule bit_word_eqI) (auto simp: bit_simps)
  also have "\<dots> = push_bit (ffs_kernel m) v" by (rule assms(2))
  finally have eq: "((t AND NOT m) OR (push_bit (ffs_kernel m) v AND m)) AND m = push_bit (ffs_kernel m) v" .
  have "unat (push_bit (ffs_kernel m) v) = unat v * 2 ^ ffs_kernel m"
    using assms(3) by (subst unsigned_push_bit_eq) (simp add: push_bit_eq_mult take_bit_nat_eq_self)
  then have "unat (drop_bit (ffs_kernel m) (push_bit (ffs_kernel m) v)) = unat v"
    using assms(3) by (subst unsigned_drop_bit_eq) (simp add: drop_bit_eq_div take_bit_nat_eq_self)
  then have "drop_bit (ffs_kernel m) (push_bit (ffs_kernel m) v) = v"
    by (simp add: word_unat_eq_iff)
  with eq show ?thesis by simp
qed

lemma field_write_other:
  fixes m :: "'a::len word"
  assumes "m AND m' = 0"
  shows "((t AND NOT m) OR (v AND m)) AND m' = t AND m'"
proof (rule bit_word_eqI)
  fix n assume n: "n < LENGTH('a)"
  have "\<not> bit (m AND m') n" using assms by simp
  then show "bit (((t AND NOT m) OR (v AND m)) AND m') n = bit (t AND m') n"
    using n by (auto simp: bit_simps)
qed

text \<open>\<^verbatim>\<open>GENMASK\<close> of the kernel as a 16 bit mask.\<close>

definition GENMASK16 :: "nat \<Rightarrow> nat \<Rightarrow> u16" where
  "GENMASK16 h l = push_bit l (mask (h + 1 - l))"

section \<open>Register access\<close>

text \<open>The memory resources of the platform device.\<close>

datatype region = R_Bypass nat | R_Scheduler | R_Redundancy | R_Messagebuffer | R_CommonRegister

datatype io = W16 region nat u16 | W32 region nat u32 | R16 region nat | R32 region nat
  | Lock_intr | Read_ptp | Gpio_set bool | Gpio_get | Wait | Cdev_add nat | Device_create nat | Copy_user

fun last16 :: "io list \<Rightarrow> region \<Rightarrow> nat \<Rightarrow> u16 option" where
  "last16 [] r off = None"
| "last16 (e # es) r off = (case e of
     W16 r' off' v \<Rightarrow> if r' = r \<and> off' = off then Some v else last16 es r off
   | _ \<Rightarrow> last16 es r off)"

fun last32 :: "io list \<Rightarrow> region \<Rightarrow> nat \<Rightarrow> u32 option" where
  "last32 [] r off = None"
| "last32 (e # es) r off = (case e of
     W32 r' off' v \<Rightarrow> if r' = r \<and> off' = off then Some v else last32 es r off
   | _ \<Rightarrow> last32 es r off)"

text \<open>
  The environment: the values of the registers, the result of \<^verbatim>\<open>mutex_lock_interruptible\<close> (zero
  or negative), the PTP time in nanoseconds, the sizes of the resources, the result of waiting
  for a completion and whether the delayed work ran meanwhile, the results of \<^verbatim>\<open>cdev_add\<close>,
  \<^verbatim>\<open>device_create\<close> and of copying from and to user space, the reset GPIOs, the module parameters,
  and the number of jiffies in a second (the constant \<^verbatim>\<open>HZ\<close> of the kernel).
\<close>

record kenv =
  rd16 :: "io list \<Rightarrow> region \<Rightarrow> nat \<Rightarrow> u16"
  rd32 :: "io list \<Rightarrow> region \<Rightarrow> nat \<Rightarrow> u32"
  k_intr :: "io list \<Rightarrow> int"
  k_ptp :: "io list \<Rightarrow> int"
  k_size :: "region \<Rightarrow> nat"
  k_wait :: "io list \<Rightarrow> int"
  k_worker_ran :: "io list \<Rightarrow> bool"
  k_cdev_add :: "io list \<Rightarrow> int"
  k_device_create :: "io list \<Rightarrow> int"
  k_copy_fails :: "io list \<Rightarrow> bool"
  k_rstout_valid :: bool
  k_rstin_valid :: bool
  k_rstin :: "io list \<Rightarrow> bool"
  max_diag_retry :: nat
  clear_on_read :: bool
  diag_poll :: u32
  recovery_ticks_per_sec :: u32
  k_hz :: nat

text \<open>
  Delays of delayed works are in jiffies. \<^verbatim>\<open>msecs_to_jiffies\<close> takes an \<^verbatim>\<open>unsigned int\<close>, gives the
  largest delay for a value that is negative as an \<^verbatim>\<open>int\<close>, and rounds up; \<^verbatim>\<open>nsecs_to_jiffies\<close> rounds
  down.
\<close>

definition MAX_JIFFY_OFFSET :: nat where [simp]: "MAX_JIFFY_OFFSET = 1073741822"

definition msecs_to_jiffies :: "kenv \<Rightarrow> u32 \<Rightarrow> nat" where
  "msecs_to_jiffies e m = (if sint m < 0 then MAX_JIFFY_OFFSET else (unat m * k_hz e + 999) div 1000)"

definition nsecs_to_jiffies :: "kenv \<Rightarrow> nat \<Rightarrow> nat" where
  "nsecs_to_jiffies e n = n * k_hz e div 1000000000"

definition plain16 :: "kenv \<Rightarrow> region \<Rightarrow> nat \<Rightarrow> bool" where
  "plain16 e r off = (\<forall>h v. last16 h r off = Some v \<longrightarrow> rd16 e h r off = v)"

definition plain32 :: "kenv \<Rightarrow> region \<Rightarrow> nat \<Rightarrow> bool" where
  "plain32 e r off = (\<forall>h v. last32 h r off = Some v \<longrightarrow> rd32 e h r off = v)"

section \<open>The state of the driver\<close>

datatype acm_ip_if_variant = ACM_IF_1_0 | ACM_IF_2_0 | ACM_IF_3_0 | ACM_IF_4_0 | ACM_IF_DONT_CARE

fun if_number :: "acm_ip_if_variant \<Rightarrow> nat" where
  "if_number ACM_IF_1_0 = 0"
| "if_number ACM_IF_2_0 = 1"
| "if_number ACM_IF_3_0 = 2"
| "if_number ACM_IF_4_0 = 3"
| "if_number ACM_IF_DONT_CARE = 4"

lemma if_number_eq [simp]: "if_number a = if_number b \<longleftrightarrow> a = b"
  by (cases a; cases b) auto

text \<open>The variants are compared as the numbers of the enumeration.\<close>

instantiation acm_ip_if_variant :: linorder
begin

definition less_eq_acm_ip_if_variant :: "acm_ip_if_variant \<Rightarrow> acm_ip_if_variant \<Rightarrow> bool" where
  "less_eq_acm_ip_if_variant a b = (if_number a \<le> if_number b)"

definition less_acm_ip_if_variant :: "acm_ip_if_variant \<Rightarrow> acm_ip_if_variant \<Rightarrow> bool" where
  "less_acm_ip_if_variant a b = (if_number a < if_number b)"

instance
  by standard (auto simp: less_eq_acm_ip_if_variant_def less_acm_ip_if_variant_def)

end

text \<open>Scheduler: a pending delayed work is the delay in jiffies it was started with.\<close>

record timespec64 =
  ts_sec :: int
  ts_nsec :: int

record sched_table =
  tbl_time :: timespec64
  tbl_trigger :: bool
  tbl_work :: "nat option"
  tbl_complete :: bool

record sched_data =
  sd_active :: bool
  sd_table :: "nat \<Rightarrow> sched_table"

text \<open>
  Bypass module. The counters and flags of the diagnostic data are addressed by their byte offset
  in \<^verbatim>\<open>struct acmdrv_diagnostics\<close>, as the access table does.
\<close>

record acmdrv_diagnostics =
  dg_sec :: int
  dg_nsec :: u32
  dg_data :: "nat \<Rightarrow> u32"

record bypass =
  bp_diag :: acmdrv_diagnostics
  bp_diag_poll_time :: u32
  bp_diag_work :: "nat option"
  bp_active :: bool
  bp_nfr_flags :: u32

text \<open>Redundancy.\<close>

record recovery_data =
  frer_seq_rcvy_reset_msec :: u32
  remaining_ticks :: u32

record base_recovery_data =
  br_data :: recovery_data
  br_intseqnum :: u16

record recovery =
  rc_interval :: nat
  rc_work :: "nat option"
  rc_individual :: "nat \<Rightarrow> nat \<Rightarrow> recovery_data"
  rc_base :: "nat \<Rightarrow> base_recovery_data"

text \<open>Message buffers, common registers, character devices.\<close>

record msgbuf =
  mb_overwritten :: "u32 list"
  mb_desc_cache :: "u32 list"
  mb_mask :: bitarray

record commreg =
  cr_version :: string
  cr_revision :: string
  cr_device_id :: u32
  cr_extended_status :: bool
  cr_testmodule_enable :: bool
  cr_time_freq :: u32
  cr_msgbuf_memsize :: u32
  cr_msgbuf_count :: u32
  cr_msgbuf_datawidth :: u32
  cr_cfg_read_back :: bool
  cr_individual_recovery :: bool
  cr_rx_redundancy :: bool

record acm_dev =
  ad_id :: u64
  ad_size :: nat
  ad_name :: string
  ad_active :: bool
  ad_timestamp :: bool

text \<open>
  \<open>k_partreg\<close> are the cached fields of the partitioned frame error register of every module.
\<close>

record kacm =
  k_env :: kenv
  k_io :: "io list"
  k_if_id :: acm_ip_if_variant
  k_bypass :: "nat \<Rightarrow> bypass"
  k_scheduler :: "nat \<Rightarrow> sched_data"
  k_recovery :: recovery
  k_msgbuf :: msgbuf
  k_commreg :: "commreg option"
  k_status :: u32
  k_devices :: "acm_dev list"
  k_partreg :: "nat \<Rightarrow> u32 list"

section \<open>Accesses\<close>

definition log_io :: "io \<Rightarrow> kacm \<Rightarrow> kacm" where
  "log_io e s = s\<lparr>k_io := e # k_io s\<rparr>"

definition readw :: "region \<Rightarrow> nat \<Rightarrow> kacm \<Rightarrow> u16 \<times> kacm" where
  "readw r off s = (rd16 (k_env s) (k_io s) r off, log_io (R16 r off) s)"

definition readl :: "region \<Rightarrow> nat \<Rightarrow> kacm \<Rightarrow> u32 \<times> kacm" where
  "readl r off s = (rd32 (k_env s) (k_io s) r off, log_io (R32 r off) s)"

definition writew :: "u16 \<Rightarrow> region \<Rightarrow> nat \<Rightarrow> kacm \<Rightarrow> kacm" where
  "writew v r off s = log_io (W16 r off v) s"

definition writel :: "u32 \<Rightarrow> region \<Rightarrow> nat \<Rightarrow> kacm \<Rightarrow> kacm" where
  "writel v r off s = log_io (W32 r off v) s"

text \<open>\<^verbatim>\<open>mutex_lock_interruptible\<close>: zero, or negative when a signal came.\<close>

definition lock_intr :: "kacm \<Rightarrow> int \<times> kacm" where
  "lock_intr s = (min 0 (k_intr (k_env s) (k_io s)), log_io Lock_intr s)"

text \<open>
  The block copies of \<^verbatim>\<open>acmio.h\<close>: nothing happens when address or length is not a multiple of four.
  The base addresses and the bounce buffers are aligned.
\<close>

fun iowrite32_words :: "region \<Rightarrow> nat \<Rightarrow> u8 list \<Rightarrow> nat \<Rightarrow> kacm \<Rightarrow> kacm" where
  "iowrite32_words r off bs 0 s = s"
| "iowrite32_words r off bs (Suc n) s =
     iowrite32_words r (off + 4) (drop 4 bs) n (writel (get_u32 bs) r off s)"

definition is_aligned32 :: "nat \<Rightarrow> nat \<Rightarrow> bool" where
  "is_aligned32 off sz = (off mod 4 = 0 \<and> sz mod 4 = 0)"

definition acm_iowrite32_copy :: "region \<Rightarrow> nat \<Rightarrow> u8 list \<Rightarrow> nat \<Rightarrow> kacm \<Rightarrow> kacm" where
  "acm_iowrite32_copy r off bs sz s =
     (if is_aligned32 off sz then iowrite32_words r off bs (sz div 4) s else s)"

fun ioread32_words :: "region \<Rightarrow> nat \<Rightarrow> nat \<Rightarrow> kacm \<Rightarrow> u32 list \<times> kacm" where
  "ioread32_words r off 0 s = ([], s)"
| "ioread32_words r off (Suc n) s =
     (let (v, s1) = readl r off s; (vs, s2) = ioread32_words r (off + 4) n s1 in (v # vs, s2))"

text \<open>\<open>None\<close>: nothing was copied.\<close>

definition acm_ioread32_copy :: "region \<Rightarrow> nat \<Rightarrow> nat \<Rightarrow> kacm \<Rightarrow> u32 list option \<times> kacm" where
  "acm_ioread32_copy r off sz s =
     (if is_aligned32 off sz
      then let (vs, s1) = ioread32_words r off (sz div 4) s in (Some vs, s1) else (None, s))"

fun iowrite32_fill :: "region \<Rightarrow> nat \<Rightarrow> u32 \<Rightarrow> nat \<Rightarrow> kacm \<Rightarrow> kacm" where
  "iowrite32_fill r off v 0 s = s"
| "iowrite32_fill r off v (Suc n) s = iowrite32_fill r (off + 4) v n (writel v r off s)"

definition acm_iowrite32_set :: "region \<Rightarrow> nat \<Rightarrow> u32 \<Rightarrow> nat \<Rightarrow> kacm \<Rightarrow> kacm" where
  "acm_iowrite32_set r off v sz s =
     (if is_aligned32 off sz then iowrite32_fill r off v (sz div 4) s else s)"

lemmas io_defs = log_io_def readw_def readl_def writew_def writel_def lock_intr_def

end
