(* ===== verification/Acm_Drv_Scheduler.thy ===== *)
theory Acm_Drv_Scheduler
  imports Acm_Drv_Base
begin

text \<open>
  The scheduler of the IP (\<^verbatim>\<open>scheduler.c\<close>): transfer of table rows through the row access registers,
  cycle time, the start time with its adjustment to the next cycle and the delayed write, the
  emergency disable and the cleanup of all tables. Indices are not negative.
\<close>

section \<open>Registers\<close>

definition ETIMEDOUT :: int where [simp]: "ETIMEDOUT = 110"
definition EPROBE_DEFER :: int where [simp]: "EPROBE_DEFER = 517"

definition ACMDRV_SCHEDULER_COUNT :: nat where [simp]: "ACMDRV_SCHEDULER_COUNT = 2"

definition ROW_ACCESS_CMD0 :: nat where [simp]: "ROW_ACCESS_CMD0 = 0x1000"
definition ROW_ACCESS_CMD1 :: nat where [simp]: "ROW_ACCESS_CMD1 = 0x1002"
definition ROW_ACCESS_DATA0 :: nat where [simp]: "ROW_ACCESS_DATA0 = 0x1010"
definition ROW_ACCESS_DATA1 :: nat where [simp]: "ROW_ACCESS_DATA1 = 0x1012"
definition ROW_ACCESS_DATA4 :: nat where [simp]: "ROW_ACCESS_DATA4 = 0x1018"
definition GENERICS_CLK_FREQ :: nat where [simp]: "GENERICS_CLK_FREQ = 0x4006"

definition CMD0_SCHEDULER :: u16 where "CMD0_SCHEDULER = GENMASK16 2 0"
definition CMD0_TABLE :: u16 where "CMD0_TABLE = GENMASK16 8 8"
definition CMD0_WRITE :: u16 where "CMD0_WRITE = GENMASK16 14 14"
definition CMD0_TRANSFER :: u16 where "CMD0_TRANSFER = GENMASK16 15 15"
definition CMD1_ROW_NUMBER :: u16 where "CMD1_ROW_NUMBER = GENMASK16 9 0"

definition ACM_SCHEDULER_SCHED :: "nat \<Rightarrow> nat" where
  "ACM_SCHEDULER_SCHED i = 0x10000 + i * 0x1000"

definition SCHED_TABLE :: "nat \<Rightarrow> nat \<Rightarrow> nat \<Rightarrow> nat" where
  "SCHED_TABLE sidx tidx reg = ACM_SCHEDULER_SCHED sidx + (0x800 + tidx * 0x100) + reg"

definition SCHED_CTRL_SCH_GEN :: nat where [simp]: "SCHED_CTRL_SCH_GEN = 0x00"
definition SCHED_CTRL_DWNCNTR_SPD :: nat where [simp]: "SCHED_CTRL_DWNCNTR_SPD = 0x02"
definition SCHED_CTRL_EME_DIS_CTRL :: nat where [simp]: "SCHED_CTRL_EME_DIS_CTRL = 0x20"
definition SCHED_CTRL_EME_DIS_STAT :: "nat \<Rightarrow> nat" where [simp]: "SCHED_CTRL_EME_DIS_STAT i = 0x30 + i * 2"

definition TBL_GEN :: nat where [simp]: "TBL_GEN = 0x00"
definition STARTTIME_NS_LOW :: nat where [simp]: "STARTTIME_NS_LOW = 0x14"
definition STARTTIME_NS_HIGH :: nat where [simp]: "STARTTIME_NS_HIGH = 0x16"
definition STARTTIME_SEC :: nat where [simp]: "STARTTIME_SEC = 0x18"
definition CYCLETIME_SUBNS_LOW :: nat where [simp]: "CYCLETIME_SUBNS_LOW = 0x20"
definition CYCLETIME_SUBNS_HIGH :: nat where [simp]: "CYCLETIME_SUBNS_HIGH = 0x22"
definition CYCLETIME_NS_LOW :: nat where [simp]: "CYCLETIME_NS_LOW = 0x24"
definition CYCLETIME_NS_HIGH :: nat where [simp]: "CYCLETIME_NS_HIGH = 0x26"
definition LAST_CYCLE :: nat where [simp]: "LAST_CYCLE = 0x44"

definition TBL_GEN_CAN_BE_TAKEN :: u16 where [simp]: "TBL_GEN_CAN_BE_TAKEN = 1"
definition TBL_GEN_IN_USE :: u16 where [simp]: "TBL_GEN_IN_USE = 2"
definition TBL_GEN_LAST_CYC_NR_EN :: u16 where [simp]: "TBL_GEN_LAST_CYC_NR_EN = 0x100"
definition TBL_GEN_LAST_CYC_REACHED :: u16 where [simp]: "TBL_GEN_LAST_CYC_REACHED = 0x200"

definition upd_table :: "nat \<Rightarrow> nat \<Rightarrow> (sched_table \<Rightarrow> sched_table) \<Rightarrow> kacm \<Rightarrow> kacm" where
  "upd_table sidx tidx f s = s\<lparr>k_scheduler := (k_scheduler s)(sidx :=
     (k_scheduler s sidx)\<lparr>sd_table := (sd_table (k_scheduler s sidx))(tidx :=
        f (sd_table (k_scheduler s sidx) tidx))\<rparr>)\<rparr>"

abbreviation table_of :: "nat \<Rightarrow> nat \<Rightarrow> kacm \<Rightarrow> sched_table" where
  "table_of sidx tidx s \<equiv> sd_table (k_scheduler s sidx) tidx"

section \<open>Table rows\<close>

definition WAIT_TABLE_ROW_RETRY :: nat where [simp]: "WAIT_TABLE_ROW_RETRY = 8"

fun wait_table_row :: "nat \<Rightarrow> kacm \<Rightarrow> int \<times> kacm" where
  "wait_table_row 0 s = (- ETIMEDOUT, s)"
| "wait_table_row (Suc n) s = (let (cmd0, s1) = readw R_Scheduler ROW_ACCESS_CMD0 s in
     if read_bitmask16 cmd0 CMD0_TRANSFER \<noteq> 0 then wait_table_row n s1 else (0, s1))"

definition wait_table_row_transfer :: "kacm \<Rightarrow> int \<times> kacm" where
  "wait_table_row_transfer s = wait_table_row WAIT_TABLE_ROW_RETRY s"

definition row_cmd1 :: "nat \<Rightarrow> u16" where
  "row_cmd1 row_id = write_bitmask16 (word_of_nat row_id) 0 CMD1_ROW_NUMBER"

definition row_cmd0 :: "nat \<Rightarrow> nat \<Rightarrow> bool \<Rightarrow> u16" where
  "row_cmd0 sched_id tab_id wr =
     write_bitmask16 1 (write_bitmask16 (if wr then 1 else 0) (write_bitmask16 (word_of_nat tab_id)
       (write_bitmask16 (word_of_nat sched_id) 0 CMD0_SCHEDULER) CMD0_TABLE) CMD0_WRITE) CMD0_TRANSFER"

definition row_index_error :: "nat \<Rightarrow> nat \<Rightarrow> nat \<Rightarrow> bool" where
  "row_index_error sched_id tab_id row_id = (ACMDRV_SCHEDULER_COUNT \<le> sched_id \<or>
     ACMDRV_SCHED_TBL_COUNT \<le> tab_id \<or> ACMDRV_SCHED_TBL_ROW_COUNT \<le> row_id)"

definition scheduler_read_table_row :: "nat \<Rightarrow> nat \<Rightarrow> nat \<Rightarrow> u32 \<times> u16 \<Rightarrow> kacm \<Rightarrow>
    int \<times> (u32 \<times> u16) \<times> kacm" where
  "scheduler_read_table_row sched_id tab_id row_id row s =
     (if row_index_error sched_id tab_id row_id then (- EINVAL, row, s)
      else let (ret, s) = lock_intr s in
      if ret \<noteq> 0 then (ret, row, s)
      else let s = writew (row_cmd1 row_id) R_Scheduler ROW_ACCESS_CMD1 s;
               s = writew (row_cmd0 sched_id tab_id False) R_Scheduler ROW_ACCESS_CMD0 s;
               (ret, s) = wait_table_row_transfer s in
      if ret \<noteq> 0 then (ret, row, s)
      else let (data1, s) = readw R_Scheduler ROW_ACCESS_DATA1 s;
               (data0, s) = readw R_Scheduler ROW_ACCESS_DATA0 s;
               (data4, s) = readw R_Scheduler ROW_ACCESS_DATA4 s in
        (0, (push_bit 16 (ucast data1) + ucast data0, data4), s))"

definition scheduler_write_table_row :: "nat \<Rightarrow> nat \<Rightarrow> nat \<Rightarrow> u32 \<times> u16 \<Rightarrow> kacm \<Rightarrow> int \<times> kacm" where
  "scheduler_write_table_row sched_id tab_id row_id row s =
     (if row_index_error sched_id tab_id row_id then (- EINVAL, s)
      else let (ret, s) = lock_intr s in
      if ret \<noteq> 0 then (ret, s)
      else let s = writew (low_16bits (fst row)) R_Scheduler ROW_ACCESS_DATA0 s;
               s = writew (high_16bits (fst row)) R_Scheduler ROW_ACCESS_DATA1 s;
               s = writew (snd row) R_Scheduler ROW_ACCESS_DATA4 s;
               s = writew (row_cmd1 row_id) R_Scheduler ROW_ACCESS_CMD1 s;
               s = writew (row_cmd0 sched_id tab_id True) R_Scheduler ROW_ACCESS_CMD0 s in
        wait_table_row_transfer s)"

section \<open>Status, down counter, emergency disable, active flag\<close>

definition scheduler_read_table_status :: "nat \<Rightarrow> nat \<Rightarrow> kacm \<Rightarrow> u16 \<times> kacm" where
  "scheduler_read_table_status sidx tidx s =
     (if ACMDRV_SCHEDULER_COUNT \<le> sidx \<or> ACMDRV_SCHED_TBL_COUNT \<le> tidx then (0, s)
      else readw R_Scheduler (SCHED_TABLE sidx tidx TBL_GEN) s)"

definition scheduler_read_sched_down_counter :: "nat \<Rightarrow> kacm \<Rightarrow> u16 \<times> kacm" where
  "scheduler_read_sched_down_counter sidx s = (if ACMDRV_SCHEDULER_COUNT \<le> sidx then (0, s)
     else readw R_Scheduler (ACM_SCHEDULER_SCHED sidx + SCHED_CTRL_SCH_GEN) s)"

definition scheduler_write_sched_down_counter :: "nat \<Rightarrow> u16 \<Rightarrow> kacm \<Rightarrow> kacm" where
  "scheduler_write_sched_down_counter sidx cnt s = (if ACMDRV_SCHEDULER_COUNT \<le> sidx then s
     else writew cnt R_Scheduler (ACM_SCHEDULER_SCHED sidx + SCHED_CTRL_SCH_GEN) s)"

definition scheduler_read_emergency_disable :: "nat \<Rightarrow> kacm \<Rightarrow> u16 \<times> kacm" where
  "scheduler_read_emergency_disable sidx s = (if ACMDRV_SCHEDULER_COUNT \<le> sidx then (0, s)
     else readw R_Scheduler (ACM_SCHEDULER_SCHED sidx + SCHED_CTRL_EME_DIS_CTRL) s)"

definition scheduler_write_emergency_disable :: "nat \<Rightarrow> u16 \<Rightarrow> kacm \<Rightarrow> kacm" where
  "scheduler_write_emergency_disable sidx emerg_disable s = (if ACMDRV_SCHEDULER_COUNT \<le> sidx then s
     else writew emerg_disable R_Scheduler (ACM_SCHEDULER_SCHED sidx + SCHED_CTRL_EME_DIS_CTRL) s)"

definition scheduler_set_active :: "nat \<Rightarrow> bool \<Rightarrow> kacm \<Rightarrow> kacm" where
  "scheduler_set_active i a s = s\<lparr>k_scheduler := (k_scheduler s)(i := (k_scheduler s i)\<lparr>sd_active := a\<rparr>)\<rparr>"

definition scheduler_get_active :: "nat \<Rightarrow> kacm \<Rightarrow> bool" where
  "scheduler_get_active i s = sd_active (k_scheduler s i)"

section \<open>Cycle time\<close>

record acmdrv_sched_cycle_time =
  ct_subns :: u32
  ct_ns :: u32

definition read_cycle_time :: "nat \<Rightarrow> nat \<Rightarrow> kacm \<Rightarrow> acmdrv_sched_cycle_time \<times> kacm" where
  "read_cycle_time sidx tidx s =
     (let (subns_high, s) = readw R_Scheduler (SCHED_TABLE sidx tidx CYCLETIME_SUBNS_HIGH) s;
          (subns_low, s) = readw R_Scheduler (SCHED_TABLE sidx tidx CYCLETIME_SUBNS_LOW) s;
          (ns_high, s) = readw R_Scheduler (SCHED_TABLE sidx tidx CYCLETIME_NS_HIGH) s;
          (ns_low, s) = readw R_Scheduler (SCHED_TABLE sidx tidx CYCLETIME_NS_LOW) s in
      (\<lparr>ct_subns = push_bit 8 (ucast subns_high) + ucast (drop_bit 8 (subns_low AND GENMASK16 15 8)),
         ct_ns = push_bit 16 (ucast (ns_high AND GENMASK16 13 0)) + ucast ns_low\<rparr>, s))"

text \<open>An invalid index leaves the structure of the caller as it is.\<close>

definition scheduler_read_cycle_time :: "nat \<Rightarrow> nat \<Rightarrow> acmdrv_sched_cycle_time \<Rightarrow> kacm \<Rightarrow>
    acmdrv_sched_cycle_time \<times> kacm" where
  "scheduler_read_cycle_time sidx tidx t s =
     (if ACMDRV_SCHEDULER_COUNT \<le> sidx \<or> ACMDRV_SCHED_TBL_COUNT \<le> tidx then (t, s)
      else read_cycle_time sidx tidx s)"

definition scheduler_write_cycle_time :: "nat \<Rightarrow> nat \<Rightarrow> acmdrv_sched_cycle_time \<Rightarrow> kacm \<Rightarrow> kacm" where
  "scheduler_write_cycle_time sidx tidx t s =
     (if ACMDRV_SCHEDULER_COUNT \<le> sidx \<or> ACMDRV_SCHED_TBL_COUNT \<le> tidx then s
      else let s = writew (ucast (push_bit 8 (ct_subns t) AND GENMASK 15 8)) R_Scheduler
                 (SCHED_TABLE sidx tidx CYCLETIME_SUBNS_LOW) s;
               s = writew (ucast (drop_bit 8 (ct_subns t) AND GENMASK 15 0)) R_Scheduler
                 (SCHED_TABLE sidx tidx CYCLETIME_SUBNS_HIGH) s;
               s = writew (ucast (ct_ns t AND GENMASK 15 0)) R_Scheduler
                 (SCHED_TABLE sidx tidx CYCLETIME_NS_LOW) s in
        writew (ucast (drop_bit 16 (ct_ns t) AND GENMASK 13 0)) R_Scheduler
          (SCHED_TABLE sidx tidx CYCLETIME_NS_HIGH) s)"

section \<open>Start time\<close>

definition NSEC_PER_SEC :: int where [simp]: "NSEC_PER_SEC = 1000000000"
definition NSEC_PER_MSEC :: int where [simp]: "NSEC_PER_MSEC = 1000000"
definition KTIME_MAX :: int where [simp]: "KTIME_MAX = 9223372036854775807"
definition KTIME_SEC_MAX :: int where [simp]: "KTIME_SEC_MAX = 9223372036"

text \<open>
  Times in nanoseconds are signed 64 bit numbers that wrap. \<^verbatim>\<open>timespec64_to_ktime\<close> saturates at
  the upper end only. \<^verbatim>\<open>ktime_divns\<close> rounds towards zero.
\<close>

definition s64 :: "int \<Rightarrow> int" where
  "s64 x = sint (word_of_int x :: 64 word)"

lemma s64_id: "- (2 ^ 63) \<le> x \<Longrightarrow> x < 2 ^ 63 \<Longrightarrow> s64 x = x"
  by (simp add: s64_def int_word_sint mod_pos_pos_trivial)

definition timespec64_to_ktime :: "timespec64 \<Rightarrow> int" where
  "timespec64_to_ktime t = (if KTIME_SEC_MAX \<le> ts_sec t then KTIME_MAX
     else s64 (ts_sec t * NSEC_PER_SEC + ts_nsec t))"

definition ktime_sub :: "int \<Rightarrow> int \<Rightarrow> int" where
  "ktime_sub a b = s64 (a - b)"

definition ktime_add_ns :: "int \<Rightarrow> int \<Rightarrow> int" where
  "ktime_add_ns a n = s64 (a + n)"

definition ktime_divns :: "int \<Rightarrow> int \<Rightarrow> int" where
  "ktime_divns a d = (if a < 0 then - (- a div d) else a div d)"

definition ktime_to_timespec64 :: "int \<Rightarrow> timespec64" where
  "ktime_to_timespec64 k = \<lparr>ts_sec = k div NSEC_PER_SEC, ts_nsec = k mod NSEC_PER_SEC\<rparr>"

definition scheduler_ktime_get_ptp :: "kacm \<Rightarrow> int \<times> kacm" where
  "scheduler_ktime_get_ptp s = (k_ptp (k_env s) (k_io s), log_io Read_ptp s)"

definition write_start_time :: "nat \<Rightarrow> nat \<Rightarrow> kacm \<Rightarrow> kacm" where
  "write_start_time sidx tidx s =
     (let t = table_of sidx tidx s;
          s = writew (word_of_int (ts_nsec (tbl_time t))) R_Scheduler (SCHED_TABLE sidx tidx STARTTIME_NS_LOW) s;
          s = writew (word_of_int (ts_nsec (tbl_time t) div 65536) AND GENMASK16 13 0) R_Scheduler
            (SCHED_TABLE sidx tidx STARTTIME_NS_HIGH) s;
          s = writew (word_of_int (ts_sec (tbl_time t)) AND GENMASK16 7 0) R_Scheduler
            (SCHED_TABLE sidx tidx STARTTIME_SEC) s in
      if tbl_trigger t
      then let s = writew 0 R_Scheduler (SCHED_TABLE sidx tidx LAST_CYCLE) s;
               (tbl_gen, s) = readw R_Scheduler (SCHED_TABLE sidx tidx TBL_GEN) s in
        writew ((tbl_gen OR TBL_GEN_CAN_BE_TAKEN) AND NOT TBL_GEN_LAST_CYC_NR_EN) R_Scheduler
          (SCHED_TABLE sidx tidx TBL_GEN) s
      else s)"

definition write_start_time_done :: "nat \<Rightarrow> nat \<Rightarrow> kacm \<Rightarrow> kacm" where
  "write_start_time_done sidx tidx s = upd_table sidx tidx (\<lambda>t. t\<lparr>tbl_complete := True\<rparr>) s"

definition write_start_time_prepare :: "nat \<Rightarrow> nat \<Rightarrow> timespec64 \<Rightarrow> bool \<Rightarrow> kacm \<Rightarrow> int \<times> kacm" where
  "write_start_time_prepare sidx tidx time trig s =
     (0, upd_table sidx tidx (\<lambda>t. t\<lparr>tbl_work := None, tbl_complete := False, tbl_time := time, tbl_trigger := trig\<rparr>) s)"

definition ACM_SCHEDULER_MAX_FUTURE_MSECS :: nat where [simp]: "ACM_SCHEDULER_MAX_FUTURE_MSECS = 64000"

text \<open>
  The second half of \<^verbatim>\<open>write_start_time_execute\<close>, with a start that is not in the past:
  \<^verbatim>\<open>do_div\<close> returns the remainder, which is the delay of the work that tries again. The distance in
  milliseconds is stored as an unsigned 64 bit number.
\<close>

definition write_start_time_at :: "nat \<Rightarrow> nat \<Rightarrow> int \<Rightarrow> int \<Rightarrow> kacm \<Rightarrow> kacm" where
  "write_start_time_at sidx tidx start now s =
     (let future_msecs = nat (ktime_divns (ktime_sub start now) NSEC_PER_MSEC mod 2 ^ 64) in
      if ACM_SCHEDULER_MAX_FUTURE_MSECS < future_msecs
      then upd_table sidx tidx (\<lambda>t. t\<lparr>tbl_work := Some (msecs_to_jiffies (k_env s)
        (word_of_nat (future_msecs mod ACM_SCHEDULER_MAX_FUTURE_MSECS)))\<rparr>) s
      else let s = upd_table sidx tidx (\<lambda>t. t\<lparr>tbl_time := ktime_to_timespec64 start\<rparr>) s;
               s = write_start_time sidx tidx s in
        write_start_time_done sidx tidx s)"

definition write_start_time_execute :: "nat \<Rightarrow> nat \<Rightarrow> kacm \<Rightarrow> kacm" where
  "write_start_time_execute sidx tidx s =
     (let (now, s) = scheduler_ktime_get_ptp s;
          start = timespec64_to_ktime (tbl_time (table_of sidx tidx s)) in
      if start < now
      then let (cycle_time, s) = read_cycle_time sidx tidx s;
               ns = uint (ct_ns cycle_time) in
        if ns = 0 then s
        else let count = s64 (ktime_divns (ktime_sub now start) ns + 1) in
          write_start_time_at sidx tidx (ktime_add_ns start (s64 (count * ns))) now s
      else write_start_time_at sidx tidx start now s)"

text \<open>The worker function: the delayed work is no longer pending when it runs.\<close>

definition write_start_time_worker_func :: "nat \<Rightarrow> nat \<Rightarrow> kacm \<Rightarrow> kacm" where
  "write_start_time_worker_func sidx tidx s =
     write_start_time_execute sidx tidx (upd_table sidx tidx (\<lambda>t. t\<lparr>tbl_work := None\<rparr>) s)"

definition scheduler_read_start_time :: "nat \<Rightarrow> nat \<Rightarrow> timespec64 \<Rightarrow> kacm \<Rightarrow> int \<times> timespec64" where
  "scheduler_read_start_time sidx tidx time s =
     (if ACMDRV_SCHEDULER_COUNT \<le> sidx \<or> ACMDRV_SCHED_TBL_COUNT \<le> tidx then (0, time)
      else (0, tbl_time (table_of sidx tidx s)))"

definition scheduler_write_start_time :: "nat \<Rightarrow> nat \<Rightarrow> timespec64 \<Rightarrow> bool \<Rightarrow> kacm \<Rightarrow> int \<times> kacm" where
  "scheduler_write_start_time sidx tidx time trig s =
     (if ACMDRV_SCHEDULER_COUNT \<le> sidx \<or> ACMDRV_SCHED_TBL_COUNT \<le> tidx then (- EINVAL, s)
      else let (ret, s) = lock_intr s in
      if ret \<noteq> 0 then (ret, s)
      else let (ret, s) = write_start_time_prepare sidx tidx time trig s in
      if ret \<noteq> 0 then (ret, s)
      else (ret, write_start_time_execute sidx tidx s))"

text \<open>
  \<^verbatim>\<open>wait_for_completion_interruptible_timeout\<close>: positive when the completion is done. Otherwise
  the pending work may run while the caller waits, and zero (time out) or a negative result
  (signal) comes from the environment.
\<close>

definition wait_for_completion :: "nat \<Rightarrow> nat \<Rightarrow> kacm \<Rightarrow> int \<times> kacm" where
  "wait_for_completion sidx tidx s =
     (let ran = k_worker_ran (k_env s) (k_io s); res = min 0 (k_wait (k_env s) (k_io s)); s = log_io Wait s in
      if tbl_complete (table_of sidx tidx s) then (1, s)
      else let s = (if tbl_work (table_of sidx tidx s) \<noteq> None \<and> ran
                    then write_start_time_worker_func sidx tidx s else s) in
        (if tbl_complete (table_of sidx tidx s) then 1 else res, s))"

definition scheduler_write_start_time_sync :: "nat \<Rightarrow> nat \<Rightarrow> timespec64 \<Rightarrow> bool \<Rightarrow> kacm \<Rightarrow> int \<times> kacm" where
  "scheduler_write_start_time_sync sidx tidx time trigger s =
     (let (_, s) = scheduler_write_start_time sidx tidx time trigger s;
          (timeleft, s) = wait_for_completion sidx tidx s in
      if timeleft = 0 then (- ETIMEDOUT, s)
      else if timeleft < 0 then (timeleft, s)
      else (0, s))"

section \<open>Cleanup and initialisation\<close>

text \<open>Failures to write a row are only logged.\<close>

definition write_null_rows :: "nat \<Rightarrow> nat \<Rightarrow> nat list \<Rightarrow> kacm \<Rightarrow> kacm" where
  "write_null_rows sidx tidx rows s = fold (\<lambda>i s. snd (scheduler_write_table_row sidx tidx i (0, 0) s)) rows s"

fun find_unused_table :: "nat \<Rightarrow> nat list \<Rightarrow> kacm \<Rightarrow> nat option \<times> kacm" where
  "find_unused_table sidx [] s = (None, s)"
| "find_unused_table sidx (tidx # ts) s = (let (status, s) = scheduler_read_table_status sidx tidx s in
     if status AND TBL_GEN_IN_USE = 0 then (Some tidx, s) else find_unused_table sidx ts s)"

text \<open>The loop that waits for the last cycle has no bound: \<open>None\<close> when it never ends.\<close>

partial_function (option) wait_last_cycle :: "nat \<Rightarrow> nat \<Rightarrow> kacm \<Rightarrow> kacm option" where
  "wait_last_cycle sidx tidx s = (case readw R_Scheduler (SCHED_TABLE sidx tidx TBL_GEN) s of
     (tbl_gen, s) \<Rightarrow>
       if tbl_gen AND (TBL_GEN_IN_USE OR TBL_GEN_LAST_CYC_REACHED) = TBL_GEN_IN_USE OR TBL_GEN_LAST_CYC_REACHED
       then Some s else wait_last_cycle sidx tidx s)"

definition cleanup_scheduler :: "acmdrv_sched_cycle_time \<Rightarrow> nat \<Rightarrow> kacm \<Rightarrow> kacm option" where
  "cleanup_scheduler cycletime sidx s =
     (case find_unused_table sidx [0..<ACMDRV_SCHED_TBL_COUNT] s of
        (None, s) \<Rightarrow> Some s
      | (Some tidx, s) \<Rightarrow>
          let (_, s) = scheduler_write_table_row sidx tidx 0 (0, 8) s;
              s = write_null_rows sidx tidx [1..<ACMDRV_SCHED_TBL_ROW_COUNT] s;
              s = scheduler_write_cycle_time sidx tidx cycletime s;
              (now, s) = scheduler_ktime_get_ptp s;
              (ret, s) = scheduler_write_start_time_sync sidx tidx (ktime_to_timespec64 now) False s in
          if ret \<noteq> 0 then Some s
          else let s = writew 1 R_Scheduler (SCHED_TABLE sidx tidx LAST_CYCLE) s;
                   (tbl_gen, s) = readw R_Scheduler (SCHED_TABLE sidx tidx TBL_GEN) s;
                   s = writew (tbl_gen OR TBL_GEN_CAN_BE_TAKEN OR TBL_GEN_LAST_CYC_NR_EN) R_Scheduler
                     (SCHED_TABLE sidx tidx TBL_GEN) s in
            do {
              s \<leftarrow> wait_last_cycle sidx tidx s;
              Some (fold (\<lambda>i s. if i = tidx then s else write_null_rows sidx i [0..<ACMDRV_SCHED_TBL_ROW_COUNT] s)
                [0..<ACMDRV_SCHED_TBL_COUNT] s) })"

definition read_clk_freq :: "kacm \<Rightarrow> u16 \<times> kacm" where
  "read_clk_freq s = (let (v, s) = readw R_Scheduler GENERICS_CLK_FREQ s in (v AND GENMASK16 7 0, s))"

text \<open>A frequency of zero is a division by zero.\<close>

definition scheduler_cleanup :: "kacm \<Rightarrow> kacm option" where
  "scheduler_cleanup s = (let (freq, s) = read_clk_freq s in
     if freq = 0 then None
     else foreach_upd (cleanup_scheduler \<lparr>ct_subns = 0, ct_ns = word_of_nat (1000 div unat freq * 8)\<rparr>)
       [0..<ACMDRV_SCHEDULER_COUNT] s)"

definition init_table :: sched_table where
  "init_table = \<lparr>tbl_time = \<lparr>ts_sec = 0, ts_nsec = 0\<rparr>, tbl_trigger = False, tbl_work = None, tbl_complete = False\<rparr>"

definition scheduler_data_init :: "nat \<Rightarrow> kacm \<Rightarrow> kacm" where
  "scheduler_data_init idx s = s\<lparr>k_scheduler := (k_scheduler s)(idx :=
     \<lparr>sd_active = False, sd_table = (\<lambda>_. init_table)\<rparr>)\<rparr>"

definition scheduler_data_exit :: "nat \<Rightarrow> kacm \<Rightarrow> kacm" where
  "scheduler_data_exit idx s = fold (\<lambda>i. upd_table idx i (\<lambda>t. t\<lparr>tbl_work := None, tbl_complete := True\<rparr>))
     [0..<ACMDRV_SCHED_TBL_COUNT] s"

text \<open>
  The arguments say whether the memory could be allocated, what the mapping of the registers
  returned, and whether the device tree node and the device of the PTP clock exist.
\<close>

definition scheduler_init :: "bool \<Rightarrow> int \<Rightarrow> bool \<Rightarrow> bool \<Rightarrow> kacm \<Rightarrow> int \<times> kacm" where
  "scheduler_init alloc map_ret ptp_node frtc s =
     (if \<not> alloc then (- ENOMEM, s)
      else if map_ret < 0 then (map_ret, s)
      else let s = fold scheduler_data_init [0..<ACMDRV_SCHEDULER_COUNT] s in
      if \<not> ptp_node then (- EINVAL, s)
      else if \<not> frtc then (- EPROBE_DEFER, s)
      else let s = fold (\<lambda>i s. let (_, s) = readw R_Scheduler (ACM_SCHEDULER_SCHED i + SCHED_CTRL_EME_DIS_STAT 0) s in
                 snd (readw R_Scheduler (ACM_SCHEDULER_SCHED i + SCHED_CTRL_EME_DIS_STAT 1) s))
                 [0..<ACMDRV_SCHEDULER_COUNT] s;
               (freq, s) = read_clk_freq s in
      if freq \<noteq> 125 \<and> freq \<noteq> 100 \<and> freq \<noteq> 200 then (- EIO, s)
      else (0, fold (\<lambda>i s. snd (readw R_Scheduler (ACM_SCHEDULER_SCHED i + SCHED_CTRL_DWNCNTR_SPD) s))
        [0..<ACMDRV_SCHEDULER_COUNT] s))"

definition scheduler_exit :: "kacm \<Rightarrow> kacm" where
  "scheduler_exit s = fold scheduler_data_exit [0..<ACMDRV_SCHEDULER_COUNT] s"

end
