(* ===== verification/Acm_Drv_Bypass.thy ===== *)
theory Acm_Drv_Bypass
  imports Acm_Drv_Scheduler
begin

text \<open>
  The bypass modules (\<^verbatim>\<open>bypass.c\<close>): checked register and block access, the enable and active
  flags, the accumulation of the diagnostic counters with their access table, the flags of the
  recovery, the cleanup and the reaction to events of the network device. A bypass pointer is the
  index of its module.
\<close>

section \<open>Areas\<close>

definition ACM_BYPASS_STREAM_IDENT :: nat where [simp]: "ACM_BYPASS_STREAM_IDENT = 0x0000"
definition ACM_BYPASS_DMA_CMD_LOOKUP :: nat where [simp]: "ACM_BYPASS_DMA_CMD_LOOKUP = 0x2000"
definition ACM_BYPASS_SCATTER_DMA :: nat where [simp]: "ACM_BYPASS_SCATTER_DMA = 0x3000"
definition ACM_BYPASS_GATHER_DMA_EXEC :: nat where [simp]: "ACM_BYPASS_GATHER_DMA_EXEC = 0x5000"
definition ACM_BYPASS_GATHER_DMA_PREFETCH :: nat where [simp]: "ACM_BYPASS_GATHER_DMA_PREFETCH = 0x5800"
definition ACM_BYPASS_CONSTANT_BUFFER :: nat where [simp]: "ACM_BYPASS_CONSTANT_BUFFER = 0x7000"
definition ACM_BYPASS_CONTROL_AREA :: nat where [simp]: "ACM_BYPASS_CONTROL_AREA = 0xC000"
definition ACM_BYPASS_STATUS_AREA :: nat where [simp]: "ACM_BYPASS_STATUS_AREA = 0xE000"

definition CONTROL_NGN_ENABLE :: nat where [simp]: "CONTROL_NGN_ENABLE = 0x00"
definition CONTROL_CONNECTION_MODE :: nat where [simp]: "CONTROL_CONNECTION_MODE = 0x10"
definition CONTROL_OUTPUT_DISABLE :: nat where [simp]: "CONTROL_OUTPUT_DISABLE = 0x14"
definition CONTROL_INDIV_RECOV_ENABLE :: nat where [simp]: "CONTROL_INDIV_RECOV_ENABLE = 0x28"
definition CONTROL_INDIV_RECOV_TAKE_ANY :: nat where [simp]: "CONTROL_INDIV_RECOV_TAKE_ANY = 0x2C"

definition ACMDRV_BYPASS_MODULES_COUNT :: nat where [simp]: "ACMDRV_BYPASS_MODULES_COUNT = 2"
definition ACMDRV_BYPASS_NR_RULES :: nat where [simp]: "ACMDRV_BYPASS_NR_RULES = 16"

definition upd_bypass :: "nat \<Rightarrow> (bypass \<Rightarrow> bypass) \<Rightarrow> kacm \<Rightarrow> kacm" where
  "upd_bypass b f s = s\<lparr>k_bypass := (k_bypass s)(b := f (k_bypass s b))\<rparr>"

definition bypass_size :: "nat \<Rightarrow> kacm \<Rightarrow> nat" where
  "bypass_size b s = k_size (k_env s) (R_Bypass b)"

definition bypass_area_read :: "nat \<Rightarrow> nat \<Rightarrow> nat \<Rightarrow> kacm \<Rightarrow> u32 \<times> kacm" where
  "bypass_area_read b area off s = (if bypass_size b s \<le> area + off then (0, s)
     else readl (R_Bypass b) (area + off) s)"

definition bypass_area_write :: "nat \<Rightarrow> nat \<Rightarrow> nat \<Rightarrow> u32 \<Rightarrow> kacm \<Rightarrow> kacm" where
  "bypass_area_write b area off v s = (if bypass_size b s \<le> area + off then s
     else writel v (R_Bypass b) (area + off) s)"

definition bypass_status_area_read :: "nat \<Rightarrow> nat \<Rightarrow> kacm \<Rightarrow> u32 \<times> kacm" where
  "bypass_status_area_read b off s = bypass_area_read b ACM_BYPASS_STATUS_AREA off s"

definition bypass_control_area_read :: "nat \<Rightarrow> nat \<Rightarrow> kacm \<Rightarrow> u32 \<times> kacm" where
  "bypass_control_area_read b off s = bypass_area_read b ACM_BYPASS_CONTROL_AREA off s"

definition bypass_control_area_write :: "nat \<Rightarrow> nat \<Rightarrow> u32 \<Rightarrow> kacm \<Rightarrow> kacm" where
  "bypass_control_area_write b off v s = bypass_area_write b ACM_BYPASS_CONTROL_AREA off v s"

text \<open>\<open>None\<close> in the second component: the destination keeps its contents.\<close>

definition bypass_block_read_direct :: "nat \<Rightarrow> nat \<Rightarrow> nat \<Rightarrow> kacm \<Rightarrow> int \<times> u32 list option \<times> kacm" where
  "bypass_block_read_direct b off sz s = (if bypass_size b s \<le> off + sz then (- EPERM, None, s)
     else let (ws, s) = acm_ioread32_copy (R_Bypass b) off sz s in (0, ws, s))"

text \<open>
  The block as bytes. Outside of the module the destination is not written; a transfer that is
  not aligned copies an uninitialised buffer, which \<open>None\<close> stands for.
\<close>

definition bypass_block_read :: "nat \<Rightarrow> nat \<Rightarrow> nat \<Rightarrow> u8 list \<Rightarrow> kacm \<Rightarrow> (u8 list \<times> kacm) option" where
  "bypass_block_read b off sz dest s =
     (let (ret, ws, s) = bypass_block_read_direct b off sz s in
      if ret \<noteq> 0 then Some (dest, s)
      else case ws of None \<Rightarrow> None | Some ws \<Rightarrow> Some (concat (map put_u32 ws), s))"

definition bypass_block_write :: "nat \<Rightarrow> u8 list \<Rightarrow> nat \<Rightarrow> nat \<Rightarrow> kacm \<Rightarrow> kacm" where
  "bypass_block_write b src off sz s = (if bypass_size b s \<le> off + sz then s
     else acm_iowrite32_copy (R_Bypass b) off src sz s)"

section \<open>Enable and active flags\<close>

definition bypass_enable :: "nat \<Rightarrow> bool \<Rightarrow> kacm \<Rightarrow> kacm" where
  "bypass_enable b enable s =
     bypass_control_area_write b CONTROL_NGN_ENABLE (acmdrv_bypass_ctrl_enable_create enable) s"

definition bypass_is_enabled :: "nat \<Rightarrow> kacm \<Rightarrow> bool \<times> kacm" where
  "bypass_is_enabled b s = (let (v, s) = bypass_control_area_read b CONTROL_NGN_ENABLE s in (v \<noteq> 0, s))"

definition bypass_set_active :: "nat \<Rightarrow> bool \<Rightarrow> kacm \<Rightarrow> kacm" where
  "bypass_set_active b a s = upd_bypass b (\<lambda>bp. bp\<lparr>bp_active := a\<rparr>) s"

definition bypass_get_active :: "nat \<Rightarrow> kacm \<Rightarrow> bool" where
  "bypass_get_active b s = bp_active (k_bypass s b)"

section \<open>Diagnostics\<close>

datatype diag_reader = Acculmulate | Or_flags | Or_no_frames_received | Timestamp

record bypass_diag_access_helper =
  dh_regoffs :: nat
  dh_mask :: u32
  dh_dataoffs :: nat
  dh_read :: diag_reader
  dh_count :: nat

text \<open>One counter: saturated at the maximal value of the register and of the sum.\<close>

definition acculmulate_value :: "u32 \<Rightarrow> u32 \<Rightarrow> u32 \<Rightarrow> u32" where
  "acculmulate_value m data raw =
     (if data = 0xFFFFFFFF then data
      else let v = drop_bit (ffs_kernel m) (raw AND m) in
        if v = drop_bit (ffs_kernel m) m then 0xFFFFFFFF
        else if data + v < data then 0xFFFFFFFF
        else data + v)"

definition set_diag :: "nat \<Rightarrow> (acmdrv_diagnostics \<Rightarrow> acmdrv_diagnostics) \<Rightarrow> kacm \<Rightarrow> kacm" where
  "set_diag b f s = upd_bypass b (\<lambda>bp. bp\<lparr>bp_diag := f (bp_diag bp)\<rparr>) s"

fun acculmulate_values :: "u32 \<Rightarrow> nat \<Rightarrow> u32 list \<Rightarrow> (nat \<Rightarrow> u32) \<Rightarrow> nat \<Rightarrow> u32" where
  "acculmulate_values m off [] d = d"
| "acculmulate_values m off (raw # raws) d =
     acculmulate_values m (off + 4) raws (d(off := acculmulate_value m (d off) raw))"

text \<open>\<open>None\<close>: the values were not read, and the uninitialised array is used.\<close>

definition bypass_diag_acculmulate :: "nat \<Rightarrow> bypass_diag_access_helper \<Rightarrow> kacm \<Rightarrow> kacm option" where
  "bypass_diag_acculmulate b acc s =
     (case bypass_block_read_direct b (ACM_BYPASS_STATUS_AREA + dh_regoffs acc) (dh_count acc * 4) s of
        (_, Some raws, s) \<Rightarrow> Some (set_diag b (\<lambda>d. d\<lparr>dg_data :=
           acculmulate_values (dh_mask acc) (dh_dataoffs acc) raws (dg_data d)\<rparr>) s)
      | (_, None, s) \<Rightarrow> None)"

definition diag_or :: "bypass_diag_access_helper \<Rightarrow> u32 \<Rightarrow> acmdrv_diagnostics \<Rightarrow> acmdrv_diagnostics" where
  "diag_or acc raw d = d\<lparr>dg_data := (dg_data d)(dh_dataoffs acc :=
     dg_data d (dh_dataoffs acc) OR (raw AND dh_mask acc))\<rparr>"

definition bypass_diag_or :: "nat \<Rightarrow> bypass_diag_access_helper \<Rightarrow> kacm \<Rightarrow> kacm" where
  "bypass_diag_or b acc s = (let (raw, s) = bypass_status_area_read b (dh_regoffs acc) s in
     set_diag b (diag_or acc raw) s)"

definition bypass_diag_or_no_frames_received :: "nat \<Rightarrow> bypass_diag_access_helper \<Rightarrow> kacm \<Rightarrow> kacm" where
  "bypass_diag_or_no_frames_received b acc s =
     (let (raw, s) = bypass_status_area_read b (dh_regoffs acc) s;
          s = set_diag b (diag_or acc raw) s in
      upd_bypass b (\<lambda>bp. bp\<lparr>bp_nfr_flags := bp_nfr_flags bp OR (raw AND dh_mask acc)\<rparr>) s)"

definition UPDATE_TIMESTAMP_S :: int where [simp]: "UPDATE_TIMESTAMP_S = 255"

text \<open>The seconds of the register completed by the upper bits of the seconds of the clock.\<close>

definition fixup_seconds :: "int \<Rightarrow> int \<Rightarrow> int" where
  "fixup_seconds now_sec sec =
     (let t = sec + (now_sec AND NOT UPDATE_TIMESTAMP_S) in
      if t AND UPDATE_TIMESTAMP_S < sec then t - (UPDATE_TIMESTAMP_S + 1) else t)"

definition bypass_fixup_diag_timestamp :: "nat \<Rightarrow> kacm \<Rightarrow> kacm" where
  "bypass_fixup_diag_timestamp b s = (let (now, s) = scheduler_ktime_get_ptp s in
     set_diag b (\<lambda>d. d\<lparr>dg_sec := fixup_seconds (ts_sec (ktime_to_timespec64 now)) (dg_sec d)\<rparr>) s)"

text \<open>The registers are read until the seconds do not change; \<open>None\<close> when this never happens.\<close>

partial_function (option) read_diag_timestamp :: "nat \<Rightarrow> kacm \<Rightarrow> kacm option" where
  "read_diag_timestamp b s = (case bypass_status_area_read b 0x748 s of
     (oldsec, s) \<Rightarrow> (case bypass_status_area_read b 0x744 s of
     (ns, s) \<Rightarrow> (case bypass_status_area_read b 0x748 s of
     (sec, s) \<Rightarrow>
       let s = set_diag b (\<lambda>d. d\<lparr>dg_nsec := ns, dg_sec := uint sec\<rparr>) s in
       if oldsec \<noteq> sec then read_diag_timestamp b s else Some s)))"

definition bypass_diag_timestamp :: "nat \<Rightarrow> kacm \<Rightarrow> kacm option" where
  "bypass_diag_timestamp b s = map_option (bypass_fixup_diag_timestamp b) (read_diag_timestamp b s)"

definition diag_read :: "nat \<Rightarrow> bypass_diag_access_helper \<Rightarrow> kacm \<Rightarrow> kacm option" where
  "diag_read b acc s = (case dh_read acc of
     Acculmulate \<Rightarrow> bypass_diag_acculmulate b acc s
   | Or_flags \<Rightarrow> Some (bypass_diag_or b acc s)
   | Or_no_frames_received \<Rightarrow> Some (bypass_diag_or_no_frames_received b acc s)
   | Timestamp \<Rightarrow> bypass_diag_timestamp b s)"

definition diag_access :: "nat \<Rightarrow> u32 \<Rightarrow> nat \<Rightarrow> diag_reader \<Rightarrow> nat \<Rightarrow> bypass_diag_access_helper" where
  "diag_access reg m off rd n =
     \<lparr>dh_regoffs = reg, dh_mask = m, dh_dataoffs = off, dh_read = rd, dh_count = n\<rparr>"

definition cycle_counter_access :: bypass_diag_access_helper where
  "cycle_counter_access = diag_access 0x74C (GENMASK 7 0) 12 Acculmulate 1"

definition no_frame_received_access :: bypass_diag_access_helper where
  "no_frame_received_access = diag_access 0x660 (GENMASK 15 0) 92 Or_no_frames_received 1"

definition bypass_diag_access :: "bypass_diag_access_helper list" where
  "bypass_diag_access =
     [cycle_counter_access,
      diag_access 0x744 0xFFFFFFFF 0 Timestamp 1,
      diag_access 0x600 (GENMASK 15 0) 20 Acculmulate 1,
      diag_access 0x604 (GENMASK 15 0) 16 Acculmulate 1,
      diag_access 0x610 (GENMASK 15 0) 24 Or_flags 1,
      diag_access 0x614 (GENMASK 7 0) 28 Acculmulate ACMDRV_BYPASS_NR_RULES,
      no_frame_received_access,
      diag_access 0x664 (GENMASK 7 0) 96 Acculmulate ACMDRV_BYPASS_NR_RULES,
      diag_access 0x6B0 (GENMASK 15 0) 160 Or_flags 1,
      diag_access 0x6B4 (GENMASK 7 0) 164 Acculmulate ACMDRV_BYPASS_NR_RULES,
      diag_access 0x700 (GENMASK 15 0) 228 Or_flags 1,
      diag_access 0x704 (GENMASK 7 0) 232 Acculmulate ACMDRV_BYPASS_NR_RULES]"

text \<open>The counter of retries goes down from \<^verbatim>\<open>max_diag_retry\<close>.\<close>

fun diag_update_loop :: "nat \<Rightarrow> nat \<Rightarrow> kacm \<Rightarrow> (int \<times> kacm) option" where
  "diag_update_loop b 0 s = Some (- ETIMEDOUT, s)"
| "diag_update_loop b (Suc n) s = do {
     s \<leftarrow> foreach_upd (diag_read b) bypass_diag_access s;
     let counter = dg_data (bp_diag (k_bypass s b)) 12;
     s \<leftarrow> diag_read b cycle_counter_access s;
     if counter = dg_data (bp_diag (k_bypass s b)) 12 then Some (0, s) else diag_update_loop b n s }"

definition bypass_diag_update :: "nat \<Rightarrow> kacm \<Rightarrow> (int \<times> kacm) option" where
  "bypass_diag_update b s = diag_update_loop b (max_diag_retry (k_env s)) s"

definition empty_diag :: acmdrv_diagnostics where
  "empty_diag = \<lparr>dg_sec = 0, dg_nsec = 0, dg_data = (\<lambda>_. 0)\<rparr>"

definition bypass_diag_reset :: "nat \<Rightarrow> kacm \<Rightarrow> kacm" where
  "bypass_diag_reset b s = set_diag b (\<lambda>_. empty_diag) s"

definition bypass_diag_init :: "nat \<Rightarrow> kacm \<Rightarrow> (int \<times> kacm) option" where
  "bypass_diag_init b s = (let (ret, s) = lock_intr s in
     if ret \<noteq> 0 then Some (ret, s) else bypass_diag_update b (bypass_diag_reset b s))"

definition restart_diag_work :: "nat \<Rightarrow> kacm \<Rightarrow> kacm" where
  "restart_diag_work b s = (if 0 < bp_diag_poll_time (k_bypass s b)
     then upd_bypass b (\<lambda>bp. bp\<lparr>bp_diag_work := Some (msecs_to_jiffies (k_env s) (bp_diag_poll_time bp))\<rparr>) s else s)"

text \<open>The third component is the data the caller gets, if any.\<close>

definition bypass_diag_read :: "nat \<Rightarrow> kacm \<Rightarrow> (int \<times> acmdrv_diagnostics option \<times> kacm) option" where
  "bypass_diag_read b s = (let (ret, s) = lock_intr s in
     if ret \<noteq> 0 then Some (ret, None, s)
     else do {
       (ret, s) \<leftarrow> bypass_diag_update b s;
       if ret \<noteq> 0 then Some (ret, None, restart_diag_work b s)
       else let diag = bp_diag (k_bypass s b);
                s = (if clear_on_read (k_env s) then bypass_diag_reset b s else s) in
         Some (ret, Some diag, restart_diag_work b s) })"

definition bypass_diag_poll :: "nat \<Rightarrow> kacm \<Rightarrow> kacm option" where
  "bypass_diag_poll b s =
     (let (ret, s) = lock_intr (upd_bypass b (\<lambda>bp. bp\<lparr>bp_diag_work := None\<rparr>) s) in
      if ret \<noteq> 0 then Some s
      else do { (_, s) \<leftarrow> bypass_diag_update b s; Some (restart_diag_work b s) })"

definition bypass_get_diag_poll_time :: "nat \<Rightarrow> kacm \<Rightarrow> u32" where
  "bypass_get_diag_poll_time b s = bp_diag_poll_time (k_bypass s b)"

definition bypass_set_diag_poll_time :: "u32 \<Rightarrow> nat \<Rightarrow> kacm \<Rightarrow> kacm" where
  "bypass_set_diag_poll_time poll b s =
     (if bp_diag_poll_time (k_bypass s b) = poll then s
      else upd_bypass b (\<lambda>bp. bp\<lparr>bp_diag_poll_time := poll,
        bp_diag_work := (if 0 < poll then Some (msecs_to_jiffies (k_env s) poll) else None)\<rparr>) s)"

section \<open>Recovery flags\<close>

text \<open>The bit \<open>1 << idx\<close>; the callers use rule numbers below 16.\<close>

definition bit_of :: "nat \<Rightarrow> u32" where
  "bit_of idx = push_bit idx 1"

definition bypass_recovery_no_frame_received :: "nat \<Rightarrow> nat \<Rightarrow> kacm \<Rightarrow> bool \<times> kacm" where
  "bypass_recovery_no_frame_received b idx s =
     (let s = bypass_diag_or_no_frames_received b no_frame_received_access s;
          ret = (bp_nfr_flags (k_bypass s b) AND bit_of idx \<noteq> 0) in
      (ret, upd_bypass b (\<lambda>bp. bp\<lparr>bp_nfr_flags := bp_nfr_flags bp AND NOT (bit_of idx)\<rparr>) s))"

definition bypass_recovery_take_any :: "nat \<Rightarrow> nat \<Rightarrow> kacm \<Rightarrow> kacm" where
  "bypass_recovery_take_any b idx s =
     (let (take_any, s) = bypass_control_area_read b CONTROL_INDIV_RECOV_TAKE_ANY s in
      bypass_control_area_write b CONTROL_INDIV_RECOV_TAKE_ANY (take_any OR bit_of idx) s)"

section \<open>Cleanup\<close>

definition bypass_cleanup :: "nat \<Rightarrow> kacm \<Rightarrow> kacm" where
  "bypass_cleanup b s =
     (let s = acm_iowrite32_set (R_Bypass b) ACM_BYPASS_STREAM_IDENT 0 (ACMDRV_BYPASS_NR_RULES * 2 * 128) s;
          s = acm_iowrite32_set (R_Bypass b) ACM_BYPASS_DMA_CMD_LOOKUP 0 ((ACMDRV_BYPASS_NR_RULES + 1) * 4) s;
          s = acm_iowrite32_set (R_Bypass b) ACM_BYPASS_SCATTER_DMA 0 (256 * 4) s;
          s = acm_iowrite32_set (R_Bypass b) ACM_BYPASS_GATHER_DMA_PREFETCH 0 (256 * 4) s;
          s = acm_iowrite32_set (R_Bypass b) ACM_BYPASS_GATHER_DMA_EXEC 0 (256 * 4) s in
      acm_iowrite32_set (R_Bypass b) ACM_BYPASS_CONSTANT_BUFFER 0 4096 s)"

section \<open>Link events\<close>

definition bypass_output_enable :: "nat \<Rightarrow> bool \<Rightarrow> kacm \<Rightarrow> kacm" where
  "bypass_output_enable b onoff s = bypass_control_area_write b CONTROL_OUTPUT_DISABLE (if onoff then 0 else 1) s"

datatype netdev_event = NETDEV_UP | NETDEV_DOWN | NETDEV_CHANGE | NETDEV_OTHER

text \<open>
  The arguments: the network device the phy of every module is attached to (\<open>None\<close> without a phy
  or without a device), the device of the event, whether its carrier is on and whether it runs.
\<close>

definition bypass_netdev_event :: "(nat \<Rightarrow> nat option) \<Rightarrow> nat \<Rightarrow> netdev_event \<Rightarrow> bool \<Rightarrow> bool \<Rightarrow> kacm \<Rightarrow> kacm" where
  "bypass_netdev_event attached_dev ndev ev carrier_ok running s =
     fold (\<lambda>i s. if attached_dev i \<noteq> Some ndev then s
       else case ev of
           NETDEV_UP \<Rightarrow> if carrier_ok then bypass_output_enable i True s else s
         | NETDEV_DOWN \<Rightarrow> bypass_output_enable i False s
         | NETDEV_CHANGE \<Rightarrow> if running then bypass_output_enable i carrier_ok s else s
         | NETDEV_OTHER \<Rightarrow> s) [0..<ACMDRV_BYPASS_MODULES_COUNT] s"

section \<open>Initialisation\<close>

definition init_bypass :: bypass where
  "init_bypass = \<lparr>bp_diag = empty_diag, bp_diag_poll_time = 0, bp_diag_work = None, bp_active = False,
     bp_nfr_flags = 0\<rparr>"

text \<open>
  One module; \<open>map_ret\<close> is the result of composing the name of its resource and mapping its
  registers. The scheduler does not exist yet; the PTP time is then zero. The connection mode is written
  through the first element of the array, not through the element of the module.
\<close>

definition bypass_init_module :: "(nat \<Rightarrow> int) \<Rightarrow> nat \<Rightarrow> kacm \<Rightarrow> (int \<times> kacm) option" where
  "bypass_init_module map_ret i s =
     (if map_ret i < 0 then Some (map_ret i, s)
      else let s = bypass_enable i False s;
               s = bypass_control_area_write 0 CONTROL_CONNECTION_MODE 1 s;
               s = upd_bypass i (\<lambda>bp. bp\<lparr>bp_nfr_flags := 0\<rparr>) s in
        do {
          (ret, s) \<leftarrow> bypass_diag_init i s;
          if ret \<noteq> 0 then Some (ret, s)
          else Some (0, bypass_set_diag_poll_time (diag_poll (k_env s)) i s) })"

definition bypass_init :: "bool \<Rightarrow> (nat \<Rightarrow> int) \<Rightarrow> int \<Rightarrow> kacm \<Rightarrow> (int \<times> kacm) option" where
  "bypass_init alloc map_ret notifier_ret s =
     (if \<not> alloc then Some (- ENOMEM, s)
      else do {
        (ret, s) \<leftarrow> foreach_st (bypass_init_module map_ret) [0..<ACMDRV_BYPASS_MODULES_COUNT]
          (s\<lparr>k_bypass := (\<lambda>_. init_bypass)\<rparr>);
        Some (if ret \<noteq> 0 then ret else notifier_ret, s) })"

definition bypass_exit :: "kacm \<Rightarrow> kacm" where
  "bypass_exit s = fold (\<lambda>i. upd_bypass i (\<lambda>bp. bp\<lparr>bp_diag_work := None\<rparr>)) [0..<ACMDRV_BYPASS_MODULES_COUNT] s"

end
