(* ===== verification/Acm_Drv_Redundancy.thy ===== *)
theory Acm_Drv_Redundancy
  imports Acm_Drv_Bypass
begin

text \<open>
  The redundancy module (\<^verbatim>\<open>redundancy.c\<close>): checked access, the recovery timeouts of the rules of a
  bypass module (individual) and of the entries of the sequence number table (base), and the
  periodic work that counts down the remaining ticks while no frame comes.
\<close>

section \<open>Registers\<close>

definition ACM_REDUN_COMMON :: nat where [simp]: "ACM_REDUN_COMMON = 0"
definition ACM_REDUN_STATUSTAB :: nat where [simp]: "ACM_REDUN_STATUSTAB = 0x400"
definition ACM_REDUN_INTSEQNNUMTAB :: nat where [simp]: "ACM_REDUN_INTSEQNNUMTAB = 0x600"

definition ACM_REDUN_CTRLTAB :: "nat \<Rightarrow> nat" where
  "ACM_REDUN_CTRLTAB i = 0x200 + i * 0x100"

definition REDUND_FRAMES_PRODUCED :: "nat \<Rightarrow> nat" where [simp]: "REDUND_FRAMES_PRODUCED x = x * 4"
definition BASE_RECOVERY_TAKE_ANY :: nat where [simp]: "BASE_RECOVERY_TAKE_ANY = 8"
definition BASE_RECOVERY_ENABLE :: nat where [simp]: "BASE_RECOVERY_ENABLE = 0xC"

definition ACMDRV_REDUN_CTRLTAB_COUNT :: nat where [simp]: "ACMDRV_REDUN_CTRLTAB_COUNT = 2"
definition ACMDRV_REDUN_TABLE_ENTRY_COUNT :: nat where [simp]: "ACMDRV_REDUN_TABLE_ENTRY_COUNT = 32"

definition redundancy_size :: "kacm \<Rightarrow> nat" where
  "redundancy_size s = k_size (k_env s) R_Redundancy"

definition redundancy_area_read :: "nat \<Rightarrow> nat \<Rightarrow> kacm \<Rightarrow> u32 \<times> kacm" where
  "redundancy_area_read area off s = (if redundancy_size s \<le> area + off then (0, s)
     else readl R_Redundancy (area + off) s)"

definition redundancy_area_write :: "nat \<Rightarrow> nat \<Rightarrow> u32 \<Rightarrow> kacm \<Rightarrow> kacm" where
  "redundancy_area_write area off v s = (if redundancy_size s \<le> area + off then s
     else writel v R_Redundancy (area + off) s)"

text \<open>\<open>None\<close>: an uninitialised buffer is copied.\<close>

definition redundancy_block_read :: "nat \<Rightarrow> nat \<Rightarrow> u8 list \<Rightarrow> kacm \<Rightarrow> (u8 list \<times> kacm) option" where
  "redundancy_block_read off sz dest s = (if redundancy_size s \<le> sz + off then Some (dest, s)
     else case acm_ioread32_copy R_Redundancy off sz s of
        (None, s) \<Rightarrow> None
      | (Some ws, s) \<Rightarrow> Some (concat (map put_u32 ws), s))"

definition redundancy_block_write :: "u8 list \<Rightarrow> nat \<Rightarrow> nat \<Rightarrow> kacm \<Rightarrow> kacm" where
  "redundancy_block_write src off sz s = (if redundancy_size s \<le> sz + off then s
     else acm_iowrite32_copy R_Redundancy off src sz s)"

definition redundancy_cleanup :: "kacm \<Rightarrow> kacm" where
  "redundancy_cleanup s =
     (let s = fold (\<lambda>i s. fold (\<lambda>j. redundancy_area_write (ACM_REDUN_CTRLTAB i) (j * 4) 0)
                [0..<ACMDRV_REDUN_TABLE_ENTRY_COUNT] s) [0..<ACMDRV_REDUN_CTRLTAB_COUNT] s in
      redundancy_block_write (replicate 128 0) ACM_REDUN_INTSEQNNUMTAB 128 s)"

section \<open>Recovery data\<close>

definition upd_individual :: "nat \<Rightarrow> nat \<Rightarrow> (recovery_data \<Rightarrow> recovery_data) \<Rightarrow> kacm \<Rightarrow> kacm" where
  "upd_individual md rule f s = s\<lparr>k_recovery := (k_recovery s)\<lparr>rc_individual :=
     (rc_individual (k_recovery s))(rule := (rc_individual (k_recovery s) rule)(md :=
        f (rc_individual (k_recovery s) rule md)))\<rparr>\<rparr>"

definition upd_base :: "nat \<Rightarrow> (base_recovery_data \<Rightarrow> base_recovery_data) \<Rightarrow> kacm \<Rightarrow> kacm" where
  "upd_base idx f s = s\<lparr>k_recovery := (k_recovery s)\<lparr>rc_base :=
     (rc_base (k_recovery s))(idx := f (rc_base (k_recovery s) idx))\<rparr>\<rparr>"

abbreviation individual_of :: "nat \<Rightarrow> nat \<Rightarrow> kacm \<Rightarrow> recovery_data" where
  "individual_of md rule s \<equiv> rc_individual (k_recovery s) rule md"

abbreviation base_of :: "nat \<Rightarrow> kacm \<Rightarrow> base_recovery_data" where
  "base_of idx s \<equiv> rc_base (k_recovery s) idx"

text \<open>The product is computed with 32 bits.\<close>

definition reset_ticks :: "u32 \<Rightarrow> recovery_data \<Rightarrow> recovery_data" where
  "reset_ticks tps d = d\<lparr>remaining_ticks := (frer_seq_rcvy_reset_msec d * tps + 999) div 1000\<rparr>"

definition read_intseqnum :: "nat \<Rightarrow> kacm \<Rightarrow> u16 \<times> kacm" where
  "read_intseqnum idx s = (let (v, s) = redundancy_area_read ACM_REDUN_INTSEQNNUMTAB (idx * 4) s in
     (ucast (v AND GENMASK 15 0), s))"

definition base_recovery_receive_timeout :: "nat \<Rightarrow> kacm \<Rightarrow> kacm" where
  "base_recovery_receive_timeout idx s =
     (let (take_any, s) = redundancy_area_read ACM_REDUN_COMMON BASE_RECOVERY_TAKE_ANY s in
      redundancy_area_write ACM_REDUN_COMMON BASE_RECOVERY_TAKE_ANY (take_any OR bit_of idx) s)"

definition individual_recovery_receive_timeout :: "nat \<Rightarrow> nat \<Rightarrow> kacm \<Rightarrow> kacm" where
  "individual_recovery_receive_timeout md rule s = bypass_recovery_take_any md rule s"

definition individual_recovery_no_frame_received :: "nat \<Rightarrow> nat \<Rightarrow> kacm \<Rightarrow> bool \<times> kacm" where
  "individual_recovery_no_frame_received md rule s = bypass_recovery_no_frame_received md rule s"

definition set_individual_recovery_timeout :: "nat \<Rightarrow> nat \<Rightarrow> u32 \<Rightarrow> kacm \<Rightarrow> kacm" where
  "set_individual_recovery_timeout md rule timeout s =
     (let (rcvy_enable, s) = bypass_area_read md ACM_BYPASS_CONTROL_AREA CONTROL_INDIV_RECOV_ENABLE s;
          rcvy_enable = (if 0 < timeout then rcvy_enable OR bit_of rule else rcvy_enable AND NOT (bit_of rule));
          s = bypass_area_write md ACM_BYPASS_CONTROL_AREA CONTROL_INDIV_RECOV_ENABLE rcvy_enable s;
          (_, s) = bypass_recovery_no_frame_received md rule s in
      upd_individual md rule (\<lambda>d. reset_ticks (recovery_ticks_per_sec (k_env s))
        (d\<lparr>frer_seq_rcvy_reset_msec := timeout\<rparr>)) s)"

definition set_base_recovery_timeout :: "nat \<Rightarrow> u32 \<Rightarrow> kacm \<Rightarrow> kacm" where
  "set_base_recovery_timeout idx timeout s =
     (let (rcvy_enable, s) = redundancy_area_read ACM_REDUN_COMMON BASE_RECOVERY_ENABLE s;
          (rcvy_enable, seqnum, s) =
            (if 0 < timeout then let (v, s) = read_intseqnum idx s in (rcvy_enable OR bit_of idx, v, s)
             else (rcvy_enable AND NOT (bit_of idx), 0, s));
          s = upd_base idx (\<lambda>d. d\<lparr>br_intseqnum := seqnum\<rparr>) s;
          s = redundancy_area_write ACM_REDUN_COMMON BASE_RECOVERY_ENABLE rcvy_enable s in
      upd_base idx (\<lambda>d. d\<lparr>br_data := reset_ticks (recovery_ticks_per_sec (k_env s))
        ((br_data d)\<lparr>frer_seq_rcvy_reset_msec := timeout\<rparr>)\<rparr>) s)"

section \<open>Interface of the module\<close>

text \<open>The pointers are not NULL.\<close>

definition redundancy_get_individual_recovery_timeout :: "nat \<Rightarrow> nat \<Rightarrow> kacm \<Rightarrow> int \<times> u32 option \<times> kacm" where
  "redundancy_get_individual_recovery_timeout md rule s =
     (if ACMDRV_BYPASS_NR_RULES \<le> rule then (- EINVAL, None, s)
      else if ACMDRV_BYPASS_MODULES_COUNT \<le> md then (- EINVAL, None, s)
      else let (ret, s) = lock_intr s in
      if ret \<noteq> 0 then (ret, None, s)
      else (0, Some (frer_seq_rcvy_reset_msec (individual_of md rule s)), s))"

definition redundancy_set_individual_recovery_timeout :: "nat \<Rightarrow> nat \<Rightarrow> u32 \<Rightarrow> kacm \<Rightarrow> int \<times> kacm" where
  "redundancy_set_individual_recovery_timeout md rule timeout s =
     (if ACMDRV_BYPASS_NR_RULES \<le> rule then (- EINVAL, s)
      else if ACMDRV_BYPASS_MODULES_COUNT \<le> md then (- EINVAL, s)
      else let (ret, s) = lock_intr s in
      if ret \<noteq> 0 then (ret, s)
      else (0, set_individual_recovery_timeout md rule timeout s))"

definition redundancy_get_base_recovery_timeout :: "nat \<Rightarrow> kacm \<Rightarrow> int \<times> u32 option \<times> kacm" where
  "redundancy_get_base_recovery_timeout idx s =
     (if ACMDRV_REDUN_TABLE_ENTRY_COUNT \<le> idx then (- EINVAL, None, s)
      else let (ret, s) = lock_intr s in
      if ret \<noteq> 0 then (ret, None, s)
      else (0, Some (frer_seq_rcvy_reset_msec (br_data (base_of idx s))), s))"

definition redundancy_set_base_recovery_timeout :: "nat \<Rightarrow> u32 \<Rightarrow> kacm \<Rightarrow> int \<times> kacm" where
  "redundancy_set_base_recovery_timeout idx timeout s =
     (if ACMDRV_REDUN_TABLE_ENTRY_COUNT \<le> idx then (- EINVAL, s)
      else let (ret, s) = lock_intr s in
      if ret \<noteq> 0 then (ret, s)
      else (0, set_base_recovery_timeout idx timeout s))"

definition redundancy_get_redund_frames_produced :: "nat \<Rightarrow> kacm \<Rightarrow> u32 \<times> kacm" where
  "redundancy_get_redund_frames_produced modidx s =
     redundancy_area_read ACM_REDUN_COMMON (REDUND_FRAMES_PRODUCED modidx) s"

section \<open>The recovery tick\<close>

definition individual_recovery_process :: "nat \<Rightarrow> nat \<Rightarrow> kacm \<Rightarrow> kacm" where
  "individual_recovery_process md rule s =
     (if frer_seq_rcvy_reset_msec (individual_of md rule s) = 0 then s
      else let (none, s) = individual_recovery_no_frame_received md rule s;
               reset = upd_individual md rule (reset_ticks (recovery_ticks_per_sec (k_env s))) in
      if none
      then let s = upd_individual md rule (\<lambda>d. d\<lparr>remaining_ticks := remaining_ticks d - 1\<rparr>) s in
        if 0 < remaining_ticks (individual_of md rule s) then s
        else reset (individual_recovery_receive_timeout md rule s)
      else reset s)"

definition base_recovery_process :: "nat \<Rightarrow> kacm \<Rightarrow> kacm" where
  "base_recovery_process idx s =
     (if frer_seq_rcvy_reset_msec (br_data (base_of idx s)) = 0 then s
      else let (intseqnum, s) = read_intseqnum idx s;
               reset = upd_base idx (\<lambda>d. d\<lparr>br_intseqnum := intseqnum,
                 br_data := reset_ticks (recovery_ticks_per_sec (k_env s)) (br_data d)\<rparr>) in
      if intseqnum = br_intseqnum (base_of idx s)
      then let s = upd_base idx (\<lambda>d. d\<lparr>br_data := (br_data d)\<lparr>remaining_ticks := remaining_ticks (br_data d) - 1\<rparr>\<rparr>) s in
        if 0 < remaining_ticks (br_data (base_of idx s)) then s
        else reset (base_recovery_receive_timeout idx s)
      else reset s)"

definition recovery_process :: "kacm \<Rightarrow> kacm" where
  "recovery_process s =
     (let s = fold (\<lambda>m s. fold (individual_recovery_process m) [0..<ACMDRV_BYPASS_NR_RULES] s)
                [0..<ACMDRV_BYPASS_MODULES_COUNT] s in
      fold base_recovery_process [0..<ACMDRV_REDUN_TABLE_ENTRY_COUNT] s)"

definition set_recovery_tick :: "u32 \<Rightarrow> kacm \<Rightarrow> kacm" where
  "set_recovery_tick ticks_per_second s =
     (if ticks_per_second = 0
      then s\<lparr>k_recovery := (k_recovery s)\<lparr>rc_interval := 0, rc_work := None\<rparr>\<rparr>
      else let interval = 1000000000 div unat ticks_per_second in
        s\<lparr>k_recovery := (k_recovery s)\<lparr>rc_interval := interval, rc_work := Some (nsecs_to_jiffies (k_env s) interval)\<rparr>\<rparr>)"

definition recovery_work :: "kacm \<Rightarrow> kacm" where
  "recovery_work s =
     (let s = s\<lparr>k_recovery := (k_recovery s)\<lparr>rc_work := None\<rparr>\<rparr> in
      if 0 < rc_interval (k_recovery s)
      then let s = recovery_process s in
        s\<lparr>k_recovery := (k_recovery s)\<lparr>rc_work := Some (nsecs_to_jiffies (k_env s) (rc_interval (k_recovery s)))\<rparr>\<rparr>
      else s)"

definition clear_recovery_timeouts :: "kacm \<Rightarrow> kacm" where
  "clear_recovery_timeouts s =
     (let s = fold (\<lambda>m s. fold (\<lambda>r. set_individual_recovery_timeout m r 0) [0..<ACMDRV_BYPASS_NR_RULES] s)
                [0..<ACMDRV_BYPASS_MODULES_COUNT] s in
      fold (\<lambda>idx. set_base_recovery_timeout idx 0) [0..<ACMDRV_REDUN_TABLE_ENTRY_COUNT] s)"

definition recovery_init :: "kacm \<Rightarrow> kacm" where
  "recovery_init s = set_recovery_tick (recovery_ticks_per_sec (k_env s)) (clear_recovery_timeouts s)"

definition recovery_exit :: "kacm \<Rightarrow> kacm" where
  "recovery_exit s = clear_recovery_timeouts (set_recovery_tick 0 s)"

definition redundancy_init :: "bool \<Rightarrow> int \<Rightarrow> kacm \<Rightarrow> int \<times> kacm" where
  "redundancy_init alloc map_ret s =
     (if \<not> alloc then (- ENOMEM, s)
      else if map_ret < 0 then (map_ret, s)
      else (0, recovery_init s))"

definition redundancy_exit :: "kacm \<Rightarrow> kacm" where
  "redundancy_exit s = recovery_exit s"

end
