(* ===== verification/Acm_Drv_Msgbuf.thy ===== *)
theory Acm_Drv_Msgbuf
  imports Acm_Drv_Redundancy
begin

text \<open>
  The common registers (\<^verbatim>\<open>commreg.c\<close>), the message buffers (\<^verbatim>\<open>msgbuf.c\<close>) and the reset
  (\<^verbatim>\<open>reset.c\<close>). The arrays of the message buffers have one element per buffer; \<open>None\<close> is an access
  beyond their end.
\<close>

section \<open>Common registers\<close>

definition commreg_reset :: "kacm \<Rightarrow> kacm" where
  "commreg_reset s = writel 1 R_CommonRegister 0x200 s"

definition commreg_read_version :: "kacm \<Rightarrow> string" where
  "commreg_read_version s = (case k_commreg s of Some c \<Rightarrow> cr_version c | None \<Rightarrow> ''unkown'')"

definition commreg_read_revision :: "kacm \<Rightarrow> string" where
  "commreg_read_revision s = (case k_commreg s of Some c \<Rightarrow> cr_revision c | None \<Rightarrow> ''unkown'')"

definition commreg_read_device_id :: "kacm \<Rightarrow> u32" where
  "commreg_read_device_id s = (case k_commreg s of Some c \<Rightarrow> cr_device_id c | None \<Rightarrow> 0)"

definition commreg_read_extended_status :: "kacm \<Rightarrow> bool" where
  "commreg_read_extended_status s = (case k_commreg s of Some c \<Rightarrow> cr_extended_status c | None \<Rightarrow> False)"

definition commreg_read_testmodule_enable :: "kacm \<Rightarrow> bool" where
  "commreg_read_testmodule_enable s = (case k_commreg s of Some c \<Rightarrow> cr_testmodule_enable c | None \<Rightarrow> False)"

definition commreg_read_cfg_read_back :: "kacm \<Rightarrow> bool" where
  "commreg_read_cfg_read_back s = (case k_commreg s of Some c \<Rightarrow> cr_cfg_read_back c | None \<Rightarrow> True)"

definition commreg_read_individual_recovery :: "kacm \<Rightarrow> bool" where
  "commreg_read_individual_recovery s = (case k_commreg s of Some c \<Rightarrow> cr_individual_recovery c | None \<Rightarrow> False)"

definition commreg_read_rx_redundancy :: "kacm \<Rightarrow> bool" where
  "commreg_read_rx_redundancy s = (case k_commreg s of Some c \<Rightarrow> cr_rx_redundancy c | None \<Rightarrow> False)"

definition commreg_read_time_freq :: "kacm \<Rightarrow> u32" where
  "commreg_read_time_freq s = (case k_commreg s of Some c \<Rightarrow> cr_time_freq c | None \<Rightarrow> 100000000)"

definition commreg_read_msgbuf_memsize :: "kacm \<Rightarrow> u32" where
  "commreg_read_msgbuf_memsize s = (case k_commreg s of Some c \<Rightarrow> cr_msgbuf_memsize c | None \<Rightarrow> 0x4000)"

definition commreg_read_msgbuf_count :: "kacm \<Rightarrow> nat" where
  "commreg_read_msgbuf_count s = (case k_commreg s of Some c \<Rightarrow> unat (cr_msgbuf_count c) | None \<Rightarrow> 32)"

definition commreg_read_msgbuf_datawidth :: "kacm \<Rightarrow> u32" where
  "commreg_read_msgbuf_datawidth s = (case k_commreg s of Some c \<Rightarrow> cr_msgbuf_datawidth c | None \<Rightarrow> 4)"

definition commreg_read_configuration_id :: "kacm \<Rightarrow> u32 \<times> kacm" where
  "commreg_read_configuration_id s = (case k_commreg s of None \<Rightarrow> (0, s)
     | Some _ \<Rightarrow> readl R_CommonRegister 0x300 s)"

definition commreg_write_configuration_id :: "u32 \<Rightarrow> kacm \<Rightarrow> kacm" where
  "commreg_write_configuration_id cid s = (case k_commreg s of None \<Rightarrow> s
     | Some _ \<Rightarrow> writel cid R_CommonRegister 0x300 s)"

definition version_text :: "u32 \<Rightarrow> string" where
  "version_text v = (if v AND GENMASK 7 0 = 0xFF then ''unknown''
     else print_dec (unat (RVAL 31 24 v)) @ ''.'' @ print_dec (unat (RVAL 23 16 v)) @ ''.'' @
       print_dec (unat (RVAL 15 8 v)))"

definition generic_commreg :: "u32 \<Rightarrow> u32 \<Rightarrow> u32 \<Rightarrow> u32 \<Rightarrow> u32 \<Rightarrow> commreg" where
  "generic_commreg version revision dev g0 g1 = \<lparr>cr_version = version_text version,
     cr_revision = print_hex (unat revision), cr_device_id = dev,
     cr_extended_status = (g0 AND 1 \<noteq> 0), cr_testmodule_enable = (g0 AND 2 \<noteq> 0),
     cr_time_freq = read_bitmask g0 (GENMASK 31 16) * 1000 * 1000,
     cr_msgbuf_memsize = (if g1 AND GENMASK 15 0 = 16 then 0x10000
       else if g1 AND GENMASK 15 0 = 12 then 0x4000 else - 1),
     cr_msgbuf_count = (if read_bitmask g0 (GENMASK 11 5) = 0 then 32 else read_bitmask g0 (GENMASK 11 5)),
     cr_msgbuf_datawidth = 4, cr_cfg_read_back = (g0 AND 4 \<noteq> 0),
     cr_individual_recovery = (g0 AND 8 \<noteq> 0), cr_rx_redundancy = (g0 AND 16 \<noteq> 0)\<rparr>"

definition commreg_init :: "bool \<Rightarrow> int \<Rightarrow> kacm \<Rightarrow> int \<times> kacm" where
  "commreg_init alloc map_ret s =
     (if k_if_id s = ACM_IF_1_0 then (0, s\<lparr>k_commreg := None\<rparr>)
      else if \<not> alloc then (- ENOMEM, s)
      else if map_ret < 0 then (map_ret, s)
      else let (version, s) = readl R_CommonRegister 4 s;
               (revision, s) = readl R_CommonRegister 8 s;
               (dev, s) = readl R_CommonRegister 0 s;
               (g0, s) = readl R_CommonRegister 0x100 s;
               (g1, s) = readl R_CommonRegister 0x104 s in
        (0, s\<lparr>k_commreg := Some (generic_commreg version revision dev g0 g1)\<rparr>))"

section \<open>Reset\<close>

text \<open>The GPIO is polled at most 16 times after the first look.\<close>

fun wait_rstin :: "nat \<Rightarrow> bool \<Rightarrow> kacm \<Rightarrow> bool \<times> kacm" where
  "wait_rstin n v s = (let got = k_rstin (k_env s) (k_io s); s = log_io Gpio_get s in
     if got = v then (True, s)
     else case n of 0 \<Rightarrow> (False, s) | Suc n \<Rightarrow> wait_rstin n v s)"

definition reset_gpio :: "kacm \<Rightarrow> int \<times> kacm" where
  "reset_gpio s =
     (if \<not> k_rstout_valid (k_env s) then (0, s)
      else let s = log_io (Gpio_set True) s in
      if k_rstin_valid (k_env s)
      then let (up, s) = wait_rstin 16 True s in
        if \<not> up then (- ETIMEDOUT, log_io (Gpio_set False) s)
        else let (down, s) = wait_rstin 16 False (log_io (Gpio_set False) s) in
          if \<not> down then (- ETIMEDOUT, s) else (0, log_io (Gpio_set False) s)
      else (0, log_io (Gpio_set False) s))"

definition reset_register :: "kacm \<Rightarrow> int \<times> kacm" where
  "reset_register s = (0, commreg_reset s)"

definition reset_trigger :: "kacm \<Rightarrow> int \<times> kacm" where
  "reset_trigger s = (if k_if_id s = ACM_IF_1_0 then reset_gpio s else reset_register s)"

text \<open>\<open>gpio_ret\<close>: the first error of requesting the GPIOs, or zero.\<close>

definition reset_init :: "bool \<Rightarrow> int \<Rightarrow> kacm \<Rightarrow> int \<times> kacm" where
  "reset_init alloc gpio_ret s =
     (if \<not> alloc then (- ENOMEM, s)
      else if k_if_id s = ACM_IF_1_0
      then if gpio_ret \<noteq> 0 then (gpio_ret, s)
        else (0, if k_rstout_valid (k_env s) then log_io (Gpio_set False) s else s)
      else reset_register s)"

section \<open>Message buffers\<close>

definition ENODATA :: int where [simp]: "ENODATA = 61"

definition ACM_MSGBUF_DESC :: "nat \<Rightarrow> nat" where [simp]: "ACM_MSGBUF_DESC i = i * 4"
definition ACM_MSGBUF_LOCK_CTL :: nat where [simp]: "ACM_MSGBUF_LOCK_CTL = 0x200"
definition ACM_MSGBUF_STATUS :: "nat \<Rightarrow> nat" where [simp]: "ACM_MSGBUF_STATUS i = 0x600 + i * 4"
definition ACM_MSGBUF_DATA :: "nat \<Rightarrow> nat" where [simp]: "ACM_MSGBUF_DATA i = 0x10000 + i * 0x800"

definition ACM_MSGBUF_STATUS_OVERWRITTEN :: u32 where "ACM_MSGBUF_STATUS_OVERWRITTEN = GENMASK 2 2"
definition ACM_MSGBUF_STATUS_EMPTY :: u32 where "ACM_MSGBUF_STATUS_EMPTY = GENMASK 28 28"
definition ACM_MSGBUF_DESC_TYPE :: u32 where "ACM_MSGBUF_DESC_TYPE = GENMASK 20 20"
definition ACM_MSGBUF_DESC_SUBBUFFER_SIZE :: u32 where "ACM_MSGBUF_DESC_SUBBUFFER_SIZE = GENMASK 29 21"
definition ACM_MSGBUF_DESC_VALID :: u32 where "ACM_MSGBUF_DESC_VALID = GENMASK 31 31"

definition ACM_MSGBUF_TYPE_RX :: u32 where [simp]: "ACM_MSGBUF_TYPE_RX = 0"
definition ACM_MSGBUF_TYPE_TX :: u32 where [simp]: "ACM_MSGBUF_TYPE_TX = 1"

definition msgbuf_res_size :: "kacm \<Rightarrow> nat" where
  "msgbuf_res_size s = k_size (k_env s) R_Messagebuffer"

definition lock_words :: "kacm \<Rightarrow> nat" where
  "lock_words s = (commreg_read_msgbuf_count s + 31) div 32"

text \<open>\<^verbatim>\<open>struct acmdrv_msgbuf_lock_ctrl\<close> has room for 64 bits.\<close>

definition LOCK_CTRL_SIZE :: nat where [simp]: "LOCK_CTRL_SIZE = 8"

fun read_lock_words :: "nat list \<Rightarrow> bitarray \<Rightarrow> kacm \<Rightarrow> (bitarray \<times> kacm) option" where
  "read_lock_words [] l s = Some (l, s)"
| "read_lock_words (i # js) l s = (if i < length l
     then let (v, s) = readl R_Messagebuffer (ACM_MSGBUF_LOCK_CTL + i * 4) s in read_lock_words js (l[i := v]) s
     else None)"

fun write_lock_words :: "nat list \<Rightarrow> bitarray \<Rightarrow> kacm \<Rightarrow> kacm option" where
  "write_lock_words [] l s = Some s"
| "write_lock_words (i # js) l s = (if i < length l
     then write_lock_words js l (writel (l ! i) R_Messagebuffer (ACM_MSGBUF_LOCK_CTL + i * 4) s)
     else None)"

definition msgbuf_read_lock_ctl :: "bitarray \<Rightarrow> kacm \<Rightarrow> (bitarray \<times> kacm) option" where
  "msgbuf_read_lock_ctl l s = read_lock_words [0..<lock_words s] l s"

definition msgbuf_write_lock_ctl :: "bitarray \<Rightarrow> kacm \<Rightarrow> kacm option" where
  "msgbuf_write_lock_ctl l s = write_lock_words [0..<lock_words s] l s"

definition msgbuf_set_lock_ctl_mask :: "bitarray \<Rightarrow> kacm \<Rightarrow> kacm option" where
  "msgbuf_set_lock_ctl_mask m s = do {
     (l, s) \<leftarrow> msgbuf_read_lock_ctl (acmdrv_bitarray_zero LOCK_CTRL_SIZE) s;
     msgbuf_write_lock_ctl (acmdrv_bitarray_or LOCK_CTRL_SIZE l m) s }"

definition msgbuf_unset_lock_ctl_mask :: "bitarray \<Rightarrow> kacm \<Rightarrow> kacm option" where
  "msgbuf_unset_lock_ctl_mask m s = do {
     (l, s) \<leftarrow> msgbuf_read_lock_ctl (acmdrv_bitarray_zero LOCK_CTRL_SIZE) s;
     msgbuf_write_lock_ctl (acmdrv_bitarray_and LOCK_CTRL_SIZE l (acmdrv_bitarray_not LOCK_CTRL_SIZE m)) s }"

definition upd_msgbuf :: "(msgbuf \<Rightarrow> msgbuf) \<Rightarrow> kacm \<Rightarrow> kacm" where
  "upd_msgbuf f s = s\<lparr>k_msgbuf := f (k_msgbuf s)\<rparr>"

definition get_elem :: "'a list \<Rightarrow> nat \<Rightarrow> 'a option" where
  "get_elem xs i = (if i < length xs then Some (xs ! i) else None)"

definition msgbuf_update_overwritten :: "nat \<Rightarrow> u32 \<Rightarrow> kacm \<Rightarrow> kacm option" where
  "msgbuf_update_overwritten i status s =
     (if status AND ACM_MSGBUF_STATUS_OVERWRITTEN = 0 then Some s
      else do { n \<leftarrow> get_elem (mb_overwritten (k_msgbuf s)) i;
        Some (upd_msgbuf (\<lambda>m. m\<lparr>mb_overwritten := (mb_overwritten m)[i := n + 1]\<rparr>) s) })"

definition msgbuf_read_clear_overwritten :: "nat \<Rightarrow> kacm \<Rightarrow> (u32 \<times> kacm) option" where
  "msgbuf_read_clear_overwritten i s = do {
     n \<leftarrow> get_elem (mb_overwritten (k_msgbuf s)) i;
     Some (n, upd_msgbuf (\<lambda>m. m\<lparr>mb_overwritten := (mb_overwritten m)[i := 0]\<rparr>) s) }"

definition msgbuf_read_status :: "nat \<Rightarrow> kacm \<Rightarrow> (u32 \<times> kacm) option" where
  "msgbuf_read_status i s =
     (if msgbuf_res_size s \<le> ACM_MSGBUF_STATUS i then Some (0, s)
      else let (status, s) = readl R_Messagebuffer (ACM_MSGBUF_STATUS i) s in
        do { s \<leftarrow> msgbuf_update_overwritten i status s; Some (status, s) })"

definition msgbuf_read_desc :: "nat \<Rightarrow> kacm \<Rightarrow> (u32 \<times> kacm) option" where
  "msgbuf_read_desc i s =
     (if msgbuf_res_size s \<le> ACM_MSGBUF_DESC i then Some (0, s)
      else do { _ \<leftarrow> get_elem (mb_desc_cache (k_msgbuf s)) i;
        (let (v, s) = readl R_Messagebuffer (ACM_MSGBUF_DESC i) s in
         Some (v, upd_msgbuf (\<lambda>m. m\<lparr>mb_desc_cache := (mb_desc_cache m)[i := v]\<rparr>) s)) })"

definition msgbuf_write_desc :: "nat \<Rightarrow> u32 \<Rightarrow> kacm \<Rightarrow> kacm option" where
  "msgbuf_write_desc i v s =
     (if msgbuf_res_size s \<le> ACM_MSGBUF_DESC i then Some s
      else do { _ \<leftarrow> get_elem (mb_desc_cache (k_msgbuf s)) i;
        Some (writel v R_Messagebuffer (ACM_MSGBUF_DESC i)
          (upd_msgbuf (\<lambda>m. m\<lparr>mb_desc_cache := (mb_desc_cache m)[i := v]\<rparr>) s)) })"

definition desc_range_error :: "nat \<Rightarrow> nat \<Rightarrow> kacm \<Rightarrow> bool" where
  "desc_range_error first lst s = (lst < first \<or> commreg_read_msgbuf_count s \<le> first \<or>
     commreg_read_msgbuf_count s \<le> lst)"

definition msgbuf_desc_read :: "nat \<Rightarrow> nat \<Rightarrow> kacm \<Rightarrow> (int \<times> u32 list) option" where
  "msgbuf_desc_read first lst s = (if desc_range_error first lst s then Some (- EINVAL, [])
     else do { ds \<leftarrow> those (map (get_elem (mb_desc_cache (k_msgbuf s))) [first..<Suc lst]); Some (0, ds) })"

text \<open>The elements of the buffer go to the descriptors one after the other.\<close>

definition msgbuf_desc_write :: "nat \<Rightarrow> nat \<Rightarrow> u32 list \<Rightarrow> kacm \<Rightarrow> (int \<times> kacm) option" where
  "msgbuf_desc_write first lst ds s = (if desc_range_error first lst s then Some (- EINVAL, s)
     else do { s \<leftarrow> foreach_upd (\<lambda>(i, v). msgbuf_write_desc i v) (zip [first..<Suc lst] ds) s; Some (0, s) })"

definition msgbuf_size :: "nat \<Rightarrow> kacm \<Rightarrow> nat option" where
  "msgbuf_size i s = map_option (\<lambda>d. (unat (read_bitmask d ACM_MSGBUF_DESC_SUBBUFFER_SIZE) + 1) * 4)
     (get_elem (mb_desc_cache (k_msgbuf s)) i)"

definition msgbuf_type :: "nat \<Rightarrow> kacm \<Rightarrow> u32 option" where
  "msgbuf_type i s = map_option (\<lambda>d. read_bitmask d ACM_MSGBUF_DESC_TYPE) (get_elem (mb_desc_cache (k_msgbuf s)) i)"

definition msgbuf_is_valid :: "nat \<Rightarrow> kacm \<Rightarrow> bool option" where
  "msgbuf_is_valid i s = map_option (\<lambda>d. d AND ACM_MSGBUF_DESC_VALID = ACM_MSGBUF_DESC_VALID)
     (get_elem (mb_desc_cache (k_msgbuf s)) i)"

definition msgbuf_is_empty :: "nat \<Rightarrow> kacm \<Rightarrow> (bool \<times> kacm) option" where
  "msgbuf_is_empty i s = do { (status, s) \<leftarrow> msgbuf_read_status i s;
     Some (status AND ACM_MSGBUF_STATUS_EMPTY = ACM_MSGBUF_STATUS_EMPTY, s) }"

definition copy_user :: "kacm \<Rightarrow> bool \<times> kacm" where
  "copy_user s = (k_copy_fails (k_env s) (k_io s), log_io Copy_user s)"

text \<open>
  The second component is what the user gets. The size of the buffer is taken from the cache
  before the index is checked.
\<close>

definition msgbuf_read_to_user :: "nat \<Rightarrow> nat \<Rightarrow> kacm \<Rightarrow> (int \<times> u8 list \<times> kacm) option" where
  "msgbuf_read_to_user i sz s = do {
     msize \<leftarrow> msgbuf_size i s;
     t \<leftarrow> msgbuf_type i s;
     if t \<noteq> ACM_MSGBUF_TYPE_RX then Some (- EIO, [], s)
     else if commreg_read_msgbuf_count s \<le> i then Some (- EINVAL, [], s)
     else let sz = min sz msize; (ret, s) = lock_intr s in
     if ret \<noteq> 0 then Some (ret, [], s)
     else do {
       (empty, s) \<leftarrow> msgbuf_is_empty i s;
       if empty then Some (- ENODATA, [], s)
       else do {
         (ws, s) \<leftarrow> (case acm_ioread32_copy R_Messagebuffer (ACM_MSGBUF_DATA i) msize s of
            (None, s) \<Rightarrow> None | (Some ws, s) \<Rightarrow> Some (ws, s));
         (let (fails, s) = copy_user s in
          if fails then Some (- EFAULT, [], s)
          else Some (0, take sz (concat (map put_u32 ws)), s)) } } }"

definition msgbuf_write_from_user :: "nat \<Rightarrow> u8 list \<Rightarrow> nat \<Rightarrow> kacm \<Rightarrow> (int \<times> kacm) option" where
  "msgbuf_write_from_user i from_user sz s = do {
     msize \<leftarrow> msgbuf_size i s;
     t \<leftarrow> msgbuf_type i s;
     if t \<noteq> ACM_MSGBUF_TYPE_TX then Some (- EIO, s)
     else let sz = min sz msize in
     if commreg_read_msgbuf_count s \<le> i then Some (- EINVAL, s)
     else let (fails, s) = copy_user s in
     if fails then Some (- EFAULT, s)
     else let bounce = take sz from_user @ replicate (msize - sz) 0; (ret, s) = lock_intr s in
     if ret \<noteq> 0 then Some (ret, s)
     else do {
       (_, s) \<leftarrow> msgbuf_read_status i (acm_iowrite32_copy R_Messagebuffer (ACM_MSGBUF_DATA i) bounce msize s);
       Some (0, s) } }"

definition msgbuf_cleanup :: "kacm \<Rightarrow> kacm option" where
  "msgbuf_cleanup s = foreach_upd (\<lambda>i. msgbuf_write_desc i 0) [0..<commreg_read_msgbuf_count s] s"

definition msgbuf_init_buffer :: "nat \<Rightarrow> kacm \<Rightarrow> kacm option" where
  "msgbuf_init_buffer i s = do {
     (_, s) \<leftarrow> msgbuf_read_desc i (upd_msgbuf (\<lambda>m. m\<lparr>mb_mask := acmdrv_bitarray_set i LOCK_CTRL_SIZE (mb_mask m)\<rparr>) s);
     Some s }"

definition msgbuf_init :: "bool \<Rightarrow> int \<Rightarrow> kacm \<Rightarrow> (int \<times> kacm) option" where
  "msgbuf_init alloc map_ret s =
     (let n = commreg_read_msgbuf_count s in
      if \<not> alloc then Some (- ENOMEM, s)
      else if map_ret < 0 then Some (map_ret, s)
      else do {
        s \<leftarrow> foreach_upd msgbuf_init_buffer [0..<n] (s\<lparr>k_msgbuf := \<lparr>mb_overwritten = replicate n 0,
          mb_desc_cache = replicate n 0, mb_mask = acmdrv_bitarray_zero LOCK_CTRL_SIZE\<rparr>\<rparr>);
        Some (0, s) })"

end
