(* ===== verification/Acm_Drv_State.thy ===== *)
theory Acm_Drv_State
  imports Acm_Drv_Msgbuf
begin

text \<open>
  The character devices of the message buffers (\<^verbatim>\<open>chardev.c\<close>), the start, end, stop and restart of a
  configuration (\<^verbatim>\<open>config.c\<close>) and the state of the driver (\<^verbatim>\<open>state.c\<close>).
\<close>

section \<open>Character devices\<close>

definition EBUSY :: int where [simp]: "EBUSY = 16"

definition ACMDRV_INIT_STATE :: u32 where [simp]: "ACMDRV_INIT_STATE = 1"
definition ACMDRV_RUN_STATE :: u32 where [simp]: "ACMDRV_RUN_STATE = 4"
definition ACMDRV_DESYNC_STATE :: u32 where [simp]: "ACMDRV_DESYNC_STATE = 5"
definition ACMDRV_RESTART_STATE :: u32 where [simp]: "ACMDRV_RESTART_STATE = 6"

definition acm_state_is_running :: "kacm \<Rightarrow> bool" where
  "acm_state_is_running s = (k_status s = ACMDRV_RUN_STATE)"

definition upd_device :: "nat \<Rightarrow> (acm_dev \<Rightarrow> acm_dev) \<Rightarrow> kacm \<Rightarrow> kacm" where
  "upd_device i f s = s\<lparr>k_devices := (k_devices s)[i := f (k_devices s ! i)]\<rparr>"

text \<open>
  \<^verbatim>\<open>read\<close> and \<^verbatim>\<open>write\<close> of an open device; \<open>pos\<close> is the position in the file. The result is the
  return value and, for \<^verbatim>\<open>read\<close>, the data.
\<close>

definition acm_dev_read :: "nat \<Rightarrow> nat \<Rightarrow> nat \<Rightarrow> kacm \<Rightarrow> (int \<times> u8 list \<times> kacm) option" where
  "acm_dev_read idx sz pos s = do {
     adev \<leftarrow> get_elem (k_devices s) idx;
     (let (ret, s) = lock_intr s in
      if ret \<noteq> 0 then Some (ret, [], s)
      else if \<not> acm_state_is_running s then Some (- EIO, [], s)
      else if pos \<noteq> 0 then Some (- EINVAL, [], s)
      else let sz = (if ad_size adev < sz then ad_size adev else sz) in do {
        (ret, bs, s) \<leftarrow> msgbuf_read_to_user idx sz s;
        if ret \<noteq> 0 then Some (ret, bs, s) else Some (int sz, bs, s) }) }"

definition acm_dev_write :: "nat \<Rightarrow> u8 list \<Rightarrow> nat \<Rightarrow> nat \<Rightarrow> kacm \<Rightarrow> (int \<times> kacm) option" where
  "acm_dev_write idx buf sz pos s = do {
     adev \<leftarrow> get_elem (k_devices s) idx;
     (let (ret, s) = lock_intr s in
      if ret \<noteq> 0 then Some (ret, s)
      else if \<not> acm_state_is_running s then Some (- EIO, s)
      else if pos \<noteq> 0 then Some (- EINVAL, s)
      else let sz = (if ad_size adev < sz then ad_size adev else sz) in do {
        (ret, s) \<leftarrow> msgbuf_write_from_user idx buf sz s;
        if ret \<noteq> 0 then Some (- EFAULT, s) else Some (int sz, s) }) }"

text \<open>
  The result after a failed \<^verbatim>\<open>device_create\<close> is the one of \<^verbatim>\<open>cdev_add\<close>, which is zero.
\<close>

definition acm_dev_activate :: "nat \<Rightarrow> string \<Rightarrow> u64 \<Rightarrow> kacm \<Rightarrow> (int \<times> kacm) option" where
  "acm_dev_activate idx alias sid s = do {
     adev \<leftarrow> get_elem (k_devices s) idx;
     (let (ret, s) = lock_intr s in
      if ret \<noteq> 0 then Some (ret, s)
      else if ad_active adev then Some (- EBUSY, s)
      else do {
        valid \<leftarrow> msgbuf_is_valid idx s;
        if \<not> valid then Some (- EIO, s)
        else do {
          sz \<leftarrow> msgbuf_size idx s;
          (let s = upd_device idx (\<lambda>d. d\<lparr>ad_id := sid, ad_size := sz\<rparr>) s;
               ret = min 0 (k_cdev_add (k_env s) (k_io s)); s = log_io (Cdev_add idx) s in
           if ret \<noteq> 0 then Some (ret, s)
           else let err = k_device_create (k_env s) (k_io s); s = log_io (Device_create idx) s in
             if err < 0 then Some (ret, s)
             else Some (ret, upd_device idx (\<lambda>d. d\<lparr>ad_active := True, ad_name := alias\<rparr>) s)) } }) }"

definition acm_dev_deactivate :: "nat \<Rightarrow> kacm \<Rightarrow> kacm option" where
  "acm_dev_deactivate idx s = do {
     adev \<leftarrow> get_elem (k_devices s) idx;
     Some (if ad_active adev then upd_device idx (\<lambda>d. d\<lparr>ad_active := False\<rparr>) s else s) }"

definition acm_dev_is_active :: "nat \<Rightarrow> kacm \<Rightarrow> bool option" where
  "acm_dev_is_active i s = map_option ad_active (get_elem (k_devices s) i)"

definition acm_dev_get_timestamping :: "nat \<Rightarrow> kacm \<Rightarrow> bool option" where
  "acm_dev_get_timestamping i s = map_option ad_timestamp (get_elem (k_devices s) i)"

definition acm_dev_set_timestamping :: "nat \<Rightarrow> bool \<Rightarrow> kacm \<Rightarrow> kacm option" where
  "acm_dev_set_timestamping i enable s = do { _ \<leftarrow> get_elem (k_devices s) i;
     Some (upd_device i (\<lambda>d. d\<lparr>ad_timestamp := enable\<rparr>) s) }"

text \<open>NULL for a device that is not active.\<close>

definition acm_dev_get_name :: "acm_dev \<Rightarrow> string option" where
  "acm_dev_get_name d = (if ad_active d then Some (ad_name d) else None)"

definition acm_dev_get_id :: "nat \<Rightarrow> kacm \<Rightarrow> u64 option" where
  "acm_dev_get_id i s = map_option ad_id (get_elem (k_devices s) i)"

definition acm_dev_create :: "bool \<Rightarrow> nat \<Rightarrow> kacm \<Rightarrow> int \<times> kacm" where
  "acm_dev_create alloc nr s = (if \<not> alloc then (- ENOMEM, s)
     else (0, s\<lparr>k_devices := replicate nr
       \<lparr>ad_id = 0, ad_size = 0, ad_name = [], ad_active = False, ad_timestamp = False\<rparr>\<rparr>))"

definition acm_dev_destroy :: "kacm \<Rightarrow> kacm option" where
  "acm_dev_destroy s = foreach_upd acm_dev_deactivate [0..<commreg_read_msgbuf_count s] s"

section \<open>Configuration\<close>

definition acm_cleanup :: "kacm \<Rightarrow> kacm option" where
  "acm_cleanup s = do {
     s \<leftarrow> msgbuf_cleanup s;
     s \<leftarrow> scheduler_cleanup (fold bypass_cleanup [0..<ACMDRV_BYPASS_MODULES_COUNT] s);
     Some (redundancy_cleanup s) }"

definition remove_scheduler :: "nat \<Rightarrow> kacm \<Rightarrow> kacm" where
  "remove_scheduler i s = scheduler_set_active i False (scheduler_write_emergency_disable i 1 s)"

text \<open>The results of the recovery settings are ignored.\<close>

definition remove_bypass :: "nat \<Rightarrow> kacm \<Rightarrow> kacm" where
  "remove_bypass i s =
     (let s = bypass_set_active i False (bypass_enable i False s) in
      fold (\<lambda>j s. snd (redundancy_set_individual_recovery_timeout i j 0 s)) [0..<ACMDRV_BYPASS_NR_RULES] s)"

definition remove_buffer :: "nat \<Rightarrow> kacm \<Rightarrow> kacm option" where
  "remove_buffer i s = do {
     s \<leftarrow> acm_dev_deactivate i s;
     (_, s) \<leftarrow> msgbuf_read_status i s;
     (_, s) \<leftarrow> msgbuf_read_clear_overwritten i s;
     Some s }"

text \<open>The new status is set in any case, and used by the caller when the result is zero.\<close>

definition acm_config_remove :: "kacm \<Rightarrow> (int \<times> u32 \<times> kacm) option" where
  "acm_config_remove s =
     (let s = fold remove_scheduler [0..<ACMDRV_SCHEDULER_COUNT] s;
          s = fold remove_bypass [0..<ACMDRV_BYPASS_MODULES_COUNT] s;
          s = fold (\<lambda>i s. snd (redundancy_set_base_recovery_timeout i 0 s)) [0..<ACMDRV_REDUN_TABLE_ENTRY_COUNT] s;
          (ret, s) = reset_trigger s in
      if ret \<noteq> 0 then Some (ret, ACMDRV_INIT_STATE, s)
      else do {
        s \<leftarrow> foreach_upd remove_buffer [0..<commreg_read_msgbuf_count s] s;
        s \<leftarrow> acm_cleanup s;
        Some (0, ACMDRV_INIT_STATE, s) })"

definition acm_config_start :: "kacm \<Rightarrow> (int \<times> u32 \<times> kacm) option" where
  "acm_config_start s = acm_config_remove s"

definition store_scheduler :: "nat \<Rightarrow> kacm \<Rightarrow> kacm" where
  "store_scheduler i s = (let (ed, s) = scheduler_read_emergency_disable i s in scheduler_set_active i (ed = 0) s)"

definition store_bypass :: "nat \<Rightarrow> kacm \<Rightarrow> kacm" where
  "store_bypass i s = (let (en, s) = bypass_is_enabled i s in bypass_set_active i en s)"

definition acm_config_end :: "kacm \<Rightarrow> int \<times> u32 \<times> kacm" where
  "acm_config_end s =
     (let s = fold store_scheduler [0..<ACMDRV_SCHEDULER_COUNT] s;
          s = fold store_bypass [0..<ACMDRV_BYPASS_MODULES_COUNT] s in
      (0, ACMDRV_RUN_STATE, s))"

definition acm_config_stop_running :: "kacm \<Rightarrow> int \<times> u32 \<times> kacm" where
  "acm_config_stop_running s =
     (let s = fold (\<lambda>i. scheduler_write_emergency_disable i 1) [0..<ACMDRV_SCHEDULER_COUNT] s;
          s = fold (\<lambda>i. bypass_enable i False) [0..<ACMDRV_BYPASS_MODULES_COUNT] s in
      (0, ACMDRV_DESYNC_STATE, s))"

definition restart_scheduler :: "nat \<Rightarrow> kacm \<Rightarrow> kacm" where
  "restart_scheduler i s = scheduler_write_emergency_disable i (if scheduler_get_active i s then 0 else 1) s"

definition restart_bypass :: "nat \<Rightarrow> kacm \<Rightarrow> kacm" where
  "restart_bypass i s = bypass_enable i (bypass_get_active i s) s"

definition acm_config_restart_running :: "kacm \<Rightarrow> int \<times> u32 \<times> kacm" where
  "acm_config_restart_running s =
     (let s = fold restart_scheduler [0..<ACMDRV_SCHEDULER_COUNT] s;
          s = fold restart_bypass [0..<ACMDRV_BYPASS_MODULES_COUNT] s in
      (0, ACMDRV_RUN_STATE, s))"

section \<open>State\<close>

definition acm_state_get :: "kacm \<Rightarrow> u32" where
  "acm_state_get s = k_status s"

definition acm_state_change :: "u32 \<Rightarrow> kacm \<Rightarrow> (int \<times> u32 \<times> kacm) option" where
  "acm_state_change status s =
     (if status = ACMDRV_CONFIG_START_STATE then acm_config_start s
      else if status = ACMDRV_CONFIG_END_STATE then Some (acm_config_end s)
      else if status = ACMDRV_DESYNC_STATE then Some (acm_config_stop_running s)
      else if status = ACMDRV_RESTART_STATE then Some (acm_config_restart_running s)
      else if status = ACMDRV_INIT_STATE then Some (0, status, s)
      else Some (- EINVAL, 0, s))"

definition acm_state_set :: "u32 \<Rightarrow> kacm \<Rightarrow> (int \<times> kacm) option" where
  "acm_state_set status s = (let (ret, s) = lock_intr s in
     if ret \<noteq> 0 then Some (ret, s)
     else do {
       (ret, new_status, s) \<leftarrow> acm_state_change status s;
       Some (ret, if ret = 0 then s\<lparr>k_status := new_status\<rparr> else s) })"

definition acm_state_init :: "bool \<Rightarrow> kacm \<Rightarrow> int \<times> kacm" where
  "acm_state_init alloc s = (if \<not> alloc then (- ENOMEM, s) else (0, s\<lparr>k_status := ACMDRV_INIT_STATE\<rparr>))"

end
