(* ===== verification/Acm_Drv_Sysfs.thy ===== *)
theory Acm_Drv_Sysfs
  imports Acm_Drv_State
begin

text \<open>
  The binary attributes of the configuration section (\<^verbatim>\<open>sysfs.c\<close>, \<^verbatim>\<open>sysfs_config.c\<close>): every access is
  checked against size and item size of the attribute, and the items are then mapped to the
  modules, tables and registers of the IP. The kernel calls an attribute only with a positive
  number of bytes. A result is the return value of the C function, with the bytes read.
\<close>

section \<open>Checked access to arrays of items\<close>

definition EOVERFLOW :: int where [simp]: "EOVERFLOW = 75"

text \<open>The offsets and sizes of a 32 bit platform.\<close>

definition LONG_MAX :: int where [simp]: "LONG_MAX = 2147483647"

definition sysfs_bin_attr_check :: "nat \<Rightarrow> int \<Rightarrow> nat \<Rightarrow> nat \<Rightarrow> int" where
  "sysfs_bin_attr_check attr_size loff totalsize elsize =
     (if loff < 0 \<or> LONG_MAX < loff then - EOVERFLOW
      else if attr_size < (totalsize + nat loff) mod 2 ^ 32 then - EOVERFLOW
      else if totalsize mod elsize \<noteq> 0 then - EINVAL
      else if nat loff mod elsize \<noteq> 0 then - EINVAL
      else 0)"

text \<open>The bound of the loop is computed with 32 bit, as in the check.\<close>

definition foreach_item :: "int \<Rightarrow> nat \<Rightarrow> nat \<Rightarrow> nat list" where
  "foreach_item off sz elsize = [nat off div elsize..<((nat off + sz) mod 2 ^ 32) div elsize]"

text \<open>The number of bytes, a \<^verbatim>\<open>size_t\<close>, is returned as \<^verbatim>\<open>ssize_t\<close>.\<close>

definition ssize :: "nat \<Rightarrow> int" where
  "ssize n = (if n < 2 ^ 31 then int n else int n - 2 ^ 32)"

lemma ssize_small [simp]: "n < 2147483648 \<Longrightarrow> ssize n = int n"
  by (simp add: ssize_def)

fun read_items :: "(nat \<Rightarrow> kacm \<Rightarrow> (int \<times> u8 list \<times> kacm) option) \<Rightarrow> nat list \<Rightarrow> kacm \<Rightarrow>
    (int \<times> u8 list \<times> kacm) option" where
  "read_items f [] s = Some (0, [], s)"
| "read_items f (i # js) s = do {
     (ret, bs, s) \<leftarrow> f i s;
     if ret \<noteq> 0 then Some (ret, bs, s)
     else do { (ret, bs', s) \<leftarrow> read_items f js s; Some (ret, bs @ bs', s) } }"

text \<open>The function for an item gets the rest of the buffer.\<close>

fun write_items :: "nat \<Rightarrow> (nat \<Rightarrow> u8 list \<Rightarrow> kacm \<Rightarrow> (int \<times> kacm) option) \<Rightarrow> nat list \<Rightarrow> u8 list \<Rightarrow> kacm \<Rightarrow>
    (int \<times> kacm) option" where
  "write_items elsize f [] buf s = Some (0, s)"
| "write_items elsize f (i # js) buf s = do {
     (ret, s) \<leftarrow> f i buf s;
     if ret \<noteq> 0 then Some (ret, s) else write_items elsize f js (drop elsize buf) s }"

definition attr_read :: "nat \<Rightarrow> nat \<Rightarrow> (nat \<Rightarrow> kacm \<Rightarrow> (int \<times> u8 list \<times> kacm) option) \<Rightarrow> int \<Rightarrow> nat \<Rightarrow> kacm \<Rightarrow>
    (int \<times> u8 list \<times> kacm) option" where
  "attr_read attr_size elsize f off sz s =
     (let ret = sysfs_bin_attr_check attr_size off sz elsize in
      if ret \<noteq> 0 then Some (ret, [], s)
      else do {
        (ret, bs, s) \<leftarrow> read_items f (foreach_item off sz elsize) s;
        Some (if ret \<noteq> 0 then ret else ssize sz, bs, s) })"

definition attr_write :: "nat \<Rightarrow> nat \<Rightarrow> (nat \<Rightarrow> u8 list \<Rightarrow> kacm \<Rightarrow> (int \<times> kacm) option) \<Rightarrow> u8 list \<Rightarrow> int \<Rightarrow> nat \<Rightarrow>
    kacm \<Rightarrow> (int \<times> kacm) option" where
  "attr_write attr_size elsize f buf off sz s =
     (let ret = sysfs_bin_attr_check attr_size off sz elsize in
      if ret \<noteq> 0 then Some (ret, s)
      else do {
        (ret, s) \<leftarrow> write_items elsize f (foreach_item off sz elsize) buf s;
        Some (if ret \<noteq> 0 then ret else ssize sz, s) })"

text \<open>\<^verbatim>\<open>acm->bypass[i]\<close>: an array of two pointers.\<close>

definition bypass_ptr :: "nat \<Rightarrow> nat option" where
  "bypass_ptr i = (if i < ACMDRV_BYPASS_MODULES_COUNT then Some i else None)"

section \<open>Tables of the bypass modules\<close>

record sysfs_bypass_attr =
  sa_elemsize :: nat
  sa_padsize :: nat
  sa_offset :: nat
  sa_delta :: nat
  sa_size :: nat

definition SYSFS_BYPASS_ATTR :: "nat \<Rightarrow> nat \<Rightarrow> nat \<Rightarrow> nat \<Rightarrow> sysfs_bypass_attr" where
  "SYSFS_BYPASS_ATTR elsize cnt offs delta = \<lparr>sa_elemsize = elsize, sa_padsize = elsize,
     sa_offset = offs, sa_delta = delta, sa_size = elsize * cnt\<rparr>"

definition SYSFS_BYPASS_ATTR_PADDED :: "nat \<Rightarrow> nat \<Rightarrow> nat \<Rightarrow> nat \<Rightarrow> nat \<Rightarrow> sysfs_bypass_attr" where
  "SYSFS_BYPASS_ATTR_PADDED elsize cnt offs delta padsize = \<lparr>sa_elemsize = elsize, sa_padsize = padsize,
     sa_offset = offs, sa_delta = delta, sa_size = padsize * cnt\<rparr>"

definition nr_items :: "sysfs_bypass_attr \<Rightarrow> nat" where
  "nr_items a = sa_size a div sa_padsize a div ACMDRV_BYPASS_MODULES_COUNT"

definition item_offset :: "sysfs_bypass_attr \<Rightarrow> nat \<Rightarrow> nat" where
  "item_offset a i = sa_offset a + (i mod nr_items a) * sa_delta a"

text \<open>
  Reading leaves the padding of an item, and an item outside of the module, as it is in the
  buffer of the caller, which is given.
\<close>

fun bypass_attr_read_items :: "sysfs_bypass_attr \<Rightarrow> nat list \<Rightarrow> u8 list \<Rightarrow> kacm \<Rightarrow> (u8 list \<times> kacm) option" where
  "bypass_attr_read_items a [] buf s = Some (buf, s)"
| "bypass_attr_read_items a (i # js) buf s = do {
     b \<leftarrow> bypass_ptr (i div nr_items a);
     (bs, s) \<leftarrow> bypass_block_read b (item_offset a i) (sa_elemsize a) (take (sa_elemsize a) buf) s;
     (rest, s) \<leftarrow> bypass_attr_read_items a js (drop (sa_padsize a) buf) s;
     Some (bs @ take (sa_padsize a - sa_elemsize a) (drop (sa_elemsize a) buf) @ rest, s) }"

definition sysfs_bypass_attr_read :: "sysfs_bypass_attr \<Rightarrow> u8 list \<Rightarrow> int \<Rightarrow> nat \<Rightarrow> kacm \<Rightarrow>
    (int \<times> u8 list \<times> kacm) option" where
  "sysfs_bypass_attr_read a buf off sz s =
     (let ret = sysfs_bin_attr_check (sa_size a) off sz (sa_padsize a) in
      if ret \<noteq> 0 then Some (ret, buf, s)
      else let (ret, s) = lock_intr s in
      if ret \<noteq> 0 then Some (ret, buf, s)
      else do {
        (buf, s) \<leftarrow> bypass_attr_read_items a (foreach_item off sz (sa_padsize a)) buf s;
        Some (ssize sz, buf, s) })"

definition bypass_attr_write_item :: "sysfs_bypass_attr \<Rightarrow> nat \<Rightarrow> u8 list \<Rightarrow> kacm \<Rightarrow> (int \<times> kacm) option" where
  "bypass_attr_write_item a i buf s = do {
     b \<leftarrow> bypass_ptr (i div nr_items a);
     Some (0, bypass_block_write b (take (sa_elemsize a) buf) (item_offset a i) (sa_elemsize a) s) }"

definition sysfs_bypass_attr_write :: "sysfs_bypass_attr \<Rightarrow> u8 list \<Rightarrow> int \<Rightarrow> nat \<Rightarrow> kacm \<Rightarrow> (int \<times> kacm) option" where
  "sysfs_bypass_attr_write a buf off sz s =
     (let ret = sysfs_bin_attr_check (sa_size a) off sz (sa_padsize a) in
      if ret \<noteq> 0 then Some (ret, s)
      else let (ret, s) = lock_intr s in
      if ret \<noteq> 0 then Some (ret, s)
      else do {
        (_, s) \<leftarrow> write_items (sa_padsize a) (bypass_attr_write_item a) (foreach_item off sz (sa_padsize a)) buf s;
        Some (ssize sz, s) })"

definition lookup_pattern_attr :: sysfs_bypass_attr where
  "lookup_pattern_attr = SYSFS_BYPASS_ATTR 16 (ACMDRV_BYPASS_MODULES_COUNT * ACMDRV_BYPASS_NR_RULES) 0x00 0x100"

definition lookup_mask_attr :: sysfs_bypass_attr where
  "lookup_mask_attr = SYSFS_BYPASS_ATTR 16 (ACMDRV_BYPASS_MODULES_COUNT * ACMDRV_BYPASS_NR_RULES) 0x80 0x100"

definition layer7_pattern_attr :: sysfs_bypass_attr where
  "layer7_pattern_attr = SYSFS_BYPASS_ATTR_PADDED 112 (ACMDRV_BYPASS_MODULES_COUNT * ACMDRV_BYPASS_NR_RULES) 0x10 0x100 128"

definition layer7_mask_attr :: sysfs_bypass_attr where
  "layer7_mask_attr = SYSFS_BYPASS_ATTR_PADDED 112 (ACMDRV_BYPASS_MODULES_COUNT * ACMDRV_BYPASS_NR_RULES) 0x90 0x100 128"

definition stream_trigger_attr :: sysfs_bypass_attr where
  "stream_trigger_attr = SYSFS_BYPASS_ATTR 4 (ACMDRV_BYPASS_MODULES_COUNT * (ACMDRV_BYPASS_NR_RULES + 1))
     ACM_BYPASS_DMA_CMD_LOOKUP 4"

definition scatter_dma_attr :: sysfs_bypass_attr where
  "scatter_dma_attr = SYSFS_BYPASS_ATTR 4 (ACMDRV_BYPASS_MODULES_COUNT * 256) ACM_BYPASS_SCATTER_DMA 4"

definition prefetch_dma_attr :: sysfs_bypass_attr where
  "prefetch_dma_attr = SYSFS_BYPASS_ATTR 4 (ACMDRV_BYPASS_MODULES_COUNT * 256) ACM_BYPASS_GATHER_DMA_PREFETCH 4"

definition gather_dma_attr :: sysfs_bypass_attr where
  "gather_dma_attr = SYSFS_BYPASS_ATTR 4 (ACMDRV_BYPASS_MODULES_COUNT * 256) ACM_BYPASS_GATHER_DMA_EXEC 4"

definition const_buffer_attr :: sysfs_bypass_attr where
  "const_buffer_attr = SYSFS_BYPASS_ATTR 4096 ACMDRV_BYPASS_MODULES_COUNT ACM_BYPASS_CONSTANT_BUFFER 4096"

section \<open>Control registers of the bypass modules\<close>

definition bypass_reg_read_item :: "nat \<Rightarrow> nat \<Rightarrow> nat \<Rightarrow> kacm \<Rightarrow> (int \<times> u8 list \<times> kacm) option" where
  "bypass_reg_read_item area offs i s = do {
     b \<leftarrow> bypass_ptr i;
     (let (reg, s) = bypass_area_read b area offs s in Some (0, put_u32 reg, s)) }"

definition sysfs_bypass_reg_read :: "nat \<Rightarrow> nat \<Rightarrow> int \<Rightarrow> nat \<Rightarrow> kacm \<Rightarrow> (int \<times> u8 list \<times> kacm) option" where
  "sysfs_bypass_reg_read area offs off sz s =
     (let ret = sysfs_bin_attr_check (4 * ACMDRV_BYPASS_MODULES_COUNT) off sz 4 in
      if ret \<noteq> 0 then Some (ret, [], s)
      else let (ret, s) = lock_intr s in
      if ret \<noteq> 0 then Some (ret, [], s)
      else do {
        (_, bs, s) \<leftarrow> read_items (bypass_reg_read_item area offs) (foreach_item off sz 4) s;
        Some (ssize sz, bs, s) })"

definition bypass_reg_write_item :: "nat \<Rightarrow> nat \<Rightarrow> nat \<Rightarrow> u8 list \<Rightarrow> kacm \<Rightarrow> (int \<times> kacm) option" where
  "bypass_reg_write_item area offs i buf s = do {
     b \<leftarrow> bypass_ptr i; Some (0, bypass_area_write b area offs (get_u32 buf) s) }"

definition sysfs_bypass_reg_write :: "nat \<Rightarrow> nat \<Rightarrow> u8 list \<Rightarrow> int \<Rightarrow> nat \<Rightarrow> kacm \<Rightarrow> (int \<times> kacm) option" where
  "sysfs_bypass_reg_write area offs buf off sz s =
     (let ret = sysfs_bin_attr_check (4 * ACMDRV_BYPASS_MODULES_COUNT) off sz 4 in
      if ret \<noteq> 0 then Some (ret, s)
      else let (ret, s) = lock_intr s in
      if ret \<noteq> 0 then Some (ret, s)
      else do {
        (_, s) \<leftarrow> write_items 4 (bypass_reg_write_item area offs) (foreach_item off sz 4) buf s;
        Some (ssize sz, s) })"

text \<open>The attributes \<^verbatim>\<open>cntl_*\<close> and their registers in the control area.\<close>

definition cntl_register :: "string \<Rightarrow> nat option" where
  "cntl_register = map_of [(''cntl_ngn_enable'', 0x00), (''cntl_lookup_enable'', 0x04),
     (''cntl_layer7_enable'', 0x08), (''cntl_ingress_policing_enable'', 0x0C),
     (''cntl_connection_mode'', 0x10), (''cntl_output_disable'', 0x14), (''cntl_layer7_length'', 0x18),
     (''cntl_speed'', 0x1C), (''cntl_gather_delay'', 0x20), (''cntl_ingress_policing_control'', 0x24)]"

section \<open>State, configuration identifier, clearing\<close>

definition config_state_read :: "int \<Rightarrow> nat \<Rightarrow> kacm \<Rightarrow> int \<times> u8 list" where
  "config_state_read off sz s = (let ret = sysfs_bin_attr_check 4 off sz 4 in
     if ret \<noteq> 0 then (ret, []) else (ssize sz, take sz (drop (nat off) (put_u32 (acm_state_get s)))))"

definition config_state_write :: "u8 list \<Rightarrow> int \<Rightarrow> nat \<Rightarrow> kacm \<Rightarrow> (int \<times> kacm) option" where
  "config_state_write buf off sz s =
     (let ret = sysfs_bin_attr_check 4 off sz 4 in
      if ret \<noteq> 0 then Some (ret, s)
      else do {
        (ret, s) \<leftarrow> acm_state_set (get_u32 buf) s;
        Some (if ret \<noteq> 0 then ret else ssize sz, s) })"

definition configuration_id_read :: "int \<Rightarrow> nat \<Rightarrow> kacm \<Rightarrow> int \<times> u8 list \<times> kacm" where
  "configuration_id_read off sz s =
     (if off \<noteq> 0 \<or> sz \<noteq> 4 then (- EINVAL, [], s)
      else let (v, s) = commreg_read_configuration_id s in (ssize sz, put_u32 v, s))"

definition configuration_id_write :: "u8 list \<Rightarrow> int \<Rightarrow> nat \<Rightarrow> kacm \<Rightarrow> int \<times> kacm" where
  "configuration_id_write buf off sz s =
     (if off \<noteq> 0 \<or> sz \<noteq> 4 then (- EINVAL, s)
      else (ssize sz, commreg_write_configuration_id (get_u32 buf) s))"

text \<open>Neither offset nor length are checked: \<open>None\<close> when the buffer is too short.\<close>

definition clear_all_fpga_write :: "u8 list \<Rightarrow> nat \<Rightarrow> kacm \<Rightarrow> (int \<times> kacm) option" where
  "clear_all_fpga_write buf count s =
     (if length buf < 4 then None
      else if get_u32 buf \<noteq> ACMDRV_CLEAR_ALL_PATTERN then Some (- EINVAL, s)
      else do {
        (ret, status, s) \<leftarrow> acm_config_remove s;
        (ret, s) \<leftarrow> (if ret = 0 then acm_state_set status s else Some (ret, s));
        Some (if ret \<noteq> 0 then ret else int count, s) })"

section \<open>Message buffer descriptors and aliases\<close>

definition HAS_TIMESTAMP :: u32 where
  "HAS_TIMESTAMP = GENMASK 30 30"

text \<open>The last item; an empty access at offset zero wraps around.\<close>

definition last_item_index :: "int \<Rightarrow> nat \<Rightarrow> nat \<Rightarrow> nat" where
  "last_item_index off sz elsize = ((nat off + sz) div elsize + (2 ^ 32 - 1)) mod 2 ^ 32"

definition flag_descriptor :: "bool \<Rightarrow> u32 \<Rightarrow> u32" where
  "flag_descriptor ts d = (if ts then (d AND NOT HAS_TIMESTAMP) OR HAS_TIMESTAMP else d AND NOT HAS_TIMESTAMP)"

definition msg_buff_desc_read :: "int \<Rightarrow> nat \<Rightarrow> kacm \<Rightarrow> (int \<times> u8 list) option" where
  "msg_buff_desc_read off sz s =
     (let ret = sysfs_bin_attr_check (commreg_read_msgbuf_count s * 4) off sz 4 in
      if ret \<noteq> 0 then Some (ret, [])
      else let first = nat off div 4; lst = last_item_index off sz 4 in do {
        (ret, ds) \<leftarrow> msgbuf_desc_read first lst s;
        if ret \<noteq> 0 then Some (ret, [])
        else do {
          ts \<leftarrow> those (map (\<lambda>i. acm_dev_get_timestamping i s) [first..<Suc lst]);
          Some (ssize sz, concat (map put_u32 (map2 flag_descriptor ts ds))) } })"

fun le_words :: "nat \<Rightarrow> u8 list \<Rightarrow> u32 list" where
  "le_words 0 bs = []"
| "le_words (Suc n) bs = get_u32 bs # le_words n (drop 4 bs)"

definition msg_buff_desc_write :: "u8 list \<Rightarrow> int \<Rightarrow> nat \<Rightarrow> kacm \<Rightarrow> (int \<times> kacm) option" where
  "msg_buff_desc_write buf off sz s =
     (let ret = sysfs_bin_attr_check (commreg_read_msgbuf_count s * 4) off sz 4 in
      if ret \<noteq> 0 then Some (ret, s)
      else if sz = 0 then None
      else let first = nat off div 4; lst = last_item_index off sz 4; ds = le_words (sz div 4) buf in do {
        s \<leftarrow> foreach_upd (\<lambda>(i, d). acm_dev_set_timestamping i (d AND HAS_TIMESTAMP \<noteq> 0))
          (zip [first..<Suc lst] ds) s;
        (ret, s) \<leftarrow> msgbuf_desc_write first lst (map (\<lambda>d. d AND NOT HAS_TIMESTAMP) ds) s;
        Some (if ret \<noteq> 0 then ret else ssize sz, s) })"

definition char_of_u8 :: "u8 \<Rightarrow> char" where
  "char_of_u8 b = char_of (unat b)"

definition u8_of_char :: "char \<Rightarrow> u8" where
  "u8_of_char c = word_of_nat (of_char c)"

text \<open>
  \<^verbatim>\<open>struct acmdrv_buff_alias\<close>: index, identifier, name up to the first zero byte; \<open>None\<close> when there is
  no zero byte up to the end of the buffer.
\<close>

definition alias_idx :: "u8 list \<Rightarrow> nat" where
  "alias_idx bs = unat (hd bs)"

definition alias_id :: "u8 list \<Rightarrow> u64" where
  "alias_id bs = word_of_nat (le_val (take 8 (drop 1 bs)))"

definition alias_string :: "u8 list \<Rightarrow> string option" where
  "alias_string bs = (if 0 \<in> set (drop 9 bs) then Some (map char_of_u8 (takeWhile (\<lambda>b. b \<noteq> 0) (drop 9 bs))) else None)"

definition acmdrv_buff_alias_idx_read :: "u8 list \<Rightarrow> u8" where
  "acmdrv_buff_alias_idx_read bs = hd bs"

text \<open>\<^verbatim>\<open>acmdrv_buff_alias_alias_read\<close> gives a pointer to the name, which its caller reads as a string.\<close>

definition acmdrv_buff_alias_alias_read :: "u8 list \<Rightarrow> string option" where
  "acmdrv_buff_alias_alias_read bs = alias_string bs"

definition strncpy_bytes :: "nat \<Rightarrow> string \<Rightarrow> u8 list" where
  "strncpy_bytes n str = take n (map u8_of_char str @ replicate n 0)"

definition alias_read_item :: "nat \<Rightarrow> kacm \<Rightarrow> (int \<times> u8 list \<times> kacm) option" where
  "alias_read_item i s = do {
     d \<leftarrow> get_elem (k_devices s) i;
     name \<leftarrow> acm_dev_get_name d;
     Some (0, word_of_nat i # to_le 8 (unat (ad_id d)) @ strncpy_bytes 54 name @ [0], s) }"

definition msg_buff_alias_read :: "int \<Rightarrow> nat \<Rightarrow> kacm \<Rightarrow> (int \<times> u8 list \<times> kacm) option" where
  "msg_buff_alias_read off sz s =
     (let ret = sysfs_bin_attr_check (commreg_read_msgbuf_count s * 64) off sz 64; items = foreach_item off sz 64 in
      if ret \<noteq> 0 then Some (ret, [], s)
      else do {
        act \<leftarrow> those (map (\<lambda>i. acm_dev_is_active i s) items);
        if False \<in> set act then Some (0, [], s)
        else do { (_, bs, s) \<leftarrow> read_items alias_read_item items s; Some (ssize sz, bs, s) } })"

definition alias_check_item :: "nat \<Rightarrow> u8 list \<Rightarrow> kacm \<Rightarrow> (int \<times> kacm) option" where
  "alias_check_item i buf s =
     (if commreg_read_msgbuf_count s \<le> alias_idx buf then Some (- EINVAL, s)
      else if buf ! 9 = 0 then Some (- EINVAL, s)
      else if i \<noteq> alias_idx buf then Some (- EINVAL, s)
      else do { a \<leftarrow> acm_dev_is_active (alias_idx buf) s; Some (if a then - EBUSY else 0, s) })"

definition alias_write_item :: "nat \<Rightarrow> u8 list \<Rightarrow> kacm \<Rightarrow> (int \<times> kacm) option" where
  "alias_write_item i buf s = do { name \<leftarrow> alias_string buf; acm_dev_activate i name (alias_id buf) s }"

text \<open>First all items are checked, then all devices are activated.\<close>

definition msg_buff_alias_write :: "u8 list \<Rightarrow> int \<Rightarrow> nat \<Rightarrow> kacm \<Rightarrow> (int \<times> kacm) option" where
  "msg_buff_alias_write buf off sz s =
     (let ret = sysfs_bin_attr_check (commreg_read_msgbuf_count s * 64) off sz 64; items = foreach_item off sz 64 in
      if ret \<noteq> 0 then Some (ret, s)
      else do {
        (ret, s) \<leftarrow> write_items 64 alias_check_item items buf s;
        if ret \<noteq> 0 then Some (ret, s)
        else do {
          (ret, s) \<leftarrow> write_items 64 alias_write_item items buf s;
          Some (if ret \<noteq> 0 then ret else ssize sz, s) } })"

section \<open>Redundancy tables\<close>

definition redund_cnt_tab_read :: "int \<Rightarrow> nat \<Rightarrow> kacm \<Rightarrow> (int \<times> u8 list \<times> kacm) option" where
  "redund_cnt_tab_read = attr_read (ACMDRV_BYPASS_MODULES_COUNT * ACMDRV_REDUN_TABLE_ENTRY_COUNT * 4) 4
     (\<lambda>i s. let tab = i div ACMDRV_REDUN_TABLE_ENTRY_COUNT; idx = i mod ACMDRV_REDUN_TABLE_ENTRY_COUNT;
                (v, s) = redundancy_area_read (ACM_REDUN_CTRLTAB tab) (idx * 4) s in Some (0, put_u32 v, s))"

definition redund_cnt_tab_write :: "u8 list \<Rightarrow> int \<Rightarrow> nat \<Rightarrow> kacm \<Rightarrow> (int \<times> kacm) option" where
  "redund_cnt_tab_write = attr_write (ACMDRV_BYPASS_MODULES_COUNT * ACMDRV_REDUN_TABLE_ENTRY_COUNT * 4) 4
     (\<lambda>i buf s. let tab = i div ACMDRV_REDUN_TABLE_ENTRY_COUNT; idx = i mod ACMDRV_REDUN_TABLE_ENTRY_COUNT in
        Some (0, redundancy_area_write (ACM_REDUN_CTRLTAB tab) (idx * 4) (get_u32 buf) s))"

definition redund_tab_read :: "nat \<Rightarrow> u8 list \<Rightarrow> int \<Rightarrow> nat \<Rightarrow> kacm \<Rightarrow> (int \<times> u8 list \<times> kacm) option" where
  "redund_tab_read tab buf off sz s =
     (let ret = sysfs_bin_attr_check (ACMDRV_REDUN_TABLE_ENTRY_COUNT * 4) off sz 4 in
      if ret \<noteq> 0 then Some (ret, buf, s)
      else do { (bs, s) \<leftarrow> redundancy_block_read (tab + nat off) sz buf s; Some (ssize sz, bs, s) })"

definition redund_status_tab_read :: "u8 list \<Rightarrow> int \<Rightarrow> nat \<Rightarrow> kacm \<Rightarrow> (int \<times> u8 list \<times> kacm) option" where
  "redund_status_tab_read = redund_tab_read ACM_REDUN_STATUSTAB"

definition redund_intseqnum_tab_read :: "u8 list \<Rightarrow> int \<Rightarrow> nat \<Rightarrow> kacm \<Rightarrow> (int \<times> u8 list \<times> kacm) option" where
  "redund_intseqnum_tab_read = redund_tab_read ACM_REDUN_INTSEQNNUMTAB"

definition redund_intseqnum_tab_write :: "u8 list \<Rightarrow> int \<Rightarrow> nat \<Rightarrow> kacm \<Rightarrow> int \<times> kacm" where
  "redund_intseqnum_tab_write buf off sz s =
     (let ret = sysfs_bin_attr_check (ACMDRV_REDUN_TABLE_ENTRY_COUNT * 4) off sz 4 in
      if ret \<noteq> 0 then (ret, s)
      else (ssize sz, redundancy_block_write buf (ACM_REDUN_INTSEQNNUMTAB + nat off) sz s))"

end
