(* ===== verification/Acm_Drv_Attrs.thy ===== *)
theory Acm_Drv_Attrs
  imports Acm_Drv_Sysfs
begin

text \<open>
  The attributes of the scheduler and of the recovery (\<^verbatim>\<open>sysfs_config.c\<close>) and those of the control,
  status, error and diagnostics sections (\<^verbatim>\<open>sysfs_control.c\<close>, \<^verbatim>\<open>sysfs_status.c\<close>, \<^verbatim>\<open>sysfs_error.c\<close>,
  \<^verbatim>\<open>sysfs_diag.c\<close>).
\<close>

section \<open>Scheduler attributes\<close>

definition sched_down_counter_read :: "int \<Rightarrow> nat \<Rightarrow> kacm \<Rightarrow> (int \<times> u8 list \<times> kacm) option" where
  "sched_down_counter_read = attr_read (ACMDRV_SCHEDULER_COUNT * 2) 2
     (\<lambda>i s. let (v, s) = scheduler_read_sched_down_counter i s in Some (0, put_u16 v, s))"

definition sched_down_counter_write :: "u8 list \<Rightarrow> int \<Rightarrow> nat \<Rightarrow> kacm \<Rightarrow> (int \<times> kacm) option" where
  "sched_down_counter_write = attr_write (ACMDRV_SCHEDULER_COUNT * 2) 2
     (\<lambda>i buf s. Some (0, scheduler_write_sched_down_counter i (get_u16 buf) s))"

definition row_sched :: "nat \<Rightarrow> nat" where
  "row_sched i = (i div ACMDRV_SCHED_TBL_ROW_COUNT) div ACMDRV_SCHED_TBL_COUNT"

definition row_table :: "nat \<Rightarrow> nat" where
  "row_table i = (i div ACMDRV_SCHED_TBL_ROW_COUNT) mod ACMDRV_SCHED_TBL_COUNT"

definition row_number :: "nat \<Rightarrow> nat" where
  "row_number i = i mod ACMDRV_SCHED_TBL_ROW_COUNT"

definition SCHED_TAB_ROW_SIZE :: nat where
  "SCHED_TAB_ROW_SIZE = ACMDRV_SCHEDULER_COUNT * ACMDRV_SCHED_TBL_COUNT * ACMDRV_SCHED_TBL_ROW_COUNT * 8"

text \<open>A row starts with zeros; its padding is never written.\<close>

definition row_read_item :: "nat \<Rightarrow> kacm \<Rightarrow> (int \<times> u8 list \<times> kacm) option" where
  "row_read_item i s =
     (let (ret, row, s) = scheduler_read_table_row (row_sched i) (row_table i) (row_number i) (0, 0) s in
      if ret \<noteq> 0 then Some (ret, [], s)
      else Some (0, put_u32 (fst row) @ put_u16 (snd row) @ [0, 0], s))"

definition sched_tab_row_read :: "int \<Rightarrow> nat \<Rightarrow> kacm \<Rightarrow> (int \<times> u8 list \<times> kacm) option" where
  "sched_tab_row_read = attr_read SCHED_TAB_ROW_SIZE 8 row_read_item"

definition row_write_item :: "nat \<Rightarrow> u8 list \<Rightarrow> kacm \<Rightarrow> (int \<times> kacm) option" where
  "row_write_item i buf s = Some (scheduler_write_table_row (row_sched i) (row_table i) (row_number i)
     (get_u32 buf, get_u16 (drop 4 buf)) s)"

definition sched_tab_row_write :: "u8 list \<Rightarrow> int \<Rightarrow> nat \<Rightarrow> kacm \<Rightarrow> (int \<times> kacm) option" where
  "sched_tab_row_write = attr_write SCHED_TAB_ROW_SIZE 8 row_write_item"

definition table_status_read :: "int \<Rightarrow> nat \<Rightarrow> kacm \<Rightarrow> (int \<times> u8 list \<times> kacm) option" where
  "table_status_read = attr_read (ACMDRV_SCHEDULER_COUNT * ACMDRV_SCHED_TBL_COUNT * 2) 2
     (\<lambda>i s. let (v, s) = scheduler_read_table_status (i div ACMDRV_SCHED_TBL_COUNT) (i mod ACMDRV_SCHED_TBL_COUNT) s in
        Some (0, put_u16 v, s))"

text \<open>The uninitialised structures of the stack are overwritten, the index being in range.\<close>

definition cycle_time_read_item :: "nat \<Rightarrow> kacm \<Rightarrow> (int \<times> u8 list \<times> kacm) option" where
  "cycle_time_read_item i s =
     (let (t, s) = scheduler_read_cycle_time (i div ACMDRV_SCHED_TBL_COUNT) (i mod ACMDRV_SCHED_TBL_COUNT)
            \<lparr>ct_subns = 0, ct_ns = 0\<rparr> s in
      Some (0, put_u32 (ct_subns t) @ put_u32 (ct_ns t), s))"

definition sched_cycle_time_read :: "int \<Rightarrow> nat \<Rightarrow> kacm \<Rightarrow> (int \<times> u8 list \<times> kacm) option" where
  "sched_cycle_time_read = attr_read (ACMDRV_SCHEDULER_COUNT * ACMDRV_SCHED_TBL_COUNT * 8) 8 cycle_time_read_item"

definition cycle_time_write_item :: "nat \<Rightarrow> u8 list \<Rightarrow> kacm \<Rightarrow> (int \<times> kacm) option" where
  "cycle_time_write_item i buf s = Some (0, scheduler_write_cycle_time (i div ACMDRV_SCHED_TBL_COUNT)
     (i mod ACMDRV_SCHED_TBL_COUNT) \<lparr>ct_subns = get_u32 buf, ct_ns = get_u32 (drop 4 buf)\<rparr> s)"

definition sched_cycle_time_write :: "u8 list \<Rightarrow> int \<Rightarrow> nat \<Rightarrow> kacm \<Rightarrow> (int \<times> kacm) option" where
  "sched_cycle_time_write = attr_write (ACMDRV_SCHEDULER_COUNT * ACMDRV_SCHED_TBL_COUNT * 8) 8 cycle_time_write_item"

text \<open>\<^verbatim>\<open>struct acmdrv_timespec64\<close>: 8 bytes of seconds and 4 bytes of nanoseconds, both signed.\<close>

definition put_timespec :: "timespec64 \<Rightarrow> u8 list" where
  "put_timespec t = to_le 8 (unat (word_of_int (ts_sec t) :: u64)) @ to_le 4 (unat (word_of_int (ts_nsec t) :: u32))"

definition get_timespec :: "u8 list \<Rightarrow> timespec64" where
  "get_timespec bs = \<lparr>ts_sec = sint (word_of_nat (le_val (take 8 bs)) :: u64), ts_nsec = sint (get_u32 (drop 8 bs))\<rparr>"

definition start_table_read_item :: "nat \<Rightarrow> kacm \<Rightarrow> (int \<times> u8 list \<times> kacm) option" where
  "start_table_read_item i s =
     (let (_, t) = scheduler_read_start_time (i div ACMDRV_SCHED_TBL_COUNT) (i mod ACMDRV_SCHED_TBL_COUNT)
            \<lparr>ts_sec = 0, ts_nsec = 0\<rparr> s in Some (0, put_timespec t, s))"

definition sched_start_table_read :: "int \<Rightarrow> nat \<Rightarrow> kacm \<Rightarrow> (int \<times> u8 list \<times> kacm) option" where
  "sched_start_table_read = attr_read (ACMDRV_SCHEDULER_COUNT * ACMDRV_SCHED_TBL_COUNT * 12) 12 start_table_read_item"

text \<open>The result of the scheduler is ignored.\<close>

definition start_table_write_item :: "nat \<Rightarrow> u8 list \<Rightarrow> kacm \<Rightarrow> (int \<times> kacm) option" where
  "start_table_write_item i buf s =
     (let (_, s) = scheduler_write_start_time (i div ACMDRV_SCHED_TBL_COUNT) (i mod ACMDRV_SCHED_TBL_COUNT)
            (get_timespec buf) True s in Some (0, s))"

definition sched_start_table_write :: "u8 list \<Rightarrow> int \<Rightarrow> nat \<Rightarrow> kacm \<Rightarrow> (int \<times> kacm) option" where
  "sched_start_table_write = attr_write (ACMDRV_SCHEDULER_COUNT * ACMDRV_SCHED_TBL_COUNT * 12) 12 start_table_write_item"

definition emergency_disable_read :: "int \<Rightarrow> nat \<Rightarrow> kacm \<Rightarrow> (int \<times> u8 list \<times> kacm) option" where
  "emergency_disable_read = attr_read (ACMDRV_SCHEDULER_COUNT * 2) 2
     (\<lambda>i s. let (v, s) = scheduler_read_emergency_disable i s in Some (0, put_u16 v, s))"

definition emergency_disable_write :: "u8 list \<Rightarrow> int \<Rightarrow> nat \<Rightarrow> kacm \<Rightarrow> (int \<times> kacm) option" where
  "emergency_disable_write = attr_write (ACMDRV_SCHEDULER_COUNT * 2) 2
     (\<lambda>i buf s. Some (0, scheduler_write_emergency_disable i (get_u16 buf) s))"

section \<open>Recovery timeouts\<close>

definition individual_recovery_read :: "int \<Rightarrow> nat \<Rightarrow> kacm \<Rightarrow> (int \<times> u8 list \<times> kacm) option" where
  "individual_recovery_read = attr_read (ACMDRV_BYPASS_MODULES_COUNT * ACMDRV_BYPASS_NR_RULES * 4) 4
     (\<lambda>i s. case redundancy_get_individual_recovery_timeout (i div ACMDRV_BYPASS_NR_RULES) (i mod ACMDRV_BYPASS_NR_RULES) s of
        (ret, Some timeout, s) \<Rightarrow> Some (ret, put_u32 timeout, s)
      | (ret, None, s) \<Rightarrow> Some (ret, [], s))"

definition individual_recovery_write :: "u8 list \<Rightarrow> int \<Rightarrow> nat \<Rightarrow> kacm \<Rightarrow> (int \<times> kacm) option" where
  "individual_recovery_write = attr_write (ACMDRV_BYPASS_MODULES_COUNT * ACMDRV_BYPASS_NR_RULES * 4) 4
     (\<lambda>i buf s. Some (redundancy_set_individual_recovery_timeout (i div ACMDRV_BYPASS_NR_RULES)
        (i mod ACMDRV_BYPASS_NR_RULES) (get_u32 buf) s))"

definition base_recovery_read :: "int \<Rightarrow> nat \<Rightarrow> kacm \<Rightarrow> (int \<times> u8 list \<times> kacm) option" where
  "base_recovery_read = attr_read (ACMDRV_REDUN_TABLE_ENTRY_COUNT * 4) 4
     (\<lambda>i s. case redundancy_get_base_recovery_timeout i s of
        (ret, Some timeout, s) \<Rightarrow> Some (ret, put_u32 timeout, s)
      | (ret, None, s) \<Rightarrow> Some (ret, [], s))"

definition base_recovery_write :: "u8 list \<Rightarrow> int \<Rightarrow> nat \<Rightarrow> kacm \<Rightarrow> (int \<times> kacm) option" where
  "base_recovery_write = attr_write (ACMDRV_REDUN_TABLE_ENTRY_COUNT * 4) 4
     (\<lambda>i buf s. Some (redundancy_set_base_recovery_timeout i (get_u32 buf) s))"

section \<open>Control section\<close>

definition lock_access_error :: "int \<Rightarrow> nat \<Rightarrow> bool" where
  "lock_access_error off sz = (off \<noteq> 0 \<or> sz \<noteq> LOCK_CTRL_SIZE)"

text \<open>The mask is applied to the pointer variable, not to the vector: the vector is returned unmasked.\<close>

definition lock_msg_bufs_read :: "int \<Rightarrow> nat \<Rightarrow> kacm \<Rightarrow> (int \<times> bitarray \<times> kacm) option" where
  "lock_msg_bufs_read off sz s = (if lock_access_error off sz then Some (- EINVAL, [], s)
     else do {
       (l, s) \<leftarrow> msgbuf_read_lock_ctl (acmdrv_bitarray_zero LOCK_CTRL_SIZE) s;
       Some (int sz, l, s) })"

definition lock_msg_bufs_write :: "bitarray \<Rightarrow> int \<Rightarrow> nat \<Rightarrow> kacm \<Rightarrow> (int \<times> kacm) option" where
  "lock_msg_bufs_write l off sz s = (if lock_access_error off sz then Some (- EINVAL, s)
     else do {
       s \<leftarrow> msgbuf_set_lock_ctl_mask (acmdrv_bitarray_and LOCK_CTRL_SIZE l (mb_mask (k_msgbuf s))) s;
       Some (int sz, s) })"

definition unlock_msg_bufs_read :: "int \<Rightarrow> nat \<Rightarrow> kacm \<Rightarrow> (int \<times> bitarray \<times> kacm) option" where
  "unlock_msg_bufs_read off sz s = (if lock_access_error off sz then Some (- EINVAL, [], s)
     else do {
       (l, s) \<leftarrow> msgbuf_read_lock_ctl (acmdrv_bitarray_zero LOCK_CTRL_SIZE) s;
       Some (int sz, acmdrv_bitarray_and LOCK_CTRL_SIZE (acmdrv_bitarray_not LOCK_CTRL_SIZE l) (mb_mask (k_msgbuf s)), s) })"

definition unlock_msg_bufs_write :: "bitarray \<Rightarrow> int \<Rightarrow> nat \<Rightarrow> kacm \<Rightarrow> (int \<times> kacm) option" where
  "unlock_msg_bufs_write l off sz s = (if lock_access_error off sz then Some (- EINVAL, s)
     else let l = acmdrv_bitarray_and LOCK_CTRL_SIZE l (mb_mask (k_msgbuf s)) in do {
       s \<leftarrow> msgbuf_unset_lock_ctl_mask l s;
       s \<leftarrow> msgbuf_unset_lock_ctl_mask l s;
       Some (int sz, s) })"

definition overwritten_read :: "int \<Rightarrow> nat \<Rightarrow> kacm \<Rightarrow> (int \<times> u8 list \<times> kacm) option" where
  "overwritten_read off sz s = attr_read (commreg_read_msgbuf_count s * 4) 4
     (\<lambda>i s. do { (v, s) \<leftarrow> msgbuf_read_clear_overwritten i s; Some (0, put_u32 v, s) }) off sz s"

section \<open>Status section\<close>

text \<open>The fields of the frame error register, in the order of the partition.\<close>

definition FRAME_ERRORS_bitmasks :: "u32 list" where
  "FRAME_ERRORS_bitmasks = [GENMASK 31 24, GENMASK 7 0, GENMASK 23 16]"

definition FRAME_ERRORS :: nat where [simp]: "FRAME_ERRORS = 0x110"

fun find_mask :: "u32 \<Rightarrow> u32 list \<Rightarrow> nat" where
  "find_mask m [] = 0"
| "find_mask m (m' # ms) = (if m' = m then 0 else Suc (find_mask m ms))"

definition get_partreg_val :: "nat \<Rightarrow> u32 \<Rightarrow> kacm \<Rightarrow> u32 \<times> kacm" where
  "get_partreg_val b m s =
     (let k = find_mask m FRAME_ERRORS_bitmasks in
      if k = length FRAME_ERRORS_bitmasks then (0, s)
      else let (v, s) = bypass_status_area_read b FRAME_ERRORS s;
               vals = map2 (\<lambda>old mk. old + read_bitmask v mk) (k_partreg s b) FRAME_ERRORS_bitmasks in
        (vals ! k, s\<lparr>k_partreg := (k_partreg s)(b := vals[k := 0])\<rparr>))"

record status_attribute =
  st_name :: string
  st_offset :: nat
  st_bitmask :: u32
  st_part :: bool
  st_min :: acm_ip_if_variant
  st_max :: acm_ip_if_variant
  st_debug_only :: bool

definition acm_status_value :: "status_attribute \<Rightarrow> nat \<Rightarrow> kacm \<Rightarrow> u32 \<times> kacm" where
  "acm_status_value a b s =
     (if st_part a then get_partreg_val b (st_bitmask a) s
      else let (v, s) = bypass_status_area_read b (st_offset a) s in (read_bitmask v (st_bitmask a), s))"

definition acm_status_show :: "status_attribute \<Rightarrow> nat \<Rightarrow> kacm \<Rightarrow> string \<times> kacm" where
  "acm_status_show a b s = (let (v, s) = acm_status_value a b s in (''0x'' @ print_HEX (unat v), s))"

text \<open>Two registers as one value, of at least the digits its mask needs.\<close>

definition acm_status64_value :: "nat \<Rightarrow> u64 \<Rightarrow> nat \<Rightarrow> kacm \<Rightarrow> u64 \<times> kacm" where
  "acm_status64_value off m b s =
     (let (lo, s) = bypass_status_area_read b off s;
          (hi, s) = bypass_status_area_read b (off + 4) s in
      (read_bitmask64 (push_bit 32 (ucast hi) OR ucast lo) m, s))"

definition hweight64 :: "u64 \<Rightarrow> nat" where
  "hweight64 m = length (filter (bit m) [0..<64])"

definition acm_status64_show :: "nat \<Rightarrow> u64 \<Rightarrow> nat \<Rightarrow> kacm \<Rightarrow> string \<times> kacm" where
  "acm_status64_show off m b s =
     (let (v, s) = acm_status64_value off m b s;
          digits = print_HEX (unat v); nibbles = (hweight64 m + 3) div 4 in
      (''0X'' @ replicate (nibbles - length digits) (char_of (48::nat)) @ digits @ [char_of (10::nat)], s))"

definition acm_status_is_visible :: "bool \<Rightarrow> acm_ip_if_variant \<Rightarrow> acm_ip_if_variant \<Rightarrow> kacm \<Rightarrow> bool" where
  "acm_status_is_visible debug_only mn mx s =
     (if debug_only \<and> \<not> commreg_read_extended_status s then False
      else if mn \<noteq> ACM_IF_DONT_CARE \<and> k_if_id s < mn then False
      else if mx \<noteq> ACM_IF_DONT_CARE \<and> mx < k_if_id s then False
      else True)"

section \<open>Error section\<close>

definition fls64 :: "u64 \<Rightarrow> nat" where
  "fls64 m = (case find (bit m) (rev [0..<64]) of Some i \<Rightarrow> i + 1 | None \<Rightarrow> 0)"

definition sysfs_error_attr_show :: "nat \<Rightarrow> u64 \<Rightarrow> nat \<Rightarrow> kacm \<Rightarrow> string \<times> kacm" where
  "sysfs_error_attr_show off m b s =
     (let (reg_lo, s) = bypass_status_area_read b off s in
      if 32 \<le> fls64 m
      then let (reg_hi, s) = bypass_status_area_read b (off + 4) s;
               v = read_bitmask64 (push_bit 32 (ucast reg_hi) + ucast reg_lo) m in
        (''0X'' @ print_HEX (unat v) @ [char_of (10::nat)], s)
      else let v = read_bitmask reg_lo (ucast m) in
        if hweight64 m = 1 then (print_HEX (unat v) @ [char_of (10::nat)], s)
        else (''0X'' @ print_HEX (unat v) @ [char_of (10::nat)], s))"

definition error_flags_mask :: "kacm \<Rightarrow> u64" where
  "error_flags_mask s = (if k_if_id s = ACM_IF_1_0 then mask 40 else mask 41)"

section \<open>Diagnostics section\<close>

definition diagnostics_read :: "nat \<Rightarrow> int \<Rightarrow> nat \<Rightarrow> kacm \<Rightarrow> (int \<times> acmdrv_diagnostics option \<times> kacm) option" where
  "diagnostics_read b off sz s =
     (if sz = 0 then Some (0, None, s)
      else if off \<noteq> 0 \<or> sz < 296 then Some (- EINVAL, None, s)
      else do {
        (ret, d, s) \<leftarrow> bypass_diag_read b s;
        Some (if ret \<noteq> 0 then ret else 296, d, s) })"

definition diagnostics_write :: "nat \<Rightarrow> nat \<Rightarrow> kacm \<Rightarrow> (int \<times> kacm) option" where
  "diagnostics_write b sz s = do {
     (ret, s) \<leftarrow> bypass_diag_init b s;
     Some (if ret \<noteq> 0 then ret else ssize sz, s) }"

definition diag_poll_time_show :: "nat \<Rightarrow> kacm \<Rightarrow> string" where
  "diag_poll_time_show b s = print_dec (unat (bypass_get_diag_poll_time b s)) @ [char_of (10::nat)]"

text \<open>\<open>parsed\<close> is the result of \<^verbatim>\<open>kstrtoul\<close>: an error or a value, of which the lower 32 bits are used.\<close>

definition diag_poll_time_store :: "nat \<Rightarrow> int + nat \<Rightarrow> nat \<Rightarrow> kacm \<Rightarrow> int \<times> kacm" where
  "diag_poll_time_store b parsed count s =
     (if count = 0 then (0, s)
      else case parsed of
          Inl ret \<Rightarrow> (ret, s)
        | Inr v \<Rightarrow> (int count, bypass_set_diag_poll_time (word_of_nat v) b s))"

end
