(* ===== verification/Acm_Drv_Rows.thy ===== *)
theory Acm_Drv_Rows
  imports Acm_Drv_Attrs Acm_Fsc_Spec
begin

text \<open>
  What the scheduler holds after a history of accesses: \<open>row_mem\<close> replays the history and stores a
  row when the transfer of a row to the hardware is started. It is the abstract memory that
  \<^verbatim>\<open>scheduler_write_table_row\<close> updates.
\<close>

definition reg16 :: "io list \<Rightarrow> nat \<Rightarrow> u16" where
  "reg16 h off = (case last16 h R_Scheduler off of Some v \<Rightarrow> v | None \<Rightarrow> 0)"

definition starts_row_write :: "u16 \<Rightarrow> bool" where
  "starts_row_write v = (read_bitmask16 v CMD0_TRANSFER \<noteq> 0 \<and> read_bitmask16 v CMD0_WRITE \<noteq> 0)"

definition row_address :: "io list \<Rightarrow> u16 \<Rightarrow> nat \<times> nat \<times> nat" where
  "row_address h v = (unat (read_bitmask16 v CMD0_SCHEDULER), unat (read_bitmask16 v CMD0_TABLE),
     unat (read_bitmask16 (reg16 h ROW_ACCESS_CMD1) CMD1_ROW_NUMBER))"

definition row_data :: "io list \<Rightarrow> u32 \<times> u16" where
  "row_data h = (push_bit 16 (ucast (reg16 h ROW_ACCESS_DATA1)) OR ucast (reg16 h ROW_ACCESS_DATA0),
     reg16 h ROW_ACCESS_DATA4)"

fun row_mem :: "io list \<Rightarrow> nat \<times> nat \<times> nat \<Rightarrow> (u32 \<times> u16) option" where
  "row_mem [] = Map.empty"
| "row_mem (e # es) = (case e of
     W16 r off v \<Rightarrow> if r = R_Scheduler \<and> off = ROW_ACCESS_CMD0 \<and> starts_row_write v
       then (row_mem es)(row_address es v \<mapsto> row_data es) else row_mem es
   | _ \<Rightarrow> row_mem es)"

section \<open>The command words\<close>

lemma masks:
  "CMD0_SCHEDULER = 0x7" "CMD0_TABLE = 0x100" "CMD0_WRITE = 0x4000" "CMD0_TRANSFER = 0x8000"
  "CMD1_ROW_NUMBER = 0x3FF"
  by (simp_all add: CMD0_SCHEDULER_def CMD0_TABLE_def CMD0_WRITE_def CMD0_TRANSFER_def CMD1_ROW_NUMBER_def
      GENMASK16_def mask_eq_exp_minus_1 push_bit_eq_mult)

lemma ffs_masks:
  "ffs_kernel (0x7 :: u16) = 0" "ffs_kernel (0x100 :: u16) = 8" "ffs_kernel (0x4000 :: u16) = 14"
  "ffs_kernel (0x8000 :: u16) = 15" "ffs_kernel (0x3FF :: u16) = 0"
  by (simp_all add: ffs_kernel_def upt_rec)

lemma row_cmd0_value:
  assumes "sched_id < 2" "tab_id < 2"
  shows "row_cmd0 sched_id tab_id wr = 0x8000 + (if wr then 0x4000 else 0) + 0x100 * word_of_nat tab_id +
    word_of_nat sched_id"
proof -
  have "sched_id = 0 \<or> sched_id = 1" "tab_id = 0 \<or> tab_id = 1" using assms by auto
  then show ?thesis
    by (auto simp: row_cmd0_def write_bitmask16_def masks ffs_masks)
qed

lemma row_cmd0_fields:
  assumes "sched_id < 2" "tab_id < 2"
  shows "unat (read_bitmask16 (row_cmd0 sched_id tab_id wr) CMD0_SCHEDULER) = sched_id"
    "unat (read_bitmask16 (row_cmd0 sched_id tab_id wr) CMD0_TABLE) = tab_id"
    "starts_row_write (row_cmd0 sched_id tab_id wr) = wr"
proof -
  have "sched_id = 0 \<or> sched_id = 1" "tab_id = 0 \<or> tab_id = 1" using assms by auto
  then show "unat (read_bitmask16 (row_cmd0 sched_id tab_id wr) CMD0_SCHEDULER) = sched_id"
    "unat (read_bitmask16 (row_cmd0 sched_id tab_id wr) CMD0_TABLE) = tab_id"
    "starts_row_write (row_cmd0 sched_id tab_id wr) = wr"
    by (auto simp: row_cmd0_value [OF assms] starts_row_write_def read_bitmask16_def masks ffs_masks drop_bit_eq_div)
qed

lemma row_cmd1_field:
  assumes "row_id < 1024"
  shows "unat (read_bitmask16 (row_cmd1 row_id) CMD1_ROW_NUMBER) = row_id"
proof -
  have "(0x3FF :: u16) = mask 10" by (simp add: mask_eq_exp_minus_1)
  then have "word_of_nat row_id AND (0x3FF :: u16) = take_bit 10 (word_of_nat row_id)"
    by (simp only: take_bit_eq_mask)
  also have "\<dots> = word_of_nat row_id"
  proof -
    have u: "unat (word_of_nat row_id :: u16) = row_id" using assms by (simp add: unat_of_nat)
    have "unat (take_bit 10 (word_of_nat row_id :: u16)) = take_bit 10 (unat (word_of_nat row_id :: u16))"
      by (rule unsigned_take_bit_eq)
    also have "\<dots> = row_id" using assms by (simp only: u take_bit_eq_mod) simp
    finally show ?thesis using u by (simp only: word_unat_eq_iff)
  qed
  finally have "word_of_nat row_id AND (0x3FF :: u16) = word_of_nat row_id" .
  then show ?thesis
    using assms by (simp add: row_cmd1_def read_bitmask16_def write_bitmask16_def masks ffs_masks unat_of_nat)
qed

lemma halves_32: "push_bit 16 (ucast (high_16bits c)) OR ucast (low_16bits c) = c"
proof -
  have m: "(0xFFFF :: u32) = mask 16" "(0xFFFF0000 :: u32) = push_bit 16 (mask 16)"
    by (simp_all add: mask_eq_exp_minus_1 push_bit_eq_mult)
  show ?thesis
    unfolding high_16bits_def low_16bits_def m
    by (rule bit_word_eqI) (auto simp: bit_simps)
qed

section \<open>Writing one row\<close>

lemma wait_table_row_quiet:
  assumes "wait_table_row n s = (ret, s')"
  shows "\<exists>k. s' = s\<lparr>k_io := replicate k (R16 R_Scheduler ROW_ACCESS_CMD0) @ k_io s\<rparr>"
    and "ret = 0 \<or> ret = - ETIMEDOUT"
proof -
  have "(\<exists>k. s' = s\<lparr>k_io := replicate k (R16 R_Scheduler ROW_ACCESS_CMD0) @ k_io s\<rparr>) \<and> (ret = 0 \<or> ret = - ETIMEDOUT)"
    using assms
  proof (induction n arbitrary: s)
    case 0
    then show ?case by (auto intro!: exI [of _ 0])
  next
    case (Suc n)
    show ?case
    proof (cases "read_bitmask16 (rd16 (k_env s) (k_io s) R_Scheduler ROW_ACCESS_CMD0) CMD0_TRANSFER = 0")
      case True
      with Suc.prems show ?thesis by (auto simp: readw_def log_io_def intro!: exI [of _ 1])
    next
      case False
      with Suc.prems have "wait_table_row n (snd (readw R_Scheduler ROW_ACCESS_CMD0 s)) = (ret, s')"
        by (simp add: readw_def)
      from Suc.IH [OF this] obtain k where
        "s' = s\<lparr>k_io := replicate k (R16 R_Scheduler ROW_ACCESS_CMD0) @ R16 R_Scheduler ROW_ACCESS_CMD0 # k_io s\<rparr>"
        and r: "ret = 0 \<or> ret = - ETIMEDOUT"
        by (auto simp: readw_def log_io_def)
      then have "s' = s\<lparr>k_io := replicate (Suc k) (R16 R_Scheduler ROW_ACCESS_CMD0) @ k_io s\<rparr>"
        by (simp add: replicate_app_Cons_same)
      with r show ?thesis by blast
    qed
  qed
  then show "\<exists>k. s' = s\<lparr>k_io := replicate k (R16 R_Scheduler ROW_ACCESS_CMD0) @ k_io s\<rparr>"
    "ret = 0 \<or> ret = - ETIMEDOUT" by auto
qed

lemma row_mem_reads [simp]: "row_mem (replicate k (R16 r off) @ h) = row_mem h"
  by (induction k) auto

lemma row_mem_lock [simp]: "row_mem (Lock_intr # h) = row_mem h"
  by simp

text \<open>The writes of one row on any history.\<close>

definition row_write_events :: "nat \<Rightarrow> nat \<Rightarrow> nat \<Rightarrow> u32 \<times> u16 \<Rightarrow> io list" where
  "row_write_events sched_id tab_id row_id row =
     [W16 R_Scheduler ROW_ACCESS_CMD0 (row_cmd0 sched_id tab_id True),
      W16 R_Scheduler ROW_ACCESS_CMD1 (row_cmd1 row_id),
      W16 R_Scheduler ROW_ACCESS_DATA4 (snd row),
      W16 R_Scheduler ROW_ACCESS_DATA1 (high_16bits (fst row)),
      W16 R_Scheduler ROW_ACCESS_DATA0 (low_16bits (fst row))]"

lemma row_mem_row_write:
  assumes "sched_id < 2" "tab_id < 2" "row_id < 1024"
  shows "row_mem (row_write_events sched_id tab_id row_id row @ h) = (row_mem h)((sched_id, tab_id, row_id) \<mapsto> row)"
  using assms
  by (simp add: row_write_events_def row_cmd0_fields row_address_def row_data_def reg16_def row_cmd1_field halves_32)

lemma scheduler_write_table_row_cases:
  assumes "scheduler_write_table_row sched_id tab_id row_id row s = (ret, s')"
  obtains "row_index_error sched_id tab_id row_id" "ret = - EINVAL" "s' = s"
  | "\<not> row_index_error sched_id tab_id row_id" "fst (lock_intr s) \<noteq> 0" "ret = fst (lock_intr s)"
      "s' = snd (lock_intr s)"
  | k where "\<not> row_index_error sched_id tab_id row_id" "fst (lock_intr s) = 0" "ret = 0 \<or> ret = - ETIMEDOUT"
      "s' = s\<lparr>k_io := replicate k (R16 R_Scheduler ROW_ACCESS_CMD0) @
         row_write_events sched_id tab_id row_id row @ Lock_intr # k_io s\<rparr>"
proof (cases "row_index_error sched_id tab_id row_id")
  case True
  then show ?thesis using assms that(1) by (simp add: scheduler_write_table_row_def)
next
  case False
  show ?thesis
  proof (cases "fst (lock_intr s) = 0")
    case True
    define s1 where "s1 = s\<lparr>k_io := row_write_events sched_id tab_id row_id row @ Lock_intr # k_io s\<rparr>"
    have "wait_table_row WAIT_TABLE_ROW_RETRY s1 = (ret, s')"
      using assms False True
      by (simp add: scheduler_write_table_row_def wait_table_row_transfer_def s1_def row_write_events_def io_defs Let_def split: if_splits)
    from wait_table_row_quiet [OF this] that(3) [OF False True] show ?thesis by (auto simp: s1_def)
  next
    case nz: False
    then show ?thesis using assms False that(2)
      by (auto simp: scheduler_write_table_row_def split: prod.splits)
  qed
qed

lemma row_mem_write_table_row:
  assumes "scheduler_write_table_row sched_id tab_id row_id row s = (ret, s')"
  shows "row_mem (k_io s') = (if row_index_error sched_id tab_id row_id \<or> fst (lock_intr s) \<noteq> 0 then row_mem (k_io s)
    else (row_mem (k_io s))((sched_id, tab_id, row_id) \<mapsto> row))"
    and "k_env s' = k_env s"
  using assms
  by (auto elim!: scheduler_write_table_row_cases simp: row_index_error_def row_mem_row_write lock_intr_def log_io_def)

end
