(* ===== verification/Acm_Drv_Bridge.thy ===== *)
theory Acm_Drv_Bridge
  imports Acm_Drv_Rows Acm_Schedule_Theorems Acm_Examples
begin

text \<open>
  The two sides together: a write of the library is the call of the attribute's write function with
  the bytes of the data. \<open>driver_run\<close> performs the writes of a log of the library one after the
  other. The theorems say that the offsets the library computes select the module, table, row and
  register the driver accesses.
\<close>

section \<open>The bytes of a write, the attributes\<close>

fun hw_bytes :: "hw_data \<Rightarrow> u8 list" where
  "hw_bytes (D_u32 v) = put_u32 v"
| "hw_bytes (D_row cmd delta) = put_u32 cmd @ put_u16 delta @ [0, 0]"
| "hw_bytes (D_cycle_time ns) = put_u32 0 @ put_u32 ns"
| "hw_bytes (D_start_time sec nsec) = put_timespec \<lparr>ts_sec = sec, ts_nsec = nsec\<rparr>"
| "hw_bytes (D_emergency v) = put_u16 v"
| "hw_bytes (D_bytes bs) = bs"
| "hw_bytes (D_u32s vs) = concat (map put_u32 vs)"
| "hw_bytes (D_alias idx name) = idx # to_le 8 0 @ strncpy_bytes 54 name @ [0]"
| "hw_bytes (D_text str) = map u8_of_char str"

type_synonym attr_writer = "u8 list \<Rightarrow> int \<Rightarrow> nat \<Rightarrow> kacm \<Rightarrow> (int \<times> kacm) option"

definition cntl_writers :: "(string \<times> attr_writer) list" where
  "cntl_writers = map (\<lambda>(name, reg). (name, sysfs_bypass_reg_write ACM_BYPASS_CONTROL_AREA reg))
     [(''cntl_ngn_enable'', 0x00), (''cntl_lookup_enable'', 0x04), (''cntl_layer7_enable'', 0x08),
      (''cntl_ingress_policing_enable'', 0x0C), (''cntl_connection_mode'', 0x10),
      (''cntl_output_disable'', 0x14), (''cntl_layer7_length'', 0x18), (''cntl_speed'', 0x1C),
      (''cntl_gather_delay'', 0x20), (''cntl_ingress_policing_control'', 0x24)]"

text \<open>The attributes of the configuration section that can be written.\<close>

definition config_attributes :: "(string \<times> attr_writer) list" where
  "config_attributes =
     [(''configuration_id'', \<lambda>b off n s. Some (configuration_id_write b off n s)),
      (''config_state'', config_state_write),
      (''msg_buff_desc'', msg_buff_desc_write), (''msg_buff_alias'', msg_buff_alias_write),
      (''lookup_pattern'', sysfs_bypass_attr_write lookup_pattern_attr),
      (''lookup_mask'', sysfs_bypass_attr_write lookup_mask_attr),
      (''layer7_pattern'', sysfs_bypass_attr_write layer7_pattern_attr),
      (''layer7_mask'', sysfs_bypass_attr_write layer7_mask_attr),
      (''stream_trigger'', sysfs_bypass_attr_write stream_trigger_attr),
      (''scatter_dma'', sysfs_bypass_attr_write scatter_dma_attr),
      (''prefetch_dma'', sysfs_bypass_attr_write prefetch_dma_attr),
      (''gather_dma'', sysfs_bypass_attr_write gather_dma_attr),
      (''const_buffer'', sysfs_bypass_attr_write const_buffer_attr),
      (''redund_cnt_tab'', redund_cnt_tab_write),
      (''redund_intseqnum_tab'', \<lambda>b off n s. Some (redund_intseqnum_tab_write b off n s)),
      (''sched_down_counter'', sched_down_counter_write), (''sched_tab_row'', sched_tab_row_write),
      (''sched_cycle_time'', sched_cycle_time_write), (''sched_start_table'', sched_start_table_write),
      (''emergency_disable'', emergency_disable_write)] @ cntl_writers @
     [(''clear_all_fpga'', \<lambda>b off n s. clear_all_fpga_write b n s),
      (''individual_recovery'', individual_recovery_write), (''base_recovery'', base_recovery_write)]"

text \<open>The name behind the path of the configuration section.\<close>

definition attr_name :: "string \<Rightarrow> string option" where
  "attr_name path = (let p = config_path '''' in
     if take (length p) path = p then Some (drop (length p) path) else None)"

definition driver_pwrite :: "hw_write \<Rightarrow> kacm \<Rightarrow> (int \<times> kacm) option" where
  "driver_pwrite w s = do {
     name \<leftarrow> attr_name (w_path w);
     f \<leftarrow> map_of config_attributes name;
     f (hw_bytes (w_data w)) (int (w_offset w)) (w_size w) s }"

fun driver_run :: "hw_write list \<Rightarrow> kacm \<Rightarrow> (int list \<times> kacm) option" where
  "driver_run [] s = Some ([], s)"
| "driver_run (w # ws) s = do {
     (r, s) \<leftarrow> driver_pwrite w s;
     (rs, s) \<leftarrow> driver_run ws s;
     Some (r # rs, s) }"

lemma attr_name_config [simp]: "attr_name (config_path name) = Some name"
  by (simp add: attr_name_def config_path_def)

lemma SCHED_TAB_PATH_name [simp]: "attr_name SCHED_TAB_PATH = Some ''sched_tab_row''"
  using attr_name_config [of "''sched_tab_row''"] by (simp add: SCHED_TAB_PATH_def config_path_def)

section \<open>Single items\<close>

lemma index_parts:
  fixes k :: nat
  assumes "k < n"
  shows "(q * n + k) div n = q" "(q * n + k) mod n = k"
  using assms by simp_all

lemma attr_check_item:
  assumes "0 < elsize" "i < n" "n * elsize < 2 ^ 31"
  shows "sysfs_bin_attr_check (n * elsize) (int (i * elsize)) elsize elsize = 0"
    and "foreach_item (int (i * elsize)) elsize elsize = [i]"
proof -
  have le: "elsize + i * elsize \<le> n * elsize"
    using assms(2) mult_le_mono1 [of "Suc i" n elsize] by simp
  moreover from this have "(elsize + i * elsize) mod 2 ^ 32 = elsize + i * elsize"
    using assms(3) by (intro mod_less) simp
  moreover have "int (i * elsize) \<le> 2147483647"
  proof -
    have "i * elsize < 2 ^ 31" using le assms(3) by (rule order.strict_trans1 [OF add_leD2])
    then have "int (i * elsize) < int (2 ^ 31)" by (simp only: of_nat_less_iff)
    then show ?thesis by simp
  qed
  ultimately show "sysfs_bin_attr_check (n * elsize) (int (i * elsize)) elsize elsize = 0"
    using assms(1) by (simp only: sysfs_bin_attr_check_def nat_int) (simp del: of_nat_mult)
  have "(i * elsize + elsize) mod 2 ^ 32 = i * elsize + elsize"
    using le assms(3) by (intro mod_less) simp
  then have "((i * elsize + elsize) mod 2 ^ 32) div elsize = Suc i" using assms(1) by (simp only: div_mult_self3) simp
  then show "foreach_item (int (i * elsize)) elsize elsize = [i]"
    using assms(1) by (simp only: foreach_item_def nat_int) simp
qed

lemma attr_write_item:
  assumes "0 < elsize" "i < n" "n * elsize < 2 ^ 31"
  shows "attr_write (n * elsize) elsize f buf (int (i * elsize)) elsize s =
    map_option (\<lambda>(r, s). (if r \<noteq> 0 then r else ssize elsize, s)) (f i buf s)"
  unfolding attr_write_def attr_check_item [OF assms]
  by (cases "f i buf s") (auto simp: Let_def)

lemma row_offset_item:
  assumes "mi < 2" "ti < 2" "k < 1024"
  shows "row_offset mi ti k = (2048 * mi + 1024 * ti + k) * 8" "2048 * mi + 1024 * ti + k < 4096"
    "row_sched (2048 * mi + 1024 * ti + k) = mi" "row_table (2048 * mi + 1024 * ti + k) = ti"
    "row_number (2048 * mi + 1024 * ti + k) = k"
proof -
  have i: "2048 * mi + 1024 * ti + k = (2 * mi + ti) * 1024 + k" by simp
  have "((2 * mi + ti) * 1024 + k) div 1024 = 2 * mi + ti" "((2 * mi + ti) * 1024 + k) mod 1024 = k"
    using assms(3) by (rule index_parts)+
  with assms(2) show "row_sched (2048 * mi + 1024 * ti + k) = mi" "row_table (2048 * mi + 1024 * ti + k) = ti"
    "row_number (2048 * mi + 1024 * ti + k) = k"
    by (simp_all only: i row_sched_def row_table_def row_number_def ACMDRV_SCHED_TBL_ROW_COUNT_def ACMDRV_SCHED_TBL_COUNT_def)
      simp_all
  show "row_offset mi ti k = (2048 * mi + 1024 * ti + k) * 8" "2048 * mi + 1024 * ti + k < 4096"
    using assms by (simp_all add: row_offset_def)
qed

lemma driver_row_write:
  assumes "mi < 2" "ti < 2" "k < 1024"
  shows "driver_pwrite (row_write mi ti k row) s =
    (case scheduler_write_table_row mi ti k row s of (r, s) \<Rightarrow> Some (if r \<noteq> 0 then r else 8, s))"
proof -
  have size: "SCHED_TAB_ROW_SIZE = 4096 * 8" by (simp add: SCHED_TAB_ROW_SIZE_def)
  have bytes: "get_u16 (drop 4 (put_u32 c @ put_u16 d @ [0, 0])) = d" for c d
    by simp
  have "driver_pwrite (row_write mi ti k row) s =
    attr_write (4096 * 8) 8 row_write_item (put_u32 (fst row) @ put_u16 (snd row) @ [0, 0])
      (int ((2048 * mi + 1024 * ti + k) * 8)) 8 s"
    by (simp add: driver_pwrite_def row_write_def config_attributes_def sched_tab_row_write_def size
        row_offset_item [OF assms])
  also have "\<dots> = (case scheduler_write_table_row mi ti k row s of (r, s) \<Rightarrow> Some (if r \<noteq> 0 then r else 8, s))"
    by (subst attr_write_item) (use row_offset_item [OF assms] in
      \<open>simp_all only: row_write_item_def bytes get_put_u32\<close>, auto split: prod.splits)
  finally show ?thesis .
qed

section \<open>A whole table\<close>

lemma driver_run_rows:
  assumes "mi < 2" "ti < 2" "i + length rows \<le> 1024"
    and "driver_run (rows_at mi ti i rows) s = Some (rets, s')" "\<forall>r\<in>set rets. 0 \<le> r"
  shows "row_mem (k_io s') (mi', ti', k) = (if mi' = mi \<and> ti' = ti \<and> i \<le> k \<and> k < i + length rows
    then Some (rows ! (k - i)) else row_mem (k_io s) (mi', ti', k))"
  using assms(3-5)
proof (induction rows arbitrary: i s rets)
  case Nil
  then show ?case by auto
next
  case (Cons row rows)
  obtain r s1 rs where w: "scheduler_write_table_row mi ti i row s = (r, s1)"
      and rest: "driver_run (rows_at mi ti (Suc i) rows) s1 = Some (rs, s')" and rets: "rets = (if r \<noteq> 0 then r else 8) # rs"
    using Cons.prems(1,2) by (auto simp: bind_eq_Some_conv driver_row_write [OF assms(1,2)] split: prod.splits)
  have "0 \<le> r" using Cons.prems(3) rets by (auto split: if_splits)
  moreover have "\<not> row_index_error mi ti i"
    using assms(1,2) Cons.prems(1) by (simp add: row_index_error_def)
  ultimately have "fst (lock_intr s) = 0"
    using w by (elim scheduler_write_table_row_cases) (auto simp: lock_intr_def)
  with w have m: "row_mem (k_io s1) = (row_mem (k_io s))((mi, ti, i) \<mapsto> row)"
    using \<open>\<not> row_index_error mi ti i\<close> by (simp add: row_mem_write_table_row(1) [OF w])
  have "row_mem (k_io s') (mi', ti', k) = (if mi' = mi \<and> ti' = ti \<and> Suc i \<le> k \<and> k < Suc i + length rows
      then Some (rows ! (k - Suc i)) else row_mem (k_io s1) (mi', ti', k))"
    using Cons.prems(1,3) rets rest by (intro Cons.IH) auto
  then show ?case by (auto simp: m nth_Cons' not_le Suc_diff_Suc)
qed

end
