(* ===== verification/Acm_Drv_Examples.thy ===== *)
theory Acm_Drv_Examples
  imports Acm_Drv_Attrs
begin

text \<open>
  A driver the witnesses run: an IP of interface version 4 with 32 message buffers, whose registers
  return what was written last (and zero before), except for the row access, whose transfer is
  always done. No lock is interrupted and no call fails.
\<close>

definition ex_kenv :: kenv where
  "ex_kenv = \<lparr>rd16 = (\<lambda>h r off. if r = R_Scheduler \<and> off = ROW_ACCESS_CMD0 then 0
       else case last16 h r off of Some v \<Rightarrow> v | None \<Rightarrow> 0),
     rd32 = (\<lambda>h r off. case last32 h r off of Some v \<Rightarrow> v | None \<Rightarrow> 0),
     k_intr = (\<lambda>_. 0), k_ptp = (\<lambda>_. 1000000000), k_size = (\<lambda>_. 0x100000), k_wait = (\<lambda>_. 0),
     k_worker_ran = (\<lambda>_. False), k_cdev_add = (\<lambda>_. 0), k_device_create = (\<lambda>_. 0),
     k_copy_fails = (\<lambda>_. False), k_rstout_valid = False, k_rstin_valid = False, k_rstin = (\<lambda>_. False),
     max_diag_retry = 3, clear_on_read = True, diag_poll = 50, recovery_ticks_per_sec = 100, k_hz = 250\<rparr>"

definition ex_commreg :: commreg where
  "ex_commreg = \<lparr>cr_version = ''1.1.0'', cr_revision = ''1'', cr_device_id = 1, cr_extended_status = False,
     cr_testmodule_enable = False, cr_time_freq = 100000000, cr_msgbuf_memsize = 0x4000,
     cr_msgbuf_count = 32, cr_msgbuf_datawidth = 4, cr_cfg_read_back = True,
     cr_individual_recovery = True, cr_rx_redundancy = True\<rparr>"

definition ex_kacm :: kacm where
  "ex_kacm = \<lparr>k_env = ex_kenv, k_io = [], k_if_id = ACM_IF_4_0, k_bypass = (\<lambda>_. init_bypass),
     k_scheduler = (\<lambda>_. \<lparr>sd_active = False, sd_table = (\<lambda>_. init_table)\<rparr>),
     k_recovery = \<lparr>rc_interval = 0, rc_work = None,
       rc_individual = (\<lambda>_ _. \<lparr>frer_seq_rcvy_reset_msec = 0, remaining_ticks = 0\<rparr>),
       rc_base = (\<lambda>_. \<lparr>br_data = \<lparr>frer_seq_rcvy_reset_msec = 0, remaining_ticks = 0\<rparr>, br_intseqnum = 0\<rparr>)\<rparr>,
     k_msgbuf = \<lparr>mb_overwritten = replicate 32 0, mb_desc_cache = replicate 32 0,
       mb_mask = [0xFFFFFFFF, 0]\<rparr>,
     k_commreg = Some ex_commreg, k_status = 1,
     k_devices = replicate 32 \<lparr>ad_id = 0, ad_size = 0, ad_name = [], ad_active = False, ad_timestamp = False\<rparr>,
     k_partreg = (\<lambda>_. [0, 0, 0])\<rparr>"

end
