(* ===== verification/Acm_Drv_Sched_Theorems.thy ===== *)
theory Acm_Drv_Sched_Theorems
  imports Acm_Drv_Bridge Acm_Drv_Examples
begin

text \<open>
  The properties of the driver's scheduler: the rows it transfers, the table the library writes
  through it, the cycle time and the start time.
\<close>

section \<open>Rows\<close>

text \<open>
  C14: Writing a row changes the row memory of the scheduler at exactly the addressed place, where it
  puts the row, when the lock is taken; with an index out of range the result is -EINVAL, and then
  as after an interrupted lock nothing is written. A result of zero means that the row is stored.
\<close>

theorem row_write_refines_memory:
  assumes "scheduler_write_table_row sched_id tab_id row_id row s = (ret, s')"
  shows "row_mem (k_io s') = (if row_index_error sched_id tab_id row_id \<or> fst (lock_intr s) \<noteq> 0 then row_mem (k_io s)
      else (row_mem (k_io s))((sched_id, tab_id, row_id) \<mapsto> row)) \<and>
    (row_index_error sched_id tab_id row_id \<longrightarrow> ret = - EINVAL \<and> s' = s) \<and>
    (ret = 0 \<longrightarrow> row_mem (k_io s') (sched_id, tab_id, row_id) = Some row)"
  using assms
  by (elim scheduler_write_table_row_cases)
    (auto simp: row_index_error_def row_mem_row_write lock_intr_def log_io_def)

text \<open>
  C3: A configuration's schedule from the command list of the library to the hardware: when the
  library has written the table of a module and the driver has performed these writes without error,
  rows 0 to n-1 of that table of the scheduler hold rows whose execution performs every command of
  the list, refreshed from its stream, at its time and nothing else; no other row has changed.
\<close>

theorem schedule_reaches_scheduler:
  assumes "write_fsc_schedules_to_HW mp ti s = Some (ret, s')" "0 \<le> ret" "st_modules s mp = Some m"
    and "sorted_fscs (fsc_list m)" "\<forall>c\<in>set (fsc_list m). active_cmd (fsc_cmd c)"
    and "\<forall>c\<in>set (fsc_list m). unat (abs_cycle c) < 2 ^ 31" "\<not> too_many_events (fsc_list m)"
    and "module_id m < 2" "ti < 2"
    and "driver_run (drop (length (st_hw s)) (st_hw s')) ks = Some (rets, ks')" "\<forall>r\<in>set rets. 0 \<le> r"
  shows "\<exists>fscs rows. list_all2 (refreshed s) (fsc_list m) fscs \<and>
     commands (hw_exec 0 rows) = map (\<lambda>c. (unat (abs_cycle c), fsc_cmd c)) fscs \<and> length rows \<le> 1024 \<and>
     row_mem (k_io ks') = (\<lambda>(mi, t, k). if mi = module_id m \<and> t = ti \<and> k < length rows then Some (rows ! k)
       else row_mem (k_io ks) (mi, t, k))"
proof (rule fsc_written_rows [OF assms(1-5)])
  fix fscs
  assume r: "st_hw s' = st_hw s @ rows_at (module_id m) ti 0 (fsc_rows fscs)"
    "list_all2 (refreshed s) (fsc_list m) fscs" "map abs_cycle fscs = map abs_cycle (fsc_list m)"
    "commands (hw_exec 0 (fsc_rows fscs)) = map (\<lambda>c. (unat (abs_cycle c), fsc_cmd c)) fscs"
  have same: "sorted_fscs fscs" "\<forall>c\<in>set fscs. unat (abs_cycle c) < 2 ^ 31"
      "too_many_events fscs = too_many_events (fsc_list m)"
    using times_only(1,3) [OF r(3)] times_only(2) [OF r(3), of "\<lambda>a. unat a < 2 ^ 31"] assms(4,6) by simp_all
  have len: "length (fsc_rows fscs) \<le> 1024"
    using fsc_rows_fit [OF same(1,2)] same(3) assms(7) by simp
  have run: "driver_run (rows_at (module_id m) ti 0 (fsc_rows fscs)) ks = Some (rets, ks')"
    using assms(10) by (simp add: r(1))
  have "row_mem (k_io ks') = (\<lambda>(mi, t, k). if mi = module_id m \<and> t = ti \<and> k < length (fsc_rows fscs)
      then Some (fsc_rows fscs ! k) else row_mem (k_io ks) (mi, t, k))"
    using driver_run_rows [OF assms(8,9) _ run assms(11)] len by (intro ext) (auto split: prod.splits)
  with r(2,4) len show ?thesis
    by (intro exI [of _ fscs] exI [of _ "fsc_rows fscs"]) simp
qed

section \<open>Cycle time\<close>

lemma last16_skip:
  "r' \<noteq> r \<or> off' \<noteq> off \<Longrightarrow> last16 (W16 r' off' v # h) r off = last16 h r off"
  "last16 (R16 r' off' # h) r off = last16 h r off" "last16 (W16 r off v # h) r off = Some v"
  by auto

lemma SCHED_TABLE_eq [simp]: "SCHED_TABLE a b r = SCHED_TABLE a b r' \<longleftrightarrow> r = r'"
  by (simp add: SCHED_TABLE_def)

definition plain_cycle_time :: "kenv \<Rightarrow> nat \<Rightarrow> nat \<Rightarrow> bool" where
  "plain_cycle_time e sidx tidx = (\<forall>reg\<in>{CYCLETIME_SUBNS_LOW, CYCLETIME_SUBNS_HIGH, CYCLETIME_NS_LOW, CYCLETIME_NS_HIGH}.
     plain16 e R_Scheduler (SCHED_TABLE sidx tidx reg))"

lemma cycle_time_ns:
  "push_bit 16 (ucast ((ucast (drop_bit 16 n AND GENMASK 13 0) :: u16) AND GENMASK16 13 0)) +
    ucast (ucast (n AND GENMASK 15 0) :: u16) = (take_bit 30 n :: u32)"
proof -
  have "push_bit 16 (ucast ((ucast (drop_bit 16 n AND GENMASK 13 0) :: u16) AND GENMASK16 13 0)) AND
      (ucast (ucast (n AND GENMASK 15 0) :: u16) :: u32) = 0"
    by (rule bit_word_eqI) (auto simp: bit_simps)
  then have "push_bit 16 (ucast ((ucast (drop_bit 16 n AND GENMASK 13 0) :: u16) AND GENMASK16 13 0)) +
      (ucast (ucast (n AND GENMASK 15 0) :: u16) :: u32) =
      push_bit 16 (ucast ((ucast (drop_bit 16 n AND GENMASK 13 0) :: u16) AND GENMASK16 13 0)) OR
      ucast (ucast (n AND GENMASK 15 0) :: u16)"
    by (rule disjunctive_add_eq_or)
  also have "\<dots> = take_bit 30 n"
    by (rule bit_word_eqI) (auto simp: bit_simps bit_GENMASK GENMASK16_def)
  finally show ?thesis .
qed

lemma cycle_time_subns:
  "push_bit 8 (ucast (ucast (drop_bit 8 n AND GENMASK 15 0) :: u16)) +
    ucast (drop_bit 8 ((ucast (push_bit 8 n AND GENMASK 15 8) :: u16) AND GENMASK16 15 8)) = (take_bit 24 n :: u32)"
proof -
  have "push_bit 8 (ucast (ucast (drop_bit 8 n AND GENMASK 15 0) :: u16)) AND
      (ucast (drop_bit 8 ((ucast (push_bit 8 n AND GENMASK 15 8) :: u16) AND GENMASK16 15 8)) :: u32) = 0"
    by (rule bit_word_eqI) (auto simp: bit_simps)
  then have "push_bit 8 (ucast (ucast (drop_bit 8 n AND GENMASK 15 0) :: u16)) +
      (ucast (drop_bit 8 ((ucast (push_bit 8 n AND GENMASK 15 8) :: u16) AND GENMASK16 15 8)) :: u32) =
      push_bit 8 (ucast (ucast (drop_bit 8 n AND GENMASK 15 0) :: u16)) OR
      ucast (drop_bit 8 ((ucast (push_bit 8 n AND GENMASK 15 8) :: u16) AND GENMASK16 15 8))"
    by (rule disjunctive_add_eq_or)
  also have "\<dots> = take_bit 24 n"
  proof (rule bit_word_eqI)
    fix k assume "k < LENGTH(32)"
    then show "bit (push_bit 8 (ucast (ucast (drop_bit 8 n AND GENMASK 15 0) :: u16)) OR
        (ucast (drop_bit 8 ((ucast (push_bit 8 n AND GENMASK 15 8) :: u16) AND GENMASK16 15 8)) :: u32)) k =
      bit (take_bit 24 n) k"
      by (cases "k < 8") (auto simp: bit_simps bit_GENMASK GENMASK16_def)
  qed
  finally show ?thesis .
qed

text \<open>
  Reading the cycle time after writing it gives the written value, cut to the 30 bits of the
  nanoseconds and the 24 bits of the sub-nanoseconds, when the registers hold what is written.
\<close>

theorem cycle_time_roundtrip:
  assumes "sidx < 2" "tidx < 2" "plain_cycle_time (k_env s) sidx tidx"
  shows "fst (scheduler_read_cycle_time sidx tidx t0 (scheduler_write_cycle_time sidx tidx t s)) =
    \<lparr>ct_subns = take_bit 24 (ct_subns t), ct_ns = take_bit 30 (ct_ns t)\<rparr>"
proof -
  have p: "last16 h R_Scheduler (SCHED_TABLE sidx tidx reg) = Some v \<Longrightarrow>
      rd16 (k_env s) h R_Scheduler (SCHED_TABLE sidx tidx reg) = v"
    if "reg \<in> {CYCLETIME_SUBNS_LOW, CYCLETIME_SUBNS_HIGH, CYCLETIME_NS_LOW, CYCLETIME_NS_HIGH}" for h reg v
    using assms(3) that by (auto simp: plain_cycle_time_def plain16_def)
  show ?thesis
    using assms(1,2) cycle_time_ns [of "ct_ns t"] cycle_time_subns [of "ct_subns t"]
    by (simp add: scheduler_read_cycle_time_def scheduler_write_cycle_time_def read_cycle_time_def
        io_defs Let_def p)
qed

section \<open>Start time\<close>

text \<open>Nanoseconds and seconds as the three registers of a table hold them.\<close>

definition start_registers :: "nat \<Rightarrow> nat \<Rightarrow> timespec64 \<Rightarrow> io list \<Rightarrow> bool" where
  "start_registers sidx tidx t h =
     (last16 h R_Scheduler (SCHED_TABLE sidx tidx STARTTIME_NS_LOW) = Some (word_of_int (ts_nsec t)) \<and>
      last16 h R_Scheduler (SCHED_TABLE sidx tidx STARTTIME_NS_HIGH) = Some (word_of_int (ts_nsec t div 65536) AND GENMASK16 13 0) \<and>
      last16 h R_Scheduler (SCHED_TABLE sidx tidx STARTTIME_SEC) = Some (word_of_int (ts_sec t) AND GENMASK16 7 0))"

lemma upd_table_simps [simp]:
  "k_io (upd_table a b f s) = k_io s" "k_env (upd_table a b f s) = k_env s"
  "table_of a b (upd_table a b f s) = f (table_of a b s)"
  by (simp_all add: upd_table_def)

lemma write_start_time_effect:
  "table_of a b (write_start_time sidx tidx s) = table_of a b s"
  "start_registers sidx tidx (tbl_time (table_of sidx tidx s)) (k_io (write_start_time sidx tidx s))"
  by (simp_all add: write_start_time_def io_defs Let_def start_registers_def)

lemma future_msecs:
  assumes "0 \<le> start - now" "start - now < 2 ^ 63"
  shows "nat (ktime_divns (ktime_sub start now) NSEC_PER_MSEC mod 2 ^ 64) = nat ((start - now) div 1000000)"
proof -
  have "(start - now) div 1000000 < 2 ^ 63" using assms by linarith
  moreover have "0 \<le> (start - now) div 1000000" using assms(1) by simp
  moreover have "ktime_sub start now = start - now" using assms by (simp add: ktime_sub_def s64_id)
  ultimately show ?thesis using assms(1) by (simp add: ktime_divns_def)
qed

lemma write_start_time_at_now:
  assumes "0 \<le> start - now" "(start - now) div 1000000 \<le> 64000"
  shows "tbl_time (table_of sidx tidx (write_start_time_at sidx tidx start now s)) = ktime_to_timespec64 start"
    "tbl_complete (table_of sidx tidx (write_start_time_at sidx tidx start now s))"
    "start_registers sidx tidx (ktime_to_timespec64 start) (k_io (write_start_time_at sidx tidx start now s))"
proof -
  have "start - now < 2 ^ 63" using assms by simp
  then have e: "write_start_time_at sidx tidx start now s = write_start_time_done sidx tidx (write_start_time sidx tidx
      (upd_table sidx tidx (\<lambda>t. t\<lparr>tbl_time := ktime_to_timespec64 start\<rparr>) s))"
    using assms future_msecs [OF assms(1)] by (simp add: write_start_time_at_def Let_def)
  show "tbl_time (table_of sidx tidx (write_start_time_at sidx tidx start now s)) = ktime_to_timespec64 start"
    "tbl_complete (table_of sidx tidx (write_start_time_at sidx tidx start now s))"
    "start_registers sidx tidx (ktime_to_timespec64 start) (k_io (write_start_time_at sidx tidx start now s))"
    using write_start_time_effect(2) [of sidx tidx "upd_table sidx tidx (\<lambda>t. t\<lparr>tbl_time := ktime_to_timespec64 start\<rparr>) s"]
    by (simp_all add: e write_start_time_done_def write_start_time_effect(1))
qed

lemma next_cycle:
  fixes start now ns :: int
  assumes "0 < ns"
  defines "first \<equiv> start + ((now - start) div ns + 1) * ns"
  shows "now < first" "first \<le> now + ns" "ns dvd first - start" "now < start + k * ns \<Longrightarrow> first \<le> start + k * ns"
proof -
  have d: "(now - start) div ns * ns + (now - start) mod ns = now - start" by (rule div_mult_mod_eq)
  have m: "0 \<le> (now - start) mod ns" "(now - start) mod ns < ns" using assms(1) by simp_all
  have f: "first = now - (now - start) mod ns + ns" using d by (simp add: first_def algebra_simps)
  show "now < first" "first \<le> now + ns" using f m by linarith+
  show "ns dvd first - start" by (simp add: first_def)
  assume "now < start + k * ns"
  then have "now - start < k * ns" by simp
  then have "(now - start) div ns < k"
    using assms(1) by (metis d m(1) add_less_cancel_right le_add_same_cancel1 mult_less_cancel_right_pos order.strict_trans1 add.commute)
  then have "(now - start) div ns + 1 \<le> k" by simp
  then have "((now - start) div ns + 1) * ns \<le> k * ns" using assms(1) by (simp add: mult_right_mono)
  then show "first \<le> start + k * ns" by (simp add: first_def)
qed

text \<open>The start that was asked for, the time and the cycle time that \<^verbatim>\<open>write_start_time_execute\<close> sees.\<close>

definition asked_start :: "nat \<Rightarrow> nat \<Rightarrow> kacm \<Rightarrow> int" where
  "asked_start sidx tidx s = timespec64_to_ktime (tbl_time (table_of sidx tidx s))"

definition cycle_ns_at :: "nat \<Rightarrow> nat \<Rightarrow> kacm \<Rightarrow> int" where
  "cycle_ns_at sidx tidx s = uint (ct_ns (fst (read_cycle_time sidx tidx (snd (scheduler_ktime_get_ptp s)))))"

text \<open>The accesses that change nothing.\<close>

definition only_reads :: "io list \<Rightarrow> bool" where
  "only_reads h = list_all (\<lambda>e. case e of R16 r off \<Rightarrow> True | Read_ptp \<Rightarrow> True | _ \<Rightarrow> False) h"

lemma read_cycle_time_frame:
  "read_cycle_time sidx tidx s = (t, s') \<Longrightarrow> \<exists>h. only_reads h \<and> s' = s\<lparr>k_io := h @ k_io s\<rparr>"
  unfolding read_cycle_time_def io_defs Let_def
  by (intro exI [of _ "[R16 R_Scheduler (SCHED_TABLE sidx tidx CYCLETIME_NS_LOW), R16 R_Scheduler (SCHED_TABLE sidx tidx CYCLETIME_NS_HIGH),
       R16 R_Scheduler (SCHED_TABLE sidx tidx CYCLETIME_SUBNS_LOW), R16 R_Scheduler (SCHED_TABLE sidx tidx CYCLETIME_SUBNS_HIGH)]"])
    (auto simp: only_reads_def)

lemma cycle_ns_bounds: "0 \<le> cycle_ns_at sidx tidx s" "cycle_ns_at sidx tidx s < 2 ^ 32"
  using uint_lt2p [of "ct_ns (fst (read_cycle_time sidx tidx (snd (scheduler_ktime_get_ptp s))))"]
  by (simp_all add: cycle_ns_at_def)

text \<open>Without overflow the arithmetic of the driver is that of the integers.\<close>

lemma past_start_exact:
  assumes "0 \<le> start" "start < now" "now < 2 ^ 62" "0 < ns" "ns < 2 ^ 32"
  shows "ktime_add_ns start (s64 (s64 (ktime_divns (ktime_sub now start) ns + 1) * ns)) =
    start + ((now - start) div ns + 1) * ns"
proof -
  define q where "q = (now - start) div ns"
  have "q * ns + (now - start) mod ns = now - start" unfolding q_def by (rule div_mult_mod_eq)
  moreover have "0 \<le> (now - start) mod ns" using assms(4) by simp
  ultimately have "q * ns \<le> now - start" by linarith
  moreover have "0 \<le> q" using assms by (simp add: q_def pos_imp_zdiv_nonneg_iff)
  ultimately have q: "0 \<le> q" "q * ns \<le> now - start" by simp_all
  have "q \<le> q * ns" using q(1) assms(4) by (simp add: mult_le_cancel_left1)
  then have le: "q \<le> now - start" using q(2) by linarith
  have "ktime_sub now start = now - start" using assms by (simp add: ktime_sub_def s64_id)
  then have "ktime_divns (ktime_sub now start) ns = q" using assms by (simp add: ktime_divns_def q_def)
  moreover have "s64 (q + 1) = q + 1" using q(1) le assms by (intro s64_id) simp_all
  moreover have b: "0 \<le> (q + 1) * ns" "start + (q + 1) * ns \<le> now + ns"
    using q assms(4) by (simp_all add: distrib_right)
  moreover have "s64 ((q + 1) * ns) = (q + 1) * ns" "s64 (start + (q + 1) * ns) = start + (q + 1) * ns"
    by (rule s64_id; use b assms in simp)+
  ultimately show ?thesis by (simp add: ktime_add_ns_def q_def)
qed

lemma write_start_time_execute_past:
  assumes "0 \<le> asked_start sidx tidx s" "asked_start sidx tidx s < fst (scheduler_ktime_get_ptp s)"
    and "fst (scheduler_ktime_get_ptp s) < 2 ^ 62"
  obtains h where "only_reads h" "write_start_time_execute sidx tidx s =
    (if cycle_ns_at sidx tidx s = 0 then s\<lparr>k_io := h @ k_io s\<rparr>
     else write_start_time_at sidx tidx (asked_start sidx tidx s + ((fst (scheduler_ktime_get_ptp s) - asked_start sidx tidx s)
       div cycle_ns_at sidx tidx s + 1) * cycle_ns_at sidx tidx s) (fst (scheduler_ktime_get_ptp s)) (s\<lparr>k_io := h @ k_io s\<rparr>))"
proof -
  define now s0 where "now = fst (scheduler_ktime_get_ptp s)" and "s0 = snd (scheduler_ktime_get_ptp s)"
  have s0: "s0 = s\<lparr>k_io := Read_ptp # k_io s\<rparr>" by (simp add: s0_def scheduler_ktime_get_ptp_def log_io_def)
  obtain t s1 where r: "read_cycle_time sidx tidx s0 = (t, s1)" by fastforce
  obtain h where h: "only_reads h" "s1 = s\<lparr>k_io := (h @ [Read_ptp]) @ k_io s\<rparr>"
    using read_cycle_time_frame [OF r] s0 by auto
  have ns: "cycle_ns_at sidx tidx s = uint (ct_ns t)" by (simp add: cycle_ns_at_def r flip: s0_def)
  moreover have "scheduler_ktime_get_ptp s = (now, s0)" by (simp add: now_def s0_def)
  moreover have "timespec64_to_ktime (tbl_time (table_of sidx tidx s0)) = asked_start sidx tidx s"
    by (simp add: asked_start_def s0)
  moreover have "only_reads (h @ [Read_ptp])" using h(1) by (simp add: only_reads_def)
  moreover have "ktime_add_ns (asked_start sidx tidx s) (s64 (s64 (ktime_divns (ktime_sub now (asked_start sidx tidx s))
        (uint (ct_ns t)) + 1) * uint (ct_ns t))) =
      asked_start sidx tidx s + ((now - asked_start sidx tidx s) div uint (ct_ns t) + 1) * uint (ct_ns t)"
    if "uint (ct_ns t) \<noteq> 0"
  proof -
    have "uint (ct_ns t) > 0" using that by (simp add: order_less_le)
    with past_start_exact [OF assms, of "uint (ct_ns t)"] cycle_ns_bounds [of sidx tidx s]
    show ?thesis by (simp add: now_def ns)
  qed
  ultimately show thesis
    using that [of "h @ [Read_ptp]"] assms(2) r h(2) by (simp add: write_start_time_execute_def Let_def flip: now_def)
qed

text \<open>
  C27: A start time in the past is moved to the next cycle: with a cycle time that is not zero the
  table gets the earliest instant after the current PTP time that is a whole number of cycles after
  the requested start, at most one cycle ahead; this instant is in the registers and the completion
  is signalled. With a cycle time of zero the driver only reads: the state is the same but for the
  reads in the history, no register is written and the completion stays as it was. The times are
  not negative and the current time is below 2 ^ 62 ns (146 years), so that the signed 64 bit
  arithmetic does not wrap.
\<close>

theorem past_start_next_cycle:
  assumes "0 \<le> asked_start sidx tidx s" "asked_start sidx tidx s < fst (scheduler_ktime_get_ptp s)"
    and "fst (scheduler_ktime_get_ptp s) < 2 ^ 62"
  defines "s' \<equiv> write_start_time_execute sidx tidx s" and "now \<equiv> fst (scheduler_ktime_get_ptp s)"
    and "ns \<equiv> cycle_ns_at sidx tidx s"
  shows "(ns = 0 \<longrightarrow> (\<exists>h. only_reads h \<and> s' = s\<lparr>k_io := h @ k_io s\<rparr>)) \<and>
    (0 < ns \<longrightarrow> (\<exists>first. now < first \<and> first \<le> now + ns \<and> ns dvd first - asked_start sidx tidx s \<and>
       (\<forall>k. now < asked_start sidx tidx s + k * ns \<longrightarrow> first \<le> asked_start sidx tidx s + k * ns) \<and>
       tbl_time (table_of sidx tidx s') = ktime_to_timespec64 first \<and> tbl_complete (table_of sidx tidx s') \<and>
       start_registers sidx tidx (ktime_to_timespec64 first) (k_io s')))"
proof (rule write_start_time_execute_past [OF assms(1-3)])
  fix h
  define first where "first = asked_start sidx tidx s + ((now - asked_start sidx tidx s) div ns + 1) * ns"
  assume r: "only_reads h" and e: "write_start_time_execute sidx tidx s =
    (if cycle_ns_at sidx tidx s = 0 then s\<lparr>k_io := h @ k_io s\<rparr>
     else write_start_time_at sidx tidx (asked_start sidx tidx s + ((fst (scheduler_ktime_get_ptp s) - asked_start sidx tidx s)
       div cycle_ns_at sidx tidx s + 1) * cycle_ns_at sidx tidx s) (fst (scheduler_ktime_get_ptp s)) (s\<lparr>k_io := h @ k_io s\<rparr>))"
  have s': "s' = (if ns = 0 then s\<lparr>k_io := h @ k_io s\<rparr> else write_start_time_at sidx tidx first now (s\<lparr>k_io := h @ k_io s\<rparr>))"
    using e by (simp only: s'_def ns_def now_def first_def)
  have "ns < 2 ^ 32" using cycle_ns_bounds by (simp add: ns_def)
  show ?thesis
  proof (intro conjI impI)
    assume "ns = 0"
    then show "\<exists>h. only_reads h \<and> s' = s\<lparr>k_io := h @ k_io s\<rparr>" using r by (auto simp: s')
  next
    assume ns: "0 < ns"
    note nc = next_cycle [OF ns, where start = "asked_start sidx tidx s" and now = now, folded first_def]
    have "0 \<le> first - now" "(first - now) div 1000000 \<le> 64000" using nc(1,2) \<open>ns < 2 ^ 32\<close> by simp_all
    from write_start_time_at_now [OF this, of sidx tidx "s\<lparr>k_io := h @ k_io s\<rparr>"] nc ns
    show "\<exists>first. now < first \<and> first \<le> now + ns \<and> ns dvd first - asked_start sidx tidx s \<and>
       (\<forall>k. now < asked_start sidx tidx s + k * ns \<longrightarrow> first \<le> asked_start sidx tidx s + k * ns) \<and>
       tbl_time (table_of sidx tidx s') = ktime_to_timespec64 first \<and> tbl_complete (table_of sidx tidx s') \<and>
       start_registers sidx tidx (ktime_to_timespec64 first) (k_io s')"
      by (intro exI [of _ first]) (simp add: s')
  qed
qed

text \<open>
  A whole number of 64 seconds and a rest: the delay is the rest, in jiffies that are rounded up, so
  that it is too long by less than one jiffy.
\<close>

lemma delay_jiffies:
  assumes "d < 64000"
  shows "msecs_to_jiffies e (word_of_nat d) = (d * k_hz e + 999) div 1000"
proof -
  have u: "unat (word_of_nat d :: u32) = d" using assms by (simp add: unat_of_nat)
  have "sint (word_of_nat d :: u32) = int d"
    using signed_small [of "word_of_nat d"] assms by (simp add: u)
  then show ?thesis by (simp add: msecs_to_jiffies_def u)
qed

text \<open>
  C28: A start time that is not in the past and less than 64.001 seconds ahead is written at once. One
  that is further ahead is not written; the work is started with a delay of j jiffies, the rest of
  the distance to a multiple of 64 seconds, rounded up to a whole jiffy. When the work runs after
  this delay the start is still ahead, by at least 64 seconds less one jiffy (times are multiplied
  by the jiffies in a second): no retry comes too late.
\<close>

theorem future_start_in_time:
  assumes "0 \<le> fst (scheduler_ktime_get_ptp s)" "fst (scheduler_ktime_get_ptp s) \<le> asked_start sidx tidx s"
  defines "s' \<equiv> write_start_time_execute sidx tidx s" and "now \<equiv> fst (scheduler_ktime_get_ptp s)"
    and "ahead \<equiv> (asked_start sidx tidx s - fst (scheduler_ktime_get_ptp s)) div 1000000"
    and "hz \<equiv> int (k_hz (k_env s))"
  shows "(ahead \<le> 64000 \<longrightarrow> tbl_complete (table_of sidx tidx s') \<and>
      start_registers sidx tidx (ktime_to_timespec64 (asked_start sidx tidx s)) (k_io s')) \<and>
    (64000 < ahead \<longrightarrow> (\<exists>d j. s' = upd_table sidx tidx (\<lambda>t. t\<lparr>tbl_work := Some j\<rparr>) (s\<lparr>k_io := Read_ptp # k_io s\<rparr>) \<and>
      0 \<le> d \<and> d < 64000 \<and> 64000 dvd ahead - d \<and> d * hz \<le> 1000 * int j \<and> 1000 * int j < d * hz + 1000 \<and>
      hz * now + int j * 1000000000 + hz * 64000000000 < hz * asked_start sidx tidx s + 1000000000))"
proof -
  have top: "asked_start sidx tidx s < 2 ^ 63"
  proof -
    have "s64 x < 2 ^ 63" for x using sint_lt [of "word_of_int x :: 64 word"] by (simp add: s64_def)
    then show ?thesis by (simp add: asked_start_def timespec64_to_ktime_def)
  qed
  have e: "s' = write_start_time_at sidx tidx (asked_start sidx tidx s) now (s\<lparr>k_io := Read_ptp # k_io s\<rparr>)"
    using assms(2) by (simp add: s'_def now_def write_start_time_execute_def scheduler_ktime_get_ptp_def
        log_io_def asked_start_def Let_def)
  have dist: "0 \<le> asked_start sidx tidx s - now" "asked_start sidx tidx s - now < 2 ^ 63"
    using assms(1,2) top by (simp_all add: now_def)
  show ?thesis
  proof (intro conjI impI)
    assume "ahead \<le> 64000"
    then have "(asked_start sidx tidx s - now) div 1000000 \<le> 64000" by (simp add: ahead_def now_def)
    from write_start_time_at_now(2,3) [OF dist(1) this] show "tbl_complete (table_of sidx tidx s')"
      "start_registers sidx tidx (ktime_to_timespec64 (asked_start sidx tidx s)) (k_io s')"
      by (simp_all add: e)
  next
    assume l: "64000 < ahead"
    define d j where "d = ahead mod 64000" and "j = (nat d * k_hz (k_env s) + 999) div 1000"
    have d: "0 \<le> d" "d < 64000" "nat d = nat ahead mod 64000"
      using l by (simp_all add: d_def nat_mod_distrib)
    have "nat d < 64000" using d by simp
    then have s': "s' = upd_table sidx tidx (\<lambda>t. t\<lparr>tbl_work := Some j\<rparr>) (s\<lparr>k_io := Read_ptp # k_io s\<rparr>)"
      using l delay_jiffies [of "nat d" "k_env s"] future_msecs [OF dist]
      by (simp add: e write_start_time_at_def Let_def d(3) j_def ahead_def now_def zless_nat_eq_int_zless)
    have jn: "nat d * k_hz (k_env s) \<le> 1000 * j" "1000 * j < nat d * k_hz (k_env s) + 1000"
      unfolding j_def by linarith+
    have "int (nat d * k_hz (k_env s)) = d * hz" using d(1) by (simp add: hz_def)
    then have j: "d * hz \<le> 1000 * int j" "1000 * int j < d * hz + 1000" using jn by linarith+
    have "64000 dvd ahead - d" by (simp add: d_def minus_mod_eq_mult_div)
    moreover have "d + 64000 \<le> ahead"
    proof -
      have "d + 64000 * (ahead div 64000) = ahead" by (simp add: d_def mod_mult_div_eq)
      moreover have "1 \<le> ahead div 64000" using l by (simp add: zdiv_mono1 pos_imp_zdiv_pos_iff int_one_le_iff_zero_less)
      ultimately show ?thesis by linarith
    qed
    moreover have "hz * now + int j * 1000000000 + hz * 64000000000 < hz * asked_start sidx tidx s + 1000000000"
    proof -
      have "(d + 64000) * 1000000 \<le> asked_start sidx tidx s - now"
        using \<open>d + 64000 \<le> ahead\<close> div_mult_mod_eq [of "asked_start sidx tidx s - now" 1000000]
          pos_mod_sign [of 1000000 "asked_start sidx tidx s - now"] by (simp add: ahead_def now_def)
      then have "hz * ((d + 64000) * 1000000) \<le> hz * (asked_start sidx tidx s - now)"
        by (rule mult_left_mono) (simp add: hz_def)
      then have "hz * now + (d * hz) * 1000000 + hz * 64000000000 \<le> hz * asked_start sidx tidx s"
        by (simp add: algebra_simps)
      then show ?thesis using j(2) by linarith
    qed
    ultimately show "\<exists>d j. s' = upd_table sidx tidx (\<lambda>t. t\<lparr>tbl_work := Some j\<rparr>) (s\<lparr>k_io := Read_ptp # k_io s\<rparr>) \<and>
      0 \<le> d \<and> d < 64000 \<and> 64000 dvd ahead - d \<and> d * hz \<le> 1000 * int j \<and> 1000 * int j < d * hz + 1000 \<and>
      hz * now + int j * 1000000000 + hz * 64000000000 < hz * asked_start sidx tidx s + 1000000000"
      using s' d j by blast
  qed
qed

section \<open>Witnesses\<close>

lemma wait_ex: "k_env s = ex_kenv \<Longrightarrow> 0 < n \<Longrightarrow> fst (wait_table_row n s) = 0"
  by (cases n) (simp_all add: readw_def read_bitmask16_def ex_kenv_def)

lemma write_table_row_ex:
  assumes "k_env s = ex_kenv" "\<not> row_index_error mi ti i" "scheduler_write_table_row mi ti i row s = (r, s1)"
  shows "r = 0"
proof -
  have "fst (lock_intr s) = 0" using assms(1) by (simp add: lock_intr_def ex_kenv_def)
  with assms(2) have "r = fst (wait_table_row WAIT_TABLE_ROW_RETRY (writew (row_cmd0 mi ti True) R_Scheduler ROW_ACCESS_CMD0
      (writew (row_cmd1 i) R_Scheduler ROW_ACCESS_CMD1 (writew (snd row) R_Scheduler ROW_ACCESS_DATA4
      (writew (high_16bits (fst row)) R_Scheduler ROW_ACCESS_DATA1 (writew (low_16bits (fst row)) R_Scheduler ROW_ACCESS_DATA0
      (snd (lock_intr s))))))))"
    using arg_cong [OF assms(3), of fst]
    by (simp add: scheduler_write_table_row_def wait_table_row_transfer_def Let_def split: prod.splits)
  then show ?thesis
    using assms(1) by (simp add: wait_ex writew_def log_io_def lock_intr_def)
qed

lemma driver_run_friendly:
  assumes "k_env s = ex_kenv" "mi < 2" "ti < 2" "i + length rows \<le> 1024"
  shows "\<exists>rets s'. driver_run (rows_at mi ti i rows) s = Some (rets, s') \<and> (\<forall>r\<in>set rets. 0 \<le> r)"
  using assms(1,4)
proof (induction rows arbitrary: i s)
  case Nil
  then show ?case by simp
next
  case (Cons row rows)
  obtain r s1 where w: "scheduler_write_table_row mi ti i row s = (r, s1)" by fastforce
  have "\<not> row_index_error mi ti i" using assms(2,3) Cons.prems(2) by (simp add: row_index_error_def)
  then have "r = 0" using Cons.prems(1) w by (intro write_table_row_ex)
  moreover obtain rs s2 where "driver_run (rows_at mi ti (Suc i) rows) s1 = Some (rs, s2)" "\<forall>r\<in>set rs. 0 \<le> r"
    using Cons.IH [of s1 "Suc i"] Cons.prems row_mem_write_table_row(2) [OF w] by auto
  ultimately show ?case
    using Cons.prems(2) by (simp add: driver_row_write [OF assms(2,3)] w)
qed

theorem row_write_refines_memory_witness:
  "\<exists>ret s'. scheduler_write_table_row 1 0 5 (7, 8) ex_kacm = (ret, s') \<and> row_mem (k_io s') (1, 0, 5) = Some (7, 8)"
proof -
  obtain ret s' where w: "scheduler_write_table_row 1 0 5 (7, 8) ex_kacm = (ret, s')" by fastforce
  from row_write_refines_memory [OF w] w show ?thesis
    by (simp add: row_index_error_def lock_intr_def ex_kacm_def ex_kenv_def)
qed

theorem schedule_reaches_scheduler_witness:
  "\<exists>s' rets ks' rows. write_fsc_schedules_to_HW 0 1 ex_state = Some (8, s') \<and>
     driver_run (st_hw s') ex_kacm = Some (rets, ks') \<and> length (commands (hw_exec 0 rows)) = 2 \<and>
     (\<forall>k<length rows. row_mem (k_io ks') (0, 1, k) = Some (rows ! k))"
proof -
  obtain s' where r: "write_fsc_schedules_to_HW 0 1 ex_state = Some (8, s')" using ex_write by auto
  have m: "module_id ex_module < 2" "(1::nat) < 2" "length (fsc_list ex_module) = 2" by (simp_all add: ex_module_def)
  obtain rows where rows: "st_hw s' = rows_at 0 1 0 rows" "length rows \<le> 1024"
  proof (rule fsc_written_rows [OF r zero_le_numeral ex_schedule_parts(1) ex_fscs(1,2)])
    fix fscs
    assume f: "st_hw s' = st_hw ex_state @ rows_at (module_id ex_module) 1 0 (fsc_rows fscs)"
      "map abs_cycle fscs = map abs_cycle (fsc_list ex_module)"
    have "sorted_fscs fscs" "\<forall>c\<in>set fscs. unat (abs_cycle c) < 2 ^ 31" "\<not> too_many_events fscs"
      using times_only(1,3) [OF f(2)] times_only(2) [OF f(2), of "\<lambda>a. unat a < 2 ^ 31"] ex_fscs by simp_all
    then show thesis using that [of "fsc_rows fscs"] fsc_rows_fit [of fscs] f(1)
      by (simp add: ex_state_def ex_empty_def ex_module_def)
  qed
  obtain rets ks' where k: "driver_run (st_hw s') ex_kacm = Some (rets, ks')" "\<forall>r\<in>set rets. 0 \<le> r"
    using driver_run_friendly [of ex_kacm 0 1 0 rows] rows by (auto simp: ex_kacm_def)
  have d: "driver_run (drop (length (st_hw ex_state)) (st_hw s')) ex_kacm = Some (rets, ks')"
    using k(1) by (simp add: ex_state_def ex_empty_def)
  from schedule_reaches_scheduler [OF r zero_le_numeral ex_schedule_parts(1) ex_fscs(1-4) m(1,2) d k(2)]
  obtain fscs rows where "list_all2 (refreshed ex_state) (fsc_list ex_module) fscs"
    "commands (hw_exec 0 rows) = map (\<lambda>c. (unat (abs_cycle c), fsc_cmd c)) fscs"
    "row_mem (k_io ks') = (\<lambda>(mi, t, k). if mi = module_id ex_module \<and> t = 1 \<and> k < length rows then Some (rows ! k)
       else row_mem (k_io ex_kacm) (mi, t, k))" by blast
  moreover from this(1) m(3) have "length fscs = 2" by (simp add: list_all2_lengthD)
  ultimately show ?thesis using r k(1)
    by (intro exI [of _ s'] exI [of _ rets] exI [of _ ks'] exI [of _ rows]) (simp add: ex_module_def)
qed

lemma ex_plain16: "r \<noteq> R_Scheduler \<or> off \<noteq> ROW_ACCESS_CMD0 \<Longrightarrow> plain16 ex_kenv r off"
  by (auto simp: plain16_def ex_kenv_def)

theorem cycle_time_roundtrip_witness:
  "fst (scheduler_read_cycle_time 1 0 \<lparr>ct_subns = 0, ct_ns = 0\<rparr> (scheduler_write_cycle_time 1 0
     \<lparr>ct_subns = 5, ct_ns = 1000000\<rparr> ex_kacm)) = \<lparr>ct_subns = 5, ct_ns = 1000000\<rparr>"
proof -
  have "plain_cycle_time (k_env ex_kacm) 1 0"
    by (simp add: plain_cycle_time_def ex_kacm_def ex_plain16 SCHED_TABLE_def ACM_SCHEDULER_SCHED_def)
  moreover have "take_bit 24 (5 :: u32) = 5" "take_bit 30 (1000000 :: u32) = 1000000" by simp_all
  ultimately show ?thesis by (subst cycle_time_roundtrip) simp_all
qed

definition ex_cycle :: kacm where
  "ex_cycle = ex_kacm\<lparr>k_io := [W16 R_Scheduler (SCHED_TABLE 0 0 CYCLETIME_NS_LOW) 3000]\<rparr>"

lemma ex_cycle_times:
  "asked_start 0 0 ex_cycle = 0" "fst (scheduler_ktime_get_ptp ex_cycle) = 1000000000" "cycle_ns_at 0 0 ex_cycle = 3000"
  by (simp_all add: ex_cycle_def ex_kacm_def ex_kenv_def asked_start_def timespec64_to_ktime_def s64_id init_table_def
      scheduler_ktime_get_ptp_def cycle_ns_at_def read_cycle_time_def io_defs Let_def SCHED_TABLE_def ACM_SCHEDULER_SCHED_def)

theorem past_start_next_cycle_witness:
  "\<exists>first. 1000000000 < first \<and> first \<le> 1000003000 \<and> 3000 dvd first \<and>
     tbl_time (table_of 0 0 (write_start_time_execute 0 0 ex_cycle)) = ktime_to_timespec64 first"
  using past_start_next_cycle [of 0 0 ex_cycle] by (auto simp: ex_cycle_times)

definition ex_future :: kacm where
  "ex_future = upd_table 0 0 (\<lambda>t. t\<lparr>tbl_time := \<lparr>ts_sec = 100, ts_nsec = 0\<rparr>\<rparr>) ex_kacm"

lemma ex_future_times:
  "asked_start 0 0 ex_future = 100000000000" "fst (scheduler_ktime_get_ptp ex_future) = 1000000000"
  by (simp_all add: ex_future_def asked_start_def timespec64_to_ktime_def s64_id scheduler_ktime_get_ptp_def)
    (simp_all add: ex_kacm_def ex_kenv_def)

theorem future_start_in_time_witness:
  "\<exists>j. tbl_work (table_of 0 0 (write_start_time_execute 0 0 ex_future)) = Some j \<and> j = 8750"
proof -
  have hz: "k_hz (k_env ex_future) = 250" by (simp add: ex_future_def ex_kacm_def ex_kenv_def upd_table_def)
  obtain d j where w: "write_start_time_execute 0 0 ex_future =
        upd_table 0 0 (\<lambda>t. t\<lparr>tbl_work := Some j\<rparr>) (ex_future\<lparr>k_io := Read_ptp # k_io ex_future\<rparr>)"
      and d: "0 \<le> d" "d < 64000" "64000 dvd 99000 - d" "d * 250 \<le> 1000 * int j" "1000 * int j < d * 250 + 1000"
    using future_start_in_time [of ex_future 0 0] by (auto simp: ex_future_times hz)
  obtain k where "99000 - d = 64000 * k" using d(3) by (auto elim: dvdE)
  moreover from this have "k = 1" using d(1,2) by linarith
  ultimately have "d = 35000" by simp
  then have "j = 8750" using d(4,5) by linarith
  then show ?thesis by (simp add: w)
qed

end
