(* ===== verification/Acm_Drv_Frame.thy ===== *)
theory Acm_Drv_Frame
  imports Acm_Drv_Attrs
begin

text \<open>
  What an operation of the driver leaves alone: \<open>emits P s s'\<close> says that the environment is the same
  and that the accesses added to the history satisfy \<open>P\<close>. With \<open>P\<close> excluding the writes to a
  register, the value last written to it is preserved.
\<close>

definition emits :: "(io \<Rightarrow> bool) \<Rightarrow> kacm \<Rightarrow> kacm \<Rightarrow> bool" where
  "emits P s s' = (k_env s' = k_env s \<and> (\<exists>ev. k_io s' = ev @ k_io s \<and> (\<forall>e\<in>set ev. P e)))"

named_theorems emit_intros

lemma emits_refl [emit_intros]: "emits P s s"
  by (simp add: emits_def)

lemma emits_trans: "emits P s t \<Longrightarrow> emits P t u \<Longrightarrow> emits P s u"
  unfolding emits_def by (elim conjE exE) (auto intro!: exI)

lemma emits_env: "emits P s s' \<Longrightarrow> k_env s' = k_env s"
  by (simp add: emits_def)

lemma emits_mono: "emits P s s' \<Longrightarrow> (\<And>e. P e \<Longrightarrow> Q e) \<Longrightarrow> emits Q s s'"
  by (auto simp: emits_def)

lemma emits_log [emit_intros]: "P e \<Longrightarrow> emits P s (log_io e s)"
  by (auto simp: emits_def log_io_def)

lemma emits_same: "k_io s' = k_io s \<Longrightarrow> k_env s' = k_env s \<Longrightarrow> emits P s s'"
  by (simp add: emits_def)

lemma emits_fold:
  assumes "\<And>x s. x \<in> set xs \<Longrightarrow> emits P s (f x s)"
  shows "emits P s (fold f xs s)"
  using assms
proof (induction xs arbitrary: s)
  case Nil
  then show ?case by (simp add: emits_refl)
next
  case (Cons x xs)
  have "emits P s (f x s)" using Cons.prems by simp
  moreover have "emits P (f x s) (fold f xs (f x s))" using Cons by simp
  ultimately show ?case by (simp add: emits_trans)
qed

lemma emits_foreach_upd:
  assumes "\<And>x s s'. x \<in> set xs \<Longrightarrow> f x s = Some s' \<Longrightarrow> emits P s s'" "foreach_upd f xs s = Some s'"
  shows "emits P s s'"
  using assms
proof (induction xs arbitrary: s)
  case Nil
  then show ?case by (simp add: emits_refl)
next
  case (Cons x xs)
  from Cons.prems(2) obtain t where t: "f x s = Some t" "foreach_upd f xs t = Some s'"
    by (auto simp: bind_eq_Some_conv)
  have "emits P s t" by (rule Cons.prems(1) [OF _ t(1)]) simp
  moreover have "emits P t s'" by (rule Cons.IH [OF Cons.prems(1) t(2)]) auto
  ultimately show ?case by (rule emits_trans)
qed

lemma emits_last16:
  assumes "emits (\<lambda>e. \<forall>v. e \<noteq> W16 r off v) s s'"
  shows "last16 (k_io s') r off = last16 (k_io s) r off"
proof -
  obtain ev where "k_io s' = ev @ k_io s" "\<forall>e\<in>set ev. \<forall>v. e \<noteq> W16 r off v"
    using assms by (auto simp: emits_def)
  moreover from this(2) have "last16 (ev @ h) r off = last16 h r off" for h
    by (induction ev) (auto split: io.splits)
  ultimately show ?thesis by simp
qed

lemma emits_last32:
  assumes "emits (\<lambda>e. \<forall>v. e \<noteq> W32 r off v) s s'"
  shows "last32 (k_io s') r off = last32 (k_io s) r off"
proof -
  obtain ev where "k_io s' = ev @ k_io s" "\<forall>e\<in>set ev. \<forall>v. e \<noteq> W32 r off v"
    using assms by (auto simp: emits_def)
  moreover from this(2) have "last32 (ev @ h) r off = last32 h r off" for h
    by (induction ev) (auto split: io.splits)
  ultimately show ?thesis by simp
qed

section \<open>Accesses\<close>

lemma emits_readw [emit_intros]: "P (R16 r off) \<Longrightarrow> emits P s (snd (readw r off s))"
  by (simp add: readw_def emits_log)

lemma emits_readl [emit_intros]: "P (R32 r off) \<Longrightarrow> emits P s (snd (readl r off s))"
  by (simp add: readl_def emits_log)

lemma emits_writew [emit_intros]: "P (W16 r off v) \<Longrightarrow> emits P s (writew v r off s)"
  by (simp add: writew_def emits_log)

lemma emits_writel [emit_intros]: "P (W32 r off v) \<Longrightarrow> emits P s (writel v r off s)"
  by (simp add: writel_def emits_log)

lemma emits_lock [emit_intros]: "P Lock_intr \<Longrightarrow> emits P s (snd (lock_intr s))"
  by (simp add: lock_intr_def emits_log)

end
