(* ===== verification/Acm_Status.thy ===== *)
theory Acm_Status
  imports Acm_Apply Acm_Text
begin

text \<open>
  Status items, diagnostics and versions (\<^verbatim>\<open>status.c\<close>) and the functions of the interface that
  forward to them (\<^verbatim>\<open>libacmconfig.c\<close>). A status item is given by the number of its enumerator.
\<close>

section \<open>Strings on the heap\<close>

text \<open>\<^verbatim>\<open>asprintf\<close> and \<^verbatim>\<open>strdup\<close>: the string, or no memory.\<close>

definition c_asprintf :: "string \<Rightarrow> acm_state \<Rightarrow> string option \<times> acm_state" where
  "c_asprintf str s = (let (p, s) = acm_zalloc s in (if p = None then None else Some str, s))"

section \<open>Status items\<close>

definition ERROR_GROUP :: string where "ERROR_GROUP = ''error''"
definition DIAG_GROUP :: string where "DIAG_GROUP = ''diag''"

definition STATUS_ITEM_NUM :: nat where [simp]: "STATUS_ITEM_NUM = 15"

definition status_subpath :: "(string \<times> string) list" where
  "status_subpath =
     [(ERROR_GROUP, ''halt_on_error''), (ERROR_GROUP, ''error_flags''), (ERROR_GROUP, ''policing_flags''),
      (STATUS_GROUP, ''runt_frames''), (STATUS_GROUP, ''mii_errors''), (STATUS_GROUP, ''gmii_error_prev_cycle''),
      (STATUS_GROUP, ''sof_errors''), (STATUS_GROUP, ''layer7_missmatch_cnt''),
      (STATUS_GROUP, ''drop_frames_cnt_prev''), (STATUS_GROUP, ''scatter_DMA_frames_cnt_prev''),
      (STATUS_GROUP, ''disable_overrun_prev''), (STATUS_GROUP, ''tx_frame_cycle_change''),
      (STATUS_GROUP, ''tx_frames_prev''), (STATUS_GROUP, ''rx_frames_cycle_change''),
      (STATUS_GROUP, ''rx_frames_prev'')]"

text \<open>The name of a file of a module: \<^verbatim>\<open><group>/<name>_M<module>\<close>.\<close>

definition module_file :: "string \<Rightarrow> string \<Rightarrow> nat \<Rightarrow> string" where
  "module_file grp name module = ACMDEV_BASE @ grp @ ''/'' @ name @ ''_M'' @ print_dec module"

definition status_item_path :: "nat \<Rightarrow> nat \<Rightarrow> string" where
  "status_item_path module item = module_file (fst (status_subpath ! item)) (snd (status_subpath ! item)) module"

definition status_read_item :: "nat \<Rightarrow> nat \<Rightarrow> acm_state \<Rightarrow> int \<times> acm_state" where
  "status_read_item module item s =
     (if ACM_MODULES_COUNT \<le> module then (- EINVAL, s)
      else if STATUS_ITEM_NUM \<le> item then (- EINVAL, s)
      else case c_asprintf (status_item_path module item) s of
          (None, s) \<Rightarrow> (- ENOMEM, s)
        | (Some filename, s) \<Rightarrow> (read_uint64_sysfs_item filename s, s))"

section \<open>Diagnostics\<close>

record acm_diagnostic =
  dia_tv_sec :: int
  dia_tv_nsec :: int
  scheduleCycleCounter :: u32
  txFramesCounter :: u32
  rxFramesCounter :: u32
  ingressWindowClosedFlags :: u32
  ingressWindowClosedCounter :: "u32 list"
  noFrameReceivedFlags :: u32
  noFrameReceivedCounter :: "u32 list"
  recoveryFlags :: u32
  recoveryCounter :: "u32 list"
  additionalFilterMismatchFlags :: u32
  additionalFilterMismatchCounter :: "u32 list"

text \<open>
  The packed structure of the driver as bytes: 12 bytes of time, then words; a counter array has
  one word per lookup rule.
\<close>

definition DIAG_SIZE :: nat where [simp]: "DIAG_SIZE = 296"

definition diag_word :: "u8 list \<Rightarrow> nat \<Rightarrow> u32" where
  "diag_word bs off = get_u32 (drop off bs)"

definition diag_words :: "u8 list \<Rightarrow> nat \<Rightarrow> u32 list" where
  "diag_words bs off = map (\<lambda>i. diag_word bs (off + 4 * i)) [0..<ACM_MAX_LOOKUP_SIZE]"

definition convert_diag2unpacked :: "u8 list \<Rightarrow> acm_diagnostic" where
  "convert_diag2unpacked bs =
     \<lparr>dia_tv_sec = sint (word_of_nat (le_val (take 8 bs)) :: u64), dia_tv_nsec = sint (diag_word bs 8),
      scheduleCycleCounter = diag_word bs 12, txFramesCounter = diag_word bs 16, rxFramesCounter = diag_word bs 20,
      ingressWindowClosedFlags = diag_word bs 24, ingressWindowClosedCounter = diag_words bs 28,
      noFrameReceivedFlags = diag_word bs 92, noFrameReceivedCounter = diag_words bs 96,
      recoveryFlags = diag_word bs 160, recoveryCounter = diag_words bs 164,
      additionalFilterMismatchFlags = diag_word bs 228, additionalFilterMismatchCounter = diag_words bs 232\<rparr>"

text \<open>
  \<open>None\<close>: fewer bytes than the structure has were read, and uninitialised memory is converted. The
  diagnostic data is an option because NULL is returned when it could not be read.
\<close>

definition status_read_diagnostics :: "nat \<Rightarrow> acm_state \<Rightarrow> (acm_diagnostic option \<times> acm_state) option" where
  "status_read_diagnostics module s =
     (case c_asprintf (module_file DIAG_GROUP ''diagnostics'' module) s of
        (None, s) \<Rightarrow> Some (None, s)
      | (Some filename, s) \<Rightarrow>
          (case read_buffer_sysfs_item filename DIAG_SIZE 0 s of
             Inl ret \<Rightarrow> Some (None, s)
           | Inr bs \<Rightarrow>
               let (p, s) = acm_zalloc s in
               if p = None then Some (None, s)
               else if length bs < DIAG_SIZE then None
               else Some (Some (convert_diag2unpacked bs), s)))"

text \<open>Truncating a file that cannot be opened closes the null pointer, which is \<open>None\<close>.\<close>

definition sysfs_delete_file_content :: "string \<Rightarrow> acm_state \<Rightarrow> acm_state option" where
  "sysfs_delete_file_content path_name s = (if env_open (st_env s) path_name < 0 then None else Some s)"

text \<open>The value is written with its terminating NUL.\<close>

definition status_set_diagnostics_poll_time :: "nat \<Rightarrow> u16 \<Rightarrow> acm_state \<Rightarrow> (int \<times> acm_state) option" where
  "status_set_diagnostics_poll_time module interval_ms s =
     (case c_asprintf (module_file DIAG_GROUP ''diag_poll_time'' module) s of
        (None, s) \<Rightarrow> Some (- ENOMEM, s)
      | (Some filename, s) \<Rightarrow>
          (case c_asprintf (print_dec (unat interval_ms)) s of
             (None, s) \<Rightarrow> Some (- ENOMEM, s)
           | (Some val, s) \<Rightarrow> do {
               s \<leftarrow> sysfs_delete_file_content filename s;
               Some (write_file_sysfs filename (D_text (val @ [CHR 0x00])) (length val + 1) 0 s) }))"

section \<open>Versions\<close>

text \<open>
  The text up to the end of the line; the buffer is filled with zeros. \<open>None\<close> when it has neither a
  NUL nor the end of a line and the search leaves it.
\<close>

definition get_string_status_value :: "string \<Rightarrow> acm_state \<Rightarrow> (string option \<times> acm_state) option" where
  "get_string_status_value filename s =
     (case sysfs_construct_path_name SYSFS_PATH_LENGTH STATUS_GROUP filename of
        Inl ret \<Rightarrow> Some (None, s)
      | Inr path_name \<Rightarrow>
          (case read_buffer_sysfs_item path_name SYSFS_PATH_LENGTH 0 s of
             Inl ret \<Rightarrow> Some (None, s)
           | Inr bs \<Rightarrow>
               let buffer = bs @ replicate (SYSFS_PATH_LENGTH - length bs) 0; at_end = (\<lambda>b. b = 0 \<or> b = 10 \<or> b = 13) in
               if \<not> list_ex at_end buffer then None
               else Some (c_asprintf (map (\<lambda>b. char_of (unat b)) (takeWhile (\<lambda>b. \<not> at_end b) buffer)) s)))"

definition status_get_ip_version :: "acm_state \<Rightarrow> (string option \<times> acm_state) option" where
  "status_get_ip_version s = do {
     (device_id, s) \<leftarrow> get_string_status_value ''device_id'' s;
     case device_id of
       None \<Rightarrow> Some (None, s)
     | Some device_id \<Rightarrow> do {
         (version_id, s) \<leftarrow> get_string_status_value ''version_id'' s;
         case version_id of
           None \<Rightarrow> Some (None, s)
         | Some version_id \<Rightarrow> do {
             (revision_id, s) \<leftarrow> get_string_status_value ''revision_id'' s;
             case revision_id of
               None \<Rightarrow> Some (None, s)
             | Some revision_id \<Rightarrow> Some (c_asprintf (device_id @ ''-'' @ version_id @ ''-'' @ revision_id) s) } } }"

section \<open>Library interface\<close>

definition acm_read_status_item :: "nat \<Rightarrow> nat \<Rightarrow> acm_state \<Rightarrow> int \<times> acm_state" where
  "acm_read_status_item module status_id s = status_read_item module status_id s"

definition acm_read_diagnostics :: "nat \<Rightarrow> acm_state \<Rightarrow> (acm_diagnostic option \<times> acm_state) option" where
  "acm_read_diagnostics module s = status_read_diagnostics module s"

definition acm_set_diagnostics_poll_time :: "nat \<Rightarrow> u16 \<Rightarrow> acm_state \<Rightarrow> (int \<times> acm_state) option" where
  "acm_set_diagnostics_poll_time module interval_ms s = status_set_diagnostics_poll_time module interval_ms s"

definition acm_read_ip_version :: "acm_state \<Rightarrow> (string option \<times> acm_state) option" where
  "acm_read_ip_version s = status_get_ip_version s"

text \<open>The version is a string of the build.\<close>

definition acm_read_lib_version :: "string \<Rightarrow> string" where
  "acm_read_lib_version git_version_str = git_version_str"

end
