(* ===== verification/Acm_Drv_Status.thy ===== *)
theory Acm_Drv_Status
  imports Acm_Status Acm_Drv_Attrs
begin

text \<open>
  The files of the status and error sections (\<^verbatim>\<open>sysfs_status.c\<close>, \<^verbatim>\<open>sysfs_error.c\<close>): which attributes
  exist for an interface variant and what reading them returns. \<open>driver_text\<close> is the text of a
  path, as the library sees it.
\<close>

section \<open>Attributes of the bypass modules\<close>

definition ACM_STATUS_ATTR_RO :: "string \<Rightarrow> nat \<Rightarrow> u32 \<Rightarrow> acm_ip_if_variant \<Rightarrow> acm_ip_if_variant \<Rightarrow> bool \<Rightarrow> status_attribute" where
  "ACM_STATUS_ATTR_RO name off m mn mx dbg = \<lparr>st_name = name, st_offset = off, st_bitmask = m,
     st_part = False, st_min = mn, st_max = mx, st_debug_only = dbg\<rparr>"

definition ACM_PART_STATUS_ATTR_RO :: "string \<Rightarrow> nat \<Rightarrow> u32 \<Rightarrow> acm_ip_if_variant \<Rightarrow> acm_ip_if_variant \<Rightarrow> bool \<Rightarrow> status_attribute" where
  "ACM_PART_STATUS_ATTR_RO name off m mn mx dbg = \<lparr>st_name = name, st_offset = off, st_bitmask = m,
     st_part = True, st_min = mn, st_max = mx, st_debug_only = dbg\<rparr>"

text \<open>The attributes for all IPs, and those for debugging.\<close>

definition status_attributes_common :: "status_attribute list" where
  "status_attributes_common =
     [ACM_STATUS_ATTR_RO ''ifc_version'' 0x0 (GENMASK 31 0) ACM_IF_DONT_CARE ACM_IF_1_0 False,
      ACM_STATUS_ATTR_RO ''config_version'' 0x4 (GENMASK 31 0) ACM_IF_DONT_CARE ACM_IF_1_0 False,
      ACM_PART_STATUS_ATTR_RO ''runt_frames'' FRAME_ERRORS (GENMASK 31 24) ACM_IF_DONT_CARE ACM_IF_DONT_CARE False,
      ACM_PART_STATUS_ATTR_RO ''mii_errors'' FRAME_ERRORS (GENMASK 7 0) ACM_IF_DONT_CARE ACM_IF_DONT_CARE False,
      ACM_PART_STATUS_ATTR_RO ''sof_errors'' FRAME_ERRORS (GENMASK 23 16) ACM_IF_3_0 ACM_IF_DONT_CARE False,
      ACM_STATUS_ATTR_RO ''layer7_missmatch_cnt'' 0x308 (GENMASK 7 0) ACM_IF_DONT_CARE ACM_IF_DONT_CARE False,
      ACM_STATUS_ATTR_RO ''rx_frames_prev'' 0x400 (GENMASK 15 0) ACM_IF_3_0 ACM_IF_DONT_CARE False,
      ACM_STATUS_ATTR_RO ''rx_frames_cycle_change'' 0x404 (GENMASK 15 0) ACM_IF_3_0 ACM_IF_DONT_CARE False,
      ACM_STATUS_ATTR_RO ''drop_frames_cnt_prev'' 0x448 (GENMASK 7 0) ACM_IF_DONT_CARE ACM_IF_DONT_CARE False,
      ACM_STATUS_ATTR_RO ''scatter_DMA_frames_cnt_prev'' 0x500 (GENMASK 15 0) ACM_IF_DONT_CARE ACM_IF_DONT_CARE False,
      ACM_STATUS_ATTR_RO ''tx_frames_prev'' 0x804 (GENMASK 15 0) ACM_IF_DONT_CARE ACM_IF_DONT_CARE False,
      ACM_STATUS_ATTR_RO ''gmii_errors_set_prev'' 0x808 (GENMASK 7 0) ACM_IF_DONT_CARE ACM_IF_2_0 False,
      ACM_STATUS_ATTR_RO ''gmii_error_prev_cycle'' 0x808 (GENMASK 7 0) ACM_IF_3_0 ACM_IF_DONT_CARE False,
      ACM_STATUS_ATTR_RO ''disable_overrun_prev'' 0x810 (GENMASK 7 0) ACM_IF_DONT_CARE ACM_IF_DONT_CARE False,
      ACM_STATUS_ATTR_RO ''tx_frame_cycle_change'' 0x824 (GENMASK 15 0) ACM_IF_DONT_CARE ACM_IF_DONT_CARE False]"

definition status_attributes_debug :: "status_attribute list" where
  "status_attributes_debug =
     [ACM_STATUS_ATTR_RO ''rx_bytes'' 0x100 (GENMASK 15 0) ACM_IF_2_0 ACM_IF_DONT_CARE True,
      ACM_STATUS_ATTR_RO ''rx_frames'' 0x104 (GENMASK 15 0) ACM_IF_2_0 ACM_IF_DONT_CARE True,
      ACM_STATUS_ATTR_RO ''fcs_errors'' 0x108 (GENMASK 7 0) ACM_IF_2_0 ACM_IF_DONT_CARE True,
      ACM_STATUS_ATTR_RO ''size_errors'' 0x10C (GENMASK 7 0) ACM_IF_2_0 ACM_IF_DONT_CARE True,
      ACM_STATUS_ATTR_RO ''lookup_match_vec'' 0x200 (GENMASK 16 0) ACM_IF_2_0 ACM_IF_DONT_CARE True,
      ACM_STATUS_ATTR_RO ''layer7_match_vec'' 0x204 (GENMASK 15 0) ACM_IF_2_0 ACM_IF_DONT_CARE True,
      ACM_STATUS_ATTR_RO ''last_stream_trigger'' 0x300 (GENMASK 31 0) ACM_IF_2_0 ACM_IF_DONT_CARE True,
      ACM_STATUS_ATTR_RO ''ingress_win_stat'' 0x444 (GENMASK 15 0) ACM_IF_2_0 ACM_IF_DONT_CARE True,
      ACM_STATUS_ATTR_RO ''sched_trig_cnt_prev_cyc'' 0x460 (GENMASK 15 0) ACM_IF_2_0 ACM_IF_DONT_CARE True,
      ACM_STATUS_ATTR_RO ''sched_1st_cond_trig_cnt_prev_cyc'' 0x464 (GENMASK 15 0) ACM_IF_2_0 ACM_IF_DONT_CARE True,
      ACM_STATUS_ATTR_RO ''pending_req_max_num'' 0x480 (GENMASK 2 0) ACM_IF_2_0 ACM_IF_DONT_CARE True,
      ACM_STATUS_ATTR_RO ''scatter_DMA_frames_cnt_curr'' 0x500 (GENMASK 31 16) ACM_IF_2_0 ACM_IF_DONT_CARE True,
      ACM_STATUS_ATTR_RO ''scatter_DMA_bytes_cnt_prev'' 0x504 (GENMASK 23 0) ACM_IF_2_0 ACM_IF_DONT_CARE True,
      ACM_STATUS_ATTR_RO ''scatter_DMA_bytes_cnt_curr'' 0x504 (GENMASK 31 24) ACM_IF_2_0 ACM_IF_DONT_CARE True,
      ACM_STATUS_ATTR_RO ''tx_bytes_prev'' 0x800 (GENMASK 23 0) ACM_IF_2_0 ACM_IF_DONT_CARE True,
      ACM_STATUS_ATTR_RO ''tx_bytes_curr'' 0x800 (GENMASK 31 24) ACM_IF_2_0 ACM_IF_DONT_CARE True,
      ACM_STATUS_ATTR_RO ''rx_frames_curr'' 0x400 (GENMASK 31 16) ACM_IF_3_0 ACM_IF_DONT_CARE True]"

text \<open>The two attributes of 64 bits, with their offset; visible for debugging only.\<close>

definition status64_attributes :: "(string \<times> nat) list" where
  "status64_attributes = [(''tx_frames_cyc_1st_change'', 0x840), (''tx_frames_cyc_last_change'', 0x848)]"

section \<open>Attributes of the device\<close>

definition device_id_show :: "kacm \<Rightarrow> string \<times> kacm" where
  "device_id_show s = (''0x'' @ print_HEX (unat (commreg_read_device_id s)) @ [newline], s)"

definition version_id_show :: "kacm \<Rightarrow> string \<times> kacm" where
  "version_id_show s = (commreg_read_version s @ [newline], s)"

definition revision_id_show :: "kacm \<Rightarrow> string \<times> kacm" where
  "revision_id_show s = (commreg_read_revision s @ [newline], s)"

definition show_dec :: "nat \<Rightarrow> kacm \<Rightarrow> string \<times> kacm" where
  "show_dec v s = (print_dec v @ [newline], s)"

definition extended_status_show :: "kacm \<Rightarrow> string \<times> kacm" where
  "extended_status_show s = show_dec (of_bool (commreg_read_extended_status s)) s"

definition testmodule_enable_show :: "kacm \<Rightarrow> string \<times> kacm" where
  "testmodule_enable_show s = show_dec (of_bool (commreg_read_testmodule_enable s)) s"

definition cfg_read_back_show :: "kacm \<Rightarrow> string \<times> kacm" where
  "cfg_read_back_show s = show_dec (of_bool (commreg_read_cfg_read_back s)) s"

definition individual_recovery_show :: "kacm \<Rightarrow> string \<times> kacm" where
  "individual_recovery_show s = show_dec (of_bool (commreg_read_individual_recovery s)) s"

definition rx_redundancy_show :: "kacm \<Rightarrow> string \<times> kacm" where
  "rx_redundancy_show s = show_dec (of_bool (commreg_read_rx_redundancy s)) s"

definition time_freq_show :: "kacm \<Rightarrow> string \<times> kacm" where
  "time_freq_show s = show_dec (unat (commreg_read_time_freq s)) s"

definition msgbuf_memsize_show :: "kacm \<Rightarrow> string \<times> kacm" where
  "msgbuf_memsize_show s = show_dec (unat (commreg_read_msgbuf_memsize s)) s"

definition msgbuf_count_show :: "kacm \<Rightarrow> string \<times> kacm" where
  "msgbuf_count_show s = show_dec (commreg_read_msgbuf_count s) s"

definition msgbuf_datawidth_show :: "kacm \<Rightarrow> string \<times> kacm" where
  "msgbuf_datawidth_show s = show_dec (unat (commreg_read_msgbuf_datawidth s)) s"

definition redund_frames_produced_show :: "nat \<Rightarrow> kacm \<Rightarrow> string \<times> kacm" where
  "redund_frames_produced_show b s =
     (let (v, s) = redundancy_get_redund_frames_produced b s in show_dec (unat v) s)"

text \<open>Name, show function, minimal interface variant.\<close>

definition device_attributes :: "(string \<times> (kacm \<Rightarrow> string \<times> kacm) \<times> acm_ip_if_variant) list" where
  "device_attributes =
     [(''device_id'', device_id_show, ACM_IF_2_0), (''version_id'', version_id_show, ACM_IF_2_0),
      (''revision_id'', revision_id_show, ACM_IF_2_0), (''extended_status'', extended_status_show, ACM_IF_2_0),
      (''testmodule_enable'', testmodule_enable_show, ACM_IF_2_0), (''cfg_read_back'', cfg_read_back_show, ACM_IF_4_0),
      (''individual_recovery'', individual_recovery_show, ACM_IF_4_0), (''rx_redundancy'', rx_redundancy_show, ACM_IF_4_0),
      (''time_freq'', time_freq_show, ACM_IF_2_0), (''msgbuf_memsize'', msgbuf_memsize_show, ACM_IF_2_0),
      (''msgbuf_count'', msgbuf_count_show, ACM_IF_4_0), (''msgbuf_datawidth'', msgbuf_datawidth_show, ACM_IF_4_0),
      (''redund_frames_produced_M0'', redund_frames_produced_show 0, ACM_IF_4_0),
      (''redund_frames_produced_M1'', redund_frames_produced_show 1, ACM_IF_4_0)]"

section \<open>The error section\<close>

text \<open>Name, offset and mask; the mask of the error flags depends on the interface variant.\<close>

definition error_attributes :: "kacm \<Rightarrow> (string \<times> nat \<times> u64) list" where
  "error_attributes s = [(''halt_on_error'', 0x84, 1), (''halt_on_other_bypass'', 0x84, 0x10000),
     (''error_flags'', 0x90, error_flags_mask s), (''policing_flags'', 0xA0, 7)]"

section \<open>Files\<close>

type_synonym shown_file = "string \<times> (kacm \<Rightarrow> string \<times> kacm)"

definition module_files :: "string \<Rightarrow> string \<Rightarrow> (nat \<Rightarrow> kacm \<Rightarrow> string \<times> kacm) \<Rightarrow> shown_file list" where
  "module_files grp name show = map (\<lambda>b. (module_file grp name b, show b)) [0, 1]"

definition visible_files :: "bool \<Rightarrow> acm_ip_if_variant \<Rightarrow> acm_ip_if_variant \<Rightarrow> shown_file list \<Rightarrow> kacm \<Rightarrow> shown_file list" where
  "visible_files dbg mn mx files s = (if acm_status_is_visible dbg mn mx s then files else [])"

definition status_files :: "kacm \<Rightarrow> shown_file list" where
  "status_files s =
     concat (map (\<lambda>a. visible_files (st_debug_only a) (st_min a) (st_max a)
       (module_files STATUS_GROUP (st_name a) (acm_status_show a)) s) (status_attributes_common @ status_attributes_debug)) @
     concat (map (\<lambda>(name, off). visible_files True ACM_IF_2_0 ACM_IF_DONT_CARE
       (module_files STATUS_GROUP name (acm_status64_show off (mask 64))) s) status64_attributes) @
     concat (map (\<lambda>(name, show, mn). visible_files False mn ACM_IF_DONT_CARE
       [(ACMDEV_BASE @ STATUS_GROUP @ ''/'' @ name, show)] s) device_attributes)"

definition error_files :: "kacm \<Rightarrow> shown_file list" where
  "error_files s = concat (map (\<lambda>(name, off, m). module_files ERROR_GROUP name (sysfs_error_attr_show off m)) (error_attributes s))"

definition driver_text :: "kacm \<Rightarrow> string \<Rightarrow> string option" where
  "driver_text s path = map_option (\<lambda>show. fst (show s)) (map_of (error_files s @ status_files s) path)"

end
