(* ===== verification/Acm_Drv_Status_Theorems.thy ===== *)
theory Acm_Drv_Status_Theorems
  imports Acm_Drv_Status Acm_Drv_Examples Acm_Examples
begin

text \<open>
  The status values of the driver as the library reads them: the value of a status item is the
  field of the register, and a capability is the one of the common registers.
\<close>

section \<open>Looking up files\<close>

lemma print_dec_digit: "n < 10 \<Longrightarrow> print_dec n = [digit_char n]"
  by (simp add: print_dec_def print_digits.simps)

lemma module_file_eq:
  assumes "b < 2" "b' < 2"
  shows "module_file grp name b = module_file grp' name' b' \<longleftrightarrow> grp @ ''/'' @ name = grp' @ ''/'' @ name' \<and> b = b'"
proof -
  have "digit_char b = digit_char b' \<longleftrightarrow> b = b'"
    using assms by (auto simp: digit_char_def dest: arg_cong [where f = "of_char :: char \<Rightarrow> nat"])
  moreover have "(ACMDEV_BASE @ grp @ ''/'' @ name @ ''_M'' @ [digit_char b] = ACMDEV_BASE @ grp' @ ''/'' @ name' @ ''_M'' @ [digit_char b']) =
      ((grp @ ''/'' @ name) @ ''_M'' @ [digit_char b] = (grp' @ ''/'' @ name') @ ''_M'' @ [digit_char b'])"
    by simp
  ultimately show ?thesis
    using assms by (simp only: module_file_def print_dec_digit append_eq_append_conv) (subst append_eq_append_conv; simp add: print_dec_digit)
qed

lemma module_file_last: "last (module_file grp name b) = last (print_dec b)"
  by (simp add: module_file_def print_dec_def)

lemma map_of_module_files:
  "b < 2 \<Longrightarrow> map_of (module_files grp name show) (module_file grp' name' b) =
     (if grp @ ''/'' @ name = grp' @ ''/'' @ name' then Some (show b) else None)"
  by (auto simp: module_files_def module_file_eq less_2_cases_iff)

lemma map_of_visible:
  "map_of (visible_files dbg mn mx files s @ rest) p =
     (case if acm_status_is_visible dbg mn mx s then map_of files p else None of
        None \<Rightarrow> map_of rest p | Some f \<Rightarrow> Some f)"
  by (simp add: visible_files_def map_add_def split: option.splits)

abbreviation status_visible :: "kacm \<Rightarrow> status_attribute \<Rightarrow> bool" where
  "status_visible s a \<equiv> acm_status_is_visible (st_debug_only a) (st_min a) (st_max a) s"

lemma map_of_status:
  assumes "b < 2"
  shows "map_of (concat (map (\<lambda>a. visible_files (st_debug_only a) (st_min a) (st_max a)
      (module_files STATUS_GROUP (st_name a) (acm_status_show a)) s) as) @ rest) (module_file STATUS_GROUP n b) =
    (case find (\<lambda>a. status_visible s a \<and> st_name a = n) as of
       None \<Rightarrow> map_of rest (module_file STATUS_GROUP n b) | Some a \<Rightarrow> Some (acm_status_show a b))"
  by (induction as) (simp_all only: concat.simps list.map append_assoc append_Nil map_of_visible map_of_module_files [OF assms],
    auto split: option.splits)

lemma map_of_errors:
  assumes "b < 2"
  shows "map_of (concat (map (\<lambda>(name, off, m). module_files ERROR_GROUP name (sysfs_error_attr_show off m)) es) @ rest)
      (module_file ERROR_GROUP n b) =
    (case map_of es n of None \<Rightarrow> map_of rest (module_file ERROR_GROUP n b) | Some (off, m) \<Rightarrow> Some (sysfs_error_attr_show off m b))"
  by (induction es) (auto simp: map_add_def map_of_module_files [OF assms] split: option.splits)

lemma map_of_errors_status:
  assumes "b < 2"
  shows "map_of (concat (map (\<lambda>(name, off, m). module_files ERROR_GROUP name (sysfs_error_attr_show off m)) es) @ rest)
      (module_file STATUS_GROUP n b) = map_of rest (module_file STATUS_GROUP n b)"
  by (induction es) (auto simp: map_add_def map_of_module_files [OF assms] STATUS_GROUP_def ERROR_GROUP_def)

lemma driver_text_status:
  assumes "b < 2" "find (\<lambda>a. status_visible s a \<and> st_name a = n) (status_attributes_common @ status_attributes_debug) = Some a"
  shows "driver_text s (module_file STATUS_GROUP n b) = Some (fst (acm_status_show a b s))"
  unfolding driver_text_def error_files_def map_of_errors_status [OF assms(1)] status_files_def map_of_status [OF assms(1)]
    assms(2) by simp

lemma driver_text_error:
  assumes "b < 2" "map_of (error_attributes s) n = Some (off, m)"
  shows "driver_text s (module_file ERROR_GROUP n b) = Some (fst (sysfs_error_attr_show off m b s))"
  unfolding driver_text_def error_files_def map_of_errors [OF assms(1)] assms(2) by simp

section \<open>Fields\<close>

lemma ffs_unique: "bit m i \<Longrightarrow> (\<And>j. j < i \<Longrightarrow> \<not> bit m j) \<Longrightarrow> ffs_kernel m = i"
  using ffs_kernel_bits [of m] by (metis bit_0_eq bot_apply bot_bool_def linorder_cases)

lemma read_bitmask_field:
  assumes "l \<le> h" "h < 32"
  shows "unat (read_bitmask v (GENMASK h l)) = unat v div 2 ^ l mod 2 ^ (h + 1 - l)"
proof -
  have f: "ffs_kernel (GENMASK h l) = l"
    using assms by (intro ffs_unique) (auto simp: bit_GENMASK)
  have nz: "GENMASK h l \<noteq> 0"
    using assms bit_GENMASK [of h l l] by auto
  have "read_bitmask v (GENMASK h l) = take_bit (h + 1 - l) (drop_bit l v)"
    unfolding read_bitmask_def using nz f assms(2)
    by (simp only: if_False) (rule bit_word_eqI, auto simp: bit_simps bit_GENMASK)
  then have "unat (read_bitmask v (GENMASK h l)) = take_bit (h + 1 - l) (drop_bit l (unat v))"
    using unsigned_less [of v, where ?'a = nat]
    by (simp only: unsigned_take_bit_eq unsigned_drop_bit_eq) (simp add: take_bit_nat_eq_self)
  then show ?thesis
    by (simp only: take_bit_eq_mod drop_bit_eq_div)
qed

lemma unat_two_words: "unat (push_bit 32 (ucast (hi :: u32)) + ucast (lo :: u32) :: u64) = unat lo + 2 ^ 32 * unat hi"
proof -
  have "push_bit 32 (ucast hi) + ucast lo = (word_of_nat (unat lo + 2 ^ 32 * unat hi) :: u64)"
    by (simp add: push_bit_eq_mult unsigned_of_nat of_nat_mult)
  moreover have "unat lo + 2 ^ 32 * unat hi < 2 ^ 64"
    using unsigned_less [of lo, where ?'a = nat] unsigned_less [of hi, where ?'a = nat] by simp
  then have "unat (word_of_nat (unat lo + 2 ^ 32 * unat hi) :: u64) = unat lo + 2 ^ 32 * unat hi"
    by (simp only: unat_of_nat) simp
  ultimately show ?thesis by (simp only:)
qed

lemma read_bitmask64_low:
  assumes "0 < n" "n < 64" shows "unat (read_bitmask64 v (mask n)) = unat v mod 2 ^ n"
proof -
  have f: "ffs_kernel (mask n :: u64) = 0" using assms by (intro ffs_unique) (auto simp: bit_simps)
  have nz: "mask n \<noteq> (0 :: u64)" using assms by (simp add: bit_eq_iff bit_simps) (intro exI [of _ 0], simp)
  have "read_bitmask64 v (mask n) = take_bit n v"
    using f nz by (simp add: read_bitmask64_def take_bit_eq_mask)
  then have "unat (read_bitmask64 v (mask n)) = unat (take_bit n v)" by (simp only:)
  also have "\<dots> = take_bit n (unat v)" by (rule unsigned_take_bit_eq)
  finally show ?thesis by (simp only: take_bit_eq_mod [of n "unat v"])
qed

section \<open>Status items\<close>

text \<open>
  The field of a status register, the registers read one after the other; a field of more than 32
  bits spans two registers.
\<close>

definition field_at :: "nat \<Rightarrow> nat \<Rightarrow> nat \<Rightarrow> nat \<Rightarrow> kacm \<Rightarrow> nat" where
  "field_at b off h l s =
     (let lo = unat (rd32 (k_env s) (k_io s) (R_Bypass b) (0xE000 + off));
          hi = unat (rd32 (k_env s) (R32 (R_Bypass b) (0xE000 + off) # k_io s) (R_Bypass b) (0xE000 + off + 4)) in
      (if h < 32 then lo else lo + 2 ^ 32 * hi) div 2 ^ l mod 2 ^ (h + 1 - l))"

text \<open>
  The fields of the status items in the order of their numbers: offset, highest and lowest bit,
  and the number of the counter that keeps a field that is cleared when the register is read.
\<close>

definition item_fields :: "kacm \<Rightarrow> (nat \<times> nat \<times> nat \<times> nat option) list" where
  "item_fields s = [(0x84, 0, 0, None), (0x90, if k_if_id s = ACM_IF_1_0 then 39 else 40, 0, None), (0xA0, 2, 0, None),
     (0x110, 31, 24, Some 0), (0x110, 7, 0, Some 1), (0x808, 7, 0, None), (0x110, 23, 16, Some 2),
     (0x308, 7, 0, None), (0x448, 7, 0, None), (0x500, 15, 0, None), (0x810, 7, 0, None), (0x824, 15, 0, None),
     (0x804, 15, 0, None), (0x404, 15, 0, None), (0x400, 15, 0, None)]"

definition item_value :: "nat \<Rightarrow> nat \<Rightarrow> kacm \<Rightarrow> nat" where
  "item_value b item s = (case item_fields s ! item of (off, h, l, counter) \<Rightarrow>
     (case counter of None \<Rightarrow> field_at b off h l s
      | Some j \<Rightarrow> (unat (k_partreg s b ! j) + field_at b off h l s) mod 2 ^ 32))"

lemma read_text_value:
  assumes "env_text (st_env s) p = Some buf" "c_strtoull0 buf = (word_of_nat n, True, False)" "n < 2 ^ 63" "buf \<noteq> []"
  shows "read_uint64_sysfs_item p s = int n"
proof -
  have n: "int n < 2 ^ 63"
  proof -
    have "int n < int (2 ^ 63)" using assms(3) by (simp only: of_nat_less_iff)
    then show ?thesis by simp
  qed
  have "take_bit 64 n = n" using assms(3) by (intro take_bit_nat_eq_self) simp
  then have "uint (word_of_nat n :: u64) = int n" by (simp add: unsigned_of_nat)
  then have "sint (word_of_nat n :: u64) = int n" using n by (simp add: sint_uint signed_take_bit_int_eq_self)
  with assms show ?thesis by (simp add: read_uint64_sysfs_item_def)
qed

lemma shown_status:
  assumes "env_text (st_env s) p = Some (fst (acm_status_show a b ks))"
  shows "read_uint64_sysfs_item p s = int (unat (fst (acm_status_value a b ks)))"
proof -
  define n where "n = unat (fst (acm_status_value a b ks))"
  have "n < 2 ^ 32"
    using unsigned_less [of "fst (acm_status_value a b ks)", where ?'a = nat] by (simp add: n_def)
  then have n: "n < 2 ^ 64" "n < 2 ^ 63" by simp_all
  have "fst (acm_status_show a b ks) = CHR ''0'' # CHR ''x'' # print_HEX n @ []"
    by (simp add: acm_status_show_def n_def split: prod.split)
  with assms have hex: "env_text (st_env s) p = Some (CHR ''0'' # CHR ''x'' # print_HEX n @ [])" by (simp only:)
  have "ends_number 16 []" by (simp add: ends_number_def)
  then have "read_uint64_sysfs_item p s = int n"
    using read_text_value [OF hex strtoull_hex [OF n(1)] n(2)] by simp
  then show ?thesis by (simp only: n_def)
qed

definition error_value :: "nat \<Rightarrow> u64 \<Rightarrow> nat \<Rightarrow> kacm \<Rightarrow> nat" where
  "error_value off m b s =
     (let (lo, s) = bypass_status_area_read b off s; (hi, s) = bypass_status_area_read b (off + 4) s in
      if 32 \<le> fls64 m then unat (read_bitmask64 (push_bit 32 (ucast hi) + ucast lo) m)
      else unat (read_bitmask lo (ucast m)))"

lemma ends_number_newline: "ends_number 16 [newline]"
  by (simp add: ends_number_def is_digit_of_def c_digit_def)

lemma error_text:
  "fst (sysfs_error_attr_show off m b s) =
     (if fls64 m < 32 \<and> hweight64 m = 1 then print_HEX (error_value off m b s) @ [newline]
      else ''0X'' @ print_HEX (error_value off m b s) @ [newline])"
  by (auto simp: sysfs_error_attr_show_def error_value_def Let_def split: prod.split)

lemma shown_error:
  assumes shown: "env_text (st_env s) p = Some (fst (sysfs_error_attr_show off m b ks))"
    and small: "fls64 m < 32 \<Longrightarrow> hweight64 m = 1 \<Longrightarrow> error_value off m b ks < 10" "error_value off m b ks < 2 ^ 63"
  shows "read_uint64_sysfs_item p s = int (error_value off m b ks)"
proof (cases "fls64 m < 32 \<and> hweight64 m = 1")
  case True
  then have "print_HEX (error_value off m b ks) = print_dec (error_value off m b ks)"
    using small(1) by (simp add: print_HEX_def print_dec_def print_digits.simps digit_char_def upper_digit_char_def)
  then have "fst (sysfs_error_attr_show off m b ks) = print_dec (error_value off m b ks) @ [newline]"
    using True by (simp add: error_text)
  with shown have "env_text (st_env s) p = Some (print_dec (error_value off m b ks) @ [newline])" by (simp only:)
  from read_text_value [OF this strtoull_dec small(2)] small(2) show ?thesis by simp
next
  case False
  then have "fst (sysfs_error_attr_show off m b ks) = CHR ''0'' # CHR ''X'' # print_HEX (error_value off m b ks) @ [newline]"
    by (simp only: error_text if_False) simp
  with shown have "env_text (st_env s) p = Some (CHR ''0'' # CHR ''X'' # print_HEX (error_value off m b ks) @ [newline])" by (simp only:)
  from read_text_value [OF this strtoull_hex small(2)] small(2) ends_number_newline show ?thesis by simp
qed

lemma status_read_item_text:
  assumes "module < 2" "item < 15" "env_alloc (st_env s) (st_next s)"
  shows "fst (status_read_item module item s) = read_uint64_sysfs_item (status_item_path module item) s"
  using assms by (auto simp: status_read_item_def c_asprintf_def acm_zalloc_def ACM_MODULES_COUNT_def intro: read_uint64_env)

text \<open>A field of a status register.\<close>

lemma status_value_field:
  assumes "\<not> st_part a" "st_offset a = off" "st_bitmask a = GENMASK h l" "l \<le> h" "h < 32" "0xE000 + off < bypass_size b s"
  shows "unat (fst (acm_status_value a b s)) = field_at b off h l s"
  using assms read_bitmask_field [OF assms(4,5)]
  by (simp add: acm_status_value_def field_at_def bypass_status_area_read_def bypass_area_read_def readl_def)

lemma status_value_part:
  assumes "st_part a" "st_bitmask a = FRAME_ERRORS_bitmasks ! j" "j < 3" "length (k_partreg s b) = 3" "0xE110 < bypass_size b s"
    and hl: "FRAME_ERRORS_bitmasks ! j = GENMASK h l" "l \<le> h" "h < 32"
  shows "unat (fst (acm_status_value a b s)) = (unat (k_partreg s b ! j) + field_at b 0x110 h l s) mod 2 ^ 32"
proof -
  have "find_mask (FRAME_ERRORS_bitmasks ! j) FRAME_ERRORS_bitmasks = j"
    using assms(3) by (auto simp: less_Suc_eq numeral_3_eq_3 FRAME_ERRORS_bitmasks_def GENMASK_def mask_eq_exp_minus_1 push_bit_eq_mult)
  moreover have "length FRAME_ERRORS_bitmasks = 3"
    by (simp add: FRAME_ERRORS_bitmasks_def)
  ultimately show ?thesis
    using assms read_bitmask_field [OF hl(2,3)]
    by (simp add: acm_status_value_def get_partreg_val_def field_at_def bypass_status_area_read_def bypass_area_read_def
        readl_def log_io_def unat_word_ariths Let_def)
qed

text \<open>The driver as the library sees it, and its registers.\<close>

definition driver_files :: "kacm \<Rightarrow> acm_state \<Rightarrow> bool" where
  "driver_files ks s = (env_text (st_env s) = driver_text ks)"

definition status_registers :: "nat \<Rightarrow> kacm \<Rightarrow> bool" where
  "status_registers b ks = (0xE828 < bypass_size b ks \<and> length (k_partreg ks b) = 3)"

lemma status_attribute_item:
  assumes "driver_files ks s" "b < 2"
    "find (\<lambda>a. status_visible ks a \<and> st_name a = n) (status_attributes_common @ status_attributes_debug) = Some a"
  shows "read_uint64_sysfs_item (module_file STATUS_GROUP n b) s = int (unat (fst (acm_status_value a b ks)))"
  using assms driver_text_status [OF assms(2,3)] by (intro shown_status) (simp add: driver_files_def)

lemma error_attribute_item:
  assumes "driver_files ks s" "b < 2" "map_of (error_attributes ks) n = Some (off, m)"
    "fls64 m < 32 \<Longrightarrow> hweight64 m = 1 \<Longrightarrow> error_value off m b ks < 10" "error_value off m b ks < 2 ^ 63"
  shows "read_uint64_sysfs_item (module_file ERROR_GROUP n b) s = int (error_value off m b ks)"
  using assms driver_text_error [OF assms(2,3)] by (intro shown_error) (simp_all add: driver_files_def)

definition hidden_items :: "string list" where
  "hidden_items = [''gmii_error_prev_cycle'', ''sof_errors'', ''rx_frames_prev'', ''rx_frames_cycle_change'']"

lemma hidden_items_attributes:
  "list_all (\<lambda>a. st_name a \<in> set hidden_items \<longrightarrow> st_min a = ACM_IF_3_0) (status_attributes_common @ status_attributes_debug)"
  "list_all (\<lambda>(name, off). name \<notin> set hidden_items) status64_attributes"
  "list_all (\<lambda>n. list_all (\<lambda>d. take 4 n \<noteq> take 4 d) [''device_id'', ''version_id'', ''revision_id'', ''extended_status'',
      ''testmodule_enable'', ''cfg_read_back'', ''individual_recovery'', ''rx_redundancy'', ''time_freq'', ''msgbuf_memsize'',
      ''msgbuf_count'', ''msgbuf_datawidth'', ''redund_frames_produced_M0'', ''redund_frames_produced_M1'']) hidden_items"
  by code_simp+

lemma device_attribute_names: "n \<in> set hidden_items \<Longrightarrow> \<forall>(name, show, mn) \<in> set device_attributes. take 4 n \<noteq> take 4 name"
  using hidden_items_attributes(3) unfolding device_attributes_def by (simp add: list_all_iff)

lemma map_of_device_files:
  assumes "4 \<le> length n" "\<forall>(name, show, mn) \<in> set as. take 4 n \<noteq> take 4 name"
  shows "map_of (concat (map (\<lambda>(name, show, mn). visible_files False mn ACM_IF_DONT_CARE
       [(ACMDEV_BASE @ STATUS_GROUP @ ''/'' @ name, show)] s) as)) (module_file STATUS_GROUP n b) = None"
proof -
  have "module_file STATUS_GROUP n b \<noteq> ACMDEV_BASE @ STATUS_GROUP @ ''/'' @ d" if "take 4 n \<noteq> take 4 d" for d
    using that assms(1) by (auto simp: module_file_def)
  with assms(2) show ?thesis
    by (induction as) (auto simp: visible_files_def map_add_def split: option.splits)
qed

lemma map_of_status64:
  assumes "n \<in> set hidden_items" "b < 2" "\<forall>(name, off) \<in> set as. name \<notin> set hidden_items"
  shows "map_of (concat (map (\<lambda>(name, off). visible_files True ACM_IF_2_0 ACM_IF_DONT_CARE
       (module_files STATUS_GROUP name (acm_status64_show off (mask 64))) s) as) @ rest) (module_file STATUS_GROUP n b) =
     map_of rest (module_file STATUS_GROUP n b)"
  using assms(1,3) by (induction as) (auto simp: visible_files_def map_add_def map_of_module_files [OF assms(2)])

lemma status_items_hidden:
  assumes "driver_files ks s" "b < 2" "k_if_id ks < ACM_IF_3_0" "n \<in> set hidden_items"
  shows "read_uint64_sysfs_item (module_file STATUS_GROUP n b) s = - ENODEV"
proof -
  have len: "4 \<le> length n" using assms(4) by (auto simp: hidden_items_def)
  have "find (\<lambda>a. status_visible ks a \<and> st_name a = n) (status_attributes_common @ status_attributes_debug) = None"
    using assms(3,4) hidden_items_attributes(1) unfolding find_None_iff list_all_iff
    by (auto simp: acm_status_is_visible_def)
  moreover have "\<forall>(name, off) \<in> set status64_attributes. name \<notin> set hidden_items"
    using hidden_items_attributes(2) by (simp add: list_all_iff)
  ultimately have "driver_text ks (module_file STATUS_GROUP n b) = None"
    unfolding driver_text_def error_files_def map_of_errors_status [OF assms(2)] status_files_def map_of_status [OF assms(2)]
    by (simp only: map_of_status64 [OF assms(4,2)] map_of_device_files [OF _ device_attribute_names [OF assms(4)]]
        len option.case option.map)
  then show ?thesis using assms(1) by (simp add: driver_files_def read_uint64_sysfs_item_def)
qed

section \<open>Every status item\<close>

lemma error_item_value:
  assumes "b < 2" "status_registers b ks"
  shows "error_value 0x84 1 b ks = field_at b 0x84 0 0 ks" "error_value 0xA0 7 b ks = field_at b 0xA0 2 0 ks"
    "error_value 0x90 (error_flags_mask ks) b ks = field_at b 0x90 (if k_if_id ks = ACM_IF_1_0 then 39 else 40) 0 ks"
    "error_value 0x90 (error_flags_mask ks) b ks < 2 ^ 63"
proof -
  note reads = error_value_def field_at_def bypass_status_area_read_def bypass_area_read_def readl_def log_io_def Let_def
  have size: "0xE828 < bypass_size b ks" using assms(2) by (simp add: status_registers_def)
  have size': "bypass_size b (ks\<lparr>k_io := h\<rparr>) = bypass_size b ks" for h by (simp add: bypass_size_def)
  have "fls64 1 = 1" "fls64 7 = 3" by (simp_all add: fls64_def upt_rec bit_iff_odd)
  moreover have "read_bitmask v 1 = read_bitmask v (GENMASK 0 0)" "read_bitmask v 7 = read_bitmask v (GENMASK 2 0)" for v
    by (simp_all add: GENMASK_def mask_eq_exp_minus_1)
  ultimately show "error_value 0x84 1 b ks = field_at b 0x84 0 0 ks" "error_value 0xA0 7 b ks = field_at b 0xA0 2 0 ks"
    using size size' by (simp_all add: reads read_bitmask_field)
  have fls: "fls64 (mask 40) = 40" "fls64 (mask 41) = 41" by (simp_all add: fls64_def upt_rec bit_simps)
  show eq: "error_value 0x90 (error_flags_mask ks) b ks = field_at b 0x90 (if k_if_id ks = ACM_IF_1_0 then 39 else 40) 0 ks"
    using size size' by (simp add: reads error_flags_mask_def fls read_bitmask64_low unat_two_words)
  show "error_value 0x90 (error_flags_mask ks) b ks < 2 ^ 63"
    unfolding eq field_at_def Let_def by (rule less_le_trans [OF mod_less_divisor]) auto
qed

text \<open>A part of the frame error register, and a whole field, at the attribute that shows it.\<close>

lemma item_status:
  assumes "driver_files ks s" "status_registers b ks" "b < 2"
    and found: "find (\<lambda>a. status_visible ks a \<and> st_name a = n) (status_attributes_common @ status_attributes_debug) =
      Some (ACM_STATUS_ATTR_RO n off (GENMASK h l) mn mx dbg)"
    and hl: "l \<le> h" "h < 32" "off \<le> 0x828"
  shows "read_uint64_sysfs_item (module_file STATUS_GROUP n b) s = int (field_at b off h l ks)"
  using status_attribute_item [OF assms(1,3) found] assms(2) hl
  by (subst (asm) status_value_field) (simp_all add: ACM_STATUS_ATTR_RO_def status_registers_def)

lemma item_part:
  assumes "driver_files ks s" "status_registers b ks" "b < 2"
    and found: "find (\<lambda>a. status_visible ks a \<and> st_name a = n) (status_attributes_common @ status_attributes_debug) =
      Some (ACM_PART_STATUS_ATTR_RO n FRAME_ERRORS (GENMASK h l) mn mx dbg)"
    and hl: "FRAME_ERRORS_bitmasks ! j = GENMASK h l" "l \<le> h" "h < 32" "j < 3"
  shows "read_uint64_sysfs_item (module_file STATUS_GROUP n b) s =
    int ((unat (k_partreg ks b ! j) + field_at b 0x110 h l ks) mod 2 ^ 32)"
  using status_attribute_item [OF assms(1,3) found] assms(2) hl
  by (subst (asm) status_value_part [where j = j]) (simp_all add: ACM_PART_STATUS_ATTR_RO_def status_registers_def)

lemma find_common: "find P as = Some a \<Longrightarrow> find P (as @ bs) = Some a"
  by (induction as) (auto split: if_splits)

lemmas status_attribute_defs = status_attributes_common_def ACM_STATUS_ATTR_RO_def ACM_PART_STATUS_ATTR_RO_def acm_status_is_visible_def

lemma status_items_found:
  "find (\<lambda>a. status_visible ks a \<and> st_name a = ''layer7_missmatch_cnt'') status_attributes_common =
     Some (ACM_STATUS_ATTR_RO ''layer7_missmatch_cnt'' 0x308 (GENMASK 7 0) ACM_IF_DONT_CARE ACM_IF_DONT_CARE False)"
  "find (\<lambda>a. status_visible ks a \<and> st_name a = ''drop_frames_cnt_prev'') status_attributes_common =
     Some (ACM_STATUS_ATTR_RO ''drop_frames_cnt_prev'' 0x448 (GENMASK 7 0) ACM_IF_DONT_CARE ACM_IF_DONT_CARE False)"
  "find (\<lambda>a. status_visible ks a \<and> st_name a = ''scatter_DMA_frames_cnt_prev'') status_attributes_common =
     Some (ACM_STATUS_ATTR_RO ''scatter_DMA_frames_cnt_prev'' 0x500 (GENMASK 15 0) ACM_IF_DONT_CARE ACM_IF_DONT_CARE False)"
  "find (\<lambda>a. status_visible ks a \<and> st_name a = ''disable_overrun_prev'') status_attributes_common =
     Some (ACM_STATUS_ATTR_RO ''disable_overrun_prev'' 0x810 (GENMASK 7 0) ACM_IF_DONT_CARE ACM_IF_DONT_CARE False)"
  "find (\<lambda>a. status_visible ks a \<and> st_name a = ''tx_frame_cycle_change'') status_attributes_common =
     Some (ACM_STATUS_ATTR_RO ''tx_frame_cycle_change'' 0x824 (GENMASK 15 0) ACM_IF_DONT_CARE ACM_IF_DONT_CARE False)"
  "find (\<lambda>a. status_visible ks a \<and> st_name a = ''tx_frames_prev'') status_attributes_common =
     Some (ACM_STATUS_ATTR_RO ''tx_frames_prev'' 0x804 (GENMASK 15 0) ACM_IF_DONT_CARE ACM_IF_DONT_CARE False)"
  "find (\<lambda>a. status_visible ks a \<and> st_name a = ''runt_frames'') status_attributes_common =
     Some (ACM_PART_STATUS_ATTR_RO ''runt_frames'' FRAME_ERRORS (GENMASK 31 24) ACM_IF_DONT_CARE ACM_IF_DONT_CARE False)"
  "find (\<lambda>a. status_visible ks a \<and> st_name a = ''mii_errors'') status_attributes_common =
     Some (ACM_PART_STATUS_ATTR_RO ''mii_errors'' FRAME_ERRORS (GENMASK 7 0) ACM_IF_DONT_CARE ACM_IF_DONT_CARE False)"
  by (simp_all add: status_attribute_defs)

lemma status_items_found_from_3:
  assumes "\<not> k_if_id ks < ACM_IF_3_0"
  shows
  "find (\<lambda>a. status_visible ks a \<and> st_name a = ''gmii_error_prev_cycle'') status_attributes_common =
     Some (ACM_STATUS_ATTR_RO ''gmii_error_prev_cycle'' 0x808 (GENMASK 7 0) ACM_IF_3_0 ACM_IF_DONT_CARE False)"
  "find (\<lambda>a. status_visible ks a \<and> st_name a = ''sof_errors'') status_attributes_common =
     Some (ACM_PART_STATUS_ATTR_RO ''sof_errors'' FRAME_ERRORS (GENMASK 23 16) ACM_IF_3_0 ACM_IF_DONT_CARE False)"
  "find (\<lambda>a. status_visible ks a \<and> st_name a = ''rx_frames_cycle_change'') status_attributes_common =
     Some (ACM_STATUS_ATTR_RO ''rx_frames_cycle_change'' 0x404 (GENMASK 15 0) ACM_IF_3_0 ACM_IF_DONT_CARE False)"
  "find (\<lambda>a. status_visible ks a \<and> st_name a = ''rx_frames_prev'') status_attributes_common =
     Some (ACM_STATUS_ATTR_RO ''rx_frames_prev'' 0x400 (GENMASK 15 0) ACM_IF_3_0 ACM_IF_DONT_CARE False)"
  using assms by (simp_all add: status_attribute_defs)

lemma item_cases:
  "(item :: nat) < 15 \<Longrightarrow> item = 0 \<or> item = 1 \<or> item = 2 \<or> item = 3 \<or> item = 4 \<or> item = 5 \<or> item = 6 \<or> item = 7 \<or>
     item = 8 \<or> item = 9 \<or> item = 10 \<or> item = 11 \<or> item = 12 \<or> item = 13 \<or> item = 14"
  by arith

lemma error_items_read:
  assumes "driver_files ks s" "status_registers b ks" "b < 2"
  shows "read_uint64_sysfs_item (status_item_path b 0) s = int (item_value b 0 ks)"
    "read_uint64_sysfs_item (status_item_path b 1) s = int (item_value b 1 ks)"
    "read_uint64_sysfs_item (status_item_path b 2) s = int (item_value b 2 ks)"
proof -
  note ev = error_item_value [OF assms(3,2)]
  have "map_of (error_attributes ks) ''halt_on_error'' = Some (0x84, 1)" "map_of (error_attributes ks) ''error_flags'' = Some (0x90, error_flags_mask ks)"
    "map_of (error_attributes ks) ''policing_flags'' = Some (0xA0, 7)"
    by (simp_all add: error_attributes_def)
  note at = this [THEN error_attribute_item [OF assms(1,3)]]
  have small: "field_at b off h 0 ks < 2 ^ (h + 1)" for off h by (simp add: field_at_def Let_def)
  have "field_at b 0x84 0 0 ks < 2" "field_at b 0xA0 2 0 ks < 8" using small [of "0x84" 0] small [of "0xA0" 2] by simp_all
  moreover have "hweight64 7 = 3" by (simp add: hweight64_def upt_rec bit_iff_odd)
  moreover have "fls64 (error_flags_mask ks) \<ge> 32" by (simp add: error_flags_mask_def fls64_def upt_rec bit_simps)
  ultimately show "read_uint64_sysfs_item (status_item_path b 0) s = int (item_value b 0 ks)"
    "read_uint64_sysfs_item (status_item_path b 1) s = int (item_value b 1 ks)"
    "read_uint64_sysfs_item (status_item_path b 2) s = int (item_value b 2 ks)"
    using at ev by (simp_all add: status_item_path_def status_subpath_def item_value_def item_fields_def)
qed

lemma hidden_item_names:
  "snd (status_subpath ! 5) \<in> set hidden_items" "snd (status_subpath ! 6) \<in> set hidden_items"
  "snd (status_subpath ! 13) \<in> set hidden_items" "snd (status_subpath ! 14) \<in> set hidden_items"
  by (simp_all add: status_subpath_def hidden_items_def)

text \<open>
  C29: Reading a status item of the library returns the field of the register that the item stands
  for, in whatever format the driver prints it: a field of the status area, the 40 or 41 error
  flags of two registers, or a counter that the driver accumulates because the register is cleared
  on reading. An item the interface variant does not have is answered with -ENODEV.
\<close>

theorem status_items_read_fields:
  assumes "driver_files ks s" "status_registers b ks" "b < 2" "item < 15" "env_alloc (st_env s) (st_next s)"
  shows "fst (status_read_item b item s) =
    (if item \<in> {5, 6, 13, 14} \<and> k_if_id ks < ACM_IF_3_0 then - ENODEV else int (item_value b item ks))"
proof -
  note st = item_status [OF assms(1-3)] and pt = item_part [OF assms(1-3)]
  note defs = status_item_path_def status_subpath_def item_value_def item_fields_def
  note common = status_items_found [of ks, THEN find_common]
  have "read_uint64_sysfs_item (status_item_path b item) s =
    (if item \<in> {5, 6, 13, 14} \<and> k_if_id ks < ACM_IF_3_0 then - ENODEV else int (item_value b item ks))"
  proof (cases "item \<in> {5, 6, 13, 14}")
    case True
    show ?thesis
    proof (cases "k_if_id ks < ACM_IF_3_0")
      case hidden: True
      with status_items_hidden [OF assms(1,3) hidden] hidden_item_names True show ?thesis
        by (auto simp: status_item_path_def status_subpath_def)
    next
      case False
      note found = status_items_found_from_3 [OF False, THEN find_common]
      from False True st [OF found(1)] pt [OF found(2), of 2] st [OF found(3)] st [OF found(4)] show ?thesis
        by (auto simp: defs FRAME_ERRORS_bitmasks_def)
    qed
  next
    case False
    have "item \<in> {0, 1, 2} \<or> item \<in> {3, 4, 7, 8, 9, 10, 11, 12}"
      using item_cases [OF assms(4)] False by auto
    then show ?thesis
    proof
      assume "item \<in> {0, 1, 2}"
      with error_items_read [OF assms(1-3)] show ?thesis by auto
    next
      assume "item \<in> {3, 4, 7, 8, 9, 10, 11, 12}"
      with st [OF common(1)] st [OF common(2)] st [OF common(3)] st [OF common(4)] st [OF common(5)] st [OF common(6)]
        pt [OF common(7), of 0] pt [OF common(8), of 1] show ?thesis
        by (auto simp: defs FRAME_ERRORS_bitmasks_def)
    qed
  qed
  then show ?thesis
    using status_read_item_text [OF assms(3-5)] by simp
qed

text \<open>A register block in which every register reads 0x05000203; two short frames were counted before.\<close>

definition ex_status_kacm :: kacm where
  "ex_status_kacm = ex_kacm\<lparr>k_env := ex_kenv\<lparr>rd32 := (\<lambda>_ _ _. 0x05000203)\<rparr>, k_partreg := (\<lambda>_. [2, 0, 0])\<rparr>"

definition ex_status_state :: acm_state where
  "ex_status_state = ex_empty\<lparr>st_env := ex_env\<lparr>env_text := driver_text ex_status_kacm\<rparr>\<rparr>"

lemma ex_status_facts:
  "driver_files ex_status_kacm ex_status_state" "status_registers b ex_status_kacm"
  "env_alloc (st_env ex_status_state) (st_next ex_status_state)"
  by (simp_all add: driver_files_def ex_status_state_def status_registers_def ex_status_kacm_def ex_kacm_def ex_kenv_def
      bypass_size_def ex_empty_def ex_env_def)

lemma status_items_read_fields_witness:
  "fst (status_read_item 1 3 ex_status_state) = 7 \<and> fst (status_read_item 0 1 ex_status_state) = 0x305000203"
proof -
  have v: "item_value 1 3 ex_status_kacm = 7" "item_value 0 1 ex_status_kacm = 0x305000203"
    by (simp_all add: item_value_def item_fields_def field_at_def ex_status_kacm_def ex_kacm_def ex_kenv_def)
  show ?thesis
    using status_items_read_fields [OF ex_status_facts(1,2) _ _ ex_status_facts(3), of 1 3]
      status_items_read_fields [OF ex_status_facts(1,2) _ _ ex_status_facts(3), of 0 1] v by (simp only:) simp
qed

section \<open>Capabilities\<close>

lemma print_dec_last: "b < 2 \<Longrightarrow> last (print_dec b) \<in> {CHR ''0'', CHR ''1''}"
proof -
  have "digit_char 0 = CHR ''0''" "digit_char 1 = CHR ''1''"
    by (simp_all add: digit_char_def) (rule iffD1 [OF of_char_eq_iff [where ?'a = nat]], simp)+
  then show "b < 2 \<Longrightarrow> last (print_dec b) \<in> {CHR ''0'', CHR ''1''}"
    by (auto simp: print_dec_digit less_2_cases_iff)
qed

text \<open>No file of a module is meant by a path that does not end in the number of a module.\<close>

lemma map_of_module_files_other:
  assumes "last p \<notin> {CHR ''0'', CHR ''1''}" shows "map_of (module_files grp n show) p = None"
proof -
  have "last (module_file grp n b) \<in> {CHR ''0'', CHR ''1''}" if "b < 2" for b
    using print_dec_last [OF that] by (simp add: module_file_last)
  from this [of 0] this [of 1] have "p \<noteq> module_file grp n 0" "p \<noteq> module_file grp n 1" using assms by auto
  then show ?thesis by (simp add: module_files_def)
qed

lemma driver_text_device:
  assumes "last n \<notin> {CHR ''0'', CHR ''1''}" "n \<noteq> []"
  shows "driver_text s (ACMDEV_BASE @ STATUS_GROUP @ ''/'' @ n) =
    (case find (\<lambda>(name, show, mn). acm_status_is_visible False mn ACM_IF_DONT_CARE s \<and> name = n) device_attributes of
       None \<Rightarrow> None | Some (name, show, mn) \<Rightarrow> Some (fst (show s)))"
proof -
  define p where "p = ACMDEV_BASE @ STATUS_GROUP @ ''/'' @ n"
  have eq: "ACMDEV_BASE @ STATUS_GROUP @ CHR ''/'' # d = p \<longleftrightarrow> d = n" "p = ACMDEV_BASE @ STATUS_GROUP @ CHR ''/'' # d \<longleftrightarrow> d = n" for d
    by (auto simp: p_def)
  have "last p \<notin> {CHR ''0'', CHR ''1''}" using assms by (simp add: p_def)
  note other = map_of_module_files_other [OF this]
  have "map_of (concat (map (\<lambda>(name, off, m). module_files ERROR_GROUP name (sysfs_error_attr_show off m)) es) @ rest) p = map_of rest p" for es rest
    by (induction es) (auto simp: map_add_def other split: option.splits)
  moreover have "map_of (concat (map (\<lambda>a. visible_files (st_debug_only a) (st_min a) (st_max a)
       (module_files STATUS_GROUP (st_name a) (acm_status_show a)) s) as) @ rest) p = map_of rest p" for as rest
    by (induction as) (auto simp: visible_files_def map_add_def other split: option.splits)
  moreover have "map_of (concat (map (\<lambda>(name, off). visible_files True ACM_IF_2_0 ACM_IF_DONT_CARE
       (module_files STATUS_GROUP name (acm_status64_show off (mask 64))) s) es) @ rest) p = map_of rest p" for es rest
    by (induction es) (auto simp: visible_files_def map_add_def other split: option.splits if_splits)
  moreover have "map_option (\<lambda>show. fst (show s)) (map_of (concat (map (\<lambda>(name, show, mn). visible_files False mn ACM_IF_DONT_CARE
       [(ACMDEV_BASE @ STATUS_GROUP @ ''/'' @ name, show)] s) ds)) p) =
    (case find (\<lambda>(name, show, mn). acm_status_is_visible False mn ACM_IF_DONT_CARE s \<and> name = n) ds of
       None \<Rightarrow> None | Some (name, show, mn) \<Rightarrow> Some (fst (show s)))" for ds
    by (induction ds) (auto simp: visible_files_def map_add_def eq split: option.splits)
  ultimately show ?thesis
    unfolding driver_text_def error_files_def status_files_def p_def [symmetric] by (simp only:)
qed

lemma shown_device:
  assumes "driver_files ks s" "last n \<notin> {CHR ''0'', CHR ''1''}" "n \<noteq> []" "k_if_id ks < mn \<Longrightarrow> mn \<noteq> ACM_IF_DONT_CARE"
    "find (\<lambda>(name, show, mn). acm_status_is_visible False mn ACM_IF_DONT_CARE ks \<and> name = n) device_attributes =
      (if k_if_id ks < mn then None else Some (n, show, mn))"
    "fst (show ks) = print_dec v @ [newline]" "v < 2 ^ 32"
  shows "read_uint64_sysfs_item (ACMDEV_BASE @ STATUS_GROUP @ ''/'' @ n) s = (if k_if_id ks < mn then - ENODEV else int v)"
proof (cases "k_if_id ks < mn")
  case True
  with assms driver_text_device [OF assms(2,3), of ks] show ?thesis
    by (simp add: driver_files_def read_uint64_sysfs_item_def)
next
  case False
  with assms driver_text_device [OF assms(2,3), of ks]
  have "env_text (st_env s) (ACMDEV_BASE @ STATUS_GROUP @ ''/'' @ n) = Some (print_dec v @ [newline])"
    by (simp add: driver_files_def)
  from read_text_value [OF this strtoull_dec] assms(7) False show ?thesis by simp
qed

text \<open>The interface variant from which on the driver shows a capability, and its value.\<close>

definition capability_shown :: "acm_capability_item \<Rightarrow> (string \<times> acm_ip_if_variant \<times> (kacm \<Rightarrow> nat)) option" where
  "capability_shown cid = (case cid of
     CAP_MIN_SCHEDULE_TICK \<Rightarrow> Some (''time_freq'', ACM_IF_2_0, \<lambda>ks. unat (commreg_read_time_freq ks))
   | CAP_MAX_MESSAGE_BUFFER_SIZE \<Rightarrow> Some (''msgbuf_memsize'', ACM_IF_2_0, \<lambda>ks. unat (commreg_read_msgbuf_memsize ks))
   | CAP_CONFIG_READBACK \<Rightarrow> Some (''cfg_read_back'', ACM_IF_4_0, \<lambda>ks. of_bool (commreg_read_cfg_read_back ks))
   | CAP_MAX_ANZ_MESSAGE_BUFFER \<Rightarrow> Some (''msgbuf_count'', ACM_IF_4_0, commreg_read_msgbuf_count)
   | CAP_MESSAGE_BUFFER_BLOCK_SIZE \<Rightarrow> Some (''msgbuf_datawidth'', ACM_IF_4_0, \<lambda>ks. unat (commreg_read_msgbuf_datawidth ks))
   | CAP_REDUNDANCY_RX \<Rightarrow> Some (''rx_redundancy'', ACM_IF_4_0, \<lambda>ks. of_bool (commreg_read_rx_redundancy ks))
   | CAP_INDIV_RECOVERY \<Rightarrow> Some (''individual_recovery'', ACM_IF_4_0, \<lambda>ks. of_bool (commreg_read_individual_recovery ks))
   | _ \<Rightarrow> None)"

lemmas device_show_defs = show_dec_def time_freq_show_def msgbuf_memsize_show_def
  cfg_read_back_show_def msgbuf_count_show_def msgbuf_datawidth_show_def rx_redundancy_show_def individual_recovery_show_def

text \<open>The attribute of the device with a name, when it is visible.\<close>

abbreviation device_attribute :: "string \<Rightarrow> kacm \<Rightarrow> (string \<times> (kacm \<Rightarrow> string \<times> kacm) \<times> acm_ip_if_variant) option" where
  "device_attribute n ks \<equiv> find (\<lambda>(name, show, mn). acm_status_is_visible False mn ACM_IF_DONT_CARE ks \<and> name = n) device_attributes"

lemma device_found:
  "device_attribute ''time_freq'' ks = (if k_if_id ks < ACM_IF_2_0 then None else Some (''time_freq'', time_freq_show, ACM_IF_2_0))"
  "device_attribute ''msgbuf_memsize'' ks = (if k_if_id ks < ACM_IF_2_0 then None else Some (''msgbuf_memsize'', msgbuf_memsize_show, ACM_IF_2_0))"
  "device_attribute ''cfg_read_back'' ks = (if k_if_id ks < ACM_IF_4_0 then None else Some (''cfg_read_back'', cfg_read_back_show, ACM_IF_4_0))"
  "device_attribute ''msgbuf_count'' ks = (if k_if_id ks < ACM_IF_4_0 then None else Some (''msgbuf_count'', msgbuf_count_show, ACM_IF_4_0))"
  "device_attribute ''msgbuf_datawidth'' ks = (if k_if_id ks < ACM_IF_4_0 then None else Some (''msgbuf_datawidth'', msgbuf_datawidth_show, ACM_IF_4_0))"
  "device_attribute ''rx_redundancy'' ks = (if k_if_id ks < ACM_IF_4_0 then None else Some (''rx_redundancy'', rx_redundancy_show, ACM_IF_4_0))"
  "device_attribute ''individual_recovery'' ks = (if k_if_id ks < ACM_IF_4_0 then None else Some (''individual_recovery'', individual_recovery_show, ACM_IF_4_0))"
  by (simp_all add: device_attributes_def acm_status_is_visible_def)

lemma device_shown:
  "fst (time_freq_show ks) = print_dec (unat (commreg_read_time_freq ks)) @ [newline]"
  "fst (msgbuf_memsize_show ks) = print_dec (unat (commreg_read_msgbuf_memsize ks)) @ [newline]"
  "fst (cfg_read_back_show ks) = print_dec (of_bool (commreg_read_cfg_read_back ks)) @ [newline]"
  "fst (msgbuf_count_show ks) = print_dec (commreg_read_msgbuf_count ks) @ [newline]"
  "fst (msgbuf_datawidth_show ks) = print_dec (unat (commreg_read_msgbuf_datawidth ks)) @ [newline]"
  "fst (rx_redundancy_show ks) = print_dec (of_bool (commreg_read_rx_redundancy ks)) @ [newline]"
  "fst (individual_recovery_show ks) = print_dec (of_bool (commreg_read_individual_recovery ks)) @ [newline]"
  by (simp_all add: device_show_defs)

definition capability_show :: "acm_capability_item \<Rightarrow> kacm \<Rightarrow> string \<times> kacm" where
  "capability_show cid = (case cid of
  CAP_MIN_SCHEDULE_TICK \<Rightarrow> time_freq_show
   | CAP_MAX_MESSAGE_BUFFER_SIZE \<Rightarrow> msgbuf_memsize_show
   | CAP_CONFIG_READBACK \<Rightarrow> cfg_read_back_show
   | CAP_MAX_ANZ_MESSAGE_BUFFER \<Rightarrow> msgbuf_count_show
   | CAP_MESSAGE_BUFFER_BLOCK_SIZE \<Rightarrow> msgbuf_datawidth_show
   | CAP_REDUNDANCY_RX \<Rightarrow> rx_redundancy_show
   | CAP_INDIV_RECOVERY \<Rightarrow> individual_recovery_show
   | _ \<Rightarrow> individual_recovery_show)"

lemma capability_attribute:
  assumes "capability_shown cid = Some (n, mn, v)"
  shows "device_attribute n ks = (if k_if_id ks < mn then None else Some (n, capability_show cid, mn))"
    "fst (capability_show cid ks) = print_dec (v ks) @ [newline]"
    "last n \<notin> {CHR ''0'', CHR ''1''}" "n \<noteq> []" "mn \<noteq> ACM_IF_DONT_CARE"
  using assms by (cases cid; clarsimp simp: capability_shown_def capability_show_def device_found device_shown)+

lemma capability_text:
  assumes "driver_files ks s" "capability_shown cid = Some (n, mn, v)" "v ks < 2 ^ 32"
  shows "read_uint64_sysfs_item (ACMDEV_BASE @ STATUS_GROUP @ ''/'' @ n) s = (if k_if_id ks < mn then - ENODEV else int (v ks))"
  using shown_device [OF assms(1) capability_attribute(3,4) [OF assms(2)] capability_attribute(5) [OF assms(2)]
      capability_attribute(1,2) [OF assms(2)] assms(3)] .

lemma int32_of_status:
  assumes "sysfs_construct_path_name SYSFS_PATH_LENGTH STATUS_GROUP n = Inr (ACMDEV_BASE @ STATUS_GROUP @ ''/'' @ n)"
    "read_uint64_sysfs_item (ACMDEV_BASE @ STATUS_GROUP @ ''/'' @ n) s = i" "- (2 ^ 31) \<le> i" "i < 2 ^ 31"
  shows "get_int32_status_value n s = i"
proof -
  have "sint (word_of_int i :: u32) = i" using assms(3,4) by (simp add: sint_sbintrunc' signed_take_bit_int_eq_self)
  then show ?thesis by (simp only: get_int32_status_value_def assms(1,2) sum.case)
qed

text \<open>
  C30: A capability the library reports is the value the driver found in the generics of the IP:
  through the text of the attribute and back, for every interface variant that has it, and
  -ENODEV otherwise. The capability DEBUG is never available, since no attribute of its name exists.
\<close>

theorem capabilities_read_back:
  assumes "driver_files ks s" "unat (commreg_read_msgbuf_memsize ks) < 2 ^ 31" "commreg_read_msgbuf_count ks < 2 ^ 31"
    "unat (commreg_read_msgbuf_datawidth ks) < 2 ^ 31" "0 < commreg_read_time_freq ks"
  shows "status_read_capability_item cid s =
    (if cid = CAP_OTHER then - EINVAL
     else case capability_shown cid of None \<Rightarrow> - ENODEV
       | Some (n, mn, v) \<Rightarrow> if k_if_id ks < mn then - ENODEV
           else if cid = CAP_MIN_SCHEDULE_TICK then 1000000000 div int (v ks) else int (v ks))"
proof (cases "capability_shown cid")
  case None
  have "last ''debug_enable'' \<notin> {CHR ''0'', CHR ''1''}" by simp
  from driver_text_device [OF this, of ks] have "driver_text ks (ACMDEV_BASE @ STATUS_GROUP @ ''/'' @ ''debug_enable'') = None"
    by (simp add: device_attributes_def)
  then have "get_int32_status_value ''debug_enable'' s = - ENODEV"
    using assms(1) by (intro int32_of_status)
      (simp_all add: driver_files_def read_uint64_sysfs_item_def sysfs_construct_path_name_def ACMDEV_BASE_def STATUS_GROUP_def)
  with None show ?thesis by (cases cid) (auto simp: capability_shown_def status_read_capability_item_def)
next
  case (Some a)
  obtain n mn v where a: "capability_shown cid = Some (n, mn, v)" using Some by (cases a) auto
  have v: "v ks < 2 ^ 32" "cid \<noteq> CAP_MIN_SCHEDULE_TICK \<Longrightarrow> v ks < 2 ^ 31"
    using a assms(2-4) unsigned_less [of "commreg_read_time_freq ks", where ?'a = nat]
    by (cases cid; auto simp: capability_shown_def)+
  note entry = capability_text [OF assms(1) a v(1)]
  have path: "sysfs_construct_path_name SYSFS_PATH_LENGTH STATUS_GROUP n = Inr (ACMDEV_BASE @ STATUS_GROUP @ ''/'' @ n)"
    using a by (cases cid) (auto simp: capability_shown_def sysfs_construct_path_name_def ACMDEV_BASE_def STATUS_GROUP_def)
  show ?thesis
  proof (cases "cid = CAP_MIN_SCHEDULE_TICK")
    case True
    have "0 < v ks" using a True assms(5) by (auto simp: capability_shown_def word_greater_zero_iff unat_gt_0)
    with True a entry path show ?thesis
      by (auto simp: status_read_capability_item_def calc_tick_duration_def status_read_time_freq_def capability_shown_def)
  next
    case False
    have "int (v ks) < int (2 ^ 31)" using v(2) [OF False] by (simp only: of_nat_less_iff)
    then have "get_int32_status_value n s = (if k_if_id ks < mn then - ENODEV else int (v ks))"
      by (intro int32_of_status [OF path entry]) auto
    with False a show ?thesis
      by (cases cid) (auto simp: status_read_capability_item_def capability_shown_def ACM_SYSFS_MSGBUF_SIZE_def
          ACM_SYSFS_MSGBUF_COUNT_def ACM_SYSFS_MSGBUF_DATAWIDTH_def ACM_SYSFS_RX_REDUNDANCY_def)
  qed
qed

lemma capabilities_read_back_witness:
  "status_read_capability_item CAP_MIN_SCHEDULE_TICK ex_status_state = 10 \<and>
   status_read_capability_item CAP_MAX_ANZ_MESSAGE_BUFFER ex_status_state = 32 \<and>
   status_read_capability_item CAP_DEBUG ex_status_state = - ENODEV"
proof -
  have c: "k_commreg ex_status_kacm = Some ex_commreg" "k_if_id ex_status_kacm = ACM_IF_4_0"
    by (simp_all add: ex_status_kacm_def ex_kacm_def)
  note reg = commreg_read_msgbuf_memsize_def commreg_read_msgbuf_count_def commreg_read_msgbuf_datawidth_def commreg_read_time_freq_def
  have "unat (commreg_read_msgbuf_memsize ex_status_kacm) < 2 ^ 31" "commreg_read_msgbuf_count ex_status_kacm < 2 ^ 31"
    "unat (commreg_read_msgbuf_datawidth ex_status_kacm) < 2 ^ 31" "0 < commreg_read_time_freq ex_status_kacm"
    by (simp_all add: reg c ex_commreg_def)
  from capabilities_read_back [OF ex_status_facts(1) this] show ?thesis
    by (simp add: capability_shown_def c reg ex_commreg_def less_acm_ip_if_variant_def)
qed

end
