(* ===== verification/Acm_Drv_Diag_Theorems.thy ===== *)
theory Acm_Drv_Diag_Theorems
  imports Acm_Status Acm_Drv_Examples Acm_Examples
begin

text \<open>
  The diagnostic data of a module: the counters of the driver saturate, and the structure the
  driver returns arrives in the library field by field.
\<close>

section \<open>The structure as bytes\<close>

text \<open>\<^verbatim>\<open>struct acmdrv_diagnostics\<close>, packed: a time of 12 bytes and 71 words from offset 12 on.\<close>

definition diag_bytes :: "acmdrv_diagnostics \<Rightarrow> u8 list" where
  "diag_bytes d = to_le 8 (unat (word_of_int (dg_sec d) :: u64)) @ put_u32 (dg_nsec d) @
     concat (map (\<lambda>i. put_u32 (dg_data d (12 + 4 * i))) [0..<71])"

lemma get_u32_word: "i < length ws \<Longrightarrow> get_u32 (drop (4 * i) (concat (map put_u32 ws))) = ws ! i"
proof (induction ws arbitrary: i)
  case (Cons w ws)
  show ?case
  proof (cases i)
    case (Suc j)
    have "drop (4 * Suc j) (put_u32 w @ concat (map put_u32 ws)) = drop (4 * j) (concat (map put_u32 ws))" by simp
    with Cons Suc show ?thesis by simp
  qed simp
qed simp

lemma diag_word_bytes: "i < 71 \<Longrightarrow> diag_word (diag_bytes d) (12 + 4 * i) = dg_data d (12 + 4 * i)"
proof -
  assume i: "i < 71"
  have "drop (12 + 4 * i) (diag_bytes d) = drop (4 * i) (concat (map put_u32 (map (\<lambda>i. dg_data d (12 + 4 * i)) [0..<71])))"
    by (simp add: diag_bytes_def comp_def del: upt_rec_numeral)
  then show ?thesis
    unfolding diag_word_def using i by (simp only: get_u32_word length_map length_upt) simp
qed

lemma diag_word_at:
  assumes "12 \<le> off" "off < 296" "off mod 4 = 0" shows "diag_word (diag_bytes d) off = dg_data d off"
proof -
  have off: "off = 12 + 4 * ((off - 12) div 4)" using assms by presburger
  have "(off - 12) div 4 < 71" using assms by (simp add: less_mult_imp_div_less)
  from diag_word_bytes [OF this, of d] show ?thesis by (simp only: flip: off)
qed

lemma diag_words_at:
  assumes "12 \<le> off" "off + 64 \<le> 296" "off mod 4 = 0"
  shows "diag_words (diag_bytes d) off = map (\<lambda>i. dg_data d (off + 4 * i)) [0..<16]"
  unfolding diag_words_def ACM_MAX_LOOKUP_SIZE_def
proof (rule map_cong [OF refl])
  fix i :: nat assume "i \<in> set [0..<16]"
  then have "i < 16" by simp
  with assms show "diag_word (diag_bytes d) (off + 4 * i) = dg_data d (off + 4 * i)"
    by (intro diag_word_at) (simp_all add: mod_add_eq [symmetric] mod_mult_self1_is_0)
qed

lemma length_diag_bytes [simp]: "length (diag_bytes d) = 296"
  by (simp add: diag_bytes_def length_concat comp_def sum_list_triv del: upt_rec_numeral)

text \<open>What the library makes of it.\<close>

definition library_diag :: "acmdrv_diagnostics \<Rightarrow> acm_diagnostic" where
  "library_diag d =
     (let words = (\<lambda>off. map (\<lambda>i. dg_data d (off + 4 * i)) [0..<16]) in
      \<lparr>dia_tv_sec = dg_sec d, dia_tv_nsec = sint (dg_nsec d),
       scheduleCycleCounter = dg_data d 12, txFramesCounter = dg_data d 16, rxFramesCounter = dg_data d 20,
       ingressWindowClosedFlags = dg_data d 24, ingressWindowClosedCounter = words 28,
       noFrameReceivedFlags = dg_data d 92, noFrameReceivedCounter = words 96,
       recoveryFlags = dg_data d 160, recoveryCounter = words 164,
       additionalFilterMismatchFlags = dg_data d 228, additionalFilterMismatchCounter = words 232\<rparr>)"

lemma convert_diag_bytes:
  assumes "- (2 ^ 63) \<le> dg_sec d" "dg_sec d < 2 ^ 63"
  shows "convert_diag2unpacked (diag_bytes d) = library_diag d"
proof -
  have "le_val (take 8 (diag_bytes d)) = unat (word_of_int (dg_sec d) :: u64)"
    using unsigned_less [of "word_of_int (dg_sec d) :: u64", where ?'a = nat]
    by (simp add: diag_bytes_def le_val_to_le del: upt_rec_numeral)
  moreover have "word_of_nat (unat v) = v" for v :: u64 by simp
  ultimately have "sint (word_of_nat (le_val (take 8 (diag_bytes d))) :: u64) = sint (word_of_int (dg_sec d) :: u64)"
    by (simp only:)
  also have "\<dots> = dg_sec d" using assms by (simp add: sint_sbintrunc' signed_take_bit_int_eq_self)
  finally have sec: "sint (word_of_nat (le_val (take 8 (diag_bytes d))) :: u64) = dg_sec d" .
  have nsec: "diag_word (diag_bytes d) 8 = dg_nsec d"
    by (simp add: diag_word_def diag_bytes_def del: upt_rec_numeral)
  show ?thesis
    unfolding convert_diag2unpacked_def library_diag_def Let_def sec nsec
    by (simp add: diag_word_at diag_words_at del: upt_rec_numeral)
qed

text \<open>
  C13: The diagnostics of a module that the driver returns arrive in the library field by field: the
  packed structure of 296 bytes is unpacked into the same time, counters and flags, and an error of
  the driver is reported as NULL.
\<close>

theorem diagnostics_reach_library:
  assumes "diagnostics_read b 0 296 ks = Some (n, d, ks')"
    and "env_pread (st_env s) (st_hw s) (module_file DIAG_GROUP ''diagnostics'' b) 296 0 =
      (case d of None \<Rightarrow> Inl n | Some d \<Rightarrow> Inr (diag_bytes d))"
    and "0 \<le> env_open (st_env s) (module_file DIAG_GROUP ''diagnostics'' b)" "\<And>p. env_alloc (st_env s) p"
    and "\<And>d'. d = Some d' \<Longrightarrow> - (2 ^ 63) \<le> dg_sec d' \<and> dg_sec d' < 2 ^ 63"
  shows "\<exists>s'. status_read_diagnostics b s = Some (map_option library_diag d, s')"
  using assms convert_diag_bytes
  by (auto simp: status_read_diagnostics_def c_asprintf_def acm_zalloc_def read_buffer_sysfs_item_def split: option.splits)

text \<open>A module whose registers read zero while all its counters were seven: nothing is added.\<close>

definition ex_diag_kacm :: kacm where
  "ex_diag_kacm = ex_kacm\<lparr>k_env := ex_kenv\<lparr>rd32 := (\<lambda>_ _ _. 0), clear_on_read := False\<rparr>,
     k_bypass := (\<lambda>_. init_bypass\<lparr>bp_diag := \<lparr>dg_sec = 0, dg_nsec = 0, dg_data = (\<lambda>_. 7)\<rparr>\<rparr>)\<rparr>"

definition quiet_diag :: "kacm \<Rightarrow> bool" where
  "quiet_diag s = (k_env s = k_env ex_diag_kacm \<and> dg_data (bp_diag (k_bypass s 0)) = (\<lambda>_. 7) \<and> dg_sec (bp_diag (k_bypass s 0)) = 0)"

lemma ioread_zero:
  "rd32 (k_env s) = (\<lambda>_ _ _. 0) \<Longrightarrow> \<exists>h. ioread32_words r off n s = (replicate n 0, s\<lparr>k_io := h\<rparr>)"
proof (induction n arbitrary: off s)
  case 0
  have "s = s\<lparr>k_io := k_io s\<rparr>" by simp
  then show ?case by (auto intro: exI [of _ "k_io s"])
next
  case (Suc n)
  from Suc.IH [of "log_io (R32 r off) s" "off + 4"] Suc.prems
  obtain h where "ioread32_words r (off + 4) n (log_io (R32 r off) s) = (replicate n 0, s\<lparr>k_io := h\<rparr>)"
    by (auto simp: log_io_def)
  with Suc.prems show ?case by (auto simp: readl_def)
qed

lemma acculmulate_zero: "acculmulate_value m x 0 = x" if "m \<noteq> 0"
proof -
  have "bit m (ffs_kernel m)" using that ffs_kernel_bits [of m] by blast
  then have "bit (drop_bit (ffs_kernel m) m) 0" by (simp add: bit_simps)
  then have "drop_bit (ffs_kernel m) m \<noteq> 0" by auto
  then show ?thesis by (simp add: acculmulate_value_def Let_def)
qed

lemma acculmulate_zeros: "m \<noteq> 0 \<Longrightarrow> acculmulate_values m off (replicate n 0) d = d"
  by (induction n arbitrary: off d) (simp_all add: acculmulate_zero)

lemma quiet_env:
  "quiet_diag s \<Longrightarrow> rd32 (k_env s) = (\<lambda>_ _ _. 0) \<and> bypass_size 0 s = 0x100000 \<and> k_ptp (k_env s) = (\<lambda>_. 1000000000)"
  by (simp add: quiet_diag_def ex_diag_kacm_def ex_kacm_def ex_kenv_def bypass_size_def)

lemma quiet_counters:
  assumes q: "quiet_diag s" and acc: "dh_read acc = Acculmulate" "dh_mask acc \<noteq> 0" "dh_regoffs acc mod 4 = 0"
    "dh_regoffs acc + dh_count acc * 4 < 0x1000"
  shows "\<exists>s'. diag_read 0 acc s = Some s' \<and> quiet_diag s'"
proof -
  obtain h where "ioread32_words (R_Bypass 0) (0xE000 + dh_regoffs acc) (dh_count acc) s = (replicate (dh_count acc) 0, s\<lparr>k_io := h\<rparr>)"
    using ioread_zero quiet_env [OF q] by blast
  moreover have "is_aligned32 (0xE000 + dh_regoffs acc) (dh_count acc * 4)"
    using acc(3) by (simp add: is_aligned32_def mod_add_eq [symmetric])
  ultimately show ?thesis
    using q acc quiet_env [OF q]
    by (simp add: diag_read_def bypass_diag_acculmulate_def bypass_block_read_direct_def acm_ioread32_copy_def
        set_diag_def upd_bypass_def acculmulate_zeros quiet_diag_def)
qed

lemma quiet_flags:
  assumes "quiet_diag s" "dh_read acc = Or_flags \<or> dh_read acc = Or_no_frames_received"
  shows "\<exists>s'. diag_read 0 acc s = Some s' \<and> quiet_diag s'"
  using assms quiet_env [OF assms(1)]
  by (auto simp: diag_read_def bypass_diag_or_def bypass_diag_or_no_frames_received_def bypass_status_area_read_def
      bypass_area_read_def readl_def log_io_def set_diag_def upd_bypass_def diag_or_def quiet_diag_def fun_upd_idem_iff)

lemma quiet_time:
  assumes "quiet_diag s" "dh_read acc = Timestamp"
  shows "\<exists>s'. diag_read 0 acc s = Some s' \<and> quiet_diag s'"
  using assms quiet_env [OF assms(1)]
  by (simp add: diag_read_def bypass_diag_timestamp_def read_diag_timestamp.simps bypass_fixup_diag_timestamp_def
      scheduler_ktime_get_ptp_def ktime_to_timespec64_def fixup_seconds_def bypass_status_area_read_def
      bypass_area_read_def readl_def log_io_def set_diag_def upd_bypass_def quiet_diag_def bypass_size_def)

lemma quiet_access:
  assumes "quiet_diag s" "acc \<in> set bypass_diag_access" shows "\<exists>s'. diag_read 0 acc s = Some s' \<and> quiet_diag s'"
proof -
  have "GENMASK 7 0 = (0xFF :: u32)" "GENMASK 15 0 = (0xFFFF :: u32)" by (simp_all add: GENMASK_def mask_eq_exp_minus_1)
  then have "dh_read acc = Acculmulate \<and> dh_mask acc \<noteq> 0 \<and> dh_regoffs acc mod 4 = 0 \<and> dh_regoffs acc + dh_count acc * 4 < 0x1000 \<or>
      dh_read acc = Or_flags \<or> dh_read acc = Or_no_frames_received \<or> dh_read acc = Timestamp"
    using assms(2) by (auto simp: bypass_diag_access_def cycle_counter_access_def no_frame_received_access_def diag_access_def)
  then show ?thesis
    using quiet_counters [OF assms(1), of acc] quiet_flags [OF assms(1), of acc] quiet_time [OF assms(1), of acc] by argo
qed

lemma quiet_accesses:
  "quiet_diag s \<Longrightarrow> set as \<subseteq> set bypass_diag_access \<Longrightarrow> \<exists>s'. foreach_upd (diag_read 0) as s = Some s' \<and> quiet_diag s'"
proof (induction as arbitrary: s)
  case (Cons a as)
  then obtain t where "diag_read 0 a s = Some t" "quiet_diag t" using quiet_access [of s a] by auto
  with Cons.IH [of t] Cons.prems show ?case by simp
qed simp

lemma quiet_diagnostics:
  "\<exists>d ks'. diagnostics_read 0 0 296 ex_diag_kacm = Some (296, Some d, ks') \<and> dg_data d = (\<lambda>_. 7) \<and> dg_sec d = 0"
proof -
  have "quiet_diag (log_io Lock_intr ex_diag_kacm)"
    by (simp add: quiet_diag_def log_io_def ex_diag_kacm_def)
  then obtain t where t: "foreach_upd (diag_read 0) bypass_diag_access (log_io Lock_intr ex_diag_kacm) = Some t" "quiet_diag t"
    using quiet_accesses by blast
  have "cycle_counter_access \<in> set bypass_diag_access" by (simp add: bypass_diag_access_def)
  with t(2) obtain u where u: "diag_read 0 cycle_counter_access t = Some u" "quiet_diag u"
    using quiet_access by blast
  have "bypass_diag_update 0 (log_io Lock_intr ex_diag_kacm) = Some (0, u)"
    using t u by (simp add: bypass_diag_update_def log_io_def ex_diag_kacm_def ex_kacm_def ex_kenv_def numeral_3_eq_3 quiet_diag_def)
  moreover have "lock_intr ex_diag_kacm = (0, log_io Lock_intr ex_diag_kacm)"
    by (simp add: lock_intr_def ex_diag_kacm_def ex_kacm_def ex_kenv_def)
  moreover have "\<not> clear_on_read (k_env u)" using u(2) by (simp add: quiet_diag_def ex_diag_kacm_def)
  ultimately show ?thesis
    using u(2) by (simp add: diagnostics_read_def bypass_diag_read_def quiet_diag_def)
qed

lemma diagnostics_reach_library_witness:
  "\<exists>s d s'. status_read_diagnostics 0 s = Some (Some d, s') \<and> rxFramesCounter d = 7 \<and> recoveryCounter d = replicate 16 7 \<and> dia_tv_sec d = 0"
proof -
  obtain d ks' where d: "diagnostics_read 0 0 296 ex_diag_kacm = Some (296, Some d, ks')" "dg_data d = (\<lambda>_. 7)" "dg_sec d = 0"
    using quiet_diagnostics by blast
  let ?s = "ex_empty\<lparr>st_env := ex_env\<lparr>env_pread := (\<lambda>_ _ _ _. Inr (diag_bytes d))\<rparr>\<rparr>"
  have "\<exists>s'. status_read_diagnostics 0 ?s = Some (map_option library_diag (Some d), s')"
    by (rule diagnostics_reach_library [OF d(1)]) (simp_all add: ex_env_def d(3))
  then show ?thesis by (auto simp: library_diag_def d Let_def map_replicate_const intro!: exI)
qed

section \<open>Saturation\<close>

text \<open>The counter of a register, and how often it can count.\<close>

definition counter_of :: "u32 \<Rightarrow> u32 \<Rightarrow> nat" where
  "counter_of m raw = unat (drop_bit (ffs_kernel m) (raw AND m))"

definition counter_limit :: "u32 \<Rightarrow> nat" where
  "counter_limit m = unat (drop_bit (ffs_kernel m) m)"

lemma acculmulate_value_saturates:
  "unat (acculmulate_value m data raw) =
     (if counter_of m raw = counter_limit m then 2 ^ 32 - 1 else min (2 ^ 32 - 1) (unat data + counter_of m raw))"
proof -
  have "unat data < 2 ^ 32" using unsigned_less [of data, where ?'a = nat] by simp
  moreover have "data = 0xFFFFFFFF \<longleftrightarrow> unat data = 2 ^ 32 - 1" by (simp add: word_unat_eq_iff)
  moreover have "unat v < 2 ^ 32" "data + v < data \<longleftrightarrow> 2 ^ 32 \<le> unat data + unat v"
    "\<not> data + v < data \<Longrightarrow> unat (data + v) = unat data + unat v" for v
  proof -
    show v: "unat v < 2 ^ 32" using unsigned_less [of v, where ?'a = nat] by simp
    have sum: "unat (data + v) = (unat data + unat v) mod 2 ^ 32" by (simp add: unat_word_ariths)
    show less: "data + v < data \<longleftrightarrow> 2 ^ 32 \<le> unat data + unat v"
    proof (cases "unat data + unat v < 2 ^ 32")
      case False
      then have "(unat data + unat v) mod 2 ^ 32 = unat data + unat v - 2 ^ 32"
        using v \<open>unat data < 2 ^ 32\<close> by (subst le_mod_geq) auto
      then show ?thesis using False v by (simp add: word_less_nat_alt sum)
    qed (simp add: word_less_nat_alt sum)
    show "\<not> data + v < data \<Longrightarrow> unat (data + v) = unat data + unat v" using less sum by simp
  qed
  ultimately show ?thesis
    by (auto simp: acculmulate_value_def counter_of_def counter_limit_def Let_def word_unat_eq_iff min_def)
qed

text \<open>The values of an array go to their counters one by one.\<close>

lemma acculmulate_values_eq:
  "acculmulate_values m off raws d p =
     (if \<exists>i<length raws. p = off + 4 * i then acculmulate_value m (d p) (raws ! ((p - off) div 4)) else d p)"
proof (induction m off raws d arbitrary: p rule: acculmulate_values.induct)
  case (2 m off raw raws d)
  have "(\<exists>i<Suc (length raws). p = off + 4 * i) \<longleftrightarrow> p = off \<or> (\<exists>i<length raws. p = off + 4 + 4 * i)"
    by (auto simp: less_Suc_eq_0_disj)
  moreover have "(p - off) div 4 = Suc ((p - (off + 4)) div 4)" if "p = off + 4 + 4 * i" for i
    using that by simp
  ultimately show ?case
    by (auto simp: 2)
qed simp

text \<open>
  C31: Reading an array of counters of the hardware, which restart at zero when they are read, adds
  every value to its counter of the diagnostic data with saturation: the counter becomes the
  smaller of the exact sum and 2 ^ 32 - 1, and 2 ^ 32 - 1 when the counter of the hardware was at its
  limit. Nothing else changes: the state is the one after the read with other counters in the data
  of this module, and the counters behind and before the array are the same.
\<close>

theorem diagnostic_counters_saturate:
  assumes "bypass_block_read_direct b (ACM_BYPASS_STATUS_AREA + dh_regoffs acc) (dh_count acc * 4) s = (0, Some raws, t)"
  shows "\<exists>f. bypass_diag_acculmulate b acc s = Some (t\<lparr>k_bypass := (k_bypass t)(b :=
      (k_bypass t b)\<lparr>bp_diag := (bp_diag (k_bypass t b))\<lparr>dg_data := f\<rparr>\<rparr>)\<rparr>) \<and>
    (\<forall>i < length raws. unat (f (dh_dataoffs acc + 4 * i)) =
       (if counter_of (dh_mask acc) (raws ! i) = counter_limit (dh_mask acc) then 2 ^ 32 - 1
        else min (2 ^ 32 - 1) (unat (dg_data (bp_diag (k_bypass t b)) (dh_dataoffs acc + 4 * i)) + counter_of (dh_mask acc) (raws ! i)))) \<and>
    (\<forall>p. (\<forall>i < length raws. p \<noteq> dh_dataoffs acc + 4 * i) \<longrightarrow> f p = dg_data (bp_diag (k_bypass t b)) p)"
proof -
  let ?f = "acculmulate_values (dh_mask acc) (dh_dataoffs acc) raws (dg_data (bp_diag (k_bypass t b)))"
  have "bypass_diag_acculmulate b acc s = Some (t\<lparr>k_bypass := (k_bypass t)(b :=
      (k_bypass t b)\<lparr>bp_diag := (bp_diag (k_bypass t b))\<lparr>dg_data := ?f\<rparr>\<rparr>)\<rparr>)"
    using assms by (simp add: bypass_diag_acculmulate_def set_diag_def upd_bypass_def)
  moreover have "?f (dh_dataoffs acc + 4 * i) =
      acculmulate_value (dh_mask acc) (dg_data (bp_diag (k_bypass t b)) (dh_dataoffs acc + 4 * i)) (raws ! i)"
    if "i < length raws" for i
    using that by (auto simp: acculmulate_values_eq)
  moreover have "?f p = dg_data (bp_diag (k_bypass t b)) p" if "\<forall>i < length raws. p \<noteq> dh_dataoffs acc + 4 * i" for p
    using that by (auto simp: acculmulate_values_eq)
  ultimately show ?thesis
    by (intro exI [of _ ?f]) (simp add: acculmulate_value_saturates)
qed

text \<open>Three counts come to a counter that is one below its limit, and to one that holds seven.\<close>

lemma diagnostic_counters_saturate_witness:
  "\<exists>s'. bypass_diag_acculmulate 0 (diag_access 0x614 0xFF 28 Acculmulate 2)
       (ex_kacm\<lparr>k_env := ex_kenv\<lparr>rd32 := (\<lambda>_ _ _. 3)\<rparr>,
          k_bypass := (\<lambda>_. init_bypass\<lparr>bp_diag := \<lparr>dg_sec = 0, dg_nsec = 0, dg_data = (\<lambda>_. 7)(28 := 0xFFFFFFFE)\<rparr>\<rparr>)\<rparr>) = Some s' \<and>
     unat (dg_data (bp_diag (k_bypass s' 0)) 28) = 2 ^ 32 - 1 \<and> unat (dg_data (bp_diag (k_bypass s' 0)) 32) = 10"
proof -
  let ?acc = "diag_access 0x614 0xFF 28 Acculmulate 2"
  let ?s = "ex_kacm\<lparr>k_env := ex_kenv\<lparr>rd32 := (\<lambda>_ _ _. 3)\<rparr>,
          k_bypass := (\<lambda>_. init_bypass\<lparr>bp_diag := \<lparr>dg_sec = 0, dg_nsec = 0, dg_data = (\<lambda>_. 7)(28 := 0xFFFFFFFE)\<rparr>\<rparr>)\<rparr>"
  have "ffs_kernel (0xFF :: u32) = 0" using ffs_kernel_bits(2) [of "0xFF :: u32" 0] by auto
  then have c: "counter_of 0xFF 3 = 3" "counter_limit 0xFF = 255" by (simp_all add: counter_of_def counter_limit_def)
  obtain t where t: "bypass_block_read_direct 0 (ACM_BYPASS_STATUS_AREA + dh_regoffs ?acc) (dh_count ?acc * 4) ?s = (0, Some [3, 3], t)"
    "k_bypass t = k_bypass ?s"
    by (auto simp: bypass_block_read_direct_def acm_ioread32_copy_def is_aligned32_def diag_access_def readl_def log_io_def
        bypass_size_def ex_kacm_def ex_kenv_def numeral_2_eq_2)
  from diagnostic_counters_saturate [OF t(1)]
  obtain f where s': "bypass_diag_acculmulate 0 ?acc ?s = Some (t\<lparr>k_bypass := (k_bypass t)(0 :=
      (k_bypass t 0)\<lparr>bp_diag := (bp_diag (k_bypass t 0))\<lparr>dg_data := f\<rparr>\<rparr>)\<rparr>)"
    and v: "\<And>i. i < length [3, 3 :: u32] \<Longrightarrow> unat (f (dh_dataoffs ?acc + 4 * i)) =
       (if counter_of (dh_mask ?acc) ([3, 3] ! i) = counter_limit (dh_mask ?acc) then 2 ^ 32 - 1
        else min (2 ^ 32 - 1) (unat (dg_data (bp_diag (k_bypass t 0)) (dh_dataoffs ?acc + 4 * i)) + counter_of (dh_mask ?acc) ([3, 3] ! i)))"
    by blast
  have "unat (f 28) = 2 ^ 32 - 1" "unat (f 32) = 10"
    using v [of 0] v [of 1] by (simp_all add: t(2) c diag_access_def)
  with s' show ?thesis by simp
qed

end
