(* ===== verification/Acm_Drv_Recovery_Theorems.thy ===== *)
theory Acm_Drv_Recovery_Theorems
  imports Acm_Drv_Frame Acm_Drv_Examples
begin

text \<open>
  The base recovery of the redundancy table: while no frame comes, the timeout of an entry fires
  once in every period of runs of the recovery work, never earlier and never later, whatever the
  other entries and the individual recoveries do in these runs.
\<close>

text \<open>
  The register \<^verbatim>\<open>TAKE_ANY\<close> is shared by all entries. The opening of an entry is recognised in the
  history by the write to this register that follows the read of this register and that of the
  sequence number of the entry; the bit of the entry is set in what is written.
\<close>

definition opens :: "nat \<Rightarrow> io \<Rightarrow> io list \<Rightarrow> bool" where
  "opens idx e h = (case e of
     W32 r off v \<Rightarrow> r = R_Redundancy \<and> off = ACM_REDUN_COMMON + BASE_RECOVERY_TAKE_ANY \<and> bit v idx \<and>
       take 2 h = [R32 R_Redundancy (ACM_REDUN_COMMON + BASE_RECOVERY_TAKE_ANY), R32 R_Redundancy (ACM_REDUN_INTSEQNNUMTAB + idx * 4)]
   | _ \<Rightarrow> False)"

fun recovery_count :: "nat \<Rightarrow> io list \<Rightarrow> nat" where
  "recovery_count idx [] = 0"
| "recovery_count idx (e # h) = (if opens idx e h then 1 else 0) + recovery_count idx h"

text \<open>
  The period in ticks is the timeout rounded up, as the driver computes it with 32 bit. When this
  gives zero, the counter of the remaining ticks wraps.
\<close>

definition recovery_period :: "u32 \<Rightarrow> kacm \<Rightarrow> nat" where
  "recovery_period timeout s = (let n = unat ((timeout * recovery_ticks_per_sec (k_env s) + 999) div 1000) in
     if n = 0 then 2 ^ 32 else n)"

text \<open>No frame comes: the sequence number of the entry does not change.\<close>

definition no_frames :: "nat \<Rightarrow> u16 \<Rightarrow> kenv \<Rightarrow> bool" where
  "no_frames idx q e = (\<forall>h. ucast (rd32 e h R_Redundancy (0x600 + idx * 4) AND GENMASK 15 0) = q)"

text \<open>The entry waits: it fires in the run in which \<open>ticks_left\<close> is one.\<close>

definition ticks_left :: "base_recovery_data \<Rightarrow> nat" where
  "ticks_left d = (if remaining_ticks (br_data d) = 0 then 2 ^ 32 else unat (remaining_ticks (br_data d)))"

definition waits_for :: "nat \<Rightarrow> u32 \<Rightarrow> u16 \<Rightarrow> kacm \<Rightarrow> bool" where
  "waits_for idx timeout q s = (frer_seq_rcvy_reset_msec (br_data (base_of idx s)) = timeout \<and>
     br_intseqnum (base_of idx s) = q \<and> no_frames idx q (k_env s) \<and> 0x680 < redundancy_size s)"

lemma ticks_left_reset:
  "frer_seq_rcvy_reset_msec d = timeout \<Longrightarrow> br_data b = reset_ticks (recovery_ticks_per_sec (k_env s)) d \<Longrightarrow>
     ticks_left b = recovery_period timeout s"
  by (simp add: ticks_left_def reset_ticks_def recovery_period_def Let_def unat_eq_zero)

lemma ticks_left_pos: "0 < ticks_left d"
  by (simp add: ticks_left_def unat_gt_0)

lemma ticks_left_dec:
  assumes "br_data b = (br_data d)\<lparr>remaining_ticks := remaining_ticks (br_data d) - 1\<rparr>"
  shows "remaining_ticks (br_data b) = 0 \<longleftrightarrow> ticks_left d = 1"
    "remaining_ticks (br_data b) \<noteq> 0 \<Longrightarrow> ticks_left b = ticks_left d - 1"
proof -
  define r where "r = remaining_ticks (br_data d)"
  have u: "unat (r - 1) = (if r = 0 then 2 ^ 32 - 1 else unat r - 1)"
    by (cases "r = 0") (simp_all add: unat_minus_one unsigned_minus_1_eq_mask mask_eq_exp_minus_1)
  have n: "r \<noteq> 0 \<Longrightarrow> 0 < unat r" by (simp add: unat_gt_0)
  show "remaining_ticks (br_data b) = 0 \<longleftrightarrow> ticks_left d = 1"
    using u n by (auto simp: assms ticks_left_def r_def [symmetric] unat_eq_zero [symmetric] split: if_splits)
  show "remaining_ticks (br_data b) \<noteq> 0 \<Longrightarrow> ticks_left b = ticks_left d - 1"
    using u n by (auto simp: assms ticks_left_def r_def [symmetric])
qed

section \<open>What the other recoveries leave alone\<close>

text \<open>The accesses without a write to the register \<^verbatim>\<open>TAKE_ANY\<close>.\<close>

definition not_take_any :: "io \<Rightarrow> bool" where
  "not_take_any e = (case e of W32 r off v \<Rightarrow> r \<noteq> R_Redundancy \<or> off \<noteq> 8 | _ \<Rightarrow> True)"

lemma count_other: "(\<forall>e\<in>set ev. not_take_any e) \<Longrightarrow> recovery_count idx (ev @ h) = recovery_count idx h"
  by (induction ev) (auto simp: opens_def not_take_any_def split: io.splits)

lemma count_emits: "emits not_take_any s s' \<Longrightarrow> recovery_count idx (k_io s') = recovery_count idx (k_io s)"
  by (auto simp: emits_def count_other)

definition leaves :: "nat \<Rightarrow> kacm \<Rightarrow> kacm \<Rightarrow> bool" where
  "leaves idx s s' = (k_env s' = k_env s \<and> base_of idx s' = base_of idx s \<and>
     rc_interval (k_recovery s') = rc_interval (k_recovery s) \<and> recovery_count idx (k_io s') = recovery_count idx (k_io s))"

lemma leaves_refl: "leaves idx s s"
  by (simp add: leaves_def)

lemma leaves_trans: "leaves idx s t \<Longrightarrow> leaves idx t u \<Longrightarrow> leaves idx s u"
  by (simp add: leaves_def)

lemma leaves_fold: "(\<And>x s. x \<in> set xs \<Longrightarrow> leaves idx s (f x s)) \<Longrightarrow> leaves idx s (fold f xs s)"
proof (induction xs arbitrary: s)
  case (Cons x xs)
  then show ?case by (auto intro: leaves_trans)
qed (simp add: leaves_refl)

lemma leaves_waits: "leaves idx s s' \<Longrightarrow> waits_for idx timeout q s' = waits_for idx timeout q s"
  by (simp add: leaves_def waits_for_def redundancy_size_def)

lemma leaves_individual: "leaves idx s (individual_recovery_process md rule s)"
  by (simp add: leaves_def individual_recovery_process_def individual_recovery_no_frame_received_def
      individual_recovery_receive_timeout_def bypass_recovery_no_frame_received_def bypass_recovery_take_any_def
      bypass_diag_or_no_frames_received_def bypass_status_area_read_def bypass_control_area_read_def
      bypass_control_area_write_def set_diag_def bypass_area_read_def bypass_area_write_def readl_def writel_def log_io_def upd_individual_def upd_bypass_def
      opens_def Let_def)

text \<open>Another entry reads its own sequence number before it writes to the register.\<close>

lemma leaves_other_base:
  assumes "j \<noteq> idx" "j < 32" "0x680 < redundancy_size s"
  shows "leaves idx s (base_recovery_process j s)"
  using assms
  by (auto simp: leaves_def base_recovery_process_def base_recovery_receive_timeout_def read_intseqnum_def
      redundancy_area_read_def redundancy_area_write_def redundancy_size_def readl_def writel_def log_io_def upd_base_def
      opens_def Let_def)

lemma base_process_env:
  "k_env (base_recovery_process j s) = k_env s"
  "rc_interval (k_recovery (base_recovery_process j s)) = rc_interval (k_recovery s)"
  by (simp_all add: base_recovery_process_def base_recovery_receive_timeout_def read_intseqnum_def redundancy_area_read_def
      redundancy_area_write_def readl_def writel_def log_io_def upd_base_def Let_def)

lemma leaves_other_bases:
  assumes "idx \<notin> set js" "\<forall>j\<in>set js. j < 32" "0x680 < redundancy_size s"
  shows "leaves idx s (fold base_recovery_process js s)"
  using assms
proof (induction js arbitrary: s)
  case (Cons j js)
  have "0x680 < redundancy_size (base_recovery_process j s)"
    using Cons.prems(3) by (simp add: redundancy_size_def base_process_env)
  with Cons leaves_other_base [of j idx s] show ?case by (auto intro: leaves_trans)
qed (simp add: leaves_refl)

section \<open>One tick, one run\<close>

lemma base_tick:
  assumes "waits_for idx timeout q s" "0 < timeout" "idx < 32"
  defines "s' \<equiv> base_recovery_process idx s"
  shows "waits_for idx timeout q s'"
    "ticks_left (base_of idx s') = (if ticks_left (base_of idx s) = 1 then recovery_period timeout s else ticks_left (base_of idx s) - 1)"
    "recovery_count idx (k_io s') = recovery_count idx (k_io s) + (if ticks_left (base_of idx s) = 1 then 1 else 0)"
proof -
  let ?R = "R32 R_Redundancy (0x600 + idx * 4)" and ?b = "base_of idx s"
  have size: "0x680 < k_size (k_env s) R_Redundancy" and t: "frer_seq_rcvy_reset_msec (br_data ?b) = timeout"
    and q: "br_intseqnum ?b = q" and nf: "no_frames idx q (k_env s)"
    using assms(1) by (simp_all add: waits_for_def redundancy_size_def)
  have read: "read_intseqnum idx s = (q, log_io ?R s)"
    using nf size assms(3) by (simp add: read_intseqnum_def redundancy_area_read_def redundancy_size_def readl_def no_frames_def)
  define d where "d = ?b\<lparr>br_data := (br_data ?b)\<lparr>remaining_ticks := remaining_ticks (br_data ?b) - 1\<rparr>\<rparr>"
  define v where "v = rd32 (k_env s) (?R # k_io s) R_Redundancy 8"
  have s': "s' = (if remaining_ticks (br_data d) \<noteq> 0 then upd_base idx (\<lambda>_. d) (log_io ?R s)
     else upd_base idx (\<lambda>_. d\<lparr>br_intseqnum := q, br_data := reset_ticks (recovery_ticks_per_sec (k_env s)) (br_data d)\<rparr>)
       (s\<lparr>k_io := [W32 R_Redundancy 8 (v OR bit_of idx), R32 R_Redundancy 8, ?R] @ k_io s\<rparr>))"
    using assms(2) t q size
    by (simp add: s'_def base_recovery_process_def read d_def v_def Let_def upd_base_def log_io_def word_greater_zero_iff
        base_recovery_receive_timeout_def redundancy_area_read_def redundancy_area_write_def redundancy_size_def readl_def writel_def)
  have bit: "bit (v OR bit_of idx) idx" using assms(3) by (simp add: bit_of_def bit_simps)
  have dec: "remaining_ticks (br_data d) = 0 \<longleftrightarrow> ticks_left ?b = 1"
    "remaining_ticks (br_data d) \<noteq> 0 \<Longrightarrow> ticks_left d = ticks_left ?b - 1"
    by (rule ticks_left_dec; simp add: d_def)+
  have reset: "ticks_left (d\<lparr>br_intseqnum := q, br_data := reset_ticks (recovery_ticks_per_sec (k_env s)) (br_data d)\<rparr>) = recovery_period timeout s"
    by (rule ticks_left_reset [of "br_data d"]) (simp_all add: d_def t)
  have data: "frer_seq_rcvy_reset_msec (br_data d) = timeout" "br_intseqnum d = q"
    "frer_seq_rcvy_reset_msec (reset_ticks n (br_data d)) = timeout" for n
    by (simp_all add: d_def t q reset_ticks_def)
  show "waits_for idx timeout q s'"
    using nf size data unfolding s' by (simp add: waits_for_def upd_base_def log_io_def redundancy_size_def)
  show "ticks_left (base_of idx s') = (if ticks_left ?b = 1 then recovery_period timeout s else ticks_left ?b - 1)"
    using dec reset unfolding s' by (simp add: upd_base_def log_io_def)
  show "recovery_count idx (k_io s') = recovery_count idx (k_io s) + (if ticks_left ?b = 1 then 1 else 0)"
    using dec(1) bit unfolding s' by (simp add: upd_base_def log_io_def opens_def)
qed

lemma work_run:
  assumes "waits_for idx timeout q s" "0 < timeout" "idx < 32" "0 < rc_interval (k_recovery s)"
  defines "s' \<equiv> recovery_work s"
  shows "waits_for idx timeout q s'" "k_env s' = k_env s" "rc_interval (k_recovery s') = rc_interval (k_recovery s)"
    "ticks_left (base_of idx s') = (if ticks_left (base_of idx s) = 1 then recovery_period timeout s else ticks_left (base_of idx s) - 1)"
    "recovery_count idx (k_io s') = recovery_count idx (k_io s) + (if ticks_left (base_of idx s) = 1 then 1 else 0)"
proof -
  define s0 where "s0 = s\<lparr>k_recovery := (k_recovery s)\<lparr>rc_work := None\<rparr>\<rparr>"
  define s1 where "s1 = fold (\<lambda>m s. fold (individual_recovery_process m) [0..<ACMDRV_BYPASS_NR_RULES] s) [0..<ACMDRV_BYPASS_MODULES_COUNT] s0"
  define s2 where "s2 = fold base_recovery_process [0..<idx] s1"
  define s3 where "s3 = base_recovery_process idx s2"
  define s4 where "s4 = fold base_recovery_process [Suc idx..<32] s3"
  have upt: "[0..<32] = [0..<idx] @ idx # [Suc idx..<32]"
    using assms(3) by (metis le0 less_imp_le upt_add_eq_append upt_conv_Cons le_add_diff_inverse add_0)
  have s': "s' = s4\<lparr>k_recovery := (k_recovery s4)\<lparr>rc_work := Some (nsecs_to_jiffies (k_env s4) (rc_interval (k_recovery s4)))\<rparr>\<rparr>"
    using assms(4) by (simp add: s'_def recovery_work_def recovery_process_def upt s4_def s3_def s2_def s1_def s0_def Let_def)
  have l0: "leaves idx s s0" by (simp add: leaves_def s0_def)
  have l1: "leaves idx s0 s1" unfolding s1_def by (intro leaves_fold leaves_individual)
  have w1: "waits_for idx timeout q s1" using assms(1) leaves_waits [OF l0] leaves_waits [OF l1] by simp
  then have l2: "leaves idx s1 s2" unfolding s2_def using assms(3) by (intro leaves_other_bases) (auto simp: waits_for_def)
  have w2: "waits_for idx timeout q s2" using w1 leaves_waits [OF l2] by simp
  note tick = base_tick [OF w2 assms(2,3), folded s3_def]
  have l4: "leaves idx s3 s4" unfolding s4_def using tick(1) by (intro leaves_other_bases) (auto simp: waits_for_def)
  have e: "k_env s3 = k_env s2" by (simp add: s3_def base_process_env(1))
  have l: "k_env s2 = k_env s" "base_of idx s2 = base_of idx s" "recovery_count idx (k_io s2) = recovery_count idx (k_io s)"
    using leaves_trans [OF l0 leaves_trans [OF l1 l2]] by (simp_all add: leaves_def)
  have p: "recovery_period timeout s2 = recovery_period timeout s" by (simp add: recovery_period_def l(1))
  have "leaves idx s4 s'" by (simp add: leaves_def s')
  then have l5: "leaves idx s3 s'" by (rule leaves_trans [OF l4])
  show "waits_for idx timeout q s'" using tick(1) leaves_waits [OF l5] by simp
  show "k_env s' = k_env s" using l5 e l(1) by (simp add: leaves_def)
  show "rc_interval (k_recovery s') = rc_interval (k_recovery s)"
    using l5 leaves_trans [OF l0 leaves_trans [OF l1 l2]] by (simp add: leaves_def s3_def base_process_env(2))
  show "ticks_left (base_of idx s') = (if ticks_left (base_of idx s) = 1 then recovery_period timeout s else ticks_left (base_of idx s) - 1)"
    using tick(2) l5 l(2) p by (simp add: leaves_def)
  show "recovery_count idx (k_io s') = recovery_count idx (k_io s) + (if ticks_left (base_of idx s) = 1 then 1 else 0)"
    using tick(3) l5 l(2,3) by (simp add: leaves_def)
qed

lemma Suc_mod_div:
  assumes "0 < (n :: nat)"
  shows "(if n - k mod n = 1 then n else n - k mod n - 1) = n - Suc k mod n"
    "Suc k div n = k div n + (if n - k mod n = 1 then 1 else 0)"
proof -
  have "k mod n < n" using assms by simp
  then show "(if n - k mod n = 1 then n else n - k mod n - 1) = n - Suc k mod n"
    "Suc k div n = k div n + (if n - k mod n = 1 then 1 else 0)"
    by (auto simp: mod_Suc div_Suc)
qed

lemma work_runs:
  assumes "waits_for idx timeout q s" "0 < timeout" "idx < 32" "0 < rc_interval (k_recovery s)"
    and "ticks_left (base_of idx s) = recovery_period timeout s"
  defines "n \<equiv> recovery_period timeout s" and "t \<equiv> \<lambda>k. (recovery_work ^^ k) s"
  shows "waits_for idx timeout q (t k) \<and> 0 < rc_interval (k_recovery (t k)) \<and> k_env (t k) = k_env s \<and>
    ticks_left (base_of idx (t k)) = n - k mod n \<and> recovery_count idx (k_io (t k)) = recovery_count idx (k_io s) + k div n"
proof (induction k)
  case (Suc k)
  have n: "0 < n" using assms(5) ticks_left_pos [of "base_of idx s"] by (simp add: n_def)
  have "recovery_period timeout (t k) = n" using Suc by (simp add: recovery_period_def n_def)
  with work_run [of idx timeout q "t k"] Suc assms(2,3)
  have w: "waits_for idx timeout q (t (Suc k))" "0 < rc_interval (k_recovery (t (Suc k)))" "k_env (t (Suc k)) = k_env s"
    and tl: "ticks_left (base_of idx (t (Suc k))) = (if n - k mod n = 1 then n else n - k mod n - 1)"
    and rc: "recovery_count idx (k_io (t (Suc k))) =
      recovery_count idx (k_io s) + (k div n + (if n - k mod n = 1 then 1 else 0))"
    by (simp_all add: t_def)
  from w tl rc show ?case unfolding Suc_mod_div [OF n, of k] by blast
qed (use assms in simp)

lemma set_timeout_waits:
  assumes set: "redundancy_set_base_recovery_timeout idx timeout s = (0, s1)"
    and "0 < timeout" "no_frames idx q (k_env s)" "0x680 < redundancy_size s"
  shows "waits_for idx timeout q s1" "idx < 32" "k_env s1 = k_env s" "rc_interval (k_recovery s1) = rc_interval (k_recovery s)"
    "ticks_left (base_of idx s1) = recovery_period timeout s" "recovery_count idx (k_io s1) = recovery_count idx (k_io s)"
proof -
  show idx: "idx < 32"
    using set by (auto simp: redundancy_set_base_recovery_timeout_def Let_def split: if_splits)
  have s1: "s1 = set_base_recovery_timeout idx timeout (log_io Lock_intr s)"
    using set by (auto simp: redundancy_set_base_recovery_timeout_def lock_intr_def Let_def split: if_splits)
  have data: "base_of idx s1 = \<lparr>br_data = reset_ticks (recovery_ticks_per_sec (k_env s))
        ((br_data (base_of idx s))\<lparr>frer_seq_rcvy_reset_msec := timeout\<rparr>), br_intseqnum = q\<rparr>"
    and rest: "k_env s1 = k_env s" "rc_interval (k_recovery s1) = rc_interval (k_recovery s)"
      "recovery_count idx (k_io s1) = recovery_count idx (k_io s)"
    using assms(2-4) idx unfolding s1
    by (simp_all add: set_base_recovery_timeout_def redundancy_area_read_def redundancy_area_write_def readl_def writel_def
        log_io_def read_intseqnum_def redundancy_size_def no_frames_def upd_base_def opens_def Let_def)
  show "waits_for idx timeout q s1"
    using assms(3,4) by (simp add: waits_for_def data rest(1) reset_ticks_def redundancy_size_def)
  show "ticks_left (base_of idx s1) = recovery_period timeout s"
    by (rule ticks_left_reset [OF _ arg_cong [OF data, of br_data, simplified]]) simp
  show "k_env s1 = k_env s" "rc_interval (k_recovery s1) = rc_interval (k_recovery s)"
    "recovery_count idx (k_io s1) = recovery_count idx (k_io s)" by (fact rest)+
qed

text \<open>
  C32: When the timeout of an entry of the redundancy table is set and no frame comes for it, the
  recovery work, which goes through the rules of both modules and through all entries, opens this
  entry for any sequence number exactly once in every period: after k runs it has done so k div
  period times, whatever the other entries do. The period is the timeout in ticks rounded up when
  its product with the ticks of a second fits into 32 bits; otherwise it is the wrapped number,
  so that a long timeout fires too early.
\<close>

theorem base_recovery_fires_every_period:
  assumes "redundancy_set_base_recovery_timeout idx timeout s = (0, s1)" "0 < timeout"
    and "no_frames idx q (k_env s)" "0x680 < redundancy_size s" "0 < rc_interval (k_recovery s)"
  defines "ticks \<equiv> unat timeout * unat (recovery_ticks_per_sec (k_env s)) + 999"
  shows "recovery_count idx (k_io ((recovery_work ^^ k) s1)) = recovery_count idx (k_io s) + k div recovery_period timeout s \<and>
    (1000 \<le> ticks mod 2 ^ 32 \<longrightarrow> recovery_period timeout s = ticks mod 2 ^ 32 div 1000)"
proof (rule conjI)
  note w = set_timeout_waits [OF assms(1-4)]
  have "recovery_period timeout s1 = recovery_period timeout s" by (simp add: recovery_period_def w(3))
  then show "recovery_count idx (k_io ((recovery_work ^^ k) s1)) = recovery_count idx (k_io s) + k div recovery_period timeout s"
    using work_runs [OF w(1) assms(2) w(2), of k] assms(5) w(4-6) by simp
  have "unat (timeout * recovery_ticks_per_sec (k_env s) + 999) = ticks mod 2 ^ 32"
    by (simp add: ticks_def unat_word_ariths mod_add_left_eq)
  then show "1000 \<le> ticks mod 2 ^ 32 \<longrightarrow> recovery_period timeout s = ticks mod 2 ^ 32 div 1000"
    by (simp add: recovery_period_def unat_div Let_def div_eq_0_iff)
qed

text \<open>A timeout of 25 ms with 100 ticks in a second: the period is three ticks.\<close>

definition ex_recovery_kacm :: kacm where
  "ex_recovery_kacm = ex_kacm\<lparr>k_env := ex_kenv\<lparr>rd32 := (\<lambda>_ _ _. 0)\<rparr>,
     k_recovery := (k_recovery ex_kacm)\<lparr>rc_interval := 10000000\<rparr>\<rparr>"

lemma base_recovery_fires_every_period_witness:
  "\<exists>s1. redundancy_set_base_recovery_timeout 4 25 ex_recovery_kacm = (0, s1) \<and>
     recovery_count 4 (k_io ((recovery_work ^^ 2) s1)) = 0 \<and> recovery_count 4 (k_io ((recovery_work ^^ 7) s1)) = 2"
proof -
  have ex: "recovery_ticks_per_sec (k_env ex_recovery_kacm) = 100" "0x680 < redundancy_size ex_recovery_kacm"
    "recovery_count 4 (k_io ex_recovery_kacm) = 0" "no_frames 4 0 (k_env ex_recovery_kacm)"
    "0 < rc_interval (k_recovery ex_recovery_kacm)"
    by (simp_all add: ex_recovery_kacm_def ex_kacm_def ex_kenv_def redundancy_size_def no_frames_def)
  obtain s1 where s1: "redundancy_set_base_recovery_timeout 4 25 ex_recovery_kacm = (0, s1)"
    by (simp add: redundancy_set_base_recovery_timeout_def lock_intr_def ex_recovery_kacm_def ex_kacm_def ex_kenv_def)
  note fires = conjunct1 [OF base_recovery_fires_every_period [OF s1 _ ex(4,2,5)]]
    conjunct2 [OF base_recovery_fires_every_period [OF s1 _ ex(4,2,5)]]
  have p: "recovery_period 25 ex_recovery_kacm = 3" using fires(2) by (simp add: ex(1))
  have "recovery_count 4 (k_io ((recovery_work ^^ k) s1)) = k div 3" for k
    using fires(1) [of k] by (simp add: ex(3) p)
  from this [of 2] this [of 7] s1 show ?thesis by simp
qed

end
