(* ===== verification/Acm_Drv_State_Theorems.thy ===== *)
theory Acm_Drv_State_Theorems
  imports Acm_Drv_Examples
begin

text \<open>
  The states of a configuration: stopping and restarting a running configuration.
\<close>

abbreviation emergency_register :: "nat \<Rightarrow> nat" where
  "emergency_register i \<equiv> ACM_SCHEDULER_SCHED i + SCHED_CTRL_EME_DIS_CTRL"

abbreviation enable_register :: nat where
  "enable_register \<equiv> ACM_BYPASS_CONTROL_AREA + CONTROL_NGN_ENABLE"

definition schedulers_stopped :: "(nat \<Rightarrow> u16) \<Rightarrow> kacm \<Rightarrow> bool" where
  "schedulers_stopped e s = (\<forall>i<2. last16 (k_io s) R_Scheduler (emergency_register i) = Some (e i))"

definition bypasses_enabled :: "(nat \<Rightarrow> u32) \<Rightarrow> kacm \<Rightarrow> bool" where
  "bypasses_enabled v s = (\<forall>b<2. last32 (k_io s) (R_Bypass b) enable_register = Some (v b))"

text \<open>The control registers keep what is written to them, and the modules are mapped.\<close>

definition control_registers :: "kacm \<Rightarrow> bool" where
  "control_registers s = ((\<forall>i<2. plain16 (k_env s) R_Scheduler (emergency_register i)) \<and>
     (\<forall>b<2. plain32 (k_env s) (R_Bypass b) enable_register \<and> enable_register < bypass_size b s))"

lemma upt_two: "[0..<2] = [0, 1 :: nat]" by (simp add: numeral_2_eq_2)

lemma registers_apart [simp]: "ACM_SCHEDULER_SCHED (Suc 0) \<noteq> ACM_SCHEDULER_SCHED 0" "ACM_SCHEDULER_SCHED 0 \<noteq> ACM_SCHEDULER_SCHED (Suc 0)"
  by (simp_all add: ACM_SCHEDULER_SCHED_def)

lemma enable_values: "acmdrv_bypass_ctrl_enable_create b = of_bool b"
  by (simp add: acmdrv_bypass_ctrl_enable_create_def WVAL_def bool32_def GENMASK_def)

text \<open>Reading a register changes the history only.\<close>

lemma state_preds_read [simp]:
  "schedulers_stopped e (log_io (R16 r off) s) = schedulers_stopped e s" "schedulers_stopped e (log_io (R32 r off) s) = schedulers_stopped e s"
  "bypasses_enabled v (log_io (R16 r off) s) = bypasses_enabled v s" "bypasses_enabled v (log_io (R32 r off) s) = bypasses_enabled v s"
  "schedulers_stopped e (log_io Lock_intr s) = schedulers_stopped e s" "bypasses_enabled v (log_io Lock_intr s) = bypasses_enabled v s"
  "control_registers (log_io a s) = control_registers s"
  by (simp_all add: schedulers_stopped_def bypasses_enabled_def control_registers_def log_io_def bypass_size_def)

lemma state_preds_active [simp]:
  "schedulers_stopped e (scheduler_set_active i a s) = schedulers_stopped e s" "bypasses_enabled v (scheduler_set_active i a s) = bypasses_enabled v s"
  "control_registers (scheduler_set_active i a s) = control_registers s" "control_registers (bypass_set_active i a s) = control_registers s"
  "schedulers_stopped e (bypass_set_active i a s) = schedulers_stopped e s" "bypasses_enabled v (bypass_set_active i a s) = bypasses_enabled v s"
  "scheduler_get_active j (bypass_set_active i a s) = scheduler_get_active j s" "bypass_get_active j (scheduler_set_active i a s) = bypass_get_active j s"
  "scheduler_get_active j (scheduler_set_active i a s) = (if j = i then a else scheduler_get_active j s)"
  "bypass_get_active j (bypass_set_active i a s) = (if j = i then a else bypass_get_active j s)"
  "scheduler_get_active j (log_io x s) = scheduler_get_active j s" "bypass_get_active j (log_io x s) = bypass_get_active j s"
  by (simp_all add: schedulers_stopped_def bypasses_enabled_def control_registers_def scheduler_set_active_def bypass_set_active_def
      upd_bypass_def bypass_size_def scheduler_get_active_def bypass_get_active_def log_io_def)

lemma store_scheduler_eq:
  assumes "control_registers s" "schedulers_stopped e s" "i < 2"
  shows "store_scheduler i s = scheduler_set_active i (e i = 0) (log_io (R16 R_Scheduler (emergency_register i)) s)"
  using assms by (simp add: store_scheduler_def scheduler_read_emergency_disable_def readw_def control_registers_def
      plain16_def schedulers_stopped_def)

lemma store_bypass_eq:
  assumes "control_registers s" "bypasses_enabled v s" "b < 2"
  shows "store_bypass b s = bypass_set_active b (v b \<noteq> 0) (log_io (R32 (R_Bypass b) enable_register) s)"
proof -
  have "plain32 (k_env s) (R_Bypass b) enable_register" "enable_register < bypass_size b s"
    "last32 (k_io s) (R_Bypass b) enable_register = Some (v b)"
    using assms by (auto simp: control_registers_def bypasses_enabled_def)
  then show ?thesis
    by (simp add: store_bypass_def bypass_is_enabled_def bypass_control_area_read_def bypass_area_read_def readl_def plain32_def)
qed

lemma state_set:
  assumes "acm_state_set st s = Some (0, s1)"
  obtains new t where "acm_state_change st (log_io Lock_intr s) = Some (0, new, t)" "s1 = t\<lparr>k_status := new\<rparr>"
  using assms by (auto simp: acm_state_set_def lock_intr_def Let_def bind_eq_Some_conv split: if_splits)

lemma status_irrelevant [simp]:
  "control_registers (s\<lparr>k_status := n\<rparr>) = control_registers s" "schedulers_stopped e (s\<lparr>k_status := n\<rparr>) = schedulers_stopped e s"
  "bypasses_enabled v (s\<lparr>k_status := n\<rparr>) = bypasses_enabled v s" "scheduler_get_active i (s\<lparr>k_status := n\<rparr>) = scheduler_get_active i s"
  "bypass_get_active i (s\<lparr>k_status := n\<rparr>) = bypass_get_active i s"
  by (simp_all add: control_registers_def schedulers_stopped_def bypasses_enabled_def scheduler_get_active_def bypass_get_active_def bypass_size_def)

lemma config_end_stores:
  assumes "acm_state_set ACMDRV_CONFIG_END_STATE s = Some (0, s1)" "control_registers s"
    "schedulers_stopped e s" "bypasses_enabled v s"
  shows "k_status s1 = ACMDRV_RUN_STATE \<and> control_registers s1 \<and>
    (\<forall>i<2. scheduler_get_active i s1 = (e i = 0)) \<and> (\<forall>b<2. bypass_get_active b s1 = (v b \<noteq> 0))"
proof -
  note stores = store_scheduler_eq [where e = e] store_bypass_eq [where v = v]
  from state_set [OF assms(1)] obtain new t where "acm_state_change ACMDRV_CONFIG_END_STATE (log_io Lock_intr s) = Some (0, new, t)"
    "s1 = t\<lparr>k_status := new\<rparr>" .
  with assms(2-4) show ?thesis
    by (auto simp: acm_state_change_def acm_config_end_def upt_two Let_def stores less_2_cases_iff)
qed

text \<open>Writing the control registers.\<close>

lemma write_control:
  "i < 2 \<Longrightarrow> scheduler_write_emergency_disable i x s = log_io (W16 R_Scheduler (emergency_register i) x) s"
  by (simp add: scheduler_write_emergency_disable_def writew_def)

lemma write_enable:
  assumes "control_registers s" "b < 2"
  shows "bypass_enable b a s = log_io (W32 (R_Bypass b) enable_register (of_bool a)) s"
proof -
  have "enable_register < bypass_size b s" using assms unfolding control_registers_def by blast
  then show ?thesis
    by (simp add: bypass_enable_def bypass_control_area_write_def bypass_area_write_def writel_def enable_values)
qed

lemma both_written:
  assumes "k_io s = W32 (R_Bypass 1) enable_register v1 # W32 (R_Bypass 0) enable_register v0 #
      W16 R_Scheduler (emergency_register 1) e1 # W16 R_Scheduler (emergency_register 0) e0 # h"
  shows "schedulers_stopped (\<lambda>i. if i = 0 then e0 else e1) s \<and> bypasses_enabled (\<lambda>b. if b = 0 then v0 else v1) s"
  using assms by (auto simp: schedulers_stopped_def bypasses_enabled_def less_2_cases_iff)

lemma desync_stops:
  assumes "acm_state_set ACMDRV_DESYNC_STATE s = Some (0, s1)" "control_registers s"
  shows "k_status s1 = ACMDRV_DESYNC_STATE \<and> control_registers s1 \<and> schedulers_stopped (\<lambda>_. 1) s1 \<and> bypasses_enabled (\<lambda>_. 0) s1 \<and>
    (\<forall>i. scheduler_get_active i s1 = scheduler_get_active i s \<and> bypass_get_active i s1 = bypass_get_active i s)"
proof -
  from state_set [OF assms(1)] obtain new t where t: "acm_state_change ACMDRV_DESYNC_STATE (log_io Lock_intr s) = Some (0, new, t)"
    "s1 = t\<lparr>k_status := new\<rparr>" .
  have "t = log_io (W32 (R_Bypass 1) enable_register 0) (log_io (W32 (R_Bypass 0) enable_register 0)
      (log_io (W16 R_Scheduler (emergency_register 1) 1) (log_io (W16 R_Scheduler (emergency_register 0) 1) (log_io Lock_intr s))))" "new = 5"
    using t(1) assms(2) by (auto simp: acm_state_change_def acm_config_stop_running_def upt_two Let_def write_control write_enable)
  with both_written [of t 0 0 1 1] assms(2) show ?thesis by (simp add: t(2)) (simp add: log_io_def)
qed

lemma restart_restores:
  assumes "acm_state_set ACMDRV_RESTART_STATE s = Some (0, s1)" "control_registers s"
  shows "k_status s1 = ACMDRV_RUN_STATE \<and> schedulers_stopped (\<lambda>i. of_bool (\<not> scheduler_get_active i s)) s1 \<and>
    bypasses_enabled (\<lambda>b. of_bool (bypass_get_active b s)) s1"
proof -
  from state_set [OF assms(1)] obtain new t where t: "acm_state_change ACMDRV_RESTART_STATE (log_io Lock_intr s) = Some (0, new, t)"
    "s1 = t\<lparr>k_status := new\<rparr>" .
  let ?e = "\<lambda>i. of_bool (\<not> scheduler_get_active i s)" and ?v = "\<lambda>b. of_bool (bypass_get_active b s)"
  have "t = log_io (W32 (R_Bypass 1) enable_register (?v 1)) (log_io (W32 (R_Bypass 0) enable_register (?v 0))
      (log_io (W16 R_Scheduler (emergency_register 1) (?e 1)) (log_io (W16 R_Scheduler (emergency_register 0) (?e 0)) (log_io Lock_intr s))))" "new = 4"
    using t(1) assms(2) by (auto simp: acm_state_change_def acm_config_restart_running_def restart_scheduler_def restart_bypass_def upt_two Let_def write_control write_enable)
  with both_written [of t "?v 1" "?v 0" "?e 1" "?e 0"] show ?thesis
    by (simp add: t(2)) (auto simp: log_io_def schedulers_stopped_def bypasses_enabled_def less_2_cases_iff)
qed

text \<open>
  C33: When the configuration is ended, then stopped because synchronisation is lost, and then
  restarted, the status goes through RUN, DESYNC and RUN; in DESYNC both schedulers are disabled and
  both modules are off, and after the restart exactly the schedulers and modules that ran when the
  configuration was ended run again.
\<close>

theorem desync_restart_restores:
  assumes "acm_state_set ACMDRV_CONFIG_END_STATE s = Some (0, s1)" "acm_state_set ACMDRV_DESYNC_STATE s1 = Some (0, s2)"
    and "acm_state_set ACMDRV_RESTART_STATE s2 = Some (0, s3)"
    and "control_registers s" "schedulers_stopped e s" "bypasses_enabled v s"
  shows "map acm_state_get [s1, s2, s3] = [ACMDRV_RUN_STATE, ACMDRV_DESYNC_STATE, ACMDRV_RUN_STATE] \<and>
    schedulers_stopped (\<lambda>_. 1) s2 \<and> bypasses_enabled (\<lambda>_. 0) s2 \<and>
    schedulers_stopped (\<lambda>i. of_bool (e i \<noteq> 0)) s3 \<and> bypasses_enabled (\<lambda>b. of_bool (v b \<noteq> 0)) s3"
proof -
  note a = config_end_stores [OF assms(1,4-6)]
  then have "control_registers s1" by blast
  note b = desync_stops [OF assms(2) this]
  then have "control_registers s2" by blast
  note c = restart_restores [OF assms(3) this]
  from a b have "\<forall>i<2. scheduler_get_active i s2 = (e i = 0) \<and> bypass_get_active i s2 = (v i \<noteq> 0)" by simp
  then have "schedulers_stopped (\<lambda>i. of_bool (\<not> scheduler_get_active i s2)) s3 = schedulers_stopped (\<lambda>i. of_bool (e i \<noteq> 0)) s3"
    "bypasses_enabled (\<lambda>b. of_bool (bypass_get_active b s2)) s3 = bypasses_enabled (\<lambda>b. of_bool (v b \<noteq> 0)) s3"
    unfolding schedulers_stopped_def bypasses_enabled_def by simp_all
  with a b c show ?thesis by (simp add: acm_state_get_def)
qed

text \<open>The first scheduler and the second module run.\<close>

lemma state_env:
  "k_env (store_scheduler i s) = k_env s" "k_env (store_bypass i s) = k_env s" "k_env (bypass_enable i a s) = k_env s"
  "k_env (scheduler_write_emergency_disable i w s) = k_env s" "k_env (restart_scheduler i s) = k_env s"
  "k_env (restart_bypass i s) = k_env s" "k_env (log_io ev s) = k_env s"
  by (simp_all add: store_scheduler_def store_bypass_def scheduler_read_emergency_disable_def scheduler_set_active_def readw_def
      bypass_is_enabled_def bypass_control_area_read_def bypass_area_read_def readl_def bypass_set_active_def upd_bypass_def
      bypass_enable_def bypass_control_area_write_def bypass_area_write_def writel_def scheduler_write_emergency_disable_def
      writew_def restart_scheduler_def restart_bypass_def log_io_def)

definition ex_running_kacm :: kacm where
  "ex_running_kacm = ex_kacm\<lparr>k_io := [W16 R_Scheduler (emergency_register 0) 0, W16 R_Scheduler (emergency_register 1) 1,
     W32 (R_Bypass 0) enable_register 0, W32 (R_Bypass 1) enable_register 1]\<rparr>"

lemma ex_running_registers: "control_registers ex_running_kacm"
  by (auto simp: control_registers_def ex_running_kacm_def ex_kacm_def ex_kenv_def plain16_def plain32_def bypass_size_def
      ACM_SCHEDULER_SCHED_def)

lemma desync_restart_restores_witness:
  "\<exists>s1 s2 s3. acm_state_set ACMDRV_CONFIG_END_STATE ex_running_kacm = Some (0, s1) \<and> acm_state_set ACMDRV_DESYNC_STATE s1 = Some (0, s2) \<and>
     acm_state_set ACMDRV_RESTART_STATE s2 = Some (0, s3) \<and> k_status s2 = 5 \<and>
     last16 (k_io s3) R_Scheduler (emergency_register 0) = Some 0 \<and> last16 (k_io s3) R_Scheduler (emergency_register 1) = Some 1 \<and>
     last32 (k_io s3) (R_Bypass 1) enable_register = Some 1"
proof -
  have regs: "schedulers_stopped (\<lambda>i. if i = 0 then 0 else 1) ex_running_kacm" "bypasses_enabled (\<lambda>b. if b = 0 then 0 else 1) ex_running_kacm"
    by (auto simp: schedulers_stopped_def bypasses_enabled_def ex_running_kacm_def less_2_cases_iff)
  have ok: "\<exists>s'. acm_state_set st s = Some (0, s') \<and> k_env s' = k_env s"
    if "st \<in> {ACMDRV_CONFIG_END_STATE, ACMDRV_DESYNC_STATE, ACMDRV_RESTART_STATE}" "k_env s = k_env ex_kacm" for st s
    using that by (auto simp: acm_state_set_def lock_intr_def Let_def acm_state_change_def acm_config_end_def acm_config_stop_running_def
        acm_config_restart_running_def upt_two state_env ex_kacm_def ex_kenv_def)
  have "k_env ex_running_kacm = k_env ex_kacm" by (simp add: ex_running_kacm_def)
  then obtain s1 s2 s3 where s: "acm_state_set ACMDRV_CONFIG_END_STATE ex_running_kacm = Some (0, s1)" "acm_state_set ACMDRV_DESYNC_STATE s1 = Some (0, s2)"
    "acm_state_set ACMDRV_RESTART_STATE s2 = Some (0, s3)" using ok by (metis insertI1 insertI2)
  from desync_restart_restores [OF s ex_running_registers regs] s show ?thesis
    by (auto simp: schedulers_stopped_def acm_state_get_def bypasses_enabled_def intro!: exI)
qed

end
