(* ===== verification/Acm_Drv_Counts_Theorems.thy ===== *)
theory Acm_Drv_Counts_Theorems
  imports Acm_Drv_Status_Theorems
begin

text \<open>
  Registers that change when they are read, and registers of bits: the frame errors are counted
  exactly once, and the masks of message buffers change the bits they name only.
\<close>

section \<open>Frame errors\<close>

text \<open>
  Reading one of the attributes of the frame error register: its number, the value shown, and the
  value the register had.
\<close>

fun frame_error_reads :: "nat \<Rightarrow> nat list \<Rightarrow> kacm \<Rightarrow> (nat \<times> u32 \<times> u32) list \<times> kacm" where
  "frame_error_reads b [] s = ([], s)"
| "frame_error_reads b (j # js) s =
     (let raw = rd32 (k_env s) (k_io s) (R_Bypass b) (ACM_BYPASS_STATUS_AREA + FRAME_ERRORS);
          (v, s) = get_partreg_val b (FRAME_ERRORS_bitmasks ! j) s;
          (shown, s) = frame_error_reads b js s in ((j, v, raw) # shown, s))"

lemma bitmask_number: "j < 3 \<Longrightarrow> find_mask (FRAME_ERRORS_bitmasks ! j) FRAME_ERRORS_bitmasks = j"
  by (auto simp: less_Suc_eq numeral_3_eq_3 FRAME_ERRORS_bitmasks_def GENMASK_def mask_eq_exp_minus_1 push_bit_eq_mult)

lemma length_bitmasks: "length FRAME_ERRORS_bitmasks = 3"
  by (simp add: FRAME_ERRORS_bitmasks_def)

lemma partreg_read:
  assumes "j < 3" "length (k_partreg s b) = 3" "0xE110 < bypass_size b s"
  defines "raw \<equiv> rd32 (k_env s) (k_io s) (R_Bypass b) 0xE110"
  defines "vals \<equiv> map2 (\<lambda>old m. old + read_bitmask raw m) (k_partreg s b) FRAME_ERRORS_bitmasks"
  shows "get_partreg_val b (FRAME_ERRORS_bitmasks ! j) s = (vals ! j, (log_io (R32 (R_Bypass b) 0xE110) s)
     \<lparr>k_partreg := (k_partreg s)(b := vals[j := 0])\<rparr>)"
  using assms(1,3) unfolding raw_def vals_def
  by (simp add: get_partreg_val_def bitmask_number length_bitmasks bypass_status_area_read_def bypass_area_read_def readl_def)
    (simp add: log_io_def Let_def)

text \<open>
  C34: The register of the frame errors is cleared when it is read, and three attributes share it.
  However they are read, no error is lost or counted twice: for each attribute the values shown and
  the value still pending add up to what was pending before and what the register delivered.
\<close>

theorem frame_errors_conserved:
  assumes "frame_error_reads b js s = (shown, t)" "set js \<subseteq> {..<3}" "length (k_partreg s b) = 3" "0xE110 < bypass_size b s" "k < 3"
  shows "sum_list (map (\<lambda>(j, v, raw). if j = k then v else 0) shown) + k_partreg t b ! k =
    k_partreg s b ! k + sum_list (map (\<lambda>(j, v, raw). read_bitmask raw (FRAME_ERRORS_bitmasks ! k)) shown)"
  using assms
proof (induction js arbitrary: s shown)
  case (Cons j js)
  let ?raw = "rd32 (k_env s) (k_io s) (R_Bypass b) 0xE110"
  let ?vals = "map2 (\<lambda>old m. old + read_bitmask ?raw m) (k_partreg s b) FRAME_ERRORS_bitmasks"
  let ?s = "(log_io (R32 (R_Bypass b) 0xE110) s)\<lparr>k_partreg := (k_partreg s)(b := ?vals[j := 0])\<rparr>"
  have j: "j < 3" using Cons.prems(2) by simp
  note read = partreg_read [OF j Cons.prems(3,4)]
  obtain rest where rest: "frame_error_reads b js ?s = (rest, t)" "shown = (j, ?vals ! j, ?raw) # rest"
    using Cons.prems(1) read by (auto simp: Let_def split: prod.splits)
  have "sum_list (map (\<lambda>(j, v, raw). if j = k then v else 0) rest) + k_partreg t b ! k =
      k_partreg ?s b ! k + sum_list (map (\<lambda>(j, v, raw). read_bitmask raw (FRAME_ERRORS_bitmasks ! k)) rest)"
    using Cons.prems(2-5) by (intro Cons.IH [OF rest(1)]) (simp_all add: length_bitmasks bypass_size_def log_io_def)
  moreover have "?vals ! k = k_partreg s b ! k + read_bitmask ?raw (FRAME_ERRORS_bitmasks ! k)"
    using Cons.prems(3,5) by (simp add: length_bitmasks)
  moreover have "k_partreg ?s b ! k = (if j = k then 0 else ?vals ! k)"
    using Cons.prems(3,5) j by (simp add: length_bitmasks nth_list_update)
  ultimately show ?case
    unfolding rest(2) by (cases "j = k") (simp_all only: list.map sum_list.Cons prod.case if_True if_False simp_thms, simp_all add: algebra_simps)
qed simp

text \<open>Five short frames and one MII error at the first read; the short frames are shown by the second.\<close>

definition ex_errors_kacm :: kacm where
  "ex_errors_kacm = ex_kacm\<lparr>k_env := ex_kenv\<lparr>rd32 := (\<lambda>h _ _. if h = [] then 0x05000001 else 0)\<rparr>\<rparr>"

lemma frame_errors_conserved_witness:
  "case frame_error_reads 0 [1, 0] ex_errors_kacm of (shown, t) \<Rightarrow>
     sum_list (map (\<lambda>(j, v, raw). if j = 0 then v else 0) shown) + k_partreg t 0 ! 0 = 5"
proof -
  obtain shown t where r: "frame_error_reads 0 [1, 0] ex_errors_kacm = (shown, t)" by (cases "frame_error_reads 0 [1, 0] ex_errors_kacm")
  have s: "length (k_partreg ex_errors_kacm 0) = 3" "0xE110 < bypass_size 0 ex_errors_kacm" "k_partreg ex_errors_kacm 0 ! 0 = 0"
    by (simp_all add: ex_errors_kacm_def ex_kacm_def bypass_size_def ex_kenv_def)
  have raws: "map (snd \<circ> snd) shown = [0x05000001, 0]"
    using r partreg_read [of 1 ex_errors_kacm 0] s
    by (simp add: Let_def split: prod.splits) (auto simp: ex_errors_kacm_def ex_kacm_def ex_kenv_def log_io_def)
  have "map (\<lambda>(j, v, raw). read_bitmask raw (FRAME_ERRORS_bitmasks ! 0)) shown = map (\<lambda>raw. read_bitmask raw (GENMASK 31 24)) (map (snd \<circ> snd) shown)"
    by (auto simp: FRAME_ERRORS_bitmasks_def)
  moreover have "read_bitmask 0x05000001 (GENMASK 31 24) = 5" "read_bitmask 0 (GENMASK 31 24) = 0"
    using read_bitmask_field [of 24 31 "0x05000001"] read_bitmask_field [of 24 31 0] by (simp_all add: word_unat_eq_iff)
  ultimately show ?thesis using frame_errors_conserved [OF r, of 0] s
    unfolding r by (simp add: raws del: frame_error_reads.simps)
qed

section \<open>Locks of message buffers\<close>

abbreviation lock_register :: "nat \<Rightarrow> nat" where
  "lock_register i \<equiv> ACM_MSGBUF_LOCK_CTL + i * 4"

definition lock_values :: "(nat \<Rightarrow> u32) \<Rightarrow> kacm \<Rightarrow> bool" where
  "lock_values w s = (\<forall>i < lock_words s. last32 (k_io s) R_Messagebuffer (lock_register i) = Some (w i))"

definition lock_registers :: "kacm \<Rightarrow> bool" where
  "lock_registers s = (lock_words s \<le> 2 \<and> (\<forall>i < lock_words s. plain32 (k_env s) R_Messagebuffer (lock_register i)))"

lemma lock_words_log [simp]: "lock_words (log_io e s) = lock_words s"
  by (simp add: lock_words_def log_io_def commreg_read_msgbuf_count_def)

lemma read_lock_words_values:
  assumes "\<forall>i \<in> set js. i < length l \<and> plain32 (k_env s) R_Messagebuffer (lock_register i) \<and>
      last32 (k_io s) R_Messagebuffer (lock_register i) = Some (w i)"
  shows "read_lock_words js l s = Some (fold (\<lambda>i l. l[i := w i]) js l, fold (\<lambda>i. log_io (R32 R_Messagebuffer (lock_register i))) js s)"
  using assms
proof (induction js arbitrary: l s)
  case (Cons j js)
  have "rd32 (k_env s) (k_io s) R_Messagebuffer (lock_register j) = w j"
    using Cons.prems unfolding plain32_def by simp
  with Cons show ?case by (simp add: readl_def log_io_def)
qed simp

lemma write_lock_words_log:
  "\<forall>i \<in> set js. i < length l \<Longrightarrow>
     write_lock_words js l s = Some (fold (\<lambda>i. log_io (W32 R_Messagebuffer (lock_register i) (l ! i))) js s)"
  by (induction js arbitrary: s) (simp_all add: writel_def)

lemma fold_log_reads:
  "last32 (k_io (fold (\<lambda>i. log_io (R32 r (f i))) js s)) r' off = last32 (k_io s) r' off"
  "k_env (fold (\<lambda>i. log_io (R32 r (f i))) js s) = k_env s" "lock_words (fold (\<lambda>i. log_io (R32 r (f i))) js s) = lock_words s"
  "k_msgbuf (fold (\<lambda>i. log_io (R32 r (f i))) js s) = k_msgbuf s"
  by (induction js arbitrary: s) (simp_all, simp_all add: log_io_def)

lemma last32_log [simp]:
  "last32 (k_io (log_io (W32 r off v) s)) r' off' = (if r' = r \<and> off' = off then Some v else last32 (k_io s) r' off')"
  by (simp add: log_io_def)

lemma fold_log_writes_last:
  "last32 (k_io (fold (\<lambda>i. log_io (W32 R_Messagebuffer (lock_register i) (l ! i))) js s)) R_Messagebuffer (lock_register i) =
     (if i \<in> set js then Some (l ! i) else last32 (k_io s) R_Messagebuffer (lock_register i))"
  by (induction js arbitrary: s) simp_all

lemma fold_log_writes:
  "k_env (fold (\<lambda>i. log_io (W32 r (f i) (l ! i))) js s) = k_env s"
  "lock_words (fold (\<lambda>i. log_io (W32 r (f i) (l ! i))) js s) = lock_words s"
  "k_msgbuf (fold (\<lambda>i. log_io (W32 r (f i) (l ! i))) js s) = k_msgbuf s"
  by (induction js arbitrary: s) (simp_all, simp_all add: log_io_def)

text \<open>One pass over the lock registers: read, combine, write back.\<close>

lemma lock_pass:
  assumes "lock_registers s" "lock_values w s" "length l' = 2" "\<And>l i. length l = 2 \<Longrightarrow> i < 2 \<Longrightarrow> length (f l) = 2 \<and> f l ! i = g i (l ! i)"
  shows "\<exists>s'. do { (l, s) \<leftarrow> msgbuf_read_lock_ctl (acmdrv_bitarray_zero LOCK_CTRL_SIZE) s; msgbuf_write_lock_ctl (f l) s } = Some s' \<and>
    lock_values (\<lambda>i. g i (w i)) s' \<and> lock_registers s' \<and> k_msgbuf s' = k_msgbuf s \<and> lock_words s' = lock_words s"
proof -
  have n: "lock_words s \<le> 2" using assms(1) by (simp add: lock_registers_def)
  let ?z = "acmdrv_bitarray_zero LOCK_CTRL_SIZE"
  let ?l = "fold (\<lambda>i l. l[i := w i]) [0..<lock_words s] ?z"
  have z: "length ?z = 2" by (simp add: elno_def)
  have fold_len: "length (fold (\<lambda>i l. l[i := w i]) js l) = length l" for js l by (induction js arbitrary: l) simp_all
  have fold_nth: "i < length l \<Longrightarrow> fold (\<lambda>i l. l[i := w i]) js l ! i = (if i \<in> set js then w i else l ! i)" for i js l
    by (induction js arbitrary: l) (simp_all add: nth_list_update)
  have "\<forall>i \<in> set [0..<lock_words s]. i < length ?z \<and> plain32 (k_env s) R_Messagebuffer (lock_register i) \<and>
      last32 (k_io s) R_Messagebuffer (lock_register i) = Some (w i)"
    using assms(1,2) n unfolding z lock_registers_def lock_values_def by simp
  note read = read_lock_words_values [OF this]
  let ?t = "fold (\<lambda>i. log_io (R32 R_Messagebuffer (lock_register i))) [0..<lock_words s] s"
  have len: "length (f ?l) = 2" using assms(4) [of ?l 0] z by (simp add: fold_len)
  have "\<forall>i \<in> set [0..<lock_words s]. i < length (f ?l)" using n unfolding len by auto
  note written = write_lock_words_log [OF this, of ?t]
  have "f ?l ! i = g i (w i)" if "i < lock_words s" for i
  proof -
    have "i < 2" using that n by simp
    then have "f ?l ! i = g i (?l ! i)" using assms(4) [of ?l i] z by (simp only: fold_len)
    then show ?thesis using that z \<open>i < 2\<close> by (simp add: fold_nth)
  qed
  then show ?thesis
    using assms(1) unfolding msgbuf_read_lock_ctl_def msgbuf_write_lock_ctl_def read
    by (simp add: fold_log_reads written lock_values_def lock_registers_def fold_log_writes fold_log_writes_last
        del: LOCK_CTRL_SIZE_def ACM_MSGBUF_LOCK_CTL_def)
qed

lemma bitarray_nth:
  "i < 2 \<Longrightarrow> acmdrv_bitarray_or LOCK_CTRL_SIZE a b ! i = a ! i OR b ! i"
  "i < 2 \<Longrightarrow> acmdrv_bitarray_and LOCK_CTRL_SIZE a b ! i = a ! i AND b ! i"
  "i < 2 \<Longrightarrow> acmdrv_bitarray_not LOCK_CTRL_SIZE a ! i = NOT (a ! i)"
  by (simp_all add: acmdrv_bitarray_or_def acmdrv_bitarray_and_def acmdrv_bitarray_not_def elno_def)

lemma elno_lock: "elno LOCK_CTRL_SIZE = 2"
  by (simp add: elno_def)

lemma set_locks:
  assumes "lock_registers s" "lock_values w s"
  shows "\<exists>s'. msgbuf_set_lock_ctl_mask m s = Some s' \<and> lock_values (\<lambda>i. w i OR m ! i) s' \<and> lock_registers s' \<and> lock_words s' = lock_words s"
  using lock_pass [OF assms, of "[0, 0]" "\<lambda>l. acmdrv_bitarray_or LOCK_CTRL_SIZE l m" "\<lambda>i x. x OR m ! i"]
  by (auto simp: msgbuf_set_lock_ctl_mask_def bitarray_nth elno_lock simp del: LOCK_CTRL_SIZE_def)

lemma unset_locks:
  assumes "lock_registers s" "lock_values w s"
  shows "\<exists>s'. msgbuf_unset_lock_ctl_mask m s = Some s' \<and> lock_values (\<lambda>i. w i AND NOT (m ! i)) s' \<and> lock_registers s' \<and> lock_words s' = lock_words s"
  using lock_pass [OF assms, of "[0, 0]" "\<lambda>l. acmdrv_bitarray_and LOCK_CTRL_SIZE l (acmdrv_bitarray_not LOCK_CTRL_SIZE m)" "\<lambda>i x. x AND NOT (m ! i)"]
  by (auto simp: msgbuf_unset_lock_ctl_mask_def bitarray_nth elno_lock simp del: LOCK_CTRL_SIZE_def)

text \<open>
  C35: Writing a vector to the attributes that lock and unlock message buffers sets or clears
  exactly the bits of the vector that stand for message buffers, in every word of the lock
  registers, and leaves all other bits as they were.
\<close>

theorem lock_masks_exact:
  assumes "lock_registers s" "lock_values w s"
  shows "\<exists>s1 s2. lock_msg_bufs_write l 0 8 s = Some (8, s1) \<and> lock_words s1 = lock_words s \<and>
    lock_values (\<lambda>i. w i OR (l ! i AND mb_mask (k_msgbuf s) ! i)) s1 \<and>
    unlock_msg_bufs_write l 0 8 s = Some (8, s2) \<and> lock_words s2 = lock_words s \<and>
    lock_values (\<lambda>i. w i AND NOT (l ! i AND mb_mask (k_msgbuf s) ! i)) s2"
proof -
  define m where "m = acmdrv_bitarray_and LOCK_CTRL_SIZE l (mb_mask (k_msgbuf s))"
  have two: "lock_words s \<le> 2" using assms(1) by (simp add: lock_registers_def)
  have eqs: "lock_values f t = lock_values g t" if "\<And>i. i < 2 \<Longrightarrow> f i = g i" "lock_words t \<le> 2" for f g :: "nat \<Rightarrow> u32" and t
    using that by (simp add: lock_values_def)
  have m: "i < 2 \<Longrightarrow> m ! i = l ! i AND mb_mask (k_msgbuf s) ! i" for i by (simp only: m_def bitarray_nth)
  have access: "lock_access_error 0 8 = False" by (simp add: lock_access_error_def)
  obtain s1 where s1: "msgbuf_set_lock_ctl_mask m s = Some s1" "lock_values (\<lambda>i. w i OR m ! i) s1" "lock_words s1 = lock_words s"
    using set_locks [OF assms, of m] by auto
  obtain t where t: "msgbuf_unset_lock_ctl_mask m s = Some t" "lock_values (\<lambda>i. w i AND NOT (m ! i)) t" "lock_registers t" "lock_words t = lock_words s"
    using unset_locks [OF assms, of m] by auto
  obtain s2 where s2: "msgbuf_unset_lock_ctl_mask m t = Some s2" "lock_values (\<lambda>i. w i AND NOT (m ! i) AND NOT (m ! i)) s2" "lock_words s2 = lock_words s"
    using unset_locks [OF t(3,2), of m] t(4) by auto
  have "lock_msg_bufs_write l 0 8 s = Some (8, s1)"
    unfolding lock_msg_bufs_write_def access m_def [symmetric] s1(1) by simp
  moreover have "unlock_msg_bufs_write l 0 8 s = Some (8, s2)"
    unfolding unlock_msg_bufs_write_def access m_def [symmetric] Let_def t(1) by (simp add: s2(1))
  moreover have "lock_values (\<lambda>i. w i OR (l ! i AND mb_mask (k_msgbuf s) ! i)) s1"
    using s1(2,3) two by (subst eqs [where g = "\<lambda>i. w i OR m ! i"]) (simp_all add: m)
  moreover have "lock_values (\<lambda>i. w i AND NOT (l ! i AND mb_mask (k_msgbuf s) ! i)) s2"
    using s2(2,3) two by (subst eqs [where g = "\<lambda>i. w i AND NOT (m ! i) AND NOT (m ! i)"]) (simp_all add: m and.assoc)
  ultimately show ?thesis using s1(3) s2(3) by blast
qed

text \<open>Buffers 0 and 1 are locked when 2 is added, and when 0 is taken away.\<close>

definition ex_locked_kacm :: kacm where
  "ex_locked_kacm = ex_kacm\<lparr>k_io := [W32 R_Messagebuffer 0x200 3]\<rparr>"

lemma lock_masks_exact_witness:
  "\<exists>s1 s2. lock_msg_bufs_write [5, 0] 0 8 ex_locked_kacm = Some (8, s1) \<and> last32 (k_io s1) R_Messagebuffer 0x200 = Some 7 \<and>
     unlock_msg_bufs_write [5, 0] 0 8 ex_locked_kacm = Some (8, s2) \<and> last32 (k_io s2) R_Messagebuffer 0x200 = Some 2"
proof -
  have n: "lock_words ex_locked_kacm = 1"
    by (simp add: lock_words_def ex_locked_kacm_def ex_kacm_def commreg_read_msgbuf_count_def ex_commreg_def)
  have "lock_registers ex_locked_kacm" "lock_values (\<lambda>_. 3) ex_locked_kacm"
    by (simp_all add: lock_registers_def lock_values_def n) (simp_all add: ex_locked_kacm_def ex_kacm_def ex_kenv_def plain32_def)
  from lock_masks_exact [OF this, of "[5, 0]"] obtain s1 s2 where
    ex: "lock_msg_bufs_write [5, 0] 0 8 ex_locked_kacm = Some (8, s1)" "unlock_msg_bufs_write [5, 0] 0 8 ex_locked_kacm = Some (8, s2)"
    and w: "lock_words s1 = 1" "lock_values (\<lambda>i. 3 OR ([5, 0] ! i AND mb_mask (k_msgbuf ex_locked_kacm) ! i)) s1"
    "lock_words s2 = 1" "lock_values (\<lambda>i. 3 AND NOT ([5, 0] ! i AND mb_mask (k_msgbuf ex_locked_kacm) ! i)) s2"
    unfolding n by blast
  have "mb_mask (k_msgbuf ex_locked_kacm) ! 0 = 0xFFFFFFFF" by (simp add: ex_locked_kacm_def ex_kacm_def)
  then have "last32 (k_io s1) R_Messagebuffer 0x200 = Some 7" "last32 (k_io s2) R_Messagebuffer 0x200 = Some 2"
    using w by (simp_all add: lock_values_def)
  with ex show ?thesis by blast
qed

end
