(* ===== verification/Acm_Drv_Table_Theorems.thy ===== *)
theory Acm_Drv_Table_Theorems
  imports Acm_Drv_Frame Acm_Drv_Examples
begin

text \<open>
  The tables of the bypass modules behind the binary attributes: an access that passes the check
  reaches words of its own table only.
\<close>

definition table_attrs :: "sysfs_bypass_attr list" where
  "table_attrs = [lookup_pattern_attr, lookup_mask_attr, layer7_pattern_attr, layer7_mask_attr, stream_trigger_attr,
     scatter_dma_attr, prefetch_dma_attr, gather_dma_attr, const_buffer_attr]"

lemmas table_attr_defs = table_attrs_def lookup_pattern_attr_def lookup_mask_attr_def layer7_pattern_attr_def
  layer7_mask_attr_def stream_trigger_attr_def scatter_dma_attr_def prefetch_dma_attr_def gather_dma_attr_def
  const_buffer_attr_def SYSFS_BYPASS_ATTR_def SYSFS_BYPASS_ATTR_PADDED_def

text \<open>The words of a table in the address space of a module.\<close>

definition table_words :: "sysfs_bypass_attr \<Rightarrow> nat set" where
  "table_words a = {item_offset a i + 4 * k | i k. i < nr_items a \<and> 4 * k < sa_elemsize a}"

definition table_access :: "sysfs_bypass_attr \<Rightarrow> io \<Rightarrow> bool" where
  "table_access a e = (case e of
     W32 r off v \<Rightarrow> (r = R_Bypass 0 \<or> r = R_Bypass 1) \<and> off \<in> table_words a | W16 r off v \<Rightarrow> False | _ \<Rightarrow> True)"

definition no_write :: "io \<Rightarrow> bool" where
  "no_write e = (case e of W32 r off v \<Rightarrow> False | W16 r off v \<Rightarrow> False | _ \<Rightarrow> True)"

text \<open>Which table a word belongs to.\<close>

definition word_table :: "nat \<Rightarrow> nat" where
  "word_table off = (if off < 0x1000
     then if off mod 0x100 < 0x10 then 0 else if off mod 0x100 < 0x80 then 2 else if off mod 0x100 < 0x90 then 1 else 3
     else if 0x7000 \<le> off then 8 else if 0x5800 \<le> off then 6 else if 0x5000 \<le> off then 7 else if 0x3000 \<le> off then 5 else 4)"

lemma row_word: "i < 16 \<Longrightarrow> c < 0x100 \<Longrightarrow> c + i * 0x100 < 0x1000 \<and> (c + i * 0x100) mod 0x100 = (c :: nat)"
  by auto

lemma word_table_of:
  assumes "j < 9" "off \<in> table_words (table_attrs ! j)" shows "word_table off = j"
proof -
  obtain i k where off: "off = item_offset (table_attrs ! j) i + 4 * k" "i < nr_items (table_attrs ! j)" "4 * k < sa_elemsize (table_attrs ! j)"
    using assms(2) by (auto simp: table_words_def)
  have rows: "word_table (c + i * 0x100) = (if c < 0x10 then 0 else if c < 0x80 then 2 else if c < 0x90 then 1 else 3)"
    if "i < 16" "c < 0x100" for c
    using row_word [OF that] by (simp add: word_table_def)
  consider "j = 0" | "j = 1" | "j = 2" | "j = 3" | "4 \<le> j" using assms(1) by linarith
  then show ?thesis
  proof cases
    assume "j = 0"
    then have "off = 4 * k + i * 0x100" "4 * k < 16" "i < 16" using off by (auto simp: table_attr_defs item_offset_def nr_items_def)
    then show ?thesis using rows [of "4 * k"] \<open>j = 0\<close> by simp
  next
    assume "j = 1"
    then have "off = (0x80 + 4 * k) + i * 0x100" "4 * k < 16" "i < 16" using off by (auto simp: table_attr_defs item_offset_def nr_items_def)
    then show ?thesis using rows [of "0x80 + 4 * k"] \<open>j = 1\<close> by simp
  next
    assume "j = 2"
    then have "off = (0x10 + 4 * k) + i * 0x100" "4 * k < 112" "i < 16" using off by (auto simp: table_attr_defs item_offset_def nr_items_def)
    then show ?thesis using rows [of "0x10 + 4 * k"] \<open>j = 2\<close> by simp
  next
    assume "j = 3"
    then have "off = (0x90 + 4 * k) + i * 0x100" "4 * k < 112" "i < 16" using off by (auto simp: table_attr_defs item_offset_def nr_items_def)
    then show ?thesis using rows [of "0x90 + 4 * k"] \<open>j = 3\<close> by simp
  next
    assume "4 \<le> j"
    then have "j = 4 \<or> j = 5 \<or> j = 6 \<or> j = 7 \<or> j = 8" using assms(1) by linarith
    then show ?thesis using off by (elim disjE) (simp_all add: table_attr_defs item_offset_def nr_items_def word_table_def)
  qed
qed

lemma tables_disjoint:
  assumes "a \<in> set table_attrs" "a' \<in> set table_attrs" "a' \<noteq> a" shows "table_words a' \<inter> table_words a = {}"
proof -
  have n: "length table_attrs = 9" by (simp add: table_attrs_def)
  obtain j j' where j: "j < 9" "a = table_attrs ! j" "j' < 9" "a' = table_attrs ! j'"
    using assms(1,2) unfolding in_set_conv_nth n by auto
  have "j \<noteq> j'" using assms(3) j by auto
  then show ?thesis using word_table_of j by blast
qed

lemma table_facts:
  assumes "a \<in> set table_attrs"
  shows "sa_size a = 2 * nr_items a * sa_padsize a" "0 < nr_items a" "0 < sa_padsize a"
  using assms by (auto simp: table_attr_defs nr_items_def)

lemma emits_iowrite32_words:
  "emits (\<lambda>e. \<exists>k<n. \<exists>v. e = W32 r (off + 4 * k) v) s (iowrite32_words r off bs n s)"
proof (induction n arbitrary: off bs s)
  case (Suc n)
  let ?P = "\<lambda>e. \<exists>k<Suc n. \<exists>v. e = W32 r (off + 4 * k) v"
  have "emits ?P s (writel (get_u32 bs) r off s)" by (rule emits_writel) auto
  moreover have "emits ?P (writel (get_u32 bs) r off s) (iowrite32_words r (off + 4) (drop 4 bs) n (writel (get_u32 bs) r off s))"
    by (rule emits_mono [OF Suc]) (metis Suc_less_eq add.assoc mult_Suc_right)
  ultimately show ?case by (auto intro: emits_trans)
qed (simp add: emits_refl)

lemma table_item_write:
  assumes "a \<in> set table_attrs" "i < 2 * nr_items a"
  shows "\<exists>s'. bypass_attr_write_item a i buf s = Some (0, s') \<and> emits (table_access a) s s'"
proof -
  have b: "i div nr_items a < 2" using assms(2) by (simp add: less_mult_imp_div_less)
  let ?r = "R_Bypass (i div nr_items a)"
  have "emits (table_access a) s (iowrite32_words ?r (item_offset a i) bs (sa_elemsize a div 4) s)" for bs
  proof (rule emits_mono [OF emits_iowrite32_words])
    fix e assume "\<exists>k < sa_elemsize a div 4. \<exists>v. e = W32 ?r (item_offset a i + 4 * k) v"
    then obtain k v where k: "k < sa_elemsize a div 4" and v: "e = W32 ?r (item_offset a i + 4 * k) v" by blast
    from k have "4 * k < sa_elemsize a" by presburger
    note e = this v
    have "item_offset a i = item_offset a (i mod nr_items a)" "i mod nr_items a < nr_items a"
      using table_facts(2) [OF assms(1)] by (simp_all add: item_offset_def)
    then have "item_offset a i + 4 * k \<in> table_words a" using e(1)
      unfolding table_words_def by (intro CollectI exI [of _ "i mod nr_items a"] exI [of _ k]) simp
    then show "table_access a e" using b e(2) by (auto simp: table_access_def less_2_cases_iff)
  qed
  then show ?thesis
    using b by (auto simp: bypass_attr_write_item_def bypass_ptr_def bypass_block_write_def acm_iowrite32_copy_def emits_refl)
qed

lemma table_items_write:
  assumes "a \<in> set table_attrs" "\<forall>i \<in> set js. i < 2 * nr_items a"
  shows "\<exists>s'. write_items n (bypass_attr_write_item a) js buf s = Some (0, s') \<and> emits (table_access a) s s'"
  using assms(2)
proof (induction js arbitrary: buf s)
  case (Cons j js)
  obtain t where t: "bypass_attr_write_item a j buf s = Some (0, t)" "emits (table_access a) s t"
    using table_item_write [OF assms(1), of j buf s] Cons.prems by auto
  with Cons.IH [of "drop n buf" t] Cons.prems show ?case by (auto intro: emits_trans)
qed (simp add: emits_refl)

text \<open>An access that passes the check lies within the attribute.\<close>

lemma attr_check_items:
  assumes "sysfs_bin_attr_check n off sz elsize = 0" "i \<in> set (foreach_item off sz elsize)"
  shows "i < n div elsize"
proof -
  have "(nat off + sz) mod 2 ^ 32 \<le> n"
    using assms(1) by (auto simp: sysfs_bin_attr_check_def add.commute split: if_splits)
  then have "(nat off + sz) mod 2 ^ 32 div elsize \<le> n div elsize" by (rule div_le_mono)
  moreover have "i < (nat off + sz) mod 2 ^ 32 div elsize" using assms(2) by (simp add: foreach_item_def)
  ultimately show ?thesis by linarith
qed

text \<open>A size beyond the signed range passes the check only when the sum wraps, and then no item is left.\<close>

lemma attr_check_wrapped:
  assumes "sysfs_bin_attr_check n off sz elsize = 0" "2 ^ 31 \<le> sz" "sz < 2 ^ 32" "n < 2 ^ 31"
  shows "foreach_item off sz elsize = []"
proof -
  have c: "0 \<le> off" "off \<le> 2147483647" "(nat off + sz) mod 2 ^ 32 < 2 ^ 31"
    using assms(1,4) by (auto simp: sysfs_bin_attr_check_def add.commute split: if_splits)
  have off: "nat off < 2 ^ 31" using c(1,2) by (simp add: nat_less_iff)
  have "2 ^ 32 \<le> nat off + sz"
  proof (rule ccontr)
    assume "\<not> ?thesis"
    then have "(nat off + sz) mod 2 ^ 32 = nat off + sz" by (intro mod_less) simp
    then show False using c(3) assms(2) by simp
  qed
  then have "(nat off + sz) mod 2 ^ 32 \<le> nat off"
    using off assms(3) by (simp add: le_mod_geq)
  then have "(nat off + sz) mod 2 ^ 32 div elsize \<le> nat off div elsize" by (rule div_le_mono)
  then show ?thesis by (simp add: foreach_item_def)
qed

lemma table_size: "a \<in> set table_attrs \<Longrightarrow> sa_size a < 2 ^ 31"
  by (auto simp: table_attr_defs)

lemma attr_check_result: "sysfs_bin_attr_check n off sz elsize = 0 \<or> sysfs_bin_attr_check n off sz elsize < 0"
  by (simp add: sysfs_bin_attr_check_def)

text \<open>
  C36: Whatever is written to the attribute of a table, at whatever offset and with whatever 32 bit
  size, every write that reaches the hardware is one of a word of this table in one of the two
  modules, and no word belongs to two tables. The call always returns, with the number of bytes or
  a negative value; with a negative value nothing is written.
\<close>

theorem table_writes_stay_in_table:
  assumes "a \<in> set table_attrs" "sz < 2 ^ 32"
  shows "\<exists>ret s'. sysfs_bypass_attr_write a buf off sz s = Some (ret, s') \<and> (ret = int sz \<or> ret < 0) \<and>
    emits (table_access a) s s' \<and> (ret < 0 \<longrightarrow> emits no_write s s') \<and>
    (\<forall>a' \<in> set table_attrs. a' \<noteq> a \<longrightarrow> table_words a' \<inter> table_words a = {})"
proof -
  let ?check = "sysfs_bin_attr_check (sa_size a) off sz (sa_padsize a)"
  let ?items = "foreach_item off sz (sa_padsize a)"
  have dis: "\<forall>a' \<in> set table_attrs. a' \<noteq> a \<longrightarrow> table_words a' \<inter> table_words a = {}"
    using tables_disjoint [OF assms(1)] by blast
  obtain ret t where l: "lock_intr s = (ret, t)" "ret \<le> 0" "t = log_io Lock_intr s" by (simp add: lock_intr_def)
  have lock: "emits (table_access a) s t" "emits no_write s t"
    unfolding l(3) by (rule emits_log; simp add: table_access_def no_write_def)+
  show ?thesis
  proof (cases "?check = 0 \<and> ret = 0")
    case True
    have run: "sysfs_bypass_attr_write a buf off sz s = map_option (\<lambda>(_, s). (ssize sz, s))
        (write_items (sa_padsize a) (bypass_attr_write_item a) ?items buf t)"
      using True l by (simp add: sysfs_bypass_attr_write_def split_def map_option_case split: option.split)
    have "\<forall>i \<in> set ?items. i < 2 * nr_items a"
      using attr_check_items [OF conjunct1 [OF True]] table_facts(1,3) [OF assms(1)] by fastforce
    from table_items_write [OF assms(1) this] obtain u where
      u: "write_items (sa_padsize a) (bypass_attr_write_item a) ?items buf t = Some (0, u)" "emits (table_access a) t u"
      by blast
    show ?thesis
    proof (cases "sz < 2 ^ 31")
      case True
      with run u lock dis show ?thesis by (auto intro: emits_trans)
    next
      case False
      then have "?items = []"
        using attr_check_wrapped [OF conjunct1 [OF True] _ assms(2) table_size [OF assms(1)]] by simp
      then have "u = t" using u(1) by simp
      moreover have "ssize sz < 0" using False assms(2) by (simp add: ssize_def)
      ultimately show ?thesis using run u lock dis by auto
    qed
  next
    case False
    then show ?thesis
      using attr_check_result [of "sa_size a" off sz "sa_padsize a"] l lock dis
      by (cases "?check = 0") (auto simp: sysfs_bypass_attr_write_def emits_refl)
  qed
qed

lemma table_writes_stay_in_table_witness:
  "\<exists>ret s'. sysfs_bypass_attr_write scatter_dma_attr (replicate 8 0) 4 8 ex_kacm = Some (ret, s') \<and> emits (table_access scatter_dma_attr) ex_kacm s'"
  using table_writes_stay_in_table [of scatter_dma_attr 8 "replicate 8 0" 4 ex_kacm] by (auto simp: table_attrs_def)

end
