(* ===== verification/Acm_Drv_Device_Theorems.thy ===== *)
theory Acm_Drv_Device_Theorems
  imports Acm_Drv_Table_Theorems Acm_Drv_Status_Theorems
begin

text \<open>
  Writing to the character device of a message buffer, and the reset lines.
\<close>

section \<open>Message buffer devices\<close>

definition buffer_access :: "nat \<Rightarrow> io \<Rightarrow> bool" where
  "buffer_access i e = (case e of
     W32 r off v \<Rightarrow> r = R_Messagebuffer \<and> ACM_MSGBUF_DATA i \<le> off \<and> off + 4 \<le> ACM_MSGBUF_DATA (i + 1) | W16 r off v \<Rightarrow> False | _ \<Rightarrow> True)"

lemma iowrite32_words_last:
  "last32 (k_io (iowrite32_words r off bs n s)) r p =
     (if \<exists>k<n. p = off + 4 * k then Some (get_u32 (drop (p - off) bs)) else last32 (k_io s) r p)"
proof (induction n arbitrary: off bs s)
  case (Suc n)
  have "(\<exists>k<Suc n. p = off + 4 * k) \<longleftrightarrow> p = off \<or> (\<exists>k<n. p = off + 4 + 4 * k)"
    by (auto simp: less_Suc_eq_0_disj)
  then show ?case by (auto simp: Suc writel_def log_io_def add.commute)
qed simp

lemma msgbuf_size_bound: "msgbuf_size i s = Some m \<Longrightarrow> m \<le> 0x800 \<and> m mod 4 = 0 \<and> 0 < m"
proof -
  assume "msgbuf_size i s = Some m"
  then obtain d where m: "m = (unat (read_bitmask d (GENMASK 29 21)) + 1) * 4"
    by (auto simp: msgbuf_size_def ACM_MSGBUF_DESC_SUBBUFFER_SIZE_def)
  have "unat (read_bitmask d (GENMASK 29 21)) < 512" by (simp add: read_bitmask_field)
  with m show ?thesis by simp
qed

lemma emits_status:
  assumes "msgbuf_read_status i s = Some (v, s')"
  shows "emits no_write s s' \<and> (\<forall>p. last32 (k_io s') R_Messagebuffer p = last32 (k_io s) R_Messagebuffer p)"
proof -
  have "emits no_write s (log_io (R32 R_Messagebuffer (ACM_MSGBUF_STATUS i)) s)" by (rule emits_log) (simp add: no_write_def)
  then show ?thesis
    using assms by (auto simp: msgbuf_read_status_def msgbuf_update_overwritten_def readl_def upd_msgbuf_def bind_eq_Some_conv
        emits_def log_io_def split: if_splits)
qed

lemma no_write_buffer_access: "no_write e \<Longrightarrow> buffer_access i e"
  by (auto simp: no_write_def buffer_access_def split: io.splits)

lemma size_log [simp]: "msgbuf_size i (log_io e s) = msgbuf_size i s" "msgbuf_type i (log_io e s) = msgbuf_type i s"
  "commreg_read_msgbuf_count (log_io e s) = commreg_read_msgbuf_count s"
  by (simp_all add: msgbuf_size_def msgbuf_type_def log_io_def commreg_read_msgbuf_count_def)

lemma log_no_write: "no_write e \<Longrightarrow> emits no_write s (log_io e s)"
  by (rule emits_log)

lemma buffer_write:
  assumes "msgbuf_write_from_user i buf sz s = Some (ret, s')"
  shows "emits (buffer_access i) s s' \<and> (ret \<noteq> 0 \<longrightarrow> emits no_write s s') \<and>
    (ret = 0 \<longrightarrow> (\<exists>m n. msgbuf_size i s = Some m \<and> msgbuf_type i s = Some ACM_MSGBUF_TYPE_TX \<and> n = min sz m \<and>
       (\<forall>k < m div 4. last32 (k_io s') R_Messagebuffer (ACM_MSGBUF_DATA i + 4 * k) = Some (get_u32 (drop (4 * k) (take n buf @ replicate (m - n) 0))))))"
proof -
  obtain m t where m: "msgbuf_size i s = Some m" "msgbuf_type i s = Some t"
    using assms by (auto simp: msgbuf_write_from_user_def bind_eq_Some_conv)
  let ?s1 = "log_io Copy_user s" and ?n = "min sz m"
  let ?s2 = "log_io Lock_intr ?s1" and ?bounce = "take ?n buf @ replicate (m - ?n) 0"
  let ?s3 = "iowrite32_words R_Messagebuffer (ACM_MSGBUF_DATA i) ?bounce (m div 4) ?s2"
  have quiet: "emits no_write s ?s1" "emits no_write s ?s2"
    by (auto intro: emits_trans [OF log_no_write log_no_write] log_no_write simp: no_write_def)
  have al: "acm_iowrite32_copy R_Messagebuffer (ACM_MSGBUF_DATA i) ?bounce m ?s2 = ?s3"
    using msgbuf_size_bound [OF m(1)] by (simp add: acm_iowrite32_copy_def is_aligned32_def mod_add_eq [symmetric] mod_mult_right_eq)
  have "emits (buffer_access i) ?s2 ?s3"
  proof (rule emits_mono [OF emits_iowrite32_words])
    fix e assume "\<exists>k < m div 4. \<exists>v. e = W32 R_Messagebuffer (ACM_MSGBUF_DATA i + 4 * k) v"
    then obtain k v where k: "k < m div 4" "e = W32 R_Messagebuffer (ACM_MSGBUF_DATA i + 4 * k) v" by blast
    have "4 * k + 4 \<le> 0x800" using k(1) msgbuf_size_bound [OF m(1)] by presburger
    then show "buffer_access i e" by (simp add: buffer_access_def k(2))
  qed
  with quiet(2) have written: "emits (buffer_access i) s ?s3"
    by (blast intro: emits_trans emits_mono no_write_buffer_access)
  show ?thesis
  proof (cases "ret = 0 \<and> t = ACM_MSGBUF_TYPE_TX")
    case True
    then obtain v where st: "msgbuf_read_status i ?s3 = Some (v, s')"
      using assms m al by (auto simp: msgbuf_write_from_user_def bind_eq_Some_conv lock_intr_def copy_user_def Let_def split: if_splits)
    note status = emits_status [OF st]
    have "last32 (k_io s') R_Messagebuffer (ACM_MSGBUF_DATA i + 4 * k) = Some (get_u32 (drop (4 * k) ?bounce))" if "k < m div 4" for k
      using status that by (auto simp: iowrite32_words_last)
    moreover have "emits (buffer_access i) s s'"
      using written status by (blast intro: emits_trans emits_mono no_write_buffer_access)
    ultimately show ?thesis using True m by blast
  next
    case False
    then have "emits no_write s s' \<and> ret \<noteq> 0"
      using assms m quiet
      by (auto simp: msgbuf_write_from_user_def bind_eq_Some_conv lock_intr_def copy_user_def Let_def emits_refl split: if_splits)
    then show ?thesis by (blast intro: emits_mono no_write_buffer_access)
  qed
qed

text \<open>
  C37: Writing to the device of a message buffer touches no word of another buffer, and no hardware at
  all when it fails. When it succeeds the driver is in state RUN, the buffer is one for sending, and
  it then holds the data, cut to its size, followed by zeros up to its end.
\<close>

theorem device_write_fills_buffer:
  assumes "acm_dev_write i buf sz pos s = Some (ret, s')"
  shows "emits (buffer_access i) s s' \<and> (ret < 0 \<longrightarrow> emits no_write s s') \<and>
    (0 \<le> ret \<longrightarrow> acm_state_get s = ACMDRV_RUN_STATE \<and> pos = 0 \<and>
      (\<exists>m n. msgbuf_size i s = Some m \<and> msgbuf_type i s = Some ACM_MSGBUF_TYPE_TX \<and> n = min (nat ret) m \<and>
        ret = int (min sz (ad_size (k_devices s ! i))) \<and>
        (\<forall>k < m div 4. last32 (k_io s') R_Messagebuffer (ACM_MSGBUF_DATA i + 4 * k) = Some (get_u32 (drop (4 * k) (take n buf @ replicate (m - n) 0))))))"
proof -
  let ?t = "log_io Lock_intr s" and ?sz = "min sz (ad_size (k_devices s ! i))"
  have lock: "emits no_write s ?t" by (rule log_no_write) (simp add: no_write_def)
  obtain l where l: "lock_intr s = (l, ?t)" "l \<le> 0" by (simp add: lock_intr_def)
  have i: "get_elem (k_devices s) i = Some (k_devices s ! i)"
    using assms by (cases "i < length (k_devices s)") (auto simp: acm_dev_write_def get_elem_def)
  have sz: "(if ad_size (k_devices s ! i) < sz then ad_size (k_devices s ! i) else sz) = ?sz" by simp
  have run: "acm_state_is_running ?t = (acm_state_get s = ACMDRV_RUN_STATE)"
    by (simp add: acm_state_is_running_def acm_state_get_def log_io_def)
  note step = assms [unfolded acm_dev_write_def i bind.bind_lunit l(1) Let_def prod.case sz run]
  have "ret < 0 \<and> emits no_write s s' \<or>
      acm_state_get s = ACMDRV_RUN_STATE \<and> pos = 0 \<and> (\<exists>r. msgbuf_write_from_user i buf ?sz ?t = Some (r, s') \<and> ret = (if r \<noteq> 0 then - EFAULT else int ?sz))"
  proof (cases "l = 0 \<and> acm_state_get s = ACMDRV_RUN_STATE \<and> pos = 0")
    case True
    then have "msgbuf_write_from_user i buf ?sz ?t \<bind> (\<lambda>(r, u). if r \<noteq> 0 then Some (- EFAULT, u) else Some (int ?sz, u)) = Some (ret, s')"
      using step by (simp only: simp_thms if_True if_False not_True_eq_False)
    then obtain r u where "msgbuf_write_from_user i buf ?sz ?t = Some (r, u)" and res: "(if r \<noteq> 0 then Some (- EFAULT, u) else Some (int ?sz, u)) = Some (ret, s')"
      unfolding bind_eq_Some_conv by (elim exE conjE) (simp only: prod.case split: prod.splits)
    moreover from res have "u = s'" "ret = (if r \<noteq> 0 then - EFAULT else int ?sz)" by (cases "r = 0"; simp)+
    ultimately show ?thesis using True by blast
  next
    case False
    then show ?thesis using step l(2) lock by (auto split: if_splits)
  qed
  then show ?thesis
  proof (elim disjE conjE exE)
    assume "ret < 0" "emits no_write s s'"
    then show ?thesis by (auto intro: emits_mono no_write_buffer_access)
  next
    fix r
    assume run: "acm_state_get s = ACMDRV_RUN_STATE" "pos = 0" and w: "msgbuf_write_from_user i buf ?sz ?t = Some (r, s')"
      and ret: "ret = (if r \<noteq> 0 then - EFAULT else int ?sz)"
    note bw = buffer_write [OF w]
    have "emits (buffer_access i) s s'"
      using bw lock by (blast intro: emits_trans emits_mono no_write_buffer_access)
    moreover have "r \<noteq> 0 \<Longrightarrow> emits no_write s s'" using bw lock by (blast intro: emits_trans)
    ultimately show ?thesis using run bw ret by (cases "r = 0") auto
  qed
qed

text \<open>Five bytes to a buffer of eight.\<close>

definition ex_sending_kacm :: kacm where
  "ex_sending_kacm = ex_kacm\<lparr>k_status := 4, k_msgbuf := (k_msgbuf ex_kacm)\<lparr>mb_desc_cache := replicate 32 0x80300000\<rparr>,
     k_devices := replicate 32 \<lparr>ad_id = 0, ad_size = 8, ad_name = ''tx'', ad_active = True, ad_timestamp = False\<rparr>\<rparr>"

lemma status_readable:
  "i < length (mb_overwritten (k_msgbuf s)) \<Longrightarrow> \<exists>v s'. msgbuf_read_status i s = Some (v, s')"
  by (auto simp: msgbuf_read_status_def readl_def msgbuf_update_overwritten_def get_elem_def log_io_def)

lemma iowrite32_words_msgbuf: "k_msgbuf (iowrite32_words r off bs n s) = k_msgbuf s"
  by (induction n arbitrary: off bs s) (simp_all add: writel_def log_io_def)

lemma device_write_fills_buffer_witness:
  "\<exists>s'. acm_dev_write 2 [1, 2, 3, 4, 5] 5 0 ex_sending_kacm = Some (5, s') \<and>
     last32 (k_io s') R_Messagebuffer 0x11000 = Some 0x04030201 \<and> last32 (k_io s') R_Messagebuffer 0x11004 = Some 5"
proof -
  have f: "unat (read_bitmask 0x80300000 (GENMASK 29 21)) = 1" "unat (read_bitmask 0x80300000 (GENMASK 20 20)) = 1"
    by (simp_all add: read_bitmask_field)
  have m: "msgbuf_size 2 ex_sending_kacm = Some 8"
    by (simp add: msgbuf_size_def ACM_MSGBUF_DESC_SUBBUFFER_SIZE_def ex_sending_kacm_def get_elem_def f)
  have t: "msgbuf_type 2 ex_sending_kacm = Some 1"
    using f(2) by (simp add: msgbuf_type_def ACM_MSGBUF_DESC_TYPE_def ex_sending_kacm_def get_elem_def word_unat_eq_iff)
  let ?bounce = "[1, 2, 3, 4, 5, 0, 0, 0]"
  have calm: "lock_intr s = (0, log_io Lock_intr s)" "copy_user s = (False, log_io Copy_user s)"
    if "k_env s = ex_kenv" for s
    using that by (simp_all add: lock_intr_def copy_user_def ex_kenv_def)
  have ex: "k_env ex_sending_kacm = ex_kenv" "k_status ex_sending_kacm = 4" "length (mb_overwritten (k_msgbuf ex_sending_kacm)) = 32"
    "get_elem (k_devices ex_sending_kacm) 2 = Some \<lparr>ad_id = 0, ad_size = 8, ad_name = ''tx'', ad_active = True, ad_timestamp = False\<rparr>"
    "commreg_read_msgbuf_count ex_sending_kacm = 32"
    by (simp_all add: ex_sending_kacm_def ex_kacm_def get_elem_def commreg_read_msgbuf_count_def ex_commreg_def)
  let ?t = "log_io Lock_intr (log_io Copy_user (log_io Lock_intr ex_sending_kacm))"
  have msgbuf: "k_msgbuf (acm_iowrite32_copy R_Messagebuffer off bs n s) = k_msgbuf s" for off bs n s
    by (simp add: acm_iowrite32_copy_def iowrite32_words_msgbuf)
  have "\<exists>v s'. msgbuf_read_status 2 (acm_iowrite32_copy R_Messagebuffer (ACM_MSGBUF_DATA 2) ?bounce 8 ?t) = Some (v, s')"
    by (rule status_readable) (simp only: msgbuf, simp add: log_io_def ex)
  then obtain v s' where s': "msgbuf_read_status 2 (acm_iowrite32_copy R_Messagebuffer (ACM_MSGBUF_DATA 2) ?bounce 8 ?t) = Some (v, s')"
    by blast
  have env: "k_env (log_io e s) = k_env s" "k_status (log_io e s) = k_status s" for e s by (simp_all add: log_io_def)
  have "msgbuf_write_from_user 2 [1, 2, 3, 4, 5] 5 (log_io Lock_intr ex_sending_kacm) = Some (0, s')"
    using s' by (simp add: msgbuf_write_from_user_def m t calm env ex numeral_3_eq_3)
  then have w: "acm_dev_write 2 [1, 2, 3, 4, 5] 5 0 ex_sending_kacm = Some (5, s')"
    by (simp add: acm_dev_write_def ex calm env acm_state_is_running_def)
  from device_write_fills_buffer [OF w] m
  have v: "\<And>k. k < 2 \<Longrightarrow> last32 (k_io s') R_Messagebuffer (0x11000 + 4 * k) = Some (get_u32 (drop (4 * k) [1, 2, 3, 4, 5] @ replicate 3 0))"
    by simp
  have "replicate 3 (0 :: u8) = [0, 0, 0]" by (simp add: numeral_3_eq_3)
  with v [of 0] v [of 1] w show ?thesis by (simp add: get_u32_def)
qed

section \<open>The reset lines\<close>

text \<open>The level the reset output was last set to.\<close>

fun reset_output :: "io list \<Rightarrow> bool option" where
  "reset_output [] = None"
| "reset_output (e # es) = (case e of Gpio_set v \<Rightarrow> Some v | _ \<Rightarrow> reset_output es)"

definition reset_polls :: "io list \<Rightarrow> nat" where
  "reset_polls es = length (filter (\<lambda>e. e = Gpio_get) es)"

lemma wait_rstin_history:
  "wait_rstin n v s = (got, s') \<Longrightarrow> \<exists>m \<le> Suc n. k_io s' = replicate m Gpio_get @ k_io s \<and> k_env s' = k_env s \<and>
     (got \<longrightarrow> 0 < m \<and> k_rstin (k_env s) (replicate (m - 1) Gpio_get @ k_io s) = v)"
proof (induction n v s arbitrary: got s' rule: wait_rstin.induct)
  case (1 n v s)
  show ?case
  proof (cases "k_rstin (k_env s) (k_io s) = v")
    case True
    with "1.prems" have "got" "s' = log_io Gpio_get s" by (auto simp: Let_def)
    with True show ?thesis by (intro exI [of _ 1]) (simp add: log_io_def)
  next
    case False
    show ?thesis
    proof (cases n)
      case 0
      with "1.prems" False have "\<not> got" "s' = log_io Gpio_get s" by (auto simp: Let_def)
      with 0 show ?thesis by (intro exI [of _ 1]) (simp add: log_io_def)
    next
      case (Suc j)
      with "1.prems" False have "wait_rstin j v (log_io Gpio_get s) = (got, s')" by (simp add: Let_def)
      from "1.IH" [OF refl refl False Suc this] obtain m where
        m: "m \<le> Suc j" "k_io s' = replicate m Gpio_get @ Gpio_get # k_io s" "k_env s' = k_env s"
          "got \<longrightarrow> 0 < m \<and> k_rstin (k_env s) (replicate (m - 1) Gpio_get @ Gpio_get # k_io s) = v"
        by (auto simp: log_io_def)
      have shift: "replicate k Gpio_get @ Gpio_get # h = replicate (Suc k) Gpio_get @ h" for k h
        by (simp add: replicate_app_Cons_same)
      from m show ?thesis
        by (intro exI [of _ "Suc m"]) (auto simp: Suc shift simp flip: replicate_Suc)
    qed
  qed
qed

lemma reset_output_polls [simp]: "reset_output (replicate m Gpio_get @ es) = reset_output es"
  by (induction m) simp_all

lemma reset_polls_simps [simp]:
  "reset_polls (replicate m Gpio_get @ es) = m + reset_polls es" "reset_polls (Gpio_set v # es) = reset_polls es"
  by (induction m) (simp_all add: reset_polls_def)

text \<open>
  C38: However the reset input behaves, the reset by lines ends after at most 34 looks at the input
  with the reset output released, and returns zero or a timeout; zero with an input means that the
  input went up and came down again.
\<close>

theorem reset_line_released:
  assumes "reset_gpio s = (ret, s')" "k_rstout_valid (k_env s)"
  shows "reset_output (k_io s') = Some False \<and> reset_polls (k_io s') \<le> reset_polls (k_io s) + 34 \<and> (ret = 0 \<or> ret = - ETIMEDOUT) \<and>
    (ret = 0 \<and> k_rstin_valid (k_env s) \<longrightarrow>
      (\<exists>h a b. k_io s' = a @ b @ h \<and> length (k_io s) < length h \<and> b \<noteq> [] \<and> k_rstin (k_env s) h \<and> \<not> k_rstin (k_env s) (b @ h)))"
proof -
  let ?s1 = "log_io (Gpio_set True) s"
  obtain up s2 where w1: "wait_rstin 16 True ?s1 = (up, s2)" by (cases "wait_rstin 16 True ?s1")
  obtain down s3 where w2: "wait_rstin 16 False (log_io (Gpio_set False) s2) = (down, s3)"
    by (cases "wait_rstin 16 False (log_io (Gpio_set False) s2)")
  from wait_rstin_history [OF w1] obtain m1 where m1: "m1 \<le> 17" "k_io s2 = replicate m1 Gpio_get @ Gpio_set True # k_io s" "k_env s2 = k_env s"
    "up \<Longrightarrow> 0 < m1 \<and> k_rstin (k_env s) (replicate (m1 - 1) Gpio_get @ Gpio_set True # k_io s)" by (auto simp: log_io_def)
  from wait_rstin_history [OF w2] m1 obtain m2 where m2: "m2 \<le> 17" "k_io s3 = replicate m2 Gpio_get @ Gpio_set False # k_io s2"
    "down \<Longrightarrow> 0 < m2 \<and> \<not> k_rstin (k_env s) (replicate (m2 - 1) Gpio_get @ Gpio_set False # k_io s2)" by (auto simp: log_io_def)
  note io = log_io_def ETIMEDOUT_def
  consider "\<not> k_rstin_valid (k_env s)" | "k_rstin_valid (k_env s)" "\<not> up" | "k_rstin_valid (k_env s)" "up" "\<not> down"
    | "k_rstin_valid (k_env s)" "up" "down" by blast
  then show ?thesis
  proof cases
    assume "\<not> k_rstin_valid (k_env s)"
    with assms have "ret = 0" "k_io s' = Gpio_set False # Gpio_set True # k_io s" by (auto simp: reset_gpio_def io)
    with \<open>\<not> k_rstin_valid (k_env s)\<close> show ?thesis by simp
  next
    assume up: "k_rstin_valid (k_env s)" "\<not> up"
    with assms w1 have "ret = - ETIMEDOUT" "k_io s' = Gpio_set False # k_io s2" by (auto simp: reset_gpio_def io)
    with m1 show ?thesis by simp
  next
    assume down: "k_rstin_valid (k_env s)" "up" "\<not> down"
    with assms w1 w2 have "ret = - ETIMEDOUT" "s' = s3" by (auto simp: reset_gpio_def io)
    with m1 m2 show ?thesis by simp
  next
    assume both: "k_rstin_valid (k_env s)" "up" "down"
    with assms w1 w2 have "ret = 0" "k_io s' = Gpio_set False # k_io s3" by (auto simp: reset_gpio_def io)
    moreover obtain j1 j2 where j: "m1 = Suc j1" "m2 = Suc j2"
      using m1(4) [OF both(2)] m2(3) [OF both(3)] by (metis not0_implies_Suc less_numeral_extra(3))
    let ?h = "replicate j1 Gpio_get @ Gpio_set True # k_io s" and ?b = "replicate j2 Gpio_get @ [Gpio_set False, Gpio_get]"
    have "k_io s3 = [Gpio_get] @ ?b @ ?h" "k_rstin (k_env s) ?h" "\<not> k_rstin (k_env s) (?b @ ?h)" "length (k_io s) < length ?h"
      using m1(2) m1(4) [OF both(2)] m2(2) m2(3) [OF both(3)] by (simp_all add: j)
    then have "\<exists>h a b. Gpio_set False # k_io s3 = a @ b @ h \<and> length (k_io s) < length h \<and> b \<noteq> [] \<and> k_rstin (k_env s) h \<and> \<not> k_rstin (k_env s) (b @ h)"
      by (intro exI [of _ ?h] exI [of _ "[Gpio_set False, Gpio_get]"] exI [of _ ?b]) simp
    ultimately show ?thesis using m1(1,2) m2(1,2) by (simp del: append_assoc)
  qed
qed

lemma reset_line_released_witness:
  "reset_output (k_io (snd (reset_gpio (ex_kacm\<lparr>k_env := ex_kenv\<lparr>k_rstout_valid := True, k_rstin_valid := True, k_rstin := (\<lambda>h. length h < 4)\<rparr>\<rparr>)))) = Some False"
proof -
  let ?s = "ex_kacm\<lparr>k_env := ex_kenv\<lparr>k_rstout_valid := True, k_rstin_valid := True, k_rstin := (\<lambda>h. length h < 4)\<rparr>\<rparr>"
  obtain ret s' where r: "reset_gpio ?s = (ret, s')" by (cases "reset_gpio ?s")
  have "k_rstout_valid (k_env ?s)" by simp
  from reset_line_released [OF r this] show ?thesis unfolding r by simp
qed

end
