(* ===== verification/Acm_Drv_Main.thy ===== *)
theory Acm_Drv_Main
  imports Acm_Drv_Device_Theorems Acm_Drv_Examples
begin

text \<open>
  Probing and removing the driver (\<^verbatim>\<open>main.c\<close>): the order in which the parts are set up, the labels that
  a failure jumps to, and what the theorem says about them. What the kernel returns is a parameter.
\<close>

section \<open>Stages\<close>

text \<open>
  The stages in the order of the code. \<open>S_name\<close> sets the name of the device and has nothing to undo.
  The events record which stage was set up or torn down, the last one first.
\<close>

datatype probe_stage = S_wq | S_commreg | S_reset | S_bypass | S_scheduler | S_redundancy | S_msgbuf | S_name
  | S_device | S_chrdev | S_devices | S_sysfs | S_state

datatype probe_event = Up probe_stage | Down probe_stage

text \<open>
  \<open>pe_alloc\<close> says whether the memory of a stage could be allocated, \<open>pe_ret\<close> is the result of its other
  kernel calls (mapping of registers, requesting of GPIOs, registration).
\<close>

record probe_env =
  pe_node :: bool
  pe_acm :: bool
  pe_variant :: "acm_ip_if_variant option"
  pe_alloc :: "probe_stage \<Rightarrow> bool"
  pe_ret :: "probe_stage \<Rightarrow> int"
  pe_bypass_map :: "nat \<Rightarrow> int"
  pe_ptp_node :: bool
  pe_frtc :: bool

fun stage_init :: "probe_env \<Rightarrow> probe_stage \<Rightarrow> kacm \<Rightarrow> (int \<times> kacm) option" where
  "stage_init e S_commreg s = Some (commreg_init (pe_alloc e S_commreg) (pe_ret e S_commreg) s)"
| "stage_init e S_reset s = Some (reset_init (pe_alloc e S_reset) (pe_ret e S_reset) s)"
| "stage_init e S_bypass s = bypass_init (pe_alloc e S_bypass) (pe_bypass_map e) (pe_ret e S_bypass) s"
| "stage_init e S_scheduler s =
     Some (scheduler_init (pe_alloc e S_scheduler) (pe_ret e S_scheduler) (pe_ptp_node e) (pe_frtc e) s)"
| "stage_init e S_redundancy s = Some (redundancy_init (pe_alloc e S_redundancy) (pe_ret e S_redundancy) s)"
| "stage_init e S_msgbuf s = msgbuf_init (pe_alloc e S_msgbuf) (pe_ret e S_msgbuf) s"
| "stage_init e S_devices s = Some (acm_dev_create (pe_alloc e S_devices) (commreg_read_msgbuf_count s) s)"
| "stage_init e S_state s = Some (acm_state_init (pe_alloc e S_state) s)"
| "stage_init e stage s = Some (pe_ret e stage, s)"

fun stage_exit :: "probe_stage \<Rightarrow> kacm \<Rightarrow> kacm option" where
  "stage_exit S_bypass s = Some (bypass_exit s)"
| "stage_exit S_scheduler s = Some (scheduler_exit s)"
| "stage_exit S_redundancy s = Some (redundancy_exit s)"
| "stage_exit S_devices s = acm_dev_destroy s"
| "stage_exit _ s = Some s"

definition stage_logged :: "probe_stage \<Rightarrow> (probe_stage \<Rightarrow> probe_event) \<Rightarrow> probe_event list \<Rightarrow> probe_event list" where
  "stage_logged x f ev = (if x = S_name then ev else f x # ev)"

fun exit_stages :: "probe_stage list \<Rightarrow> kacm \<Rightarrow> probe_event list \<Rightarrow> (kacm \<times> probe_event list) option" where
  "exit_stages [] s ev = Some (s, ev)"
| "exit_stages (x # xs) s ev = do { s \<leftarrow> stage_exit x s; exit_stages xs s (stage_logged x Down ev) }"

section \<open>Probe and remove\<close>

text \<open>The labels at the end of \<^verbatim>\<open>acm_probe\<close>, each named after the stage it undoes; a jump runs all from there on.\<close>

definition probe_labels :: "probe_stage list" where
  "probe_labels = [S_sysfs, S_devices, S_chrdev, S_device, S_msgbuf, S_redundancy, S_scheduler, S_bypass, S_reset,
     S_commreg, S_wq]"

definition probe_goto :: "probe_stage \<Rightarrow> kacm \<Rightarrow> probe_event list \<Rightarrow> (kacm \<times> probe_event list) option" where
  "probe_goto label s ev = exit_stages (dropWhile (\<lambda>x. x \<noteq> label) probe_labels) s ev"

text \<open>The stages after the work queue, with the label a failure jumps to.\<close>

definition probe_steps :: "(probe_stage \<times> probe_stage) list" where
  "probe_steps = [(S_commreg, S_wq), (S_reset, S_commreg), (S_bypass, S_reset), (S_scheduler, S_bypass),
     (S_redundancy, S_scheduler), (S_msgbuf, S_redundancy), (S_name, S_msgbuf), (S_device, S_msgbuf), (S_chrdev, S_device),
     (S_devices, S_chrdev), (S_sysfs, S_devices), (S_state, S_sysfs)]"

text \<open>
  When the devices cannot be created, the region of the character devices is released before the jump
  to the label that releases it.
\<close>

fun probe_run :: "probe_env \<Rightarrow> (probe_stage \<times> probe_stage) list \<Rightarrow> kacm \<Rightarrow> probe_event list \<Rightarrow>
    (int \<times> kacm \<times> probe_event list) option" where
  "probe_run e [] s ev = Some (0, s, ev)"
| "probe_run e ((x, label) # xs) s ev = do {
     (ret, s) \<leftarrow> stage_init e x s;
     if ret \<noteq> 0 then do {
       (s, ev) \<leftarrow> probe_goto label s (if x = S_devices then Down S_chrdev # ev else ev);
       Some (ret, s, ev) }
     else probe_run e xs s (stage_logged x Up ev) }"

definition acm_probe :: "probe_env \<Rightarrow> kacm \<Rightarrow> (int \<times> kacm \<times> probe_event list) option" where
  "acm_probe e s =
     (if \<not> pe_node e then Some (- EINVAL, s, [])
      else if \<not> pe_acm e then Some (- ENOMEM, s, [])
      else case pe_variant e of
          None \<Rightarrow> Some (- ENODEV, s, [])
        | Some v \<Rightarrow>
            if \<not> pe_alloc e S_wq then Some (0, s\<lparr>k_if_id := v\<rparr>, [])
            else probe_run e probe_steps (s\<lparr>k_if_id := v\<rparr>) [Up S_wq])"

definition acm_remove :: "kacm \<Rightarrow> (kacm \<times> probe_event list) option" where
  "acm_remove s = exit_stages [S_state, S_devices, S_chrdev, S_device, S_msgbuf, S_redundancy, S_scheduler, S_bypass,
     S_reset, S_commreg, S_wq] s []"

text \<open>
  Loading the module: \<open>class_err\<close> is the error of creating the class, if any. The second component says
  whether the class exists afterwards.
\<close>

definition acm_module_init :: "int option \<Rightarrow> int \<Rightarrow> int \<times> bool" where
  "acm_module_init class_err register_ret = (case class_err of
     Some e \<Rightarrow> (e, False)
   | None \<Rightarrow> if register_ret \<noteq> 0 then (register_ret, False) else (0, True))"

section \<open>Failures are undone\<close>

definition probe_order :: "probe_stage list" where
  "probe_order = [S_wq, S_commreg, S_reset, S_bypass, S_scheduler, S_redundancy, S_msgbuf, S_device, S_chrdev, S_devices,
     S_sysfs, S_state]"

lemma exit_stages_events:
  "exit_stages xs s ev = Some (s', ev') \<Longrightarrow> ev' = rev (map Down (filter (\<lambda>x. x \<noteq> S_name) xs)) @ ev"
  by (induction xs arbitrary: s ev) (auto simp: bind_eq_Some_conv stage_logged_def)

lemma goto_events:
  assumes "probe_goto l s ev = Some (s', ev')"
  shows "ev' = rev (map Down (dropWhile (\<lambda>x. x \<noteq> l) probe_labels)) @ ev"
proof -
  have "filter (\<lambda>x. x \<noteq> S_name) (dropWhile P probe_labels) = dropWhile P probe_labels" for P
    by (rule filter_True) (auto simp: probe_labels_def dest!: set_dropWhileD)
  then show ?thesis using exit_stages_events [OF assms [unfolded probe_goto_def]] by simp
qed

text \<open>The events of a run, for any list of stages.\<close>

definition logged_stages :: "(probe_stage \<times> probe_stage) list \<Rightarrow> probe_stage list" where
  "logged_stages xs = filter (\<lambda>x. x \<noteq> S_name) (map fst xs)"

lemma probe_run_events:
  assumes "probe_run e xs s ev = Some (ret, s', ev')"
  shows "(ret = 0 \<and> ev' = rev (map Up (logged_stages xs)) @ ev) \<or>
    (\<exists>i < length xs. ret \<noteq> 0 \<and> ev' = rev (map Down (dropWhile (\<lambda>x. x \<noteq> snd (xs ! i)) probe_labels)) @
       (if fst (xs ! i) = S_devices then [Down S_chrdev] else []) @ rev (map Up (logged_stages (take i xs))) @ ev)"
  using assms
proof (induction xs arbitrary: s ev)
  case (Cons y xs)
  obtain x l where y: "y = (x, l)" by (cases y)
  obtain r t where r: "stage_init e x s = Some (r, t)" using Cons.prems by (auto simp: y bind_eq_Some_conv)
  show ?case
  proof (cases "r = 0")
    case True
    then have run: "probe_run e xs t (stage_logged x Up ev) = Some (ret, s', ev')" using Cons.prems r by (simp add: y)
    from Cons.IH [OF this] show ?thesis
      by (elim disjE exE conjE) (auto simp: y logged_stages_def stage_logged_def intro!: exI [of _ "Suc _"])
  next
    case False
    then show ?thesis
      using Cons.prems r by (auto simp: y bind_eq_Some_conv logged_stages_def dest!: goto_events intro!: exI [of _ 0])
  qed
qed (simp add: logged_stages_def)

text \<open>The parts that are set up when a stage fails.\<close>

definition set_up_before :: "nat \<Rightarrow> probe_stage list" where
  "set_up_before i = S_wq # logged_stages (take i probe_steps)"

lemma labels_match:
  "list_all (\<lambda>i. dropWhile (\<lambda>x. x \<noteq> snd (probe_steps ! i)) probe_labels = rev (set_up_before i) \<and>
     take (length (set_up_before i)) probe_order = set_up_before i \<and>
     (fst (probe_steps ! i) = S_devices \<longleftrightarrow> length (set_up_before i) = 9)) [0..<length probe_steps]"
  by code_simp

lemma order_complete: "probe_order = S_wq # logged_stages probe_steps"
  by code_simp

text \<open>
  C40: When probing fails, every part that was set up is torn down once, in the reverse order, with one
  exception: when the devices cannot be created, the region of the character devices is released
  twice. When it succeeds all parts are set up in order, unless the work queue could not be
  allocated: then the probe reports success with nothing set up. Removing tears down all parts in
  reverse order but for the attributes.
\<close>

theorem probe_failure_undone:
  assumes "acm_probe e s = Some (ret, s', ev)"
  shows "(ret \<noteq> 0 \<longrightarrow> (\<exists>k. rev ev = map Up (take k probe_order) @
       (if k = 9 then [Down S_chrdev] else []) @ map Down (rev (take k probe_order)))) \<and>
    (ret = 0 \<longrightarrow> rev ev = map Up probe_order \<or> \<not> pe_alloc e S_wq \<and> ev = []) \<and>
    (\<forall>t t' rm. acm_remove t = Some (t', rm) \<longrightarrow> rev rm = map Down (filter (\<lambda>x. x \<noteq> S_sysfs) (rev probe_order)))"
proof -
  have "\<exists>k. rev ev = map Up (take k probe_order) @ (if k = 9 then [Down S_chrdev] else []) @ map Down (rev (take k probe_order))"
    if failed: "ret \<noteq> 0"
  proof (cases "pe_node e \<and> pe_acm e \<and> pe_variant e \<noteq> None \<and> pe_alloc e S_wq")
    case True
    then obtain v where "probe_run e probe_steps (s\<lparr>k_if_id := v\<rparr>) [Up S_wq] = Some (ret, s', ev)"
      using assms by (auto simp: acm_probe_def)
    from probe_run_events [OF this] failed obtain i where i: "i < length probe_steps"
        "ev = rev (map Down (dropWhile (\<lambda>x. x \<noteq> snd (probe_steps ! i)) probe_labels)) @
          (if fst (probe_steps ! i) = S_devices then [Down S_chrdev] else []) @
          rev (map Up (logged_stages (take i probe_steps))) @ [Up S_wq]" by auto
    have m: "dropWhile (\<lambda>x. x \<noteq> snd (probe_steps ! i)) probe_labels = rev (set_up_before i)"
        "take (length (set_up_before i)) probe_order = set_up_before i"
        "fst (probe_steps ! i) = S_devices \<longleftrightarrow> length (set_up_before i) = 9"
      using labels_match i(1) unfolding list_all_iff by simp_all
    have "rev ev = map Up (set_up_before i) @ (if length (set_up_before i) = 9 then [Down S_chrdev] else []) @
        map Down (rev (set_up_before i))"
      unfolding i(2) m(1) m(3) by (simp add: set_up_before_def rev_map)
    then show ?thesis using m(2) by (intro exI [of _ "length (set_up_before i)"]) simp
  next
    case False
    then have "ev = []" using assms failed by (auto simp: acm_probe_def split: option.split_asm if_split_asm)
    then show ?thesis by (intro exI [of _ 0]) simp
  qed
  moreover have "rev ev = map Up probe_order \<or> \<not> pe_alloc e S_wq \<and> ev = []" if "ret = 0"
    using assms that
    by (auto simp: acm_probe_def order_complete split: if_split_asm option.split_asm dest!: probe_run_events)
  moreover have "rev rm = map Down (filter (\<lambda>x. x \<noteq> S_sysfs) (rev probe_order))" if "acm_remove t = Some (t', rm)" for t t' rm
    using exit_stages_events [OF that [unfolded acm_remove_def]] by (simp add: probe_order_def)
  ultimately show ?thesis by blast
qed

text \<open>A kernel without memory for the bypass modules, with the old variant of the interface.\<close>

definition ex_probe :: probe_env where
  "ex_probe = \<lparr>pe_node = True, pe_acm = True, pe_variant = Some ACM_IF_1_0, pe_alloc = (\<lambda>x. x \<noteq> S_bypass), pe_ret = (\<lambda>_. 0),
     pe_bypass_map = (\<lambda>_. 0), pe_ptp_node = True, pe_frtc = True\<rparr>"

theorem probe_failure_undone_witness:
  "\<exists>s' ev. acm_probe ex_probe ex_kacm = Some (- ENOMEM, s', ev) \<and>
    (\<exists>k. rev ev = map Up (take k probe_order) @ (if k = 9 then [Down S_chrdev] else []) @ map Down (rev (take k probe_order)))"
proof -
  obtain s' ev where run: "acm_probe ex_probe ex_kacm = Some (- ENOMEM, s', ev)"
    by (simp add: acm_probe_def ex_probe_def probe_steps_def commreg_init_def reset_init_def bypass_init_def
        probe_goto_def probe_labels_def)
  then show ?thesis using probe_failure_undone [OF run] by auto
qed

end
