(* ===== verification/Acm_Yang_Parse.thy ===== *)
theory Acm_Yang_Parse
  imports Acm_Api Acm_Status
begin

text \<open>
  The YANG plugin (\<^verbatim>\<open>src/ngn.acm-yang\<close>), first part: what the plugin asks of sysrepo, and the
  functions of \<^verbatim>\<open>parse_functions.c\<close> and \<^verbatim>\<open>common.c\<close> that read values from nodes of the datastore.
  Sysrepo is not part of the repository: its functions are fields of \<open>sr_env\<close>. The value of a node
  is a union of C; reading a member other than the one that was stored has no result here (\<open>None\<close>).
  Bytes of an array that nothing was written to are \<open>None\<close>.
\<close>

section \<open>Sysrepo\<close>

text \<open>
  The decimal numbers of the schema have three fraction digits; the value here is the number of
  thousandths, so that comparing the C doubles is comparing these numbers.
\<close>

datatype sr_data =
    Sr_string string
  | Sr_enum string
  | Sr_bool bool
  | Sr_uint8 u8
  | Sr_uint16 u16
  | Sr_uint32 u32
  | Sr_uint64 u64
  | Sr_decimal64 int
  | Sr_no_data

record sr_val =
  sr_xpath :: string
  sr_data :: sr_data

text \<open>
  \<open>sr_get_items\<close> is \<open>None\<close> when the call does not return \<^verbatim>\<open>SR_ERR_OK\<close>. \<open>str_len\<close> is \<^verbatim>\<open>MAX_STR_LEN\<close>, the
  length of the buffers of the plugin (a header of another repository), and \<open>sr_alloc\<close> says whether
  an allocation of the plugin succeeds when its list of streams has this length.
\<close>

record sr_env =
  sr_get_items :: "string \<Rightarrow> sr_val list option"
  sr_get_item :: "string \<Rightarrow> sr_val option"
  sr_xpath_node_name_eq :: "string \<Rightarrow> string \<Rightarrow> bool"
  sr_xpath_key_value :: "string \<Rightarrow> string \<Rightarrow> string \<Rightarrow> string option"
  sr_alloc :: "nat \<Rightarrow> bool"
  str_len :: nat

fun string_val :: "sr_data \<Rightarrow> string option" where
  "string_val (Sr_string x) = Some x"
| "string_val _ = None"

fun enum_val :: "sr_data \<Rightarrow> string option" where
  "enum_val (Sr_enum x) = Some x"
| "enum_val _ = None"

fun bool_val :: "sr_data \<Rightarrow> bool option" where
  "bool_val (Sr_bool x) = Some x"
| "bool_val _ = None"

fun uint8_val :: "sr_data \<Rightarrow> u8 option" where
  "uint8_val (Sr_uint8 x) = Some x"
| "uint8_val _ = None"

fun uint16_val :: "sr_data \<Rightarrow> u16 option" where
  "uint16_val (Sr_uint16 x) = Some x"
| "uint16_val _ = None"

fun uint32_val :: "sr_data \<Rightarrow> u32 option" where
  "uint32_val (Sr_uint32 x) = Some x"
| "uint32_val _ = None"

fun uint64_val :: "sr_data \<Rightarrow> u64 option" where
  "uint64_val (Sr_uint64 x) = Some x"
| "uint64_val _ = None"

fun decimal64_val :: "sr_data \<Rightarrow> int option" where
  "decimal64_val (Sr_decimal64 x) = Some x"
| "decimal64_val _ = None"

definition EXIT_SUCCESS :: int where [simp]: "EXIT_SUCCESS = 0"
definition EXIT_FAILURE :: int where [simp]: "EXIT_FAILURE = 1"

definition node_is :: "sr_env \<Rightarrow> string \<Rightarrow> sr_val \<Rightarrow> bool" where
  "node_is env name n = sr_xpath_node_name_eq env (sr_xpath n) name"

text \<open>The value of a leaf replaces a variable when the node has the name of the leaf.\<close>

definition leaf_value :: "sr_env \<Rightarrow> string \<Rightarrow> (sr_data \<Rightarrow> 'a option) \<Rightarrow> sr_val \<Rightarrow> 'a \<Rightarrow> 'a option" where
  "leaf_value env name member n x = (if node_is env name n then member (sr_data n) else Some x)"

section \<open>Text\<close>

fun c_strstr :: "string \<Rightarrow> string \<Rightarrow> bool" where
  "c_strstr [] needle = (needle = [])"
| "c_strstr (c # cs) needle = (take (length needle) (c # cs) = needle \<or> c_strstr cs needle)"

text \<open>
  \<^verbatim>\<open>scanf\<close> with \<^verbatim>\<open>%x\<close> and an optional field width: white space, then a hexadecimal number with
  optional sign and prefix within the width. The result is the number and the rest of the input.
\<close>

definition c_scan_hex :: "nat option \<Rightarrow> string \<Rightarrow> (u64 \<times> string) option" where
  "c_scan_hex width input =
     (let s = dropWhile is_c_space input;
          n = (case width of None \<Rightarrow> length s | Some n \<Rightarrow> n);
          (neg, t) = c_sign (take n s);
          ds = (case t of
              c # x # r \<Rightarrow> if c = CHR ''0'' \<and> (x = CHR ''x'' \<or> x = CHR ''X'') then r else t
            | _ \<Rightarrow> t);
          (v, converted, _) = c_strtoul_digits 16 neg ds in
      if converted then Some (v, dropWhile (is_digit_of 16) ds @ drop n s) else None)"

text \<open>\<^verbatim>\<open>%x-%x-%x-%x-%x-%x%*c\<close>: the numbers that were converted before the first mismatch.\<close>

fun scan_mac :: "nat \<Rightarrow> string \<Rightarrow> u32 list" where
  "scan_mac 0 s = []"
| "scan_mac (Suc n) s = (case c_scan_hex None s of
     None \<Rightarrow> []
   | Some (v, rest) \<Rightarrow> ucast v # (case rest of
         c # cs \<Rightarrow> if c = CHR ''-'' then scan_mac n cs else []
       | [] \<Rightarrow> []))"

text \<open>The loop that reads pairs of digits with \<^verbatim>\<open>%2hhx\<close>; a write outside of the array has no result.\<close>

fun scan_bytes :: "nat \<Rightarrow> nat \<Rightarrow> string \<Rightarrow> u8 option list \<Rightarrow> u8 option list option" where
  "scan_bytes 0 i pos buf = Some buf"
| "scan_bytes (Suc n) i pos buf = (case c_scan_hex (Some 2) pos of
     None \<Rightarrow> scan_bytes n (Suc i) (drop 2 pos) buf
   | Some (v, _) \<Rightarrow>
       if i < length buf then scan_bytes n (Suc i) (drop 2 pos) (buf[i := Some (ucast v)]) else None)"

definition fill_xpath :: "sr_env \<Rightarrow> string \<Rightarrow> string" where
  "fill_xpath env path = take (str_len env - 1) path"

definition get_key_value :: "sr_env \<Rightarrow> string \<Rightarrow> string \<Rightarrow> string \<Rightarrow> string option" where
  "get_key_value env xpath node_name key_name =
     map_option (take (str_len env - 1)) (sr_xpath_key_value env xpath node_name key_name)"

section \<open>Parse functions\<close>

definition parse_mac_addr :: "sr_env \<Rightarrow> string \<Rightarrow> sr_val \<Rightarrow> u8 option list \<Rightarrow> u8 option list option" where
  "parse_mac_addr env name n mac =
     (if \<not> node_is env name n then Some mac
      else do {
        str \<leftarrow> string_val (sr_data n);
        let tmp = scan_mac ETHER_ADDR_LEN str in
        if length tmp = ETHER_ADDR_LEN then Some (map (\<lambda>x. Some (ucast x)) tmp @ drop ETHER_ADDR_LEN mac)
        else Some mac })"

definition parse_stream_vid :: "sr_env \<Rightarrow> sr_val \<Rightarrow> u16 \<Rightarrow> u16 option" where
  "parse_stream_vid env = leaf_value env ''vid'' uint16_val"

definition parse_stream_priority :: "sr_env \<Rightarrow> sr_val \<Rightarrow> u8 \<Rightarrow> u8 option" where
  "parse_stream_priority env = leaf_value env ''priority'' uint8_val"

definition parse_stream_const_data_size :: "sr_env \<Rightarrow> sr_val \<Rightarrow> u16 \<Rightarrow> u16 option" where
  "parse_stream_const_data_size env = leaf_value env ''additional-constant-data-size'' uint16_val"

definition parse_stream_num_of_operations :: "sr_env \<Rightarrow> sr_val \<Rightarrow> u16 \<Rightarrow> u16 option" where
  "parse_stream_num_of_operations env = leaf_value env ''operation-list-length'' uint16_val"

definition parse_hex_string :: "sr_env \<Rightarrow> string \<Rightarrow> nat \<Rightarrow> sr_val \<Rightarrow> u8 option list \<Rightarrow> u8 option list option" where
  "parse_hex_string env name expected_len n buf =
     (if \<not> node_is env name n then Some buf
      else do {
        str \<leftarrow> string_val (sr_data n);
        if str = [] then Some buf
        else if length str div 2 \<noteq> expected_len then Some buf
        else scan_bytes (length str div 2) 0 str buf })"

definition parse_hex_string_add_const_data ::
  "sr_env \<Rightarrow> string \<Rightarrow> nat \<Rightarrow> sr_val \<Rightarrow> u8 option list \<Rightarrow> u8 option list option" where
  "parse_hex_string_add_const_data env name expected_len n buf =
     (if \<not> node_is env name n then Some buf
      else do {
        str \<leftarrow> string_val (sr_data n);
        if str = [] then Some buf
        else if length str div 2 \<noteq> expected_len then Some buf
        else scan_bytes (length str div 2) 0 str buf })"

datatype stream_opcode = OPC_READ | OPC_INSERT | OPC_CONST_INSERT | OPC_FORWARD | OPC_PADDING

definition parse_stream_ops_opcode :: "sr_env \<Rightarrow> stream_opcode \<Rightarrow> sr_val \<Rightarrow> stream_opcode \<Rightarrow> stream_opcode option" where
  "parse_stream_ops_opcode env def_op n op =
     (if \<not> node_is env ''operation-name'' n then Some op
      else do {
        name \<leftarrow> enum_val (sr_data n);
        Some (if name = ''insert'' then OPC_INSERT
          else if name = ''forward'' then OPC_FORWARD
          else if name = ''pad'' then OPC_PADDING
          else if name = ''insert-constant'' then OPC_CONST_INSERT
          else def_op) })"

definition parse_stream_ops_offset :: "sr_env \<Rightarrow> sr_val \<Rightarrow> u16 \<Rightarrow> u16 option" where
  "parse_stream_ops_offset env = leaf_value env ''offset'' uint16_val"

definition parse_stream_ops_length :: "sr_env \<Rightarrow> sr_val \<Rightarrow> u16 \<Rightarrow> u16 option" where
  "parse_stream_ops_length env = leaf_value env ''length'' uint16_val"

definition parse_stream_ops_bufname :: "sr_env \<Rightarrow> sr_val \<Rightarrow> string \<Rightarrow> string option" where
  "parse_stream_ops_bufname env n bufname =
     (if \<not> node_is env ''buffer-name'' n then Some bufname
      else map_option (take (ACM_MAX_NAME_SIZE - 1)) (string_val (sr_data n)))"

text \<open>The loops over the nodes of a container that only read values.\<close>

primrec parse_nodes :: "(sr_val \<Rightarrow> 'd \<Rightarrow> 'd option) \<Rightarrow> sr_val list \<Rightarrow> 'd \<Rightarrow> 'd option" where
  "parse_nodes f [] d = Some d"
| "parse_nodes f (n # ns) d = do { d' \<leftarrow> f n d; parse_nodes f ns d' }"

end
