(* ===== verification/Acm_Yang.thy ===== *)
theory Acm_Yang
  imports Acm_Yang_Parse
begin

text \<open>
  The YANG plugin, second part (\<^verbatim>\<open>acm.c\<close>): a configuration of the datastore becomes a configuration of
  the library, which is validated and applied. Every function of the library is called as in the
  code. The results of sysrepo that are only freed again, and messages to the log, are left out.
\<close>

section \<open>State of the plugin\<close>

text \<open>
  The heap of the library, the list of the streams by key (last one first), and the errors set on
  the session: the path and the return code of the message.
\<close>

record yang_state =
  yg_acm :: acm_state
  tt_streams :: "(ptr \<times> int) list"
  yg_errors :: "(string \<times> int) list"

definition EACMYMODULECREATE :: int where [simp]: "EACMYMODULECREATE = 5001"
definition EACMYSTREAMNUMBER :: int where [simp]: "EACMYSTREAMNUMBER = 5002"
definition EACMYNOSTREAMKEY :: int where [simp]: "EACMYNOSTREAMKEY = 5003"
definition EACMYSTREAMLISTADD :: int where [simp]: "EACMYSTREAMLISTADD = 5004"
definition EACMYITSTREAMCREATE :: int where [simp]: "EACMYITSTREAMCREATE = 5005"
definition EACMYESTREAMCREATE :: int where [simp]: "EACMYESTREAMCREATE = 5006"
definition EACMYRSTREAMCREATE :: int where [simp]: "EACMYRSTREAMCREATE = 5007"
definition EACMYTTSTREAMCREATE :: int where [simp]: "EACMYTTSTREAMCREATE = 5008"
definition EACMYOPERNUMBER :: int where [simp]: "EACMYOPERNUMBER = 5009"
definition EACMYOPERTYPE :: int where [simp]: "EACMYOPERTYPE = 5010"
definition EACMYOPERCONSTLEN :: int where [simp]: "EACMYOPERCONSTLEN = 5011"

text \<open>
  Calls of the library, for functions with a result and without. \<open>if_ok\<close> continues after the return
  code 0 and otherwise returns the code, \<open>replace_code\<close> does the same with another code.
\<close>

definition on_acm :: "(acm_state \<Rightarrow> ('r \<times> acm_state) option) \<Rightarrow> yang_state \<Rightarrow> ('r \<times> yang_state) option" where
  "on_acm f s = map_option (\<lambda>(r, a). (r, s\<lparr>yg_acm := a\<rparr>)) (f (yg_acm s))"

definition do_acm :: "(acm_state \<Rightarrow> acm_state option) \<Rightarrow> yang_state \<Rightarrow> yang_state option" where
  "do_acm f s = map_option (\<lambda>a. s\<lparr>yg_acm := a\<rparr>) (f (yg_acm s))"

definition if_ok :: "int \<times> yang_state \<Rightarrow> (yang_state \<Rightarrow> (int \<times> yang_state) option) \<Rightarrow> (int \<times> yang_state) option" where
  "if_ok res k = (case res of (ret, s) \<Rightarrow> if ret \<noteq> 0 then Some (ret, s) else k s)"

section \<open>The list of streams\<close>

definition tt_stream_list_init :: "yang_state \<Rightarrow> yang_state" where
  "tt_stream_list_init s = s\<lparr>tt_streams := []\<rparr>"

definition tt_stream_list_add :: "sr_env \<Rightarrow> ptr \<Rightarrow> int \<Rightarrow> yang_state \<Rightarrow> int \<times> yang_state" where
  "tt_stream_list_add env stream stream_id s =
     (if \<not> sr_alloc env (length (tt_streams s)) then (- ENOMEM, s)
      else (EXIT_SUCCESS, s\<lparr>tt_streams := (stream, stream_id) # tt_streams s\<rparr>))"

definition tt_stream_list_find :: "int \<Rightarrow> yang_state \<Rightarrow> ptr" where
  "tt_stream_list_find stream_id s =
     (case filter (\<lambda>(_, i). i = stream_id) (tt_streams s) of [] \<Rightarrow> None | (p, _) # _ \<Rightarrow> p)"

definition tt_stream_list_clear :: "yang_state \<Rightarrow> yang_state" where
  "tt_stream_list_clear s = s\<lparr>tt_streams := []\<rparr>"

section \<open>Control parameters\<close>

text \<open>\<^verbatim>\<open>time_t\<close> is a signed integer of 64 bits.\<close>

definition base_time_leaf :: "sr_env \<Rightarrow> sr_val \<Rightarrow> timespec \<Rightarrow> timespec option" where
  "base_time_leaf env n t = do {
     t \<leftarrow> (if node_is env ''seconds'' n then map_option (\<lambda>x. t\<lparr>tv_sec := sint x\<rparr>) (uint64_val (sr_data n)) else Some t);
     if node_is env ''fractional-seconds'' n then map_option (\<lambda>x. t\<lparr>tv_nsec := sint x\<rparr>) (uint64_val (sr_data n)) else Some t }"

definition new_base_time :: "sr_env \<Rightarrow> string \<Rightarrow> timespec \<Rightarrow> (int \<times> timespec) option" where
  "new_base_time env container_name time =
     (case sr_get_items env (fill_xpath env (''/acm:acm/'' @ container_name @ ''/base-time/*'')) of
        None \<Rightarrow> Some (EXIT_SUCCESS, time)
      | Some nodes \<Rightarrow> do {
          time \<leftarrow> parse_nodes (base_time_leaf env) nodes time;
          Some (EXIT_SUCCESS, time) })"

record control =
  ctl_mode :: acm_connection_mode
  ctl_speed :: acm_linkspeed
  ctl_cycle :: u32
  ctl_base :: timespec

text \<open>The name of the container that the path of a node is in; it stays the last one found.\<close>

definition container_of :: "string \<Rightarrow> string option \<Rightarrow> string option" where
  "container_of path old = (if c_strstr path ''bypass1'' then Some ''bypass1''
     else if c_strstr path ''bypass2'' then Some ''bypass2'' else old)"

definition control_mode_leaf :: "sr_env \<Rightarrow> sr_val \<Rightarrow> control \<Rightarrow> control option" where
  "control_mode_leaf env n c =
     (if \<not> node_is env ''connection-mode'' n then Some c
      else do {
        m \<leftarrow> enum_val (sr_data n);
        Some (if m = ''parallel'' then c\<lparr>ctl_mode := CONN_MODE_PARALLEL\<rparr>
          else if m = ''serial'' then c\<lparr>ctl_mode := CONN_MODE_SERIAL\<rparr> else c) })"

text \<open>The speeds 0.100 and 1.000; the second component is the return code.\<close>

definition control_speed_leaf :: "sr_env \<Rightarrow> sr_val \<Rightarrow> control \<Rightarrow> (int \<times> control) option" where
  "control_speed_leaf env n c =
     (if \<not> node_is env ''link-speed'' n then Some (0, c)
      else do {
        v \<leftarrow> decimal64_val (sr_data n);
        Some (if v = 100 then (0, c\<lparr>ctl_speed := SPEED_100MBps\<rparr>)
          else if v = 1000 then (0, c\<lparr>ctl_speed := SPEED_1GBps\<rparr>)
          else (- EINVAL, c)) })"

fun control_nodes :: "sr_env \<Rightarrow> sr_val list \<Rightarrow> string option \<Rightarrow> control \<Rightarrow> (int \<times> control) option" where
  "control_nodes env [] container_name c = Some (EXIT_SUCCESS, c)"
| "control_nodes env (n # ns) container_name c = do {
     c \<leftarrow> control_mode_leaf env n c;
     (ret, c) \<leftarrow> control_speed_leaf env n c;
     if ret \<noteq> 0 then Some (ret, c)
     else do {
       cycle \<leftarrow> leaf_value env ''cycle-time'' uint32_val n (ctl_cycle c);
       let c = c\<lparr>ctl_cycle := cycle\<rparr>;
       if \<not> node_is env ''base-time'' n then control_nodes env ns container_name c
       else do {
         name \<leftarrow> container_of (sr_xpath n) container_name;
         (ret, time) \<leftarrow> new_base_time env name (ctl_base c);
         let c = c\<lparr>ctl_base := time\<rparr>;
         if ret \<noteq> EXIT_SUCCESS then Some (ret, c) else control_nodes env ns (Some name) c } } }"

text \<open>The caller sets cycle and base time to 0 before.\<close>

definition new_control_node :: "sr_env \<Rightarrow> sr_val list \<Rightarrow> control \<Rightarrow> (int \<times> control) option" where
  "new_control_node env container c =
     control_nodes env container None (c\<lparr>ctl_mode := CONN_MODE_PARALLEL, ctl_speed := SPEED_1GBps\<rparr>)"

section \<open>Operations\<close>

datatype yang_stream_type = STREAM_TIME_TRIGGERED | STREAM_INGRESS_TRIGGERED | STREAM_EVENT | STREAM_RECOVERY

record op_desc =
  od_opcode :: stream_opcode
  od_offset :: u16
  od_length :: u16
  od_bufname :: string

definition no_op_desc :: op_desc where
  "no_op_desc = \<lparr>od_opcode = OPC_READ, od_offset = 0, od_length = 0, od_bufname = []\<rparr>"

definition parse_op_node :: "sr_env \<Rightarrow> sr_val \<Rightarrow> op_desc \<Rightarrow> op_desc option" where
  "parse_op_node env n d = do {
     op \<leftarrow> parse_stream_ops_opcode env OPC_READ n (od_opcode d);
     off \<leftarrow> parse_stream_ops_offset env n (od_offset d);
     len \<leftarrow> parse_stream_ops_length env n (od_length d);
     buf \<leftarrow> parse_stream_ops_bufname env n (od_bufname d);
     Some \<lparr>od_opcode = op, od_offset = off, od_length = len, od_bufname = buf\<rparr> }"

text \<open>
  The constant data is an array of known bytes here; \<open>constant_data + offset\<close> and the length are
  checked against the size, not against the array.
\<close>

definition add_parsed_op :: "op_desc \<Rightarrow> ptr \<Rightarrow> u8 list \<Rightarrow> u16 \<Rightarrow> yang_stream_type \<Rightarrow> yang_state \<Rightarrow> (int \<times> yang_state) option" where
  "add_parsed_op d stream constant_data constant_size type s = (case od_opcode d of
     OPC_READ \<Rightarrow> on_acm (acm_add_stream_operation_read stream (od_offset d) (od_length d) (Some (od_bufname d))) s
   | OPC_INSERT \<Rightarrow> on_acm (acm_add_stream_operation_insert stream (od_length d) (Some (od_bufname d))) s
   | OPC_PADDING \<Rightarrow> on_acm (acm_add_stream_operation_pad stream (od_length d) 0) s
   | OPC_CONST_INSERT \<Rightarrow>
       if uint constant_size < uint (od_offset d) + uint (od_length d) then Some (- EACMYOPERCONSTLEN, s)
       else on_acm (acm_add_stream_operation_insertconstant stream (drop (unat (od_offset d)) constant_data) (od_length d)) s
   | OPC_FORWARD \<Rightarrow>
       if type = STREAM_INGRESS_TRIGGERED then on_acm (acm_add_stream_operation_forwardall stream) s
       else on_acm (acm_add_stream_operation_forward stream (od_offset d) (od_length d)) s)"

definition stream_path :: "string \<Rightarrow> string \<Rightarrow> string \<Rightarrow> string" where
  "stream_path container_name stream_key rest =
     ''/acm:acm/'' @ container_name @ ''/stream[stream-key='' @ [CHR 0x27] @ stream_key @ [CHR 0x27] @ '']/'' @ rest"

definition keyed :: "string \<Rightarrow> string \<Rightarrow> string \<Rightarrow> string" where
  "keyed entry name key = entry @ ''['' @ name @ ''='' @ [CHR 0x27] @ key @ [CHR 0x27] @ '']/*''"

definition new_stream_ops :: "sr_env \<Rightarrow> string \<Rightarrow> string \<Rightarrow> string \<Rightarrow> string \<Rightarrow> ptr \<Rightarrow> u8 list \<Rightarrow> u16 \<Rightarrow>
    yang_stream_type \<Rightarrow> yang_state \<Rightarrow> (int \<times> yang_state) option" where
  "new_stream_ops env container_name stream_key sub_container_name operation_key stream constant_data constant_size type s =
     (case sr_get_items env (fill_xpath env (stream_path container_name stream_key
          (sub_container_name @ ''/'' @ keyed ''stream-operations'' ''operation-key'' operation_key))) of
        None \<Rightarrow> Some (EXIT_FAILURE, s)
      | Some nodes \<Rightarrow> do {
          d \<leftarrow> parse_nodes (parse_op_node env) nodes no_op_desc;
          add_parsed_op d stream constant_data constant_size type s })"

text \<open>
  The loop over the nodes of a container that adds the operations of a stream, and the comparison of
  their number, which the four functions for streams repeat. The result is the return code with the
  values of \<open>num_stream_ops\<close> and \<open>tmp_stream_ops\<close>.
\<close>

fun stream_ops_nodes :: "sr_env \<Rightarrow> string \<Rightarrow> string \<Rightarrow> string \<Rightarrow> ptr \<Rightarrow> u8 list \<Rightarrow> u16 \<Rightarrow> yang_stream_type \<Rightarrow>
    sr_val list \<Rightarrow> u16 \<Rightarrow> int \<Rightarrow> yang_state \<Rightarrow> (int \<times> u16 \<times> int \<times> yang_state) option" where
  "stream_ops_nodes env c k sub stream constant_data constant_size type [] num tmp s = Some (0, num, tmp, s)"
| "stream_ops_nodes env c k sub stream constant_data constant_size type (n # ns) num tmp s = do {
     num \<leftarrow> parse_stream_num_of_operations env n num;
     if \<not> c_strstr (sr_xpath n) ''stream-operations[operation-key''
     then stream_ops_nodes env c k sub stream constant_data constant_size type ns num tmp s
     else case get_key_value env (sr_xpath n) ''stream-operations'' ''operation-key'' of
         None \<Rightarrow> Some (EXIT_FAILURE, num, tmp, s)
       | Some key \<Rightarrow> do {
           (ret, s) \<leftarrow> new_stream_ops env c k sub key stream constant_data constant_size type s;
           if ret \<noteq> EXIT_SUCCESS then Some (ret, num, tmp, s)
           else stream_ops_nodes env c k sub stream constant_data constant_size type ns num (tmp + 1) s } }"

definition add_stream_ops :: "sr_env \<Rightarrow> string \<Rightarrow> string \<Rightarrow> string \<Rightarrow> ptr \<Rightarrow> u8 list \<Rightarrow> u16 \<Rightarrow> yang_stream_type \<Rightarrow>
    sr_val list \<Rightarrow> yang_state \<Rightarrow> (int \<times> yang_state) option" where
  "add_stream_ops env c k sub stream constant_data constant_size type nodes s = do {
     (ret, num, tmp, s) \<leftarrow> stream_ops_nodes env c k sub stream constant_data constant_size type nodes 0 0 s;
     Some (if ret \<noteq> 0 then ret else if tmp \<noteq> uint num then - EACMYOPERNUMBER else EXIT_SUCCESS, s) }"


section \<open>Ingress streams\<close>

text \<open>The arrays for header and mask are not initialised; the filter arrays are zero.\<close>

record ingress_desc =
  in_header :: "u8 option list"
  in_header_mask :: "u8 option list"
  in_filt_size :: u16
  in_filt_mask :: "u8 option list"
  in_filt_patt :: "u8 option list"
  in_rtag :: bool
  in_reset_ms :: u16

definition no_ingress_desc :: ingress_desc where
  "no_ingress_desc = \<lparr>in_header = replicate ACM_MAX_LOOKUP_SIZE None, in_header_mask = replicate ACM_MAX_LOOKUP_SIZE None,
     in_filt_size = 0, in_filt_mask = replicate ACM_MAX_FILTER_SIZE (Some 0),
     in_filt_patt = replicate ACM_MAX_FILTER_SIZE (Some 0), in_rtag = False, in_reset_ms = 0\<rparr>"

definition filter_leaf :: "sr_env \<Rightarrow> string \<Rightarrow> sr_val \<Rightarrow> u8 option list \<Rightarrow> u8 option list option" where
  "filter_leaf env name n buf =
     (if \<not> node_is env name n then Some buf
      else do { str \<leftarrow> string_val (sr_data n); scan_bytes (length str div 2) 0 str buf })"

definition parse_ingress_node :: "sr_env \<Rightarrow> sr_val \<Rightarrow> ingress_desc \<Rightarrow> ingress_desc option" where
  "parse_ingress_node env n d = do {
     hdr \<leftarrow> parse_hex_string env ''header'' ACM_MAX_LOOKUP_SIZE n (in_header d);
     hmask \<leftarrow> parse_hex_string env ''header-mask'' ACM_MAX_LOOKUP_SIZE n (in_header_mask d);
     sz \<leftarrow> leaf_value env ''additional-filter-size'' uint16_val n (in_filt_size d);
     fm \<leftarrow> filter_leaf env ''additional-filter-mask'' n (in_filt_mask d);
     fp \<leftarrow> filter_leaf env ''additional-filter-pattern'' n (in_filt_patt d);
     rtag \<leftarrow> leaf_value env ''has-redundancy-tag'' bool_val n (in_rtag d);
     ms \<leftarrow> leaf_value env ''seq-recovery-reset-ms'' uint16_val n (in_reset_ms d);
     Some \<lparr>in_header = hdr, in_header_mask = hmask, in_filt_size = sz, in_filt_mask = fm, in_filt_patt = fp,
       in_rtag = rtag, in_reset_ms = ms\<rparr> }"

text \<open>
  The functions for streams return the code and the stream; on an error the out parameter is not
  written and the caller does not read it.
\<close>

definition new_ingress_stream :: "sr_env \<Rightarrow> ptr \<Rightarrow> sr_val list \<Rightarrow> string \<Rightarrow> string \<Rightarrow> yang_state \<Rightarrow>
    (int \<times> ptr \<times> yang_state) option" where
  "new_ingress_stream env module stream_entry stream_key container_name s = do {
     d \<leftarrow> parse_nodes (parse_ingress_node env) stream_entry no_ingress_desc;
     hdr \<leftarrow> those (in_header d);
     hmask \<leftarrow> those (in_header_mask d);
     fp \<leftarrow> those (in_filt_patt d);
     fm \<leftarrow> those (in_filt_mask d);
     (stream, s) \<leftarrow> on_acm (acm_create_ingress_triggered_stream hdr hmask (Some fp) (Some fm) (in_filt_size d)) s;
     if stream = None then Some (- EACMYITSTREAMCREATE, None, s)
     else do {
       (ret, s) \<leftarrow> (if in_rtag d then on_acm (acm_set_rtag_stream stream (ucast (in_reset_ms d))) s else Some (0, s));
       if ret \<noteq> 0 then do { s \<leftarrow> do_acm (acm_destroy_stream stream) s; Some (ret, None, s) }
       else do {
         (ret, s) \<leftarrow> on_acm (acm_add_module_stream module stream) s;
         if ret \<noteq> 0 then do { s \<leftarrow> do_acm (acm_destroy_stream stream) s; Some (ret, None, s) }
         else do {
           (ret, s) \<leftarrow> add_stream_ops env container_name stream_key ''ingress-stream'' stream [] 0
             STREAM_INGRESS_TRIGGERED stream_entry s;
           Some (ret, if ret = 0 then stream else None, s) } } } }"

section \<open>Egress streams\<close>

record egress_desc =
  eg_smac :: "u8 option list"
  eg_dmac :: "u8 option list"
  eg_vlan :: u16
  eg_prio :: u8
  eg_const_size :: u16
  eg_const :: "u8 option list"

text \<open>The addresses are only initialised by the functions for event and recovery streams.\<close>

definition no_egress_desc :: "u8 option \<Rightarrow> egress_desc" where
  "no_egress_desc b = \<lparr>eg_smac = replicate ETHER_ADDR_LEN b, eg_dmac = replicate ETHER_ADDR_LEN b, eg_vlan = - 1,
     eg_prio = 0, eg_const_size = 0, eg_const = replicate (nat ACM_MAX_FRAME_SIZE) (Some 0)\<rparr>"

definition parse_egress_node :: "sr_env \<Rightarrow> sr_val \<Rightarrow> egress_desc \<Rightarrow> egress_desc option" where
  "parse_egress_node env n d = do {
     smac \<leftarrow> parse_mac_addr env ''source-address'' n (eg_smac d);
     dmac \<leftarrow> parse_mac_addr env ''destination-address'' n (eg_dmac d);
     vlan \<leftarrow> parse_stream_vid env n (eg_vlan d);
     prio \<leftarrow> parse_stream_priority env n (eg_prio d);
     sz \<leftarrow> parse_stream_const_data_size env n (eg_const_size d);
     const \<leftarrow> parse_hex_string_add_const_data env ''additional-constant-data'' (unat sz) n (eg_const d);
     Some \<lparr>eg_smac = smac, eg_dmac = dmac, eg_vlan = vlan, eg_prio = prio, eg_const_size = sz, eg_const = const\<rparr> }"

definition new_egress_stream :: "sr_env \<Rightarrow> ptr \<Rightarrow> sr_val list \<Rightarrow> string \<Rightarrow> string \<Rightarrow> yang_state \<Rightarrow>
    (int \<times> ptr \<times> yang_state) option" where
  "new_egress_stream env module stream_entry stream_key container_name s = do {
     d \<leftarrow> parse_nodes (parse_egress_node env) stream_entry (no_egress_desc None);
     dmac \<leftarrow> those (eg_dmac d);
     smac \<leftarrow> those (eg_smac d);
     const \<leftarrow> those (eg_const d);
     (stream, s) \<leftarrow> on_acm (acm_create_time_triggered_stream dmac smac (eg_vlan d) (eg_prio d)) s;
     if stream = None then Some (- EACMYTTSTREAMCREATE, None, s)
     else do {
       (ret, s) \<leftarrow> on_acm (acm_add_module_stream module stream) s;
       if ret \<noteq> 0 then do { s \<leftarrow> do_acm (acm_destroy_stream stream) s; Some (ret, None, s) }
       else do {
         (ret, s) \<leftarrow> add_stream_ops env container_name stream_key ''time-triggered-stream'' stream const (eg_const_size d)
           STREAM_TIME_TRIGGERED stream_entry s;
         Some (ret, if ret = 0 then stream else None, s) } } }"

definition new_event_stream :: "sr_env \<Rightarrow> sr_val list \<Rightarrow> ptr \<Rightarrow> string \<Rightarrow> string \<Rightarrow> yang_state \<Rightarrow>
    (int \<times> ptr \<times> yang_state) option" where
  "new_event_stream env stream_entry ingress_stream stream_key container_name s = do {
     d \<leftarrow> parse_nodes (parse_egress_node env) stream_entry (no_egress_desc (Some 0));
     dmac \<leftarrow> those (eg_dmac d);
     smac \<leftarrow> those (eg_smac d);
     const \<leftarrow> those (eg_const d);
     (stream, s) \<leftarrow> on_acm (acm_create_event_stream dmac smac (eg_vlan d) (eg_prio d)) s;
     if stream = None then Some (- EACMYESTREAMCREATE, None, s)
     else do {
       (ret, s) \<leftarrow> on_acm (acm_set_reference_stream ingress_stream stream) s;
       if ret \<noteq> 0 then Some (ret, None, s)
       else do {
         (ret, s) \<leftarrow> add_stream_ops env container_name stream_key ''event-stream'' stream const (eg_const_size d)
           STREAM_EVENT stream_entry s;
         Some (ret, if ret = 0 then stream else None, s) } } }"

definition new_egress_stream_recovery :: "sr_env \<Rightarrow> sr_val list \<Rightarrow> ptr \<Rightarrow> string \<Rightarrow> string \<Rightarrow> yang_state \<Rightarrow>
    (int \<times> yang_state) option" where
  "new_egress_stream_recovery env stream_entry parent_stream stream_key container_name s = do {
     d \<leftarrow> parse_nodes (parse_egress_node env) stream_entry (no_egress_desc (Some 0));
     dmac \<leftarrow> those (eg_dmac d);
     smac \<leftarrow> those (eg_smac d);
     const \<leftarrow> those (eg_const d);
     (stream, s) \<leftarrow> on_acm (acm_create_recovery_stream dmac smac (eg_vlan d) (eg_prio d)) s;
     if stream = None then Some (- EACMYRSTREAMCREATE, s)
     else do {
       (ret, num, tmp, s) \<leftarrow> stream_ops_nodes env container_name stream_key ''egress-stream-recovery'' stream const
         (eg_const_size d) STREAM_RECOVERY stream_entry 0 0 s;
       if ret \<noteq> 0 then Some (ret, s)
       else do {
         (ret, s) \<leftarrow> on_acm (acm_set_reference_stream parent_stream stream) s;
         Some (if ret \<noteq> 0 then ret else if tmp \<noteq> uint num then - EACMYOPERNUMBER else EXIT_SUCCESS, s) } } }"

section \<open>Schedules\<close>

text \<open>Period, start and end are not initialised and keep their values from entry to entry.\<close>

record window_desc =
  wd_period :: "u32 option"
  wd_start :: "u32 option"
  wd_end :: "u32 option"

definition window_leaf :: "sr_env \<Rightarrow> sr_val \<Rightarrow> window_desc \<Rightarrow> window_desc option" where
  "window_leaf env n w = do {
     p \<leftarrow> leaf_value env ''period'' (map_option Some \<circ> uint32_val) n (wd_period w);
     b \<leftarrow> leaf_value env ''time-start'' (map_option Some \<circ> uint32_val) n (wd_start w);
     e \<leftarrow> leaf_value env ''time-end'' (map_option Some \<circ> uint32_val) n (wd_end w);
     Some \<lparr>wd_period = p, wd_start = b, wd_end = e\<rparr> }"

definition new_shedule_window :: "sr_env \<Rightarrow> string \<Rightarrow> string \<Rightarrow> string \<Rightarrow> window_desc \<Rightarrow> (int \<times> window_desc) option" where
  "new_shedule_window env container_name stream_key schedule_key w =
     (case sr_get_items env (fill_xpath env (stream_path container_name stream_key
          (''stream-schedule/'' @ keyed ''schedule-events'' ''schedule-key'' schedule_key))) of
        None \<Rightarrow> Some (EXIT_FAILURE, w)
      | Some nodes \<Rightarrow> do { w \<leftarrow> parse_nodes (window_leaf env) nodes w; Some (EXIT_SUCCESS, w) })"

definition add_window :: "bool \<Rightarrow> ptr \<Rightarrow> window_desc \<Rightarrow> yang_state \<Rightarrow> (int \<times> yang_state) option" where
  "add_window is_ingress stream w s =
     (if is_ingress then do {
        p \<leftarrow> wd_period w; b \<leftarrow> wd_start w; e \<leftarrow> wd_end w;
        on_acm (acm_add_stream_schedule_window stream p b e) s }
      else do {
        p \<leftarrow> wd_period w; e \<leftarrow> wd_end w;
        on_acm (acm_add_stream_schedule_event stream p e) s })"

fun schedule_nodes :: "sr_env \<Rightarrow> sr_val list \<Rightarrow> ptr \<Rightarrow> bool \<Rightarrow> string \<Rightarrow> string \<Rightarrow> window_desc \<Rightarrow> yang_state \<Rightarrow>
    (int \<times> yang_state) option" where
  "schedule_nodes env [] stream is_ingress stream_key container_name w s = Some (EXIT_SUCCESS, s)"
| "schedule_nodes env (n # ns) stream is_ingress stream_key container_name w s =
     (if \<not> c_strstr (sr_xpath n) ''schedule-events[schedule-key''
      then schedule_nodes env ns stream is_ingress stream_key container_name w s
      else case get_key_value env (sr_xpath n) ''schedule-events'' ''schedule-key'' of
          None \<Rightarrow> Some (EXIT_FAILURE, s)
        | Some key \<Rightarrow> do {
            (ret, w) \<leftarrow> new_shedule_window env container_name stream_key key w;
            if ret \<noteq> EXIT_SUCCESS then Some (ret, s)
            else do {
              res \<leftarrow> add_window is_ingress stream w s;
              if_ok res (schedule_nodes env ns stream is_ingress stream_key container_name w) } })"

definition new_stream_schedule :: "sr_env \<Rightarrow> sr_val list \<Rightarrow> ptr \<Rightarrow> bool \<Rightarrow> string \<Rightarrow> string \<Rightarrow> yang_state \<Rightarrow>
    (int \<times> yang_state) option" where
  "new_stream_schedule env stream_entry stream is_ingress stream_key container_name s =
     schedule_nodes env stream_entry stream is_ingress stream_key container_name
       \<lparr>wd_period = None, wd_start = None, wd_end = None\<rparr> s"


section \<open>Streams\<close>

record stream_found =
  it_stream :: ptr
  tt_stream :: ptr
  e_stream :: ptr

text \<open>
  A stream with a key that is in the list is the redundant partner of the stream found there,
  otherwise it is put into the list.
\<close>

definition register_stream :: "sr_env \<Rightarrow> ptr \<Rightarrow> int \<Rightarrow> yang_state \<Rightarrow> (int \<times> yang_state) option" where
  "register_stream env stream stream_id s = (case tt_stream_list_find stream_id s of
     Some p \<Rightarrow> on_acm (acm_set_reference_stream (Some p) stream) s
   | None \<Rightarrow> (case tt_stream_list_add env stream stream_id s of (ret, s) \<Rightarrow>
       Some (if ret \<noteq> EXIT_SUCCESS then - EACMYSTREAMLISTADD else 0, s)))"

text \<open>When the node is the container with this name, its nodes are processed, if there are any.\<close>

definition in_container :: "sr_env \<Rightarrow> string \<Rightarrow> string \<Rightarrow> string \<Rightarrow> sr_val \<Rightarrow>
    (sr_val list \<Rightarrow> yang_state \<Rightarrow> (int \<times> stream_found \<times> yang_state) option) \<Rightarrow>
    stream_found \<Rightarrow> yang_state \<Rightarrow> (int \<times> stream_found \<times> yang_state) option" where
  "in_container env container_name stream_key name n k f s =
     (if \<not> node_is env name n then Some (0, f, s)
      else case sr_get_items env (fill_xpath env (stream_path container_name stream_key (name @ ''/*''))) of
          None \<Rightarrow> Some (EXIT_FAILURE, f, s)
        | Some nodes \<Rightarrow> if nodes = [] then Some (0, f, s) else k nodes s)"

definition stream_part :: "sr_env \<Rightarrow> ptr \<Rightarrow> string \<Rightarrow> string \<Rightarrow> int \<Rightarrow> sr_val \<Rightarrow> stream_found \<Rightarrow> yang_state \<Rightarrow>
    (int \<times> stream_found \<times> yang_state) option" where
  "stream_part env module c k stream_id n f s = do {
     (ret, f, s) \<leftarrow> in_container env c k ''ingress-stream'' n (\<lambda>nodes s. do {
        (ret, p, s) \<leftarrow> new_ingress_stream env module nodes k c s;
        if ret \<noteq> 0 then Some (ret, f, s)
        else do { (ret, s) \<leftarrow> register_stream env p stream_id s; Some (ret, f\<lparr>it_stream := p\<rparr>, s) } }) f s;
     if ret \<noteq> 0 then Some (ret, f, s)
     else do {
       (ret, f, s) \<leftarrow> in_container env c k ''time-triggered-stream'' n (\<lambda>nodes s. do {
          (ret, p, s) \<leftarrow> new_egress_stream env module nodes k c s;
          if ret \<noteq> 0 then Some (ret, f, s)
          else do { (ret, s) \<leftarrow> register_stream env p stream_id s; Some (ret, f\<lparr>tt_stream := p\<rparr>, s) } }) f s;
       if ret \<noteq> 0 then Some (ret, f, s)
       else do {
         (ret, f, s) \<leftarrow> in_container env c k ''event-stream'' n (\<lambda>nodes s. do {
            (ret, p, s) \<leftarrow> new_event_stream env nodes (it_stream f) k c s;
            Some (ret, if ret = 0 then f\<lparr>e_stream := p\<rparr> else f, s) }) f s;
         if ret \<noteq> 0 then Some (ret, f, s)
         else in_container env c k ''egress-stream-recovery'' n (\<lambda>nodes s. do {
            (ret, s) \<leftarrow> new_egress_stream_recovery env nodes (e_stream f) k c s;
            Some (ret, f, s) }) f s } } }"

fun stream_parts :: "sr_env \<Rightarrow> ptr \<Rightarrow> string \<Rightarrow> string \<Rightarrow> int \<Rightarrow> sr_val list \<Rightarrow> stream_found \<Rightarrow> yang_state \<Rightarrow>
    (int \<times> stream_found \<times> yang_state) option" where
  "stream_parts env module c k stream_id [] f s = Some (0, f, s)"
| "stream_parts env module c k stream_id (n # ns) f s = do {
     (ret, f, s) \<leftarrow> stream_part env module c k stream_id n f s;
     if ret \<noteq> 0 then Some (ret, f, s) else stream_parts env module c k stream_id ns f s }"

text \<open>The second pass over the same nodes finds the schedule.\<close>

fun stream_schedules :: "sr_env \<Rightarrow> string \<Rightarrow> string \<Rightarrow> ptr \<Rightarrow> bool \<Rightarrow> sr_val list \<Rightarrow> yang_state \<Rightarrow>
    (int \<times> yang_state) option" where
  "stream_schedules env c k my_stream is_ingress [] s = Some (EXIT_SUCCESS, s)"
| "stream_schedules env c k my_stream is_ingress (n # ns) s =
     (if \<not> node_is env ''stream-schedule'' n then stream_schedules env c k my_stream is_ingress ns s
      else case sr_get_items env (fill_xpath env (stream_path c k ''stream-schedule/*'')) of
          None \<Rightarrow> Some (EXIT_FAILURE, s)
        | Some nodes \<Rightarrow> do {
            res \<leftarrow> (if nodes = [] then Some (0, s) else new_stream_schedule env nodes my_stream is_ingress k c s);
            if_ok res (stream_schedules env c k my_stream is_ingress ns) })"

definition new_stream_node :: "sr_env \<Rightarrow> ptr \<Rightarrow> string \<Rightarrow> string \<Rightarrow> yang_state \<Rightarrow> (int \<times> yang_state) option" where
  "new_stream_node env module container_name stream_key s =
     (case sr_get_items env (fill_xpath env (stream_path container_name stream_key ''*'')) of
        None \<Rightarrow> Some (EXIT_FAILURE, s)
      | Some nodes \<Rightarrow> (case filter (node_is env ''stream-key'') nodes of
            [] \<Rightarrow> Some (- EACMYNOSTREAMKEY, s)
          | n # _ \<Rightarrow> do {
              key \<leftarrow> uint16_val (sr_data n);
              (ret, f, s) \<leftarrow> stream_parts env module container_name stream_key (uint key) nodes
                \<lparr>it_stream = None, tt_stream = None, e_stream = None\<rparr> s;
              if ret \<noteq> 0 then Some (ret, s)
              else if it_stream f \<noteq> None
              then stream_schedules env container_name stream_key (it_stream f) True nodes s
              else stream_schedules env container_name stream_key (tt_stream f) False nodes s }))"

section \<open>Modules and configurations\<close>

text \<open>
  The loop over the streams of a module. The name of the container is the one of the last path that
  has one; a path without it and none before is an unset pointer in the code.
\<close>

fun module_streams :: "sr_env \<Rightarrow> ptr \<Rightarrow> int \<Rightarrow> sr_val list \<Rightarrow> string option \<Rightarrow> int \<Rightarrow> yang_state \<Rightarrow>
    (int \<times> int \<times> yang_state) option" where
  "module_streams env module num_streams [] container_name stream_id s = Some (0, stream_id, s)"
| "module_streams env module num_streams (n # ns) container_name stream_id s =
     (if \<not> c_strstr (sr_xpath n) ''stream[stream-key''
      then module_streams env module num_streams ns container_name stream_id s
      else if num_streams - 1 < stream_id then Some (- EACMYSTREAMNUMBER, stream_id, s)
      else case get_key_value env (sr_xpath n) ''stream'' ''stream-key'' of
          None \<Rightarrow> Some (EXIT_FAILURE, stream_id, s)
        | Some stream_key \<Rightarrow> do {
            name \<leftarrow> container_of (sr_xpath n) container_name;
            (ret, s) \<leftarrow> new_stream_node env module name stream_key s;
            if ret \<noteq> 0 then Some (ret, stream_id, s)
            else module_streams env module num_streams ns (Some name) (stream_id + 1) s })"

definition new_acm_module :: "sr_env \<Rightarrow> nat \<Rightarrow> sr_val list \<Rightarrow> ptr \<Rightarrow> yang_state \<Rightarrow> (int \<times> yang_state) option" where
  "new_acm_module env index container acm s = do {
     (_, c) \<leftarrow> new_control_node env container \<lparr>ctl_mode = CONN_MODE_PARALLEL, ctl_speed = SPEED_1GBps, ctl_cycle = 0,
       ctl_base = \<lparr>tv_sec = 0, tv_nsec = 0\<rparr>\<rparr>;
     (module, s) \<leftarrow> on_acm (acm_create_module (ctl_mode c) (ctl_speed c) index) s;
     if module = None then Some (- EACMYMODULECREATE, s)
     else do {
       (ret, s) \<leftarrow> on_acm (acm_add_module acm module) s;
       if ret \<noteq> 0 then do { s \<leftarrow> do_acm (acm_destroy_module module) s; Some (ret, s) }
       else do {
         (ret, s) \<leftarrow> on_acm (acm_set_module_schedule module (ctl_cycle c) (ctl_base c)) s;
         if ret \<noteq> 0 then do { s \<leftarrow> do_acm (acm_destroy_module module) s; Some (ret, s) }
         else do {
           num_streams \<leftarrow> (case filter (node_is env ''stream-list-length'') container of
               [] \<Rightarrow> Some 0
             | n # _ \<Rightarrow> map_option uint (uint8_val (sr_data n)));
           (ret, stream_id, s) \<leftarrow> module_streams env module num_streams container None 0 s;
           Some (if ret \<noteq> 0 then ret else if stream_id \<noteq> num_streams then - EACMYSTREAMNUMBER else EXIT_SUCCESS, s) } } } }"

text \<open>A container of which the datastore has just one node is an empty one.\<close>

definition module_container :: "sr_env \<Rightarrow> nat \<Rightarrow> string \<Rightarrow> ptr \<Rightarrow> yang_state \<Rightarrow> (int \<times> yang_state) option" where
  "module_container env index path acm s = (case sr_get_items env path of
     None \<Rightarrow> Some (0, s)
   | Some nodes \<Rightarrow> if length nodes \<noteq> 1 then new_acm_module env index nodes acm s else Some (0, s))"

text \<open>The error exits: the error is set on the session, the list is cleared, the configuration destroyed.\<close>

definition process_failed :: "string \<Rightarrow> int \<Rightarrow> ptr \<Rightarrow> yang_state \<Rightarrow> (int \<times> yang_state) option" where
  "process_failed path ret acm s = do {
     s \<leftarrow> do_acm (acm_destroy acm) (tt_stream_list_clear (s\<lparr>yg_errors := (path, ret) # yg_errors s\<rparr>));
     Some (EXIT_FAILURE, s) }"

definition apply_yang :: "sr_env \<Rightarrow> bool \<Rightarrow> ptr \<Rightarrow> yang_state \<Rightarrow> (int \<times> yang_state) option" where
  "apply_yang env schedule_change acm s = do {
     config_id \<leftarrow> (case sr_get_item env ''/acm:acm/configuration-id'' of
         None \<Rightarrow> Some 0
       | Some n \<Rightarrow> uint32_val (sr_data n));
     if schedule_change then on_acm (acm_apply_schedule acm config_id config_id) s
     else do {
       cp \<leftarrow> acm;
       res \<leftarrow> on_acm (acm_validate_config cp) s;
       if_ok res (on_acm (acm_apply_config acm config_id)) } }"

definition process_acm_config :: "sr_env \<Rightarrow> string \<Rightarrow> bool \<Rightarrow> yang_state \<Rightarrow> (int \<times> yang_state) option" where
  "process_acm_config env path schedule_change s =
     (case acm_create (yg_acm s) of
        (None, a) \<Rightarrow> Some (EXIT_FAILURE, s\<lparr>yg_acm := a, yg_errors := (path, 0) # yg_errors s\<rparr>)
      | (Some cp, a) \<Rightarrow> do {
          (ret, s) \<leftarrow> module_container env 0 ''/acm:acm/bypass1/*'' (Some cp) (tt_stream_list_init (s\<lparr>yg_acm := a\<rparr>));
          if ret \<noteq> 0 then process_failed path ret (Some cp) s
          else do {
            (ret, s) \<leftarrow> module_container env 1 ''/acm:acm/bypass2/*'' (Some cp) s;
            if ret \<noteq> 0 then process_failed path ret (Some cp) s
            else do {
              (ret, s) \<leftarrow> apply_yang env schedule_change (Some cp) s;
              if ret \<noteq> 0 then process_failed path ret (Some cp) s
              else do {
                s \<leftarrow> do_acm (acm_destroy (Some cp)) s;
                Some (EXIT_SUCCESS, tt_stream_list_clear s) } } } })"

section \<open>Callbacks\<close>

datatype sr_event = SR_EV_UPDATE | SR_EV_CHANGE | SR_EV_DONE | SR_EV_ABORT | SR_EV_ENABLED | SR_EV_RPC

datatype sr_change_oper = SR_OP_CREATED | SR_OP_MODIFIED | SR_OP_DELETED | SR_OP_MOVED

definition SR_ERR_OK :: int where [simp]: "SR_ERR_OK = 0"

text \<open>
  The callback of the two leaves that start the processing. The error number of sysrepo for a failed
  operation is a parameter, as are the change iterator and the change.
\<close>

definition change_leaf :: "sr_env \<Rightarrow> int \<Rightarrow> string \<Rightarrow> bool \<Rightarrow> sr_event \<Rightarrow> sr_val \<Rightarrow> yang_state \<Rightarrow> (int \<times> yang_state) option" where
  "change_leaf env failed name schedule_change event node s =
     (if \<not> node_is env name node then Some (SR_ERR_OK, s)
      else do {
        v \<leftarrow> bool_val (sr_data node);
        if v \<and> event = SR_EV_CHANGE
        then do {
          (ret, s) \<leftarrow> process_acm_config env (sr_xpath node) schedule_change s;
          Some (if ret \<noteq> EXIT_SUCCESS then failed else SR_ERR_OK, s) }
        else Some (SR_ERR_OK, s) })"

definition acm_config_change_cb :: "sr_env \<Rightarrow> int \<Rightarrow> bool \<Rightarrow> sr_event \<Rightarrow> int \<Rightarrow>
    int \<times> sr_change_oper \<times> sr_val option \<times> sr_val option \<Rightarrow> yang_state \<Rightarrow> (int \<times> yang_state) option" where
  "acm_config_change_cb env failed plugin_init event iter_rc change s =
     (if \<not> plugin_init then Some (SR_ERR_OK, s)
      else if iter_rc \<noteq> SR_ERR_OK then Some (iter_rc, s)
      else case change of (rc, op, old_value, new_value) \<Rightarrow>
        if rc \<noteq> SR_ERR_OK then Some (rc, s)
        else if op \<noteq> SR_OP_MODIFIED \<and> op \<noteq> SR_OP_CREATED then Some (rc, s)
        else do {
          node \<leftarrow> new_value;
          res \<leftarrow> change_leaf env failed ''config-change'' False event node s;
          if_ok res (change_leaf env failed ''schedule-change'' True event node) })"

text \<open>
  The state of the modules: the nodes that are created, with path and text. A negative status ends
  the function; a node that cannot be created is only logged.
\<close>

definition status_leaf_names :: "string list" where
  "status_leaf_names = [''HaltOnErrorOccured'', ''IPErrorFlags'', ''PolicingErrorFlags'', ''RuntFrames'', ''MIIErrors'',
     ''GMIIErrorPrevCycle'', ''SofErrors'', ''Layer7MismatchCnt'', ''DroppedFramesCounterPrevCycle'',
     ''FramesScatteredPrevCycle'', ''AcmDisableOverrunPrevCycle'', ''TxFramesCycleChange'', ''TxFramesPrevCycle'',
     ''RxFramesCycleChange'', ''RxFramesPrevCycle'']"

fun acm_state_nodes :: "sr_env \<Rightarrow> (nat \<Rightarrow> acm_state \<Rightarrow> int \<times> acm_state) \<Rightarrow> string \<Rightarrow> nat list \<Rightarrow> acm_state \<Rightarrow>
    bool \<times> (string \<times> string option) list \<times> acm_state" where
  "acm_state_nodes env read container_name [] a = (True, [], a)"
| "acm_state_nodes env read container_name (i # is) a = (case read i a of (acm_status, a) \<Rightarrow>
     if acm_status < 0 then (False, [], a)
     else
       let text = take (str_len env - 1) (if i = 0 then (if acm_status \<noteq> 0 then ''true'' else ''false'')
             else print_dec (nat acm_status));
           path = fill_xpath env (''/acm:acm-state/'' @ container_name @ ''/'' @ status_leaf_names ! i) in
       case acm_state_nodes env read container_name is a of (ok, nodes, a) \<Rightarrow> (ok, (path, Some text) # nodes, a))"

definition new_acm_state :: "sr_env \<Rightarrow> nat \<Rightarrow> string \<Rightarrow> acm_state \<Rightarrow> bool \<times> (string \<times> string option) list \<times> acm_state" where
  "new_acm_state env index container_name a =
     acm_state_nodes env (acm_read_status_item index) container_name [0..<STATUS_ITEM_NUM] a"

text \<open>
  The callback returns \<^verbatim>\<open>SR_ERR_OK\<close> whatever the two modules report. The version string of the library
  is fixed when it is built.
\<close>

definition acm_state_cb :: "sr_env \<Rightarrow> string \<Rightarrow> acm_state \<Rightarrow> (int \<times> (string \<times> string option) list \<times> acm_state) option" where
  "acm_state_cb env git_version_str a = do {
     (ip_version, a) \<leftarrow> acm_read_ip_version a;
     case new_acm_state env 0 ''bypass1'' a of (_, nodes1, a) \<Rightarrow>
     case new_acm_state env 1 ''bypass2'' a of (_, nodes2, a) \<Rightarrow>
       Some (SR_ERR_OK, (''/acm:acm-state/acm-lib-version'', Some (acm_read_lib_version git_version_str)) #
         (''/acm:acm-state/acm-ip-version'', ip_version) # nodes1 @ nodes2, a) }"

end
