(* ===== verification/Acm_Yang_Theorems.thy ===== *)
theory Acm_Yang_Theorems
  imports Acm_Yang Acm_Heap_Theorems
begin

text \<open>
  What the YANG plugin does with the library: everything it changes are calls of the interface, and
  what it reports.
\<close>

section \<open>Calls of the plugin\<close>

definition calls :: "yang_state \<Rightarrow> yang_state \<Rightarrow> bool" where
  "calls s s' = (api_call\<^sup>*\<^sup>* (yg_acm s) (yg_acm s') \<and> yg_errors s' = yg_errors s)"

lemma calls_refl [simp]: "calls s s"
  by (simp add: calls_def)

lemma calls_trans: "calls a b \<Longrightarrow> calls b c \<Longrightarrow> calls a c"
  by (auto simp: calls_def intro: rtranclp_trans)

lemma calls_list [simp]: "calls s (s'\<lparr>tt_streams := l\<rparr>) = calls s s'"
  by (simp add: calls_def)

lemma on_acm_calls:
  assumes "\<And>a b r. f a = Some (r, b) \<Longrightarrow> api_call a b" "on_acm f s = Some (r, s')"
  shows "calls s s'"
  using assms by (fastforce simp: on_acm_def calls_def)

lemma do_acm_calls:
  assumes "\<And>a b. f a = Some b \<Longrightarrow> api_call a b" "do_acm f s = Some s'"
  shows "calls s s'"
  using assms by (fastforce simp: do_acm_def calls_def)

lemma bind_calls:
  assumes "Option.bind m (\<lambda>(r, s). k r s) = Some (x, s')" "\<And>r t. m = Some (r, t) \<Longrightarrow> calls s t"
    "\<And>r t. m = Some (r, t) \<Longrightarrow> k r t = Some (x, s') \<Longrightarrow> calls t s'"
  shows "calls s s'"
  using assms calls_trans by (cases m) auto

named_theorems plugin_calls \<open>functions of the plugin that change the library by calls only\<close>

lemma library_calls [plugin_calls]:
  "on_acm (acm_create_ingress_triggered_stream h m fp fm sz) s = Some (r1, s') \<Longrightarrow> calls s s'"
  "on_acm (acm_create_time_triggered_stream d sm v p) s = Some (r1, s') \<Longrightarrow> calls s s'"
  "on_acm (acm_create_event_stream d sm v p) s = Some (r1, s') \<Longrightarrow> calls s s'"
  "on_acm (acm_create_recovery_stream d sm v p) s = Some (r1, s') \<Longrightarrow> calls s s'"
  "on_acm (acm_create_module mode speed i) s = Some (r1, s') \<Longrightarrow> calls s s'"
  "on_acm (acm_set_rtag_stream p1 t) s = Some (r2, s') \<Longrightarrow> calls s s'"
  "on_acm (acm_add_module_stream p1 p2) s = Some (r2, s') \<Longrightarrow> calls s s'"
  "on_acm (acm_set_reference_stream p1 p2) s = Some (r2, s') \<Longrightarrow> calls s s'"
  "on_acm (acm_add_stream_operation_read p1 off len n) s = Some (r2, s') \<Longrightarrow> calls s s'"
  "on_acm (acm_add_stream_operation_insert p1 len n) s = Some (r2, s') \<Longrightarrow> calls s s'"
  "on_acm (acm_add_stream_operation_pad p1 len b) s = Some (r2, s') \<Longrightarrow> calls s s'"
  "on_acm (acm_add_stream_operation_insertconstant p1 c len) s = Some (r2, s') \<Longrightarrow> calls s s'"
  "on_acm (acm_add_stream_operation_forward p1 off len) s = Some (r2, s') \<Longrightarrow> calls s s'"
  "on_acm (acm_add_stream_operation_forwardall p1) s = Some (r2, s') \<Longrightarrow> calls s s'"
  "on_acm (acm_add_stream_schedule_window p1 t1 t2 t3) s = Some (r2, s') \<Longrightarrow> calls s s'"
  "on_acm (acm_add_stream_schedule_event p1 t1 t2) s = Some (r2, s') \<Longrightarrow> calls s s'"
  "on_acm (acm_add_module p1 p2) s = Some (r2, s') \<Longrightarrow> calls s s'"
  "on_acm (acm_set_module_schedule p1 t1 bt) s = Some (r2, s') \<Longrightarrow> calls s s'"
  "on_acm (acm_validate_config cp) s = Some (r2, s') \<Longrightarrow> calls s s'"
  "on_acm (acm_apply_config p1 i1) s = Some (r2, s') \<Longrightarrow> calls s s'"
  "on_acm (acm_apply_schedule p1 i1 i2) s = Some (r2, s') \<Longrightarrow> calls s s'"
  "do_acm (acm_destroy_stream p1) s = Some s' \<Longrightarrow> calls s s'"
  "do_acm (acm_destroy_module p1) s = Some s' \<Longrightarrow> calls s s'"
  "do_acm (acm_destroy p1) s = Some s' \<Longrightarrow> calls s s'"
  by (auto elim!: on_acm_calls [rotated] do_acm_calls [rotated] intro: api_call.intros)

lemma op_calls [plugin_calls]:
  assumes "add_parsed_op d p c sz ty s = Some (r, s')" shows "calls s s'"
  using assms by (auto simp: add_parsed_op_def dest: plugin_calls split: stream_opcode.split_asm if_split_asm)

lemma stream_ops_calls [plugin_calls]:
  assumes "new_stream_ops env c k sub ok p cd cs ty s = Some (r, s')" shows "calls s s'"
  using assms by (auto simp: new_stream_ops_def bind_eq_Some_conv dest: plugin_calls split: option.split_asm)

lemma ops_nodes_calls [plugin_calls]:
  assumes "stream_ops_nodes env c k sub p cd cs ty ns num tmp s = Some (r, num', tmp', s')" shows "calls s s'"
  using assms
proof (induction ns arbitrary: num tmp s)
  case (Cons n ns)
  show ?case using Cons.prems
    by (auto simp: bind_eq_Some_conv split: if_split_asm option.split_asm dest!: Cons.IH stream_ops_calls intro: calls_trans)
qed simp

lemma add_ops_calls [plugin_calls]:
  assumes "add_stream_ops env c k sub p cd cs ty ns s = Some (r, s')" shows "calls s s'"
  using assms by (auto simp: add_stream_ops_def bind_eq_Some_conv dest: plugin_calls)

lemma new_stream_calls [plugin_calls]:
  "new_ingress_stream env md ns k c s = Some (r, p, s') \<Longrightarrow> calls s s'"
  "new_egress_stream env md ns k c s = Some (r, p, s') \<Longrightarrow> calls s s'"
  "new_event_stream env ns q k c s = Some (r, p, s') \<Longrightarrow> calls s s'"
  "new_egress_stream_recovery env ns q k c s = Some (r, s') \<Longrightarrow> calls s s'"
  by (auto simp: new_ingress_stream_def new_egress_stream_def new_event_stream_def new_egress_stream_recovery_def
      bind_eq_Some_conv split: if_split_asm dest!: plugin_calls intro: calls_trans)


lemma if_ok_calls:
  assumes "if_ok (r, t) k = Some (x, s')" "k t = Some (x, s') \<Longrightarrow> calls t s'"
  shows "calls t s'"
  using assms by (auto simp: if_ok_def split: if_split_asm)

lemma window_calls [plugin_calls]:
  assumes "add_window b p w s = Some (r, s')" shows "calls s s'"
  using assms by (auto simp: add_window_def bind_eq_Some_conv dest: plugin_calls split: if_split_asm)

lemma schedule_nodes_calls:
  assumes "schedule_nodes env ns p b k c w s = Some (r, s')" shows "calls s s'"
  using assms
proof (induction ns arbitrary: w s)
  case (Cons n ns)
  show ?case using Cons.prems
    by (auto simp: bind_eq_Some_conv if_ok_def split: if_split_asm option.split_asm dest!: Cons.IH window_calls
        intro: calls_trans)
qed simp

lemma schedule_calls [plugin_calls]:
  "new_stream_schedule env ns p b k c s = Some (r, s') \<Longrightarrow> calls s s'"
  by (auto simp: new_stream_schedule_def dest: schedule_nodes_calls)

lemma register_calls [plugin_calls]:
  assumes "register_stream env p i s = Some (r, s')" shows "calls s s'"
  using assms by (auto simp: register_stream_def tt_stream_list_add_def split: option.split_asm if_split_asm dest: plugin_calls)

lemma container_calls:
  assumes "in_container env c k name n f fd s = Some (r, fd', s')"
    and "\<And>nodes. f nodes s = Some (r, fd', s') \<Longrightarrow> calls s s'"
  shows "calls s s'"
  using assms by (auto simp: in_container_def split: if_split_asm option.split_asm)

lemma stream_part_calls:
  assumes "stream_part env md c k i n f s = Some (r, f', s')" shows "calls s s'"
  using assms unfolding stream_part_def
  by (auto simp: bind_eq_Some_conv split: if_split_asm dest!: container_calls plugin_calls intro: calls_trans)

lemma stream_parts_calls [plugin_calls]:
  assumes "stream_parts env md c k i ns f s = Some (r, f', s')" shows "calls s s'"
  using assms
proof (induction ns arbitrary: f s)
  case (Cons n ns)
  show ?case using Cons.prems
    by (auto simp: bind_eq_Some_conv split: if_split_asm dest!: Cons.IH stream_part_calls intro: calls_trans)
qed simp

lemma stream_schedules_calls [plugin_calls]:
  assumes "stream_schedules env c k p b ns s = Some (r, s')" shows "calls s s'"
  using assms
proof (induction ns arbitrary: s)
  case (Cons n ns)
  show ?case using Cons.prems
    by (auto simp: bind_eq_Some_conv if_ok_def split: if_split_asm option.split_asm dest!: Cons.IH schedule_calls
        intro: calls_trans)
qed simp

lemma stream_node_calls [plugin_calls]:
  assumes "new_stream_node env md c k s = Some (r, s')" shows "calls s s'"
  using assms
  by (auto simp: new_stream_node_def bind_eq_Some_conv split: option.split_asm list.split_asm if_split_asm
      dest!: stream_parts_calls stream_schedules_calls intro: calls_trans)

lemma module_streams_calls [plugin_calls]:
  assumes "module_streams env md num ns name i s = Some (r, i', s')" shows "calls s s'"
  using assms
proof (induction ns arbitrary: name i s)
  case (Cons n ns)
  show ?case using Cons.prems
    by (auto simp: bind_eq_Some_conv split: if_split_asm option.split_asm dest!: Cons.IH stream_node_calls
        intro: calls_trans)
qed simp

lemma module_calls [plugin_calls]:
  assumes "new_acm_module env i nodes p s = Some (r, s')" shows "calls s s'"
  using assms
  by (auto simp: new_acm_module_def bind_eq_Some_conv split: if_split_asm dest!: plugin_calls intro: calls_trans)

lemma module_container_calls [plugin_calls]:
  assumes "module_container env i path p s = Some (r, s')" shows "calls s s'"
  using assms by (auto simp: module_container_def split: option.split_asm if_split_asm dest: plugin_calls)

lemma apply_calls [plugin_calls]:
  assumes "apply_yang env b p s = Some (r, s')" shows "calls s s'"
  using assms
  by (auto simp: apply_yang_def bind_eq_Some_conv if_ok_def split: if_split_asm option.split_asm dest!: plugin_calls
      intro: calls_trans)


section \<open>A run of the plugin\<close>

lemma calls_wf:
  assumes "api_call\<^sup>*\<^sup>* a b" "heap_wf a" "macs_ok (st_env a)"
  shows "heap_wf b \<and> macs_ok (st_env b)"
  using assms
proof (induction rule: rtranclp_induct)
  case (step b c)
  then have "heap_steps b c" using api_call_steps heap_wfD(3) by blast
  then show ?case using heap_steps_wf heap_steps_env step by simp
qed simp

lemma destroyed_is_gone:
  assumes "acm_destroy (Some cp) a = Some b" shows "st_configs b cp = None"
  using assms by (auto simp: acm_destroy_def config_destroy_def bind_eq_Some_conv Let_def case_prod_beta)

text \<open>How a run that created a configuration ends: the configuration is destroyed, with or without an error.\<close>

definition run_ended :: "string \<Rightarrow> addr \<Rightarrow> yang_state \<Rightarrow> int \<Rightarrow> yang_state \<Rightarrow> bool" where
  "run_ended path cp s ret s' \<longleftrightarrow> api_call\<^sup>*\<^sup>* (yg_acm s) (yg_acm s') \<and> st_configs (yg_acm s') cp = None \<and>
     tt_streams s' = [] \<and>
     (ret = 0 \<and> yg_errors s' = yg_errors s \<or> ret = 1 \<and> (\<exists>code. yg_errors s' = (path, code) # yg_errors s))"

lemma run_ended_calls: "calls s t \<Longrightarrow> run_ended path cp t r s' \<Longrightarrow> run_ended path cp s r s'"
  by (auto simp: calls_def run_ended_def)

lemma destroy_call: "acm_destroy p a = Some b \<Longrightarrow> api_call\<^sup>*\<^sup>* a b"
  by (rule r_into_rtranclp) (rule api_call.destroy_config)

lemma failed_ends:
  assumes "process_failed path code (Some cp) s = Some (r, s')" shows "run_ended path cp s r s'"
  using assms by (auto simp: process_failed_def do_acm_def tt_stream_list_clear_def run_ended_def bind_eq_Some_conv
      intro: destroy_call dest: destroyed_is_gone)

lemma success_ends:
  assumes "do_acm (acm_destroy (Some cp)) s = Some t" shows "run_ended path cp s 0 (tt_stream_list_clear t)"
  using assms by (auto simp: do_acm_def tt_stream_list_clear_def run_ended_def
      intro: destroy_call dest: destroyed_is_gone)

lemma then_ended:
  assumes "Option.bind m (\<lambda>(ret, s). if ret \<noteq> 0 then process_failed path ret (Some cp) s else k s) = Some (r, s')"
    and "\<And>ret t. m = Some (ret, t) \<Longrightarrow> calls s t"
    and "\<And>t. m = Some (0, t) \<Longrightarrow> k t = Some (r, s') \<Longrightarrow> run_ended path cp t r s'"
  shows "run_ended path cp s r s'"
  using assms run_ended_calls failed_ends by (cases m) (auto split: if_split_asm)

lemma process_ends:
  assumes "process_acm_config env path b s = Some (r, s')" "acm_create (yg_acm s) = (Some cp, a)"
  shows "run_ended path cp s r s'"
proof (rule run_ended_calls)
  let ?t = "tt_stream_list_init (s\<lparr>yg_acm := a\<rparr>)"
  show "calls s ?t"
    using api_call.create_config [OF assms(2)] by (auto simp: tt_stream_list_init_def calls_def)
  show "run_ended path cp ?t r s'"
    using assms(1) unfolding process_acm_config_def assms(2) prod.case option.case
    by (elim then_ended; (erule plugin_calls)?) (auto simp: bind_eq_Some_conv dest: success_ends plugin_calls)
qed

text \<open>A run that succeeds has applied the configuration or its schedule before it destroyed it.\<close>

lemma on_acm_result: "on_acm f s = Some (r, t) \<Longrightarrow> f (yg_acm s) = Some (r, yg_acm t)"
  by (auto simp: on_acm_def)

lemma do_acm_result: "do_acm f s = Some t \<Longrightarrow> f (yg_acm s) = Some (yg_acm t)"
  by (auto simp: do_acm_def)

lemma apply_yang_success:
  assumes "apply_yang env schedule_change (Some cp) s = Some (0, t)"
  shows "\<exists>i. (if schedule_change then acm_apply_schedule (Some cp) i i (yg_acm s) = Some (0, yg_acm t)
      else \<exists>u. acm_validate_config cp (yg_acm s) = Some (0, u) \<and> acm_apply_config (Some cp) i u = Some (0, yg_acm t)) \<and>
    (case sr_get_item env ''/acm:acm/configuration-id'' of None \<Rightarrow> i = 0 | Some n \<Rightarrow> uint32_val (sr_data n) = Some i)"
  using assms
  by (auto simp: apply_yang_def bind_eq_Some_conv if_ok_def split: if_split_asm option.split_asm dest!: on_acm_result)

lemma process_success:
  assumes "process_acm_config env path b s = Some (0, s')" "acm_create (yg_acm s) = (Some cp, a)"
  shows "\<exists>t1 t t' u. module_container env 0 ''/acm:acm/bypass1/*'' (Some cp) (tt_stream_list_init (s\<lparr>yg_acm := a\<rparr>)) = Some (0, t1) \<and>
    module_container env 1 ''/acm:acm/bypass2/*'' (Some cp) t1 = Some (0, t) \<and> apply_yang env b (Some cp) t = Some (0, t') \<and>
    do_acm (acm_destroy (Some cp)) t' = Some u \<and> s' = tt_stream_list_clear u"
proof -
  have failed: "process_failed path r (Some cp) t \<noteq> Some (0, s')" for r t
    by (auto simp: process_failed_def bind_eq_Some_conv)
  show ?thesis
    using assms failed by (auto simp: process_acm_config_def bind_eq_Some_conv split: if_split_asm)
qed

lemma success_applied:
  assumes "process_acm_config env path b s = Some (0, s')" "acm_create (yg_acm s) = (Some cp, a)"
  shows "\<exists>i t1 t v. module_container env 0 ''/acm:acm/bypass1/*'' (Some cp) (tt_stream_list_init (s\<lparr>yg_acm := a\<rparr>)) = Some (0, t1) \<and>
    module_container env 1 ''/acm:acm/bypass2/*'' (Some cp) t1 = Some (0, t) \<and> api_call\<^sup>*\<^sup>* a (yg_acm t) \<and>
    (if b then acm_apply_schedule (Some cp) i i (yg_acm t) = Some (0, v)
     else \<exists>u. acm_validate_config cp (yg_acm t) = Some (0, u) \<and> acm_apply_config (Some cp) i u = Some (0, v)) \<and>
    acm_destroy (Some cp) v = Some (yg_acm s') \<and>
    (case sr_get_item env ''/acm:acm/configuration-id'' of None \<Rightarrow> i = 0 | Some n \<Rightarrow> uint32_val (sr_data n) = Some i)"
proof -
  obtain t1 t t' u where t: "module_container env 0 ''/acm:acm/bypass1/*'' (Some cp) (tt_stream_list_init (s\<lparr>yg_acm := a\<rparr>)) = Some (0, t1)"
      "module_container env 1 ''/acm:acm/bypass2/*'' (Some cp) t1 = Some (0, t)" "apply_yang env b (Some cp) t = Some (0, t')"
      "do_acm (acm_destroy (Some cp)) t' = Some u" "s' = tt_stream_list_clear u"
    using process_success [OF assms] by blast
  have "calls (tt_stream_list_init (s\<lparr>yg_acm := a\<rparr>)) t"
    using calls_trans [OF module_container_calls [OF t(1)] module_container_calls [OF t(2)]] .
  then have c: "api_call\<^sup>*\<^sup>* a (yg_acm t)" by (simp add: calls_def tt_stream_list_init_def)
  have d: "acm_destroy (Some cp) (yg_acm t') = Some (yg_acm s')"
    using do_acm_result [OF t(4)] by (simp add: tt_stream_list_clear_def t(5))
  from apply_yang_success [OF t(3)] t(1,2) c d show ?thesis by blast
qed

text \<open>
  C11: The plugin uses the library by calls of its interface only, whatever the datastore holds, so it
  keeps the heap well-formed. A run that got a configuration destroys it on every path and clears its
  list of streams; it reports an error for the leaf exactly when it fails. A run that succeeds has
  built both modules from the datastore. For a new configuration it has then validated and applied
  it, with the identifier in the datastore or 0 when there is none; for a new schedule it has
  applied the schedule without a validation, with this identifier as the expected and the new one.
\<close>

theorem yang_run_ends_clean:
  assumes "process_acm_config env path schedule_change s = Some (ret, s')" "acm_create (yg_acm s) = (Some cp, a)"
    and "heap_wf (yg_acm s)" "macs_ok (st_env (yg_acm s))"
  shows "api_call\<^sup>*\<^sup>* (yg_acm s) (yg_acm s') \<and> heap_wf (yg_acm s') \<and> st_configs (yg_acm s') cp = None \<and> tt_streams s' = [] \<and>
    (ret = 0 \<and> yg_errors s' = yg_errors s \<or> ret = 1 \<and> (\<exists>code. yg_errors s' = (path, code) # yg_errors s)) \<and>
    (ret = 0 \<longrightarrow> (\<exists>i t1 t v.
       module_container env 0 ''/acm:acm/bypass1/*'' (Some cp) (tt_stream_list_init (s\<lparr>yg_acm := a\<rparr>)) = Some (0, t1) \<and>
       module_container env 1 ''/acm:acm/bypass2/*'' (Some cp) t1 = Some (0, t) \<and> api_call\<^sup>*\<^sup>* a (yg_acm t) \<and>
       (if schedule_change then acm_apply_schedule (Some cp) i i (yg_acm t) = Some (0, v)
        else \<exists>u. acm_validate_config cp (yg_acm t) = Some (0, u) \<and> acm_apply_config (Some cp) i u = Some (0, v)) \<and>
       acm_destroy (Some cp) v = Some (yg_acm s') \<and>
       (case sr_get_item env ''/acm:acm/configuration-id'' of None \<Rightarrow> i = 0 | Some n \<Rightarrow> uint32_val (sr_data n) = Some i)))"
proof -
  have e: "run_ended path cp s ret s'" by (rule process_ends [OF assms(1,2)])
  then have wf: "heap_wf (yg_acm s')" using calls_wf assms(3,4) by (auto simp: run_ended_def)
  note applied = success_applied [OF _ assms(2), of env path schedule_change s']
  show ?thesis
    using e wf assms(1) by (intro conjI impI applied) (auto simp: run_ended_def)
qed

text \<open>A datastore with an identifier and two empty modules, and a run for it.\<close>

definition ex_datastore :: sr_env where
  "ex_datastore = \<lparr>sr_get_items = (\<lambda>_. None),
     sr_get_item = (\<lambda>_. Some \<lparr>sr_xpath = ''/acm:acm/configuration-id'', sr_data = Sr_uint32 7\<rparr>),
     sr_xpath_node_name_eq = (\<lambda>p n. p = n), sr_xpath_key_value = (\<lambda>_ _ _. None), sr_alloc = (\<lambda>_. True), str_len = 256\<rparr>"

definition ex_plugin :: yang_state where
  "ex_plugin = \<lparr>yg_acm = initial_state ex_env [], tt_streams = [], yg_errors = []\<rparr>"

definition ex_created :: acm_state where
  "ex_created = snd (acm_create (initial_state ex_env []))"

lemma ex_created: "acm_create (yg_acm ex_plugin) = (Some 0, ex_created)"
  by (simp add: ex_plugin_def ex_created_def acm_create_def config_create_def acm_zalloc_def initial_state_def ex_env_def)

lemma ex_applies:
  "(do { (r1, u) \<leftarrow> acm_validate_config 0 ex_created; (r2, v) \<leftarrow> acm_apply_config (Some 0) 7 u;
     w \<leftarrow> acm_destroy (Some 0) v; Some (r1, r2) }) = Some (0, 0)"
  by code_simp

lemma ex_run: "\<exists>s'. process_acm_config ex_datastore ''config-change'' False ex_plugin = Some (0, s')"
proof -
  obtain u v w where "acm_validate_config 0 ex_created = Some (0, u)" "acm_apply_config (Some 0) 7 u = Some (0, v)"
      "acm_destroy (Some 0) v = Some w"
    using ex_applies by (auto simp: bind_eq_Some_conv)
  then show ?thesis
    by (simp add: process_acm_config_def ex_created module_container_def apply_yang_def ex_datastore_def on_acm_def
        do_acm_def if_ok_def tt_stream_list_init_def)
qed

theorem yang_run_ends_clean_witness:
  "\<exists>s'. process_acm_config ex_datastore ''config-change'' False ex_plugin = Some (0, s') \<and> heap_wf (yg_acm s') \<and>
    st_configs (yg_acm s') 0 = None"
proof -
  obtain s' where run: "process_acm_config ex_datastore ''config-change'' False ex_plugin = Some (0, s')"
    using ex_run ..
  have "yg_acm ex_plugin = initial_state ex_env []" "st_env (initial_state ex_env []) = ex_env"
    by (simp_all add: ex_plugin_def initial_state_def)
  then show ?thesis
    using yang_run_ends_clean [OF run ex_created] initial_wf ex_macs run by auto
qed

section \<open>Hexadecimal text\<close>

text \<open>Pairs of hexadecimal digits, small or capital, and the byte that a pair denotes.\<close>

definition hex_pair :: "char \<times> char \<Rightarrow> bool" where
  "hex_pair p = (is_digit_of 16 (fst p) \<and> is_digit_of 16 (snd p))"

definition pair_number :: "char \<times> char \<Rightarrow> nat" where
  "pair_number p = 16 * the (c_digit (fst p)) + the (c_digit (snd p))"

definition pair_byte :: "char \<times> char \<Rightarrow> u8" where
  "pair_byte p = word_of_nat (pair_number p)"

definition hex_text :: "(char \<times> char) list \<Rightarrow> string" where
  "hex_text ps = concat (map (\<lambda>(h, l). [h, l]) ps)"

fun dashed_text :: "(char \<times> char) list \<Rightarrow> string" where
  "dashed_text [] = []"
| "dashed_text [(h, l)] = [h, l]"
| "dashed_text ((h, l) # ps) = h # l # CHR ''-'' # dashed_text ps"

lemma digit_char_cases:
  assumes "is_digit_of 16 c" obtains d where "c_digit c = Some d" "d < 16"
  using assms by (auto simp: is_digit_of_def split: option.split_asm)

lemma digit_not_special:
  assumes "is_digit_of 16 c"
  shows "\<not> is_c_space c" "c \<noteq> CHR ''-''" "c \<noteq> CHR ''+''" "c \<noteq> CHR ''x''" "c \<noteq> CHR ''X''"
proof -
  obtain d where d: "c_digit c = Some d" "d < 16" using assms by (rule digit_char_cases)
  show "\<not> is_c_space c" using d by (auto simp: is_c_space_def c_digit_def Let_def split: if_split_asm)
  show "c \<noteq> CHR ''-''" "c \<noteq> CHR ''+''" "c \<noteq> CHR ''x''" "c \<noteq> CHR ''X''"
    using d by (auto simp: c_digit_def)
qed

lemma pair_value:
  assumes "hex_pair (h, l)"
  shows "c_strtoul_digits 16 False [h, l] = (word_of_nat (pair_number (h, l)), True, False)"
proof -
  obtain a where a: "c_digit h = Some a" "a < 16" using assms digit_char_cases by (auto simp: hex_pair_def)
  obtain b where b: "c_digit l = Some b" "b < 16" using assms digit_char_cases by (auto simp: hex_pair_def)
  show ?thesis
    using assms a b by (simp add: c_strtoul_digits_def hex_pair_def digits_value_def pair_number_def Let_def ac_simps)
qed

lemma pair_prefix: "c_strtoul_digits 16 False (h # l # rest) = c_strtoul_digits 16 False [h, l]"
  if "hex_pair (h, l)" "rest = [] \<or> \<not> is_digit_of 16 (hd rest)"
proof -
  have "takeWhile (is_digit_of 16) rest = []" using that(2) by (cases rest) auto
  then show ?thesis using that(1) by (simp add: c_strtoul_digits_def hex_pair_def)
qed

lemma no_sign: "is_digit_of 16 c \<Longrightarrow> c_sign (c # cs) = (False, c # cs)"
  using digit_not_special [of c] by (simp add: c_sign_def)

lemma pair_no_x: "hex_pair (h, l) \<Longrightarrow> l \<noteq> CHR ''x''" "hex_pair (h, l) \<Longrightarrow> l \<noteq> CHR ''X''"
  using digit_not_special [of l] by (simp_all add: hex_pair_def)

lemma scan_pair:
  assumes "hex_pair (h, l)"
  shows "\<exists>rest. c_scan_hex (Some 2) (h # l # cs) = Some (word_of_nat (pair_number (h, l)), rest)"
proof -
  have "dropWhile is_c_space (h # l # cs) = h # l # cs"
    using assms digit_not_special by (simp add: hex_pair_def)
  then show ?thesis
    using assms no_sign [of h "[l]"] pair_no_x [OF assms] pair_value [OF assms]
    by (simp add: c_scan_hex_def hex_pair_def Let_def)
qed

lemma scan_pair_dash:
  assumes "hex_pair (h, l)" "rest = [] \<or> hd rest = CHR ''-''"
  shows "c_scan_hex None (h # l # rest) = Some (word_of_nat (pair_number (h, l)), rest)"
proof -
  have d: "\<not> is_digit_of 16 CHR ''-''" by (simp add: is_digit_of_def c_digit_def)
  then have r: "rest = [] \<or> \<not> is_digit_of 16 (hd rest)" using assms(2) by auto
  have "dropWhile is_c_space (h # l # rest) = h # l # rest"
    using assms digit_not_special by (simp add: hex_pair_def)
  moreover have "dropWhile (is_digit_of 16) (h # l # rest) = rest"
    using assms(1) r by (cases rest) (auto simp: hex_pair_def)
  ultimately show ?thesis
    using no_sign [of h "l # rest"] assms(1) pair_no_x [OF assms(1)] pair_value [OF assms(1)]
      pair_prefix [OF assms(1) r]
    by (simp add: c_scan_hex_def hex_pair_def Let_def)
qed

lemma narrow_number:
  "LENGTH('b) \<le> LENGTH('a) \<Longrightarrow> ucast (word_of_nat n :: 'a::len word) = (word_of_nat n :: 'b::len word)"
  by (simp add: unsigned_of_nat word_of_nat_eq_iff)

lemma scan_bytes_pairs:
  assumes "list_all hex_pair ps" "i + length ps \<le> length buf"
  shows "scan_bytes (length ps) i (hex_text ps) buf =
    Some (take i buf @ map (Some \<circ> pair_byte) ps @ drop (i + length ps) buf)"
  using assms
proof (induction ps arbitrary: i buf)
  case Nil
  then show ?case by (simp add: hex_text_def)
next
  case (Cons p ps)
  obtain h l where p: "p = (h, l)" by (cases p)
  have "hex_pair (h, l)" using Cons.prems(1) p by simp
  then obtain rest where r: "c_scan_hex (Some 2) (h # l # hex_text ps) =
      Some (word_of_nat (pair_number (h, l)), rest)"
    using scan_pair by blast
  let ?buf = "buf[i := Some (pair_byte p)]"
  have "take (Suc i) ?buf = take i buf @ [Some (pair_byte p)]"
    using Cons.prems(2) by (simp add: take_Suc_conv_app_nth)
  moreover have "drop (Suc i + length ps) ?buf = drop (Suc i + length ps) buf" by simp
  moreover have "scan_bytes (length ps) (Suc i) (hex_text ps) ?buf =
      Some (take (Suc i) ?buf @ map (Some \<circ> pair_byte) ps @ drop (Suc i + length ps) ?buf)"
    using Cons.prems by (intro Cons.IH) simp_all
  ultimately show ?case
    using r Cons.prems(2)
    by (simp add: hex_text_def p pair_byte_def narrow_number)
qed

lemma scan_mac_pairs:
  assumes "list_all hex_pair ps"
  shows "map ucast (scan_mac (length ps) (dashed_text ps)) = map pair_byte ps"
  using assms
proof (induction ps rule: dashed_text.induct)
  case (2 h l)
  then show ?case using scan_pair_dash [of h l "[]"] by (simp add: pair_byte_def narrow_number)
next
  case (3 h l p ps)
  then show ?case using scan_pair_dash [of h l "CHR ''-'' # dashed_text (p # ps)"] by (simp add: pair_byte_def narrow_number)
qed simp

lemma hex_text_length: "length (hex_text ps) = 2 * length ps"
  by (induction ps) (auto simp: hex_text_def)

text \<open>
  C39: Whatever the datastore holds as hexadecimal text for bytes, with small or capital digits, is read
  back as these bytes: the header, mask and constant data of a stream when the text has the
  expected length, and the addresses of a stream written with dashes. Bytes of the array behind them
  keep their value; a text of another length changes nothing.
\<close>

theorem yang_hex_reads_back:
  assumes "list_all hex_pair ps" "map pair_byte ps = bs" "node_is env name n"
    and "sr_data n = Sr_string (if dashed then dashed_text ps else hex_text ps)"
    and "if dashed then length bs = 6 else length bs \<le> length buf"
  shows "if dashed then parse_mac_addr env name n buf = Some (map Some bs @ drop 6 buf)
    else parse_hex_string env name (length bs) n buf = Some (map Some bs @ drop (length bs) buf) \<and>
      parse_hex_string_add_const_data env name (length bs) n buf = Some (map Some bs @ drop (length bs) buf) \<and>
      (\<forall>k. k \<noteq> length bs \<longrightarrow> parse_hex_string env name k n buf = Some buf)"
proof (cases dashed)
  case True
  have l: "length ps = 6" using assms(2,5) True by auto
  have "map (\<lambda>x. Some (ucast x)) (scan_mac 6 (dashed_text ps)) = map Some (map ucast (scan_mac 6 (dashed_text ps)) :: u8 list)"
    by simp
  also have "\<dots> = map Some bs" using scan_mac_pairs [OF assms(1)] l assms(2) by simp
  finally have m: "map (\<lambda>x. Some (ucast x :: u8)) (scan_mac 6 (dashed_text ps)) = map Some bs" .
  then have "length (scan_mac 6 (dashed_text ps)) = 6" using assms(5) True by (metis length_map)
  then show ?thesis using True assms(3,4) m by (simp add: parse_mac_addr_def Let_def)
next
  case False
  have l: "length ps = length bs" using assms(2) by auto
  have "scan_bytes (length bs) 0 (hex_text ps) buf = Some (map Some bs @ drop (length bs) buf)"
    using scan_bytes_pairs [OF assms(1), of 0 buf] assms(2,5) False l by (simp flip: map_map)
  moreover have "hex_text ps = [] \<longleftrightarrow> bs = []" using hex_text_length [of ps] l by auto
  ultimately show ?thesis
    using False assms(3,4) hex_text_length [of ps] l
    by (auto simp: parse_hex_string_def parse_hex_string_add_const_data_def)
qed

theorem yang_hex_reads_back_witness:
  "parse_mac_addr \<lparr>sr_get_items = (\<lambda>_. None), sr_get_item = (\<lambda>_. None), sr_xpath_node_name_eq = (\<lambda>p n. p = n),
      sr_xpath_key_value = (\<lambda>_ _ _. None), sr_alloc = (\<lambda>_. True), str_len = 256\<rparr> ''source-address''
      \<lparr>sr_xpath = ''source-address'', sr_data = Sr_string ''0a-1B-00-ff-10-20''\<rparr> (replicate 6 None) =
    Some (map Some [0x0A, 0x1B, 0, 0xFF, 0x10, 0x20])"
proof -
  let ?env = "\<lparr>sr_get_items = (\<lambda>_. None), sr_get_item = (\<lambda>_. None), sr_xpath_node_name_eq = (\<lambda>p n. p = n),
      sr_xpath_key_value = (\<lambda>_ _ _. None), sr_alloc = (\<lambda>_. True), str_len = 256\<rparr>"
  let ?ps = "[(CHR ''0'', CHR ''a''), (CHR ''1'', CHR ''B''), (CHR ''0'', CHR ''0''), (CHR ''f'', CHR ''f''),
    (CHR ''1'', CHR ''0''), (CHR ''2'', CHR ''0'')]"
  let ?n = "\<lparr>sr_xpath = ''source-address'', sr_data = Sr_string ''0a-1B-00-ff-10-20''\<rparr>"
  have "list_all hex_pair ?ps" "map pair_byte ?ps = [0x0A, 0x1B, 0, 0xFF, 0x10, 0x20]"
    by (simp_all add: hex_pair_def is_digit_of_def c_digit_def pair_byte_def pair_number_def)
  from yang_hex_reads_back [OF this, of ?env "''source-address''" ?n True "replicate 6 None"]
  show ?thesis by (simp add: node_is_def)
qed

end
