(* ===== verification/Spec2Isabelle.thy ===== *)
theory Spec2Isabelle
  imports Acm_Api Acm_Buffer_Theorems Acm_Schedule_Theorems Acm_Limits_Theorems
    Acm_Table_Theorems Acm_Heap_Theorems Acm_Drv_Sched_Theorems Acm_Drv_Frame
    Acm_Drv_Status_Theorems Acm_Drv_Diag_Theorems Acm_Drv_Recovery_Theorems
    Acm_Drv_State_Theorems Acm_Drv_Counts_Theorems Acm_Drv_Device_Theorems
    Acm_Drv_Main Acm_Yang_Theorems
begin

text \<open>
  \<^bold>\<open>A verification development of the ACM library, its driver and its YANG plugin\<close>

  The program configures the TTTech ACM switch IP. The library \<^verbatim>\<open>libacmconfig\<close>
  (\<^verbatim>\<open>src/ngn.acm-config\<close>) lets a client build a configuration of up to two bypass modules; a module
  has streams, a stream has frame operations and schedule entries. Applying the configuration
  validates it, computes the positions of all commands in the tables of the hardware and writes
  the tables through attributes in sysfs. The kernel driver (\<^verbatim>\<open>src/ngn.ngn-dd/acm\<close>) provides these
  attributes: it checks offset and size of every access, keeps the state of the configuration,
  drives the row access of the schedulers, counts down recovery timeouts, accumulates diagnostic
  counters and reads and writes the registers of the IP. Both share the encodings of
  \<^verbatim>\<open>src/ngn.ngn-dd/acm/api/acmdrv.h\<close>. The YANG plugin (\<^verbatim>\<open>src/ngn.acm-yang\<close>) is a client of the library that
  builds and applies the configuration a datastore holds.

  \<^bold>\<open>State of the library.\<close> \<open>acm_state\<close> (\<^verbatim>\<open>Acm_Types\<close>) is the heap of the library: a partial map from
  addresses to records for every structure that others point to (streams, modules,
  configurations, schedule entries, message buffers), the next fresh address, the operating system
  as a parameter (\<open>acm_env\<close>: which allocations fail, the contents of the configuration file and of
  status attributes, the results of \<^verbatim>\<open>open\<close>, \<^verbatim>\<open>pwrite\<close> and \<^verbatim>\<open>pread\<close>, MAC addresses) and the log of all
  writes the hardware accepted. A function that may dereference a pointer returns an option:
  \<open>None\<close> is an access to an object that does not exist, or another undefined behaviour of C. Error
  codes are the negative integers of the code. Integers of the code that may overflow are words of
  their width; a few loop counters that cannot overflow are unbounded. Memory that was freed is not
  read: the removal of the commands of a schedule entry (\<^verbatim>\<open>remove_schedule_sysfs_items_schedule\<close> of
  \<^verbatim>\<open>module.c\<close>), whose loop goes on from the command it has just freed, has a result only when the
  entry has no command in the list (\<open>remove_schedule_defined\<close>).

  \<^bold>\<open>State of the driver.\<close> \<open>kacm\<close> (\<^verbatim>\<open>Acm_Drv_Base\<close>) is \<^verbatim>\<open>struct acm\<close> with the structures of its parts. The
  registers are not a memory but a device: \<open>k_io\<close> is the history of all accesses, newest first, and
  the value a read returns is the parameter \<open>rd16\<close> or \<open>rd32\<close> of the environment \<open>kenv\<close>, a function
  of that history. Theorems that need a register to behave as memory say so as a hypothesis.
  Interrupted locks, the PTP clock, the results of kernel services, the sizes of the mapped regions
  and the number of jiffies in a second are parameters of \<open>kenv\<close> as well. Times of the kernel
  (\<^verbatim>\<open>ktime_t\<close>) are 64 bit and wrap; the delays of delayed works are jiffies, rounded as the kernel
  rounds them. Addresses within a region are offsets, multi-byte
  values in buffers are little endian, as on the platforms of the driver.

  \<^bold>\<open>State of the plugin.\<close> \<open>yang_state\<close> (\<^verbatim>\<open>Acm_Yang\<close>) has the heap of the library, the list of streams by
  key and the errors set on the session. Sysrepo is the parameter \<open>sr_env\<close>; the nodes of the datastore
  are values of a union, and reading a member that was not stored has no result.

  \<^bold>\<open>Theories of the library\<close> (C files in \<^verbatim>\<open>src/ngn.acm-config/src\<close>):
  \<^item> \<^verbatim>\<open>Acm_Prelude\<close>: word types, pointers, error codes, loop combinators, general lemmas.
  \<^item> \<^verbatim>\<open>Acm_Types\<close>: enumerations, structures and constants (\<^verbatim>\<open>libacmconfig_def.h\<close>, \<^verbatim>\<open>stream.h\<close>,
    \<^verbatim>\<open>module.h\<close>, \<^verbatim>\<open>operation.h\<close>, \<^verbatim>\<open>schedule.h\<close>, \<^verbatim>\<open>buffer.h\<close>, \<^verbatim>\<open>lookup.h\<close>, \<^verbatim>\<open>hwconfig_def.h\<close>), heap access.
  \<^item> \<^verbatim>\<open>Acm_Configfile\<close>: the configuration file and the values taken from it (\<^verbatim>\<open>sysfs.c\<close>, \<^verbatim>\<open>module.c\<close>).
  \<^item> \<^verbatim>\<open>Acm_Operation\<close>: frame operations and their lists (\<^verbatim>\<open>operation.c\<close>).
  \<^item> \<^verbatim>\<open>Acm_Entries\<close>: lookup entries and schedule entries (\<^verbatim>\<open>lookup.c\<close>, \<^verbatim>\<open>schedule.c\<close>).
  \<^item> \<^verbatim>\<open>Acm_Stream_Index\<close>: operation counts and table positions (\<^verbatim>\<open>calculate_*_indizes\<close> of \<^verbatim>\<open>stream.c\<close>).
  \<^item> \<^verbatim>\<open>Acm_Sysfs_Io\<close>, \<^verbatim>\<open>Acm_Status\<close>: paths, reading and writing of attributes, status items,
    capabilities, diagnostics, versions (\<^verbatim>\<open>sysfs.c\<close>, \<^verbatim>\<open>status.c\<close>).
  \<^item> \<^verbatim>\<open>Acm_Text\<close>: printing of numbers, \<^verbatim>\<open>strtoull\<close> on printed numbers, bytes of words.
  \<^item> \<^verbatim>\<open>Acm_Msgbuf\<close>, \<^verbatim>\<open>Acm_Msgbuf_Spec\<close>: the message buffers (\<^verbatim>\<open>buffer.c\<close>, \<^verbatim>\<open>config.c\<close>).
  \<^item> \<^verbatim>\<open>Acm_Validate\<close>, \<^verbatim>\<open>Acm_Validate_Spec\<close>: validation (\<^verbatim>\<open>validate.c\<close>).
  \<^item> \<^verbatim>\<open>Acm_Driver_Api\<close>, \<^verbatim>\<open>Acm_Bitarray\<close>: the encodings of table entries and the bit arrays (\<^verbatim>\<open>acmdrv.h\<close>).
  \<^item> \<^verbatim>\<open>Acm_Fsc\<close>, \<^verbatim>\<open>Acm_Fsc_Spec\<close>, \<^verbatim>\<open>Acm_Fsc_Limits\<close>: the schedule table (\<^verbatim>\<open>sysfs.c\<close>).
  \<^item> \<^verbatim>\<open>Acm_Stream\<close>, \<^verbatim>\<open>Acm_Module\<close>: life cycle of streams, modules, configurations (\<^verbatim>\<open>stream.c\<close>,
    \<^verbatim>\<open>module.c\<close>, \<^verbatim>\<open>config.c\<close>).
  \<^item> \<^verbatim>\<open>Acm_Hw\<close>, \<^verbatim>\<open>Acm_Hw_Spec\<close>, \<^verbatim>\<open>Acm_Hw_Data_Spec\<close>: the tables of the hardware (\<^verbatim>\<open>sysfs.c\<close>).
  \<^item> \<^verbatim>\<open>Acm_Apply\<close>: applying a configuration (\<^verbatim>\<open>application.c\<close>, \<^verbatim>\<open>config.c\<close>, \<^verbatim>\<open>status.c\<close>).
  \<^item> \<^verbatim>\<open>Acm_Api\<close>: the library interface (\<^verbatim>\<open>libacmconfig.c\<close>).
  \<^item> \<^verbatim>\<open>Acm_Heap_Steps\<close>, \<^verbatim>\<open>Acm_Api_Steps\<close>, \<^verbatim>\<open>Acm_Reachable\<close>, \<^verbatim>\<open>Acm_Free\<close>, \<^verbatim>\<open>Acm_Quiet\<close>: the abstract heap
    machine, its invariant, and every function of the interface as a sequence of its steps.
  \<^item> \<^verbatim>\<open>Acm_Examples\<close>: the concrete states of the witnesses.

  \<^bold>\<open>Theories of the driver\<close> (C files in \<^verbatim>\<open>src/ngn.ngn-dd/acm\<close>):
  \<^item> \<^verbatim>\<open>Acm_Drv_Base\<close>: bit fields, state, register access, block copies (\<^verbatim>\<open>acmbitops.h\<close>, \<^verbatim>\<open>acmio.h\<close>).
  \<^item> \<^verbatim>\<open>Acm_Drv_Scheduler\<close>, \<^verbatim>\<open>Acm_Drv_Rows\<close>: table rows, times, clean-up (\<^verbatim>\<open>scheduler.c\<close>).
  \<^item> \<^verbatim>\<open>Acm_Drv_Bypass\<close>, \<^verbatim>\<open>Acm_Drv_Redundancy\<close>: modules, diagnostics, recovery (\<^verbatim>\<open>bypass.c\<close>, \<^verbatim>\<open>redundancy.c\<close>).
  \<^item> \<^verbatim>\<open>Acm_Drv_Msgbuf\<close>: message buffers, common registers, reset (\<^verbatim>\<open>msgbuf.c\<close>, \<^verbatim>\<open>commreg.c\<close>, \<^verbatim>\<open>reset.c\<close>).
  \<^item> \<^verbatim>\<open>Acm_Drv_State\<close>: devices and the states of the configuration (\<^verbatim>\<open>chardev.c\<close>, \<^verbatim>\<open>config.c\<close>, \<^verbatim>\<open>state.c\<close>).
  \<^item> \<^verbatim>\<open>Acm_Drv_Sysfs\<close>, \<^verbatim>\<open>Acm_Drv_Attrs\<close>, \<^verbatim>\<open>Acm_Drv_Status\<close>: the attributes (\<^verbatim>\<open>sysfs*.c\<close>).
  \<^item> \<^verbatim>\<open>Acm_Drv_Bridge\<close>: the writes of the library as the calls the driver gets.
  \<^item> \<^verbatim>\<open>Acm_Drv_Frame\<close>: which registers an operation leaves alone.
  \<^item> \<^verbatim>\<open>Acm_Drv_Main\<close>: probing, its labels, removing (\<^verbatim>\<open>main.c\<close>).
  \<^item> \<^verbatim>\<open>Acm_Drv_Examples\<close>: the driver the witnesses run.

  \<^bold>\<open>Theories of the plugin\<close> (C files in \<^verbatim>\<open>src/ngn.acm-yang\<close>): \<^verbatim>\<open>Acm_Yang_Parse\<close> reads values from nodes
  (\<^verbatim>\<open>source/parse_functions.c\<close>, \<^verbatim>\<open>common/common.c\<close>), \<^verbatim>\<open>Acm_Yang\<close> builds streams, modules and configurations and
  has the callbacks (\<^verbatim>\<open>acm.c\<close>).

  \<^bold>\<open>Theorems\<close> are in the theories named \<^verbatim>\<open>*_Theorems\<close> and in \<^verbatim>\<open>Acm_Drv_Rows\<close> and
  \<^verbatim>\<open>Acm_Drv_Main\<close>. For the library: message
  buffers, schedule tables, limits of the hardware (stated without reference to the checks that
  enforce them), contents of the tables, well-formed heaps. For
  the driver: rows, cycle and start times, diagnostics, recovery, states, locks, tables, devices,
  reset, and the undoing of a failed probe. The theorem about recovery iterates the whole recovery
  work, over the rules of both modules and all entries, and keeps the 32 bit wrap of the period. Several join both: the schedule of a module reaches the
  rows of the scheduler, and status items, capabilities and diagnostics arrive in the library as the
  driver found them. For the plugin: a run is a sequence of calls of the library that leaves no
  configuration behind, and hexadecimal text is read back as the bytes it stands for.

  \<^bold>\<open>Bounds.\<close> The loops of the code are structural recursions or functions with a termination
  measure; the retry counters of the driver (row transfer, diagnostics, reset lines) are those of
  the code. \<open>stream_delete\<close>, the reading of the diagnostic time and the waiting for the last cycle,
  which may not end, are partial functions whose value is then \<open>None\<close>.

  \<^bold>\<open>Not modelled\<close>: logging and tracing (output only), mutexes (one thread at a time; the state
  \<open>streams_locked\<close> only records the lock that one error path of the library leaves behind, and an
  interrupted \<^verbatim>\<open>mutex_lock_interruptible\<close> of the driver is a result of the environment), the
  registration of attribute groups with the kernel, the subscriptions and the startup datastore of
  the plugin, which are calls into sysrepo only, and the demonstration programs and tests.
\<close>

end
